(* ===== verification/Prelude.thy ===== *)
theory Prelude
  imports Main "HOL-Library.Word" "HOL-Library.State_Monad"
begin

unbundle bit_operations_syntax

text \<open>
  Shared vocabulary of the development: names for the machine integers of the C sources, the
  conditional bit-setting idiom \<^verbatim>\<open>if (b) w |= m;\<close>, big-endian byte views of 16-bit
  values, and the arithmetic facts about two's complement numbers that the flag computations of
  the 68000 model rest on. The collection \<open>machine_simps\<close> gathers the rewrite rules that
  component proofs hand to the simplifier.
\<close>

named_theorems machine_simps \<open>rewrite rules of the machine model\<close>

type_synonym u8 = "8 word"
type_synonym u16 = "16 word"
type_synonym u32 = "32 word"
type_synonym u64 = "64 word"

section \<open>Conditional bit setting\<close>

text \<open>\<^verbatim>\<open>if (b) w |= m;\<close>\<close>

definition orif :: "bool \<Rightarrow> 'a::len word \<Rightarrow> 'a word \<Rightarrow> 'a word" where
  "orif b m w = (if b then w OR m else w)"

lemma bit_orif [machine_simps]: "bit (orif b m w) n \<longleftrightarrow> bit w n \<or> b \<and> bit m n"
  by (simp add: orif_def bit_or_iff)

lemma orif_simps [simp]: "orif True m w = w OR m" "orif False m w = w"
  by (simp_all add: orif_def)

section \<open>Shifting loops end\<close>

lemma drop_bit_1_less: "v \<noteq> 0 \<Longrightarrow> unat (drop_bit 1 v) < unat v" for v :: u16
  by (simp add: drop_bit_eq_div unat_div_distrib div_less_dividend unat_gt_0)

section \<open>Big-endian bytes of a word\<close>

definition hi8 :: "u16 \<Rightarrow> u8" where
  "hi8 v = ucast (drop_bit 8 v)"

definition lo8 :: "u16 \<Rightarrow> u8" where
  "lo8 v = ucast v"

definition be16 :: "u8 \<Rightarrow> u8 \<Rightarrow> u16" where
  "be16 h l = push_bit 8 (ucast h) OR ucast l"

definition be32 :: "u16 \<Rightarrow> u16 \<Rightarrow> u32" where
  "be32 h l = push_bit 16 (ucast h) OR ucast l"

definition hi16 :: "u32 \<Rightarrow> u16" where
  "hi16 v = ucast (drop_bit 16 v)"

definition lo16 :: "u32 \<Rightarrow> u16" where
  "lo16 v = ucast v"

lemma hi8_be16 [simp]: "hi8 (be16 h l) = h"
  by (rule bit_word_eqI) (auto simp: hi8_def be16_def bit_simps dest: bit_imp_le_length)

lemma lo8_be16 [simp]: "lo8 (be16 h l) = l"
  by (rule bit_word_eqI) (auto simp: lo8_def be16_def bit_simps)

lemma be16_hi8_lo8 [simp]: "be16 (hi8 v) (lo8 v) = v"
  by (rule bit_word_eqI) (auto simp: hi8_def lo8_def be16_def bit_simps)

lemma hi16_be32 [simp]: "hi16 (be32 h l) = h"
  by (rule bit_word_eqI) (auto simp: hi16_def be32_def bit_simps dest: bit_imp_le_length)

lemma lo16_be32 [simp]: "lo16 (be32 h l) = l"
  by (rule bit_word_eqI) (auto simp: lo16_def be32_def bit_simps)

lemma be32_hi16_lo16 [simp]: "be32 (hi16 v) (lo16 v) = v"
  by (rule bit_word_eqI) (auto simp: hi16_def lo16_def be32_def bit_simps)

section \<open>Two's complement on integers\<close>

text \<open>
  \<open>twos h x\<close> reads \<open>0 \<le> x < 2 * h\<close> as a two's complement number whose sign bit has
  weight \<open>h\<close>. The three laws below are what the overflow flags of an adder and a subtracter
  compute.
\<close>

definition twos :: "int \<Rightarrow> int \<Rightarrow> int" where
  "twos h x = (if h \<le> x then x - 2 * h else x)"

lemma twos_range: "0 \<le> x \<Longrightarrow> x < 2 * h \<Longrightarrow> - h \<le> twos h x \<and> twos h x < h"
  by (auto simp: twos_def)

lemma signed_take_bit_twos:
  "signed_take_bit n x = twos (2 ^ n) (take_bit (Suc n) x)" for x :: int
proof -
  have eq: "take_bit (Suc n) x = of_bool (bit x n) * 2 ^ n + take_bit n x"
    by (simp add: take_bit_Suc_from_most)
  have "take_bit n x < 2 ^ n" "0 \<le> take_bit n x" by simp_all
  then have "bit x n \<longleftrightarrow> 2 ^ n \<le> take_bit (Suc n) x"
    unfolding eq by (cases "bit x n") (simp_all add: not_le)
  then show ?thesis
    by (simp add: twos_def signed_take_bit_eq_take_bit_minus)
qed

lemma sub_mod_cases:
  fixes a b m :: int
  assumes "0 \<le> a" "a < m" "0 \<le> b" "b < m"
  shows "(a - b) mod m = (if a < b then a - b + m else a - b)"
proof (cases "a < b")
  case True
  have "(a - b) mod m = (a - b + m) mod m" by simp
  also have "\<dots> = a - b + m" using True assms by (intro mod_pos_pos_trivial) auto
  finally show ?thesis using True by simp
qed (use assms in simp)

lemma add_mod_cases:
  fixes a b m :: int
  assumes "0 \<le> a" "a < m" "0 \<le> b" "b < m"
  shows "(a + b) mod m = (if m \<le> a + b then a + b - m else a + b)"
proof (cases "m \<le> a + b")
  case True
  have "(a + b) mod m = (a + b - m) mod m" by (simp add: mod_diff_right_eq)
  also have "\<dots> = a + b - m" using True assms by (intro mod_pos_pos_trivial) auto
  finally show ?thesis using True by simp
qed (use assms in simp)

lemma twos_less_iff_n_xor_v:
  fixes a b r h :: int
  assumes "0 \<le> a" "a < 2 * h" "0 \<le> b" "b < 2 * h" "r = (a - b) mod (2 * h)"
  shows "twos h a < twos h b \<longleftrightarrow>
    (h \<le> r) \<noteq> ((h \<le> a) \<noteq> (h \<le> b) \<and> (h \<le> a) \<noteq> (h \<le> r))"
  using assms by (auto simp: twos_def sub_mod_cases split: if_splits)

lemma twos_sub_overflow:
  fixes a b r h :: int
  assumes "0 \<le> a" "a < 2 * h" "0 \<le> b" "b < 2 * h" "r = (a - b) mod (2 * h)"
  shows "((h \<le> a) \<noteq> (h \<le> b) \<and> (h \<le> a) \<noteq> (h \<le> r)) \<longleftrightarrow> twos h r \<noteq> twos h a - twos h b"
  using assms by (auto simp: twos_def sub_mod_cases split: if_splits)

lemma twos_add_overflow:
  fixes a b r h :: int
  assumes "0 \<le> a" "a < 2 * h" "0 \<le> b" "b < 2 * h" "r = (a + b) mod (2 * h)"
  shows "((h \<le> a) = (h \<le> b) \<and> (h \<le> a) \<noteq> (h \<le> r)) \<longleftrightarrow> twos h r \<noteq> twos h a + twos h b"
  using assms by (auto simp: twos_def add_mod_cases split: if_splits)

end
