(* ===== verification/M68k_Alu.thy ===== *)
theory M68k_Alu
  imports Prelude
begin

text \<open>
  The arithmetic core of the Tier-3 68000 interpreter, \<^verbatim>\<open>runner/m68k_interp.c\<close>: the
  CPU state of \<^verbatim>\<open>genesis_runtime.h\<close>, operand sizes, the condition-code formulas, the
  condition evaluator, the shift/rotate engine, division, and the extended and packed-decimal
  arithmetic. Everything here is a function of the registers only; effective addresses and memory
  are in \<^verbatim>\<open>M68k_Interp\<close>. The lemmas relate each formula to the arithmetic it stands for:
  the flags of an addition or subtraction to carries and signed overflow, the sixteen conditions
  after a compare to integer comparisons, and so on.
\<close>

section \<open>CPU state, sizes\<close>

record M68KState =
  D_reg :: "nat \<Rightarrow> u32"
  A_reg :: "nat \<Rightarrow> u32"
  SR :: u16
  PC :: u32
  USP :: u32

definition setD :: "nat \<Rightarrow> u32 \<Rightarrow> M68KState \<Rightarrow> M68KState" where
  "setD r v c = c\<lparr>D_reg := (D_reg c)(r := v)\<rparr>"

definition setA :: "nat \<Rightarrow> u32 \<Rightarrow> M68KState \<Rightarrow> M68KState" where
  "setA r v c = c\<lparr>A_reg := (A_reg c)(r := v)\<rparr>"

definition modSR :: "(u16 \<Rightarrow> u16) \<Rightarrow> M68KState \<Rightarrow> M68KState" where
  "modSR f c = c\<lparr>SR := f (SR c)\<rparr>"

lemma cpu_update_simps [simp, machine_simps]:
  "D_reg (setD r v c) = (D_reg c)(r := v)" "A_reg (setD r v c) = A_reg c"
  "SR (setD r v c) = SR c" "PC (setD r v c) = PC c" "USP (setD r v c) = USP c"
  "D_reg (setA r v c) = D_reg c" "A_reg (setA r v c) = (A_reg c)(r := v)"
  "SR (setA r v c) = SR c" "PC (setA r v c) = PC c" "USP (setA r v c) = USP c"
  "D_reg (modSR f c) = D_reg c" "A_reg (modSR f c) = A_reg c"
  "SR (modSR f c) = f (SR c)" "PC (modSR f c) = PC c" "USP (modSR f c) = USP c"
  by (simp_all add: setD_def setA_def modSR_def)

definition SR_C :: u16 where "SR_C = 0x0001"
definition SR_V :: u16 where "SR_V = 0x0002"
definition SR_Z :: u16 where "SR_Z = 0x0004"
definition SR_N :: u16 where "SR_N = 0x0008"
definition SR_X :: u16 where "SR_X = 0x0010"

lemmas SR_defs = SR_C_def SR_V_def SR_Z_def SR_N_def SR_X_def

lemma SR_exps: "SR_C = 2 ^ 0" "SR_V = 2 ^ 1" "SR_Z = 2 ^ 2" "SR_N = 2 ^ 3" "SR_X = 2 ^ 4"
  by (simp_all add: SR_defs)

lemma bit_SR_flags [machine_simps]:
  "bit SR_C n \<longleftrightarrow> n = 0" "bit SR_V n \<longleftrightarrow> n = 1" "bit SR_Z n \<longleftrightarrow> n = 2"
  "bit SR_N n \<longleftrightarrow> n = 3" "bit SR_X n \<longleftrightarrow> n = 4"
  by (auto simp only: SR_exps bit_exp_iff possible_bit_word) simp_all

lemma clear_ccr_mask: "- 16 = NOT (mask 4 :: u16)" "- 32 = NOT (mask 5 :: u16)"
  by (simp_all add: mask_eq_exp_minus_1)

lemma bit_clear_ccr [machine_simps]:
  "bit (s AND - 16) n \<longleftrightarrow> 4 \<le> n \<and> bit s n" "bit (s AND - 32) n \<longleftrightarrow> 5 \<le> n \<and> bit s n"
  for s :: u16
  by (auto simp only: clear_ccr_mask bit_simps possible_bit_word not_less dest: bit_imp_le_length)

datatype M68KSize = M68K_SIZE_B | M68K_SIZE_W | M68K_SIZE_L

fun szmask :: "M68KSize \<Rightarrow> u32" where
  "szmask M68K_SIZE_B = 0xFF"
| "szmask M68K_SIZE_L = 0xFFFFFFFF"
| "szmask M68K_SIZE_W = 0xFFFF"

fun szbits :: "M68KSize \<Rightarrow> nat" where
  "szbits M68K_SIZE_B = 8"
| "szbits M68K_SIZE_L = 32"
| "szbits M68K_SIZE_W = 16"

fun szbytes :: "M68KSize \<Rightarrow> u32" where
  "szbytes M68K_SIZE_B = 1"
| "szbytes M68K_SIZE_L = 4"
| "szbytes M68K_SIZE_W = 2"

definition keepmask :: "M68KSize \<Rightarrow> u32" where
  "keepmask sz = (if sz = M68K_SIZE_B then 0xFFFFFF00
     else if sz = M68K_SIZE_W then 0xFFFF0000 else 0)"

definition store_dn :: "nat \<Rightarrow> u32 \<Rightarrow> M68KSize \<Rightarrow> M68KState \<Rightarrow> M68KState" where
  "store_dn r val sz c =
     (if sz = M68K_SIZE_L then setD r val c
      else setD r ((D_reg c r AND keepmask sz) OR (val AND szmask sz)) c)"

fun sext :: "u32 \<Rightarrow> M68KSize \<Rightarrow> u32" where
  "sext v M68K_SIZE_B = scast (ucast v :: u8)"
| "sext v M68K_SIZE_W = scast (ucast v :: u16)"
| "sext v M68K_SIZE_L = v"

section \<open>Condition codes\<close>

definition flags_logic :: "u32 \<Rightarrow> M68KSize \<Rightarrow> u16 \<Rightarrow> u16" where
  "flags_logic v sz sr =
     (let bits = szbits sz; fv = v AND szmask sz; sr = sr AND NOT 0x0F;
          sr = orif (fv = 0) SR_Z sr
      in orif (drop_bit (bits - 1) fv \<noteq> 0) SR_N sr)"

definition flags_add :: "u32 \<Rightarrow> u32 \<Rightarrow> u32 \<Rightarrow> M68KSize \<Rightarrow> u16 \<Rightarrow> u16" where
  "flags_add a b r sz sr =
     (let bits = szbits sz; m = szmask sz; sb = push_bit (bits - 1) (1 :: u32);
          fa = a AND m; fb = b AND m; fr = r AND m;
          sr = sr AND NOT 0x1F;
          sr = orif (fr = 0) SR_Z sr;
          sr = orif (drop_bit (bits - 1) fr \<noteq> 0) SR_N sr;
          sr = (if (ucast m :: u64) < ucast fa + ucast fb then (sr OR SR_C) OR SR_X else sr)
      in orif ((fa XOR fb) AND sb = 0 \<and> (fa XOR fr) AND sb \<noteq> 0) SR_V sr)"

definition flags_sub :: "u32 \<Rightarrow> u32 \<Rightarrow> u32 \<Rightarrow> M68KSize \<Rightarrow> u16 \<Rightarrow> u16" where
  "flags_sub a b r sz sr =
     (let bits = szbits sz; m = szmask sz; sb = push_bit (bits - 1) (1 :: u32);
          fa = a AND m; fb = b AND m; fr = r AND m;
          sr = sr AND NOT 0x1F;
          sr = orif (fr = 0) SR_Z sr;
          sr = orif (drop_bit (bits - 1) fr \<noteq> 0) SR_N sr;
          sr = (if fa < fb then (sr OR SR_C) OR SR_X else sr)
      in orif ((fa XOR fb) AND sb \<noteq> 0 \<and> (fa XOR fr) AND sb \<noteq> 0) SR_V sr)"

definition flags_cmp :: "u32 \<Rightarrow> u32 \<Rightarrow> u32 \<Rightarrow> M68KSize \<Rightarrow> u16 \<Rightarrow> u16" where
  "flags_cmp a b r sz sr =
     (let bits = szbits sz; m = szmask sz; sb = push_bit (bits - 1) (1 :: u32);
          fa = a AND m; fb = b AND m; fr = r AND m;
          sr = sr AND NOT 0x0F;
          sr = orif (fr = 0) SR_Z sr;
          sr = orif (drop_bit (bits - 1) fr \<noteq> 0) SR_N sr;
          sr = orif (fa < fb) SR_C sr
      in orif ((fa XOR fb) AND sb \<noteq> 0 \<and> (fa XOR fr) AND sb \<noteq> 0) SR_V sr)"

definition eval_cond :: "nat \<Rightarrow> u16 \<Rightarrow> bool" where
  "eval_cond cc s =
     (let C = bit s 0; V = bit s 1; Z = bit s 2; N = bit s 3; k = cc mod 16
      in if k = 0x0 then True
         else if k = 0x1 then False
         else if k = 0x2 then \<not> C \<and> \<not> Z
         else if k = 0x3 then C \<or> Z
         else if k = 0x4 then \<not> C
         else if k = 0x5 then C
         else if k = 0x6 then \<not> Z
         else if k = 0x7 then Z
         else if k = 0x8 then \<not> V
         else if k = 0x9 then V
         else if k = 0xA then \<not> N
         else if k = 0xB then N
         else if k = 0xC then N = V
         else if k = 0xD then N \<noteq> V
         else if k = 0xE then \<not> Z \<and> N = V
         else Z \<or> N \<noteq> V)"

section \<open>Mnemonics\<close>

text \<open>
  The mnemonics of the decoder that \<^verbatim>\<open>exec_one\<close> and the cycle estimate name, grouped by
  the case groups of \<^verbatim>\<open>exec_one\<close>; the last group has no case there and halts.
\<close>

datatype mn_move = MN_NOP | MN_MOVE | MN_MOVEA | MN_MOVEQ | MN_LEA | MN_PEA | MN_TST | MN_CLR
  | MN_EXT | MN_SWAP | MN_EXG

datatype mn_alu = MN_ADD | MN_SUB | MN_ADDA | MN_SUBA | MN_CMP | MN_CMPA | MN_CMPM | MN_AND | MN_OR
  | MN_EOR | MN_ADDQ | MN_SUBQ

datatype mn_imm = MN_ADDI | MN_SUBI | MN_CMPI | MN_ANDI | MN_ORI | MN_EORI

datatype mn_flow = MN_BRA | MN_Bcc | MN_BSR | MN_DBcc | MN_JMP | MN_JSR | MN_RTS | MN_RTR | MN_RTE

datatype mn_shift = MN_LSL | MN_LSR | MN_ASL | MN_ASR | MN_ROL | MN_ROR | MN_ROXL | MN_ROXR

datatype mn_bit = MN_BTST | MN_BCHG | MN_BCLR | MN_BSET | MN_NEG | MN_NEGX | MN_NOT | MN_TAS

datatype mn_mul = MN_MULU | MN_MULS | MN_DIVU | MN_DIVS | MN_MOVEM | MN_LINK | MN_UNLK | MN_Scc

datatype mn_sys = MN_MOVE_SR | MN_MOVE_CCR | MN_MOVE_USP | MN_ADDX | MN_SUBX
  | MN_ABCD | MN_SBCD | MN_NBCD | MN_ORI_TO_CCR | MN_ORI_TO_SR | MN_ANDI_TO_CCR | MN_ANDI_TO_SR
  | MN_EORI_TO_CCR | MN_EORI_TO_SR

datatype mn_halt = MN_STOP | MN_TRAP | MN_TRAPV | MN_CHK | MN_RESET | MN_ILLEGAL | MN_MOVEP | MN_OTHER

datatype M68KMnemonic = Move mn_move | Alu mn_alu | Imm mn_imm | Flow mn_flow | Shift mn_shift
  | Bitop mn_bit | Mul mn_mul | Sys mn_sys | Halt mn_halt

section \<open>Shift and rotate engine\<close>

text \<open>
  \<open>shift_core\<close> is the \<^verbatim>\<open>switch\<close> of \<^verbatim>\<open>do_shift\<close>: from the source operand,
  the count and the X flag, the result, the carry, the overflow, and the two flags that select the
  status update. The default case (\<^verbatim>\<open>return -1\<close>) is not reachable: the eight
  mnemonics of the group are the eight cases.
\<close>

definition shift_core ::
  "mn_shift \<Rightarrow> M68KSize \<Rightarrow> nat \<Rightarrow> u32 \<Rightarrow> bool \<Rightarrow> (u32 \<times> bool \<times> bool \<times> bool \<times> bool)"
where
  "shift_core mn sz cnt sv x =
    (let bits = szbits sz; m = szmask sz in
     case mn of
       MN_LSL \<Rightarrow>
         (if 0 < cnt \<and> cnt < bits then push_bit cnt sv AND m else if cnt = 0 then sv else 0,
               0 < cnt \<and> cnt \<le> bits \<and> drop_bit (bits - cnt) sv AND 1 \<noteq> 0, False, False, True)
     | MN_LSR \<Rightarrow>
         (if 0 < cnt \<and> cnt < bits then drop_bit cnt sv else if cnt = 0 then sv else 0,
               0 < cnt \<and> cnt \<le> bits \<and> drop_bit (cnt - 1) sv AND 1 \<noteq> 0, False, False, True)
     | MN_ASL \<Rightarrow>
         (if 0 < cnt \<and> cnt < bits then push_bit cnt sv AND m else if cnt = 0 then sv else 0,
               0 < cnt \<and> cnt \<le> bits \<and> drop_bit (bits - cnt) sv AND 1 \<noteq> 0,
               0 < cnt \<and>
                 (if bits \<le> cnt then sv \<noteq> 0
                  else (let top = drop_bit (bits - 1 - cnt) sv;
                            allm = ucast (push_bit (cnt + 1) (1 :: u64) - 1) :: u32
                        in top \<noteq> 0 \<and> top \<noteq> allm)),
               True, True)
     | MN_ASR \<Rightarrow>
         (let ssv = sext sv sz in
          (if 0 < cnt \<and> cnt < bits then signed_drop_bit cnt ssv AND m
                else if cnt = 0 then sv else if sint ssv < 0 then m else 0,
                if cnt = 0 then False
                else if cnt < bits then drop_bit (cnt - 1) sv AND 1 \<noteq> 0
                else drop_bit (bits - 1) sv AND 1 \<noteq> 0,
                False, True, True))
     | MN_ROL \<Rightarrow>
         (let cc = cnt mod bits;
              res = if cc \<noteq> 0 then (push_bit cc sv OR drop_bit (bits - cc) sv) AND m else sv
          in (res, cnt \<noteq> 0 \<and> res AND 1 \<noteq> 0, False, False, False))
     | MN_ROR \<Rightarrow>
         (let cc = cnt mod bits;
              res = if cc \<noteq> 0 then (drop_bit cc sv OR push_bit (bits - cc) sv) AND m else sv
          in (res, cnt \<noteq> 0 \<and> drop_bit (bits - 1) res AND 1 \<noteq> 0, False, False, False))
     | MN_ROXL \<Rightarrow>
         (let period = bits + 1; cc = cnt mod period;
              wide = (ucast sv :: u64) OR push_bit bits (of_bool x);
              rot = (push_bit cc wide OR (if cc \<noteq> 0 then drop_bit (period - cc) wide else 0))
                    AND (push_bit period 1 - 1)
          in (ucast (rot AND ucast m), drop_bit bits rot AND 1 \<noteq> 0, False, False, True))
     | MN_ROXR \<Rightarrow>
         (let period = bits + 1; cc = cnt mod period;
              wide = (ucast sv :: u64) OR push_bit bits (of_bool x);
              rot = (drop_bit cc wide OR (if cc \<noteq> 0 then push_bit (period - cc) wide else 0))
                    AND (push_bit period 1 - 1)
          in (ucast (rot AND ucast m), drop_bit bits rot AND 1 \<noteq> 0, False, False, True)))"

text \<open>The status-register tail of \<^verbatim>\<open>do_shift\<close>.\<close>

definition shift_tail ::
  "mn_shift \<Rightarrow> M68KSize \<Rightarrow> bool \<Rightarrow> nat \<Rightarrow> u32 \<times> bool \<times> bool \<times> bool \<times> bool \<Rightarrow> u16 \<Rightarrow> u16"
where
  "shift_tail mn sz reg_count cnt rcv sr =
    (case rcv of (res, c, v, with_v, touches_x) \<Rightarrow>
     let bits = szbits sz; neg = (drop_bit (bits - 1) res AND 1 \<noteq> 0) in
     if \<not> touches_x then
       (let sr = sr AND NOT 0x0F; sr = orif (res = 0) SR_Z sr; sr = orif neg SR_N sr
        in orif c SR_C sr)
     else if reg_count \<and> cnt = 0 then
       (let sr = sr AND NOT 0x0F; sr = orif (res = 0) SR_Z sr; sr = orif neg SR_N sr
        in orif ((mn = MN_ROXL \<or> mn = MN_ROXR) \<and> sr AND SR_X \<noteq> 0) SR_C sr)
     else
       (let sr = sr AND NOT 0x1F; sr = orif (res = 0) SR_Z sr; sr = orif neg SR_N sr;
            sr = (if c then (sr OR SR_C) OR SR_X else sr)
        in orif (with_v \<and> v) SR_V sr))"

definition do_shift ::
  "mn_shift \<Rightarrow> nat \<Rightarrow> M68KSize \<Rightarrow> bool \<Rightarrow> nat \<Rightarrow> nat \<Rightarrow> M68KState \<Rightarrow> M68KState"
where
  "do_shift mn dreg sz reg_count creg imm_count c =
    (let cnt = (if reg_count then unat (D_reg c creg AND 63) else imm_count);
         sv = D_reg c dreg AND szmask sz;
         rcv = shift_core mn sz cnt sv (bit (SR c) 4)
     in modSR (shift_tail mn sz reg_count cnt rcv) (store_dn dreg (fst rcv) sz c))"

section \<open>Division\<close>

definition do_div :: "nat \<Rightarrow> u32 \<Rightarrow> bool \<Rightarrow> M68KState \<Rightarrow> M68KState" where
  "do_div dr src16 is_signed c0 =
    (let dest = D_reg c0 dr; c = modSR (\<lambda>sr. sr AND NOT SR_C) c0 in
     if (ucast src16 :: u16) = 0 then c
     else
      (let src_neg = is_signed \<and> src16 AND 0x8000 \<noteq> 0;
           dest_neg = is_signed \<and> dest AND 0x80000000 \<noteq> 0;
           res_neg = (src_neg \<noteq> dest_neg);
           abs_src = (if src_neg then 0 - scast (ucast src16 :: u16) else ucast (ucast src16 :: u16)) :: u32;
           abs_dest = (if dest_neg then 0 - dest else dest);
           overflow = modSR (\<lambda>sr. ((sr OR SR_V) OR SR_N) AND NOT SR_Z) c
       in if drop_bit 16 abs_dest \<le> abs_src then
            (let abs_quo = abs_dest div abs_src in
             if (\<not> is_signed \<and> abs_quo \<le> 0xFFFF) \<or>
                (is_signed \<and> abs_quo \<le> (if res_neg then 0x8000 else 0x7FFF)) then
               (let abs_rem = abs_dest mod abs_src;
                    quo = (if res_neg then 0 - abs_quo else abs_quo);
                    rem = (if dest_neg then 0 - abs_rem else abs_rem);
                    c = setD dr ((quo AND 0xFFFF) OR push_bit 16 (rem AND 0xFFFF)) c
                in modSR (\<lambda>sr. orif (quo = 0) SR_Z (orif (quo AND 0x8000 \<noteq> 0) SR_N
                           (sr AND NOT (SR_N OR SR_Z OR SR_V)))) c)
             else overflow)
          else overflow))"

section \<open>Extended and packed-decimal arithmetic\<close>

text \<open>
  The operand-level part of \<^verbatim>\<open>do_addx_subx\<close>: \<open>a\<close> and \<open>b\<close> are the masked
  destination and source; the result and the new status register are returned.
\<close>

definition addx_subx_core :: "bool \<Rightarrow> M68KSize \<Rightarrow> u32 \<Rightarrow> u32 \<Rightarrow> u16 \<Rightarrow> u32 \<times> u16" where
  "addx_subx_core is_add sz a b sr =
    (let bits = szbits sz; m = szmask sz; sign = push_bit (bits - 1) (1 :: u32);
         x = of_bool (bit sr 4) :: u64;
         full = (if is_add then ucast a + ucast b + x else ucast a - ucast b - x) :: u64;
         r = ucast full AND m;
         zold = bit sr 2;
         sr = sr AND NOT 0x1F;
         sr = orif (r = 0 \<and> zold) SR_Z sr;
         sr = orif (drop_bit (bits - 1) r \<noteq> 0) SR_N sr;
         carry = (if is_add then bit full bits else bit full 63);
         sr = (if carry then (sr OR SR_C) OR SR_X else sr);
         v = (if is_add then (a XOR b) AND sign = 0 \<and> (a XOR r) AND sign \<noteq> 0
              else (a XOR b) AND sign \<noteq> 0 \<and> (a XOR r) AND sign \<noteq> 0)
     in (r, orif v SR_V sr))"

text \<open>The three byte computations of \<^verbatim>\<open>do_bcd\<close> and its flag tail.\<close>

definition abcd_core :: "u8 \<Rightarrow> u8 \<Rightarrow> bool \<Rightarrow> u8 \<times> bool" where
  "abcd_core a b x =
    (let lo = ucast (a AND 0xF) + ucast (b AND 0xF) + of_bool x :: u32;
         adj_lo = (if 9 < lo then 6 else 0);
         hi = ucast (drop_bit 4 a) + ucast (drop_bit 4 b) + drop_bit 4 (lo + adj_lo);
         adj_hi = (if 9 < hi then 6 else 0);
         full = push_bit 4 hi + adj_hi * 16 + ((lo + adj_lo) AND 0xF)
     in (ucast full, full AND 0x100 \<noteq> 0))"

definition sbcd_core :: "u8 \<Rightarrow> u8 \<Rightarrow> bool \<Rightarrow> u8 \<times> bool" where
  "sbcd_core a b x =
    (let lo = uint (a AND 0xF) - uint (b AND 0xF) - of_bool x :: int;
         adj_lo = (if lo < 0 then 6 else 0);
         hi = uint (drop_bit 4 a) - uint (drop_bit 4 b) - (if lo < 0 then 1 else 0);
         adj_hi = (if hi < 0 then 6 else 0);
         full = (hi AND 0xFF) * 16 - adj_hi * 16 + ((lo - adj_lo) AND 0xF)
     in (word_of_int full, hi < 0))"

definition nbcd_core :: "u8 \<Rightarrow> bool \<Rightarrow> u8 \<times> bool" where
  "nbcd_core a x =
    (let lo = - uint (a AND 0xF) - of_bool x :: int;
         adj_lo = (if lo < 0 then 6 else 0);
         hi = - uint (drop_bit 4 a) - (if lo < 0 then 1 else 0);
         adj_hi = (if hi < 0 then 6 else 0);
         full = (hi AND 0xFF) * 16 - adj_hi * 16 + ((lo - adj_lo) AND 0xF)
     in (word_of_int full, hi < 0))"

definition bcd_flags :: "u8 \<Rightarrow> bool \<Rightarrow> u16 \<Rightarrow> u16" where
  "bcd_flags r carry sr =
    (let zold = bit sr 2;
         sr = sr AND NOT SR_V;
         sr = (if r \<noteq> 0 then sr AND NOT SR_Z else orif zold SR_Z sr);
         sr = sr AND NOT (SR_C OR SR_X OR SR_N);
         sr = orif (r AND 0x80 \<noteq> 0) SR_N sr
     in if carry then (sr OR SR_C) OR SR_X else sr)"

section \<open>Sized operand values\<close>

text \<open>The unsigned and the two's complement value of the low bits of a register.\<close>

definition uval :: "M68KSize \<Rightarrow> u32 \<Rightarrow> int" where
  "uval sz v = take_bit (szbits sz) (uint v)"

definition sval :: "M68KSize \<Rightarrow> u32 \<Rightarrow> int" where
  "sval sz v = signed_take_bit (szbits sz - 1) (uint v)"

definition half :: "M68KSize \<Rightarrow> int" where
  "half sz = 2 ^ (szbits sz - 1)"

lemma szbits_pos [simp]: "0 < szbits sz" "szbits sz \<le> 32" "szbits sz \<noteq> 0"
  by (cases sz; simp)+

lemma szmask_eq_mask: "szmask sz = mask (szbits sz)"
  by (cases sz) (simp_all add: mask_eq_exp_minus_1)

lemma double_half: "2 * half sz = 2 ^ szbits sz"
  by (cases sz) (simp_all add: half_def)

lemma uval_masked: "uint (v AND szmask sz) = uval sz v"
  by (simp add: szmask_eq_mask uval_def unsigned_take_bit_eq flip: take_bit_eq_mask)

lemma uval_range: "0 \<le> uval sz v" "uval sz v < 2 * half sz"
  by (simp_all add: uval_def double_half)

lemma sval_twos: "sval sz v = twos (half sz) (uval sz v)"
  by (simp add: sval_def uval_def half_def signed_take_bit_twos)

lemma uval_sub: "uval sz (a - b) = (uval sz a - uval sz b) mod (2 * half sz)"
proof -
  have "uint (a - b) = take_bit 32 (uint a - uint b)"
    by transfer (simp add: take_bit_diff)
  then have "uval sz (a - b) = take_bit (szbits sz) (uint a - uint b)"
    by (simp add: uval_def min_absorb1)
  also have "\<dots> = take_bit (szbits sz) (uval sz a - uval sz b)"
    by (simp only: uval_def take_bit_diff)
  finally show ?thesis by (simp only: double_half take_bit_eq_mod)
qed

lemma uval_add: "uval sz (a + b) = (uval sz a + uval sz b) mod (2 * half sz)"
proof -
  have "uint (a + b) = take_bit 32 (uint a + uint b)"
    by transfer (simp add: take_bit_add)
  then have "uval sz (a + b) = take_bit (szbits sz) (uint a + uint b)"
    by (simp add: uval_def min_absorb1)
  also have "\<dots> = take_bit (szbits sz) (uval sz a + uval sz b)"
    by (simp only: uval_def take_bit_add)
  finally show ?thesis by (simp only: double_half take_bit_eq_mod)
qed

section \<open>What the flag formulas compute\<close>

lemma half_le_uval_iff: "half sz \<le> uval sz v \<longleftrightarrow> bit v (szbits sz - 1)"
proof -
  have "uval sz v = of_bool (bit v (szbits sz - 1)) * half sz + take_bit (szbits sz - 1) (uint v)"
    using take_bit_Suc_from_most [of "szbits sz - 1" "uint v"]
    by (simp add: uval_def half_def bit_uint_iff)
      (use szbits_pos(2) [of sz] in linarith)
  moreover have "0 \<le> take_bit (szbits sz - 1) (uint v)" "take_bit (szbits sz - 1) (uint v) < half sz"
    by (simp_all add: half_def)
  ultimately show ?thesis by (cases "bit v (szbits sz - 1)") auto
qed

lemma masked_zero_iff: "v AND szmask sz = 0 \<longleftrightarrow> uval sz v = 0"
  by (metis uint_0_iff uval_masked)

lemma masked_sign_iff: "drop_bit (szbits sz - 1) (v AND szmask sz) \<noteq> 0 \<longleftrightarrow> bit v (szbits sz - 1)"
proof -
  have "drop_bit (szbits sz - 1) (v AND szmask sz) = (if bit v (szbits sz - 1) then 1 else 0)"
    by (rule bit_word_eqI; cases sz) (auto simp: szmask_eq_mask bit_simps bit_1_iff intro: gr0I)
  then show ?thesis by simp
qed

lemma masked_less_iff: "a AND szmask sz < b AND szmask sz \<longleftrightarrow> uval sz a < uval sz b"
  by (simp add: word_less_def uval_masked)

lemma xor_sign_iff:
  "((a AND szmask sz) XOR (b AND szmask sz)) AND push_bit (szbits sz - 1) 1 = 0 \<longleftrightarrow>
     (bit a (szbits sz - 1) = bit b (szbits sz - 1))"
  unfolding szmask_eq_mask
  by (simp add: push_bit_of_1 and_exp_eq_0_iff_not_bit bit_simps)
    (cases sz; simp)

lemmas masked_flag_iffs = masked_zero_iff masked_sign_iff masked_less_iff xor_sign_iff

lemma carry_sum_iff:
  "(ucast (szmask sz) :: u64) < ucast (a AND szmask sz) + ucast (b AND szmask sz) \<longleftrightarrow>
     2 * half sz \<le> uval sz a + uval sz b"
proof -
  have lt: "uval sz x < 2 ^ 32" "0 \<le> uval sz x" for x
    using uval_range [of sz x] by (cases sz; simp add: half_def)+
  have "uint (ucast (a AND szmask sz) + ucast (b AND szmask sz) :: u64) = uval sz a + uval sz b"
    using lt [of a] lt [of b]
    by (simp add: uint_word_ariths unsigned_ucast_eq uval_masked take_bit_eq_mod)
  moreover have "uint (ucast (szmask sz) :: u64) = 2 * half sz - 1"
    by (cases sz) (simp_all add: half_def)
  ultimately show ?thesis unfolding word_less_def by linarith
qed

lemma flags_cmp_bits:
  fixes a b r sz sr
  defines "s \<equiv> flags_cmp a b r sz sr"
  shows "bit s 0 \<longleftrightarrow> uval sz a < uval sz b"
    and "bit s 1 \<longleftrightarrow> (half sz \<le> uval sz a) \<noteq> (half sz \<le> uval sz b) \<and>
                    (half sz \<le> uval sz a) \<noteq> (half sz \<le> uval sz r)"
    and "bit s 2 \<longleftrightarrow> uval sz r = 0"
    and "bit s 3 \<longleftrightarrow> half sz \<le> uval sz r"
    and "4 \<le> n \<Longrightarrow> bit s n = bit sr n"
  unfolding s_def flags_cmp_def Let_def masked_flag_iffs
  by (auto simp: machine_simps half_le_uval_iff)

lemma flags_sub_bits:
  fixes a b r sz sr
  defines "s \<equiv> flags_sub a b r sz sr"
  shows "bit s 0 \<longleftrightarrow> uval sz a < uval sz b"
    and "bit s 1 \<longleftrightarrow> (half sz \<le> uval sz a) \<noteq> (half sz \<le> uval sz b) \<and>
                    (half sz \<le> uval sz a) \<noteq> (half sz \<le> uval sz r)"
    and "bit s 2 \<longleftrightarrow> uval sz r = 0"
    and "bit s 3 \<longleftrightarrow> half sz \<le> uval sz r"
    and "bit s 4 \<longleftrightarrow> uval sz a < uval sz b"
    and "5 \<le> n \<Longrightarrow> bit s n = bit sr n"
  unfolding s_def flags_sub_def Let_def masked_flag_iffs
  by (auto simp: machine_simps bit_or_iff half_le_uval_iff)

lemma flags_add_bits:
  fixes a b r sz sr
  defines "s \<equiv> flags_add a b r sz sr"
  shows "bit s 0 \<longleftrightarrow> 2 * half sz \<le> uval sz a + uval sz b"
    and "bit s 1 \<longleftrightarrow> (half sz \<le> uval sz a) = (half sz \<le> uval sz b) \<and>
                    (half sz \<le> uval sz a) \<noteq> (half sz \<le> uval sz r)"
    and "bit s 2 \<longleftrightarrow> uval sz r = 0"
    and "bit s 3 \<longleftrightarrow> half sz \<le> uval sz r"
    and "bit s 4 \<longleftrightarrow> 2 * half sz \<le> uval sz a + uval sz b"
    and "5 \<le> n \<Longrightarrow> bit s n = bit sr n"
  unfolding s_def flags_add_def Let_def masked_flag_iffs carry_sum_iff
  by (auto simp: machine_simps bit_or_iff half_le_uval_iff)

lemma flags_logic_bits:
  fixes v sz sr
  defines "s \<equiv> flags_logic v sz sr"
  shows "\<not> bit s 0" and "\<not> bit s 1" and "bit s 2 \<longleftrightarrow> uval sz v = 0"
    and "bit s 3 \<longleftrightarrow> half sz \<le> uval sz v" and "4 \<le> n \<Longrightarrow> bit s n = bit sr n"
  unfolding s_def flags_logic_def Let_def masked_flag_iffs
  by (auto simp: machine_simps half_le_uval_iff)

lemma uval_diff_zero_iff: "uval sz (a - b) = 0 \<longleftrightarrow> uval sz a = uval sz b"
  using uval_range [of sz a] uval_range [of sz b]
  by (auto simp: uval_sub sub_mod_cases)

lemma sval_neg_iff: "sval sz v < 0 \<longleftrightarrow> half sz \<le> uval sz v"
  using uval_range [of sz v] by (auto simp: sval_twos twos_def)

lemma uval_eq_iff_sval: "uval sz a = uval sz b \<longleftrightarrow> sval sz a = sval sz b"
  using uval_range [of sz a] uval_range [of sz b] by (auto simp: sval_twos twos_def)

lemma signed_less_iff_n_xor_v:
  "sval sz a < sval sz b \<longleftrightarrow>
     (half sz \<le> uval sz (a - b)) \<noteq>
     ((half sz \<le> uval sz a) \<noteq> (half sz \<le> uval sz b) \<and>
      (half sz \<le> uval sz a) \<noteq> (half sz \<le> uval sz (a - b)))"
  unfolding sval_twos by (rule twos_less_iff_n_xor_v [OF uval_range uval_range uval_sub])

text \<open>
  C1: after the flag computation of a compare of two operands of any size, each of the sixteen
  branch conditions of the 68000 decides the comparison it is named after: HI/LS/CC/CS the
  unsigned order, GE/LT/GT/LE the signed order, EQ/NE equality, MI/PL the sign of the difference
  and VS/VC whether the signed difference leaves the range of the size.
\<close>

theorem cmp_conditions:
  "let s = flags_cmp a b (a - b) sz sr in
      (eval_cond 0x2 s \<longleftrightarrow> uval sz a > uval sz b) \<and> (eval_cond 0x3 s \<longleftrightarrow> uval sz a \<le> uval sz b)
    \<and> (eval_cond 0x4 s \<longleftrightarrow> uval sz a \<ge> uval sz b) \<and> (eval_cond 0x5 s \<longleftrightarrow> uval sz a < uval sz b)
    \<and> (eval_cond 0x6 s \<longleftrightarrow> uval sz a \<noteq> uval sz b) \<and> (eval_cond 0x7 s \<longleftrightarrow> uval sz a = uval sz b)
    \<and> (eval_cond 0x8 s \<longleftrightarrow> sval sz (a - b) = sval sz a - sval sz b)
    \<and> (eval_cond 0x9 s \<longleftrightarrow> sval sz (a - b) \<noteq> sval sz a - sval sz b)
    \<and> (eval_cond 0xA s \<longleftrightarrow> sval sz (a - b) \<ge> 0) \<and> (eval_cond 0xB s \<longleftrightarrow> sval sz (a - b) < 0)
    \<and> (eval_cond 0xC s \<longleftrightarrow> sval sz a \<ge> sval sz b) \<and> (eval_cond 0xD s \<longleftrightarrow> sval sz a < sval sz b)
    \<and> (eval_cond 0xE s \<longleftrightarrow> sval sz a > sval sz b) \<and> (eval_cond 0xF s \<longleftrightarrow> sval sz a \<le> sval sz b)
    \<and> eval_cond 0x0 s \<and> \<not> eval_cond 0x1 s"
proof -
  let ?s = "flags_cmp a b (a - b) sz sr"
  note bits = flags_cmp_bits [where a = a and b = b and r = "a - b" and sz = sz and sr = sr]
  have lt: "sval sz a < sval sz b \<longleftrightarrow> bit ?s 3 \<noteq> bit ?s 1"
    unfolding bits(2,4) by (rule signed_less_iff_n_xor_v)
  have eq: "bit ?s 2 \<longleftrightarrow> sval sz a = sval sz b"
    unfolding bits(3) uval_diff_zero_iff by (rule uval_eq_iff_sval)
  have eq': "bit ?s 2 \<longleftrightarrow> uval sz a = uval sz b"
    unfolding bits(3) by (rule uval_diff_zero_iff)
  have neg: "sval sz (a - b) < 0 \<longleftrightarrow> bit ?s 3"
    unfolding bits(4) by (rule sval_neg_iff)
  have ovf: "bit ?s 1 \<longleftrightarrow> sval sz (a - b) \<noteq> sval sz a - sval sz b"
    unfolding bits(2) sval_twos by (rule twos_sub_overflow [OF uval_range uval_range uval_sub])
  have "uval sz a < uval sz b \<longleftrightarrow> bit ?s 0" by (rule bits(1) [symmetric])
  with lt eq eq' neg ovf show ?thesis
    by (auto simp: eval_cond_def Let_def not_less not_le)
qed

end
