(* ===== verification/M68k_Arith.thy ===== *)
theory M68k_Arith
  imports M68k_Alu
begin

text \<open>
  What the arithmetic routines of \<^verbatim>\<open>M68k_Alu\<close> compute, stated over integers: arithmetic
  shifts as multiplication and division by powers of two with an exact overflow flag, rotates as
  bijections, multi-precision addition and subtraction through the X flag, division with its
  overflow case, and packed-decimal arithmetic.
\<close>

section \<open>Sized stores\<close>

lemma szbits_not_le_pred [simp]: "\<not> szbits sz \<le> szbits sz - Suc 0"
  by (cases sz) simp_all

lemma uval_and_szmask [simp]: "uval sz (v AND szmask sz) = uval sz v"
  by (simp add: uval_def szmask_eq_mask unsigned_take_bit_eq flip: take_bit_eq_mask)

lemma uval_store_dn [simp]: "uval sz (D_reg (store_dn r v sz c) r) = uval sz v"
proof -
  have "(x AND keepmask sz OR v AND szmask sz) AND szmask sz = v AND szmask sz" for x :: u32
    by (cases sz) (simp_all add: keepmask_def bit.conj_disj_distrib2 and.assoc)
  then show ?thesis
    unfolding store_dn_def by (metis cpu_update_simps(1) fun_upd_same szmask.simps(2) uval_and_szmask)
qed

lemma store_dn_frame:
  "D_reg (store_dn r v sz c) r' = D_reg c r'" if "r' \<noteq> r"
  using that by (simp add: store_dn_def)

lemma store_dn_other [simp]:
  "A_reg (store_dn r v sz c) = A_reg c" "SR (store_dn r v sz c) = SR c"
  "PC (store_dn r v sz c) = PC c" "USP (store_dn r v sz c) = USP c"
  by (simp_all add: store_dn_def)

lemma store_dn_keeps_upper:
  "D_reg (store_dn r v sz c) r AND keepmask sz = D_reg c r AND keepmask sz"
  by (cases sz) (simp_all add: store_dn_def keepmask_def bit.conj_disj_distrib2 and.assoc)

section \<open>Arithmetic shifts\<close>

lemma uint_mask_small: "n \<le> LENGTH('a) \<Longrightarrow> uint (mask n :: 'a::len word) = 2 ^ n - 1"
  by (transfer; simp only: take_bit_of_mask min_absorb2) (simp add: mask_eq_exp_minus_1)

lemma sval_cong: "uval sz a = uval sz b \<Longrightarrow> sval sz a = sval sz b"
  by (simp add: sval_twos)

lemma sval_signed_take_bit: "sval sz v = signed_take_bit (szbits sz - 1) (uval sz v)"
  by (simp add: sval_def uval_def signed_take_bit_take_bit)

lemma sval_eq_iff_take_bit:
  "uval sz v = take_bit (szbits sz) k \<Longrightarrow> sval sz v = signed_take_bit (szbits sz - 1) k"
  by (simp add: sval_signed_take_bit signed_take_bit_take_bit)

lemma take_bit_uval_sval: "take_bit (szbits sz) (sval sz v) = uval sz v"
  by (simp add: sval_def uval_def take_bit_signed_take_bit)

lemma take_bit_mult_left: "take_bit n (take_bit n a * b) = take_bit n (a * b)" for a b :: int
  by (metis min.idem take_bit_mult take_bit_take_bit)

lemma uint_push_mask: "uval sz (push_bit n v) = take_bit (szbits sz) (uval sz v * 2 ^ n)"
proof -
  have "uint (push_bit n v) = take_bit 32 (uint v * 2 ^ n)"
    by transfer (simp add: push_bit_eq_mult take_bit_mult_left)
  then show ?thesis
    by (simp add: uval_def min_absorb1 take_bit_mult_left)
qed

lemma uval_drop_le: "uint (drop_bit n (v AND szmask sz)) = uval sz v div 2 ^ n"
proof -
  have "take_bit 32 (uval sz v) = uval sz v"
    by (simp add: uval_def min_absorb2)
  then show ?thesis by (subst unsigned_drop_bit_eq) (simp add: uval_masked drop_bit_eq_div)
qed

lemma shift_sign_bit_iff: "drop_bit n v AND 1 \<noteq> 0 \<longleftrightarrow> bit v n" for v :: u32
  by (simp add: and_one_eq bit_iff_odd_drop_bit odd_iff_mod_2_eq_one)

lemma asl_top_bits:
  fixes h s t :: int
  assumes n: "0 < n" "cnt < n" and s: "0 \<le> s" "s < 2 ^ n"
    and t: "t = s div 2 ^ (n - 1 - cnt)"
  shows "t \<noteq> 0 \<and> t \<noteq> 2 ^ (cnt + 1) - 1 \<longleftrightarrow>
    \<not> (- (2 ^ (n - 1)) \<le> twos (2 ^ (n - 1)) s * 2 ^ cnt \<and> twos (2 ^ (n - 1)) s * 2 ^ cnt < 2 ^ (n - 1))"
proof -
  define q :: int where "q = 2 ^ (n - 1 - cnt)"
  define p :: int where "p = 2 ^ cnt"
  have pos: "0 < q" "0 < p" by (simp_all add: q_def p_def)
  have h: "(2::int) ^ (n - 1) = p * q" and nn: "(2::int) ^ n = 2 * (p * q)"
    using n by (simp_all add: p_def q_def flip: power_add power_Suc)
  have "s = t * q + s mod q" "0 \<le> s mod q" "s mod q < q"
    using pos div_mult_mod_eq [of s q] by (simp_all only: t flip: q_def) simp_all
  then have lo: "t * q \<le> s" and hi: "s < t * q + q" by linarith+
  have tmono: "t * q < u * q \<longleftrightarrow> t < u" "u * q \<le> t * q \<longleftrightarrow> u \<le> t" for u
    using pos by simp_all
  have p1: "1 \<le> p" using pos by linarith
  show ?thesis
  proof (cases "p * q \<le> s")
    case False
    have t0: "0 \<le> t" using s(1) by (simp add: t pos_imp_zdiv_nonneg_iff)
    have "t * q < p * q" using lo False by linarith
    then have "t \<noteq> 2 * p - 1" using tmono(1) [of p] p1 by auto
    moreover have "s * p < p * q \<longleftrightarrow> t = 0"
    proof -
      have "s * p < p * q \<longleftrightarrow> s < q" using pos by (simp add: mult.commute)
      also have "\<dots> \<longleftrightarrow> t = 0"
      proof -
        have "q \<le> t * q" if "t \<noteq> 0"
          using that t0 pos by (simp add: mult_le_cancel_right1)
        then have "\<not> s < q" if "t \<noteq> 0" using that lo by linarith
        then show ?thesis using hi by (cases "t = 0") simp_all
      qed
      finally show ?thesis .
    qed
    moreover have "- (p * q) \<le> s * p"
      using s(1) pos by (smt (verit) mult_nonneg_nonneg mult_pos_pos)
    ultimately show ?thesis
      using False unfolding twos_def h by (simp add: p_def [symmetric])
  next
    case True
    have q: "q \<le> p * q" using p1 pos by simp
    have "t \<noteq> 0" using hi True q by auto
    moreover have "(s - 2 * (p * q)) * p < p * q"
      using s(2) nn pos by (smt (verit) mult_neg_pos mult_pos_pos)
    moreover have "- (p * q) \<le> (s - 2 * (p * q)) * p \<longleftrightarrow> t = 2 * p - 1"
    proof -
      have "- (p * q) \<le> (s - 2 * (p * q)) * p \<longleftrightarrow> - q * p \<le> (s - 2 * (p * q)) * p"
        by (simp add: mult.commute)
      also have "\<dots> \<longleftrightarrow> - q \<le> s - 2 * (p * q)"
        using pos by (simp only: mult_le_cancel_right_pos)
      also have "\<dots> \<longleftrightarrow> (2 * p - 1) * q \<le> s"
        by (auto simp: algebra_simps)
      also have "\<dots> \<longleftrightarrow> 2 * p - 1 \<le> t"
      proof
        assume "(2 * p - 1) * q \<le> s"
        show "2 * p - 1 \<le> t"
        proof (rule ccontr)
          assume "\<not> 2 * p - 1 \<le> t"
          then have "(t + 1) * q \<le> (2 * p - 1) * q" using pos by (intro mult_right_mono) auto
          with \<open>(2 * p - 1) * q \<le> s\<close> hi show False by (simp add: distrib_right)
        qed
      next
        assume "2 * p - 1 \<le> t"
        then have "(2 * p - 1) * q \<le> t * q" using pos by (intro mult_right_mono) auto
        with lo show "(2 * p - 1) * q \<le> s" by linarith
      qed
      also have "\<dots> \<longleftrightarrow> t = 2 * p - 1"
        using lo s(2) nn tmono(1) [of "2 * p"] by (auto simp: algebra_simps)
      finally show ?thesis .
    qed
    ultimately show ?thesis
      using True unfolding twos_def h by (simp add: p_def [symmetric])
  qed
qed

lemma uval_zero [simp]: "uval sz 0 = 0"
  by (simp add: uval_def)

lemma sval_in_range_iff:
  "signed_take_bit (szbits sz - 1) k = k \<longleftrightarrow> - half sz \<le> k \<and> k < half sz"
  by (simp add: signed_take_bit_int_eq_self_iff half_def)

lemma nonzero_mult_out_of_range:
  fixes h p k :: int
  assumes "0 < h" "h < p" "k \<noteq> 0"
  shows "\<not> (- h \<le> k * p \<and> k * p < h)"
proof (cases "0 < k")
  case True
  then have "1 * p \<le> k * p" using assms by (intro mult_right_mono) auto
  then show ?thesis using assms by linarith
next
  case False
  then have "k * p \<le> (- 1) * p" using assms by (intro mult_right_mono) auto
  then show ?thesis using assms by linarith
qed

lemma asl_core:
  fixes sz cnt w x
  defines "rcv \<equiv> shift_core MN_ASL sz cnt (w AND szmask sz) x"
  shows "uval sz (fst rcv) = take_bit (szbits sz) (uval sz w * 2 ^ cnt)"
    and "fst (snd (snd rcv)) \<longleftrightarrow> \<not> (- half sz \<le> sval sz w * 2 ^ cnt \<and> sval sz w * 2 ^ cnt < half sz)"
proof -
  have big: "take_bit (szbits sz) (uval sz w * 2 ^ cnt) = 0" if "szbits sz \<le> cnt"
    using that by (simp add: take_bit_eq_0_iff dvd_mult le_imp_power_dvd)
  then show "uval sz (fst rcv) = take_bit (szbits sz) (uval sz w * 2 ^ cnt)"
    by (auto simp: rcv_def shift_core_def Let_def uint_push_mask simp del: push_bit_and)
       (simp add: uval_def)
  show "fst (snd (snd rcv)) \<longleftrightarrow> \<not> (- half sz \<le> sval sz w * 2 ^ cnt \<and> sval sz w * 2 ^ cnt < half sz)"
  proof (cases "cnt < szbits sz")
    case True
    let ?top = "drop_bit (szbits sz - 1 - cnt) (w AND szmask sz)"
    have allm: "uint (ucast (push_bit (cnt + 1) (1 :: u64) - 1) :: u32) = 2 ^ (cnt + 1) - 1"
    proof -
      have m: "push_bit (cnt + 1) (1 :: u64) - 1 = mask (cnt + 1)"
        by (simp add: mask_eq_exp_minus_1 push_bit_of_1)
      have le: "cnt + 1 \<le> 32" using True szbits_pos(2) [of sz] by linarith
      have "(ucast (mask (cnt + 1) :: u64) :: u32) = mask (cnt + 1)"
        by (rule bit_word_eqI) (use le in \<open>auto simp: bit_simps\<close>)
      then show ?thesis
        unfolding m using le by (simp add: uint_mask_small)
    qed
    have "(?top \<noteq> 0 \<and> ?top \<noteq> ucast (push_bit (cnt + 1) (1 :: u64) - 1)) \<longleftrightarrow>
      (uint ?top \<noteq> 0 \<and> uint ?top \<noteq> 2 ^ (cnt + 1) - 1)"
      unfolding allm [symmetric] by (simp add: word_uint_eq_iff)
    also have "\<dots> \<longleftrightarrow> \<not> (- half sz \<le> sval sz w * 2 ^ cnt \<and> sval sz w * 2 ^ cnt < half sz)"
      unfolding sval_twos half_def
      by (rule asl_top_bits [OF _ True _ _ uval_drop_le])
        (use uval_range [of sz w] double_half [of sz] in simp_all)
    finally have *: "(?top \<noteq> 0 \<and> ?top \<noteq> ucast (push_bit (cnt + 1) (1 :: u64) - 1)) \<longleftrightarrow>
      \<not> (- half sz \<le> sval sz w * 2 ^ cnt \<and> sval sz w * 2 ^ cnt < half sz)" .
    show ?thesis
    proof (cases "cnt = 0")
      case True
      then show ?thesis
        using twos_range [OF uval_range [of sz w]] by (simp add: rcv_def shift_core_def Let_def sval_twos)
    next
      case False
      with True * show ?thesis by (simp add: rcv_def shift_core_def Let_def)
    qed
  next
    case False
    have "w AND szmask sz \<noteq> 0 \<longleftrightarrow> sval sz w \<noteq> 0"
      unfolding masked_zero_iff using uval_eq_iff_sval [of sz w 0] by (simp add: sval_twos twos_def half_def)
    moreover have "sval sz w \<noteq> 0 \<longleftrightarrow>
      \<not> (- half sz \<le> sval sz w * 2 ^ cnt \<and> sval sz w * 2 ^ cnt < half sz)"
    proof -
      have "half sz < 2 ^ cnt"
        unfolding half_def using False szbits_pos(1) [of sz] by (intro power_strict_increasing) (linarith, simp)
      then show ?thesis
        using nonzero_mult_out_of_range [of "half sz" "2 ^ cnt" "sval sz w"] by (auto simp: half_def)
    qed
    moreover have "0 < cnt" using False by (cases sz) simp_all
    ultimately show ?thesis using False by (simp add: rcv_def shift_core_def Let_def)
  qed
qed

lemma modSR_shift_tail_V:
  "bit (shift_tail mn sz rc cnt (res, c, v, True, True) sr) (Suc 0) \<longleftrightarrow> v \<and> \<not> (rc \<and> cnt = 0)"
  by (auto simp: shift_tail_def Let_def machine_simps bit_or_iff)

text \<open>
  C2: an arithmetic left shift multiplies the two's complement operand by a power of two modulo
  the operand size, for every size and every count up to the register count limit, and sets V
  exactly when the true product does not fit the size; the upper part of the register is kept.
\<close>

theorem asl_multiplies:
  "let c' = do_shift MN_ASL d sz rc creg imm c;
       cnt = (if rc then unat (D_reg c creg AND 63) else imm);
       product = sval sz (D_reg c d) * 2 ^ cnt
   in sval sz (D_reg c' d) = signed_take_bit (szbits sz - 1) product
    \<and> (bit (SR c') 1 \<longleftrightarrow> sval sz (D_reg c' d) \<noteq> product)
    \<and> D_reg c' d AND keepmask sz = D_reg c d AND keepmask sz"
proof -
  define cnt where "cnt = (if rc then unat (D_reg c creg AND 63) else imm)"
  define c' where "c' = do_shift MN_ASL d sz rc creg imm c"
  let ?p = "sval sz (D_reg c d) * 2 ^ cnt"
  define rcv where "rcv = shift_core MN_ASL sz cnt (D_reg c d AND szmask sz) (bit (SR c) 4)"
  obtain res cy v where rcv: "rcv = (res, cy, v, True, True)"
    by (auto simp: rcv_def shift_core_def Let_def)
  have c': "c' = modSR (shift_tail MN_ASL sz rc cnt rcv) (store_dn d res sz c)"
    by (simp add: c'_def do_shift_def rcv cnt_def [symmetric] Let_def flip: rcv_def)
  note core = asl_core [of sz cnt "D_reg c d" "bit (SR c) 4", folded rcv_def]
  have "uval sz (D_reg c' d) = take_bit (szbits sz) (uval sz (D_reg c d) * 2 ^ cnt)"
    using core(1) by (simp add: c' rcv)
  also have "\<dots> = take_bit (szbits sz) ?p"
    by (metis take_bit_mult_left take_bit_uval_sval)
  finally have val: "sval sz (D_reg c' d) = signed_take_bit (szbits sz - 1) ?p"
    by (rule sval_eq_iff_take_bit)
  have v: "v \<longleftrightarrow> sval sz (D_reg c' d) \<noteq> ?p"
    unfolding val sval_in_range_iff using core(2) by (simp add: rcv)
  have "\<not> v" if "rc" "cnt = 0"
    using that core(2) twos_range [OF uval_range [of sz "D_reg c d"]] by (simp add: rcv sval_twos)
  then have "bit (SR c') 1 \<longleftrightarrow> v"
    by (auto simp: c' rcv modSR_shift_tail_V)
  with v val show ?thesis
    by (simp add: c'_def [symmetric] cnt_def [symmetric] Let_def)
       (simp add: c' store_dn_keeps_upper)
qed

lemma sint_scast_wider:
  "LENGTH('a) \<le> LENGTH('b) \<Longrightarrow> sint (scast (w :: 'a::len word) :: 'b::len word) = sint w"
  by (transfer) (simp add: signed_take_bit_signed_take_bit min_absorb1 min_def)

lemma sint_sext: "sint (sext v sz) = sval sz v"
proof (cases sz)
  case M68K_SIZE_B
  have "sint (scast (ucast v :: u8) :: u32) = sint (ucast v :: u8)"
    by (rule sint_scast_wider) simp
  then show ?thesis
    by (simp add: M68K_SIZE_B sval_def sint_uint unsigned_ucast_eq signed_take_bit_take_bit)
next
  case M68K_SIZE_W
  have "sint (scast (ucast v :: u16) :: u32) = sint (ucast v :: u16)"
    by (rule sint_scast_wider) simp
  then show ?thesis
    by (simp add: M68K_SIZE_W sval_def sint_uint unsigned_ucast_eq signed_take_bit_take_bit)
qed (simp add: sval_def sint_uint)

lemma sval_sext_masked: "sint (sext (w AND szmask sz) sz) = sval sz w"
  unfolding sint_sext by (rule sval_cong) simp

lemma uval_of_sint: "uval sz v = take_bit (szbits sz) (sint v)"
proof -
  have "uint v = take_bit 32 (sint v)" by transfer (simp add: take_bit_signed_take_bit)
  then show ?thesis by (simp add: uval_def min_absorb1)
qed

lemma sval_range: "- half sz \<le> sval sz v" "sval sz v < half sz"
  using twos_range [OF uval_range [of sz v]] by (simp_all add: sval_twos)

lemma div_power_in_range:
  fixes k h :: int
  assumes "- h \<le> k" "k < h" "0 < h"
  shows "- h \<le> k div 2 ^ n" "k div 2 ^ n < h"
proof -
  have p: "(0::int) < 2 ^ n" by simp
  have "k div 2 ^ n \<le> k" if "0 \<le> k" using that p
    by (metis add_0 div_by_1 int_one_le_iff_zero_less zdiv_mono2 zero_less_one)
  moreover have "k \<le> k div 2 ^ n" if "k < 0"
    using that p zdiv_mono2_neg [of k 1 "2 ^ n"] by (simp add: int_one_le_iff_zero_less)
  moreover have "k div 2 ^ n < 0 \<longleftrightarrow> k < 0"
    using p by (simp add: neg_imp_zdiv_neg_iff pos_imp_zdiv_neg_iff)
  ultimately show "- h \<le> k div 2 ^ n" "k div 2 ^ n < h"
    using assms by (cases "k < 0"; linarith)+
qed

lemma div_big_power:
  fixes k h :: int
  assumes "- h \<le> k" "k < h" "h \<le> 2 ^ n"
  shows "k div 2 ^ n = (if k < 0 then - 1 else 0)"
proof (cases "k < 0")
  case True
  have "(k + 2 ^ n) div 2 ^ n = 0" using True assms by (intro div_pos_pos_trivial) auto
  then have "k div 2 ^ n = - 1" by (simp add: div_add_self2)
  with True show ?thesis by simp
qed (use assms in simp)

lemma half_le_power: "szbits sz \<le> n \<Longrightarrow> half sz \<le> 2 ^ n"
  unfolding half_def by (intro power_increasing) auto

lemma asr_core:
  "sval sz (fst (shift_core MN_ASR sz cnt (w AND szmask sz) x)) = sval sz w div 2 ^ cnt"
proof -
  let ?ssv = "sext (w AND szmask sz) sz"
  consider "cnt = 0" | "0 < cnt" "cnt < szbits sz" | "szbits sz \<le> cnt" "0 < cnt"
    using szbits_pos(1) [of sz] by linarith
  then show ?thesis
  proof cases
    case 1
    then show ?thesis by (simp add: shift_core_def Let_def sval_cong [OF uval_and_szmask])
  next
    case 2
    have "uval sz (signed_drop_bit cnt ?ssv AND szmask sz) = take_bit (szbits sz) (sval sz w div 2 ^ cnt)"
      unfolding uval_and_szmask
      by (simp add: uval_of_sint sint_signed_drop_bit_eq sval_sext_masked drop_bit_eq_div)
    then have "sval sz (signed_drop_bit cnt ?ssv AND szmask sz)
        = signed_take_bit (szbits sz - 1) (sval sz w div 2 ^ cnt)"
      by (rule sval_eq_iff_take_bit)
    also have "\<dots> = sval sz w div 2 ^ cnt"
      unfolding sval_in_range_iff
      using div_power_in_range [OF sval_range [of sz w]] by (simp add: half_def)
    finally show ?thesis using 2 by (simp add: shift_core_def Let_def)
  next
    case 3
    have "sval sz (szmask sz) = - 1" "sval sz 0 = 0" by (cases sz; simp add: sval_def)+
    then show ?thesis
      using 3 div_big_power [OF sval_range half_le_power [OF 3(1)], of w]
      by (simp add: shift_core_def Let_def sval_sext_masked)
  qed
qed

lemma lsr_core:
  "uval sz (fst (shift_core MN_LSR sz cnt (w AND szmask sz) x)) = uval sz w div 2 ^ cnt"
proof -
  have lt: "uval sz w < 2 ^ szbits sz" using uval_range [of sz w] by (simp add: double_half)
  have "uval sz (drop_bit cnt (w AND szmask sz)) = uval sz w div 2 ^ cnt"
  proof -
    have "uval sz w div 2 ^ cnt < 2 ^ szbits sz"
      using div_power_in_range(2) [of "2 ^ szbits sz" "uval sz w" cnt] lt uval_range(1) [of sz w] by simp
    then show ?thesis
      using lt uval_range(1) [of sz w]
      by (simp add: uval_def [of sz "drop_bit _ _"] uval_drop_le take_bit_int_eq_self pos_imp_zdiv_nonneg_iff del: drop_bit_and)
  qed
  moreover have "uval sz w div 2 ^ cnt = 0" if "szbits sz \<le> cnt"
    using that lt uval_range(1) [of sz w]
    by (intro div_pos_pos_trivial) (auto intro: less_le_trans power_increasing)
  ultimately show ?thesis by (auto simp: shift_core_def Let_def not_less simp del: drop_bit_and)
qed

lemma bit_and_szmask [machine_simps]: "bit (w AND szmask sz) n \<longleftrightarrow> n < szbits sz \<and> bit w n"
  unfolding szmask_eq_mask by (auto simp: bit_simps dest: bit_imp_le_length)

lemma bit_sval: "bit (sval sz w) n \<longleftrightarrow> bit w (min n (szbits sz - 1))"
  by (auto simp: sval_def bit_signed_take_bit_iff bit_uint_iff min_def dest: bit_imp_le_length)

lemma bit_uval: "bit (uval sz w) n \<longleftrightarrow> n < szbits sz \<and> bit w n"
  by (auto simp: uval_def bit_take_bit_iff bit_uint_iff dest: bit_imp_le_length)

lemma right_shift_core_carry:
  "fst (snd (shift_core MN_ASR sz cnt (w AND szmask sz) x)) \<longleftrightarrow> 0 < cnt \<and> odd (sval sz w div 2 ^ (cnt - 1))"
  "fst (snd (shift_core MN_LSR sz cnt (w AND szmask sz) x)) \<longleftrightarrow> 0 < cnt \<and> odd (uval sz w div 2 ^ (cnt - 1))"
  unfolding bit_iff_odd [symmetric] bit_sval bit_uval shift_core_def Let_def shift_sign_bit_iff
  by (cases "cnt < szbits sz"; cases "cnt = szbits sz"; auto simp: machine_simps min_def)+

lemma shift_tail_C:
  "\<not> ((mn = MN_ROXL \<or> mn = MN_ROXR) \<and> rc \<and> cnt = 0) \<Longrightarrow>
   bit (shift_tail mn sz rc cnt (res, c, v, wv, True) sr) 0 \<longleftrightarrow> c \<and> \<not> (rc \<and> cnt = 0)"
  by (auto simp: shift_tail_def Let_def machine_simps bit_or_iff)

text \<open>
  C3: the right shifts divide. ASR replaces the two's complement operand by its floor division by
  a power of two and LSR the unsigned operand by its integer division, at every size and for every
  count, counts beyond the operand size included; C receives the last bit shifted out, and a count
  of zero clears it.
\<close>

theorem right_shifts_divide:
  "let cnt = (if rc then unat (D_reg c creg AND 63) else imm);
       s' = do_shift MN_ASR d sz rc creg imm c;
       u' = do_shift MN_LSR d sz rc creg imm c
   in sval sz (D_reg s' d) = sval sz (D_reg c d) div 2 ^ cnt
    \<and> (bit (SR s') 0 \<longleftrightarrow> 0 < cnt \<and> odd (sval sz (D_reg c d) div 2 ^ (cnt - 1)))
    \<and> uval sz (D_reg u' d) = uval sz (D_reg c d) div 2 ^ cnt
    \<and> (bit (SR u') 0 \<longleftrightarrow> 0 < cnt \<and> odd (uval sz (D_reg c d) div 2 ^ (cnt - 1)))
    \<and> D_reg s' d AND keepmask sz = D_reg c d AND keepmask sz
    \<and> D_reg u' d AND keepmask sz = D_reg c d AND keepmask sz"
proof -
  define cnt where "cnt = (if rc then unat (D_reg c creg AND 63) else imm)"
  define cor where "cor mn = shift_core mn sz cnt (D_reg c d AND szmask sz) (bit (SR c) 4)" for mn
  define st where "st mn = do_shift mn d sz rc creg imm c" for mn
  have st: "st mn = modSR (shift_tail mn sz rc cnt (cor mn)) (store_dn d (fst (cor mn)) sz c)" for mn
    by (simp add: st_def do_shift_def cnt_def [symmetric] cor_def Let_def)
  have shape: "\<exists>res cy v wv. cor mn = (res, cy, v, wv, True)" if "mn \<in> {MN_ASR, MN_LSR}" for mn
    using that by (auto simp: cor_def shift_core_def Let_def)
  have carry: "bit (SR (st mn)) 0 \<longleftrightarrow> fst (snd (cor mn)) \<and> \<not> (rc \<and> cnt = 0)" if "mn \<in> {MN_ASR, MN_LSR}" for mn
    using shape [OF that] that by (auto simp: st shift_tail_C)
  have "sval sz (D_reg (st MN_ASR) d) = sval sz (fst (cor MN_ASR))"
    "uval sz (D_reg (st MN_LSR) d) = uval sz (fst (cor MN_LSR))"
    by (rule sval_cong; simp add: st) (simp add: st)
  then have "sval sz (D_reg (st MN_ASR) d) = sval sz (D_reg c d) div 2 ^ cnt"
    "uval sz (D_reg (st MN_LSR) d) = uval sz (D_reg c d) div 2 ^ cnt"
    by (simp_all only: cor_def asr_core lsr_core)
  moreover have "bit (SR (st MN_ASR)) 0 \<longleftrightarrow> 0 < cnt \<and> odd (sval sz (D_reg c d) div 2 ^ (cnt - 1))"
    unfolding carry [OF insertI1] cor_def right_shift_core_carry by (cases "cnt = 0") simp_all
  moreover have "bit (SR (st MN_LSR)) 0 \<longleftrightarrow> 0 < cnt \<and> odd (uval sz (D_reg c d) div 2 ^ (cnt - 1))"
    unfolding carry [OF insertI2 [OF insertI1]] cor_def right_shift_core_carry
    by (cases "cnt = 0") simp_all
  moreover have "D_reg (st mn) d AND keepmask sz = D_reg c d AND keepmask sz" for mn
    by (simp add: st store_dn_keeps_upper)
  ultimately show ?thesis
    unfolding Let_def cnt_def [symmetric] st_def [symmetric] by (intro conjI) assumption+
qed

section \<open>Rotates\<close>

text \<open>\<open>rotl p k\<close> and \<open>rotr p k\<close> rotate the low \<open>p\<close> bits of a word.\<close>

definition rotl :: "nat \<Rightarrow> nat \<Rightarrow> 'a::len word \<Rightarrow> 'a word" where
  "rotl p k v = (push_bit k v OR (if k \<noteq> 0 then drop_bit (p - k) v else 0)) AND mask p"

definition rotr :: "nat \<Rightarrow> nat \<Rightarrow> 'a::len word \<Rightarrow> 'a word" where
  "rotr p k v = (drop_bit k v OR (if k \<noteq> 0 then push_bit (p - k) v else 0)) AND mask p"

lemma bit_rotl:
  fixes v :: "'a::len word"
  assumes "k < p" "p \<le> LENGTH('a)" "\<And>n. bit v n \<Longrightarrow> n < p"
  shows "bit (rotl p k v) n \<longleftrightarrow> n < p \<and> bit v (if k \<le> n then n - k else n + p - k)"
  using assms by (auto simp: rotl_def bit_simps algebra_simps dest: assms(3))

lemma bit_rotr:
  fixes v :: "'a::len word"
  assumes "k < p" "p \<le> LENGTH('a)" "\<And>n. bit v n \<Longrightarrow> n < p"
  shows "bit (rotr p k v) n \<longleftrightarrow> n < p \<and> bit v (if n + k < p then n + k else n + k - p)"
  using assms by (auto simp: rotr_def bit_simps algebra_simps dest: assms(3))

lemma rotr_rotl:
  fixes v :: "'a::len word"
  assumes "k < p" "p \<le> LENGTH('a)" "\<And>n. bit v n \<Longrightarrow> n < p"
  shows "rotr p k (rotl p k v) = v" "rotl p k (rotr p k v) = v"
proof -
  have l: "bit (rotl p k v) n \<Longrightarrow> n < p" and r: "bit (rotr p k v) n \<Longrightarrow> n < p" for n
    by (simp_all add: rotl_def rotr_def bit_simps)
  show "rotr p k (rotl p k v) = v"
    by (rule bit_word_eqI) (use assms in \<open>auto simp: bit_rotr [OF assms(1,2) l] bit_rotl [OF assms] dest: assms(3)\<close>)
  show "rotl p k (rotr p k v) = v"
    by (rule bit_word_eqI) (use assms in \<open>auto simp: bit_rotl [OF assms(1,2) r] bit_rotr [OF assms] dest: assms(3)\<close>)
qed

lemma rotate_core_eq:
  assumes "\<And>n. bit sv n \<Longrightarrow> n < szbits sz"
  shows "fst (shift_core MN_ROL sz cnt sv x) = rotl (szbits sz) (cnt mod szbits sz) sv"
    "fst (shift_core MN_ROR sz cnt sv x) = rotr (szbits sz) (cnt mod szbits sz) sv"
proof -
  have "sv AND mask (szbits sz) = sv"
    by (rule bit_word_eqI) (auto simp: bit_simps dest: assms)
  then show "fst (shift_core MN_ROL sz cnt sv x) = rotl (szbits sz) (cnt mod szbits sz) sv"
    "fst (shift_core MN_ROR sz cnt sv x) = rotr (szbits sz) (cnt mod szbits sz) sv"
    by (auto simp: shift_core_def Let_def rotl_def rotr_def szmask_eq_mask)
qed

text \<open>The operand extended by X as its top bit, the value ROXL and ROXR rotate.\<close>

definition with_x :: "M68KSize \<Rightarrow> u32 \<Rightarrow> bool \<Rightarrow> u64" where
  "with_x sz v x = ucast v OR push_bit (szbits sz) (of_bool x)"

lemma bit_with_x:
  "bit (with_x sz v x) n \<longleftrightarrow> bit v n \<or> x \<and> n = szbits sz"
proof -
  have "szbits sz < 64" by (cases sz) simp_all
  then show ?thesis by (auto simp: with_x_def bit_simps bit_1_iff dest: bit_imp_le_length)
qed

lemma masked_below: "w AND szmask sz = w \<Longrightarrow> bit w n \<Longrightarrow> n < szbits sz"
  by (metis bit_and_szmask)

lemma with_x_eqI:
  assumes "with_x sz v x = with_x sz v' x'" "v AND szmask sz = v" "v' AND szmask sz = v'"
  shows "v = v' \<and> x = x'"
proof -
  have eq: "bit v n \<or> x \<and> n = szbits sz \<longleftrightarrow> bit v' n \<or> x' \<and> n = szbits sz" for n
    using arg_cong [OF assms(1), of "\<lambda>w. bit w n"] by (simp only: bit_with_x)
  have "v = v'"
    by (rule bit_word_eqI) (use eq masked_below [OF assms(2)] masked_below [OF assms(3)] in blast)
  moreover have "x = x'"
    using eq [of "szbits sz"] masked_below [OF assms(2)] masked_below [OF assms(3)] by blast
  ultimately show ?thesis by blast
qed

lemma with_x_split:
  fixes q :: u64
  assumes "\<And>n. bit q n \<Longrightarrow> n < szbits sz + 1"
  shows "with_x sz (ucast (q AND ucast (szmask sz))) (drop_bit (szbits sz) q AND 1 \<noteq> 0) = q"
    "(ucast (q AND ucast (szmask sz)) :: u32) AND szmask sz = ucast (q AND ucast (szmask sz))"
proof -
  have sm: "ucast (szmask sz) = (mask (szbits sz) :: u64)"
    by (cases sz) (simp_all add: mask_eq_exp_minus_1)
  have "drop_bit (szbits sz) q AND 1 \<noteq> 0 \<longleftrightarrow> bit q (szbits sz)"
    by (simp add: bit_iff_odd_drop_bit and_one_eq odd_iff_mod_2_eq_one)
  then show "with_x sz (ucast (q AND ucast (szmask sz))) (drop_bit (szbits sz) q AND 1 \<noteq> 0) = q"
    using assms less_le_trans [OF _ szbits_pos(2) [of sz]]
    by (intro bit_word_eqI)
      (auto simp: bit_with_x sm bit_simps less_Suc_eq dest: bit_imp_le_length)
  show "(ucast (q AND ucast (szmask sz)) :: u32) AND szmask sz = ucast (q AND ucast (szmask sz))"
    by (rule bit_word_eqI) (auto simp: szmask_eq_mask sm bit_simps)
qed

lemma rotate_x_core:
  assumes "mn = MN_ROXL \<and> rot = rotl \<or> mn = MN_ROXR \<and> rot = rotr"
    and core: "shift_core mn sz cnt sv x = (res, cy, v, wv, tx)"
  shows "with_x sz res cy = rot (szbits sz + 1) (cnt mod (szbits sz + 1)) (with_x sz sv x)"
    "res AND szmask sz = res" "tx"
proof -
  let ?q = "rot (szbits sz + 1) (cnt mod (szbits sz + 1)) (with_x sz sv x)"
  have m: "push_bit p 1 - 1 = (mask p :: u64)" for p by (simp add: mask_eq_exp_minus_1 push_bit_of_1)
  have eq: "shift_core mn sz cnt sv x =
    (ucast (?q AND ucast (szmask sz)), drop_bit (szbits sz) ?q AND 1 \<noteq> 0, False, False, True)"
    using assms(1)
    by (elim disjE conjE; simp only: mn_shift.case shift_core_def Let_def with_x_def rotl_def rotr_def m)
  have "bit ?q n \<Longrightarrow> n < szbits sz + 1" for n
    using assms(1) by (auto simp: rotl_def rotr_def bit_simps)
  note split = with_x_split [where q = ?q, OF this]
  show "with_x sz res cy = ?q" "res AND szmask sz = res" "tx"
    using core split unfolding eq by simp_all
qed

lemma shift_tail_X:
  "shift_core mn sz cnt sv x = (res, c, v, wv, tx) \<Longrightarrow>
   bit (shift_tail mn sz False cnt (res, c, v, wv, tx) sr) 4 = (if tx then c else bit sr 4)"
  by (auto simp: shift_tail_def Let_def machine_simps bit_or_iff)

lemma do_shift_imm:
  fixes mn d sz creg n c
  defines "c' \<equiv> do_shift mn d sz False creg n c"
    and "cor \<equiv> shift_core mn sz n (D_reg c d AND szmask sz) (bit (SR c) 4)"
  shows "D_reg c' d AND szmask sz = fst cor AND szmask sz"
    "D_reg c' d AND keepmask sz = D_reg c d AND keepmask sz"
    "r \<noteq> d \<Longrightarrow> D_reg c' r = D_reg c r"
    "bit (SR c') 4 = (if snd (snd (snd (snd cor))) then fst (snd cor) else bit (SR c) 4)"
proof -
  have "uval sz (D_reg c' d) = uval sz (fst cor)"
    by (simp add: c'_def do_shift_def Let_def cor_def)
  then show "D_reg c' d AND szmask sz = fst cor AND szmask sz"
    by (simp add: word_uint_eq_iff uval_masked)
  show "D_reg c' d AND keepmask sz = D_reg c d AND keepmask sz"
    by (simp add: c'_def do_shift_def Let_def store_dn_keeps_upper)
  show "r \<noteq> d \<Longrightarrow> D_reg c' r = D_reg c r"
    by (simp add: c'_def do_shift_def Let_def store_dn_frame)
  show "bit (SR c') 4 = (if snd (snd (snd (snd cor))) then fst (snd cor) else bit (SR c) 4)"
    using shift_tail_X [of mn sz n "D_reg c d AND szmask sz" "bit (SR c) 4"]
    by (cases cor) (simp add: c'_def do_shift_def Let_def cor_def)
qed

lemma word_and_max: "w AND 0xFFFFFFFF = w" for w :: u32
proof -
  have "w AND szmask M68K_SIZE_L = w"
    by (rule bit_word_eqI) (simp add: bit_and_szmask del: szmask.simps)
  then show ?thesis by simp
qed

lemma split_register:
  fixes a b :: u32
  assumes "a AND szmask sz = b AND szmask sz" "a AND keepmask sz = b AND keepmask sz"
  shows "a = b"
proof -
  have "w = (w AND szmask sz) OR (w AND keepmask sz)" for w
    by (cases sz) (simp_all add: keepmask_def word_and_max flip: bit.conj_disj_distrib)
  with assms show ?thesis by metis
qed

lemma do_shift_inverse:
  assumes "shift_core m1 sz n (D_reg c d AND szmask sz) (bit (SR c) 4) = (res, cy, v, wv, tx)"
    and "res AND szmask sz = res"
    and "shift_core m2 sz n res (if tx then cy else bit (SR c) 4) = (D_reg c d AND szmask sz, cy', v', wv', tx')"
  shows "D_reg (do_shift m2 d sz False creg n (do_shift m1 d sz False creg n c)) = D_reg c"
    "tx' \<Longrightarrow> bit (SR (do_shift m2 d sz False creg n (do_shift m1 d sz False creg n c))) 4 = cy'"
proof -
  let ?c1 = "do_shift m1 d sz False creg n c"
  let ?c2 = "do_shift m2 d sz False creg n ?c1"
  note one = do_shift_imm [where mn = m1 and d = d and sz = sz and creg = creg and n = n and c = c]
  note two = do_shift_imm [where mn = m2 and d = d and sz = sz and creg = creg and n = n and c = ?c1]
  have c1: "D_reg ?c1 d AND szmask sz = res" "bit (SR ?c1) 4 = (if tx then cy else bit (SR c) 4)"
    using one(1,4) by (simp_all add: assms(1,2))
  have "D_reg ?c2 d = D_reg c d"
    by (rule split_register [where sz = sz])
      (simp_all only: two(1,2) one(2) c1 assms(3) fst_conv and.assoc and.idem)
  then show "D_reg ?c2 = D_reg c"
    using one(3) two(3) by (metis ext)
  show "bit (SR ?c2) 4 = cy'" if "tx'"
    using two(4) that by (simp only: c1 assms(3) fst_conv snd_conv if_True)
qed

lemma rotate_sizes: "n mod szbits sz < szbits sz" "szbits sz \<le> LENGTH(32)"
  "n mod (szbits sz + 1) < szbits sz + 1" "szbits sz + 1 \<le> LENGTH(64)"
  by simp_all (cases sz; simp)

lemma rotate_core:
  assumes "mn = MN_ROL \<and> rot = rotl \<or> mn = MN_ROR \<and> rot = rotr"
    and core: "shift_core mn sz cnt sv x = (res, cy, v, wv, tx)" and "sv AND szmask sz = sv"
  shows "res = rot (szbits sz) (cnt mod szbits sz) sv" "res AND szmask sz = res"
proof -
  show "res = rot (szbits sz) (cnt mod szbits sz) sv"
    using assms(1) arg_cong [OF core, of fst] rotate_core_eq [OF masked_below [OF assms(3)]] by auto
  then show "res AND szmask sz = res"
    using assms(1) by (auto simp: rotl_def rotr_def szmask_eq_mask and.assoc)
qed

lemma rotate_inverse_gen:
  fixes rot tor :: "nat \<Rightarrow> nat \<Rightarrow> u32 \<Rightarrow> u32"
  assumes pair: "m1 = MN_ROL \<and> rot = rotl \<and> m2 = MN_ROR \<and> tor = rotr \<or> m1 = MN_ROR \<and> rot = rotr \<and> m2 = MN_ROL \<and> tor = rotl"
  shows "D_reg (do_shift m2 d sz False creg n (do_shift m1 d sz False creg n c)) = D_reg c"
proof -
  have side: "m1 = MN_ROL \<and> rot = rotl \<or> m1 = MN_ROR \<and> rot = rotr"
    "m2 = MN_ROL \<and> tor = rotl \<or> m2 = MN_ROR \<and> tor = rotr"
    using pair by blast+
  let ?sv = "D_reg c d AND szmask sz"
  have sv: "?sv AND szmask sz = ?sv" by (simp add: and.assoc)
  obtain res cy v wv tx where c1: "shift_core m1 sz n ?sv (bit (SR c) 4) = (res, cy, v, wv, tx)"
    by (metis prod_cases5)
  obtain res' cy' v' wv' tx' where
    c2: "shift_core m2 sz n res (if tx then cy else bit (SR c) 4) = (res', cy', v', wv', tx')"
    by (metis prod_cases5)
  have res: "res = rot (szbits sz) (n mod szbits sz) ?sv" "res AND szmask sz = res"
    by (rule rotate_core [OF side(1) c1 sv])+
  have "res' = tor (szbits sz) (n mod szbits sz) res"
    by (rule rotate_core(1) [OF side(2) c2 res(2)])
  then have "res' = ?sv"
    using pair rotr_rotl [where v = ?sv, OF rotate_sizes(1,2) masked_below [OF sv]] by (auto simp: res(1))
  with c1 c2 res(2) show ?thesis by (metis do_shift_inverse(1))
qed

lemma rotate_x_inverse_gen:
  fixes rot tor :: "nat \<Rightarrow> nat \<Rightarrow> u64 \<Rightarrow> u64"
  assumes pair: "m1 = MN_ROXL \<and> rot = rotl \<and> m2 = MN_ROXR \<and> tor = rotr \<or> m1 = MN_ROXR \<and> rot = rotr \<and> m2 = MN_ROXL \<and> tor = rotl"
  shows "D_reg (do_shift m2 d sz False creg n (do_shift m1 d sz False creg n c)) = D_reg c
    \<and> bit (SR (do_shift m2 d sz False creg n (do_shift m1 d sz False creg n c))) 4 = bit (SR c) 4"
proof -
  have side: "m1 = MN_ROXL \<and> rot = rotl \<or> m1 = MN_ROXR \<and> rot = rotr"
    "m2 = MN_ROXL \<and> tor = rotl \<or> m2 = MN_ROXR \<and> tor = rotr"
    using pair by blast+
  let ?sv = "D_reg c d AND szmask sz" and ?x = "bit (SR c) 4" and ?p = "szbits sz + 1"
  have sv: "?sv AND szmask sz = ?sv" by (simp add: and.assoc)
  obtain res cy v wv tx where c1: "shift_core m1 sz n ?sv ?x = (res, cy, v, wv, tx)"
    by (metis prod_cases5)
  have res: "with_x sz res cy = rot ?p (n mod ?p) (with_x sz ?sv ?x)" "res AND szmask sz = res" "tx"
    by (rule rotate_x_core [OF side(1) c1])+
  obtain res' cy' v' wv' tx' where c2: "shift_core m2 sz n res (if tx then cy else ?x) = (res', cy', v', wv', tx')"
    by (metis prod_cases5)
  then have "shift_core m2 sz n res cy = (res', cy', v', wv', tx')" using res(3) by simp
  then have res': "with_x sz res' cy' = tor ?p (n mod ?p) (with_x sz res cy)" "res' AND szmask sz = res'" "tx'"
    by (rule rotate_x_core [OF side(2)])+
  have wb: "bit (with_x sz ?sv ?x) k \<Longrightarrow> k < ?p" for k
    by (auto simp: bit_with_x dest: masked_below [OF sv])
  have "with_x sz res' cy' = with_x sz ?sv ?x"
    using pair rotr_rotl [where v = "with_x sz ?sv ?x", OF rotate_sizes(3,4) wb] by (auto simp: res(1) res'(1))
  then have "res' = ?sv \<and> cy' = ?x" by (rule with_x_eqI [OF _ res'(2) sv])
  with c1 c2 res(2) res'(3) show ?thesis by (metis do_shift_inverse)
qed

text \<open>
  C4: ROL and ROR by the same count, and ROXL and ROXR by the same count, undo each other in either
  order, at every size and for every count: the whole register file is restored, and for the
  rotates through X the X flag is restored too.
\<close>

theorem rotates_inverse:
  "D_reg (do_shift MN_ROR d sz False r n (do_shift MN_ROL d sz False r n c)) = D_reg c
 \<and> D_reg (do_shift MN_ROL d sz False r n (do_shift MN_ROR d sz False r n c)) = D_reg c
 \<and> D_reg (do_shift MN_ROXR d sz False r n (do_shift MN_ROXL d sz False r n c)) = D_reg c
 \<and> D_reg (do_shift MN_ROXL d sz False r n (do_shift MN_ROXR d sz False r n c)) = D_reg c
 \<and> bit (SR (do_shift MN_ROXR d sz False r n (do_shift MN_ROXL d sz False r n c))) 4 = bit (SR c) 4
 \<and> bit (SR (do_shift MN_ROXL d sz False r n (do_shift MN_ROXR d sz False r n c))) 4 = bit (SR c) 4"
  using rotate_inverse_gen [of MN_ROL rotl MN_ROR rotr] rotate_inverse_gen [of MN_ROR rotr MN_ROL rotl]
    rotate_x_inverse_gen [of MN_ROXL rotl MN_ROXR rotr] rotate_x_inverse_gen [of MN_ROXR rotr MN_ROXL rotl]
  by simp

section \<open>Multi-precision addition and subtraction\<close>

lemma uint_masked_id: "w AND szmask sz = w \<Longrightarrow> uint w = uval sz w"
  by (metis uval_masked)

lemma two_half_bounds: "2 * half sz \<le> 2 ^ 32" "0 < half sz"
  by (cases sz; simp add: half_def)+

lemma uval_ucast64: "uval sz (ucast (q :: u64)) = uint q mod (2 * half sz)"
  by (simp add: uval_def unsigned_ucast_eq min_absorb1 double_half take_bit_eq_mod [symmetric])

lemma bit_top_iff: "0 \<le> k \<Longrightarrow> k < 2 * 2 ^ n \<Longrightarrow> bit k n \<longleftrightarrow> 2 ^ n \<le> k" for k :: int
  by (cases "2 ^ n \<le> k") (auto simp: bit_iff_odd int_div_pos_eq [where q = 1 and r = "k - 2 ^ n"])

lemma wide_add:
  fixes a b :: u32 and x sz
  assumes "a AND szmask sz = a" "b AND szmask sz = b"
  defines "full \<equiv> ucast a + ucast b + of_bool x :: u64"
  shows "uint full = uval sz a + uval sz b + of_bool x"
    "bit full (szbits sz) \<longleftrightarrow> 2 * half sz \<le> uval sz a + uval sz b + of_bool x"
proof -
  let ?k = "uval sz a + uval sz b + of_bool x"
  have k: "0 \<le> ?k" "?k < 2 * (2 * half sz)"
    using uval_range [of sz a] uval_range [of sz b] by (auto simp: of_bool_def)
  have "uint full = ?k mod 2 ^ 64"
    unfolding full_def using assms(1,2)
    by (simp add: uint_word_ariths unsigned_ucast_eq uint_masked_id take_bit_eq_mod mod_simps uint_1)
  with k two_half_bounds [of sz] show u: "uint full = ?k" by simp
  have "szbits sz < 64" by (cases sz) simp_all
  then show "bit full (szbits sz) \<longleftrightarrow> 2 * half sz \<le> ?k"
    using bit_top_iff [of ?k "szbits sz"] k by (simp add: double_half u [symmetric] bit_uint_iff)
qed

lemma wide_sub:
  fixes a b :: u32 and x sz
  assumes "a AND szmask sz = a" "b AND szmask sz = b"
  defines "full \<equiv> ucast a - ucast b - of_bool x :: u64"
  shows "uint full mod (2 * half sz) = (uval sz a - uval sz b - of_bool x) mod (2 * half sz)"
    "bit full 63 \<longleftrightarrow> uval sz a - uval sz b - of_bool x < 0"
proof -
  let ?k = "uval sz a - uval sz b - of_bool x"
  have k: "- (2 ^ 32) \<le> ?k" "?k < 2 ^ 32"
    using uval_range [of sz a] uval_range [of sz b] two_half_bounds [of sz] by (auto simp: of_bool_def)
  have u: "uint full = ?k mod 2 ^ 64"
    unfolding full_def using assms(1,2)
    by (simp add: uint_word_ariths unsigned_ucast_eq uint_masked_id take_bit_eq_mod mod_simps uint_1)
  have "(2 * half sz) dvd 2 ^ 64" unfolding double_half by (rule le_imp_power_dvd) (cases sz; simp)
  then show "uint full mod (2 * half sz) = ?k mod (2 * half sz)"
    unfolding u by (rule mod_mod_cancel)
  have "bit full 63 \<longleftrightarrow> 2 ^ 63 \<le> uint full"
    using bit_top_iff [of "uint full" 63] uint_lt2p [of full] by (simp add: bit_uint_iff)
  moreover have "?k mod 2 ^ 64 = (if ?k < 0 then ?k + 2 ^ 64 else ?k)"
    using sub_mod_cases [of ?k "2 ^ 64" 0] k mod_pos_pos_trivial [of "?k + 2 ^ 64" "2 ^ 64"]
    by (cases "?k < 0") simp_all
  ultimately show "bit full 63 \<longleftrightarrow> ?k < 0" using k u by auto
qed

lemma mod_once:
  fixes k m :: int
  shows "0 \<le> k \<Longrightarrow> k < 2 * m \<Longrightarrow> k mod m = (if m \<le> k then k - m else k)"
    and "- m \<le> k \<Longrightarrow> k < m \<Longrightarrow> k mod m = (if k < 0 then k + m else k)"
proof -
  assume "0 \<le> k" "k < 2 * m"
  then show "k mod m = (if m \<le> k then k - m else k)"
    using minus_mod_self2 [of k m] by (auto simp: mod_pos_pos_trivial simp del: minus_mod_self2)
next
  assume "- m \<le> k" "k < m"
  then show "k mod m = (if k < 0 then k + m else k)"
    using mod_add_self2 [of k m] by (auto simp: mod_pos_pos_trivial simp del: mod_add_self2)
qed

lemma twos_addx_overflow:
  fixes a b r h :: int
  assumes "0 \<le> a" "a < 2 * h" "0 \<le> b" "b < 2 * h" "r = (a + b + of_bool x) mod (2 * h)"
  shows "((h \<le> a) = (h \<le> b) \<and> (h \<le> a) \<noteq> (h \<le> r)) \<longleftrightarrow> twos h r \<noteq> twos h a + twos h b + of_bool x"
proof -
  have "r = (if 2 * h \<le> a + b + of_bool x then a + b + of_bool x - 2 * h else a + b + of_bool x)"
    unfolding assms(5) using assms(1-4) by (intro mod_once) (auto simp: of_bool_def)
  with assms(1-4) show ?thesis by (auto simp: twos_def of_bool_def split: if_splits)
qed

lemma twos_subx_overflow:
  fixes a b r h :: int
  assumes "0 \<le> a" "a < 2 * h" "0 \<le> b" "b < 2 * h" "r = (a - b - of_bool x) mod (2 * h)"
  shows "((h \<le> a) \<noteq> (h \<le> b) \<and> (h \<le> a) \<noteq> (h \<le> r)) \<longleftrightarrow> twos h r \<noteq> twos h a - twos h b - of_bool x"
proof -
  have "r = (if a - b - of_bool x < 0 then a - b - of_bool x + 2 * h else a - b - of_bool x)"
    unfolding assms(5) using assms(1-4) by (intro mod_once) (auto simp: of_bool_def)
  with assms(1-4) show ?thesis by (auto simp: twos_def of_bool_def split: if_splits)
qed

lemma addx_subx_core_parts:
  fixes a b sz sr is_add
  assumes "a AND szmask sz = a" "b AND szmask sz = b"
  defines "x \<equiv> of_bool (bit sr 4) :: int"
    and "r \<equiv> fst (addx_subx_core is_add sz a b sr)" and "s \<equiv> snd (addx_subx_core is_add sz a b sr)"
  shows "uval sz r = (if is_add then uval sz a + uval sz b + x else uval sz a - uval sz b - x) mod (2 * half sz)"
    and "bit s 0 \<longleftrightarrow> (if is_add then 2 * half sz \<le> uval sz a + uval sz b + x else uval sz a - uval sz b - x < 0)"
    and "bit s 4 = bit s 0"
    and "bit s 2 \<longleftrightarrow> bit sr 2 \<and> uval sz r = 0"
    and "bit s 3 \<longleftrightarrow> sval sz r < 0"
    and "bit s 1 \<longleftrightarrow> sval sz r \<noteq> (if is_add then sval sz a + sval sz b + x else sval sz a - sval sz b - x)"
proof -
  note wide = wide_add [OF assms(1,2)] wide_sub [OF assms(1,2)]
  show u: "uval sz r = (if is_add then uval sz a + uval sz b + x else uval sz a - uval sz b - x) mod (2 * half sz)"
    unfolding r_def x_def by (cases is_add) (simp_all add: addx_subx_core_def Let_def uval_ucast64 wide)
  have rm: "r AND szmask sz = r"
    by (simp add: r_def addx_subx_core_def Let_def and.assoc)
  have r: "r = ucast (if is_add then ucast a + ucast b + of_bool (bit sr 4) else ucast a - ucast b - of_bool (bit sr 4) :: u64) AND szmask sz"
    by (simp add: r_def addx_subx_core_def Let_def)
  note flags = masked_zero_iff [of r sz, unfolded rm] masked_sign_iff [of sz r, unfolded rm] xor_sign_iff [of a sz b, unfolded assms(1,2)] xor_sign_iff [of a sz r, unfolded assms(1) rm]
  show "bit s 0 \<longleftrightarrow> (if is_add then 2 * half sz \<le> uval sz a + uval sz b + x else uval sz a - uval sz b - x < 0)"
    unfolding s_def x_def by (cases is_add) (auto simp: addx_subx_core_def Let_def machine_simps bit_or_iff wide)
  show "bit s 4 = bit s 0"
    unfolding s_def by (auto simp: addx_subx_core_def Let_def machine_simps bit_or_iff)
  show "bit s 2 \<longleftrightarrow> bit sr 2 \<and> uval sz r = 0"
    unfolding s_def flags(1) [symmetric] unfolding r by (auto simp: addx_subx_core_def Let_def machine_simps bit_or_iff)
  show "bit s 3 \<longleftrightarrow> sval sz r < 0"
    unfolding s_def sval_neg_iff half_le_uval_iff flags(2) [symmetric] unfolding r by (auto simp: addx_subx_core_def Let_def machine_simps bit_or_iff)
  have v: "bit s 1 \<longleftrightarrow> (if is_add then bit a (szbits sz - 1) = bit b (szbits sz - 1) else bit a (szbits sz - 1) \<noteq> bit b (szbits sz - 1))
      \<and> bit a (szbits sz - 1) \<noteq> bit r (szbits sz - 1)"
    unfolding flags(3,4) [symmetric] unfolding s_def r by (auto simp: addx_subx_core_def Let_def machine_simps bit_or_iff)
  show "bit s 1 \<longleftrightarrow> sval sz r \<noteq> (if is_add then sval sz a + sval sz b + x else sval sz a - sval sz b - x)"
    unfolding v half_le_uval_iff [symmetric] sval_twos x_def
    using twos_addx_overflow [OF uval_range uval_range, of "uval sz r"] twos_subx_overflow [OF uval_range uval_range, of "uval sz r"] u
    by (auto simp: x_def)
qed

text \<open>The unsigned and signed 64-bit value of a register pair.\<close>

definition upair :: "u32 \<Rightarrow> u32 \<Rightarrow> int" where "upair h l = uint h * 2 ^ 32 + uint l"
definition spair :: "u32 \<Rightarrow> u32 \<Rightarrow> int" where "spair h l = sint h * 2 ^ 32 + uint l"

lemma long_vals: "uval M68K_SIZE_L w = uint w" "sval M68K_SIZE_L w = sint w" "half M68K_SIZE_L = 2 ^ 31"
  using uval_masked [of w M68K_SIZE_L] by (simp_all add: sval_def half_def sint_uint word_and_max)

lemma long_masked: "w AND szmask M68K_SIZE_L = w"
  by (simp add: word_and_max)

lemma carry_chain_add:
  fixes a0 b0 a1 b1 h0 h1 M :: int
  assumes "0 \<le> a0" "a0 < M" "0 \<le> b0" "b0 < M" "0 \<le> a1" "a1 < M" "0 \<le> b1" "b1 < M"
    and "h0 = (a0 + b0) mod M" "h1 = (a1 + b1 + of_bool (M \<le> a0 + b0)) mod M"
  shows "h1 * M + h0 = (a1 * M + a0 + (b1 * M + b0)) mod (M * M)"
    "M \<le> a1 + b1 + of_bool (M \<le> a0 + b0) \<longleftrightarrow> M * M \<le> a1 * M + a0 + (b1 * M + b0)"
proof -
  let ?c = "of_bool (M \<le> a0 + b0) :: int"
  have h0: "h0 = a0 + b0 - ?c * M" using assms(1-4,9) by (simp add: add_mod_cases)
  have sum: "a1 * M + a0 + (b1 * M + b0) = (a1 + b1 + ?c) * M + h0" by (simp add: h0 algebra_simps)
  have M: "0 < M" and r: "0 \<le> h0" "h0 < M" using assms(1,2,9) by simp_all
  show "h1 * M + h0 = (a1 * M + a0 + (b1 * M + b0)) mod (M * M)"
    unfolding sum using M r by (simp add: assms(10) zmod_zmult2_eq [of M _ M] div_add1_eq mod_pos_pos_trivial)
  show "M \<le> a1 + b1 + ?c \<longleftrightarrow> M * M \<le> a1 * M + a0 + (b1 * M + b0)"
  proof -
    have "M * M \<le> k * M + h0 \<longleftrightarrow> M \<le> k" for k
    proof
      assume "M \<le> k"
      then have "M * M \<le> k * M" using M by (intro mult_right_mono) simp_all
      then show "M * M \<le> k * M + h0" using r by linarith
    next
      assume "M * M \<le> k * M + h0"
      then have "M * M < (k + 1) * M" using r by (simp add: distrib_right)
      then show "M \<le> k" using M by simp
    qed
    then show ?thesis unfolding sum by simp
  qed
qed

lemma carry_chain_sub:
  fixes a0 b0 a1 b1 h0 h1 M :: int
  assumes "0 \<le> a0" "a0 < M" "0 \<le> b0" "b0 < M" "0 \<le> a1" "a1 < M" "0 \<le> b1" "b1 < M"
    and "h0 = (a0 - b0) mod M" "h1 = (a1 - b1 - of_bool (a0 < b0)) mod M"
  shows "h1 * M + h0 = (a1 * M + a0 - (b1 * M + b0)) mod (M * M)"
    "a1 - b1 - of_bool (a0 < b0) < 0 \<longleftrightarrow> a1 * M + a0 < b1 * M + b0"
proof -
  let ?c = "of_bool (a0 < b0) :: int"
  have h0: "h0 = a0 - b0 + ?c * M" using assms(1-4,9) by (simp add: sub_mod_cases)
  have sum: "a1 * M + a0 - (b1 * M + b0) = (a1 - b1 - ?c) * M + h0" by (simp add: h0 algebra_simps)
  have M: "0 < M" and r: "0 \<le> h0" "h0 < M" using assms(1,2,9) by simp_all
  show "h1 * M + h0 = (a1 * M + a0 - (b1 * M + b0)) mod (M * M)"
    unfolding sum using M r by (simp add: assms(10) zmod_zmult2_eq [of M _ M] div_add1_eq mod_pos_pos_trivial)
  show "a1 - b1 - ?c < 0 \<longleftrightarrow> a1 * M + a0 < b1 * M + b0"
  proof -
    have "k * M + h0 < 0 \<longleftrightarrow> k < 0" for k
    proof
      assume "k < 0"
      then have "(k + 1) * M \<le> 0" using M by (simp add: mult_nonpos_nonneg)
      then show "k * M + h0 < 0" using r by (simp add: distrib_right)
    next
      assume "k * M + h0 < 0"
      then have "k * M < 0" using r by simp
      then show "k < 0" using M by (simp add: mult_less_0_iff)
    qed
    then have "a1 - b1 - ?c < 0 \<longleftrightarrow> a1 * M + a0 - (b1 * M + b0) < 0" unfolding sum by simp
    then show ?thesis by simp
  qed
qed

lemma upair_zero_iff: "upair h l = 0 \<longleftrightarrow> uint h = 0 \<and> uint l = 0"
  by (simp add: upair_def add_nonneg_eq_0_iff)

lemma uint_long_range: "0 \<le> uint w" "uint w < 2 ^ 32" for w :: u32
  using uint_lt2p [of w] by simp_all

lemmas addx_long = addx_subx_core_parts [OF long_masked long_masked, unfolded long_vals]

lemma addx_chain:
  fixes a0 b0 a1 b1 sr
  defines "s \<equiv> flags_add a0 b0 (a0 + b0) M68K_SIZE_L sr"
  defines "r \<equiv> fst (addx_subx_core True M68K_SIZE_L a1 b1 s)" and "s' \<equiv> snd (addx_subx_core True M68K_SIZE_L a1 b1 s)"
  shows "upair r (a0 + b0) = (upair a1 a0 + upair b1 b0) mod 2 ^ 64"
    and "bit s' 0 \<longleftrightarrow> 2 ^ 64 \<le> upair a1 a0 + upair b1 b0" and "bit s' 4 = bit s' 0"
    and "bit s' 1 \<longleftrightarrow> spair r (a0 + b0) \<noteq> spair a1 a0 + spair b1 b0"
    and "bit s' 2 \<longleftrightarrow> upair r (a0 + b0) = 0"
proof -
  have lo: "uint (a0 + b0) = (uint a0 + uint b0) mod 2 ^ 32"
    using uval_add [of M68K_SIZE_L a0 b0] by (simp add: long_vals)
  have x: "bit s 4 \<longleftrightarrow> 2 ^ 32 \<le> uint a0 + uint b0" and z: "bit s 2 \<longleftrightarrow> uint (a0 + b0) = 0"
    unfolding s_def flags_add_bits long_vals by simp_all
  note p = addx_long [where a = a1 and b = b1 and sr = s and is_add = True, folded r_def s'_def]
  note rng = uint_long_range
  show "upair r (a0 + b0) = (upair a1 a0 + upair b1 b0) mod 2 ^ 64"
    "bit s' 0 \<longleftrightarrow> 2 ^ 64 \<le> upair a1 a0 + upair b1 b0"
    using carry_chain_add [OF rng rng rng rng lo, of "uint r" a1 b1] p(1,2) by (simp_all add: upair_def x)
  show "bit s' 1 \<longleftrightarrow> spair r (a0 + b0) \<noteq> spair a1 a0 + spair b1 b0"
    using p(6) lo rng [of a0] rng [of b0] by (auto simp: spair_def x add_mod_cases split: if_splits)
  show "bit s' 2 \<longleftrightarrow> upair r (a0 + b0) = 0"
    using p(4) by (auto simp: upair_zero_iff z)
  show "bit s' 4 = bit s' 0" by (rule p(3))
qed

lemma subx_chain:
  fixes a0 b0 a1 b1 sr
  defines "s \<equiv> flags_sub a0 b0 (a0 - b0) M68K_SIZE_L sr"
  defines "r \<equiv> fst (addx_subx_core False M68K_SIZE_L a1 b1 s)" and "s' \<equiv> snd (addx_subx_core False M68K_SIZE_L a1 b1 s)"
  shows "upair r (a0 - b0) = (upair a1 a0 - upair b1 b0) mod 2 ^ 64"
    and "bit s' 0 \<longleftrightarrow> upair a1 a0 < upair b1 b0" and "bit s' 4 = bit s' 0"
    and "bit s' 1 \<longleftrightarrow> spair r (a0 - b0) \<noteq> spair a1 a0 - spair b1 b0"
    and "bit s' 2 \<longleftrightarrow> upair r (a0 - b0) = 0"
proof -
  have lo: "uint (a0 - b0) = (uint a0 - uint b0) mod 2 ^ 32"
    using uval_sub [of M68K_SIZE_L a0 b0] by (simp add: long_vals)
  have x: "bit s 4 \<longleftrightarrow> uint a0 < uint b0" and z: "bit s 2 \<longleftrightarrow> uint (a0 - b0) = 0"
    unfolding s_def flags_sub_bits long_vals by simp_all
  note p = addx_long [where a = a1 and b = b1 and sr = s and is_add = False, folded r_def s'_def]
  note rng = uint_long_range
  show "upair r (a0 - b0) = (upair a1 a0 - upair b1 b0) mod 2 ^ 64"
    "bit s' 0 \<longleftrightarrow> upair a1 a0 < upair b1 b0"
    using carry_chain_sub [OF rng rng rng rng lo, of "uint r" a1 b1] p(1,2) by (simp_all add: upair_def x)
  show "bit s' 1 \<longleftrightarrow> spair r (a0 - b0) \<noteq> spair a1 a0 - spair b1 b0"
    using p(6) lo rng [of a0] rng [of b0] by (auto simp: spair_def x sub_mod_cases split: if_splits)
  show "bit s' 2 \<longleftrightarrow> upair r (a0 - b0) = 0"
    using p(4) by (auto simp: upair_zero_iff z)
  show "bit s' 4 = bit s' 0" by (rule p(3))
qed

text \<open>
  C5: an ADD followed by an ADDX, and a SUB followed by a SUBX, on 32-bit registers is a 64-bit
  addition or subtraction. The pair holds the 64-bit result, C and X are the 64-bit carry or
  borrow, V the signed 64-bit overflow, and Z, which the extended instructions only ever clear,
  tells whether the whole 64-bit result is zero.
\<close>

theorem extended_arithmetic_64:
  "(let s = flags_add a0 b0 (a0 + b0) M68K_SIZE_L sr;
        r1 = fst (addx_subx_core True M68K_SIZE_L a1 b1 s); s' = snd (addx_subx_core True M68K_SIZE_L a1 b1 s)
    in upair r1 (a0 + b0) = (upair a1 a0 + upair b1 b0) mod 2 ^ 64
     \<and> (bit s' 0 \<longleftrightarrow> 2 ^ 64 \<le> upair a1 a0 + upair b1 b0) \<and> bit s' 4 = bit s' 0
     \<and> (bit s' 1 \<longleftrightarrow> spair r1 (a0 + b0) \<noteq> spair a1 a0 + spair b1 b0)
     \<and> (bit s' 2 \<longleftrightarrow> upair r1 (a0 + b0) = 0))
 \<and> (let s = flags_sub a0 b0 (a0 - b0) M68K_SIZE_L sr;
        r1 = fst (addx_subx_core False M68K_SIZE_L a1 b1 s); s' = snd (addx_subx_core False M68K_SIZE_L a1 b1 s)
    in upair r1 (a0 - b0) = (upair a1 a0 - upair b1 b0) mod 2 ^ 64
     \<and> (bit s' 0 \<longleftrightarrow> upair a1 a0 < upair b1 b0) \<and> bit s' 4 = bit s' 0
     \<and> (bit s' 1 \<longleftrightarrow> spair r1 (a0 - b0) \<noteq> spair a1 a0 - spair b1 b0)
     \<and> (bit s' 2 \<longleftrightarrow> upair r1 (a0 - b0) = 0))"
  unfolding Let_def by (intro conjI addx_chain subx_chain)

end
