(* ===== verification/M68k_Divide.thy ===== *)
theory M68k_Divide
  imports M68k_Arith "HOL-Library.Signed_Division"
begin

text \<open>
  Division and packed-decimal arithmetic of the interpreter: \<^verbatim>\<open>do_div\<close> is truncated
  division with an exact overflow test, and the digit corrections of \<^verbatim>\<open>do_bcd\<close> are
  decimal addition, subtraction and negation modulo one hundred.
\<close>

section \<open>Division\<close>

text \<open>The value of an operand as the signed or the unsigned instruction reads it.\<close>

definition rd_val :: "bool \<Rightarrow> 'a::len word \<Rightarrow> int" where
  "rd_val is_signed w = (if is_signed then sint w else uint w)"

lemma word_vals: "uval M68K_SIZE_W w = uint (lo16 w)" "sval M68K_SIZE_W w = sint (lo16 w)" "half M68K_SIZE_W = 2 ^ 15"
  by (simp_all add: uval_def sval_def lo16_def half_def sint_uint unsigned_ucast_eq signed_take_bit_take_bit)

lemma sign_bit_iff: "w AND push_bit (szbits sz - 1) 1 \<noteq> 0 \<longleftrightarrow> sval sz w < 0"
  by (simp add: sval_neg_iff half_le_uval_iff and_exp_eq_0_iff_not_bit push_bit_of_1)

lemma msb_iffs: "w AND 0x80000000 \<noteq> 0 \<longleftrightarrow> sint w < 0" "w AND 0x8000 \<noteq> 0 \<longleftrightarrow> sint (lo16 w) < 0" for w :: u32
  using sign_bit_iff [of w M68K_SIZE_L] sign_bit_iff [of w M68K_SIZE_W] by (simp_all add: long_vals word_vals)

lemma uint_eq_sint: "0 \<le> sint w \<Longrightarrow> uint w = sint w" for w :: u32
  using sval_twos [of M68K_SIZE_L w] uint_long_range [of w] by (auto simp: long_vals twos_def split: if_splits)

lemma lo16_ucast [simp]: "lo16 (ucast v) = v"
  by (rule bit_word_eqI) (simp add: lo16_def bit_simps)

lemma uint_ucast16 [simp]: "uint (ucast v :: u32) = uint v" for v :: u16
  using uint_lt2p [of v] by (simp add: unsigned_ucast_eq take_bit_int_eq_self_iff)

lemma uint_eq_sint16: "0 \<le> sint v \<Longrightarrow> uint v = sint v" for v :: u16
  using sval_twos [of M68K_SIZE_W "ucast v"] uint_lt2p [of v] by (auto simp: word_vals twos_def split: if_splits)

lemma sint_bounds: "- (2 ^ 31) \<le> sint (w :: u32)" "sint w < 2 ^ 31" "- (2 ^ 15) \<le> sint (v :: u16)" "sint v < 2 ^ 15"
  using sint_greater_eq [of w] sint_less [of w] sint_greater_eq [of v] sint_less [of v] by simp_all

lemma uint_neg_abs: "uint (0 - (w :: u32)) = - k" if "k < 0" "- (2 ^ 31) \<le> k" "w = word_of_int k"
  using that by (simp add: uint_word_ariths uint_word_of_int mod_simps mod_pos_pos_trivial)

lemma abs_operand32:
  "uint (if is_signed \<and> w AND 0x80000000 \<noteq> 0 then 0 - w else w) = \<bar>rd_val is_signed w\<bar>" for w :: u32
  unfolding msb_iffs
  using uint_neg_abs [of "sint w" w] sint_bounds(1) [of w] uint_eq_sint [of w] by (auto simp: rd_val_def)

lemma abs_operand16:
  "uint ((if is_signed \<and> w AND 0x8000 \<noteq> 0 then 0 - scast (ucast w :: u16) else ucast (ucast w :: u16)) :: u32)
    = \<bar>rd_val is_signed (lo16 w)\<bar>" for w :: u32
proof -
  have "(scast (lo16 w) :: u32) = word_of_int (sint (lo16 w))" by simp
  then show ?thesis
    unfolding msb_iffs lo16_def [symmetric]
    using uint_neg_abs [of "sint (lo16 w)" "scast (lo16 w)"] sint_bounds(3) [of "lo16 w"] uint_eq_sint16 [of "lo16 w"]
    by (auto simp: rd_val_def)
qed

lemma quotient_overflow:
  fixes a b :: int
  assumes "0 \<le> a" "0 < b" "b < a div 2 ^ 16"
  shows "2 ^ 16 \<le> a div b"
proof -
  have "b * 2 ^ 16 \<le> (a div 2 ^ 16) * 2 ^ 16" using assms by simp
  also have "\<dots> \<le> a" by simp
  finally have "2 ^ 16 * b \<le> a" by (simp add: mult.commute)
  then show ?thesis using zdiv_mono1 [of "2 ^ 16 * b" a b] assms(2) by simp
qed

lemma halves_of_result:
  "lo16 ((q AND 0xFFFF) OR push_bit 16 (r AND 0xFFFF)) = lo16 q"
  "hi16 ((q AND 0xFFFF) OR push_bit 16 (r AND 0xFFFF)) = lo16 r"
proof -
  have m: "(0xFFFF :: u32) = mask 16" by (simp add: mask_eq_exp_minus_1)
  show "lo16 ((q AND 0xFFFF) OR push_bit 16 (r AND 0xFFFF)) = lo16 q"
    "hi16 ((q AND 0xFFFF) OR push_bit 16 (r AND 0xFFFF)) = lo16 r"
    unfolding m by (rule bit_word_eqI; simp add: lo16_def hi16_def bit_simps)+
qed

lemma lo16_of_uint: "lo16 w = word_of_int (uint w)"
  by (simp add: lo16_def)

lemma lo16_signed: "lo16 (if b then 0 - w else w) = word_of_int (if b then - uint w else uint w)"
proof -
  have "take_bit 16 (- take_bit 32 k) = take_bit 16 (- k)" for k :: int
    using take_bit_minus [of 16 "take_bit 32 k"] take_bit_minus [of 16 k] by simp
  then have "lo16 (- w) = word_of_int (- uint w)"
    unfolding lo16_def by transfer simp
  then show ?thesis by (simp add: lo16_of_uint)
qed

lemma rd_val16_of_int:
  "(if is_signed then - (2 ^ 15) \<le> k \<and> k < 2 ^ 15 else 0 \<le> k \<and> k < 2 ^ 16) \<Longrightarrow>
   rd_val is_signed (word_of_int k :: u16) = k"
  by (auto simp: rd_val_def uint_word_of_int signed_of_int take_bit_int_eq_self signed_take_bit_int_eq_self split: if_splits)

lemma sdiv_abs: "k sdiv l = (if (l < 0) \<noteq> (k < 0) then - (\<bar>k\<bar> div \<bar>l\<bar>) else \<bar>k\<bar> div \<bar>l\<bar>)"
  "k smod l = (if k < 0 then - (\<bar>k\<bar> mod \<bar>l\<bar>) else \<bar>k\<bar> mod \<bar>l\<bar>)" for k l :: int
  by (auto simp: signed_divide_int_def signed_modulo_int_def sgn_if)

text \<open>
  C6: DIVU and DIVS divide a 32-bit dividend by a 16-bit divisor, truncating towards zero. When the
  quotient fits sixteen bits of the instruction's signedness, the low half of the register is the
  quotient, the high half the remainder with the sign of the dividend, V and C are clear and Z and
  N describe the quotient; when it does not, the register is unchanged, V is set and C clear. A zero
  divisor leaves the registers unchanged.
\<close>

theorem div_truncates:
  "let d = rd_val is_signed (D_reg c dr); v = rd_val is_signed (lo16 src);
       q = d sdiv v; c' = do_div dr src is_signed c
   in if v = 0 then D_reg c' = D_reg c
      else if (if is_signed then - (2 ^ 15) \<le> q \<and> q < 2 ^ 15 else q < 2 ^ 16)
      then rd_val is_signed (lo16 (D_reg c' dr)) = q \<and> rd_val is_signed (hi16 (D_reg c' dr)) = d smod v
         \<and> \<not> bit (SR c') 1 \<and> \<not> bit (SR c') 0 \<and> (bit (SR c') 2 \<longleftrightarrow> q = 0)
         \<and> (bit (SR c') 3 \<longleftrightarrow> sint (lo16 (D_reg c' dr)) < 0)
      else D_reg c' = D_reg c \<and> bit (SR c') 1 \<and> \<not> bit (SR c') 0"
proof -
  let ?d = "rd_val is_signed (D_reg c dr)" and ?v = "rd_val is_signed (lo16 src)"
  let ?q = "?d sdiv ?v" and ?c' = "do_div dr src is_signed c"
  define dn where "dn = (is_signed \<and> D_reg c dr AND 0x80000000 \<noteq> 0)"
  define sn where "sn = (is_signed \<and> src AND 0x8000 \<noteq> 0)"
  define ad where "ad = (if dn then 0 - D_reg c dr else D_reg c dr)"
  define asr where "asr = ((if sn then 0 - scast (ucast src :: u16) else ucast (ucast src :: u16)) :: u32)"
  have ad: "uint ad = \<bar>?d\<bar>" and asr: "uint asr = \<bar>?v\<bar>"
    unfolding ad_def asr_def dn_def sn_def by (rule abs_operand32 abs_operand16)+
  have dn: "dn \<longleftrightarrow> ?d < 0" and sn: "sn \<longleftrightarrow> ?v < 0"
    unfolding dn_def sn_def msb_iffs by (auto simp: rd_val_def)
  have z: "(ucast src :: u16) = 0 \<longleftrightarrow> ?v = 0"
    by (auto simp: rd_val_def lo16_def signed_eq_0_iff unsigned_eq_0_iff)
  let ?fits = "if is_signed then - (2 ^ 15) \<le> ?q \<and> ?q < 2 ^ 15 else ?q < 2 ^ 16"
  let ?ok = "drop_bit 16 ad \<le> asr \<and> ((\<not> is_signed \<and> ad div asr \<le> 0xFFFF) \<or>
                (is_signed \<and> ad div asr \<le> (if sn \<noteq> dn then 0x8000 else 0x7FFF)))"
  have q: "?q = (if sn \<noteq> dn then - uint (ad div asr) else uint (ad div asr))"
    and r: "?d smod ?v = (if dn then - uint (ad mod asr) else uint (ad mod asr))"
    by (auto simp: sdiv_abs uint_div_distrib uint_mod_distrib ad asr dn sn)
  have fits: "?ok \<longleftrightarrow> ?fits" if v: "?v \<noteq> 0"
  proof -
    have lim: "uint (drop_bit 16 ad) = uint ad div 2 ^ 16" by (simp add: drop_bit_eq_div uint_div_distrib)
    define k where "k = uint (ad div asr)"
    have Q: "0 \<le> k" by (simp add: k_def)
    have big: "2 ^ 16 \<le> k" if "\<not> drop_bit 16 ad \<le> asr"
      using quotient_overflow [of "uint ad" "uint asr"] that v
      by (simp add: k_def uint_div_distrib word_le_def lim asr)
    have pos: "\<not> is_signed \<Longrightarrow> \<not> sn \<and> \<not> dn" by (simp add: sn_def dn_def)
    show ?thesis
      using big Q pos unfolding q word_le_def [of "ad div asr"] k_def [symmetric]
      by (cases "drop_bit 16 ad \<le> asr"; cases is_signed) auto
  qed
  have rem: "if is_signed then - (2 ^ 15) \<le> ?d smod ?v \<and> ?d smod ?v < 2 ^ 15 else 0 \<le> ?d smod ?v \<and> ?d smod ?v < 2 ^ 16"
    if "?v \<noteq> 0"
  proof -
    have "\<bar>?v\<bar> \<le> (if is_signed then 2 ^ 15 else 2 ^ 16 - 1)"
      using sint_bounds(3,4) [of "lo16 src"] uint_lt2p [of "lo16 src"] by (auto simp: rd_val_def)
    moreover have "0 \<le> \<bar>?d\<bar> mod \<bar>?v\<bar>" "\<bar>?d\<bar> mod \<bar>?v\<bar> < \<bar>?v\<bar>" using that by simp_all
    moreover have "\<not> is_signed \<Longrightarrow> 0 \<le> ?d" by (simp add: rd_val_def)
    ultimately show ?thesis unfolding sdiv_abs(2) by (auto split: if_splits)
  qed
  have qpos: "0 \<le> ?q" if "\<not> is_signed" using that unfolding q by (simp add: sn_def dn_def)
  have quo0: "(if sn \<noteq> dn then 0 - ad div asr else ad div asr) = 0 \<longleftrightarrow> ?q = 0"
    unfolding q by (auto simp: unsigned_eq_0_iff)
  define quo where "quo = (if sn \<noteq> dn then 0 - ad div asr else ad div asr)"
  define rm where "rm = (if dn then 0 - ad mod asr else ad mod asr)"
  have halves: "lo16 quo = word_of_int ?q" "lo16 rm = word_of_int (?d smod ?v)"
    unfolding quo_def rm_def lo16_signed q r by (rule refl)+
  note defs = dn_def [symmetric] sn_def [symmetric] ad_def [symmetric] asr_def [symmetric]
  have c': "?c' = (if ?v = 0 then modSR (\<lambda>sr. sr AND NOT SR_C) c
     else if ?fits then modSR (\<lambda>sr. orif (quo = 0) SR_Z (orif (quo AND 0x8000 \<noteq> 0) SR_N (sr AND NOT (SR_N OR SR_Z OR SR_V))))
            (setD dr ((quo AND 0xFFFF) OR push_bit 16 (rm AND 0xFFFF)) (modSR (\<lambda>sr. sr AND NOT SR_C) c))
     else modSR (\<lambda>sr. ((sr OR SR_V) OR SR_N) AND NOT SR_Z) (modSR (\<lambda>sr. sr AND NOT SR_C) c))"
    unfolding do_div_def Let_def defs z quo_def [symmetric] rm_def [symmetric]
    by (rule if_cong [OF refl refl]) (use fits in presburger)
  have setbits: "bit (NOT m) n \<longleftrightarrow> n < 16 \<and> \<not> bit m n" for m :: u16 and n
    by (simp add: bit_not_iff)
  consider "?v = 0" | "?v \<noteq> 0" ?fits | "?v \<noteq> 0" "\<not> ?fits" by blast
  then show ?thesis
  proof cases
    case 2
    have "rd_val is_signed (word_of_int ?q :: u16) = ?q" "rd_val is_signed (word_of_int (?d smod ?v) :: u16) = ?d smod ?v"
      using 2(2) qpos rem [OF 2(1)] by (intro rd_val16_of_int; simp split: if_splits)+
    moreover have "\<not> bit (SR ?c') 1 \<and> \<not> bit (SR ?c') 0 \<and> (bit (SR ?c') 2 \<longleftrightarrow> ?q = 0) \<and> (bit (SR ?c') 3 \<longleftrightarrow> sint (lo16 quo) < 0)"
      unfolding c' if_not_P [OF 2(1)] if_P [OF 2(2)] quo0 [folded quo_def, symmetric] msb_iffs(2) [symmetric]
      by (auto simp: machine_simps bit_and_iff bit_or_iff setbits)
    moreover have "lo16 (D_reg ?c' dr) = lo16 quo" "hi16 (D_reg ?c' dr) = lo16 rm"
      unfolding c' if_not_P [OF 2(1)] if_P [OF 2(2)] by (simp_all only: cpu_update_simps fun_upd_same halves_of_result)
    ultimately show ?thesis unfolding Let_def if_not_P [OF 2(1)] if_P [OF 2(2)]
      by (simp only: halves simp_thms)
  next
    case 3
    show ?thesis unfolding Let_def if_not_P [OF 3(1)] if_not_P [OF 3(2)] c'
      by (auto simp: machine_simps bit_and_iff bit_or_iff setbits)
  qed (simp add: c')
qed

section \<open>Packed decimal\<close>

text \<open>A byte holds two decimal digits; \<open>dec\<close> is the number below one hundred it stands for.\<close>

definition is_bcd :: "u8 \<Rightarrow> bool" where
  "is_bcd a \<longleftrightarrow> a AND 0xF \<le> 9 \<and> drop_bit 4 a \<le> 9"

definition dec :: "u8 \<Rightarrow> int" where
  "dec a = 10 * uint (drop_bit 4 a) + uint (a AND 0xF)"

text \<open>The byte with the given digits.\<close>

definition bcd :: "int \<Rightarrow> u8" where
  "bcd k = word_of_int (16 * (k div 10) + k mod 10)"

lemma and_low_masks: "(k AND 0xF) = k mod 16" "(k AND 0xFF) = k mod 256" for k :: int
  using take_bit_eq_mask [of 4 k] take_bit_eq_mask [of 8 k] by (simp_all add: take_bit_eq_mod mask_eq_exp_minus_1)

lemma word_of_int_add_256: "word_of_int (k + 256 * m) = (word_of_int k :: u8)"
  unfolding word_of_int_eq_iff by (simp add: take_bit_eq_mod)

lemma bcd_digits: "0 \<le> l \<Longrightarrow> l \<le> 9 \<Longrightarrow> bcd (10 * h + l) = word_of_int (16 * h + l)"
  by (simp add: bcd_def)

lemma digits_sub:
  fixes lo hi :: int
  assumes "- 10 \<le> lo" "lo \<le> 9" "- 10 \<le> hi" "hi \<le> 9"
  shows "word_of_int ((hi mod 256) * 16 - (if hi < 0 then 6 else 0) * 16 + (lo - (if lo < 0 then 6 else 0)) mod 16)
    = bcd ((10 * hi + (if lo < 0 then lo + 10 else lo)) mod 100)"
proof -
  let ?l = "if lo < 0 then lo + 10 else lo" and ?h = "if hi < 0 then hi + 10 else hi"
  have l: "0 \<le> ?l" "?l \<le> 9" and h: "0 \<le> ?h" "?h \<le> 9" using assms by auto
  have "(lo - (if lo < 0 then 6 else 0)) mod 16 = ?l"
    using assms(1,2) mod_once(2) [of 16 "lo - (if lo < 0 then 6 else 0)"] by (cases "lo < 0") simp_all
  moreover have "hi mod 256 = (if hi < 0 then hi + 256 else hi)"
    using assms(3,4) by (intro mod_once(2)) simp_all
  ultimately have "(hi mod 256) * 16 - (if hi < 0 then 6 else 0) * 16 + (lo - (if lo < 0 then 6 else 0)) mod 16
      = (16 * ?h + ?l) + 256 * (if hi < 0 then 15 else 0)" by auto
  moreover have "(10 * hi + ?l) mod 100 = 10 * ?h + ?l"
    using l h mod_once(2) [of 100 "10 * hi + ?l"] by (cases "hi < 0") auto
  ultimately show ?thesis by (simp only: word_of_int_add_256 bcd_digits [OF l])
qed

lemma is_bcd_bounds: "is_bcd a \<Longrightarrow> uint (a AND 0xF) \<le> 9 \<and> uint (drop_bit 4 a) \<le> 9"
  by (simp add: is_bcd_def word_le_def)

lemma sbcd_core_decimal:
  assumes "is_bcd a" "is_bcd b"
  shows "sbcd_core a b x = (bcd ((dec a - dec b - of_bool x) mod 100), dec a < dec b + of_bool x)"
proof -
  define al ah bl bh where d: "al = uint (a AND 0xF)" "ah = uint (drop_bit 4 a)" "bl = uint (b AND 0xF)" "bh = uint (drop_bit 4 b)"
  define X :: int where "X = of_bool x"
  have r: "0 \<le> al" "al \<le> 9" "0 \<le> ah" "ah \<le> 9" "0 \<le> bl" "bl \<le> 9" "0 \<le> bh" "bh \<le> 9" "0 \<le> X" "X \<le> 1"
    using is_bcd_bounds [OF assms(1)] is_bcd_bounds [OF assms(2)] by (simp_all add: d X_def)
  define lo hi where lh: "lo = al - bl - X" "hi = ah - bh - (if lo < 0 then 1 else 0)"
  have core: "sbcd_core a b x =
     (word_of_int ((hi mod 256) * 16 - (if hi < 0 then 6 else 0) * 16 + (lo - (if lo < 0 then 6 else 0)) mod 16), hi < 0)"
    by (simp only: sbcd_core_def Let_def d [symmetric] X_def [symmetric] lh [symmetric] and_low_masks)
  have val: "dec a - dec b - of_bool x = 10 * hi + (if lo < 0 then lo + 10 else lo)"
    by (simp add: dec_def d [symmetric] X_def [symmetric] lh)
  have bounds: "- 10 \<le> lo" "lo \<le> 9" "- 10 \<le> hi" "hi \<le> 9" using r by (auto simp: lh)
  have "hi < 0 \<longleftrightarrow> dec a < dec b + of_bool x"
    using val bounds by (auto split: if_splits)
  then show ?thesis unfolding core digits_sub [OF bounds] val by simp
qed

lemma nbcd_core_eq: "nbcd_core a x = sbcd_core 0 a x"
  by (simp add: nbcd_core_def sbcd_core_def)

text \<open>Digit sums as 32-bit words: small enough for word and integer arithmetic to agree.\<close>

abbreviation w32 :: "int \<Rightarrow> u32" where "w32 k \<equiv> word_of_int k"

lemma w32_small:
  assumes "0 \<le> k" "k < 1000"
  shows "uint (w32 k) = k" "9 < w32 k \<longleftrightarrow> 9 < k" "(ucast (w32 k) :: u8) = word_of_int k"
    "k < 512 \<Longrightarrow> w32 k AND 0x100 \<noteq> 0 \<longleftrightarrow> 256 \<le> k"
proof -
  show u: "uint (w32 k) = k" using assms by (simp add: uint_word_of_int)
  show "9 < w32 k \<longleftrightarrow> 9 < k" by (simp add: word_less_def u)
  show "(ucast (w32 k) :: u8) = word_of_int k" by (simp only: ucast_eq u)
  have "w32 k AND 0x100 \<noteq> 0 \<longleftrightarrow> bit (uint (w32 k)) 8"
    using and_exp_eq_0_iff_not_bit [of "w32 k" 8] by (simp add: bit_uint_iff)
  then show "k < 512 \<Longrightarrow> w32 k AND 0x100 \<noteq> 0 \<longleftrightarrow> 256 \<le> k"
    using bit_top_iff [of k 8] assms(1) by (simp add: u)
qed

lemma digit_carry:
  assumes "0 \<le> lo" "lo \<le> 19"
  defines "c \<equiv> of_bool (9 < lo) :: int"
  shows "drop_bit 4 (w32 (lo + 6 * c)) = w32 c" "w32 (lo + 6 * c) AND 0xF = w32 (lo - 10 * c)"
proof -
  have c: "c = 0 \<and> lo \<le> 9 \<or> c = 1 \<and> 9 < lo" by (auto simp: c_def)
  have "(lo + 6 * c) div 16 = c"
    using assms(1,2) c by (auto simp: div_pos_pos_trivial int_div_pos_eq [where q = 1 and r = "lo - 10"])
  then have "uint (drop_bit 4 (w32 (lo + 6 * c))) = uint (w32 c)"
    using assms(1,2) c w32_small(1) [of "lo + 6 * c"] w32_small(1) [of c] by (auto simp: drop_bit_eq_div uint_div_distrib)
  then show "drop_bit 4 (w32 (lo + 6 * c)) = w32 c" by (simp add: word_uint_eq_iff)
  have "w32 (lo + 6 * c) AND 0xF = take_bit 4 (w32 (lo + 6 * c))" by (simp add: take_bit_eq_mask mask_eq_exp_minus_1)
  then have "uint (w32 (lo + 6 * c) AND 0xF) = (lo + 6 * c) mod 16"
    using assms(1,2) c w32_small(1) [of "lo + 6 * c"] by (auto simp: take_bit_eq_mod uint_mod_distrib)
  also have "\<dots> = uint (w32 (lo - 10 * c))"
    using assms(1,2) c mod_once(1) [of "lo + 6 * c" 16] w32_small(1) [of "lo - 10 * c"] by auto
  finally show "w32 (lo + 6 * c) AND 0xF = w32 (lo - 10 * c)" by (simp add: word_uint_eq_iff)
qed

lemma abcd_core_digits:
  fixes a b x
  assumes "is_bcd a" "is_bcd b"
  defines "lo \<equiv> uint (a AND 0xF) + uint (b AND 0xF) + of_bool x"
  defines "c \<equiv> of_bool (9 < lo) :: int"
  defines "hi \<equiv> uint (drop_bit 4 a) + uint (drop_bit 4 b) + c"
  defines "full \<equiv> 16 * hi + 96 * of_bool (9 < hi) + (lo - 10 * c)"
  shows "abcd_core a b x = (word_of_int full, 256 \<le> full)" "0 \<le> lo - 10 * c" "lo - 10 * c \<le> 9" "0 \<le> hi" "hi \<le> 19"
proof -
  have lo: "0 \<le> lo" "lo \<le> 19" and hi: "0 \<le> hi" "hi \<le> 19"
    using is_bcd_bounds [OF assms(1)] is_bcd_bounds [OF assms(2)] by (simp_all add: lo_def hi_def c_def)
  then show "0 \<le> lo - 10 * c" "lo - 10 * c \<le> 9" "0 \<le> hi" "hi \<le> 19" by (auto simp: c_def)
  have full: "0 \<le> full" "full < 512" using lo hi by (auto simp: full_def c_def)
  have nib: "ucast (a AND 0xF) + ucast (b AND 0xF) + of_bool x = w32 lo"
    "ucast (drop_bit 4 a) + ucast (drop_bit 4 b) + w32 c = w32 hi"
    unfolding lo_def hi_def of_int_add of_int_of_bool ucast_eq by (rule refl)+
  have adj: "(if 9 < w32 lo then 6 else 0) = w32 (6 * c)" "(if 9 < w32 hi then 6 else 0) * 16 = w32 (96 * of_bool (9 < hi))"
    using lo hi w32_small(2) [of lo] w32_small(2) [of hi] by (simp_all add: c_def)
  have pb: "push_bit 4 (w32 hi) = w32 (16 * hi)" by (simp add: push_bit_eq_mult)
  have "abcd_core a b x = (ucast (w32 full), w32 full AND 0x100 \<noteq> 0)"
    unfolding abcd_core_def Let_def nib adj of_int_add [symmetric] digit_carry [OF lo, folded c_def]
    unfolding nib adj pb full_def of_int_add [symmetric] by (rule refl)
  then show "abcd_core a b x = (word_of_int full, 256 \<le> full)"
    using full w32_small(3,4) [of full] by simp
qed

lemma abcd_core_decimal:
  assumes "is_bcd a" "is_bcd b"
  shows "abcd_core a b x = (bcd ((dec a + dec b + of_bool x) mod 100), 100 \<le> dec a + dec b + of_bool x)"
proof -
  define lo :: int where "lo = uint (a AND 0xF) + uint (b AND 0xF) + of_bool x"
  define c :: int where "c = of_bool (9 < lo)"
  define hi :: int where "hi = uint (drop_bit 4 a) + uint (drop_bit 4 b) + c"
  define e :: int where "e = of_bool (9 < hi)"
  note core = abcd_core_digits [OF assms, of x, folded lo_def, folded c_def, folded hi_def, folded e_def]
  have e: "e = 0 \<and> hi \<le> 9 \<or> e = 1 \<and> 9 < hi" by (auto simp: e_def)
  have sum: "dec a + dec b + of_bool x = 10 * hi + (lo - 10 * c)" by (simp add: dec_def lo_def hi_def)
  have "256 \<le> 16 * hi + 96 * e + (lo - 10 * c) \<longleftrightarrow> 100 \<le> dec a + dec b + of_bool x"
  proof (cases "9 < hi")
    case True
    then have "e = 1" by (simp add: e_def)
    then show ?thesis unfolding sum using True core(2) by (intro iffI; linarith)
  next
    case False
    then have "e = 0" by (simp add: e_def)
    then show ?thesis unfolding sum using False core(3) by (intro iffI; linarith)
  qed
  moreover have "(dec a + dec b + of_bool x) mod 100 = 10 * (hi - 10 * e) + (lo - 10 * c)"
    unfolding sum using e core(2-5) mod_once(1) [of "10 * hi + (lo - 10 * c)" 100] by auto
  moreover have "16 * hi + 96 * e + (lo - 10 * c) = 16 * (hi - 10 * e) + (lo - 10 * c) + 256 * e" by simp
  ultimately show ?thesis by (simp only: core(1) word_of_int_add_256 bcd_digits [OF core(2,3)])
qed

lemma bcd_flags_bits:
  fixes r carry sr
  defines "s \<equiv> bcd_flags r carry sr"
  shows "bit s 0 = carry" "bit s 4 = carry" "bit s 2 \<longleftrightarrow> bit sr 2 \<and> r = 0"
  unfolding s_def bcd_flags_def Let_def
  by (auto simp: machine_simps bit_and_iff bit_or_iff bit_not_iff)

text \<open>
  C7: on packed-decimal operands ABCD, SBCD and NBCD are addition, subtraction and negation of
  two-digit decimal numbers with the X flag as carry or borrow in, modulo one hundred; C and X
  receive the decimal carry or borrow, and Z is only ever cleared, so that it accumulates over a
  multi-byte operation.
\<close>

theorem bcd_decimal:
  assumes "is_bcd a" "is_bcd b"
  shows "(let (r, cy) = abcd_core a b x; s = bcd_flags r cy sr
      in r = bcd ((dec a + dec b + of_bool x) mod 100) \<and> (bit s 0 \<longleftrightarrow> 100 \<le> dec a + dec b + of_bool x)
       \<and> bit s 4 = bit s 0 \<and> (bit s 2 \<longleftrightarrow> bit sr 2 \<and> r = 0))
    \<and> (let (r, cy) = sbcd_core a b x; s = bcd_flags r cy sr
      in r = bcd ((dec a - dec b - of_bool x) mod 100) \<and> (bit s 0 \<longleftrightarrow> dec a < dec b + of_bool x)
       \<and> bit s 4 = bit s 0 \<and> (bit s 2 \<longleftrightarrow> bit sr 2 \<and> r = 0))
    \<and> (let (r, cy) = nbcd_core a x; s = bcd_flags r cy sr
      in r = bcd ((- dec a - of_bool x) mod 100) \<and> (bit s 0 \<longleftrightarrow> 0 < dec a + of_bool x)
       \<and> bit s 4 = bit s 0 \<and> (bit s 2 \<longleftrightarrow> bit sr 2 \<and> r = 0))"
proof -
  have zero: "is_bcd 0" "dec 0 = 0" by (simp_all add: is_bcd_def dec_def)
  show ?thesis
    unfolding nbcd_core_eq abcd_core_decimal [OF assms] sbcd_core_decimal [OF assms]
      sbcd_core_decimal [OF zero(1) assms(1)] Let_def prod.case bcd_flags_bits zero(2)
    by (simp only: diff_0 add_0 simp_thms)
qed

theorem bcd_decimal_witness:
  "let (r, cy) = abcd_core 0x47 0x58 True; s = bcd_flags r cy 0
   in r = bcd ((dec 0x47 + dec 0x58 + of_bool True) mod 100) \<and> (bit s 0 \<longleftrightarrow> 100 \<le> dec 0x47 + dec 0x58 + of_bool True)"
proof -
  have "is_bcd 0x47" "is_bcd 0x58" by (simp_all add: is_bcd_def)
  from bcd_decimal [OF this, of True 0] show ?thesis by (auto simp only: Let_def split_beta)
qed

end
