(* ===== verification/M68k_Ea.thy ===== *)
theory M68k_Ea
  imports M68k_Arith "HOL-Library.Monad_Syntax"
begin

text \<open>
  The state the Tier-3 interpreter of \<^verbatim>\<open>runner/m68k_interp.c\<close> works on, its extension-word
  reader, its effective-address routines and its stack helpers. The 68000 bus
  (\<^verbatim>\<open>m68k_read8\<close> ... \<^verbatim>\<open>m68k_write32\<close>), the work-RAM and ROM arrays, the decoder, the
  V-blank service and the game hooks are the fields of an operations record, so that the same
  definitions run against the Genesis bus model and against any other machine. The decoder is a
  separate library of which only the interface is in this repository.
\<close>

section \<open>Instructions\<close>

text \<open>The fields of the decoder's \<^verbatim>\<open>M68KInstr\<close> that the interpreter reads.\<close>

record M68KInstr =
  i_addr :: u32
  byte_length :: u32
  mnemonic :: M68KMnemonic
  i_size :: M68KSize
  words :: "nat \<Rightarrow> u16"
  word_count :: nat
  src_ea :: int
  dst_ea :: int
  i_reg :: int
  imm32 :: u32
  target_addr :: u32
  predec_mem_form :: bool
  mem_shift :: bool
  dst_is_ea :: bool

datatype M68kiStatus = M68KI_OK | M68KI_HALT_UNIMPL | M68KI_HALT_GUARD | M68KI_HALT_BADADDR

section \<open>Runtime state\<close>

text \<open>
  The cycle counters of the runtime ABI and the machine behind the bus.
\<close>

record 'm rt =
  g_native_insn_count :: u64
  g_cycle_accumulator :: u32
  g_vblank_threshold :: u32
  g_audio_cycle_counter :: u32
  mach :: 'm

record 'm interp =
  g_cpu :: M68KState
  run_time :: "'m rt"
  g_rte_pending :: bool
  s_illegal_ea :: bool
  g_m68ki_bad_pc :: u32
  g_m68ki_bad_op :: u16
  g_m68ki_insn_count :: u64
  g_m68ki_discover :: "u32 list"
  s_exec_cov :: "(nat \<Rightarrow> u8) option"

type_synonym ('m, 'a) im = "('m interp, 'a) state"

text \<open>
  The services around the interpreter. \<open>glue_check_vblank\<close> and the game hook may run guest code
  and so act on the whole state; bus accesses act on the runtime state. \<open>cov_calloc\<close> is
  whether the allocation of the coverage bitmap succeeds.
\<close>

record 'm ops =
  m68k_read8 :: "u32 \<Rightarrow> 'm rt \<Rightarrow> u8 \<times> 'm rt"
  m68k_read16 :: "u32 \<Rightarrow> 'm rt \<Rightarrow> u16 \<times> 'm rt"
  m68k_read32 :: "u32 \<Rightarrow> 'm rt \<Rightarrow> u32 \<times> 'm rt"
  m68k_write8 :: "u32 \<Rightarrow> u8 \<Rightarrow> 'm rt \<Rightarrow> 'm rt"
  m68k_write16 :: "u32 \<Rightarrow> u16 \<Rightarrow> 'm rt \<Rightarrow> 'm rt"
  m68k_write32 :: "u32 \<Rightarrow> u32 \<Rightarrow> 'm rt \<Rightarrow> 'm rt"
  g_rom :: "'m rt \<Rightarrow> nat \<Rightarrow> u8"
  g_ram :: "'m rt \<Rightarrow> nat \<Rightarrow> u8"
  m68k_decode :: "(u32 \<Rightarrow> u8) \<Rightarrow> u32 \<Rightarrow> M68KInstr option"
  glue_check_vblank :: "'m interp \<Rightarrow> 'm interp"
  game_instruction_hook_site :: "u32 \<Rightarrow> bool"
  genesis_game_instruction_hook :: "u32 \<Rightarrow> 'm interp \<Rightarrow> bool \<times> 'm interp"
  cov_calloc :: bool

section \<open>State access\<close>

definition get_cpu :: "('m, M68KState) im" where
  "get_cpu = State (\<lambda>s. (g_cpu s, s))"

definition mod_cpu :: "(M68KState \<Rightarrow> M68KState) \<Rightarrow> ('m, unit) im" where
  "mod_cpu f = State (\<lambda>s. ((), s\<lparr>g_cpu := f (g_cpu s)\<rparr>))"

definition mod_st :: "('m interp \<Rightarrow> 'm interp) \<Rightarrow> ('m, unit) im" where
  "mod_st f = State (\<lambda>s. ((), f s))"

definition bus_rd :: "('m rt \<Rightarrow> 'a \<times> 'm rt) \<Rightarrow> ('m, 'a) im" where
  "bus_rd f = State (\<lambda>s. case f (run_time s) of (v, r) \<Rightarrow> (v, s\<lparr>run_time := r\<rparr>))"

definition bus_wr :: "('m rt \<Rightarrow> 'm rt) \<Rightarrow> ('m, unit) im" where
  "bus_wr f = State (\<lambda>s. ((), s\<lparr>run_time := f (run_time s)\<rparr>))"

lemma run_access [simp]:
  "run_state get_cpu s = (g_cpu s, s)"
  "run_state (mod_cpu f) s = ((), s\<lparr>g_cpu := f (g_cpu s)\<rparr>)"
  "run_state (mod_st h) s = ((), h s)"
  "run_state (bus_rd rd) s = (fst (rd (run_time s)), s\<lparr>run_time := snd (rd (run_time s))\<rparr>)"
  "run_state (bus_wr wr) s = ((), s\<lparr>run_time := wr (run_time s)\<rparr>)"
  by (simp_all add: get_cpu_def mod_cpu_def mod_st_def bus_rd_def bus_wr_def split_beta)

section \<open>Extension words\<close>

text \<open>The reader's word index and byte position.\<close>

type_synonym extr = "nat \<times> u32"

definition er_init :: extr where
  "er_init = (1, 2)"

definition er_init_at :: "nat \<Rightarrow> extr" where
  "er_init_at wi = (wi, of_nat (wi * 2))"

definition er_next :: "M68KInstr \<Rightarrow> extr \<Rightarrow> u16 \<times> extr" where
  "er_next ins e = (words ins (fst e), (fst e + 1, snd e + 2))"

definition er_next_dword :: "M68KInstr \<Rightarrow> extr \<Rightarrow> u32 \<times> extr" where
  "er_next_dword ins e =
    (let (hi, e) = er_next ins e; (lo, e) = er_next ins e in (be32 hi lo, e))"

definition er_next_imm :: "M68KInstr \<Rightarrow> M68KSize \<Rightarrow> extr \<Rightarrow> u32 \<times> extr" where
  "er_next_imm ins sz e =
    (if sz = M68K_SIZE_L then er_next_dword ins e
     else (let (w, e) = er_next ins e
           in (if sz = M68K_SIZE_B then ucast (w AND 0xFF) else ucast w, e)))"

section \<open>Effective addresses\<close>

definition ea_mode :: "int \<Rightarrow> nat" where "ea_mode ea = nat (ea div 8 mod 8)"
definition ea_reg :: "int \<Rightarrow> nat" where "ea_reg ea = nat (ea mod 8)"

text \<open>The byte step of \<open>(An)+\<close> and \<open>-(An)\<close>; a byte step through A7 is two.\<close>

definition ea_step :: "nat \<Rightarrow> M68KSize \<Rightarrow> u32" where
  "ea_step reg sz = (if reg = 7 \<and> sz = M68K_SIZE_B then 2 else szbytes sz)"

definition m68k_brief_index_value :: "u16 \<Rightarrow> u32 \<Rightarrow> u32 \<Rightarrow> u32" where
  "m68k_brief_index_value extension dreg areg =
    (let value = (if extension AND 0x8000 \<noteq> 0 then areg else dreg)
     in if extension AND 0x0800 \<noteq> 0 then value else scast (ucast value :: u16))"

text \<open>\<^verbatim>\<open>base + xv + (int32_t)d8\<close> for a brief extension word.\<close>

definition brief_addr :: "M68KState \<Rightarrow> u32 \<Rightarrow> u16 \<Rightarrow> u32" where
  "brief_addr c base ext =
    (let xreg = unat (drop_bit 12 ext AND 7); d8 = ucast (ext AND 0xFF) :: u8
     in base + m68k_brief_index_value ext (D_reg c xreg) (A_reg c xreg) + scast d8)"

definition mem_read :: "'m ops \<Rightarrow> M68KSize \<Rightarrow> u32 \<Rightarrow> ('m, u32) im" where
  "mem_read ops sz a =
    (case sz of
       M68K_SIZE_B \<Rightarrow> do { v \<leftarrow> bus_rd (m68k_read8 ops a); State_Monad.return (ucast v) }
     | M68K_SIZE_L \<Rightarrow> bus_rd (m68k_read32 ops a)
     | M68K_SIZE_W \<Rightarrow> do { v \<leftarrow> bus_rd (m68k_read16 ops a); State_Monad.return (ucast v) })"

definition mem_write :: "'m ops \<Rightarrow> M68KSize \<Rightarrow> u32 \<Rightarrow> u32 \<Rightarrow> ('m, unit) im" where
  "mem_write ops sz a v =
    (case sz of
       M68K_SIZE_B \<Rightarrow> bus_wr (m68k_write8 ops a (ucast v))
     | M68K_SIZE_L \<Rightarrow> bus_wr (m68k_write32 ops a v)
     | M68K_SIZE_W \<Rightarrow> bus_wr (m68k_write16 ops a (ucast v)))"

text \<open>
  The address of a control mode: \<open>None\<close> for the modes \<^verbatim>\<open>addr_ea\<close> answers 0 to. The same
  computation, with the same reader steps, is what \<^verbatim>\<open>read_ea_ex\<close>, \<^verbatim>\<open>write_ea_ex\<close> and
  \<^verbatim>\<open>do_movem\<close> inline for modes 5, 6 and 7.0-7.3.
\<close>

definition ctl_addr :: "M68KInstr \<Rightarrow> M68KState \<Rightarrow> nat \<Rightarrow> nat \<Rightarrow> extr \<Rightarrow> (u32 \<times> extr) option" where
  "ctl_addr ins c mode reg er =
    (if mode = 5 then (let (d, er) = er_next ins er in Some (A_reg c reg + scast d, er))
     else if mode = 6 then (let (ext, er) = er_next ins er in Some (brief_addr c (A_reg c reg) ext, er))
     else if mode = 7 \<and> reg = 0 then (let (ext, er) = er_next ins er in Some (scast ext, er))
     else if mode = 7 \<and> reg = 1 then Some (er_next_dword ins er)
     else if mode = 7 \<and> reg = 2 then
       (let pc = i_addr ins + snd er; (d, er) = er_next ins er in Some (pc + scast d, er))
     else if mode = 7 \<and> reg = 3 then
       (let pc = i_addr ins + snd er; (ext, er) = er_next ins er in Some (brief_addr c pc ext, er))
     else None)"

definition read_ea_ex ::
  "'m ops \<Rightarrow> M68KInstr \<Rightarrow> int \<Rightarrow> M68KSize \<Rightarrow> extr \<Rightarrow> bool \<Rightarrow> ('m, u32 \<times> extr) im"
where
  "read_ea_ex ops ins ea sz er rmw =
    (let mode = ea_mode ea; reg = ea_reg ea; sb = ea_step reg sz in do {
       c \<leftarrow> get_cpu;
       if mode = 0 then State_Monad.return (D_reg c reg, er)
       else if mode = 1 then State_Monad.return (A_reg c reg, er)
       else if mode = 2 then do { v \<leftarrow> mem_read ops sz (A_reg c reg); State_Monad.return (v, er) }
       else if mode = 3 then do {
         v \<leftarrow> mem_read ops sz (A_reg c reg);
         mod_cpu (\<lambda>c. if rmw then c else setA reg (A_reg c reg + sb) c);
         State_Monad.return (v, er) }
       else if mode = 4 then do {
         mod_cpu (\<lambda>c. setA reg (A_reg c reg - sb) c);
         v \<leftarrow> mem_read ops sz (A_reg c reg - sb);
         State_Monad.return (v, er) }
       else if mode = 7 \<and> reg = 4 then State_Monad.return (er_next_imm ins sz er)
       else (case ctl_addr ins c mode reg er of
           Some (a, er) \<Rightarrow> do { v \<leftarrow> mem_read ops sz a; State_Monad.return (v, er) }
         | None \<Rightarrow> State_Monad.return (0, er)) })"

definition read_ea :: "'m ops \<Rightarrow> M68KInstr \<Rightarrow> int \<Rightarrow> M68KSize \<Rightarrow> extr \<Rightarrow> ('m, u32 \<times> extr) im" where
  "read_ea ops ins ea sz er = read_ea_ex ops ins ea sz er False"

definition addr_ea :: "M68KInstr \<Rightarrow> int \<Rightarrow> extr \<Rightarrow> ('m, u32 \<times> extr) im" where
  "addr_ea ins ea er =
    (let mode = ea_mode ea; reg = ea_reg ea in do {
       c \<leftarrow> get_cpu;
       if mode = 2 then State_Monad.return (A_reg c reg, er)
       else (case ctl_addr ins c mode reg er of
           Some r \<Rightarrow> State_Monad.return r
         | None \<Rightarrow> State_Monad.return (0, er)) })"

definition write_ea_ex ::
  "'m ops \<Rightarrow> M68KInstr \<Rightarrow> int \<Rightarrow> M68KSize \<Rightarrow> extr \<Rightarrow> u32 \<Rightarrow> bool \<Rightarrow> ('m, extr) im"
where
  "write_ea_ex ops ins ea sz er val rmw =
    (let mode = ea_mode ea; reg = ea_reg ea; sb = ea_step reg sz in do {
       c \<leftarrow> get_cpu;
       if mode = 0 then do { mod_cpu (store_dn reg val sz); State_Monad.return er }
       else if mode = 1 then do { mod_st (\<lambda>s. s\<lparr>s_illegal_ea := True\<rparr>); State_Monad.return er }
       else if mode = 2 then do { mem_write ops sz (A_reg c reg) val; State_Monad.return er }
       else if mode = 3 then do {
         mem_write ops sz (A_reg c reg) val;
         mod_cpu (\<lambda>c. setA reg (A_reg c reg + sb) c);
         State_Monad.return er }
       else if mode = 4 then do {
         mod_cpu (\<lambda>c. if rmw then c else setA reg (A_reg c reg - sb) c);
         c \<leftarrow> get_cpu;
         mem_write ops sz (A_reg c reg) val;
         State_Monad.return er }
       else if mode = 7 \<and> 2 \<le> reg then State_Monad.return er
       else (case ctl_addr ins c mode reg er of
           Some (a, er) \<Rightarrow> do { mem_write ops sz a val; State_Monad.return er }
         | None \<Rightarrow> State_Monad.return er) })"

definition write_ea :: "'m ops \<Rightarrow> M68KInstr \<Rightarrow> int \<Rightarrow> M68KSize \<Rightarrow> extr \<Rightarrow> u32 \<Rightarrow> ('m, extr) im" where
  "write_ea ops ins ea sz er val = write_ea_ex ops ins ea sz er val False"

section \<open>Stack helpers\<close>

definition push32 :: "'m ops \<Rightarrow> u32 \<Rightarrow> ('m, unit) im" where
  "push32 ops v = do {
     mod_cpu (\<lambda>c. setA 7 (A_reg c 7 - 4) c);
     c \<leftarrow> get_cpu;
     bus_wr (m68k_write32 ops (A_reg c 7) v) }"

definition pop32 :: "'m ops \<Rightarrow> ('m, u32) im" where
  "pop32 ops = do {
     c \<leftarrow> get_cpu;
     v \<leftarrow> bus_rd (m68k_read32 ops (A_reg c 7));
     mod_cpu (\<lambda>c. setA 7 (A_reg c 7 + 4) c);
     State_Monad.return v }"

definition push16 :: "'m ops \<Rightarrow> u16 \<Rightarrow> ('m, unit) im" where
  "push16 ops v = do {
     mod_cpu (\<lambda>c. setA 7 (A_reg c 7 - 2) c);
     c \<leftarrow> get_cpu;
     bus_wr (m68k_write16 ops (A_reg c 7) v) }"

definition pop16 :: "'m ops \<Rightarrow> ('m, u16) im" where
  "pop16 ops = do {
     c \<leftarrow> get_cpu;
     v \<leftarrow> bus_rd (m68k_read16 ops (A_reg c 7));
     mod_cpu (\<lambda>c. setA 7 (A_reg c 7 + 2) c);
     State_Monad.return v }"

end
