(* ===== verification/M68k_Exec.thy ===== *)
theory M68k_Exec
  imports M68k_Ea M68k_Divide
begin

text \<open>
  Instruction execution: \<^verbatim>\<open>exec_one\<close> of \<^verbatim>\<open>runner/m68k_interp.c\<close>, one definition per
  case group of its \<^verbatim>\<open>switch\<close>, with the helpers it calls (\<^verbatim>\<open>do_addx_subx\<close>,
  \<^verbatim>\<open>do_bcd\<close>, \<^verbatim>\<open>do_movem\<close>), the executed-PC coverage bitmap and the call-target
  recorder.
\<close>

section \<open>Coverage and discovery\<close>

definition M68KI_COV_WORDS :: nat where "M68KI_COV_WORDS = 0x200000"

definition cov_mark :: "'m ops \<Rightarrow> u32 \<Rightarrow> 'm interp \<Rightarrow> 'm interp" where
  "cov_mark ops pc s =
    (if 0x400000 \<le> pc then s
     else (let i = unat (drop_bit 1 pc);
               mark = (\<lambda>cov. cov(i div 8 := cov (i div 8) OR push_bit (i mod 8) 1))
           in case s_exec_cov s of
                Some cov \<Rightarrow> s\<lparr>s_exec_cov := Some (mark cov)\<rparr>
              | None \<Rightarrow> if cov_calloc ops then s\<lparr>s_exec_cov := Some (mark (\<lambda>_. 0))\<rparr> else s))"

definition m68k_interp_cov_active :: "'m interp \<Rightarrow> bool" where
  "m68k_interp_cov_active s = (s_exec_cov s \<noteq> None)"

text \<open>The addresses \<^verbatim>\<open>m68k_interp_cov_dump\<close> prints, in order; \<open>None\<close> for the result -1.\<close>

definition m68k_interp_cov_dump :: "'m interp \<Rightarrow> nat list option" where
  "m68k_interp_cov_dump s =
    (case s_exec_cov s of
       None \<Rightarrow> None
     | Some cov \<Rightarrow> Some (map (\<lambda>i. 2 * i)
         (filter (\<lambda>i. cov (i div 8) AND push_bit (i mod 8) 1 \<noteq> 0) [0..<M68KI_COV_WORDS])))"

definition M68KI_MAX_DISCOVER :: nat where "M68KI_MAX_DISCOVER = 512"

definition discover :: "u32 \<Rightarrow> 'm interp \<Rightarrow> 'm interp" where
  "discover t s =
    (let t = t AND 0xFFFFFF; ds = g_m68ki_discover s
     in if t \<in> set ds then s
        else if length ds < M68KI_MAX_DISCOVER then s\<lparr>g_m68ki_discover := ds @ [t]\<rparr>
        else s)"

section \<open>Extended, decimal and multiple-register instructions\<close>

definition do_addx_subx :: "'m ops \<Rightarrow> M68KInstr \<Rightarrow> M68KSize \<Rightarrow> bool \<Rightarrow> ('m, unit) im" where
  "do_addx_subx ops ins sz is_add =
    (let w0 = words ins 0;
         dst = unat (drop_bit 9 w0 AND 7); src = unat (w0 AND 7); m = szmask sz
     in if predec_mem_form ins then do {
          mod_cpu (\<lambda>c. setA src (A_reg c src - ea_step src sz) c);
          c \<leftarrow> get_cpu;
          b \<leftarrow> mem_read ops sz (A_reg c src);
          mod_cpu (\<lambda>c. setA dst (A_reg c dst - ea_step dst sz) c);
          c \<leftarrow> get_cpu;
          a \<leftarrow> mem_read ops sz (A_reg c dst);
          (let (r, sr) = addx_subx_core is_add sz (a AND m) (b AND m) (SR c) in do {
             mod_cpu (modSR (\<lambda>_. sr));
             mem_write ops sz (A_reg c dst) r }) }
        else do {
          c \<leftarrow> get_cpu;
          (let (r, sr) = addx_subx_core is_add sz (D_reg c dst AND m) (D_reg c src AND m) (SR c)
           in mod_cpu (\<lambda>c. store_dn dst r sz (modSR (\<lambda>_. sr) c))) })"

text \<open>\<open>op\<close>: 0 ABCD, 1 SBCD, 2 NBCD.\<close>

definition do_bcd :: "'m ops \<Rightarrow> M68KInstr \<Rightarrow> nat \<Rightarrow> ('m, unit) im" where
  "do_bcd ops ins op =
    (if op = 2 then do {
       c0 \<leftarrow> get_cpu;
       (a, _) \<leftarrow> read_ea_ex ops ins (src_ea ins) M68K_SIZE_B er_init True;
       (let (r, carry) = nbcd_core (ucast (a AND 0xFF)) (bit (SR c0) 4) in do {
          write_ea_ex ops ins (src_ea ins) M68K_SIZE_B er_init (ucast r) True;
          mod_cpu (modSR (bcd_flags r carry)) }) }
     else
      (let dst = nat (i_reg ins); src = ea_reg (src_ea ins);
           core = (if op = 0 then abcd_core else sbcd_core)
       in if predec_mem_form ins then do {
            c0 \<leftarrow> get_cpu;
            mod_cpu (\<lambda>c. setA src (A_reg c src - (if src = 7 then 2 else 1)) c);
            c \<leftarrow> get_cpu;
            b \<leftarrow> bus_rd (m68k_read8 ops (A_reg c src));
            mod_cpu (\<lambda>c. setA dst (A_reg c dst - (if dst = 7 then 2 else 1)) c);
            c \<leftarrow> get_cpu;
            a \<leftarrow> bus_rd (m68k_read8 ops (A_reg c dst));
            (let (r, carry) = core a b (bit (SR c0) 4) in do {
               bus_wr (m68k_write8 ops (A_reg c dst) r);
               mod_cpu (modSR (bcd_flags r carry)) }) }
          else do {
            c \<leftarrow> get_cpu;
            (let (r, carry) = core (ucast (D_reg c dst)) (ucast (D_reg c src)) (bit (SR c) 4)
             in mod_cpu (\<lambda>c. modSR (bcd_flags r carry)
                    (setD dst ((D_reg c dst AND 0xFFFFFF00) OR ucast r) c))) }))"

text \<open>
  The three register loops of \<^verbatim>\<open>do_movem\<close>, as recursions over the remaining bit numbers; the
  address is threaded and returned.
\<close>

definition movem_store1 :: "'m ops \<Rightarrow> M68KSize \<Rightarrow> u32 \<Rightarrow> u32 \<Rightarrow> ('m, unit) im" where
  "movem_store1 ops sz a v =
    (if sz = M68K_SIZE_L then bus_wr (m68k_write32 ops a v) else bus_wr (m68k_write16 ops a (ucast v)))"

definition movem_load1 :: "'m ops \<Rightarrow> M68KSize \<Rightarrow> u32 \<Rightarrow> ('m, u32) im" where
  "movem_load1 ops sz a =
    (if sz = M68K_SIZE_L then bus_rd (m68k_read32 ops a)
     else do { v \<leftarrow> bus_rd (m68k_read16 ops a); State_Monad.return (scast v) })"

definition movem_sb :: "M68KSize \<Rightarrow> u32" where
  "movem_sb sz = (if sz = M68K_SIZE_L then 4 else 2)"

fun movem_predec :: "'m ops \<Rightarrow> M68KSize \<Rightarrow> u16 \<Rightarrow> nat list \<Rightarrow> u32 \<Rightarrow> ('m, u32) im" where
  "movem_predec ops sz rmask [] mb = State_Monad.return mb"
| "movem_predec ops sz rmask (i # is) mb =
    (if \<not> bit rmask i then movem_predec ops sz rmask is mb
     else do {
       c \<leftarrow> get_cpu;
       movem_store1 ops sz (mb - movem_sb sz) (if i < 8 then A_reg c (7 - i) else D_reg c (15 - i));
       movem_predec ops sz rmask is (mb - movem_sb sz) })"

fun movem_store :: "'m ops \<Rightarrow> M68KSize \<Rightarrow> u16 \<Rightarrow> nat list \<Rightarrow> u32 \<Rightarrow> ('m, u32) im" where
  "movem_store ops sz rmask [] mb = State_Monad.return mb"
| "movem_store ops sz rmask (i # is) mb =
    (if \<not> bit rmask i then movem_store ops sz rmask is mb
     else do {
       c \<leftarrow> get_cpu;
       movem_store1 ops sz mb (if 8 \<le> i then A_reg c (i - 8) else D_reg c i);
       movem_store ops sz rmask is (mb + movem_sb sz) })"

fun movem_load :: "'m ops \<Rightarrow> M68KSize \<Rightarrow> u16 \<Rightarrow> nat list \<Rightarrow> u32 \<Rightarrow> ('m, u32) im" where
  "movem_load ops sz rmask [] mb = State_Monad.return mb"
| "movem_load ops sz rmask (i # is) mb =
    (if \<not> bit rmask i then movem_load ops sz rmask is mb
     else do {
       v \<leftarrow> movem_load1 ops sz mb;
       mod_cpu (if 8 \<le> i then setA (i - 8) v else setD i v);
       movem_load ops sz rmask is (mb + movem_sb sz) })"

definition do_movem :: "'m ops \<Rightarrow> M68KInstr \<Rightarrow> M68KSize \<Rightarrow> ('m, unit) im" where
  "do_movem ops ins sz =
    (let load = bit (words ins 0) 10; rmask = words ins 1;
         mode = ea_mode (src_ea ins); reg = ea_reg (src_ea ins)
     in do {
       c \<leftarrow> get_cpu;
       (let base = (if 2 \<le> mode \<and> mode \<le> 4 then A_reg c reg
                    else case ctl_addr ins c mode reg (er_init_at 2) of Some (a, _) \<Rightarrow> a | None \<Rightarrow> 0)
        in if \<not> load \<and> mode = 4 then do {
             mb \<leftarrow> movem_predec ops sz rmask [0..<16] base;
             mod_cpu (setA reg mb) }
           else do {
             mb \<leftarrow> (if load then movem_load else movem_store) ops sz rmask [0..<16] base;
             mod_cpu (if mode = 3 then setA reg mb else (\<lambda>c. c)) }) })"

section \<open>The cases of exec\_one\<close>

text \<open>
  Each case returns the status and the next PC. \<open>fall\<close> is the address after the instruction.
\<close>

definition fall :: "M68KInstr \<Rightarrow> u32" where
  "fall ins = i_addr ins + byte_length ins"

definition i_dir :: "M68KInstr \<Rightarrow> bool" where
  "i_dir ins = bit (words ins 0) 8"

definition i_cc :: "M68KInstr \<Rightarrow> nat" where
  "i_cc ins = unat (drop_bit 8 (words ins 0) AND 0xF)"

definition ok :: "u32 \<Rightarrow> ('m, M68kiStatus \<times> u32) im" where
  "ok n = State_Monad.return (M68KI_OK, n)"

definition halt_unimpl :: "M68KInstr \<Rightarrow> ('m, M68kiStatus \<times> u32) im" where
  "halt_unimpl ins = do {
     mod_st (\<lambda>s. s\<lparr>g_m68ki_bad_pc := i_addr ins, g_m68ki_bad_op := words ins 0\<rparr>);
     State_Monad.return (M68KI_HALT_UNIMPL, fall ins) }"

definition exec_exg :: "u16 \<Rightarrow> M68KState \<Rightarrow> M68KState" where
  "exec_exg w c =
    (let opmode = unat (drop_bit 3 w AND 0x1F); rx = unat (drop_bit 9 w AND 7); ry = unat (w AND 7)
     in if opmode = 0x08 then setD ry (D_reg c rx) (setD rx (D_reg c ry) c)
        else if opmode = 0x09 then setA ry (A_reg c rx) (setA rx (A_reg c ry) c)
        else setA ry (D_reg c rx) (setD rx (A_reg c ry) c))"

definition exec_move :: "'m ops \<Rightarrow> M68KInstr \<Rightarrow> mn_move \<Rightarrow> ('m, M68kiStatus \<times> u32) im" where
  "exec_move ops ins mn =
    (let sz = i_size ins; reg = nat (i_reg ins) in
     case mn of
       MN_NOP \<Rightarrow> ok (fall ins)
     | MN_MOVE \<Rightarrow> do {
         (v, er) \<leftarrow> read_ea ops ins (src_ea ins) sz er_init;
         write_ea ops ins (dst_ea ins) sz er v;
         mod_cpu (modSR (flags_logic v sz));
         ok (fall ins) }
     | MN_MOVEA \<Rightarrow> do {
         (v, er) \<leftarrow> read_ea ops ins (src_ea ins) sz er_init;
         mod_cpu (setA reg (sext v sz));
         ok (fall ins) }
     | MN_MOVEQ \<Rightarrow> do {
         mod_cpu (setD reg (scast (ucast (imm32 ins) :: u8)));
         mod_cpu (\<lambda>c. modSR (flags_logic (D_reg c reg) M68K_SIZE_L) c);
         ok (fall ins) }
     | MN_LEA \<Rightarrow> do {
         (a, er) \<leftarrow> addr_ea ins (src_ea ins) er_init;
         mod_cpu (setA reg a);
         ok (fall ins) }
     | MN_PEA \<Rightarrow> do {
         (a, er) \<leftarrow> addr_ea ins (src_ea ins) er_init;
         push32 ops a;
         ok (fall ins) }
     | MN_TST \<Rightarrow> do {
         (v, er) \<leftarrow> read_ea ops ins (src_ea ins) sz er_init;
         mod_cpu (modSR (flags_logic v sz));
         ok (fall ins) }
     | MN_CLR \<Rightarrow> do {
         read_ea_ex ops ins (src_ea ins) sz er_init True;
         write_ea_ex ops ins (src_ea ins) sz er_init 0 True;
         mod_cpu (modSR (\<lambda>sr. (sr AND NOT 0x0F) OR SR_Z));
         ok (fall ins) }
     | MN_EXT \<Rightarrow> do {
         c \<leftarrow> get_cpu;
         (if sz = M68K_SIZE_W then
           (let v = scast (ucast (D_reg c reg) :: u8)
            in mod_cpu (\<lambda>c. modSR (flags_logic v M68K_SIZE_W) (store_dn reg v M68K_SIZE_W c)))
          else
           (let v = scast (ucast (D_reg c reg) :: u16)
            in mod_cpu (\<lambda>c. modSR (flags_logic v M68K_SIZE_L) (setD reg v c))));
         ok (fall ins) }
     | MN_SWAP \<Rightarrow> do {
         c \<leftarrow> get_cpu;
         (let v = drop_bit 16 (D_reg c reg) OR push_bit 16 (D_reg c reg)
          in mod_cpu (\<lambda>c. modSR (flags_logic v M68K_SIZE_L) (setD reg v c)));
         ok (fall ins) }
     | MN_EXG \<Rightarrow> do { mod_cpu (exec_exg (words ins 0)); ok (fall ins) })"

text \<open>The read-modify-write tail shared by the Dn-to-EA forms: the flags, then the store.\<close>

definition rmw_ea ::
  "'m ops \<Rightarrow> M68KInstr \<Rightarrow> M68KSize \<Rightarrow> extr \<Rightarrow> (M68KState \<Rightarrow> u32 \<Rightarrow> u32 \<times> (u16 \<Rightarrow> u16)) \<Rightarrow> ('m, unit) im"
where
  "rmw_ea ops ins sz er f = do {
     (a, _) \<leftarrow> read_ea_ex ops ins (src_ea ins) sz er True;
     c \<leftarrow> get_cpu;
     (let (r, fl) = f c (a AND szmask sz) in do {
        mod_cpu (modSR fl);
        write_ea_ex ops ins (src_ea ins) sz er r True;
        State_Monad.return () }) }"

definition addsub :: "bool \<Rightarrow> M68KSize \<Rightarrow> u32 \<Rightarrow> u32 \<Rightarrow> u32 \<times> (u16 \<Rightarrow> u16)" where
  "addsub isadd sz a b =
    (let r = (if isadd then a + b else a - b)
     in (r, if isadd then flags_add a b r sz else flags_sub a b r sz))"

definition andor :: "bool \<Rightarrow> M68KSize \<Rightarrow> u32 \<Rightarrow> u32 \<Rightarrow> u32 \<times> (u16 \<Rightarrow> u16)" where
  "andor isand sz a b = (let r = (if isand then a AND b else a OR b) in (r, flags_logic r sz))"

definition exec_ea_to_dn ::
  "'m ops \<Rightarrow> M68KInstr \<Rightarrow> (u32 \<Rightarrow> u32 \<Rightarrow> u32 \<times> (u16 \<Rightarrow> u16)) \<Rightarrow> ('m, unit) im"
where
  "exec_ea_to_dn ops ins f =
    (let sz = i_size ins; dreg = nat (i_reg ins); m = szmask sz in do {
       (b, _) \<leftarrow> read_ea ops ins (src_ea ins) sz er_init;
       c \<leftarrow> get_cpu;
       (let (r, fl) = f (D_reg c dreg AND m) (b AND m)
        in mod_cpu (\<lambda>c. store_dn dreg r sz (modSR fl c))) })"

definition exec_dn_to_ea ::
  "'m ops \<Rightarrow> M68KInstr \<Rightarrow> (u32 \<Rightarrow> u32 \<Rightarrow> u32 \<times> (u16 \<Rightarrow> u16)) \<Rightarrow> ('m, unit) im"
where
  "exec_dn_to_ea ops ins f =
    rmw_ea ops ins (i_size ins) er_init
      (\<lambda>c a. f a (D_reg c (nat (i_reg ins)) AND szmask (i_size ins)))"

definition exec_alu :: "'m ops \<Rightarrow> M68KInstr \<Rightarrow> mn_alu \<Rightarrow> ('m, M68kiStatus \<times> u32) im" where
  "exec_alu ops ins mn =
    (let sz = i_size ins; reg = nat (i_reg ins); m = szmask sz;
         both = (\<lambda>f. do { (if i_dir ins then exec_dn_to_ea ops ins f else exec_ea_to_dn ops ins f);
                           ok (fall ins) });
         addr = (\<lambda>g. do { (v, _) \<leftarrow> read_ea ops ins (src_ea ins) sz er_init;
                           mod_cpu (\<lambda>c. g c (sext v sz));
                           ok (fall ins) });
         quick = (\<lambda>isadd.
           (let q = (if imm32 ins \<noteq> 0 then imm32 ins else 8) in
            if ea_mode (src_ea ins) = 1 then do {
              (let r = ea_reg (src_ea ins)
               in mod_cpu (\<lambda>c. setA r (if isadd then A_reg c r + q else A_reg c r - q) c));
              ok (fall ins) }
            else do {
              rmw_ea ops ins sz er_init (\<lambda>_ a. addsub isadd sz a q);
              ok (fall ins) }))
     in case mn of
       MN_ADD \<Rightarrow> both (addsub True sz)
     | MN_SUB \<Rightarrow> both (addsub False sz)
     | MN_ADDA \<Rightarrow> addr (\<lambda>c v. setA reg (A_reg c reg + v) c)
     | MN_SUBA \<Rightarrow> addr (\<lambda>c v. setA reg (A_reg c reg - v) c)
     | MN_CMP \<Rightarrow> do {
         (b, _) \<leftarrow> read_ea ops ins (src_ea ins) sz er_init;
         mod_cpu (\<lambda>c. let a = D_reg c reg AND m; b = b AND m in modSR (flags_cmp a b (a - b) sz) c);
         ok (fall ins) }
     | MN_CMPA \<Rightarrow> addr (\<lambda>c b. modSR (flags_cmp (A_reg c reg) b (A_reg c reg - b) M68K_SIZE_L) c)
     | MN_CMPM \<Rightarrow> (let ay = ea_reg (src_ea ins) in do {
         c \<leftarrow> get_cpu;
         b \<leftarrow> mem_read ops sz (A_reg c ay);
         mod_cpu (\<lambda>c. setA ay (A_reg c ay + ea_step ay sz) c);
         c \<leftarrow> get_cpu;
         a \<leftarrow> mem_read ops sz (A_reg c reg);
         mod_cpu (\<lambda>c. setA reg (A_reg c reg + ea_step reg sz) c);
         mod_cpu (let a = a AND m; b = b AND m in modSR (flags_cmp a b (a - b) sz));
         ok (fall ins) })
     | MN_AND \<Rightarrow> both (andor True sz)
     | MN_OR \<Rightarrow> both (andor False sz)
     | MN_EOR \<Rightarrow> do {
         exec_dn_to_ea ops ins (\<lambda>a b. let r = a XOR b in (r, flags_logic r sz));
         ok (fall ins) }
     | MN_ADDQ \<Rightarrow> quick True
     | MN_SUBQ \<Rightarrow> quick False)"

definition imm_op :: "mn_imm \<Rightarrow> M68KSize \<Rightarrow> u32 \<Rightarrow> u32 \<Rightarrow> u32 \<times> (u16 \<Rightarrow> u16)" where
  "imm_op mn sz a im =
    (case mn of
       MN_ADDI \<Rightarrow> addsub True sz a im
     | MN_SUBI \<Rightarrow> addsub False sz a im
     | MN_ANDI \<Rightarrow> (a AND im, flags_logic (a AND im) sz)
     | MN_ORI \<Rightarrow> (a OR im, flags_logic (a OR im) sz)
     | _ \<Rightarrow> (a XOR im, flags_logic (a XOR im) sz))"

definition exec_imm :: "'m ops \<Rightarrow> M68KInstr \<Rightarrow> mn_imm \<Rightarrow> ('m, M68kiStatus \<times> u32) im" where
  "exec_imm ops ins mn =
    (let sz = i_size ins; m = szmask sz; (imm, er) = er_next_imm ins sz er_init
     in if mn = MN_CMPI then do {
          (a, _) \<leftarrow> read_ea ops ins (src_ea ins) sz er;
          mod_cpu (let a = a AND m; im = imm AND m in modSR (flags_cmp a im (a - im) sz));
          ok (fall ins) }
        else do {
          rmw_ea ops ins sz er (\<lambda>_ a. imm_op mn sz a (imm AND m));
          ok (fall ins) })"

definition exec_flow :: "'m ops \<Rightarrow> M68KInstr \<Rightarrow> mn_flow \<Rightarrow> ('m, M68kiStatus \<times> u32) im" where
  "exec_flow ops ins mn =
    (case mn of
       MN_BRA \<Rightarrow> ok (target_addr ins)
     | MN_Bcc \<Rightarrow> do {
         c \<leftarrow> get_cpu;
         ok (if eval_cond (i_cc ins) (SR c) then target_addr ins else fall ins) }
     | MN_BSR \<Rightarrow> do {
         mod_st (discover (target_addr ins));
         push32 ops (fall ins);
         ok (target_addr ins) }
     | MN_DBcc \<Rightarrow> do {
         c \<leftarrow> get_cpu;
         if eval_cond (i_cc ins) (SR c) then ok (fall ins)
         else (let reg = nat (i_reg ins); dn = ((D_reg c reg AND 0xFFFF) - 1) AND 0xFFFF in do {
           mod_cpu (store_dn reg dn M68K_SIZE_W);
           ok (if (ucast dn :: u16) \<noteq> 0xFFFF then target_addr ins else fall ins) }) }
     | MN_JMP \<Rightarrow> do {
         (t, _) \<leftarrow> addr_ea ins (src_ea ins) er_init;
         mod_st (discover t);
         ok t }
     | MN_JSR \<Rightarrow> do {
         (t, _) \<leftarrow> addr_ea ins (src_ea ins) er_init;
         mod_st (discover t);
         push32 ops (fall ins);
         ok t }
     | MN_RTS \<Rightarrow> do { t \<leftarrow> pop32 ops; ok t }
     | MN_RTR \<Rightarrow> do {
         ccr \<leftarrow> pop16 ops;
         mod_cpu (modSR (\<lambda>sr. (sr AND 0xFF00) OR (ccr AND 0xFF)));
         t \<leftarrow> pop32 ops;
         ok t }
     | MN_RTE \<Rightarrow> do {
         v \<leftarrow> pop16 ops;
         mod_cpu (modSR (\<lambda>_. v AND 0xA71F));
         t \<leftarrow> pop32 ops;
         ok t })"

text \<open>The one-bit memory shifts: result, carry, overflow, the two tail selectors.\<close>

definition mem_shift_core :: "mn_shift \<Rightarrow> u32 \<Rightarrow> bool \<Rightarrow> u32 \<times> bool \<times> bool \<times> bool \<times> bool" where
  "mem_shift_core mn sv x =
    (let hi = bit sv 15; lo = bit sv 0; xv = of_bool x in
     case mn of
       MN_LSL \<Rightarrow> (push_bit 1 sv AND 0xFFFF, hi, False, False, True)
     | MN_LSR \<Rightarrow> (drop_bit 1 sv, lo, False, False, True)
     | MN_ASL \<Rightarrow> (let res = push_bit 1 sv AND 0xFFFF in
         (res, hi, sv AND 0x8000 \<noteq> res AND 0x8000, True, True))
     | MN_ASR \<Rightarrow> (ucast (signed_drop_bit 1 (ucast sv :: u16)) AND 0xFFFF, lo, False, True, True)
     | MN_ROL \<Rightarrow> ((push_bit 1 sv OR drop_bit 15 sv) AND 0xFFFF, hi, False, False, False)
     | MN_ROR \<Rightarrow> ((drop_bit 1 sv OR push_bit 15 sv) AND 0xFFFF, lo, False, False, False)
     | MN_ROXL \<Rightarrow> ((push_bit 1 sv OR xv) AND 0xFFFF, hi, False, False, True)
     | MN_ROXR \<Rightarrow> ((drop_bit 1 sv OR push_bit 15 xv) AND 0xFFFF, lo, False, False, True))"

definition mem_shift_flags :: "u32 \<times> bool \<times> bool \<times> bool \<times> bool \<Rightarrow> u16 \<Rightarrow> u16" where
  "mem_shift_flags rcv sr =
    (case rcv of (res, c, v, with_v, touches_x) \<Rightarrow>
     if \<not> touches_x then
       orif c SR_C (orif (res AND 0x8000 \<noteq> 0) SR_N (orif (res = 0) SR_Z (sr AND NOT 0x0F)))
     else
       (let sr = orif (res AND 0x8000 \<noteq> 0) SR_N (orif (res = 0) SR_Z (sr AND NOT 0x1F));
            sr = (if c then (sr OR SR_C) OR SR_X else sr)
        in orif (with_v \<and> v) SR_V sr))"

definition exec_shift :: "'m ops \<Rightarrow> M68KInstr \<Rightarrow> mn_shift \<Rightarrow> ('m, M68kiStatus \<times> u32) im" where
  "exec_shift ops ins mn =
    (if mem_shift ins then do {
       (a, _) \<leftarrow> read_ea_ex ops ins (src_ea ins) M68K_SIZE_W er_init True;
       c \<leftarrow> get_cpu;
       (let rcv = mem_shift_core mn (a AND 0xFFFF) (bit (SR c) 4) in do {
          write_ea_ex ops ins (src_ea ins) M68K_SIZE_W er_init (fst rcv) True;
          mod_cpu (modSR (mem_shift_flags rcv)) });
       ok (fall ins) }
     else do {
       mod_cpu (do_shift mn (nat (i_reg ins)) (i_size ins) (0 \<le> src_ea ins) (nat (src_ea ins))
                 (unat (imm32 ins AND 63)));
       ok (fall ins) })"

text \<open>BTST, BCHG, BCLR, BSET; \<open>er\<close> is past the immediate for the immediate forms.\<close>

definition bit_result :: "mn_bit \<Rightarrow> nat \<Rightarrow> u32 \<Rightarrow> u32" where
  "bit_result mn bn src =
    (if mn = MN_BCHG then src XOR push_bit bn 1
     else if mn = MN_BCLR then src AND NOT (push_bit bn 1)
     else src OR push_bit bn 1)"

definition bit_flag :: "nat \<Rightarrow> u32 \<Rightarrow> u16 \<Rightarrow> u16" where
  "bit_flag bn src sr = (sr AND NOT SR_Z) OR (if src AND push_bit bn 1 = 0 then SR_Z else 0)"

definition exec_bits :: "'m ops \<Rightarrow> M68KInstr \<Rightarrow> mn_bit \<Rightarrow> ('m, unit) im" where
  "exec_bits ops ins mn =
    (let is_imm = i_reg ins < 0; ea = src_ea ins; dn = (ea_mode ea = 0);
         bit_mask = (if dn then 31 else 7); bsz = (if dn then M68K_SIZE_L else M68K_SIZE_B);
         er = (if is_imm then er_init_at 2 else er_init)
     in do {
       c \<leftarrow> get_cpu;
       (let bn = unat ((if is_imm then imm32 ins else D_reg c (nat (i_reg ins))) AND bit_mask)
        in if mn = MN_BTST then do {
             (a, _) \<leftarrow> read_ea ops ins ea bsz er;
             mod_cpu (modSR (bit_flag bn (a AND szmask bsz))) }
           else do {
             (a, _) \<leftarrow> read_ea_ex ops ins ea bsz er True;
             (let src = a AND szmask bsz in do {
                mod_cpu (modSR (bit_flag bn src));
                write_ea_ex ops ins ea bsz er (bit_result mn bn src) True;
                State_Monad.return () }) }) })"

definition neg_op :: "mn_bit \<Rightarrow> M68KSize \<Rightarrow> bool \<Rightarrow> u32 \<Rightarrow> u32 \<times> (u16 \<Rightarrow> u16)" where
  "neg_op mn sz xflag a =
    (if mn = MN_NOT then (let r = NOT a AND szmask sz in (r, flags_logic r sz))
     else (let x = (if mn = MN_NEGX then of_bool xflag else 0); r = (0 - a - x) AND szmask sz
           in (r, flags_sub 0 a r sz)))"

definition exec_bitop :: "'m ops \<Rightarrow> M68KInstr \<Rightarrow> mn_bit \<Rightarrow> ('m, M68kiStatus \<times> u32) im" where
  "exec_bitop ops ins mn =
    (if mn \<in> {MN_BTST, MN_BCHG, MN_BCLR, MN_BSET} then do { exec_bits ops ins mn; ok (fall ins) }
     else if mn = MN_TAS then do {
       rmw_ea ops ins M68K_SIZE_B er_init
         (\<lambda>_ v. (v OR 0x80, \<lambda>sr. orif (drop_bit 7 v \<noteq> 0) SR_N (orif (v = 0) SR_Z (sr AND NOT 0x0F))));
       ok (fall ins) }
     else do {
       rmw_ea ops ins (i_size ins) er_init (\<lambda>c a. neg_op mn (i_size ins) (bit (SR c) 4) a);
       ok (fall ins) })"

definition exec_mul :: "'m ops \<Rightarrow> M68KInstr \<Rightarrow> mn_mul \<Rightarrow> ('m, M68kiStatus \<times> u32) im" where
  "exec_mul ops ins mn =
    (let reg = nat (i_reg ins); rdw = read_ea ops ins (src_ea ins) M68K_SIZE_W er_init in
     case mn of
       MN_MULU \<Rightarrow> do {
         (s, _) \<leftarrow> rdw;
         mod_cpu (\<lambda>c. setD reg (ucast (ucast (D_reg c reg) :: u16) * (s AND 0xFFFF)) c);
         mod_cpu (\<lambda>c. modSR (flags_logic (D_reg c reg) M68K_SIZE_L) c);
         ok (fall ins) }
     | MN_MULS \<Rightarrow> do {
         (s, _) \<leftarrow> rdw;
         mod_cpu (\<lambda>c. setD reg (scast (ucast (D_reg c reg) :: u16) * scast (ucast (s AND 0xFFFF) :: u16)) c);
         mod_cpu (\<lambda>c. modSR (flags_logic (D_reg c reg) M68K_SIZE_L) c);
         ok (fall ins) }
     | MN_MOVEM \<Rightarrow> do { do_movem ops ins (i_size ins); ok (fall ins) }
     | MN_LINK \<Rightarrow> do {
         mod_cpu (\<lambda>c. setA 7 (A_reg c 7 - 4) c);
         c \<leftarrow> get_cpu;
         bus_wr (m68k_write32 ops (A_reg c 7) (A_reg c reg));
         mod_cpu (\<lambda>c. setA reg (A_reg c 7) c);
         mod_cpu (\<lambda>c. setA 7 (A_reg c 7 + scast (words ins 1)) c);
         ok (fall ins) }
     | MN_UNLK \<Rightarrow> do {
         mod_cpu (\<lambda>c. setA 7 (A_reg c reg) c);
         c \<leftarrow> get_cpu;
         v \<leftarrow> bus_rd (m68k_read32 ops (A_reg c 7));
         mod_cpu (setA reg v);
         mod_cpu (\<lambda>c. setA 7 (A_reg c 7 + 4) c);
         ok (fall ins) }
     | MN_Scc \<Rightarrow> do {
         c \<leftarrow> get_cpu;
         write_ea ops ins (src_ea ins) M68K_SIZE_B er_init
           (if eval_cond (i_cc ins) (SR c) then 0xFF else 0);
         ok (fall ins) }
     | _ \<Rightarrow> do {
         (s, _) \<leftarrow> rdw;
         (let divisor = s AND 0xFFFF in
          if divisor = 0 then halt_unimpl ins
          else do { mod_cpu (do_div reg divisor (mn = MN_DIVS)); ok (fall ins) }) })"

definition exec_sys :: "'m ops \<Rightarrow> M68KInstr \<Rightarrow> mn_sys \<Rightarrow> ('m, M68kiStatus \<times> u32) im" where
  "exec_sys ops ins mn =
    (let reg = nat (i_reg ins); sz = i_size ins;
         imm = ucast (imm32 ins) :: u16;
         sr_op = (\<lambda>f. do { mod_cpu (modSR (\<lambda>sr. f sr AND 0xA71F)); ok (fall ins) })
     in case mn of
       MN_MOVE_SR \<Rightarrow>
         (if \<not> dst_is_ea ins then do {
            (v, _) \<leftarrow> read_ea ops ins (src_ea ins) M68K_SIZE_W er_init;
            mod_cpu (modSR (\<lambda>_. ucast (v AND 0xA71F)));
            ok (fall ins) }
          else do {
            c \<leftarrow> get_cpu;
            write_ea ops ins (src_ea ins) M68K_SIZE_W er_init (ucast (SR c));
            ok (fall ins) })
     | MN_MOVE_CCR \<Rightarrow>
         (if \<not> dst_is_ea ins then do {
            (v, _) \<leftarrow> read_ea ops ins (src_ea ins) M68K_SIZE_W er_init;
            mod_cpu (modSR (\<lambda>sr. (sr AND 0xFF00) OR ucast (v AND 0x1F)));
            ok (fall ins) }
          else do {
            c \<leftarrow> get_cpu;
            write_ea ops ins (src_ea ins) M68K_SIZE_W er_init (ucast (SR c AND 0x1F));
            ok (fall ins) })
     | MN_MOVE_USP \<Rightarrow> do {
         mod_cpu (\<lambda>c. if bit (words ins 0) 3 then setA reg (USP c) c else c\<lparr>USP := A_reg c reg\<rparr>);
         ok (fall ins) }
     | MN_ADDX \<Rightarrow> do { do_addx_subx ops ins sz True; ok (fall ins) }
     | MN_SUBX \<Rightarrow> do { do_addx_subx ops ins sz False; ok (fall ins) }
     | MN_ABCD \<Rightarrow> do { do_bcd ops ins 0; ok (fall ins) }
     | MN_SBCD \<Rightarrow> do { do_bcd ops ins 1; ok (fall ins) }
     | MN_NBCD \<Rightarrow> do { do_bcd ops ins 2; ok (fall ins) }
     | MN_ORI_TO_CCR \<Rightarrow> sr_op (\<lambda>sr. sr OR (imm AND 0xFF))
     | MN_ORI_TO_SR \<Rightarrow> sr_op (\<lambda>sr. sr OR imm)
     | MN_ANDI_TO_CCR \<Rightarrow> sr_op (\<lambda>sr. sr AND (0xFF00 OR (imm AND 0xFF)))
     | MN_ANDI_TO_SR \<Rightarrow> sr_op (\<lambda>sr. sr AND imm)
     | MN_EORI_TO_CCR \<Rightarrow> sr_op (\<lambda>sr. sr XOR (imm AND 0xFF))
     | MN_EORI_TO_SR \<Rightarrow> sr_op (\<lambda>sr. sr XOR imm))"

definition exec_one :: "'m ops \<Rightarrow> M68KInstr \<Rightarrow> ('m, M68kiStatus \<times> u32) im" where
  "exec_one ops ins = do {
     mod_st (cov_mark ops (i_addr ins));
     (case mnemonic ins of
        Move mn \<Rightarrow> exec_move ops ins mn
      | Alu mn \<Rightarrow> exec_alu ops ins mn
      | Imm mn \<Rightarrow> exec_imm ops ins mn
      | Flow mn \<Rightarrow> exec_flow ops ins mn
      | Shift mn \<Rightarrow> exec_shift ops ins mn
      | Bitop mn \<Rightarrow> exec_bitop ops ins mn
      | Mul mn \<Rightarrow> exec_mul ops ins mn
      | Sys mn \<Rightarrow> exec_sys ops ins mn
      | Halt _ \<Rightarrow> halt_unimpl ins) }"

end
