(* ===== verification/M68k_Run.thy ===== *)
theory M68k_Run
  imports M68k_Exec
begin

text \<open>
  The cycle estimate, the single step and the four run loops of \<^verbatim>\<open>runner/m68k_interp.c\<close>.
  A loop is a \<^verbatim>\<open>partial_function\<close> into \<open>option\<close>: a run that never ends is \<open>None\<close>. The
  bodies of the three framed loops are step functions that either finish with a status and an exit
  PC or continue with a new call depth.
\<close>

section \<open>Cycle estimate\<close>

function interp_popcount16 :: "u16 \<Rightarrow> nat" where
  "interp_popcount16 v =
    (if v = 0 then 0 else (if bit v 0 then 1 else 0) + interp_popcount16 (drop_bit 1 v))"
  by pat_completeness auto

termination interp_popcount16
  by (relation "measure unat") (auto simp: drop_bit_1_less simp del: One_nat_def)

declare interp_popcount16.simps [simp del]

definition interp_ea_read_cost :: "int \<Rightarrow> M68KSize \<Rightarrow> nat" where
  "interp_ea_read_cost ea sz =
    (let is_long = (sz = M68K_SIZE_L); mode = ea_mode ea; reg = ea_reg ea;
         pick = (\<lambda>l w. if is_long then l else w)
     in if mode = 0 \<or> mode = 1 then 0
        else if mode = 2 \<or> mode = 3 then pick 8 4
        else if mode = 4 then pick 10 6
        else if mode = 5 then pick 12 8
        else if mode = 6 then pick 14 10
        else if reg = 0 then pick 12 8
        else if reg = 1 then pick 16 12
        else if reg = 2 then pick 12 8
        else if reg = 3 then pick 14 10
        else if reg = 4 then pick 8 4
        else 0)"

definition interp_ea_write_cost :: "int \<Rightarrow> M68KSize \<Rightarrow> nat" where
  "interp_ea_write_cost ea sz = interp_ea_read_cost ea sz"

definition interp_estimate_cycles :: "M68KInstr \<Rightarrow> nat" where
  "interp_estimate_cycles ins =
    (let sz = i_size ins; is_long = (sz = M68K_SIZE_L); w0 = words ins 0;
         ea_src = interp_ea_read_cost (src_ea ins) sz;
         ea_dst = interp_ea_write_cost (dst_ea ins) sz;
         dst_is_reg = (ea_mode (dst_ea ins) \<le> 1);
         pick = (\<lambda>l w. if is_long then l else w);
         other = 4 + ea_src + ea_dst;
         unary = (if dst_is_reg then pick 6 4 else pick 12 8 + ea_dst)
     in case mnemonic ins of
       Move mn \<Rightarrow> (case mn of
           MN_NOP \<Rightarrow> 4 | MN_MOVE \<Rightarrow> 4 + ea_src + ea_dst | MN_MOVEA \<Rightarrow> 4 + ea_src | MN_MOVEQ \<Rightarrow> 4
         | MN_LEA \<Rightarrow> (if ea_src \<noteq> 0 then ea_src else 4) | MN_PEA \<Rightarrow> 12 + ea_src
         | MN_TST \<Rightarrow> unary | MN_CLR \<Rightarrow> unary | MN_EXT \<Rightarrow> 4 | MN_SWAP \<Rightarrow> 4 | MN_EXG \<Rightarrow> 6)
     | Alu mn \<Rightarrow>
         (if mn \<in> {MN_ADD, MN_SUB, MN_AND, MN_OR, MN_EOR, MN_CMP} then
            (if dst_is_reg then pick 6 4 + ea_src else pick 12 8 + ea_src + ea_dst)
          else if mn \<in> {MN_ADDA, MN_SUBA, MN_CMPA} then pick 6 8 + ea_src
          else if mn \<in> {MN_ADDQ, MN_SUBQ} then (if dst_is_reg then pick 8 4 else pick 12 8 + ea_dst)
          else other)
     | Imm mn \<Rightarrow>
         (if mn = MN_CMPI then (if dst_is_reg then pick 14 8 else pick 12 8 + ea_dst)
          else (if dst_is_reg then pick 16 8 else pick 20 12 + ea_dst))
     | Flow mn \<Rightarrow> (case mn of
           MN_RTS \<Rightarrow> 16 | MN_RTE \<Rightarrow> 20 | MN_JSR \<Rightarrow> 18 + ea_src | MN_BSR \<Rightarrow> 18 | MN_JMP \<Rightarrow> 10 + ea_src
         | MN_BRA \<Rightarrow> 10 | MN_Bcc \<Rightarrow> 10 | MN_DBcc \<Rightarrow> 12 | MN_RTR \<Rightarrow> 20)
     | Shift _ \<Rightarrow>
         (if \<not> dst_is_reg then 8 + ea_dst
          else (let n = (if bit w0 5 then 4 else (let k = unat (drop_bit 9 w0 AND 7) in if k = 0 then 8 else k))
                in pick 8 6 + 2 * n))
     | Bitop mn \<Rightarrow> (case mn of
           MN_BTST \<Rightarrow> (if dst_is_reg then 6 else 4 + ea_dst)
         | MN_BCHG \<Rightarrow> (if dst_is_reg then 8 else 8 + ea_dst)
         | MN_BCLR \<Rightarrow> (if dst_is_reg then 8 else 8 + ea_dst)
         | MN_BSET \<Rightarrow> (if dst_is_reg then 8 else 8 + ea_dst)
         | MN_TAS \<Rightarrow> (if dst_is_reg then 4 else 14 + ea_dst)
         | _ \<Rightarrow> unary)
     | Mul mn \<Rightarrow> (case mn of
           MN_MULS \<Rightarrow> 70 | MN_MULU \<Rightarrow> 70 | MN_DIVS \<Rightarrow> 150 | MN_DIVU \<Rightarrow> 140
         | MN_MOVEM \<Rightarrow>
             (let nregs = (if 2 \<le> word_count ins then interp_popcount16 (words ins 1) else 4)
              in pick (12 + 8 * nregs) (8 + 4 * nregs) + ea_src)
         | MN_LINK \<Rightarrow> 16 | MN_UNLK \<Rightarrow> 12 | MN_Scc \<Rightarrow> (if dst_is_reg then 6 else 8 + ea_dst))
     | Sys mn \<Rightarrow> (case mn of
           MN_MOVE_USP \<Rightarrow> 4 | MN_MOVE_SR \<Rightarrow> (if dst_is_reg then 6 else 8 + ea_dst)
         | MN_MOVE_CCR \<Rightarrow> 12 + ea_src | MN_ADDX \<Rightarrow> pick 8 4 | MN_SUBX \<Rightarrow> pick 8 4
         | MN_ABCD \<Rightarrow> 6 | MN_SBCD \<Rightarrow> 6 | MN_NBCD \<Rightarrow> (if dst_is_reg then 6 else 8 + ea_dst)
         | _ \<Rightarrow> other)
     | Halt mn \<Rightarrow> (case mn of
           MN_STOP \<Rightarrow> 4 | MN_TRAP \<Rightarrow> 34 | MN_TRAPV \<Rightarrow> 4 | MN_CHK \<Rightarrow> 10 + ea_src | MN_RESET \<Rightarrow> 132
         | MN_ILLEGAL \<Rightarrow> 34 | MN_MOVEP \<Rightarrow> pick 24 16 | MN_OTHER \<Rightarrow> other))"

definition interp_account_cycles :: "'m ops \<Rightarrow> M68KInstr \<Rightarrow> 'm interp \<Rightarrow> 'm interp" where
  "interp_account_cycles ops ins s =
    (let cyc = of_nat (interp_estimate_cycles ins) :: u32; r = run_time s;
         r = r\<lparr>g_native_insn_count := g_native_insn_count r + 1,
               g_cycle_accumulator := g_cycle_accumulator r + cyc,
               g_audio_cycle_counter := g_audio_cycle_counter r + cyc\<rparr>;
         s = s\<lparr>run_time := r\<rparr>
     in if g_vblank_threshold r \<le> g_cycle_accumulator r then glue_check_vblank ops s else s)"

section \<open>Fetch\<close>

definition ROM_SIZE :: u32 where "ROM_SIZE = 0x400000"

definition busview_fetch8 :: "'m ops \<Rightarrow> 'm rt \<Rightarrow> u32 \<Rightarrow> u8" where
  "busview_fetch8 ops r addr =
    (let addr = addr AND 0xFFFFFF
     in if 0xFF0000 \<le> addr then g_ram ops r (unat (addr AND 0xFFFF))
        else if addr < ROM_SIZE then g_rom ops r (unat addr)
        else 0xFF)"

definition pc_fetchable :: "u32 \<Rightarrow> bool" where
  "pc_fetchable pc = (let pc = pc AND 0xFFFFFF in pc < ROM_SIZE \<or> 0xFF0000 \<le> pc)"

definition interp_game_hook :: "'m ops \<Rightarrow> u32 \<Rightarrow> 'm interp \<Rightarrow> bool \<times> 'm interp" where
  "interp_game_hook ops pc s =
    (if game_instruction_hook_site ops pc then genesis_game_instruction_hook ops pc s else (False, s))"

definition decode_at :: "'m ops \<Rightarrow> u32 \<Rightarrow> 'm interp \<Rightarrow> M68KInstr option" where
  "decode_at ops pc s = m68k_decode ops (busview_fetch8 ops (run_time s)) pc"

section \<open>One instruction\<close>

definition setPC :: "u32 \<Rightarrow> 'm interp \<Rightarrow> 'm interp" where
  "setPC pc s = s\<lparr>g_cpu := (g_cpu s)\<lparr>PC := pc AND 0xFFFFFF\<rparr>\<rparr>"

text \<open>From \<^verbatim>\<open>s_illegal_ea = 0;\<close> to the cycle accounting.\<close>

definition exec_retire :: "'m ops \<Rightarrow> M68KInstr \<Rightarrow> 'm interp \<Rightarrow> M68kiStatus \<times> 'm interp" where
  "exec_retire ops ins s =
    (let ((st, next), s) = run_state (exec_one ops ins) (s\<lparr>s_illegal_ea := False\<rparr>)
     in if st \<noteq> M68KI_OK then (st, s)
        else if s_illegal_ea s then
          (M68KI_HALT_UNIMPL, s\<lparr>g_m68ki_bad_pc := i_addr ins, g_m68ki_bad_op := words ins 0\<rparr>)
        else (M68KI_OK, interp_account_cycles ops ins (setPC next s)))"

text \<open>The undecodable case: the opcode word is read over the bus for the report.\<close>

definition decode_halt :: "'m ops \<Rightarrow> u32 \<Rightarrow> 'm interp \<Rightarrow> 'm interp" where
  "decode_halt ops pc s =
    (let (op, r) = m68k_read16 ops pc (run_time s)
     in s\<lparr>run_time := r, g_m68ki_bad_pc := pc, g_m68ki_bad_op := op\<rparr>)"

definition m68k_interp_step :: "'m ops \<Rightarrow> 'm interp \<Rightarrow> M68kiStatus \<times> 'm interp" where
  "m68k_interp_step ops s =
    (let pc = PC (g_cpu s) AND 0xFFFFFF
     in if \<not> pc_fetchable pc then (M68KI_HALT_BADADDR, s\<lparr>g_m68ki_bad_pc := pc\<rparr>)
        else (let (hooked, s) = interp_game_hook ops pc s
              in if hooked then (let (ret, s) = run_state (pop32 ops) s in (M68KI_OK, setPC ret s))
                 else (case decode_at ops pc s of
                     None \<Rightarrow> (M68KI_HALT_UNIMPL, decode_halt ops pc s)
                   | Some ins \<Rightarrow> exec_retire ops ins s)))"

section \<open>Run loops\<close>

definition M68KI_INSN_GUARD :: u64 where "M68KI_INSN_GUARD = 50000000"

definition run_reset :: "u32 \<Rightarrow> 'm interp \<Rightarrow> 'm interp" where
  "run_reset entry_pc s = (setPC entry_pc s)\<lparr>g_m68ki_insn_count := 0, g_m68ki_discover := []\<rparr>"

definition bump_count :: "'m interp \<Rightarrow> 'm interp" where
  "bump_count s = s\<lparr>g_m68ki_insn_count := g_m68ki_insn_count s + 1\<rparr>"

definition guard_halt :: "'m interp \<Rightarrow> 'm interp" where
  "guard_halt s = s\<lparr>g_m68ki_bad_pc := PC (g_cpu s)\<rparr>"

partial_function (option) run_loop :: "'m ops \<Rightarrow> u32 \<Rightarrow> 'm interp \<Rightarrow> (M68kiStatus \<times> 'm interp) option" where
  "run_loop ops stop s =
    (if PC (g_cpu s) = stop then Some (M68KI_OK, s)
     else (case m68k_interp_step ops s of (st, s1) \<Rightarrow>
       if st \<noteq> M68KI_OK then Some (st, s1)
       else if M68KI_INSN_GUARD < g_m68ki_insn_count (bump_count s1)
         then Some (M68KI_HALT_GUARD, guard_halt (bump_count s1))
       else run_loop ops stop (bump_count s1)))"

definition m68k_interp_run :: "'m ops \<Rightarrow> u32 \<Rightarrow> u32 \<Rightarrow> 'm interp \<Rightarrow> (M68kiStatus \<times> 'm interp) option" where
  "m68k_interp_run ops entry_pc stop_pc s = run_loop ops (stop_pc AND 0xFFFFFF) (run_reset entry_pc s)"

text \<open>
  One round of a framed loop: finished with a status and an exit PC, or continued at a depth.
\<close>

datatype 'm frame = Done M68kiStatus u32 "'m interp" | Cont int "'m interp"

definition peek_ret :: "'m ops \<Rightarrow> u32 \<Rightarrow> 'm interp \<Rightarrow> 'm frame" where
  "peek_ret ops a s =
    (let (v, r) = m68k_read32 ops a (run_time s)
     in Done M68KI_OK (v AND 0xFFFFFF) (s\<lparr>run_time := r\<rparr>))"

definition is_call :: "M68KInstr \<Rightarrow> bool" where
  "is_call ins = (mnemonic ins = Flow MN_JSR \<or> mnemonic ins = Flow MN_BSR)"

definition is_ret :: "M68KInstr \<Rightarrow> bool" where
  "is_ret ins = (mnemonic ins = Flow MN_RTS \<or> mnemonic ins = Flow MN_RTR)"

text \<open>The tail of the three loops: execute, retire, track the depth, test the guard.\<close>

definition frame_exec :: "'m ops \<Rightarrow> M68KInstr \<Rightarrow> int \<Rightarrow> 'm interp \<Rightarrow> 'm frame" where
  "frame_exec ops ins depth s =
    (let (st, s) = exec_retire ops ins s
     in if st \<noteq> M68KI_OK then Done st 0 s
        else (let depth = (if is_call ins then depth + 1 else if is_ret ins then depth - 1 else depth);
                  s = bump_count s
              in if M68KI_INSN_GUARD < g_m68ki_insn_count s then Done M68KI_HALT_GUARD 0 (guard_halt s)
                 else Cont depth s))"

text \<open>The implicit return of a hooked routine below the top frame.\<close>

definition hook_return :: "'m ops \<Rightarrow> int \<Rightarrow> 'm interp \<Rightarrow> 'm frame" where
  "hook_return ops depth s =
    (let (ret, s) = run_state (pop32 ops) s in Cont (depth - 1) (setPC ret s))"

definition own_return :: "'m ops \<Rightarrow> M68KInstr \<Rightarrow> 'm interp \<Rightarrow> 'm frame" where
  "own_return ops ins s =
    peek_ret ops (if mnemonic ins = Flow MN_RTR then A_reg (g_cpu s) 7 + 2 else A_reg (g_cpu s) 7) s"

definition framed_step :: "'m ops \<Rightarrow> int \<Rightarrow> 'm interp \<Rightarrow> 'm frame" where
  "framed_step ops depth s =
    (let pc = PC (g_cpu s) AND 0xFFFFFF
     in if \<not> pc_fetchable pc then Done M68KI_HALT_BADADDR 0 (s\<lparr>g_m68ki_bad_pc := pc\<rparr>)
        else (let (hooked, s) = interp_game_hook ops pc s
              in if hooked then
                   (if depth = 0 then peek_ret ops (A_reg (g_cpu s) 7) s else hook_return ops depth s)
                 else (case decode_at ops pc s of
                     None \<Rightarrow> Done M68KI_HALT_UNIMPL 0 (decode_halt ops pc s)
                   | Some ins \<Rightarrow>
                       if depth = 0 \<and> is_ret ins then own_return ops ins s
                       else frame_exec ops ins depth s)))"

definition handler_step :: "'m ops \<Rightarrow> int \<Rightarrow> 'm interp \<Rightarrow> 'm frame" where
  "handler_step ops depth s =
    (let pc = PC (g_cpu s) AND 0xFFFFFF
     in if ROM_SIZE \<le> pc then Done M68KI_HALT_BADADDR 0 (s\<lparr>g_m68ki_bad_pc := pc\<rparr>)
        else (let (hooked, s) = interp_game_hook ops pc s
              in if hooked then
                   (if depth = 0 then Done M68KI_OK 0 s else hook_return ops depth s)
                 else (case decode_at ops pc s of
                     None \<Rightarrow> Done M68KI_HALT_UNIMPL 0 (decode_halt ops pc s)
                   | Some ins \<Rightarrow>
                       if depth = 0 \<and> mnemonic ins = Flow MN_RTE then Done M68KI_OK 0 s
                       else frame_exec ops ins depth s)))"

definition ram_step :: "'m ops \<Rightarrow> int \<Rightarrow> 'm interp \<Rightarrow> 'm frame" where
  "ram_step ops depth s =
    (let pc = PC (g_cpu s) AND 0xFFFFFF
     in if \<not> pc_fetchable pc then Done M68KI_HALT_BADADDR 0 (s\<lparr>g_m68ki_bad_pc := pc\<rparr>)
        else (let (hooked, s) = interp_game_hook ops pc s
              in if hooked then
                   (if depth = 0 then peek_ret ops (A_reg (g_cpu s) 7) s else hook_return ops depth s)
                 else (case decode_at ops pc s of
                     None \<Rightarrow> Done M68KI_HALT_UNIMPL 0 (decode_halt ops pc s)
                   | Some ins \<Rightarrow>
                       if depth = 0 \<and> is_ret ins then own_return ops ins s
                       else if mnemonic ins = Flow MN_RTE then
                         (let s = s\<lparr>g_cpu := setA 7 (A_reg (g_cpu s) 7 + 4 * of_int depth) (g_cpu s),
                                    g_rte_pending := True\<rparr>
                          in Done M68KI_OK 0 (interp_account_cycles ops ins s))
                       else frame_exec ops ins depth s)))"

partial_function (option) frame_loop ::
  "(int \<Rightarrow> 'm interp \<Rightarrow> 'm frame) \<Rightarrow> int \<Rightarrow> 'm interp \<Rightarrow> (M68kiStatus \<times> u32 \<times> 'm interp) option"
where
  "frame_loop step depth s =
    (case step depth s of
       Done st pc s \<Rightarrow> Some (st, pc, s)
     | Cont depth s \<Rightarrow> frame_loop step depth s)"

definition m68k_interp_run_framed :: "'m ops \<Rightarrow> u32 \<Rightarrow> 'm interp \<Rightarrow> (M68kiStatus \<times> u32 \<times> 'm interp) option" where
  "m68k_interp_run_framed ops entry_pc s = frame_loop (framed_step ops) 0 (run_reset entry_pc s)"

definition m68k_interp_run_handler :: "'m ops \<Rightarrow> u32 \<Rightarrow> 'm interp \<Rightarrow> (M68kiStatus \<times> u32 \<times> 'm interp) option" where
  "m68k_interp_run_handler ops entry_pc s = frame_loop (handler_step ops) 0 (run_reset entry_pc s)"

definition m68k_interp_run_ram_handler :: "'m ops \<Rightarrow> u32 \<Rightarrow> 'm interp \<Rightarrow> (M68kiStatus \<times> u32 \<times> 'm interp) option" where
  "m68k_interp_run_ram_handler ops entry_pc s = frame_loop (ram_step ops) 0 (run_reset entry_pc s)"

end
