(* ===== verification/M68k_Run_Props.thy ===== *)
theory M68k_Run_Props
  imports M68k_Run
begin

text \<open>
  Properties of the interpreter that do not depend on what the bus answers: the cycle estimate is
  positive and bounded, the coverage bitmap records exactly the executed word addresses, the
  discovery list is duplicate-free and bounded, and the rounds of every run loop are
  bounded by the instruction guard, as long as the services they call leave its counter alone.
\<close>

section \<open>Frame: what execution leaves alone\<close>

text \<open>
  The counter and the RTE flag of an interpreter state; no instruction case of
  \<^verbatim>\<open>exec_one\<close> touches them.
\<close>

definition diag :: "'m interp \<Rightarrow> u64 \<times> bool" where
  "diag s = (g_m68ki_insn_count s, g_rte_pending s)"

definition keeps :: "('m, 'a) im \<Rightarrow> bool" where
  "keeps m \<longleftrightarrow> (\<forall>s. diag (snd (run_state m s)) = diag s)"

named_theorems keeps_intros \<open>introduction rules of the frame predicate\<close>

lemma keeps_return [keeps_intros]: "keeps (State_Monad.return x)"
  by (simp add: keeps_def)

lemma keeps_bind [keeps_intros]: "keeps m \<Longrightarrow> (\<And>x. keeps (f x)) \<Longrightarrow> keeps (State_Monad.bind m f)"
  by (simp add: keeps_def split_beta)

lemma keeps_case_prod [keeps_intros]: "(\<And>a b. keeps (f a b)) \<Longrightarrow> keeps (case p of (a, b) \<Rightarrow> f a b)"
  by (simp add: split_beta)

lemma keeps_if [keeps_intros]: "(b \<Longrightarrow> keeps m) \<Longrightarrow> (\<not> b \<Longrightarrow> keeps n) \<Longrightarrow> keeps (if b then m else n)"
  by simp

lemma keeps_option [keeps_intros]:
  "keeps m \<Longrightarrow> (\<And>x. keeps (f x)) \<Longrightarrow> keeps (case p of None \<Rightarrow> m | Some x \<Rightarrow> f x)"
  by (simp split: option.split)

lemma keeps_access [keeps_intros]:
  "keeps get_cpu" "keeps (mod_cpu g)" "keeps (bus_rd rd)" "keeps (bus_wr wr)"
  by (simp_all add: keeps_def diag_def)

lemma keeps_mod_st [keeps_intros]: "(\<And>s. diag (h s) = diag s) \<Longrightarrow> keeps (mod_st h)"
  by (simp add: keeps_def)

lemma keeps_mem [keeps_intros]: "keeps (mem_read ops sz a)" "keeps (mem_write ops sz a v)"
  by (cases sz; simp add: mem_read_def mem_write_def keeps_intros)+

lemma keeps_ea [keeps_intros]:
  "keeps (read_ea_ex ops ins ea sz er rmw)" "keeps (read_ea ops ins ea sz er)" "keeps (addr_ea ins ea er)"
  "keeps (write_ea_ex ops ins ea sz er v rmw)" "keeps (write_ea ops ins ea sz er v)"
  unfolding read_ea_def write_ea_def read_ea_ex_def addr_ea_def write_ea_ex_def Let_def
  by (intro keeps_intros; simp add: diag_def)+

lemma keeps_stack [keeps_intros]:
  "keeps (push32 ops v)" "keeps (pop32 ops)" "keeps (push16 ops w)" "keeps (pop16 ops)"
  unfolding push32_def pop32_def push16_def pop16_def by (intro keeps_intros)+

lemma diag_discover [simp]: "diag (discover t s) = diag s"
  by (simp add: discover_def diag_def Let_def)

lemma diag_cov_mark [simp]: "diag (cov_mark ops pc s) = diag s"
  by (simp add: cov_mark_def diag_def Let_def split: option.split)

lemma keeps_movem [keeps_intros]:
  "keeps (movem_predec ops sz m is mb)" "keeps (movem_store ops sz m is mb)" "keeps (movem_load ops sz m is mb)"
proof -
  have "keeps (movem_store1 ops sz a v)" "keeps (movem_load1 ops sz a)" for a v
    unfolding movem_store1_def movem_load1_def by (intro keeps_intros)+
  note keeps_intros = this keeps_intros
  show "keeps (movem_predec ops sz m is mb)"
    by (induction "is" arbitrary: mb) (auto intro!: keeps_intros)
  show "keeps (movem_store ops sz m is mb)"
    by (induction "is" arbitrary: mb) (auto intro!: keeps_intros)
  show "keeps (movem_load ops sz m is mb)"
    by (induction "is" arbitrary: mb) (auto intro!: keeps_intros)
qed

lemma keeps_do [keeps_intros]:
  "keeps (do_movem ops ins sz)" "keeps (do_addx_subx ops ins sz b)" "keeps (do_bcd ops ins op)"
  unfolding do_movem_def do_addx_subx_def do_bcd_def Let_def
  by (auto intro!: keeps_intros)

lemma keeps_rmw [keeps_intros]: "keeps (rmw_ea ops ins sz er f)" "keeps (exec_dn_to_ea ops ins g)"
  "keeps (exec_ea_to_dn ops ins g)" "keeps (ok n)" "keeps (halt_unimpl ins)" "keeps (exec_bits ops ins mn)"
  unfolding rmw_ea_def exec_dn_to_ea_def exec_ea_to_dn_def ok_def halt_unimpl_def exec_bits_def Let_def
  by (auto intro!: keeps_intros simp: diag_def)

lemma keeps_exec_move [keeps_intros]: "keeps (exec_move ops ins mn)"
  unfolding exec_move_def Let_def by (cases mn) (auto intro!: keeps_intros)

lemma keeps_exec_alu [keeps_intros]: "keeps (exec_alu ops ins mn)"
  unfolding exec_alu_def Let_def by (cases mn) (auto intro!: keeps_intros)

lemma keeps_exec_imm [keeps_intros]: "keeps (exec_imm ops ins mn)"
  unfolding exec_imm_def Let_def by (auto intro!: keeps_intros)

lemma keeps_exec_flow [keeps_intros]: "keeps (exec_flow ops ins mn)"
  unfolding exec_flow_def Let_def by (cases mn) (auto intro!: keeps_intros)

lemma keeps_exec_shift [keeps_intros]: "keeps (exec_shift ops ins mn)"
  unfolding exec_shift_def Let_def by (auto intro!: keeps_intros)

lemma keeps_exec_bitop [keeps_intros]: "keeps (exec_bitop ops ins mn)"
  unfolding exec_bitop_def by (auto intro!: keeps_intros)

lemma keeps_exec_mul [keeps_intros]: "keeps (exec_mul ops ins mn)"
  unfolding exec_mul_def Let_def by (cases mn) (auto intro!: keeps_intros)

lemma keeps_exec_sys [keeps_intros]: "keeps (exec_sys ops ins mn)"
  unfolding exec_sys_def Let_def by (cases mn) (auto intro!: keeps_intros)

lemma keeps_exec_one: "keeps (exec_one ops ins)"
  unfolding exec_one_def by (cases "mnemonic ins") (auto intro!: keeps_intros)

section \<open>Termination of the run loops\<close>

text \<open>
  A loop body iterated \<open>k\<close> times from a depth and a state; \<open>None\<close> once it has finished. The
  loops of the interpreter are the iteration of their bodies until \<open>None\<close>.
\<close>

primrec rounds :: "(int \<Rightarrow> 'm interp \<Rightarrow> 'm frame) \<Rightarrow> nat \<Rightarrow> int \<Rightarrow> 'm interp \<Rightarrow> (int \<times> 'm interp) option" where
  "rounds step 0 depth s = Some (depth, s)"
| "rounds step (Suc k) depth s =
    (case step depth s of Done _ _ _ \<Rightarrow> None | Cont depth s \<Rightarrow> rounds step k depth s)"

text \<open>How many of the first \<open>k\<close> rounds satisfy a predicate at their beginning.\<close>

primrec tally :: "(int \<Rightarrow> 'm interp \<Rightarrow> 'm frame) \<Rightarrow> (int \<Rightarrow> 'm interp \<Rightarrow> bool) \<Rightarrow> nat \<Rightarrow> int \<Rightarrow> 'm interp \<Rightarrow> nat" where
  "tally step P 0 depth s = 0"
| "tally step P (Suc k) depth s = (if P depth s then 1 else 0) +
    (case step depth s of Done _ _ _ \<Rightarrow> 0 | Cont depth s \<Rightarrow> tally step P k depth s)"

lemma frame_loop_rounds:
  "rounds step k depth s = None \<Longrightarrow> \<exists>st pc s'. frame_loop step depth s = Some (st, pc, s')"
proof (induction k arbitrary: depth s)
  case (Suc k)
  then show ?case by (subst frame_loop.simps) (simp split: frame.splits)
qed simp

text \<open>The body of \<^verbatim>\<open>m68k_interp_run\<close> in the form of the framed bodies; it tracks no depth.\<close>

definition run_step :: "'m ops \<Rightarrow> u32 \<Rightarrow> int \<Rightarrow> 'm interp \<Rightarrow> 'm frame" where
  "run_step ops stop depth s =
    (if PC (g_cpu s) = stop then Done M68KI_OK 0 s
     else (case m68k_interp_step ops s of (st, s1) \<Rightarrow>
       if st \<noteq> M68KI_OK then Done st 0 s1
       else if M68KI_INSN_GUARD < g_m68ki_insn_count (bump_count s1)
         then Done M68KI_HALT_GUARD 0 (guard_halt (bump_count s1))
       else Cont depth (bump_count s1)))"

lemma run_loop_rounds:
  "rounds (run_step ops stop) k depth s = None \<Longrightarrow> \<exists>st s'. run_loop ops stop s = Some (st, s')"
proof (induction k arbitrary: s)
  case (Suc k)
  then show ?case
    by (subst run_loop.simps) (auto simp: run_step_def split: prod.splits if_splits)
qed simp

text \<open>
  A service disturbs the guard in a round when the instruction hook or the V-blank service it
  calls leaves another instruction counter than it found. Services that run no interpreter never
  do; delivering an interrupt whose handler is interpreted does, since the nested run resets the
  counter.
\<close>

definition disturbed :: "'m ops \<Rightarrow> 'm interp \<Rightarrow> bool" where
  "disturbed ops s \<longleftrightarrow>
    (let pc = PC (g_cpu s) AND 0xFFFFFF; (hooked, t) = interp_game_hook ops pc s
     in g_m68ki_insn_count t \<noteq> g_m68ki_insn_count s \<or>
        (\<not> hooked \<and> (case decode_at ops pc t of None \<Rightarrow> False
           | Some ins \<Rightarrow> g_m68ki_insn_count (snd (exec_retire ops ins t)) \<noteq> g_m68ki_insn_count t)))"

text \<open>
  An implicit return of a hooked routine below the depth the run started at. Only the handler
  loop can come to one: it lets a return at depth 0 through, and only its RTE ends it.
\<close>

definition stray_return :: "'m ops \<Rightarrow> int \<Rightarrow> 'm interp \<Rightarrow> bool" where
  "stray_return ops depth s \<longleftrightarrow> depth < 0 \<and> fst (interp_game_hook ops (PC (g_cpu s) AND 0xFFFFFF) s)"

text \<open>
  An instruction never touches the counter itself, so only a service that changes it disturbs a
  round.
\<close>

lemma disturbed_by_service:
  assumes "disturbed ops s"
  shows "(\<exists>t. g_m68ki_insn_count (glue_check_vblank ops t) \<noteq> g_m68ki_insn_count t) \<or>
    (\<exists>pc t. g_m68ki_insn_count (snd (genesis_game_instruction_hook ops pc t)) \<noteq> g_m68ki_insn_count t)"
proof (rule ccontr)
  assume "\<not> ?thesis"
  then have vb: "g_m68ki_insn_count (glue_check_vblank ops t) = g_m68ki_insn_count t"
    and hook: "g_m68ki_insn_count (snd (genesis_game_instruction_hook ops pc t)) = g_m68ki_insn_count t"
    for t pc by auto
  have "g_m68ki_insn_count (snd (run_state (exec_one ops ins) t)) = g_m68ki_insn_count t" for ins t
    using keeps_exec_one [of ops ins] by (simp add: keeps_def diag_def)
  then have "g_m68ki_insn_count (snd (exec_retire ops ins t)) = g_m68ki_insn_count t" for ins t
    by (auto simp: exec_retire_def Let_def split_beta interp_account_cycles_def vb setPC_def)
  moreover have "g_m68ki_insn_count (snd (interp_game_hook ops pc t)) = g_m68ki_insn_count t" for pc t
    by (simp add: interp_game_hook_def hook)
  ultimately show False using assms by (auto simp: disturbed_def Let_def split_beta split: option.splits)
qed

lemma count_pop [simp]: "g_m68ki_insn_count (snd (run_state (pop32 ops) s)) = g_m68ki_insn_count s"
  by (simp add: pop32_def)

lemma count_setPC [simp]: "g_m68ki_insn_count (setPC pc s) = g_m68ki_insn_count s"
  by (simp add: setPC_def)

text \<open>How far the counter is from the guard; a counter beyond it counts as one full budget.\<close>

definition slack :: "u64 \<Rightarrow> nat" where
  "slack n = (if n \<le> M68KI_INSN_GUARD then unat M68KI_INSN_GUARD - unat n else unat M68KI_INSN_GUARD + 1)"

lemma slack_le: "slack n \<le> unat M68KI_INSN_GUARD + 1"
  by (auto simp: slack_def)

lemma slack_bump:
  fixes n :: u64
  assumes "n + 1 \<le> M68KI_INSN_GUARD"
  shows "slack (n + 1) < slack n"
proof (cases "n \<le> M68KI_INSN_GUARD")
  case True
  then have "unat (n + 1) = unat n + 1"
    by (simp add: M68KI_INSN_GUARD_def word_le_nat_alt unat_word_ariths)
  with True assms show ?thesis by (simp add: slack_def word_le_nat_alt)
qed (use assms in \<open>simp add: slack_def\<close>)

text \<open>
  The bound a run keeps: after \<open>k\<close> rounds it has ended, or \<open>k\<close> is within two rounds for each
  instruction the guard allows, once at the start and once more for every excused round.
\<close>

definition guard_bounds :: "(int \<Rightarrow> 'm interp \<Rightarrow> 'm frame) \<Rightarrow> (int \<Rightarrow> 'm interp \<Rightarrow> bool) \<Rightarrow> 'm interp \<Rightarrow> bool" where
  "guard_bounds step excused s \<longleftrightarrow>
    (\<forall>k. rounds step k 0 s = None \<or> k \<le> 100000000 + 100000004 * tally step excused k 0 s)"

text \<open>
  What a loop body promises: a round that continues stays in the depths the loop admits, deepens
  by at most one call, and unless it is \<open>excused\<close> it either retires one more instruction within
  the guard or takes an implicit return from a positive depth.
\<close>

locale guarded_loop =
  fixes step :: "int \<Rightarrow> 'm interp \<Rightarrow> 'm frame"
    and admits :: "int \<Rightarrow> bool"
    and excused :: "int \<Rightarrow> 'm interp \<Rightarrow> bool"
  assumes admits_start: "admits 0"
    and admits_step: "admits depth \<Longrightarrow> step depth s = Cont depth' s' \<Longrightarrow> admits depth' \<and> depth' \<le> depth + 1"
    and progress: "admits depth \<Longrightarrow> step depth s = Cont depth' s' \<Longrightarrow> \<not> excused depth s \<Longrightarrow>
      g_m68ki_insn_count s' = g_m68ki_insn_count s + 1 \<and> g_m68ki_insn_count s' \<le> M68KI_INSN_GUARD \<or>
      g_m68ki_insn_count s' = g_m68ki_insn_count s \<and> 0 < depth \<and> depth' = depth - 1"
begin

definition potential :: "int \<Rightarrow> 'm interp \<Rightarrow> nat" where
  "potential depth s = 2 * slack (g_m68ki_insn_count s) + nat depth"

lemma potential_step:
  assumes "admits depth" "step depth s = Cont depth' s'"
  shows "1 + potential depth' s' \<le> potential depth s
    + (if excused depth s then 2 * unat M68KI_INSN_GUARD + 4 else 0)"
proof (cases "excused depth s")
  case True
  then show ?thesis
    using admits_step [OF assms] slack_le [of "g_m68ki_insn_count s'"]
      by (auto simp: potential_def)
next
  case False
  have "nat depth' \<le> nat depth + 1" using admits_step [OF assms] by linarith
  with progress [OF assms False] slack_bump [of "g_m68ki_insn_count s"] False show ?thesis
    by (auto simp: potential_def)
qed

lemma rounds_budget:
  "admits depth \<Longrightarrow> rounds step k depth s = Some (depth', s') \<Longrightarrow>
   k + potential depth' s' \<le> potential depth s
     + (2 * unat M68KI_INSN_GUARD + 4) * tally step excused k depth s"
proof (induction k arbitrary: depth s)
  case (Suc k)
  then obtain d t where t: "step depth s = Cont d t" "rounds step k d t = Some (depth', s')"
    by (auto split: frame.splits)
  have "admits d" using admits_step [OF Suc.prems(1) t(1)] by simp
  note ih = Suc.IH [OF this t(2)]
  show ?case using ih potential_step [OF Suc.prems(1) t(1)] t(1) by (auto simp: algebra_simps)
qed simp

lemma run_bounds:
  assumes "g_m68ki_insn_count s = 0"
  shows "guard_bounds step excused s"
  unfolding guard_bounds_def
proof
  fix k
  show "rounds step k 0 s = None \<or> k \<le> 100000000 + 100000004 * tally step excused k 0 s"
  proof (cases "rounds step k 0 s")
    case (Some p)
    then show ?thesis using rounds_budget [OF admits_start, of k s "fst p" "snd p"] assms
      by (simp add: potential_def slack_def M68KI_INSN_GUARD_def)
  qed simp
qed

lemma stops_or_excused:
  assumes "g_m68ki_insn_count s = 0"
  shows "(\<exists>k. rounds step k 0 s = None) \<or> (\<forall>n. \<exists>k. n \<le> tally step excused k 0 s)"
proof (rule disjCI)
  assume "\<not> (\<forall>n. \<exists>k. n \<le> tally step excused k 0 s)"
  then obtain n where n: "\<And>k. tally step excused k 0 s < n" by (auto simp: not_le)
  let ?k = "100000000 + 100000004 * n + 1"
  have "rounds step ?k 0 s = None"
    using run_bounds [OF assms] n [of ?k] unfolding guard_bounds_def by (elim allE [of _ ?k]) linarith
  then show "\<exists>k. rounds step k 0 s = None" by (rule exI)
qed

end

text \<open>One round of each body, on the branches that continue.\<close>

lemma frame_exec_cont:
  assumes "frame_exec ops ins depth s = Cont depth' s'"
  shows "depth' = (if is_call ins then depth + 1 else if is_ret ins then depth - 1 else depth) \<and>
    g_m68ki_insn_count s' = g_m68ki_insn_count (snd (exec_retire ops ins s)) + 1 \<and>
    g_m68ki_insn_count s' \<le> M68KI_INSN_GUARD"
  using assms
  by (auto simp: frame_exec_def Let_def split_beta bump_count_def not_less split: if_splits)

lemma hook_return_cont:
  "hook_return ops depth s = Cont depth' s' \<Longrightarrow>
     depth' = depth - 1 \<and> g_m68ki_insn_count s' = g_m68ki_insn_count s"
  by (auto simp: hook_return_def Let_def split_beta)

lemma no_cont [simp]: "peek_ret ops a s \<noteq> Cont d s'" "own_return ops ins s \<noteq> Cont d s'"
  by (simp_all add: peek_ret_def own_return_def split_beta Let_def)

lemmas round_dests = frame_exec_cont hook_return_cont

interpretation framed: guarded_loop "framed_step ops" "\<lambda>depth. 0 \<le> depth" "\<lambda>_. disturbed ops" for ops
  by unfold_locales
    (auto simp: framed_step_def disturbed_def Let_def split_beta dest!: round_dests split: if_splits option.splits)

interpretation ram: guarded_loop "ram_step ops" "\<lambda>depth. 0 \<le> depth" "\<lambda>_. disturbed ops" for ops
  by unfold_locales
    (auto simp: ram_step_def disturbed_def Let_def split_beta dest!: round_dests split: if_splits option.splits)

interpretation handler: guarded_loop "handler_step ops" "\<lambda>_. True"
  "\<lambda>depth s. disturbed ops s \<or> stray_return ops depth s" for ops
  by unfold_locales
    (auto simp: handler_step_def disturbed_def stray_return_def Let_def split_beta dest!: round_dests
      split: if_splits option.splits)

interpretation plain: guarded_loop "run_step ops stop" "\<lambda>depth. depth = 0" "\<lambda>_. disturbed ops" for ops stop
  by unfold_locales
    (auto simp: run_step_def m68k_interp_step_def disturbed_def bump_count_def not_less Let_def split_beta
      split: if_splits option.splits)

text \<open>
  When no service ever changes the counter, no round is disturbed, so that the runs that cannot take
  a stray return all end.
\<close>

lemma tally_never: "(\<And>depth s. \<not> P depth s) \<Longrightarrow> tally step P k depth s = 0"
  by (induction k arbitrary: depth s) (auto split: frame.split)

lemma quiet_runs_return:
  assumes "\<And>t. g_m68ki_insn_count (glue_check_vblank ops t) = g_m68ki_insn_count t"
    "\<And>pc t. g_m68ki_insn_count (snd (genesis_game_instruction_hook ops pc t)) = g_m68ki_insn_count t"
  shows "\<exists>st s'. m68k_interp_run ops entry stop s = Some (st, s')"
    "\<exists>st pc s'. m68k_interp_run_framed ops entry s = Some (st, pc, s')"
    "\<exists>st pc s'. m68k_interp_run_ram_handler ops entry s = Some (st, pc, s')"
proof -
  have "\<not> disturbed ops t" for t using disturbed_by_service [of ops t] assms by blast
  then have never: "\<not> (\<forall>n. \<exists>k. n \<le> tally step (\<lambda>_. disturbed ops) k 0 t)" for step t
    by (auto simp: tally_never)
  have zero: "g_m68ki_insn_count (run_reset entry s) = 0" by (simp add: run_reset_def)
  note ends = plain.stops_or_excused [OF zero, of ops] framed.stops_or_excused [OF zero, of ops] ram.stops_or_excused [OF zero, of ops]
  show "\<exists>st s'. m68k_interp_run ops entry stop s = Some (st, s')"
    unfolding m68k_interp_run_def by (rule ends(1) [THEN disjE], erule exE, rule run_loop_rounds, assumption) (drule never [THEN notE])
  show "\<exists>st pc s'. m68k_interp_run_framed ops entry s = Some (st, pc, s')"
    unfolding m68k_interp_run_framed_def by (rule ends(2) [THEN disjE], erule exE, rule frame_loop_rounds, assumption) (drule never [THEN notE])
  show "\<exists>st pc s'. m68k_interp_run_ram_handler ops entry s = Some (st, pc, s')"
    unfolding m68k_interp_run_ram_handler_def by (rule ends(3) [THEN disjE], erule exE, rule frame_loop_rounds, assumption) (drule never [THEN notE])
qed

text \<open>
  C8: the instruction guard ends every run loop of the interpreter unless the services it calls
  keep undoing the guard. Each of \<^verbatim>\<open>m68k_interp_run\<close>, the framed capsule, the interrupt-handler
  capsule and the RAM-handler capsule either returns or has its instruction counter changed by a
  service in unboundedly many rounds; and a run that is still going after \<open>k\<close> rounds has seen at
  least one such round in every 100000004 beyond the first 100000000. This holds whatever the
  decoder answers, however the guest code loops, calls and returns, and with a V-blank service
  that delivers interrupts. For the interrupt-handler capsule an implicit return below the depth
  the run started at counts as such a round too: its loop neither stops there nor counts it.
\<close>

theorem interp_runs_return:
  "((\<exists>st s'. m68k_interp_run ops entry stop s = Some (st, s'))
      \<or> (\<forall>n. \<exists>k. n \<le> tally (run_step ops (stop AND 0xFFFFFF)) (\<lambda>_. disturbed ops) k 0 (run_reset entry s)))
   \<and> ((\<exists>st pc s'. m68k_interp_run_framed ops entry s = Some (st, pc, s'))
      \<or> (\<forall>n. \<exists>k. n \<le> tally (framed_step ops) (\<lambda>_. disturbed ops) k 0 (run_reset entry s)))
   \<and> ((\<exists>st pc s'. m68k_interp_run_ram_handler ops entry s = Some (st, pc, s'))
      \<or> (\<forall>n. \<exists>k. n \<le> tally (ram_step ops) (\<lambda>_. disturbed ops) k 0 (run_reset entry s)))
   \<and> ((\<exists>st pc s'. m68k_interp_run_handler ops entry s = Some (st, pc, s'))
      \<or> (\<forall>n. \<exists>k. n \<le> tally (handler_step ops) (\<lambda>depth s. disturbed ops s \<or> stray_return ops depth s)
           k 0 (run_reset entry s)))
   \<and> guard_bounds (run_step ops (stop AND 0xFFFFFF)) (\<lambda>_. disturbed ops) (run_reset entry s)
   \<and> guard_bounds (framed_step ops) (\<lambda>_. disturbed ops) (run_reset entry s)
   \<and> guard_bounds (ram_step ops) (\<lambda>_. disturbed ops) (run_reset entry s)
   \<and> guard_bounds (handler_step ops) (\<lambda>depth s. disturbed ops s \<or> stray_return ops depth s) (run_reset entry s)"
proof -
  have zero: "g_m68ki_insn_count (run_reset entry s) = 0" by (simp add: run_reset_def)
  note bounds = plain.run_bounds [OF zero] framed.run_bounds [OF zero]
    ram.run_bounds [OF zero] handler.run_bounds [OF zero]
  note ends = plain.stops_or_excused [OF zero] framed.stops_or_excused [OF zero]
    ram.stops_or_excused [OF zero] handler.stops_or_excused [OF zero]
  show ?thesis
    unfolding m68k_interp_run_def m68k_interp_run_framed_def m68k_interp_run_ram_handler_def
      m68k_interp_run_handler_def
    by (intro conjI bounds ends [THEN disj_forward]; (elim exE)?)
      (assumption | rule frame_loop_rounds run_loop_rounds, assumption)+
qed

section \<open>Cycle estimate\<close>

lemma ea_cost_bounds: "interp_ea_read_cost ea sz \<le> 16"
  by (simp add: interp_ea_read_cost_def Let_def)

lemma interp_popcount16_card: "interp_popcount16 v = card {n. bit v n}"
proof (induction v rule: interp_popcount16.induct)
  case (1 v)
  show ?case
  proof (cases "v = 0")
    case False
    have fin: "finite {n. bit (drop_bit 1 v) n}"
      by (rule finite_subset [of _ "{..<16}"]) (auto dest: bit_imp_le_length)
    have split: "{n. bit v n} = (if bit v 0 then {0} else {}) \<union> Suc ` {n. bit (drop_bit 1 v) n}"
    proof (rule set_eqI)
      fix n show "n \<in> {n. bit v n} \<longleftrightarrow> n \<in> (if bit v 0 then {0} else {}) \<union> Suc ` {n. bit (drop_bit 1 v) n}"
        by (cases n) (auto simp: bit_drop_bit_eq image_iff)
    qed
    have "card {n. bit v n} = (if bit v 0 then 1 else 0) + card {n. bit (drop_bit 1 v) n}"
      unfolding split using fin by (subst card_Un_disjoint) (auto simp: card_image)
    with False 1 show ?thesis by (subst interp_popcount16.simps) simp
  qed (subst interp_popcount16.simps, simp add: bot_fun_def)
qed

lemma interp_popcount16_le: "interp_popcount16 v \<le> 16"
proof -
  have "card {n. bit v n} \<le> card {..<16::nat}"
    by (rule card_mono) (auto dest: bit_imp_le_length)
  then show ?thesis by (simp add: interp_popcount16_card)
qed

text \<open>
  Every interpreted instruction charges at least four and at most 156 cycles, so the clock
  never stalls and a run cannot skip past a frame in one instruction; the register count of a
  MOVEM is the number of bits set in its mask.
\<close>

theorem cycle_estimate_bounds:
  "4 \<le> interp_estimate_cycles ins \<and> interp_estimate_cycles ins \<le> 156
   \<and> interp_popcount16 v = card {n. bit v n}"
proof -
  have "unat (drop_bit 9 w AND 7) \<le> 7" for w :: u16
    using word_and_le1 [of "drop_bit 9 w" 7] by (simp add: word_le_nat_alt)
  note bounds = this [of "words ins 0"] ea_cost_bounds [of "src_ea ins" "i_size ins"]
    ea_cost_bounds [of "dst_ea ins" "i_size ins"] interp_popcount16_le [of "words ins 1"]
  have lea: "interp_ea_read_cost ea sz \<noteq> 0 \<Longrightarrow> 4 \<le> interp_ea_read_cost ea sz" for ea sz
    by (auto simp: interp_ea_read_cost_def Let_def split: if_splits)
  have "4 \<le> interp_estimate_cycles ins"
    unfolding interp_estimate_cycles_def Let_def interp_ea_write_cost_def
    by (auto simp: lea split: M68KMnemonic.split mn_move.split mn_flow.split mn_bit.split mn_mul.split mn_sys.split mn_halt.split)
  moreover have "interp_estimate_cycles ins \<le> 156"
    unfolding interp_estimate_cycles_def Let_def interp_ea_write_cost_def using bounds
    by (auto split: M68KMnemonic.split mn_move.split mn_flow.split mn_bit.split mn_mul.split mn_sys.split mn_halt.split)
  ultimately show ?thesis by (simp add: interp_popcount16_card)
qed

section \<open>Executed-PC coverage\<close>

definition cov_bit :: "(nat \<Rightarrow> u8) \<Rightarrow> nat \<Rightarrow> bool" where
  "cov_bit cov i = bit (cov (i div 8)) (i mod 8)"

lemma cov_bit_test: "cov (i div 8) AND push_bit (i mod 8) 1 \<noteq> 0 \<longleftrightarrow> cov_bit cov i"
  by (simp add: cov_bit_def push_bit_of_1 and_exp_eq_0_iff_not_bit)

lemma cov_bit_empty [simp]: "\<not> cov_bit (\<lambda>_. 0) i"
  by (simp add: cov_bit_def)

lemma cov_bit_mark:
  "cov_bit (cov(i div 8 := cov (i div 8) OR push_bit (i mod 8) 1)) j \<longleftrightarrow> i = j \<or> cov_bit cov j"
proof (cases "i div 8 = j div 8")
  case True
  then have "i = j \<longleftrightarrow> i mod 8 = j mod 8" by (metis div_mult_mod_eq)
  moreover have "bit (push_bit (i mod 8) 1 :: u8) (j mod 8) \<longleftrightarrow> i mod 8 = j mod 8"
    by (simp add: push_bit_of_1 bit_exp_iff) (simp add: eq_commute)
  ultimately show ?thesis using True by (simp add: cov_bit_def bit_or_iff del: push_bit_of_1) blast
qed (auto simp: cov_bit_def)

lemma cov_bit_mark_first: "cov_bit ((\<lambda>_. 0)(i div 8 := push_bit (i mod 8) 1)) j \<longleftrightarrow> i = j"
  using cov_bit_mark [of "\<lambda>_. 0" i j] by (simp only: cov_bit_empty or.left_neutral simp_thms)

text \<open>The addresses the dump lists; none before the bitmap exists.\<close>

definition covered :: "'m interp \<Rightarrow> nat set" where
  "covered s = (case m68k_interp_cov_dump s of None \<Rightarrow> {} | Some as \<Rightarrow> set as)"

lemma covered_alt:
  "covered s = (case s_exec_cov s of None \<Rightarrow> {}
     | Some cov \<Rightarrow> {2 * i | i. i < M68KI_COV_WORDS \<and> cov_bit cov i})"
  unfolding covered_def m68k_interp_cov_dump_def cov_bit_test by (auto split: option.split)

text \<open>
  The coverage record is exact. Marking a PC below 4 MB adds its word address to the dumped
  set and nothing else, a PC outside the cartridge adds nothing, and the dump lists the recorded
  addresses in ascending order without repetition.
\<close>

theorem coverage_exact:
  assumes "cov_calloc ops"
  shows "covered (cov_mark ops pc s) =
      (if pc < 0x400000 then insert (2 * unat (drop_bit 1 pc)) (covered s) else covered s)
    \<and> (case m68k_interp_cov_dump s of None \<Rightarrow> \<not> m68k_interp_cov_active s
        | Some as \<Rightarrow> m68k_interp_cov_active s \<and> sorted as \<and> distinct as)"
proof (intro conjI)
  let ?i = "unat (drop_bit 1 pc)"
  show "covered (cov_mark ops pc s) =
      (if pc < 0x400000 then insert (2 * ?i) (covered s) else covered s)"
  proof (cases "pc < 0x400000")
    case True
    then have "?i < M68KI_COV_WORDS"
      by (simp add: M68KI_COV_WORDS_def drop_bit_eq_div unat_div_distrib word_less_nat_alt)
    moreover have "cov_mark ops pc s = s\<lparr>s_exec_cov := Some
        (let cov = (case s_exec_cov s of None \<Rightarrow> (\<lambda>_. 0) | Some cov \<Rightarrow> cov)
         in cov(?i div 8 := cov (?i div 8) OR push_bit (?i mod 8) 1))\<rparr>"
      using True assms by (simp add: cov_mark_def Let_def not_le del: push_bit_of_1 split: option.split)
    ultimately show ?thesis using True
      by (cases "s_exec_cov s") (auto simp: covered_alt Let_def cov_bit_mark cov_bit_mark_first simp del: push_bit_of_1 fun_upd_apply)
  qed (simp add: cov_mark_def linorder_not_less [symmetric])
  have "sorted (map (\<lambda>i. 2 * i) (filter P [0..<n]))" "distinct (map (\<lambda>i. 2 * i) (filter P [0..<n]))" for P and n :: nat
    by (simp_all add: sorted_map sorted_wrt_filter distinct_map inj_on_def)
  then show "case m68k_interp_cov_dump s of None \<Rightarrow> \<not> m68k_interp_cov_active s
        | Some as \<Rightarrow> m68k_interp_cov_active s \<and> sorted as \<and> distinct as"
    by (simp add: m68k_interp_cov_dump_def m68k_interp_cov_active_def split: option.split)
qed

section \<open>Discovered call targets\<close>

definition discover_inv :: "'m interp \<Rightarrow> bool" where
  "discover_inv s \<longleftrightarrow> distinct (g_m68ki_discover s) \<and> length (g_m68ki_discover s) \<le> M68KI_MAX_DISCOVER
     \<and> (\<forall>t \<in> set (g_m68ki_discover s). t \<le> 0xFFFFFF)"

lemma and_24_le: "t AND 0xFFFFFF \<le> (0xFFFFFF :: u32)"
  by (rule word_and_le1)

lemma discover_inv_discover: "discover_inv s \<Longrightarrow> discover_inv (discover t s)"
  using and_24_le [of t] by (auto simp: discover_inv_def discover_def Let_def)

text \<open>The list after recording a sequence of targets.\<close>

definition discover_all :: "u32 list \<Rightarrow> 'm interp \<Rightarrow> 'm interp" where
  "discover_all ts s = fold discover ts s"

lemma discover_all_inv: "discover_inv s \<Longrightarrow> discover_inv (discover_all ts s)"
  unfolding discover_all_def by (induction ts arbitrary: s) (simp_all add: discover_inv_discover)

lemma discover_grows:
  "\<exists>ds. g_m68ki_discover (discover t s) = g_m68ki_discover s @ ds \<and> set ds \<subseteq> {t AND 0xFFFFFF}"
  by (auto simp: discover_def Let_def)

lemma discover_all_grows:
  "\<exists>ds. g_m68ki_discover (discover_all ts s) = g_m68ki_discover s @ ds
     \<and> set ds \<subseteq> (\<lambda>t. t AND 0xFFFFFF) ` set ts"
  unfolding discover_all_def
proof (induction ts arbitrary: s)
  case (Cons t ts)
  obtain d1 where "g_m68ki_discover (discover t s) = g_m68ki_discover s @ d1" "set d1 \<subseteq> {t AND 0xFFFFFF}"
    using discover_grows by blast
  moreover obtain d2 where "g_m68ki_discover (fold discover ts (discover t s)) = g_m68ki_discover (discover t s) @ d2"
    "set d2 \<subseteq> (\<lambda>t. t AND 0xFFFFFF) ` set ts" using Cons.IH by blast
  ultimately show ?case by (intro exI [of _ "d1 @ d2"]) auto
qed simp

lemma discover_all_complete:
  "length (g_m68ki_discover (discover_all ts s)) < M68KI_MAX_DISCOVER \<Longrightarrow> t \<in> set ts \<Longrightarrow>
   t AND 0xFFFFFF \<in> set (g_m68ki_discover (discover_all ts s))"
proof (induction ts arbitrary: s)
  case (Cons u ts)
  obtain ds where ds: "g_m68ki_discover (discover_all ts (discover u s)) = g_m68ki_discover (discover u s) @ ds"
    using discover_all_grows by blast
  have all: "discover_all (u # ts) s = discover_all ts (discover u s)" by (simp add: discover_all_def)
  have "u AND 0xFFFFFF \<in> set (g_m68ki_discover (discover u s))"
    using Cons.prems(1) ds by (auto simp: all discover_def Let_def split: if_splits)
  then show ?case using Cons.IH [of "discover u s"] Cons.prems ds by (auto simp: all)
qed simp

text \<open>
  The discovery list holds distinct 24-bit targets, at most 512 of them, and while it is not
  full it holds exactly the targets that were recorded since the run began: nothing is recorded
  twice and nothing is lost before the list fills up.
\<close>

theorem discover_records:
  "let s' = discover_all ts (run_reset pc s); ds = g_m68ki_discover s'
   in distinct ds \<and> length ds \<le> M68KI_MAX_DISCOVER
    \<and> (length ds = M68KI_MAX_DISCOVER \<or> set ds = (\<lambda>t. t AND 0xFFFFFF) ` set ts)"
proof -
  let ?s = "run_reset pc s"
  have empty: "g_m68ki_discover ?s = []" by (simp add: run_reset_def)
  then have inv: "discover_inv (discover_all ts ?s)" by (intro discover_all_inv) (simp add: discover_inv_def)
  obtain ds where "g_m68ki_discover (discover_all ts ?s) = ds" "set ds \<subseteq> (\<lambda>t. t AND 0xFFFFFF) ` set ts"
    using discover_all_grows [of ts ?s] empty by auto
  with inv discover_all_complete [of ts ?s] show ?thesis
    by (auto simp: discover_inv_def Let_def)
qed

section \<open>Witnesses\<close>

text \<open>A machine with nothing on its bus and no decodable instruction.\<close>

definition idle_ops :: "unit ops" where
  "idle_ops = \<lparr> m68k_read8 = \<lambda>_ r. (0, r), m68k_read16 = \<lambda>_ r. (0, r), m68k_read32 = \<lambda>_ r. (0, r),
     m68k_write8 = \<lambda>_ _ r. r, m68k_write16 = \<lambda>_ _ r. r, m68k_write32 = \<lambda>_ _ r. r,
     g_rom = \<lambda>_ _. 0, g_ram = \<lambda>_ _. 0, m68k_decode = \<lambda>_ _. None, glue_check_vblank = \<lambda>s. s,
     game_instruction_hook_site = \<lambda>_. False, genesis_game_instruction_hook = \<lambda>_ s. (False, s),
     cov_calloc = True \<rparr>"

definition idle_state :: "unit interp" where
  "idle_state = \<lparr> g_cpu = \<lparr> D_reg = \<lambda>_. 0, A_reg = \<lambda>_. 0, SR = 0x2700, PC = 0, USP = 0 \<rparr>,
     run_time = \<lparr> g_native_insn_count = 0, g_cycle_accumulator = 0, g_vblank_threshold = 0x20000,
       g_audio_cycle_counter = 0, mach = () \<rparr>,
     g_rte_pending = False, s_illegal_ea = False, g_m68ki_bad_pc = 0, g_m68ki_bad_op = 0,
     g_m68ki_insn_count = 0, g_m68ki_discover = [], s_exec_cov = None \<rparr>"

theorem coverage_exact_witness:
  "covered (cov_mark idle_ops 0x201 idle_state) = {0x200}"
proof -
  have "cov_calloc idle_ops" by (simp add: idle_ops_def)
  moreover have "covered idle_state = {}" by (simp add: covered_alt idle_state_def)
  ultimately show ?thesis
    using coverage_exact [where ops = idle_ops and pc = "0x201" and s = idle_state] by simp
qed

end
