(* ===== verification/Genesis_Vdp.thy ===== *)
theory Genesis_Vdp
  imports Prelude
begin

text \<open>
  The video display processor, \<^verbatim>\<open>runner/video/genesis_vdp.c\<close>, up to rendering: the three
  memories, the register file, the two-write control port, the data port with its auto-increment,
  the status and counter reads, the three DMA flavours with the freeze they charge to the 68000, the
  per-scanline interrupt timing, and the event ring. The state the DMA engine can reach is a pair of
  the VDP and the rest of the machine, because the 68000-to-VDP transfer reads its words over the
  main bus; the bus reader is an argument, \<open>None\<close> while no reader is wired.
\<close>

section \<open>State\<close>

datatype evt_kind = GVDP_EVT_REG | GVDP_EVT_CMD | GVDP_EVT_DATA | GVDP_EVT_DMA_68K
  | GVDP_EVT_DMA_FILL_ARM | GVDP_EVT_DMA_COPY | GVDP_EVT_DMA_SKIP

datatype evt_reason = GVDP_SKIP_NONE | GVDP_SKIP_DMA_OFF | GVDP_SKIP_NO_BUSREAD | GVDP_SKIP_FILL_TRIGGER

record GVdpEvent =
  e_seq :: u32
  e_kind :: evt_kind
  e_code :: u8
  e_reason :: evt_reason
  e_in_vblank :: bool
  e_scanline :: u16
  e_addr :: u16
  e_value :: u16
  e_inc :: u16
  e_len :: u16
  e_src :: u32

text \<open>
  \<open>s_pending_68k_stall\<close>, the event ring and the colour-updated notifications are file-static or
  host state in the source; they are fields here. The notification list is in order of emission.
\<close>

record GVDP =
  vram :: "u16 \<Rightarrow> u8"
  cram :: "nat \<Rightarrow> u16"
  vsram :: "nat \<Rightarrow> u16"
  reg :: "nat \<Rightarrow> u8"
  control_pending :: bool
  code :: u8
  address :: u16
  address_hi :: u8
  in_vblank :: bool
  in_hblank :: bool
  dma_active :: bool
  sprite_overflow :: bool
  sprite_collision :: bool
  vint_pending :: bool
  hint_counter :: u16
  scanline :: u16
  dma_fill_pending :: bool
  s_pending_68k_stall :: u32
  g_gvdp_events :: "nat \<Rightarrow> GVdpEvent"
  g_gvdp_event_seq :: u32
  colour_updates :: "(nat \<times> u16) list"

definition GVDP_CRAM_ENTRIES :: nat where "GVDP_CRAM_ENTRIES = 64"
definition GVDP_VSRAM_ENTRIES :: nat where "GVDP_VSRAM_ENTRIES = 40"
definition GVDP_NUM_REGISTERS :: nat where "GVDP_NUM_REGISTERS = 24"
definition GVDP_EVENT_CAP :: nat where "GVDP_EVENT_CAP = 16384"

definition REG_AUTOINC :: "GVDP \<Rightarrow> u16" where "REG_AUTOINC v = ucast (reg v 0x0F)"
definition MODE2_DISPLAY_ON :: "GVDP \<Rightarrow> bool" where "MODE2_DISPLAY_ON v = bit (reg v 1) 6"
definition MODE2_VINT_ON :: "GVDP \<Rightarrow> bool" where "MODE2_VINT_ON v = bit (reg v 1) 5"
definition MODE2_DMA_ON :: "GVDP \<Rightarrow> bool" where "MODE2_DMA_ON v = bit (reg v 1) 4"
definition MODE2_V30 :: "GVDP \<Rightarrow> bool" where "MODE2_V30 v = bit (reg v 1) 3"
definition MODE1_HINT_ON :: "GVDP \<Rightarrow> bool" where "MODE1_HINT_ON v = bit (reg v 0) 4"
definition MODE4_H40 :: "GVDP \<Rightarrow> bool" where "MODE4_H40 v = bit (reg v 0x0C) 0"
definition MODE4_IM2 :: "GVDP \<Rightarrow> bool" where "MODE4_IM2 v = (drop_bit 1 (reg v 0x0C) AND 3 = 3)"

definition gvdp_reset :: "GVDP \<Rightarrow> GVDP" where
  "gvdp_reset v =
    (let v = v\<lparr>control_pending := False, code := 0, address := 0, address_hi := 0,
               in_vblank := False, in_hblank := False, dma_active := False,
               sprite_overflow := False, sprite_collision := False, vint_pending := False,
               hint_counter := 0, scanline := 0, dma_fill_pending := False,
               s_pending_68k_stall := 0\<rparr>
     in if reg v 0x0F = 0 then v\<lparr>reg := (reg v)(0x0F := 2)\<rparr> else v)"

text \<open>\<^verbatim>\<open>gvdp_init\<close> clears the VDP structure; the event ring is not part of it.\<close>

definition gvdp_init :: "GVDP \<Rightarrow> GVDP" where
  "gvdp_init v = gvdp_reset (v\<lparr>vram := \<lambda>_. 0, cram := \<lambda>_. 0, vsram := \<lambda>_. 0, reg := \<lambda>_. 0\<rparr>)"

definition evt_push ::
  "evt_kind \<Rightarrow> u8 \<Rightarrow> u16 \<Rightarrow> u16 \<Rightarrow> u16 \<Rightarrow> u16 \<Rightarrow> u32 \<Rightarrow> evt_reason \<Rightarrow> GVDP \<Rightarrow> GVDP"
where
  "evt_push kind cod adr val inc len src reason v =
    (let seq = g_gvdp_event_seq v;
         e = \<lparr> e_seq = seq, e_kind = kind, e_code = cod, e_reason = reason,
               e_in_vblank = in_vblank v, e_scanline = scanline v, e_addr = adr, e_value = val,
               e_inc = inc, e_len = len, e_src = src \<rparr>
     in v\<lparr>g_gvdp_events := (g_gvdp_events v)(unat seq mod GVDP_EVENT_CAP := e),
           g_gvdp_event_seq := seq + 1\<rparr>)"

definition gvdp_screen_width :: "GVDP \<Rightarrow> nat" where
  "gvdp_screen_width v = (if MODE4_H40 v then 320 else 256)"

definition gvdp_screen_height :: "GVDP \<Rightarrow> nat" where
  "gvdp_screen_height v = (if MODE2_V30 v then 240 else 224)"

definition gvdp_display_enabled :: "GVDP \<Rightarrow> bool" where
  "gvdp_display_enabled v = MODE2_DISPLAY_ON v"

definition gvdp_interlace_double :: "GVDP \<Rightarrow> nat" where
  "gvdp_interlace_double v = (if MODE4_IM2 v then 1 else 0)"

definition gvdp_output_height :: "GVDP \<Rightarrow> nat" where
  "gvdp_output_height v = push_bit (gvdp_interlace_double v) (gvdp_screen_height v)"

section \<open>Memory access\<close>

definition vram_write_word :: "u16 \<Rightarrow> u16 \<Rightarrow> GVDP \<Rightarrow> GVDP" where
  "vram_write_word adr val v =
    (let a = adr AND 0xFFFE
     in if bit adr 0 then v\<lparr>vram := (vram v)(a := lo8 val, a + 1 := hi8 val)\<rparr>
        else v\<lparr>vram := (vram v)(a := hi8 val, a + 1 := lo8 val)\<rparr>)"

definition vram_read_word :: "GVDP \<Rightarrow> u16 \<Rightarrow> u16" where
  "vram_read_word v adr = (let a = adr AND 0xFFFE in be16 (vram v a) (vram v (a + 1)))"

text \<open>
  \<open>colour_updates\<close> is the sequence of palette changes in the order of their stores. \<^verbatim>\<open>cram_write\<close> announces
  each to the callback \<^verbatim>\<open>colour_updated\<close> when one is installed; with none the sequence has no reader.
\<close>

definition cram_write :: "u16 \<Rightarrow> u16 \<Rightarrow> GVDP \<Rightarrow> GVDP" where
  "cram_write adr val v =
    (let idx = unat (drop_bit 1 adr) mod GVDP_CRAM_ENTRIES; bgr9 = val AND 0x0EEE
     in v\<lparr>cram := (cram v)(idx := bgr9), colour_updates := colour_updates v @ [(idx, bgr9)]\<rparr>)"

definition vsram_write :: "u16 \<Rightarrow> u16 \<Rightarrow> GVDP \<Rightarrow> GVDP" where
  "vsram_write adr val v =
    (let idx = unat (drop_bit 1 adr)
     in if idx < GVDP_VSRAM_ENTRIES then v\<lparr>vsram := (vsram v)(idx := val AND 0x03FF)\<rparr> else v)"

definition CODE_VRAM_READ :: u8 where "CODE_VRAM_READ = 0x0"
definition CODE_VRAM_WRITE :: u8 where "CODE_VRAM_WRITE = 0x1"
definition CODE_CRAM_WRITE :: u8 where "CODE_CRAM_WRITE = 0x3"
definition CODE_VSRAM_READ :: u8 where "CODE_VSRAM_READ = 0x4"
definition CODE_VSRAM_WRITE :: u8 where "CODE_VSRAM_WRITE = 0x5"
definition CODE_CRAM_READ :: u8 where "CODE_CRAM_READ = 0x8"

lemmas CODE_defs = CODE_VRAM_READ_def CODE_VRAM_WRITE_def CODE_CRAM_WRITE_def CODE_VSRAM_READ_def
  CODE_VSRAM_WRITE_def CODE_CRAM_READ_def

text \<open>The store of \<^verbatim>\<open>dma_store\<close> and of \<^verbatim>\<open>gvdp_write_data\<close>, with the auto-increment.\<close>

definition dma_store :: "u16 \<Rightarrow> GVDP \<Rightarrow> GVDP" where
  "dma_store val v =
    (let c = code v AND 0x0F;
         v = (if c = CODE_VRAM_WRITE then vram_write_word (address v) val v
              else if c = CODE_CRAM_WRITE then cram_write (address v) val v
              else if c = CODE_VSRAM_WRITE then vsram_write (address v) val v
              else vram_write_word (address v) val v)
     in v\<lparr>address := address v + REG_AUTOINC v\<rparr>)"

section \<open>DMA\<close>

definition dma_length :: "GVDP \<Rightarrow> u32" where
  "dma_length v =
    (let len = ucast (reg v 0x13) OR push_bit 8 (ucast (reg v 0x14)) in if len \<noteq> 0 then len else 0x10000)"

definition dma_source_68k :: "GVDP \<Rightarrow> u32" where
  "dma_source_68k v =
    push_bit 1 (ucast (reg v 0x15) OR push_bit 8 (ucast (reg v 0x16))
      OR push_bit 16 (ucast (reg v 0x17 AND 0x7F)))"

definition dma_next_src :: "u32 \<Rightarrow> u32" where
  "dma_next_src src = (src AND 0xFE0000) OR ((src + 2) AND 0x01FFFF)"

type_synonym 'x vstate = "GVDP \<times> 'x"
type_synonym 'x reader = "u32 \<Rightarrow> 'x vstate \<Rightarrow> u16 \<times> 'x vstate"

fun dma_words :: "'x reader \<Rightarrow> nat \<Rightarrow> u32 \<Rightarrow> 'x vstate \<Rightarrow> 'x vstate" where
  "dma_words rd 0 src s = s"
| "dma_words rd (Suc n) src s =
    (let (word, (v, x)) = rd src s in dma_words rd n (dma_next_src src) (dma_store word v, x))"

definition dma_slots :: "GVDP \<Rightarrow> nat" where
  "dma_slots v =
    (if in_vblank v \<or> \<not> MODE2_DISPLAY_ON v then (if MODE4_H40 v then 205 else 166)
     else (if MODE4_H40 v then 18 else 16))"

definition dma_charge :: "GVDP \<Rightarrow> u32" where
  "dma_charge v = of_nat (unat (dma_length v) * 488 div dma_slots v)"

definition dma_run_68k_to_vdp :: "'x reader option \<Rightarrow> 'x vstate \<Rightarrow> 'x vstate" where
  "dma_run_68k_to_vdp bus_read s =
    (case bus_read of
       None \<Rightarrow> s
     | Some rd \<Rightarrow>
         (let v = fst s
          in dma_words rd (unat (dma_length v)) (dma_source_68k v)
               (v\<lparr>s_pending_68k_stall := s_pending_68k_stall v + dma_charge v\<rparr>, snd s)))"

definition gvdp_consume_68k_stall :: "GVDP \<Rightarrow> u32 \<times> GVDP" where
  "gvdp_consume_68k_stall v = (s_pending_68k_stall v, v\<lparr>s_pending_68k_stall := 0\<rparr>)"

definition gvdp_rb_pending_stall :: "GVDP \<Rightarrow> u32" where
  "gvdp_rb_pending_stall v = s_pending_68k_stall v"

definition gvdp_rb_set_pending_stall :: "u32 \<Rightarrow> GVDP \<Rightarrow> GVDP" where
  "gvdp_rb_set_pending_stall n v = v\<lparr>s_pending_68k_stall := n\<rparr>"

fun vram_copy_bytes :: "nat \<Rightarrow> u16 \<Rightarrow> GVDP \<Rightarrow> GVDP" where
  "vram_copy_bytes 0 src v = v"
| "vram_copy_bytes (Suc n) src v =
    vram_copy_bytes n (src + 1)
      (v\<lparr>vram := (vram v)(address v := vram v src), address := address v + REG_AUTOINC v\<rparr>)"

definition dma_run_vram_copy :: "GVDP \<Rightarrow> GVDP" where
  "dma_run_vram_copy v =
    vram_copy_bytes (unat (dma_length v)) (ucast (reg v 0x15) OR push_bit 8 (ucast (reg v 0x16))) v"

fun vram_fill_bytes :: "nat \<Rightarrow> u8 \<Rightarrow> GVDP \<Rightarrow> GVDP" where
  "vram_fill_bytes 0 fill v = v"
| "vram_fill_bytes (Suc n) fill v =
    vram_fill_bytes n fill
      (v\<lparr>vram := (vram v)(address v XOR 1 := fill), address := address v + REG_AUTOINC v\<rparr>)"

definition dma_run_vram_fill_data :: "u16 \<Rightarrow> GVDP \<Rightarrow> GVDP" where
  "dma_run_vram_fill_data val v =
    (let len = unat (dma_length v);
         v = vram_write_word (address v) val v;
         v = v\<lparr>address := address v + REG_AUTOINC v\<rparr>;
         v = vram_fill_bytes len (hi8 val) v
     in v\<lparr>dma_fill_pending := False\<rparr>)"

definition maybe_start_dma :: "'x reader option \<Rightarrow> 'x vstate \<Rightarrow> 'x vstate" where
  "maybe_start_dma bus_read s =
    (let (v, x) = s; inc = REG_AUTOINC v; len16 = ucast (dma_length v) :: u16; mode = reg v 0x17
     in if \<not> bit (code v) 5 then s
        else if \<not> MODE2_DMA_ON v then
          (evt_push GVDP_EVT_DMA_SKIP (code v) (address v) 0 inc len16 (dma_source_68k v)
             GVDP_SKIP_DMA_OFF v, x)
        else if \<not> bit mode 7 then
          (let v = evt_push GVDP_EVT_DMA_68K (code v) (address v) 0 inc len16 (dma_source_68k v)
                     (if bus_read = None then GVDP_SKIP_NO_BUSREAD else GVDP_SKIP_NONE) v;
               (v, x) = dma_run_68k_to_vdp bus_read (v\<lparr>dma_active := True\<rparr>, x)
           in (v\<lparr>dma_active := False\<rparr>, x))
        else if \<not> bit mode 6 then
          ((evt_push GVDP_EVT_DMA_FILL_ARM (code v) (address v) 0 inc len16 0 GVDP_SKIP_NONE v)
             \<lparr>dma_fill_pending := True\<rparr>, x)
        else
          (let v = evt_push GVDP_EVT_DMA_COPY (code v) (address v) 0 inc len16
                     (ucast (reg v 0x15) OR push_bit 8 (ucast (reg v 0x16))) GVDP_SKIP_NONE v;
               v = dma_run_vram_copy (v\<lparr>dma_active := True\<rparr>)
           in (v\<lparr>dma_active := False\<rparr>, x)))"

section \<open>Ports\<close>

definition set_register :: "nat \<Rightarrow> u8 \<Rightarrow> GVDP \<Rightarrow> GVDP" where
  "set_register index val v =
    (if index < GVDP_NUM_REGISTERS then v\<lparr>reg := (reg v)(index := val)\<rparr> else v)"

definition gvdp_write_control :: "'x reader option \<Rightarrow> u16 \<Rightarrow> 'x vstate \<Rightarrow> 'x vstate" where
  "gvdp_write_control bus_read val s =
    (let (v, x) = s in
     if \<not> control_pending v then
       (if val AND 0xC000 = 0x8000 then
         (let index = drop_bit 8 val AND 0x1F;
              v = set_register (unat index) (lo8 val) v;
              v = evt_push GVDP_EVT_REG (ucast index) 0 (val AND 0xFF) 0 0 0 GVDP_SKIP_NONE v
          in (v\<lparr>code := 0\<rparr>, x))
        else
         (v\<lparr>address := (address v AND 0xC000) OR (val AND 0x3FFF),
            code := (code v AND 0x3C) OR ucast (drop_bit 14 val AND 0x03),
            control_pending := True\<rparr>, x))
     else
       (let v = v\<lparr>address := (address v AND 0x3FFF) OR push_bit 14 (val AND 0x0003),
                  code := (code v AND 0x03) OR ucast (drop_bit 2 val AND 0x3C),
                  control_pending := False\<rparr>;
            v = evt_push GVDP_EVT_CMD (code v) (address v) val (REG_AUTOINC v) 0 0 GVDP_SKIP_NONE v
        in maybe_start_dma bus_read (v, x)))"

definition gvdp_write_data :: "u16 \<Rightarrow> GVDP \<Rightarrow> GVDP" where
  "gvdp_write_data val v =
    (let v = v\<lparr>control_pending := False\<rparr>;
         v = evt_push GVDP_EVT_DATA (code v) (address v) val (REG_AUTOINC v) 0 0
               (if dma_fill_pending v then GVDP_SKIP_FILL_TRIGGER else GVDP_SKIP_NONE) v
     in if dma_fill_pending v then dma_run_vram_fill_data val v else dma_store val v)"

definition gvdp_peek_data :: "GVDP \<Rightarrow> u16" where
  "gvdp_peek_data v =
    (let c = code v AND 0x0F; idx = unat (drop_bit 1 (address v))
     in if c = CODE_CRAM_READ then cram v (idx mod GVDP_CRAM_ENTRIES)
        else if c = CODE_VSRAM_READ then (if idx < GVDP_VSRAM_ENTRIES then vsram v idx else 0)
        else vram_read_word v (address v))"

definition gvdp_read_data :: "GVDP \<Rightarrow> u16 \<times> GVDP" where
  "gvdp_read_data v =
    (let v = v\<lparr>control_pending := False\<rparr>;
         c = code v AND 0x0F; idx = unat (drop_bit 1 (address v));
         out = (if c = CODE_CRAM_READ then cram v (idx mod GVDP_CRAM_ENTRIES)
                else if c = CODE_VSRAM_READ then (if idx < GVDP_VSRAM_ENTRIES then vsram v idx else 0)
                else vram_read_word v (address v))
     in (out, v\<lparr>address := address v + REG_AUTOINC v\<rparr>))"

text \<open>The word that \<^verbatim>\<open>gvdp_read_control\<close> computes before its side effects.\<close>

definition gvdp_status_word :: "GVDP \<Rightarrow> u16" where
  "gvdp_status_word v =
    orif (dma_active v) 0x0002 (orif (in_hblank v) 0x0004 (orif (in_vblank v) 0x0008
      (orif (sprite_collision v) 0x0020 (orif (sprite_overflow v) 0x0040
        (orif (vint_pending v) 0x0080 (0x3400 OR 0x0200))))))"

definition gvdp_peek_status :: "GVDP \<Rightarrow> u16" where
  "gvdp_peek_status v =
    orif (dma_active v) 0x0002 (orif (in_hblank v) 0x0004 (orif (in_vblank v) 0x0008
      (orif (sprite_collision v) 0x0020 (orif (sprite_overflow v) 0x0040
        (orif (vint_pending v) 0x0080 (0x3400 OR 0x0200))))))"

definition gvdp_read_control :: "GVDP \<Rightarrow> u16 \<times> GVDP" where
  "gvdp_read_control v =
    (gvdp_status_word v,
     v\<lparr>control_pending := False, vint_pending := False, in_hblank := \<not> in_hblank v\<rparr>)"

definition gvdp_read_hv_counter :: "GVDP \<Rightarrow> u16" where
  "gvdp_read_hv_counter v = push_bit 8 (scanline v AND 0xFF) OR (if in_hblank v then 0 else 0x80)"

section \<open>Scanline timing\<close>

text \<open>The H-blank and V-blank interrupt requests raised at the start of a line.\<close>

definition gvdp_begin_scanline :: "nat \<Rightarrow> GVDP \<Rightarrow> (bool \<times> bool) \<times> GVDP" where
  "gvdp_begin_scanline line v =
    (let active_h = gvdp_screen_height v;
         v = v\<lparr>scanline := of_nat line\<rparr>;
         rate = ucast (reg v 0x0A) :: u16;
         (hirq, virq, v) =
           (if line < active_h then
              (if hint_counter v = 0 then (MODE1_HINT_ON v, False, v\<lparr>hint_counter := rate\<rparr>)
               else (False, False, v\<lparr>hint_counter := hint_counter v - 1\<rparr>))
            else
              (let v = v\<lparr>hint_counter := rate\<rparr>
               in if line = active_h then
                    (False, MODE2_VINT_ON v, v\<lparr>in_vblank := True, vint_pending := True\<rparr>)
                  else (False, False, v)));
         v = (if line = 0 then v\<lparr>in_vblank := False\<rparr> else v)
     in ((hirq, virq), v))"

end
