(* ===== verification/Genesis_Vdp_Props.thy ===== *)
theory Genesis_Vdp_Props
  imports Genesis_Vdp
begin

text \<open>
  Properties of the VDP model: the command pair of the control port, the round trips through the
  data port, the words a 68000-to-VDP transfer stores, the event ring, and the closed form of the
  interrupts of a frame.
\<close>

section \<open>Event ring\<close>

lemma evt_push_fields [simp]:
  "vram (evt_push k c a w i l s r v) = vram v" "cram (evt_push k c a w i l s r v) = cram v"
  "vsram (evt_push k c a w i l s r v) = vsram v" "reg (evt_push k c a w i l s r v) = reg v"
  "control_pending (evt_push k c a w i l s r v) = control_pending v"
  "code (evt_push k c a w i l s r v) = code v" "address (evt_push k c a w i l s r v) = address v"
  "dma_fill_pending (evt_push k c a w i l s r v) = dma_fill_pending v"
  "s_pending_68k_stall (evt_push k c a w i l s r v) = s_pending_68k_stall v"
  "g_gvdp_event_seq (evt_push k c a w i l s r v) = g_gvdp_event_seq v + 1"
  "in_vblank (evt_push k c a w i l s r v) = in_vblank v" "vint_pending (evt_push k c a w i l s r v) = vint_pending v"
  by (simp_all add: evt_push_def Let_def)

lemma reg_only [simp]:
  "REG_AUTOINC (evt_push k c a w i l s r v) = REG_AUTOINC v"
  by (simp add: REG_AUTOINC_def)

text \<open>
  The ring is well-formed when the slot of each of the last \<open>n\<close> sequence numbers holds the event
  with that number.
\<close>

definition ring_ok :: "nat \<Rightarrow> GVDP \<Rightarrow> bool" where
  "ring_ok n v \<longleftrightarrow> (\<forall>k. 1 \<le> k \<and> k \<le> n \<longrightarrow>
     (let q = g_gvdp_event_seq v - of_nat k in e_seq (g_gvdp_events v (unat q mod GVDP_EVENT_CAP)) = q))"

lemma unat_diff_mod:
  fixes q :: u32
  shows "unat (q - of_nat k) mod 16384 = (unat q + (16384 - k mod 16384)) mod 16384"
proof -
  have "unat (q - of_nat k) mod 16384 = nat (uint (q - of_nat k) mod 16384)"
    by (simp add: nat_mod_distrib)
  also have "uint (q - of_nat k) mod 16384 = (uint q - int k) mod 16384"
  proof -
    have "uint (q - of_nat k) = (uint q - int k) mod 2 ^ 32"
      by (simp add: uint_word_ariths unsigned_of_nat mod_simps take_bit_eq_mod of_nat_mod)
    then show ?thesis by (simp add: mod_mod_cancel)
  qed
  also have "\<dots> = (int (unat q) + (16384 - int (k mod 16384))) mod 16384"
    by (simp add: of_nat_mod mod_simps mod_diff_right_eq mod_diff_left_eq) (metis add_diff_eq diff_add_eq mod_add_self2 mod_diff_right_eq)
  also have "\<dots> = int ((unat q + (16384 - k mod 16384)) mod 16384)"
    by (simp add: of_nat_mod of_nat_diff algebra_simps)
  finally show ?thesis by simp
qed

lemma ring_slots_distinct:
  fixes q :: u32
  assumes "1 \<le> j" "j < GVDP_EVENT_CAP"
  shows "unat (q - of_nat j) mod GVDP_EVENT_CAP \<noteq> unat q mod GVDP_EVENT_CAP"
proof
  assume "unat (q - of_nat j) mod GVDP_EVENT_CAP = unat q mod GVDP_EVENT_CAP"
  moreover define t where "t = 16384 - j"
  ultimately have "(unat q + t) mod 16384 = unat q mod 16384" and t: "0 < t" "t < 16384"
    using assms by (simp_all add: GVDP_EVENT_CAP_def unat_diff_mod)
  then have "(unat q mod 16384 + t) mod 16384 = unat q mod 16384" by (simp only: mod_add_left_eq)
  moreover have "unat q mod 16384 < 16384" by simp
  ultimately show False
    using t by (cases "unat q mod 16384 + t < 16384") (simp_all add: le_mod_geq)
qed

lemma ring_ok_push:
  assumes "ring_ok n v" "m \<le> Suc n" "m \<le> GVDP_EVENT_CAP"
  shows "ring_ok m (evt_push kind c a w i l s r v)"
  unfolding ring_ok_def
proof (intro allI impI)
  fix k assume k: "1 \<le> k \<and> k \<le> m"
  let ?v' = "evt_push kind c a w i l s r v"
  let ?q = "g_gvdp_event_seq ?v' - of_nat k"
  obtain j where j: "k = Suc j" using k by (cases k) auto
  have q: "?q = g_gvdp_event_seq v - of_nat j" by (simp add: j)
  have "e_seq (g_gvdp_events ?v' (unat ?q mod GVDP_EVENT_CAP)) = ?q"
  proof (cases "j = 0")
    case False
    then have "unat ?q mod GVDP_EVENT_CAP \<noteq> unat (g_gvdp_event_seq v) mod GVDP_EVENT_CAP"
      unfolding q using k j assms(3) by (intro ring_slots_distinct) auto
    then have "g_gvdp_events ?v' (unat ?q mod GVDP_EVENT_CAP) = g_gvdp_events v (unat ?q mod GVDP_EVENT_CAP)"
      by (simp add: evt_push_def Let_def)
    moreover have "e_seq (g_gvdp_events v (unat ?q mod GVDP_EVENT_CAP)) = ?q"
      unfolding q using assms(1,2) k j False by (auto simp: ring_ok_def Let_def)
    ultimately show ?thesis by simp
  qed (simp add: j evt_push_def Let_def)
  then show "let q = g_gvdp_event_seq ?v' - of_nat k in e_seq (g_gvdp_events ?v' (unat q mod GVDP_EVENT_CAP)) = q"
    by (simp only: Let_def)
qed

section \<open>The command pair\<close>

text \<open>The two control words that select a code and an address.\<close>

definition cmd1 :: "u8 \<Rightarrow> u16 \<Rightarrow> u16" where
  "cmd1 cd adr = push_bit 14 (ucast cd) OR (adr AND 0x3FFF)"

definition cmd2 :: "u8 \<Rightarrow> u16 \<Rightarrow> u16" where
  "cmd2 cd adr = push_bit 2 (ucast (cd AND 0x3C)) OR drop_bit 14 adr"

definition vdp_command :: "'x reader option \<Rightarrow> u8 \<Rightarrow> u16 \<Rightarrow> 'x vstate \<Rightarrow> 'x vstate" where
  "vdp_command rd cd adr s = gvdp_write_control rd (cmd2 cd adr) (gvdp_write_control rd (cmd1 cd adr) s)"

lemma cmd_masks: "(0x3FFF :: u16) = mask 14" "(0xC000 :: u16) = push_bit 14 (mask 2)" "(0x0003 :: u16) = mask 2"
  "(0x3C :: u16) = push_bit 2 (mask 4)" "(0x3C :: u8) = push_bit 2 (mask 4)" "(0x03 :: u8) = mask 2"
  by (simp_all add: mask_eq_exp_minus_1 push_bit_eq_mult)

lemma cmd_address: "((x AND 0xC000 OR cmd1 cd adr AND 0x3FFF) AND 0x3FFF) OR push_bit 14 (cmd2 cd adr AND 0x0003) = adr"
  unfolding cmd_masks cmd1_def cmd2_def by (rule bit_word_eqI) (auto simp: bit_simps)

lemma cmd_code:
  "cd AND 0x3F = cd \<Longrightarrow>
   (((x AND 0x3C) OR ucast (drop_bit 14 (cmd1 cd adr) AND 0x03)) AND 0x03) OR ucast (drop_bit 2 (cmd2 cd adr) AND 0x3C) = cd"
proof -
  assume "cd AND 0x3F = cd"
  moreover have "(0x3F :: u8) = mask 6" by (simp add: mask_eq_exp_minus_1)
  ultimately have six: "bit cd n \<Longrightarrow> n < 6" for n by (metis bit_and_iff bit_mask_iff)
  show ?thesis
    unfolding cmd_masks cmd1_def cmd2_def by (intro bit_word_eqI) (auto simp: bit_simps dest: six)
qed

lemma cmd1_not_register:
  assumes "bit cd 1 \<Longrightarrow> bit cd 0"
  shows "cmd1 cd adr AND 0xC000 \<noteq> 0x8000"
proof
  assume "cmd1 cd adr AND 0xC000 = 0x8000"
  then have "bit (cmd1 cd adr AND 0xC000) n = bit (0x8000 :: u16) n" for n by simp
  moreover have "bit (cmd1 cd adr AND 0xC000) 15 = bit cd 1" "bit (cmd1 cd adr AND 0xC000) 14 = bit cd 0"
    unfolding cmd_masks cmd1_def by (simp_all add: bit_simps)
  moreover have "bit (0x8000 :: u16) 15" "\<not> bit (0x8000 :: u16) 14" by simp_all
  ultimately show False using assms by metis
qed

text \<open>A code a game uses for a transfer without DMA, and not the register-write pattern.\<close>

definition plain_code :: "u8 \<Rightarrow> bool" where
  "plain_code cd \<longleftrightarrow> cd AND 0x3F = cd \<and> \<not> bit cd 5 \<and> (bit cd 1 \<longrightarrow> bit cd 0)"

lemma vdp_command_plain:
  assumes "\<not> control_pending v" "plain_code cd"
  shows "\<exists>v'. vdp_command rd cd adr (v, x) = (v', x) \<and> code v' = cd \<and> address v' = adr
     \<and> \<not> control_pending v' \<and> vram v' = vram v \<and> cram v' = cram v \<and> vsram v' = vsram v \<and> reg v' = reg v
     \<and> dma_fill_pending v' = dma_fill_pending v \<and> s_pending_68k_stall v' = s_pending_68k_stall v"
proof -
  have cd: "cd AND 0x3F = cd" "\<not> bit cd 5" and nr: "cmd1 cd adr AND 0xC000 \<noteq> 0x8000"
    using assms(2) cmd1_not_register [of cd adr] by (auto simp: plain_code_def)
  define v1 where "v1 = v\<lparr>address := (address v AND 0xC000) OR (cmd1 cd adr AND 0x3FFF),
            code := (code v AND 0x3C) OR ucast (drop_bit 14 (cmd1 cd adr) AND 0x03), control_pending := True\<rparr>"
  have 1: "gvdp_write_control rd (cmd1 cd adr) (v, x) = (v1, x)"
    unfolding gvdp_write_control_def v1_def Let_def using assms(1) nr by simp
  have sel: "(code v1 AND 0x03) OR ucast (drop_bit 2 (cmd2 cd adr) AND 0x3C) = cd"
    "(address v1 AND 0x3FFF) OR push_bit 14 (cmd2 cd adr AND 0x0003) = adr" "control_pending v1"
    unfolding v1_def using cmd_code [OF cd(1)] cmd_address by (simp_all del: bit.conj_disj_distribs)
  have 2: "gvdp_write_control rd (cmd2 cd adr) (v1, x) =
     (evt_push GVDP_EVT_CMD cd adr (cmd2 cd adr) (REG_AUTOINC v1) 0 0 GVDP_SKIP_NONE
        (v1\<lparr>address := adr, code := cd, control_pending := False\<rparr>), x)"
    unfolding gvdp_write_control_def Let_def using cd(2)
    by (simp add: sel maybe_start_dma_def REG_AUTOINC_def del: push_bit_and)
  show ?thesis unfolding vdp_command_def 1 2 by (simp add: v1_def)
qed

lemma even_neighbour: "(a AND 0xFFFE) \<noteq> (a AND 0xFFFE) + 1" for a :: u16
  by simp

lemma vram_word_round_trip:
  "vram_read_word (vram_write_word adr val v) adr = (if bit adr 0 then be16 (lo8 val) (hi8 val) else val)"
  by (simp add: vram_read_word_def vram_write_word_def Let_def)

lemma dma_store_effect:
  "dma_store val v = (let c = code v AND 0x0F;
      w = (if c = CODE_CRAM_WRITE then cram_write (address v) val v
           else if c = CODE_VSRAM_WRITE then vsram_write (address v) val v
           else vram_write_word (address v) val v)
    in w\<lparr>address := address v + REG_AUTOINC v\<rparr>)"
  by (simp add: dma_store_def Let_def CODE_defs vram_write_word_def cram_write_def vsram_write_def REG_AUTOINC_def)

lemma write_data_keeps [simp]:
  "\<not> dma_fill_pending v \<Longrightarrow> control_pending (gvdp_write_data val v) = False"
  "\<not> dma_fill_pending v \<Longrightarrow> dma_fill_pending (gvdp_write_data val v) = False"
  by (simp_all add: gvdp_write_data_def Let_def dma_store_effect vram_write_word_def cram_write_def vsram_write_def)

text \<open>
  C9: what a program writes through the VDP ports it reads back. After the command pair for a
  VRAM, CRAM or VSRAM write, a data write, the command pair for the read and a data read, the word
  read is the word written: with its bytes exchanged at an odd VRAM address, with the nine colour
  bits kept in CRAM, with ten bits in VSRAM and zero beyond its forty words. The command pairs do
  not start a DMA and leave the rest of the machine alone.
\<close>

theorem vdp_port_round_trip:
  assumes "\<not> control_pending v" "\<not> dma_fill_pending v" "(w, r) \<in> {(1, 0), (3, 8), (5, 4)}"
  shows "\<exists>v1 v2. vdp_command rd w adr (v, x) = (v1, x)
     \<and> vdp_command rd r adr (gvdp_write_data val v1, x) = (v2, x)
     \<and> fst (gvdp_read_data v2) =
        (if w = 1 then (if bit adr 0 then be16 (lo8 val) (hi8 val) else val)
         else if w = 3 then val AND 0x0EEE
         else if unat (drop_bit 1 adr) < GVDP_VSRAM_ENTRIES then val AND 0x03FF else 0)"
proof -
  have pc: "plain_code w" "plain_code r" using assms(3) by (auto simp: plain_code_def)
  obtain v1 where v1: "vdp_command rd w adr (v, x) = (v1, x)" "code v1 = w" "address v1 = adr"
    "\<not> dma_fill_pending v1"
    using vdp_command_plain [OF assms(1) pc(1)] assms(2) by metis
  let ?vw = "gvdp_write_data val v1"
  obtain v2 where v2: "vdp_command rd r adr (?vw, x) = (v2, x)" "code v2 = r" "address v2 = adr"
    "vram v2 = vram ?vw" "cram v2 = cram ?vw" "vsram v2 = vsram ?vw"
    using vdp_command_plain [of ?vw r rd adr x] pc(2) v1(4) by (metis write_data_keeps(1))
  have "fst (gvdp_read_data v2) =
        (if w = 1 then (if bit adr 0 then be16 (lo8 val) (hi8 val) else val)
         else if w = 3 then val AND 0x0EEE
         else if unat (drop_bit 1 adr) < GVDP_VSRAM_ENTRIES then val AND 0x03FF else 0)"
    using assms(3) v1(2-4)
    by (auto simp: gvdp_read_data_def Let_def v2 gvdp_write_data_def dma_store_effect CODE_defs
        vram_read_word_def vram_write_word_def cram_write_def vsram_write_def)
  with v1(1) v2(1) show ?thesis by blast
qed

section \<open>Transfers\<close>

text \<open>The address of the \<open>i\<close>-th source word: the low 17 bits wrap within the 128 KB bank.\<close>

definition dma_src_at :: "u32 \<Rightarrow> nat \<Rightarrow> u32" where
  "dma_src_at src i = (src AND 0xFE0000) OR ((src + 2 * of_nat i) AND 0x01FFFF)"

lemma dma_src_masks: "(0xFE0000 :: u32) = push_bit 17 (mask 7)" "(0x01FFFF :: u32) = mask 17"
  by (simp_all add: mask_eq_exp_minus_1 push_bit_eq_mult)

lemma and_mask_add: "((a AND mask n) + b) AND mask n = (a + b) AND mask n" for a b :: u32
proof -
  have "take_bit m (take_bit (min 32 n) k + l) = take_bit m (k + l)" if "m \<le> 32" "m \<le> n" for m and k l :: int
    using that take_bit_add [of m "take_bit (min 32 n) k" l] take_bit_add [of m k l] by simp
  then show ?thesis
    unfolding take_bit_eq_mask [symmetric] by transfer (simp add: min_def)
qed

lemma dma_src_at_Suc: "dma_src_at (dma_next_src src) i = dma_src_at src (Suc i)"
proof -
  let ?n = "dma_next_src src"
  have hi: "?n AND 0xFE0000 = src AND 0xFE0000"
    unfolding dma_next_src_def dma_src_masks by (rule bit_word_eqI) (auto simp: bit_simps)
  have lo: "?n AND mask 17 = (src + 2) AND mask 17"
    unfolding dma_next_src_def dma_src_masks by (rule bit_word_eqI) (auto simp: bit_simps)
  have "(?n + 2 * of_nat i) AND mask 17 = ((src + 2) + 2 * of_nat i) AND mask 17"
    by (metis and_mask_add lo)
  with hi show ?thesis by (simp add: dma_src_at_def dma_src_masks(2) algebra_simps)
qed

text \<open>A reader without side effects, the case of a transfer from ROM or RAM.\<close>

definition pure_reader :: "(u32 \<Rightarrow> u16) \<Rightarrow> 'x reader" where
  "pure_reader f = (\<lambda>a s. (f a, s))"

lemma dma_words_pure:
  "dma_words (pure_reader f) n src (v, x) =
    (fold dma_store (map (\<lambda>i. f (dma_src_at src i)) [0..<n]) v, x)" if "src AND 0xFFFFFF = src"
  using that
proof (induction n arbitrary: src v)
  case (Suc n)
  have m: "(0xFFFFFF :: u32) = mask 24" by (simp add: mask_eq_exp_minus_1)
  have lim: "bit src k \<Longrightarrow> k < 24" for k using Suc.prems unfolding m by (metis bit_and_iff bit_mask_iff)
  have "dma_src_at src 0 = src"
    unfolding dma_src_at_def dma_src_masks
    by (rule bit_word_eqI) (auto simp: bit_simps dest: lim)
  moreover have "dma_next_src src AND 0xFFFFFF = dma_next_src src"
    unfolding m dma_next_src_def dma_src_masks by (rule bit_word_eqI) (auto simp: bit_simps)
  moreover have "map (\<lambda>i. f (dma_src_at src i)) [0..<Suc n]
      = f (dma_src_at src 0) # map (\<lambda>i. f (dma_src_at (dma_next_src src) i)) [0..<n]"
    by (simp only: upt_conv_Cons map_Suc_upt [symmetric] dma_src_at_Suc) (simp add: map_Suc_upt [symmetric] del: upt_Suc)
  ultimately show ?case using Suc.IH [of "dma_next_src src" "dma_store (f src) v"]
    by (simp add: pure_reader_def del: upt_Suc)
qed simp

lemma even_masked: "even a \<Longrightarrow> a AND 0xFFFE = a" for a :: u16
proof (rule bit_word_eqI)
  fix n
  assume "even a"
  then have "bit a n \<Longrightarrow> n \<noteq> 0" by (cases n) (auto simp: bit_0)
  moreover have eq: "(0xFFFE :: u16) = NOT 1" by simp
  ultimately show "bit (a AND 0xFFFE) n = bit a n"
    by (simp only: eq bit_and_iff bit_not_iff bit_1_iff possible_bit_word) (use bit_imp_le_length in blast)
qed

lemma word_slots:
  fixes a :: u16
  assumes "even a" "i < 0x8000" "j < 0x8000" "i \<noteq> j"
  shows "a + 2 * of_nat i \<noteq> a + 2 * of_nat j" "a + 2 * of_nat i \<noteq> a + 2 * of_nat j + 1"
    "a + 2 * of_nat i + 1 \<noteq> a + 2 * of_nat j" "a + 2 * of_nat i + 1 \<noteq> a + 2 * of_nat j + 1"
proof -
  have "(of_nat (2 * i) :: u16) \<noteq> of_nat (2 * j)"
    using assms(2-4) by (simp only: word_of_nat_eq_iff) (simp add: take_bit_nat_eq_self)
  then show "a + 2 * of_nat i \<noteq> a + 2 * of_nat j" "a + 2 * of_nat i + 1 \<noteq> a + 2 * of_nat j + 1" by simp_all
  have par: "even (a + 2 * of_nat k)" for k using assms(1) by simp
  show "a + 2 * of_nat i \<noteq> a + 2 * of_nat j + 1" "a + 2 * of_nat i + 1 \<noteq> a + 2 * of_nat j"
    using par [of i] par [of j] by (metis even_plus_one_iff)+
qed

text \<open>A transfer to VRAM with an auto-increment of two from an even address.\<close>

definition vram_transfer :: "GVDP \<Rightarrow> bool" where
  "vram_transfer v \<longleftrightarrow> code v AND 0x0F = CODE_VRAM_WRITE \<and> REG_AUTOINC v = 2 \<and> even (address v)"

lemma store_words:
  assumes "vram_transfer v" "length ws \<le> 0x8000"
  defines "v' \<equiv> fold dma_store ws v"
  shows "address v' = address v + 2 * of_nat (length ws) \<and> code v' = code v \<and> reg v' = reg v
    \<and> s_pending_68k_stall v' = s_pending_68k_stall v
    \<and> (\<forall>i < length ws. vram v' (address v + 2 * of_nat i) = hi8 (ws ! i)
        \<and> vram v' (address v + 2 * of_nat i + 1) = lo8 (ws ! i))
    \<and> (\<forall>b. (\<forall>i < length ws. b \<noteq> address v + 2 * of_nat i \<and> b \<noteq> address v + 2 * of_nat i + 1)
        \<longrightarrow> vram v' b = vram v b)"
  using assms(2) unfolding v'_def
proof (induction ws rule: rev_induct)
  case (snoc w ws)
  let ?u = "fold dma_store ws v" and ?n = "length ws"
  note ih = snoc.IH
  have len: "?n < 0x8000" using snoc.prems by simp
  have u: "address ?u = address v + 2 * of_nat ?n" "code ?u = code v" "reg ?u = reg v"
    using ih len by simp_all
  have ev: "even (address v)" "even (address ?u)" using assms(1) by (simp_all add: vram_transfer_def u)
  have st: "dma_store w ?u = ?u\<lparr>vram := (vram ?u)(address ?u := hi8 w, address ?u + 1 := lo8 w),
      address := address ?u + 2\<rparr>"
    using assms(1) ev by (simp add: dma_store_effect Let_def vram_transfer_def CODE_defs u REG_AUTOINC_def
        vram_write_word_def even_masked bit_0)
  show ?case
    unfolding fold_append comp_apply fold_simps st
    using ih len u word_slots [OF ev(1) _ len]
    by (auto simp: nth_append less_Suc_eq algebra_simps)
qed simp

text \<open>
  C10: a 68000-to-VRAM transfer from ROM or RAM stores exactly the programmed number of words. With
  an auto-increment of two and an even destination, the \<open>i\<close>-th destination word is the \<open>i\<close>-th
  source word, the source running through its 128 KB bank and wrapping at the bank's end; every other
  VRAM byte is unchanged, the destination address ends just past the block, and the 68000 is charged
  the freeze for the whole length on top of what was already owed.
\<close>

theorem dma_transfers_block:
  fixes x :: 'x
  assumes "vram_transfer v" "unat (dma_length v) \<le> 0x8000"
  shows "\<exists>v'. dma_run_68k_to_vdp (Some (pure_reader f)) (v, x) = (v', x)
    \<and> (\<forall>i < unat (dma_length v).
         vram_read_word v' (address v + 2 * of_nat i) = f (dma_src_at (dma_source_68k v) i))
    \<and> (\<forall>b. (\<forall>i < unat (dma_length v). b \<noteq> address v + 2 * of_nat i \<and> b \<noteq> address v + 2 * of_nat i + 1)
        \<longrightarrow> vram v' b = vram v b)
    \<and> address v' = address v + 2 * of_nat (unat (dma_length v))
    \<and> s_pending_68k_stall v' = s_pending_68k_stall v + dma_charge v"
proof -
  let ?n = "unat (dma_length v)" and ?src = "dma_source_68k v"
  let ?v = "v\<lparr>s_pending_68k_stall := s_pending_68k_stall v + dma_charge v\<rparr>"
  let ?ws = "map (\<lambda>i. f (dma_src_at ?src i)) [0..<?n]"
  have src: "?src AND 0xFFFFFF = ?src"
  proof -
    have m: "(0xFFFFFF :: u32) = mask 24" "(0x7F :: u8) = mask 7" by (simp_all add: mask_eq_exp_minus_1)
    show ?thesis unfolding dma_source_68k_def m
      by (rule bit_word_eqI, unfold bit_and_iff bit_push_bit_iff bit_or_iff) (auto simp: bit_simps dest: bit_imp_le_length)
  qed
  have run: "dma_run_68k_to_vdp (Some (pure_reader f)) (v, x) = (fold dma_store ?ws ?v, x)"
    by (simp add: dma_run_68k_to_vdp_def Let_def dma_words_pure [OF src])
  have v: "vram_transfer ?v" using assms(1) by (simp add: vram_transfer_def REG_AUTOINC_def)
  note st = store_words [OF v, of ?ws, simplified]
  have ev: "even (address v + 2 * of_nat i)" for i using assms(1) by (simp add: vram_transfer_def)
  show ?thesis unfolding run using st assms(2) ev
    by (auto simp: vram_read_word_def Let_def even_masked)
qed

section \<open>Interrupts of a frame\<close>

text \<open>The requests of the first \<open>n\<close> lines of a frame and the state after them.\<close>

fun frame_lines :: "nat \<Rightarrow> GVDP \<Rightarrow> (bool \<times> bool) list \<times> GVDP" where
  "frame_lines 0 v = ([], v)"
| "frame_lines (Suc n) v =
    (let (irqs, v) = frame_lines n v; (irq, v) = gvdp_begin_scanline n v in (irqs @ [irq], v))"

definition hint_rate :: "GVDP \<Rightarrow> nat" where "hint_rate v = unat (reg v 0x0A)"

lemma begin_scanline_reg [simp]: "reg (snd (gvdp_begin_scanline n v)) = reg v"
  by (simp add: gvdp_begin_scanline_def Let_def)

lemma frame_lines_reg [simp]: "reg (snd (frame_lines n v)) = reg v"
  by (induction n) (simp_all add: Let_def split_beta)

lemma frame_lines_modes [simp]:
  "gvdp_screen_height (snd (frame_lines n v)) = gvdp_screen_height v"
  "MODE1_HINT_ON (snd (frame_lines n v)) = MODE1_HINT_ON v"
  "MODE2_VINT_ON (snd (frame_lines n v)) = MODE2_VINT_ON v"
  by (simp_all add: gvdp_screen_height_def MODE2_V30_def MODE1_HINT_ON_def MODE2_VINT_ON_def)

text \<open>The value of the H-int counter before line \<open>n\<close> of a frame entered with a full counter.\<close>

definition hint_before :: "nat \<Rightarrow> nat \<Rightarrow> nat \<Rightarrow> nat" where
  "hint_before rate height n = (if n \<le> height then rate - n mod (rate + 1) else rate)"

lemma unat_rate: "unat (ucast (b :: u8) :: u16) = unat b"
  by (simp add: unsigned_ucast_eq take_bit_nat_eq_self_iff)
    (use unsigned_less [where ?'a = nat, of b] in simp)

lemma hint_step:
  assumes "unat (hint_counter v) = hint_before (hint_rate v) (gvdp_screen_height v) n"
  shows "unat (hint_counter (snd (gvdp_begin_scanline n v))) = hint_before (hint_rate v) (gvdp_screen_height v) (Suc n)"
    "fst (gvdp_begin_scanline n v) =
      (n < gvdp_screen_height v \<and> MODE1_HINT_ON v \<and> Suc n mod (hint_rate v + 1) = 0,
       n = gvdp_screen_height v \<and> MODE2_VINT_ON v)"
proof -
  let ?r = "hint_rate v" and ?h = "gvdp_screen_height v"
  have zero: "hint_counter v = 0 \<longleftrightarrow> unat (hint_counter v) = 0" by (simp add: unat_eq_0)
  have dec: "hint_counter v \<noteq> 0 \<Longrightarrow> unat (hint_counter v - 1) = unat (hint_counter v) - 1"
    by (simp add: unat_minus_one)
  have cyc: "n mod (?r + 1) = ?r \<longleftrightarrow> Suc n mod (?r + 1) = 0" "n mod (?r + 1) \<le> ?r"
    "n mod (?r + 1) \<noteq> ?r \<Longrightarrow> Suc n mod (?r + 1) = Suc (n mod (?r + 1))"
    by (auto simp: mod_Suc)
  show "unat (hint_counter (snd (gvdp_begin_scanline n v))) = hint_before ?r ?h (Suc n)"
    "fst (gvdp_begin_scanline n v) = (n < ?h \<and> MODE1_HINT_ON v \<and> Suc n mod (?r + 1) = 0, n = ?h \<and> MODE2_VINT_ON v)"
    using assms cyc dec le_antisym [OF cyc(2)]
    by (auto simp: gvdp_begin_scanline_def Let_def hint_before_def zero unat_rate hint_rate_def
        MODE1_HINT_ON_def MODE2_VINT_ON_def)
qed

lemma frame_lines_spec:
  assumes "unat (hint_counter v) = hint_rate v"
  shows "unat (hint_counter (snd (frame_lines n v))) = hint_before (hint_rate v) (gvdp_screen_height v) n
    \<and> fst (frame_lines n v) =
        map (\<lambda>l. (l < gvdp_screen_height v \<and> MODE1_HINT_ON v \<and> Suc l mod (hint_rate v + 1) = 0,
                  l = gvdp_screen_height v \<and> MODE2_VINT_ON v)) [0..<n]"
proof (induction n)
  case 0
  then show ?case using assms by (simp add: hint_before_def)
next
  case (Suc n)
  let ?u = "snd (frame_lines n v)"
  have r: "hint_rate ?u = hint_rate v" "gvdp_screen_height ?u = gvdp_screen_height v"
    "MODE1_HINT_ON ?u = MODE1_HINT_ON v" "MODE2_VINT_ON ?u = MODE2_VINT_ON v"
    by (simp_all add: hint_rate_def)
  show ?case using hint_step [of ?u n] Suc unfolding r by (simp add: Let_def split_beta)
qed

lemma frame_lines_vblank:
  "gvdp_screen_height v < n \<Longrightarrow> in_vblank (snd (frame_lines n v))"
proof (induction n)
  case (Suc n)
  have h: "gvdp_screen_height (snd (frame_lines n v)) = gvdp_screen_height v" by simp
  have "0 < gvdp_screen_height v" by (simp add: gvdp_screen_height_def)
  with Suc h show ?case
    by (cases "n = gvdp_screen_height v") (auto simp: gvdp_begin_scanline_def Let_def split_beta)
qed simp

text \<open>
  C11: the interrupts of a frame of \<open>n\<close> lines, for a register file that does not change during the
  frame. When the frame starts with the H-int counter full, H-int is requested on exactly the active
  lines whose distance from the last request is the programmed rate plus one, V-int on exactly the
  first line after the active area, each only while enabled; after any line past the active area the
  counter is full again, so the next frame starts the same way, and the V-blank flag is up.
\<close>

theorem frame_interrupts:
  assumes "unat (hint_counter v) = hint_rate v"
  shows "fst (frame_lines n v) =
        map (\<lambda>l. (l < gvdp_screen_height v \<and> MODE1_HINT_ON v \<and> Suc l mod (hint_rate v + 1) = 0,
                  l = gvdp_screen_height v \<and> MODE2_VINT_ON v)) [0..<n]
    \<and> (gvdp_screen_height v < n \<longrightarrow>
         unat (hint_counter (snd (frame_lines n v))) = hint_rate (snd (frame_lines n v))
       \<and> in_vblank (snd (frame_lines n v)))"
  using frame_lines_spec [OF assms, of n] frame_lines_vblank [of v n]
  by (simp add: hint_before_def hint_rate_def)

section \<open>Witnesses\<close>

definition vdp_blank :: GVDP where
  "vdp_blank = \<lparr> vram = \<lambda>_. 0, cram = \<lambda>_. 0, vsram = \<lambda>_. 0,
     reg = (\<lambda>_. 0)(0 := 0x10, 1 := 0x74, 0x0A := 7, 0x0F := 2, 0x13 := 4, 0x15 := 0x80), control_pending = False,
     code = 0x21, address = 0x100, address_hi = 0, in_vblank = False, in_hblank = False,
     dma_active = False, sprite_overflow = False, sprite_collision = False, vint_pending = False,
     hint_counter = 7, scanline = 0, dma_fill_pending = False, s_pending_68k_stall = 0,
     g_gvdp_events = \<lambda>_. \<lparr> e_seq = 0, e_kind = GVDP_EVT_REG, e_code = 0, e_reason = GVDP_SKIP_NONE,
       e_in_vblank = False, e_scanline = 0, e_addr = 0, e_value = 0, e_inc = 0, e_len = 0, e_src = 0 \<rparr>,
     g_gvdp_event_seq = 0, colour_updates = [] \<rparr>"

theorem vdp_port_round_trip_witness:
  "\<exists>v1 v2. vdp_command None 1 0xC002 (vdp_blank, ()) = (v1, ())
     \<and> vdp_command None 0 0xC002 (gvdp_write_data 0x1234 v1, ()) = (v2, ())
     \<and> fst (gvdp_read_data v2) = 0x1234"
  using vdp_port_round_trip [of vdp_blank 1 0 None "0xC002" "()" "0x1234"]
  by (simp add: vdp_blank_def)

theorem dma_transfers_block_witness:
  "vram_transfer vdp_blank \<and> unat (dma_length vdp_blank) = 4
   \<and> (\<exists>v'. dma_run_68k_to_vdp (Some (pure_reader ucast)) (vdp_blank, ()) = (v', ())
        \<and> vram_read_word v' (0x100 + 2 * of_nat 3) = 0x106)"
proof -
  have t: "vram_transfer vdp_blank" "unat (dma_length vdp_blank) = 4" "address vdp_blank = 0x100"
    "dma_src_at (dma_source_68k vdp_blank) 3 = 0x106"
    by (simp_all add: vdp_blank_def vram_transfer_def REG_AUTOINC_def CODE_defs dma_length_def Let_def
        dma_source_68k_def dma_src_at_def)
  obtain v' where "dma_run_68k_to_vdp (Some (pure_reader ucast)) (vdp_blank, ()) = (v', ())"
    "\<forall>i < 4. vram_read_word v' (0x100 + 2 * of_nat i) = ucast (dma_src_at (dma_source_68k vdp_blank) i)"
    using dma_transfers_block [OF t(1), of ucast "()"] t(2,3) by auto
  moreover from this(2) have "vram_read_word v' (0x100 + 2 * of_nat 3) = ucast (dma_src_at (dma_source_68k vdp_blank) 3)"
    by (rule allE [where x = 3]) simp
  ultimately show ?thesis using t by auto
qed

theorem frame_interrupts_witness:
  "fst (frame_lines 9 vdp_blank) =
     [(False, False), (False, False), (False, False), (False, False), (False, False), (False, False),
      (False, False), (True, False), (False, False)]"
proof -
  have "unat (hint_counter vdp_blank) = hint_rate vdp_blank" by (simp add: vdp_blank_def hint_rate_def)
  from frame_interrupts [OF this, of 9] show ?thesis
    by (simp add: vdp_blank_def hint_rate_def gvdp_screen_height_def MODE2_V30_def MODE1_HINT_ON_def
        MODE2_VINT_ON_def upt_rec)
qed

end
