(* ===== verification/Audio_Psg.thy ===== *)
theory Audio_Psg
  imports Prelude "HOL-Library.Signed_Division"
begin

text \<open>
  The SN76489 sound generator of \<^verbatim>\<open>runner/audio/sn76489.c\<close>: its register writes, the rendering of
  one sample, the closed-form advance over silent spans and the sample clock with its scratch
  buffers. Counters and filter memories are \<^verbatim>\<open>int32_t\<close> values that stay far from their limits, so
  they are integers; the casts to \<^verbatim>\<open>int16_t\<close> are written out.
\<close>

record SN76489 =
  tone_period :: "nat \<Rightarrow> u16"
  tone_counter :: "nat \<Rightarrow> int"
  tone_out :: "nat \<Rightarrow> u8"
  vol :: "nat \<Rightarrow> u8"
  noise_ctrl :: u8
  noise_counter :: int
  lfsr :: u16
  noise_ff :: u8
  noise_out :: u8
  latch :: u8
  lpf_y :: int
  lpf_prev :: int

definition SN_LPF_SAMPLE_MAGIC :: int where "SN_LPF_SAMPLE_MAGIC = 2517"
definition SN_LPF_OUTPUT_MAGIC :: int where "SN_LPF_OUTPUT_MAGIC = 60504"

definition SN_VOL :: "int list" where
  "SN_VOL = [0x1FFF, 0x196A, 0x1430, 0x1009, 0x0CBD, 0x0A1E, 0x0809, 0x0662,
             0x0512, 0x0407, 0x0333, 0x028A, 0x0204, 0x019A, 0x0146, 0x0000]"

text \<open>\<^verbatim>\<open>(int16_t)x\<close>\<close>

definition s16 :: "int \<Rightarrow> int" where
  "s16 x = signed_take_bit 15 x"

definition sn_reset :: SN76489 where
  "sn_reset = \<lparr>tone_period = \<lambda>_. 1, tone_counter = \<lambda>_. 1, tone_out = \<lambda>_. 0, vol = \<lambda>_. 0xF,
    noise_ctrl = 0, noise_counter = 0x10, lfsr = 0x8000, noise_ff = 0, noise_out = 0, latch = 0,
    lpf_y = 0, lpf_prev = 0\<rparr>"

definition sn_write :: "u8 \<Rightarrow> SN76489 \<Rightarrow> SN76489" where
  "sn_write b p =
    (if bit b 7 then
       let p = p\<lparr>latch := drop_bit 4 b AND 7\<rparr>;
           chan = unat (drop_bit 5 b AND 3); ty = bit b 4
       in if ty then p\<lparr>vol := (vol p)(chan := b AND 0xF)\<rparr>
          else if chan < 3 then
            p\<lparr>tone_period := (tone_period p)(chan := (tone_period p chan AND 0x3F0) OR ucast (b AND 0xF))\<rparr>
          else p\<lparr>noise_ctrl := b AND 7, lfsr := 0x8000\<rparr>
     else
       let chan = unat (drop_bit 1 (latch p) AND 3); ty = bit (latch p) 0
       in if ty then p\<lparr>vol := (vol p)(chan := b AND 0xF)\<rparr>
          else if chan < 3 then
            p\<lparr>tone_period := (tone_period p)(chan :=
                (tone_period p chan AND 0x00F) OR push_bit 4 (ucast (b AND 0x3F)))\<rparr>
          else p\<lparr>noise_ctrl := b AND 7, lfsr := 0x8000\<rparr>)"

definition sn_noise_reload :: "SN76489 \<Rightarrow> int" where
  "sn_noise_reload p =
    (let m = noise_ctrl p AND 3
     in if m = 0 then 0x10 else if m = 1 then 0x20 else if m = 2 then 0x40
        else if tone_period p 2 \<noteq> 0 then uint (tone_period p 2) else 1)"

definition sn_white_step :: "u16 \<Rightarrow> u16" where
  "sn_white_step b = drop_bit 1 b OR push_bit 15 ((b XOR drop_bit 3 b) AND 1)"

text \<open>One tick of a tone channel, and the sum of a channel's output into the mix.\<close>

definition tone_tick :: "nat \<Rightarrow> SN76489 \<Rightarrow> SN76489" where
  "tone_tick i p =
    (let c = tone_counter p i - 1
     in if c \<le> 0 then
          p\<lparr>tone_counter := (tone_counter p)(i := if tone_period p i \<noteq> 0 then uint (tone_period p i) else 1),
            tone_out := (tone_out p)(i := tone_out p i XOR 1)\<rparr>
        else p\<lparr>tone_counter := (tone_counter p)(i := c)\<rparr>)"

definition level :: "u8 \<Rightarrow> u8 \<Rightarrow> int" where
  "level out v = (if out \<noteq> 0 then SN_VOL ! unat v else - (SN_VOL ! unat v))"

definition noise_tick :: "SN76489 \<Rightarrow> SN76489" where
  "noise_tick p =
    (let c = noise_counter p - 1
     in if c \<le> 0 then
          let p = p\<lparr>noise_counter := sn_noise_reload p, noise_ff := noise_ff p XOR 1\<rparr>
          in if noise_ff p \<noteq> 0 then
               let fb = (if bit (noise_ctrl p) 2 then (lfsr p XOR drop_bit 3 (lfsr p)) AND 1 else lfsr p AND 1);
                   l = drop_bit 1 (lfsr p) OR push_bit 15 fb
               in p\<lparr>lfsr := l, noise_out := ucast (l AND 1)\<rparr>
             else p
        else p\<lparr>noise_counter := c\<rparr>)"

definition sn_lowpass :: "int \<Rightarrow> SN76489 \<Rightarrow> int \<times> SN76489" where
  "sn_lowpass mix p =
    (let lp = ((mix + lpf_prev p) * SN_LPF_SAMPLE_MAGIC + lpf_y p * SN_LPF_OUTPUT_MAGIC) sdiv 65536;
         out = max (-32768) (min 32767 lp)
     in (s16 out, p\<lparr>lpf_prev := mix, lpf_y := out\<rparr>))"

text \<open>The sample is the pair of the filtered and the unfiltered output.\<close>

definition sn_render_sample :: "SN76489 \<Rightarrow> (int \<times> int) \<times> SN76489" where
  "sn_render_sample p =
    (let p = noise_tick (tone_tick 2 (tone_tick 1 (tone_tick 0 p)));
         mix = level (tone_out p 0) (vol p 0) + level (tone_out p 1) (vol p 1)
             + level (tone_out p 2) (vol p 2) + level (noise_out p) (vol p 3);
         (out, p) = sn_lowpass mix p
     in ((out, s16 mix), p))"

section \<open>Silent spans\<close>

definition sn_counter_span :: "int \<Rightarrow> nat \<Rightarrow> nat \<Rightarrow> nat \<times> int" where
  "sn_counter_span counter period samples =
    (let first = (if counter > 0 then nat counter else 1)
     in if samples < first then (0, counter - int samples)
        else let rest = samples - first
          in (1 + rest div period, int (period - rest mod period)))"

function linear_loop :: "(nat \<Rightarrow> u16) \<Rightarrow> nat \<Rightarrow> u16 \<Rightarrow> u16 \<Rightarrow> u16" where
  "linear_loop columns i bits out = (if bits = 0 then out
     else linear_loop columns (i + 1) (drop_bit 1 bits) (if bit bits 0 then out XOR columns i else out))"
  by auto
termination
  by (relation "measure (\<lambda>(columns, i, bits, out). unat bits)") (simp_all add: drop_bit_1_less del: One_nat_def)

declare linear_loop.simps [simp del]

definition sn_linear_apply :: "(nat \<Rightarrow> u16) \<Rightarrow> u16 \<Rightarrow> u16" where
  "sn_linear_apply columns bits = linear_loop columns 0 bits 0"

text \<open>
  The table of the C function has thirteen rows, computed on first use and never changed; the loop
  reads row \<open>p\<close> of it.
\<close>

primrec white_powers :: "nat \<Rightarrow> nat \<Rightarrow> u16" where
  "white_powers 0 i = sn_white_step (push_bit i 1)"
| "white_powers (Suc p) i = sn_linear_apply (white_powers p) (white_powers p i)"

definition white_table :: "(nat \<Rightarrow> u16) list" where
  "white_table = map white_powers [0..<13]"

fun white_pow_loop :: "nat \<Rightarrow> nat \<Rightarrow> u16 \<Rightarrow> u16" where
  "white_pow_loop p steps bits = (if steps = 0 then bits
     else white_pow_loop (p + 1) (steps div 2) (if odd steps then sn_linear_apply (white_table ! p) bits else bits))"

declare white_pow_loop.simps [simp del]

definition sn_white_span :: "u16 \<Rightarrow> nat \<Rightarrow> u16" where
  "sn_white_span bits steps =
    (if steps < 16 then (sn_white_step ^^ steps) bits else white_pow_loop 0 steps bits)"

definition rotate_right :: "nat \<Rightarrow> u16 \<Rightarrow> u16" where
  "rotate_right r l = (if r \<noteq> 0 then ucast (ucast (drop_bit r l) OR push_bit (16 - r) (ucast l :: u32)) else l)"

definition silent :: "SN76489 \<Rightarrow> bool" where
  "silent p \<longleftrightarrow> vol p 0 = 15 \<and> vol p 1 = 15 \<and> vol p 2 = 15 \<and> vol p 3 = 15 \<and> lpf_y p = 0 \<and> lpf_prev p = 0
    \<and> noise_ff p \<le> 1 \<and> noise_out p \<le> 1 \<and> tone_out p 0 \<le> 1 \<and> tone_out p 1 \<le> 1 \<and> tone_out p 2 \<le> 1"

definition tone_span :: "nat \<Rightarrow> nat \<Rightarrow> SN76489 \<Rightarrow> SN76489" where
  "tone_span samples i p =
    (let period = (if tone_period p i \<noteq> 0 then unat (tone_period p i) else 1);
         (edges, c) = sn_counter_span (tone_counter p i) period samples
     in p\<lparr>tone_counter := (tone_counter p)(i := c),
          tone_out := (tone_out p)(i := tone_out p i XOR of_bool (odd edges))\<rparr>)"

definition noise_span :: "nat \<Rightarrow> SN76489 \<Rightarrow> SN76489" where
  "noise_span samples p =
    (let (edges, c) = sn_counter_span (noise_counter p) (nat (sn_noise_reload p)) samples;
         shifts = (edges + (if noise_ff p \<noteq> 0 then 0 else 1)) div 2;
         p = p\<lparr>noise_counter := c, noise_ff := noise_ff p XOR of_bool (odd edges)\<rparr>
     in if shifts \<noteq> 0 then
          let l = (if bit (noise_ctrl p) 2 then sn_white_span (lfsr p) shifts
                   else rotate_right (shifts mod 16) (lfsr p))
          in p\<lparr>lfsr := l, noise_out := ucast (l AND 1)\<rparr>
        else p)"

text \<open>\<open>None\<close> when the chip is not silent; otherwise every sample of the span is zero.\<close>

definition sn_silent_span :: "nat \<Rightarrow> SN76489 \<Rightarrow> SN76489 option" where
  "sn_silent_span samples p =
    (if silent p then Some (noise_span samples (tone_span samples 2 (tone_span samples 1 (tone_span samples 0 p))))
     else None)"

section \<open>The sample clock\<close>

record Psg =
  s_inited :: bool
  s_sn :: SN76489
  s_leftover_master_cycles :: u32
  s_scratch :: "nat \<Rightarrow> int"
  s_raw_scratch :: "nat \<Rightarrow> int"
  s_scratch_write :: nat
  s_scratch_read :: nat

definition PSG_SCRATCH_SAMPLES :: nat where "PSG_SCRATCH_SAMPLES = 8192"
definition PSG_SAMPLE_DIVISOR_MASTER :: nat where "PSG_SAMPLE_DIVISOR_MASTER = 240"

definition psg_init :: "Psg \<Rightarrow> Psg" where
  "psg_init s = s\<lparr>s_sn := sn_reset, s_scratch_write := 0, s_scratch_read := 0,
     s_leftover_master_cycles := 0, s_inited := True\<rparr>"

definition psg_ready :: "Psg \<Rightarrow> Psg" where
  "psg_ready s = (if s_inited s then s else psg_init s)"

text \<open>The rendering loop of a chunk: sample \<open>i\<close> of the chunk goes to slot \<open>s_scratch_write + i\<close>.\<close>

fun render_chunk :: "nat \<Rightarrow> nat \<Rightarrow> Psg \<Rightarrow> Psg" where
  "render_chunk at 0 s = s"
| "render_chunk at (Suc n) s =
    (let ((f, r), sn) = sn_render_sample (s_sn s)
     in render_chunk (at + 1) n (s\<lparr>s_sn := sn, s_scratch := (s_scratch s)(at := f),
          s_raw_scratch := (s_raw_scratch s)(at := r)\<rparr>))"

definition silent_chunk :: "nat \<Rightarrow> nat \<Rightarrow> SN76489 \<Rightarrow> Psg \<Rightarrow> Psg" where
  "silent_chunk at n sn s =
    s\<lparr>s_sn := sn, s_scratch := (\<lambda>k. if at \<le> k \<and> k < at + n then 0 else s_scratch s k),
      s_raw_scratch := (\<lambda>k. if at \<le> k \<and> k < at + n then 0 else s_raw_scratch s k)\<rparr>"

text \<open>The flag \<open>spans\<close> is the compile-time switch \<^verbatim>\<open>GENESIS_PSG_SILENT_SPANS\<close>.\<close>

fun emit_samples :: "bool \<Rightarrow> nat \<Rightarrow> Psg \<Rightarrow> Psg" where
  "emit_samples spans n s =
    (if n = 0 then s
     else let avail = PSG_SCRATCH_SAMPLES - s_scratch_write s
       in if avail = 0 then s
          else let chunk = min n avail; at = s_scratch_write s;
              s = (case (if spans then sn_silent_span chunk (s_sn s) else None) of
                     Some sn \<Rightarrow> silent_chunk at chunk sn s | None \<Rightarrow> render_chunk at chunk s);
              s = s\<lparr>s_scratch_write := s_scratch_write s + chunk\<rparr>
            in emit_samples spans (n - chunk) s)"

declare emit_samples.simps [simp del]

definition psg_advance :: "bool \<Rightarrow> u32 \<Rightarrow> Psg \<Rightarrow> Psg" where
  "psg_advance spans cycles s =
    (let s = psg_ready s
     in if cycles = 0 then s
        else let total = unat cycles + unat (s_leftover_master_cycles s)
          in emit_samples spans (total div PSG_SAMPLE_DIVISOR_MASTER)
               (s\<lparr>s_leftover_master_cycles := of_nat (total mod PSG_SAMPLE_DIVISOR_MASTER)\<rparr>))"

definition psg_write :: "u8 \<Rightarrow> Psg \<Rightarrow> Psg" where
  "psg_write v s = (let s = psg_ready s in s\<lparr>s_sn := sn_write v (s_sn s)\<rparr>)"

definition psg_samples_available :: "Psg \<Rightarrow> nat" where
  "psg_samples_available s = s_scratch_write s - s_scratch_read s"

text \<open>The two output buffers may be null; the result is what was copied out of each scratch.\<close>

definition psg_render_pair :: "bool \<Rightarrow> bool \<Rightarrow> nat \<Rightarrow> Psg \<Rightarrow> (int list \<times> int list) \<times> Psg" where
  "psg_render_pair filtered unfiltered count s =
    (if \<not> filtered \<and> \<not> unfiltered \<or> count = 0 then (([], []), s)
     else let copy = min count (s_scratch_write s - s_scratch_read s);
              take_from = (\<lambda>buf. map (\<lambda>i. buf (s_scratch_read s + i)) [0..<copy]);
              s' = s\<lparr>s_scratch_read := s_scratch_read s + copy\<rparr>;
              s' = (if s_scratch_write s' \<le> s_scratch_read s'
                    then s'\<lparr>s_scratch_read := 0, s_scratch_write := 0\<rparr> else s')
       in ((if filtered then take_from (s_scratch s) else [],
            if unfiltered then take_from (s_raw_scratch s) else []), s'))"

definition psg_render :: "nat \<Rightarrow> Psg \<Rightarrow> int list \<times> Psg" where
  "psg_render count s = (case psg_render_pair True False count s of ((f, _), s) \<Rightarrow> (f, s))"

definition GENESIS_MASTER_CLOCK_NTSC :: nat where "GENESIS_MASTER_CLOCK_NTSC = 53693175"

definition psg_sample_rate :: nat where
  "psg_sample_rate = GENESIS_MASTER_CLOCK_NTSC div PSG_SAMPLE_DIVISOR_MASTER"

definition psg_reset_leftover :: "Psg \<Rightarrow> Psg" where
  "psg_reset_leftover s = s\<lparr>s_leftover_master_cycles := 0\<rparr>"

end
