(* ===== verification/Audio_Psg_Props.thy ===== *)
theory Audio_Psg_Props
  imports Audio_Psg
begin

text \<open>
  Properties of the sound generator: the closed-form silent spans compute what rendering the samples
  one by one computes, the sample clock does not depend on how an interval is cut, every sample fits
  its type, and a tone period written in two bytes is the programmed period.
\<close>

section \<open>Counters\<close>

lemma sn_counter_span_Suc:
  assumes "1 \<le> period"
  shows "sn_counter_span c period (Suc n) =
    (case sn_counter_span c period n of (e, k) \<Rightarrow> if k - 1 \<le> 0 then (e + 1, int period) else (e, k - 1))"
proof -
  define f where "f = (if c > 0 then nat c else 1)"
  consider "Suc n < f" | "Suc n = f" | "f \<le> n" by linarith
  then show ?thesis
  proof cases
    case 3
    define r where "r = n - f"
    have n: "Suc n - f = Suc r" using 3 by (simp add: r_def)
    have "r mod period < period" using assms by (intro mod_less_divisor) simp
    then have "Suc (r mod period) = period \<or> 1 < int (period - r mod period)" by linarith
    then show ?thesis using 3
      by (auto simp: sn_counter_span_def Let_def f_def [symmetric] r_def [symmetric] n mod_Suc div_Suc)
  qed (auto simp: sn_counter_span_def Let_def f_def split: if_splits)
qed

lemma sn_counter_span_0: "sn_counter_span c period 0 = (0, c)"
  by (simp add: sn_counter_span_def Let_def)

lemma edges_le: "fst (sn_counter_span c period n) \<le> n"
proof -
  define f where "f = (if c > 0 then nat c else 1)"
  have "1 + (n - f) div period \<le> n" if "f \<le> n"
  proof -
    have "1 \<le> f" by (auto simp: f_def)
    moreover have "(n - f) div period \<le> n - f" by (rule div_le_dividend)
    ultimately show ?thesis using that by linarith
  qed
  then show ?thesis by (auto simp: sn_counter_span_def Let_def f_def [symmetric])
qed

lemma tone_span_0: "tone_span 0 i p = p"
  by (simp add: tone_span_def sn_counter_span_0 Let_def)

lemma tone_span_Suc: "tone_span (Suc n) i p = tone_tick i (tone_span n i p)"
proof -
  define t where "t = (if tone_period p i \<noteq> 0 then unat (tone_period p i) else 1)"
  have t: "1 \<le> t" "(if tone_period p i \<noteq> 0 then uint (tone_period p i) else 1) = int t"
    by (auto simp: t_def Suc_le_eq unat_gt_0)
  obtain e k where s: "sn_counter_span (tone_counter p i) t n = (e, k)" by fastforce
  have "(x XOR of_bool b) XOR 1 = x XOR of_bool (\<not> b)" for x :: u8 and b
    by (cases b) (simp_all add: xor.assoc)
  moreover have "tone_tick i q =
      (if tone_counter q i - 1 \<le> 0
       then q\<lparr>tone_counter := (tone_counter q)(i := int t), tone_out := (tone_out q)(i := tone_out q i XOR 1)\<rparr>
       else q\<lparr>tone_counter := (tone_counter q)(i := tone_counter q i - 1)\<rparr>)"
    if "tone_period q = tone_period p" for q
    unfolding tone_tick_def that Let_def using t(2) by simp
  ultimately show ?thesis using t(1) s
    by (simp add: tone_span_def t_def [symmetric] sn_counter_span_Suc Let_def)
qed

section \<open>The noise register\<close>

lemma bool_byte: "x \<le> 1 \<Longrightarrow> x = 0 \<or> x = 1" for x :: u8
  by (metis One_nat_def le_Suc_eq le_zero_eq unsigned_0 unsigned_1 word_le_nat_alt word_unat_eq_iff)

definition linear :: "(u16 \<Rightarrow> u16) \<Rightarrow> bool" where
  "linear L \<longleftrightarrow> L 0 = 0 \<and> (\<forall>a b. L (a XOR b) = L a XOR L b)"

lemma linear_white_step: "linear sn_white_step"
proof -
  have "sn_white_step (a XOR b) = sn_white_step a XOR sn_white_step b" for a b
  proof (rule bit_word_eqI)
    fix n assume "n < LENGTH(16)"
    then show "bit (sn_white_step (a XOR b)) n = bit (sn_white_step a XOR sn_white_step b) n"
      by (cases "n = 15") (auto simp: sn_white_step_def bit_simps dest: bit_imp_le_length)
  qed
  then show ?thesis by (simp add: linear_def sn_white_step_def)
qed

lemma linear_funpow: "linear L \<Longrightarrow> linear (L ^^ n)"
  by (induction n) (simp_all add: linear_def)

lemma linear_loop_sum:
  assumes "linear L"
  shows "linear_loop (\<lambda>i. L (push_bit i 1)) i bits out = out XOR L (push_bit i bits)"
proof (induction "\<lambda>i. L (push_bit i 1)" i bits out rule: linear_loop.induct)
  case (1 i bits out)
  have "push_bit i bits = push_bit (i + 1) (drop_bit 1 bits) XOR (if bit bits 0 then push_bit i 1 else 0)"
  proof (rule bit_word_eqI)
    fix n
    show "bit (push_bit i bits) n =
        bit (push_bit (i + 1) (drop_bit 1 bits) XOR (if bit bits 0 then push_bit i 1 else 0)) n"
    proof (cases "i < n")
      case True
      then have "1 + (n - (i + 1)) = n - i" by simp
      with True show ?thesis
        by (simp only: bit_push_bit_iff bit_xor_iff bit_drop_bit_eq comp_def if_distrib [where f = bit] if_distribR)
          (simp add: bit_push_bit_iff bit_1_iff)
    qed (auto simp: bit_simps simp del: push_bit_Suc)
  qed
  then have "L (push_bit i bits) = (if bit bits 0 then L (push_bit i 1) else 0) XOR L (push_bit (i + 1) (drop_bit 1 bits))"
    using assms by (auto simp: linear_def xor.commute)
  with 1 assms show ?case
    by (subst linear_loop.simps) (auto simp: linear_def xor.assoc)
qed

lemma white_powers_funpow: "white_powers p i = (sn_white_step ^^ (2 ^ p)) (push_bit i 1)"
proof (induction p arbitrary: i)
  case (Suc p)
  have "white_powers p = (\<lambda>i. (sn_white_step ^^ (2 ^ p)) (push_bit i 1))" using Suc by blast
  then show ?case
    using linear_loop_sum [OF linear_funpow [OF linear_white_step, of "2 ^ p"]]
    by (simp add: sn_linear_apply_def mult_2 funpow_add)
qed simp

lemma apply_table:
  "p < 13 \<Longrightarrow> sn_linear_apply (white_table ! p) b = (sn_white_step ^^ (2 ^ p)) b"
  using linear_loop_sum [OF linear_funpow [OF linear_white_step, of "2 ^ p"], of 0 b 0]
  by (simp add: white_table_def sn_linear_apply_def white_powers_funpow [abs_def])

lemma white_pow_loop_funpow:
  "steps < 2 ^ (13 - p) \<Longrightarrow> p \<le> 13 \<Longrightarrow> white_pow_loop p steps b = (sn_white_step ^^ (steps * 2 ^ p)) b"
proof (induction p steps b rule: white_pow_loop.induct)
  case (1 p steps b)
  show ?case
  proof (cases "steps = 0")
    case False
    then have p: "p < 13" using 1(2,3) by (cases "p = 13") auto
    have "13 - p = Suc (12 - p)" using p by simp
    with 1(2) have half: "steps div 2 < 2 ^ (13 - (p + 1))"
      by (simp add: less_mult_imp_div_less mult.commute)
    have steps: "steps * 2 ^ p = steps div 2 * 2 ^ (p + 1) + (if odd steps then 2 ^ p else 0)"
      by (cases "odd steps") (auto elim!: oddE evenE simp: algebra_simps)
    show ?thesis
      using 1(1) [OF False half] p False
      by (subst white_pow_loop.simps) (simp add: apply_table steps funpow_add del: power_Suc)
  qed (simp add: white_pow_loop.simps)
qed

lemma white_span_funpow: "steps < 8192 \<Longrightarrow> sn_white_span b steps = (sn_white_step ^^ steps) b"
  using white_pow_loop_funpow [of steps 0 b] by (simp add: sn_white_span_def)

lemma rotate_step: "drop_bit 1 l OR push_bit 15 (l AND 1) = word_rotr 1 l" for l :: u16
proof (rule bit_word_eqI)
  fix n assume "n < LENGTH(16)"
  then show "bit (drop_bit 1 l OR push_bit 15 (l AND 1)) n = bit (word_rotr 1 l) n"
    by (cases "n = 15") (auto simp: bit_simps bit_word_rotr_iff dest: bit_imp_le_length)
qed

lemma rotate_right_rotr: "r < 16 \<Longrightarrow> rotate_right r l = word_rotr r l"
proof (rule bit_word_eqI)
  fix n assume "r < 16" "n < LENGTH(16)"
  then show "bit (rotate_right r l) n = bit (word_rotr r l) n"
    by (cases "n + r < 16")
      (auto simp: rotate_right_def bit_simps bit_word_rotr_iff le_mod_geq add.commute [of r] dest: bit_imp_le_length)
qed

lemma rotr_0: "word_rotr 0 l = l" for l :: u16
  by (rule bit_word_eqI) (simp add: bit_word_rotr_iff)

lemma rotr_Suc: "word_rotr (Suc k) l = word_rotr 1 (word_rotr k l)" for l :: u16
  by (rule bit_word_eqI) (simp add: bit_word_rotr_iff mod_simps)

lemma rotate_mod: "rotate_right (k mod 16) l = word_rotr k l"
  by (simp add: rotate_right_rotr) (rule bit_word_eqI, simp add: bit_word_rotr_iff mod_simps)

lemma noise_reload_pos: "1 \<le> nat (sn_noise_reload p)" "int (nat (sn_noise_reload p)) = sn_noise_reload p"
proof -
  have "1 \<le> uint w" if "w \<noteq> 0" for w :: u16
  proof -
    have "0 < int (unat w)" using that by (simp only: of_nat_0_less_iff unat_gt_0) simp
    then show ?thesis by simp
  qed
  then have "1 \<le> sn_noise_reload p" by (auto simp: sn_noise_reload_def Let_def)
  then show "1 \<le> nat (sn_noise_reload p)" "int (nat (sn_noise_reload p)) = sn_noise_reload p" by auto
qed

text \<open>One clock of the noise shift register, for both feedback modes.\<close>

definition lfsr_step :: "bool \<Rightarrow> u16 \<Rightarrow> u16" where
  "lfsr_step white l = (if white then sn_white_step l else drop_bit 1 l OR push_bit 15 (l AND 1))"

lemma noise_reload_nonneg [simp]: "0 \<le> sn_noise_reload p"
  using noise_reload_pos [of p] by linarith

lemma noise_tick_alt:
  "noise_tick p =
    (if noise_counter p - 1 \<le> 0 then
       let p = p\<lparr>noise_counter := sn_noise_reload p, noise_ff := noise_ff p XOR 1\<rparr>
       in if noise_ff p \<noteq> 0 then
            let l = lfsr_step (bit (noise_ctrl p) 2) (lfsr p) in p\<lparr>lfsr := l, noise_out := ucast (l AND 1)\<rparr>
          else p
     else p\<lparr>noise_counter := noise_counter p - 1\<rparr>)"
  by (simp add: noise_tick_def lfsr_step_def sn_white_step_def Let_def)

lemma noise_span_alt:
  assumes "n \<le> 8192"
  shows "noise_span n p =
    (let (edges, c) = sn_counter_span (noise_counter p) (nat (sn_noise_reload p)) n;
         shifts = (edges + (if noise_ff p \<noteq> 0 then 0 else 1)) div 2;
         l = (lfsr_step (bit (noise_ctrl p) 2) ^^ shifts) (lfsr p)
     in p\<lparr>noise_counter := c, noise_ff := noise_ff p XOR of_bool (odd edges), lfsr := l,
          noise_out := if shifts = 0 then noise_out p else ucast (l AND 1)\<rparr>)"
proof -
  obtain e c where s: "sn_counter_span (noise_counter p) (nat (sn_noise_reload p)) n = (e, c)" by fastforce
  define sh where "sh = (e + (if noise_ff p \<noteq> 0 then 0 else 1)) div 2"
  have sh: "sh < 8192"
    using edges_le [of "noise_counter p" "nat (sn_noise_reload p)" n] s assms unfolding sh_def by auto
  have rot: "(word_rotr 1 ^^ k) l = word_rotr k l" for k and l :: u16
    by (induction k) (simp_all add: rotr_Suc rotr_0 del: One_nat_def)
  have step: "lfsr_step True = sn_white_step" "lfsr_step False = word_rotr 1"
    by (rule ext, simp only: lfsr_step_def if_True if_False rotate_step)+
  have "(if bit (noise_ctrl p) 2 then sn_white_span (lfsr p) sh else rotate_right (sh mod 16) (lfsr p))
      = (lfsr_step (bit (noise_ctrl p) 2) ^^ sh) (lfsr p)"
    by (cases "bit (noise_ctrl p) 2") (simp_all add: white_span_funpow [OF sh] rotate_mod rot step del: One_nat_def)
  then show ?thesis
    unfolding noise_span_def s Let_def split_conv sh_def [symmetric]
    by (cases "sh = 0"; cases "bit (noise_ctrl p) 2") simp_all
qed

lemma noise_span_Suc:
  assumes "Suc n \<le> 8192" "noise_ff p \<le> 1"
  shows "noise_span (Suc n) p = noise_tick (noise_span n p)"
proof -
  obtain e c where s: "sn_counter_span (noise_counter p) (nat (sn_noise_reload p)) n = (e, c)" by fastforce
  have ff: "noise_ff p = 0 \<or> noise_ff p = 1"
    by (rule bool_byte [OF assms(2)])
  have rl: "sn_noise_reload (p\<lparr>noise_counter := a, noise_ff := b, lfsr := l, noise_out := o'\<rparr>) = sn_noise_reload p"
    for a b l o' by (simp add: sn_noise_reload_def Let_def)
  have n: "n \<le> 8192" using assms(1) by simp
  obtain k where k: "e = 2 * k \<or> e = 2 * k + 1" by (metis evenE oddE)
  note alt = noise_span_alt [OF n, of p] noise_span_alt [OF assms(1), of p] noise_tick_alt
    sn_counter_span_Suc [OF noise_reload_pos(1)] noise_reload_pos(2)
  show ?thesis
  proof (cases "c - 1 \<le> 0")
    case True
    then have "c \<le> 1" by simp
    with k ff show ?thesis by (elim disjE) (simp_all add: alt s Let_def rl)
  qed (simp add: alt s Let_def)
qed

section \<open>A silent span is a run of silent samples\<close>

definition sn_step :: "SN76489 \<Rightarrow> SN76489" where
  "sn_step p = noise_tick (tone_tick 2 (tone_tick 1 (tone_tick 0 p)))"

definition silent_end :: "nat \<Rightarrow> SN76489 \<Rightarrow> SN76489" where
  "silent_end n p = noise_span n (tone_span n 2 (tone_span n 1 (tone_span n 0 p)))"

lemma tone_tick_span_commute:
  assumes "i \<noteq> j"
  shows "tone_tick i (tone_span n j p) = tone_span n j (tone_tick i p)"
proof -
  define t where "t = (if tone_period p j \<noteq> 0 then unat (tone_period p j) else 1)"
  obtain e c where s: "sn_counter_span (tone_counter p j) t n = (e, c)" by fastforce
  have span: "tone_span n j q = q\<lparr>tone_counter := (tone_counter q)(j := c),
      tone_out := (tone_out q)(j := tone_out q j XOR of_bool (odd e))\<rparr>"
    if "tone_counter q j = tone_counter p j" "tone_period q j = tone_period p j" for q
    unfolding tone_span_def that Let_def t_def [symmetric] s by simp
  show ?thesis using assms
    by (cases "tone_counter p i - 1 \<le> 0") (simp_all add: tone_tick_def span Let_def fun_upd_twist del: One_nat_def)
qed

lemma tone_tick_noise_commute: "tone_tick i (noise_span n p) = noise_span n (tone_tick i p)"
proof -
  have "sn_noise_reload (p\<lparr>tone_counter := a, tone_out := b\<rparr>) = sn_noise_reload p"
    "sn_noise_reload (p\<lparr>tone_counter := a\<rparr>) = sn_noise_reload p" for a b
    by (simp_all add: sn_noise_reload_def Let_def)
  then show ?thesis
    by (cases "sn_counter_span (noise_counter p) (nat (sn_noise_reload p)) n")
      (simp add: tone_tick_def noise_span_def Let_def)
qed

lemma tone_span_fields [simp]:
  "noise_ff (tone_span n i p) = noise_ff p" "noise_ff (tone_tick i p) = noise_ff p"
  by (simp_all add: tone_span_def tone_tick_def Let_def split_beta)

lemma silent_end_Suc:
  assumes "Suc n \<le> 8192" "noise_ff p \<le> 1"
  shows "silent_end (Suc n) p = sn_step (silent_end n p)"
proof -
  have "sn_step (silent_end n p)
      = noise_tick (noise_span n (tone_tick 2 (tone_span n 2 (tone_tick 1 (tone_span n 1 (tone_tick 0 (tone_span n 0 p)))))))"
    by (simp add: sn_step_def silent_end_def tone_tick_noise_commute tone_tick_span_commute)
  also have "\<dots> = silent_end (Suc n) p"
    using assms by (simp add: silent_end_def tone_span_Suc noise_span_Suc)
  finally show ?thesis by simp
qed

lemma silent_end_funpow: "n \<le> 8192 \<Longrightarrow> noise_ff p \<le> 1 \<Longrightarrow> silent_end n p = (sn_step ^^ n) p"
proof (induction n)
  case 0
  then show ?case
    by (simp add: silent_end_def tone_span_0 noise_span_alt sn_counter_span_0 Let_def)
next
  case (Suc n)
  then show ?case by (simp add: silent_end_Suc)
qed

lemma xor_1_le: "a \<le> 1 \<Longrightarrow> a XOR 1 \<le> 1" for a :: u8
  by (drule bool_byte) auto

lemma silent_tone_tick: "silent p \<Longrightarrow> silent (tone_tick i p)"
  by (auto simp: silent_def tone_tick_def Let_def xor_1_le)

lemma silent_noise_tick: "silent p \<Longrightarrow> silent (noise_tick p)"
proof -
  have "ucast (w AND 1 :: u16) \<le> (1 :: u8)" for w
    by (cases "even w") (simp_all add: and_one_eq mod_2_eq_odd)
  then show "silent p \<Longrightarrow> silent (noise_tick p)"
    unfolding noise_tick_alt Let_def by (simp add: silent_def xor_1_le)
qed

lemma silent_sn_step: "silent p \<Longrightarrow> silent (sn_step p)"
  by (simp add: sn_step_def silent_tone_tick silent_noise_tick)

lemma silent_sample: "silent p \<Longrightarrow> sn_render_sample p = ((0, 0), sn_step p)"
proof -
  assume "silent p"
  then have s: "silent (sn_step p)" by (rule silent_sn_step)
  have "level x 15 = 0" for x by (simp add: level_def SN_VOL_def)
  then show ?thesis using s
    unfolding sn_render_sample_def sn_step_def [symmetric] Let_def sn_lowpass_def
    by (simp add: silent_def s16_def signed_divide_int_def)
qed

lemma render_silent_chunk:
  "silent (s_sn s) \<Longrightarrow> render_chunk at n s = silent_chunk at n ((sn_step ^^ n) (s_sn s)) s"
proof (induction n arbitrary: at s)
  case (Suc n)
  then show ?case
    by (simp add: silent_sample silent_sn_step silent_chunk_def Let_def funpow_swap1 fun_eq_iff)
next
  case 0
  have "(\<lambda>k. if at \<le> k \<and> k < at then 0 else f k) = f" for f :: "nat \<Rightarrow> int" by auto
  then show ?case by (simp add: silent_chunk_def)
qed

lemma emit_spans: "emit_samples True n s = emit_samples False n s"
proof (induction n arbitrary: s rule: less_induct)
  case (less n)
  define c where "c = min n (PSG_SCRATCH_SAMPLES - s_scratch_write s)"
  have chunk: "(case sn_silent_span c (s_sn s) of
      Some sn \<Rightarrow> silent_chunk at c sn s | None \<Rightarrow> render_chunk at c s) = render_chunk at c s" for at
  proof (cases "silent (s_sn s)")
    case True
    have "c \<le> 8192" by (simp add: c_def PSG_SCRATCH_SAMPLES_def)
    moreover have "noise_ff (s_sn s) \<le> 1" using True by (simp add: silent_def)
    ultimately have "silent_end c (s_sn s) = (sn_step ^^ c) (s_sn s)" by (rule silent_end_funpow)
    with True show ?thesis by (simp add: sn_silent_span_def silent_end_def render_silent_chunk)
  qed (simp add: sn_silent_span_def)
  show ?case
  proof (cases "n = 0 \<or> PSG_SCRATCH_SAMPLES - s_scratch_write s = 0")
    case False
    then have "n - c < n" by (simp add: c_def)
    with less False show ?thesis
      by (subst (1 2) emit_samples.simps) (simp add: Let_def c_def [symmetric] chunk)
  qed (auto simp: emit_samples.simps)
qed

text \<open>
  C17: the closed-form advance over silence is exact. Whatever the state of the chip and of the
  scratch buffers, advancing the sound generator with silent spans enabled leaves the same counters,
  noise register, filter, samples and clock remainder as rendering every sample.
\<close>

theorem psg_silent_spans_exact: "psg_advance True cycles s = psg_advance False cycles s"
  by (simp add: psg_advance_def emit_spans Let_def)

section \<open>The sample clock\<close>

lemma render_chunk_fields [simp]:
  "s_scratch_write (render_chunk at n s) = s_scratch_write s"
  "s_scratch_read (render_chunk at n s) = s_scratch_read s"
  "s_leftover_master_cycles (render_chunk at n s) = s_leftover_master_cycles s"
  "s_inited (render_chunk at n s) = s_inited s"
  by (induction n arbitrary: at s) (simp_all add: Let_def split_beta)

lemma render_chunk_add:
  "render_chunk at (m + n) s = render_chunk (at + m) n (render_chunk at m s)"
  by (induction m arbitrary: at s) (simp_all add: Let_def split_beta)

lemma render_chunk_write:
  "render_chunk at n (s\<lparr>s_scratch_write := w\<rparr>) = (render_chunk at n s)\<lparr>s_scratch_write := w\<rparr>"
proof (induction n arbitrary: at s)
  case (Suc n)
  show ?case by (cases s) (simp add: Let_def split_beta flip: Suc.IH)
qed simp

lemma render_chunk_leftover:
  "render_chunk at n (s\<lparr>s_leftover_master_cycles := l\<rparr>) = (render_chunk at n s)\<lparr>s_leftover_master_cycles := l\<rparr>"
proof (induction n arbitrary: at s)
  case (Suc n)
  show ?case by (cases s) (simp add: Let_def split_beta flip: Suc.IH)
qed simp

lemmas render_chunk_update = render_chunk_write render_chunk_leftover

text \<open>A request for \<open>n\<close> samples renders as many of them as fit into the scratch.\<close>

lemma emit_samples_once:
  "emit_samples False n s =
    (let c = min n (PSG_SCRATCH_SAMPLES - s_scratch_write s)
     in (render_chunk (s_scratch_write s) c s)\<lparr>s_scratch_write := s_scratch_write s + c\<rparr>)"
proof -
  define c where "c = min n (PSG_SCRATCH_SAMPLES - s_scratch_write s)"
  let ?s = "(render_chunk (s_scratch_write s) c s)\<lparr>s_scratch_write := s_scratch_write s + c\<rparr>"
  have rest: "emit_samples False (n - c) ?s = ?s"
  proof (cases "n - c = 0")
    case False
    then have "PSG_SCRATCH_SAMPLES - (s_scratch_write s + c) = 0" by (auto simp: c_def min_def split: if_splits)
    then show ?thesis by (subst emit_samples.simps) simp
  qed (simp add: emit_samples.simps)
  show ?thesis
  proof (cases "n = 0 \<or> PSG_SCRATCH_SAMPLES - s_scratch_write s = 0")
    case True
    then have "c = 0" by (auto simp: c_def)
    with True show ?thesis by (subst emit_samples.simps) (auto simp: Let_def)
  next
    case False
    with rest show ?thesis by (subst emit_samples.simps) (simp add: Let_def c_def [symmetric])
  qed
qed

lemma emit_samples_add: "emit_samples False n (emit_samples False m s) = emit_samples False (m + n) s"
proof -
  define a where "a = PSG_SCRATCH_SAMPLES - s_scratch_write s"
  have "min m a + min n (PSG_SCRATCH_SAMPLES - (s_scratch_write s + min m a)) = min (m + n) a"
    by (auto simp: a_def min_def)
  then show ?thesis
    by (simp add: emit_samples_once Let_def a_def [symmetric] render_chunk_update render_chunk_add [symmetric])
qed

lemma emit_samples_leftover:
  "emit_samples False n (s\<lparr>s_leftover_master_cycles := l\<rparr>) = (emit_samples False n s)\<lparr>s_leftover_master_cycles := l\<rparr>"
  by (simp add: emit_samples_once Let_def render_chunk_update)

lemma emit_samples_inited [simp]:
  "s_inited (emit_samples False n s) = s_inited s"
  "s_leftover_master_cycles (emit_samples False n s) = s_leftover_master_cycles s"
  by (simp_all add: emit_samples_once Let_def)

lemma psg_advance_alt:
  "psg_advance False cycles s =
    (if cycles = 0 then psg_ready s
     else (emit_samples False ((unat cycles + unat (s_leftover_master_cycles (psg_ready s))) div 240) (psg_ready s))
       \<lparr>s_leftover_master_cycles := of_nat ((unat cycles + unat (s_leftover_master_cycles (psg_ready s))) mod 240)\<rparr>)"
  by (simp add: psg_advance_def Let_def emit_samples_leftover PSG_SAMPLE_DIVISOR_MASTER_def)

lemma psg_ready_idem [simp]: "psg_ready (psg_ready s) = psg_ready s"
  by (simp add: psg_ready_def psg_init_def)

lemma psg_advance_add:
  assumes "s_inited s" "a \<noteq> 0" "b \<noteq> 0" "unat a + unat b < 2 ^ 32"
  shows "psg_advance False b (psg_advance False a s) = psg_advance False (a + b) s"
proof -
  define l where "l = unat (s_leftover_master_cycles s)"
  have sum: "unat (a + b) = unat a + unat b" using assms(4) by (intro unat_add_lem [THEN iffD1]) simp
  then have "a + b \<noteq> 0" using assms(2) by (metis add_is_0 unat_eq_zero)
  moreover have "unat (of_nat ((unat a + l) mod 240) :: u32) = (unat a + l) mod 240"
    by (simp add: unat_of_nat take_bit_nat_eq_self_iff)
  moreover have "(unat a + l) div 240 + (unat b + (unat a + l) mod 240) div 240 = (unat a + unat b + l) div 240"
  proof -
    have eq: "unat a + unat b + l = unat b + (unat a + l) mod 240 + 240 * ((unat a + l) div 240)"
      using mod_mult_div_eq [of "unat a + l" 240] by linarith
    show ?thesis unfolding eq by (rule div_mult_self2 [symmetric]) simp
  qed
  moreover have "(unat b + (unat a + l) mod 240) mod 240 = (unat a + unat b + l) mod 240"
    by (simp add: mod_simps ac_simps)
  ultimately show ?thesis
    using assms by (simp add: psg_advance_alt psg_ready_def l_def [symmetric] emit_samples_leftover
        emit_samples_add sum)
qed

text \<open>
  The sample clock does not depend on where an interval is cut. As long as the sum of the two
  intervals is a 32-bit value, advancing by one and then by the other leaves the same state as
  advancing by their sum, with or without silent spans; so the position of register writes in a
  frame never changes how many samples the frame has or what an unwritten chip plays.
\<close>

theorem psg_advance_additive:
  assumes "unat a + unat b < 2 ^ 32"
  shows "psg_advance sp b (psg_advance sp' a s) = psg_advance True (a + b) s"
proof -
  have eq: "psg_advance sp c t = psg_advance False c t" for sp c t
    by (cases sp) (simp_all add: psg_advance_def emit_spans Let_def)
  have ready: "psg_advance False c s = psg_advance False c (psg_ready s)" for c
    by (simp add: psg_advance_alt)
  have init: "s_inited (psg_ready s)" by (simp add: psg_ready_def psg_init_def)
  then have stay: "psg_ready (psg_advance False c (psg_ready s)) = psg_advance False c (psg_ready s)" for c
    by (simp add: psg_advance_alt) (simp add: psg_ready_def)
  have "psg_advance False b (psg_advance False a (psg_ready s)) = psg_advance False (a + b) (psg_ready s)"
  proof (cases "a = 0 \<or> b = 0")
    case True
    have zero: "psg_advance False 0 t = psg_ready t" for t by (simp add: psg_advance_alt)
    from True show ?thesis using stay [of a] by (auto simp: zero)
  qed (use psg_advance_add [OF init, of a b] assms in simp)
  then show ?thesis by (metis eq ready)
qed

theorem psg_advance_additive_witness:
  "\<forall>s. psg_advance True 500 (psg_advance False 300 s) = psg_advance True 800 s"
  using psg_advance_additive [of 300 500 True False] by simp

section \<open>Sample range\<close>

definition sn_ok :: "SN76489 \<Rightarrow> bool" where
  "sn_ok p \<longleftrightarrow> (\<forall>i < 4. vol p i \<le> 15) \<and> \<bar>lpf_y p\<bar> \<le> 32764 \<and> \<bar>lpf_prev p\<bar> \<le> 32764"

lemma level_bound: "v \<le> 15 \<Longrightarrow> \<bar>level out v\<bar> \<le> 8191"
proof -
  assume "v \<le> 15"
  then have "unat v < length SN_VOL" by (simp add: word_le_nat_alt SN_VOL_def)
  moreover have "\<forall>x \<in> set SN_VOL. \<bar>x\<bar> \<le> 8191" by (simp add: SN_VOL_def)
  ultimately have "\<bar>SN_VOL ! unat v\<bar> \<le> 8191" by (simp only: nth_mem)
  then show ?thesis by (simp add: level_def)
qed

lemma s16_small: "\<bar>x\<bar> \<le> 32764 \<Longrightarrow> s16 x = x"
  by (simp add: s16_def signed_take_bit_int_eq_self)

lemma lowpass_bound:
  assumes "\<bar>m\<bar> \<le> 32764" "\<bar>q\<bar> \<le> 32764" "\<bar>y\<bar> \<le> 32764"
  shows "\<bar>((m + q) * SN_LPF_SAMPLE_MAGIC + y * SN_LPF_OUTPUT_MAGIC) sdiv 65536\<bar> \<le> 32764"
proof -
  have b: "m \<le> 32764" "- 32764 \<le> m" "q \<le> 32764" "- 32764 \<le> q" "y \<le> 32764" "- 32764 \<le> y"
    using assms by auto
  let ?t = "(m + q) * SN_LPF_SAMPLE_MAGIC + y * SN_LPF_OUTPUT_MAGIC"
  have "\<bar>?t\<bar> \<le> 65528 * 2517 + 32764 * 60504"
  proof (rule abs_leI)
    have "(m + q) * 2517 \<le> 65528 * 2517" "- (65528 * 2517) \<le> (m + q) * 2517"
      "y * 60504 \<le> 32764 * 60504" "- (32764 * 60504) \<le> y * 60504"
      using b by simp_all
    then show "?t \<le> 65528 * 2517 + 32764 * 60504" "- ?t \<le> 65528 * 2517 + 32764 * 60504"
      unfolding SN_LPF_SAMPLE_MAGIC_def SN_LPF_OUTPUT_MAGIC_def by simp_all
  qed
  then have "\<bar>?t\<bar> div 65536 \<le> 32764" by linarith
  moreover have "0 \<le> \<bar>?t\<bar> div 65536" by simp
  moreover have "\<bar>?t sdiv 65536\<bar> \<le> \<bar>?t\<bar> div 65536"
    by (auto simp: signed_divide_int_def abs_mult sgn_if)
  ultimately show ?thesis by linarith
qed

definition sn_mix :: "SN76489 \<Rightarrow> int" where
  "sn_mix p = level (tone_out p 0) (vol p 0) + level (tone_out p 1) (vol p 1)
     + level (tone_out p 2) (vol p 2) + level (noise_out p) (vol p 3)"

lemma tick_fields [simp]:
  "vol (tone_tick i p) = vol p" "lpf_y (tone_tick i p) = lpf_y p" "lpf_prev (tone_tick i p) = lpf_prev p"
  "vol (noise_tick p) = vol p" "lpf_y (noise_tick p) = lpf_y p" "lpf_prev (noise_tick p) = lpf_prev p"
  by (simp_all add: tone_tick_def noise_tick_alt Let_def)

lemma sn_step_ok: "sn_ok p \<Longrightarrow> sn_ok (sn_step p)"
  by (simp add: sn_step_def sn_ok_def)

lemma mix_bound: "sn_ok p \<Longrightarrow> \<bar>sn_mix p\<bar> \<le> 32764"
  using level_bound [of "vol p 0" "tone_out p 0"] level_bound [of "vol p 1" "tone_out p 1"]
    level_bound [of "vol p 2" "tone_out p 2"] level_bound [of "vol p 3" "noise_out p"]
  by (simp add: sn_ok_def sn_mix_def)

lemma nibble_le: "b AND 0xF \<le> 15" for b :: u8
  using word_and_le1 [of b "0xF"] by simp

text \<open>
  C18: no sample of the sound generator overflows. From the reset state on, every register write and
  every rendered sample keeps the attenuations in four bits and the filter memory within 32764; in
  such a state the unfiltered sample is the exact sum of the four channels, the filtered sample is
  the exact filter value, neither 16-bit conversion wraps and the limiter never acts.
\<close>

theorem psg_samples_in_range:
  "sn_ok sn_reset \<and> (\<forall>p b. sn_ok p \<longrightarrow> sn_ok (sn_write b p)) \<and>
   (\<forall>p. sn_ok p \<longrightarrow> (let p1 = sn_step p; ((f, r), p2) = sn_render_sample p in
      sn_ok p2 \<and> \<bar>r\<bar> \<le> 32764 \<and> r = sn_mix p1 \<and> \<bar>f\<bar> \<le> 32764
      \<and> f = ((sn_mix p1 + lpf_prev p) * SN_LPF_SAMPLE_MAGIC + lpf_y p * SN_LPF_OUTPUT_MAGIC) sdiv 65536))"
proof (intro conjI allI impI)
  show "sn_ok sn_reset" by (simp add: sn_ok_def sn_reset_def)
  show "sn_ok (sn_write b p)" if "sn_ok p" for p b
    using that nibble_le [of b] by (simp add: sn_ok_def sn_write_def Let_def)
next
  fix p assume ok: "sn_ok p"
  let ?p = "sn_step p"
  have keep: "lpf_prev ?p = lpf_prev p" "lpf_y ?p = lpf_y p"
    by (simp_all add: sn_step_def)
  have m: "\<bar>sn_mix ?p\<bar> \<le> 32764" by (rule mix_bound [OF sn_step_ok [OF ok]])
  define f where "f = ((sn_mix ?p + lpf_prev p) * SN_LPF_SAMPLE_MAGIC + lpf_y p * SN_LPF_OUTPUT_MAGIC) sdiv 65536"
  have f: "\<bar>f\<bar> \<le> 32764" unfolding f_def using ok by (intro lowpass_bound m) (simp_all add: sn_ok_def)
  then have clamp: "max (- 32768) (min 32767 f) = f" by linarith
  have "sn_render_sample p = ((f, sn_mix ?p), ?p\<lparr>lpf_prev := sn_mix ?p, lpf_y := f\<rparr>)"
    unfolding sn_render_sample_def sn_step_def [symmetric] Let_def sn_mix_def [symmetric] sn_lowpass_def
    by (simp add: keep f_def [symmetric] clamp s16_small m f)
  then show "let p1 = ?p; ((f, r), p2) = sn_render_sample p in
      sn_ok p2 \<and> \<bar>r\<bar> \<le> 32764 \<and> r = sn_mix p1 \<and> \<bar>f\<bar> \<le> 32764
      \<and> f = ((sn_mix p1 + lpf_prev p) * SN_LPF_SAMPLE_MAGIC + lpf_y p * SN_LPF_OUTPUT_MAGIC) sdiv 65536"
    using m f sn_step_ok [OF ok] by (simp add: sn_ok_def f_def)
qed

theorem psg_samples_in_range_witness:
  "fst (fst (sn_render_sample sn_reset)) =
     ((sn_mix (sn_step sn_reset) + lpf_prev sn_reset) * SN_LPF_SAMPLE_MAGIC + lpf_y sn_reset * SN_LPF_OUTPUT_MAGIC) sdiv 65536"
  using psg_samples_in_range by (auto simp: Let_def split_beta)

section \<open>Register protocol\<close>

text \<open>The two bytes that program a ten-bit tone period.\<close>

definition tone_latch :: "nat \<Rightarrow> u16 \<Rightarrow> u8" where
  "tone_latch chan d = 0x80 OR push_bit 5 (of_nat chan) OR (ucast d AND 0xF)"

definition tone_data :: "u16 \<Rightarrow> u8" where
  "tone_data d = ucast (drop_bit 4 d) AND 0x3F"

lemma psg_masks: "(0xF :: u8) = mask 4" "(0x3F :: u8) = mask 6" "(7 :: u8) = mask 3" "(3 :: u8) = mask 2"
  "(0x80 :: u8) = push_bit 7 1" "(0x3F0 :: u16) = push_bit 4 (mask 6)" "(0xF :: u16) = mask 4"
  by (simp_all add: mask_eq_exp_minus_1 push_bit_eq_mult)

lemma chan_bits:
  assumes "chan < (3 :: nat)"
  shows "bit chan n \<longleftrightarrow> n = 0 \<and> chan = 1 \<or> n = 1 \<and> chan = 2"
proof -
  consider "chan = 0" | "chan = 1" | "chan = 2" using assms by linarith
  then show ?thesis by cases (auto simp: bit_1_iff bit_2_iff simp del: One_nat_def)
qed

lemma tone_latch_fields:
  assumes "chan < 3"
  shows "bit (tone_latch chan d) 7" "\<not> bit (tone_latch chan d) 4"
    "drop_bit 5 (tone_latch chan d) AND 3 = of_nat chan"
    "drop_bit 1 (drop_bit 4 (tone_latch chan d) AND 7) AND 3 = of_nat chan"
    "\<not> bit (drop_bit 4 (tone_latch chan d) AND 7) 0"
    "tone_latch chan d AND 0xF = ucast d AND 0xF"
    "of_nat chan AND 3 = (of_nat chan :: u8)"
proof -
  note c = chan_bits [OF assms]
  have four: "\<not> bit (4 :: u8) n" "\<not> bit (4 :: int) n" "\<not> bit (4 :: nat) n" if "n < 2" for n
    using that by (auto simp: less_2_cases_iff)
  have seven: "\<not> bit (0x80 :: u8) n" "\<not> bit (0x80 :: int) n" if "n < 4" for n
    using that by (auto simp: numeral_eq_Suc less_Suc_eq)
  show "bit (tone_latch chan d) 7" "\<not> bit (tone_latch chan d) 4"
    "\<not> bit (drop_bit 4 (tone_latch chan d) AND 7) 0"
    unfolding tone_latch_def psg_masks by (auto simp: bit_simps c)
  show "drop_bit 5 (tone_latch chan d) AND 3 = of_nat chan"
    "drop_bit 1 (drop_bit 4 (tone_latch chan d) AND 7) AND 3 = of_nat chan"
    "tone_latch chan d AND 0xF = ucast d AND 0xF"
    "of_nat chan AND 3 = (of_nat chan :: u8)"
    unfolding tone_latch_def psg_masks
    by (rule bit_word_eqI; auto simp: bit_simps c four seven)+
qed

text \<open>
  The two-byte tone write. For each tone channel and each ten-bit period, the latch byte
  followed by the data byte sets exactly the period of that channel, whatever was latched before,
  and leaves the other channels, the attenuations and the noise generator alone.
\<close>

theorem tone_write_programs_period:
  assumes "chan < 3" "d < 1024"
  shows "let p' = sn_write (tone_data d) (sn_write (tone_latch chan d) p) in
    tone_period p' = (tone_period p)(chan := d) \<and> vol p' = vol p \<and> noise_ctrl p' = noise_ctrl p
    \<and> lfsr p' = lfsr p \<and> tone_counter p' = tone_counter p \<and> tone_out p' = tone_out p"
proof -
  have "d AND mask 10 = d" using assms(2) by (intro less_mask_eq) simp
  then have d: "bit d n \<Longrightarrow> n < 10" for n by (metis bit_and_iff bit_mask_iff)
  have c: "unat (of_nat chan :: u8) = chan" using assms(1) by (simp add: unat_of_nat take_bit_nat_eq_self_iff)
  have merge: "(((x AND 0x3F0) OR ucast (ucast d AND 0xF :: u8)) AND 0xF) OR push_bit 4 (ucast (tone_data d AND 0x3F)) = d"
    for x :: u16
  proof (rule bit_word_eqI)
    fix n assume "n < LENGTH(16)"
    then show "bit ((((x AND 0x3F0) OR ucast (ucast d AND 0xF :: u8)) AND 0xF) OR
        push_bit 4 (ucast (tone_data d AND 0x3F))) n = bit d n"
      unfolding tone_data_def psg_masks by (cases "n < 4") (auto simp: bit_simps dest: d)
  qed
  have "\<not> bit (tone_data d) 7" unfolding tone_data_def psg_masks by (simp add: bit_simps)
  then show ?thesis
    using assms(1) by (simp add: sn_write_def tone_latch_fields [OF assms(1)] Let_def c merge)
qed

theorem tone_write_programs_period_witness:
  "tone_period (sn_write (tone_data 0x1AC) (sn_write (tone_latch 1 0x1AC) sn_reset)) 1 = 0x1AC"
  using tone_write_programs_period [of 1 "0x1AC" sn_reset] by (simp add: Let_def)

end
