(* ===== verification/Audio_Queue.thy ===== *)
theory Audio_Queue
  imports Prelude
begin

text \<open>
  The cycle-stamped audio event queue of \<^verbatim>\<open>runner/audio/event_queue.c\<close>: the ring between the
  processors that write the sound chips and the mixer that drains it once per frame, with its two
  snapshot formats. The abstract view of the ring is the list of its pending events; the locale
  \<open>bounded_fifo\<close> states what the queue promises to its clients, and the ring is an interpretation
  of it. Indices are \<^verbatim>\<open>size_t\<close> values below the capacity, so natural numbers are exact for them.
  The write-stream dump and the chip trace of the C function are diagnostics that are compiled out
  or off unless an environment variable asks for them; the two stamp globals they use are kept.
\<close>

record AudioEvent =
  cycle_stamp :: u32
  port :: u8
  ev_value :: u8

definition AUDIO_PORT_PSG :: u8 where "AUDIO_PORT_PSG = 4"

definition QUEUE_CAP :: nat where "QUEUE_CAP = 262144"

record AudioQueue =
  s_ring :: "nat \<Rightarrow> AudioEvent"
  s_head :: nat
  s_tail :: nat
  s_overflow_count :: u64
  g_snd_line :: u32
  g_snd_mc :: u64

section \<open>Operations\<close>

definition audio_event_queue_count :: "AudioQueue \<Rightarrow> nat" where
  "audio_event_queue_count q =
    (if s_tail q \<le> s_head q then s_head q - s_tail q else QUEUE_CAP - s_tail q + s_head q)"

text \<open>The ring insertion shared by \<^verbatim>\<open>audio_event_push\<close> and \<^verbatim>\<open>audio_event_requeue\<close>.\<close>

definition ring_put :: "AudioEvent \<Rightarrow> AudioQueue \<Rightarrow> AudioQueue" where
  "ring_put e q =
    q\<lparr>s_ring := (s_ring q)(s_head q := e), s_head := (s_head q + 1) mod QUEUE_CAP\<rparr>"

definition ring_full :: "AudioQueue \<Rightarrow> bool" where
  "ring_full q \<longleftrightarrow> (s_head q + 1) mod QUEUE_CAP = s_tail q"

definition audio_event_push :: "u32 \<Rightarrow> u8 \<Rightarrow> u8 \<Rightarrow> AudioQueue \<Rightarrow> AudioQueue" where
  "audio_event_push stamp p v q =
    (let q = q\<lparr>g_snd_line := stamp div 3420, g_snd_mc := ucast stamp\<rparr>
     in if ring_full q then q\<lparr>s_overflow_count := s_overflow_count q + 1\<rparr>
        else ring_put \<lparr>cycle_stamp = stamp, port = p, ev_value = v\<rparr> q)"

definition audio_event_pop :: "AudioQueue \<Rightarrow> (AudioEvent \<times> AudioQueue) option" where
  "audio_event_pop q =
    (if s_tail q = s_head q then None
     else Some (s_ring q (s_tail q), q\<lparr>s_tail := (s_tail q + 1) mod QUEUE_CAP\<rparr>))"

definition audio_event_queue_reset :: "AudioQueue \<Rightarrow> AudioQueue" where
  "audio_event_queue_reset q = q\<lparr>s_head := 0, s_tail := 0\<rparr>"

fun audio_event_requeue :: "AudioEvent list \<Rightarrow> AudioQueue \<Rightarrow> AudioQueue" where
  "audio_event_requeue [] q = q"
| "audio_event_requeue (e # es) q =
    (if ring_full q then q\<lparr>s_overflow_count := s_overflow_count q + 1\<rparr>
     else audio_event_requeue es (ring_put e q))"

section \<open>Snapshots\<close>

text \<open>
  The images are the bytes of the C objects on the little-endian hosts the runtime supports: a
  32-bit count and eight bytes per event, the last two of which are padding the language leaves
  indeterminate (the argument \<open>pad\<close>).
\<close>

definition le32 :: "u32 \<Rightarrow> u8 list" where
  "le32 w = [ucast w, ucast (drop_bit 8 w), ucast (drop_bit 16 w), ucast (drop_bit 24 w)]"

definition of_le32 :: "u8 list \<Rightarrow> u32" where
  "of_le32 bs = ucast (bs ! 0) OR push_bit 8 (ucast (bs ! 1)) OR push_bit 16 (ucast (bs ! 2))
     OR push_bit 24 (ucast (bs ! 3))"

definition event_bytes :: "u8 \<times> u8 \<Rightarrow> AudioEvent \<Rightarrow> u8 list" where
  "event_bytes pd e = le32 (cycle_stamp e) @ [port e, ev_value e, fst pd, snd pd]"

definition event_of :: "u8 list \<Rightarrow> AudioEvent" where
  "event_of bs = \<lparr>cycle_stamp = of_le32 bs, port = bs ! 4, ev_value = bs ! 5\<rparr>"

definition event_at :: "u8 list \<Rightarrow> nat \<Rightarrow> AudioEvent" where
  "event_at bs i = event_of (drop (4 + i * 8) bs)"

definition queue_image :: "(nat \<Rightarrow> u8 \<times> u8) \<Rightarrow> AudioQueue \<Rightarrow> u8 list" where
  "queue_image pad q = le32 (of_nat (audio_event_queue_count q))
    @ concat (map (\<lambda>i. event_bytes (pad i) (s_ring q ((s_tail q + i) mod QUEUE_CAP)))
        [0..<audio_event_queue_count q])"

text \<open>\<open>None\<close> is the null destination, which only asks for the size.\<close>

definition audio_event_rb_save ::
  "(nat \<Rightarrow> u8 \<times> u8) \<Rightarrow> nat option \<Rightarrow> AudioQueue \<Rightarrow> nat \<times> u8 list" where
  "audio_event_rb_save pad dst q =
    (let need = 4 + audio_event_queue_count q * 8
     in case dst of None \<Rightarrow> (need, [])
        | Some cap \<Rightarrow> if cap < need then (0, []) else (need, queue_image pad q))"

definition image_valid :: "u8 list \<Rightarrow> nat \<Rightarrow> bool" where
  "image_valid bs n \<longleftrightarrow> n < QUEUE_CAP \<and> (\<forall>i \<in> set [0..<n]. port (event_at bs i) \<le> AUDIO_PORT_PSG)"

definition image_apply :: "u8 list \<Rightarrow> nat \<Rightarrow> AudioQueue \<Rightarrow> AudioQueue" where
  "image_apply bs n q =
    q\<lparr>s_ring := (\<lambda>i. if i < n then event_at bs i else s_ring q i), s_tail := 0, s_head := n\<rparr>"

definition audio_event_rb_load :: "u8 list option \<Rightarrow> AudioQueue \<Rightarrow> bool \<times> AudioQueue" where
  "audio_event_rb_load src q = (case src of None \<Rightarrow> (False, q)
    | Some bs \<Rightarrow>
        if length bs < 4 then (False, q)
        else let n = unat (of_le32 bs)
          in if n \<ge> QUEUE_CAP \<or> length bs \<noteq> 4 + n * 8 then (False, q)
             else if \<not> image_valid bs n then (False, q)
             else (True, image_apply bs n q))"

definition audio_event_state_size :: nat where
  "audio_event_state_size = 4 + QUEUE_CAP * 8"

text \<open>The fixed-size image: the bytes past the queued events are cleared first.\<close>

definition audio_event_state_save ::
  "(nat \<Rightarrow> u8 \<times> u8) \<Rightarrow> nat option \<Rightarrow> AudioQueue \<Rightarrow> u8 list option" where
  "audio_event_state_save pad dst q = (case dst of None \<Rightarrow> None
    | Some sz \<Rightarrow> if sz \<noteq> audio_event_state_size then None
        else Some (queue_image pad q @ replicate (sz - length (queue_image pad q)) 0))"

definition audio_event_state_load :: "u8 list option \<Rightarrow> bool \<Rightarrow> AudioQueue \<Rightarrow> bool \<times> AudioQueue" where
  "audio_event_state_load src apply_it q = (case src of None \<Rightarrow> (False, q)
    | Some bs \<Rightarrow>
        if length bs \<noteq> audio_event_state_size then (False, q)
        else let n = unat (of_le32 bs)
          in if \<not> image_valid bs n then (False, q)
             else (True, if apply_it then image_apply bs n q else q))"

section \<open>The contract of a bounded queue\<close>

locale bounded_fifo =
  fixes contents :: "'q \<Rightarrow> 'e list"
    and ok :: "'q \<Rightarrow> bool"
    and room :: nat
    and push :: "'e \<Rightarrow> 'q \<Rightarrow> 'q"
    and pop :: "'q \<Rightarrow> ('e \<times> 'q) option"
  assumes push_ok: "ok q \<Longrightarrow> ok (push e q)"
    and push_contents: "ok q \<Longrightarrow>
      contents (push e q) = (if length (contents q) < room then contents q @ [e] else contents q)"
    and pop_empty: "ok q \<Longrightarrow> pop q = None \<longleftrightarrow> contents q = []"
    and pop_first: "ok q \<Longrightarrow> pop q = Some (e, q') \<Longrightarrow> ok q' \<and> contents q = e # contents q'"
begin

lemma push_all:
  "ok q \<Longrightarrow> ok (fold push es q) \<and>
   contents (fold push es q) = contents q @ take (room - length (contents q)) es"
proof (induction es arbitrary: q)
  case (Cons e es)
  from Cons.IH [of "push e q"] Cons.prems show ?case
    by (cases "length (contents q) < room") (auto simp: push_ok push_contents take_Cons' Suc_diff_Suc)
qed simp

end

text \<open>The drain loop of a client: at most \<open>k\<close> events, in order.\<close>

fun drain :: "('q \<Rightarrow> ('e \<times> 'q) option) \<Rightarrow> nat \<Rightarrow> 'q \<Rightarrow> 'e list \<times> 'q" where
  "drain pop 0 q = ([], q)"
| "drain pop (Suc k) q =
    (case pop q of None \<Rightarrow> ([], q)
     | Some (e, q) \<Rightarrow> (let (es, q) = drain pop k q in (e # es, q)))"

context bounded_fifo
begin

lemma drain_contents:
  "ok q \<Longrightarrow> fst (drain pop k q) = take k (contents q)
    \<and> contents (snd (drain pop k q)) = drop k (contents q) \<and> ok (snd (drain pop k q))"
proof (induction k arbitrary: q)
  case (Suc k)
  show ?case
  proof (cases "pop q")
    case None
    with Suc.prems have "contents q = []" by (simp add: pop_empty)
    with None Suc.prems show ?thesis by simp
  next
    case (Some p)
    obtain e q' where p: "p = (e, q')" by (cases p)
    with Some Suc.prems have "ok q'" "contents q = e # contents q'" using pop_first by auto
    with Suc.IH [of q'] Some p show ?thesis by (simp add: Let_def split_beta)
  qed
qed simp

lemma fill_and_drain:
  "ok q \<Longrightarrow> contents q = [] \<Longrightarrow> length es \<le> room \<Longrightarrow> length es \<le> k \<Longrightarrow>
   fst (drain pop k (fold push es q)) = es"
  using push_all [of q es] drain_contents [of "fold push es q" k] by simp

end

section \<open>The ring is a bounded queue\<close>

definition queue_ok :: "AudioQueue \<Rightarrow> bool" where
  "queue_ok q \<longleftrightarrow> s_head q < QUEUE_CAP \<and> s_tail q < QUEUE_CAP"

definition queue_list :: "AudioQueue \<Rightarrow> AudioEvent list" where
  "queue_list q = map (\<lambda>i. s_ring q ((s_tail q + i) mod QUEUE_CAP)) [0..<audio_event_queue_count q]"

lemma queue_cap_pos [simp]: "0 < QUEUE_CAP" "1 < QUEUE_CAP"
  by (simp_all add: QUEUE_CAP_def)

lemma length_queue_list [simp]: "length (queue_list q) = audio_event_queue_count q"
  by (simp add: queue_list_def)

lemma count_less: "queue_ok q \<Longrightarrow> audio_event_queue_count q < QUEUE_CAP"
  by (auto simp: queue_ok_def audio_event_queue_count_def)

lemma head_from_tail:
  "queue_ok q \<Longrightarrow> (s_tail q + audio_event_queue_count q) mod QUEUE_CAP = s_head q"
  by (auto simp: queue_ok_def audio_event_queue_count_def)

lemma ring_index_inj:
  assumes "i < QUEUE_CAP" "j < QUEUE_CAP" "(t + i) mod QUEUE_CAP = (t + j) mod QUEUE_CAP"
  shows "i = j"
proof -
  have "i = j" if "i \<le> j" "j < QUEUE_CAP" "(t + i) mod QUEUE_CAP = (t + j) mod QUEUE_CAP" for i j
  proof -
    have "QUEUE_CAP dvd (t + j) - (t + i)" using that by (metis mod_eq_dvd_iff_nat add_le_cancel_left)
    then show ?thesis using that by (auto dest: dvd_imp_le)
  qed
  then show ?thesis using assms by (metis nat_le_linear)
qed

lemma full_iff: "queue_ok q \<Longrightarrow> ring_full q \<longleftrightarrow> audio_event_queue_count q = QUEUE_CAP - 1"
  by (cases "s_head q + 1 = QUEUE_CAP")
    (auto simp: queue_ok_def ring_full_def audio_event_queue_count_def)

lemma ring_put_ok [simp]: "queue_ok q \<Longrightarrow> queue_ok (ring_put e q)"
  by (simp add: queue_ok_def ring_put_def)

lemma ring_put_count:
  "queue_ok q \<Longrightarrow> \<not> ring_full q \<Longrightarrow>
   audio_event_queue_count (ring_put e q) = audio_event_queue_count q + 1"
  by (cases "s_head q + 1 = QUEUE_CAP")
    (auto simp: queue_ok_def ring_full_def ring_put_def audio_event_queue_count_def)

lemma ring_put_list:
  assumes "queue_ok q" "\<not> ring_full q"
  shows "queue_list (ring_put e q) = queue_list q @ [e]"
proof -
  have other: "(s_tail q + i) mod QUEUE_CAP \<noteq> s_head q" if "i < audio_event_queue_count q" for i
    using ring_index_inj [of i "audio_event_queue_count q" "s_tail q"] that count_less [OF assms(1)]
      head_from_tail [OF assms(1)] by auto
  show ?thesis
    unfolding queue_list_def ring_put_count [OF assms]
    using other head_from_tail [OF assms(1)] by (auto simp: ring_put_def)
qed

lemma pop_list:
  assumes "queue_ok q" "s_tail q \<noteq> s_head q"
  shows "queue_list q = s_ring q (s_tail q) # queue_list (q\<lparr>s_tail := (s_tail q + 1) mod QUEUE_CAP\<rparr>)"
proof -
  let ?q = "q\<lparr>s_tail := (s_tail q + 1) mod QUEUE_CAP\<rparr>"
  have c: "audio_event_queue_count q = Suc (audio_event_queue_count ?q)"
    using assms by (cases "s_tail q + 1 = QUEUE_CAP")
      (auto simp: queue_ok_def audio_event_queue_count_def)
  have "((s_tail q + 1) mod QUEUE_CAP + i) mod QUEUE_CAP = (s_tail q + Suc i) mod QUEUE_CAP" for i
    by (simp add: mod_simps)
  then show ?thesis using assms(1)
    unfolding queue_list_def c map_upt_Suc by (simp add: queue_ok_def)
qed

definition push_event :: "AudioEvent \<Rightarrow> AudioQueue \<Rightarrow> AudioQueue" where
  "push_event e = audio_event_push (cycle_stamp e) (port e) (ev_value e)"

lemma queue_globals [simp]:
  "queue_ok (q\<lparr>g_snd_line := a, g_snd_mc := b\<rparr>) = queue_ok q"
  "queue_list (q\<lparr>g_snd_line := a, g_snd_mc := b\<rparr>) = queue_list q"
  "ring_full (q\<lparr>g_snd_line := a, g_snd_mc := b\<rparr>) = ring_full q"
  "queue_ok (q\<lparr>s_overflow_count := n\<rparr>) = queue_ok q"
  "queue_list (q\<lparr>s_overflow_count := n\<rparr>) = queue_list q"
  by (simp_all add: queue_ok_def queue_list_def ring_full_def audio_event_queue_count_def)

interpretation audio: bounded_fifo queue_list queue_ok "QUEUE_CAP - 1" push_event audio_event_pop
proof
  fix q e q'
  assume q: "queue_ok q"
  show "queue_ok (push_event e q)"
    using q by (simp add: push_event_def audio_event_push_def Let_def)
  show "queue_list (push_event e q)
      = (if length (queue_list q) < QUEUE_CAP - 1 then queue_list q @ [e] else queue_list q)"
    using q full_iff [OF q] count_less [OF q]
    by (auto simp: push_event_def audio_event_push_def Let_def ring_put_list)
  show "audio_event_pop q = None \<longleftrightarrow> queue_list q = []"
    using q by (auto simp: audio_event_pop_def queue_list_def audio_event_queue_count_def queue_ok_def)
  show "queue_ok q' \<and> queue_list q = e # queue_list q'" if "audio_event_pop q = Some (e, q')"
    using that q pop_list [OF q] by (auto simp: audio_event_pop_def queue_ok_def split: if_splits)
qed

lemma requeue_list:
  "queue_ok q \<Longrightarrow> queue_ok (audio_event_requeue es q) \<and>
   queue_list (audio_event_requeue es q)
     = queue_list q @ take (QUEUE_CAP - 1 - audio_event_queue_count q) es"
proof (induction es q rule: audio_event_requeue.induct)
  case (2 e es q)
  show ?case
  proof (cases "ring_full q")
    case False
    then have "audio_event_queue_count q < QUEUE_CAP - 1"
      using full_iff [OF 2(2)] count_less [OF 2(2)] by auto
    then show ?thesis using 2 False
      by (auto simp: ring_put_list ring_put_count take_Cons' )
  qed (use 2 full_iff [OF 2(2)] in auto)
qed simp

section \<open>Images decode to what was encoded\<close>

lemma length_le32 [simp]: "length (le32 w) = 4"
  by (simp add: le32_def)

lemma of_le32_le32 [simp]: "of_le32 (le32 w @ bs) = w"
proof (rule bit_word_eqI)
  fix n assume "n < LENGTH(32)"
  then show "bit (of_le32 (le32 w @ bs)) n = bit w n"
    by (cases "n < 8"; cases "n < 16"; cases "n < 24") (auto simp: of_le32_def le32_def bit_simps)
qed

lemma length_event_bytes [simp]: "length (event_bytes pd e) = 8"
  by (simp add: event_bytes_def)

lemma event_of_bytes [simp]: "event_of (event_bytes pd e @ bs) = e"
  by (simp add: event_of_def event_bytes_def nth_append)

lemma length_blocks:
  assumes "\<And>i. length (f i) = b"
  shows "length (concat (map f xs)) = length xs * b"
  using assms by (induction xs) simp_all

lemma drop_blocks:
  assumes "\<And>i. length (f i) = b" "i < n"
  shows "drop (i * b) (concat (map f [0..<n])) = f i @ concat (map f [Suc i..<n])"
proof -
  have "[0..<n] = [0..<i] @ i # [Suc i..<n]"
    using assms(2) by (metis le_add_same_cancel1 less_imp_le upt_add_eq_append upt_conv_Cons
        ordered_cancel_comm_monoid_diff_class.add_diff_inverse zero_le)
  then have "concat (map f [0..<n]) = concat (map f [0..<i]) @ f i @ concat (map f [Suc i..<n])"
    by simp
  moreover have "length (concat (map f [0..<i])) = i * b" by (simp add: length_blocks [OF assms(1)])
  ultimately show ?thesis by simp
qed

lemma length_queue_image [simp]: "length (queue_image pad q) = 4 + audio_event_queue_count q * 8"
  by (simp add: queue_image_def length_blocks [where b = 8])

lemma event_at_image:
  assumes "i < audio_event_queue_count q"
  shows "event_at (queue_image pad q @ bs) i = queue_list q ! i"
proof -
  let ?f = "\<lambda>i. event_bytes (pad i) (s_ring q ((s_tail q + i) mod QUEUE_CAP))"
  have "drop (i * 8) (concat (map ?f [0..<audio_event_queue_count q]) @ bs)
      = ?f i @ concat (map ?f [Suc i..<audio_event_queue_count q]) @ bs"
    using drop_blocks [of ?f 8 i "audio_event_queue_count q"] assms
    by (simp add: length_blocks [where b = 8])
  moreover have "drop (4 + i * 8) (queue_image pad q @ bs)
      = drop (i * 8) (concat (map ?f [0..<audio_event_queue_count q]) @ bs)"
    by (simp add: queue_image_def)
  ultimately show ?thesis using assms by (simp add: event_at_def queue_list_def)
qed

lemma image_count [simp]:
  "queue_ok q \<Longrightarrow> unat (of_le32 (queue_image pad q @ bs)) = audio_event_queue_count q"
  using count_less [of q]
  by (simp add: queue_image_def unat_of_nat take_bit_nat_eq_self_iff QUEUE_CAP_def)

lemma image_apply_list:
  "n < QUEUE_CAP \<Longrightarrow> queue_ok (image_apply bs n q) \<and>
   queue_list (image_apply bs n q) = map (event_at bs) [0..<n]"
  by (auto simp: queue_ok_def image_apply_def queue_list_def audio_event_queue_count_def)

definition ports_ok :: "AudioQueue \<Rightarrow> bool" where
  "ports_ok q \<longleftrightarrow> (\<forall>e \<in> set (queue_list q). port e \<le> AUDIO_PORT_PSG)"

lemma image_accepted:
  assumes "queue_ok q" "ports_ok q"
  shows "image_valid (queue_image pad q @ bs) (audio_event_queue_count q)"
    "queue_list (image_apply (queue_image pad q @ bs) (audio_event_queue_count q) q0) = queue_list q"
proof -
  show "image_valid (queue_image pad q @ bs) (audio_event_queue_count q)"
    using assms count_less [OF assms(1)]
    by (auto simp: image_valid_def event_at_image ports_ok_def)
  show "queue_list (image_apply (queue_image pad q @ bs) (audio_event_queue_count q) q0) = queue_list q"
    using count_less [OF assms(1)]
    by (auto simp: image_apply_list event_at_image intro!: nth_equalityI)
qed

section \<open>Properties\<close>

lemma push_refines:
  assumes "queue_ok q"
  shows "queue_ok (audio_event_push t p v q)"
    "queue_list (audio_event_push t p v q) =
       (if length (queue_list q) < QUEUE_CAP - 1
        then queue_list q @ [\<lparr>cycle_stamp = t, port = p, ev_value = v\<rparr>] else queue_list q)"
    "s_overflow_count (audio_event_push t p v q) =
       s_overflow_count q + (if length (queue_list q) < QUEUE_CAP - 1 then 0 else 1)"
proof -
  let ?e = "\<lparr>cycle_stamp = t, port = p, ev_value = v\<rparr>"
  have push: "audio_event_push t p v q = push_event ?e q" by (simp add: push_event_def)
  show "queue_ok (audio_event_push t p v q)"
    "queue_list (audio_event_push t p v q) =
      (if length (queue_list q) < QUEUE_CAP - 1 then queue_list q @ [?e] else queue_list q)"
    unfolding push using audio.push_ok [OF assms] audio.push_contents [OF assms] by auto
  show "s_overflow_count (audio_event_push t p v q) =
      s_overflow_count q + (if length (queue_list q) < QUEUE_CAP - 1 then 0 else 1)"
    using full_iff [OF assms] count_less [OF assms]
    by (auto simp: audio_event_push_def Let_def ring_put_def)
qed

lemma pop_refines:
  "queue_ok q \<Longrightarrow> case audio_event_pop q of None \<Rightarrow> queue_list q = []
      | Some (e, q') \<Rightarrow> queue_ok q' \<and> queue_list q = e # queue_list q'"
  using audio.pop_empty [of q] audio.pop_first [of q] by (auto split: option.split)

lemma reset_refines:
  "queue_ok (audio_event_queue_reset q) \<and> queue_list (audio_event_queue_reset q) = []"
  by (simp add: audio_event_queue_reset_def queue_ok_def queue_list_def audio_event_queue_count_def)

lemma compact_round_trip:
  assumes "queue_ok q" "ports_ok q"
  shows "\<exists>q'. audio_event_rb_load
        (Some (snd (audio_event_rb_save pad (Some (fst (audio_event_rb_save pad None q))) q))) q0 = (True, q')
      \<and> queue_ok q' \<and> queue_list q' = queue_list q"
  using count_less [OF assms(1)] image_accepted [OF assms, of pad "[]"] image_count [OF assms(1), of pad "[]"]
    image_apply_list [of "audio_event_queue_count q" "queue_image pad q" q0]
  by (simp add: audio_event_rb_save_def audio_event_rb_load_def Let_def)

lemma fixed_round_trip:
  assumes "queue_ok q" "ports_ok q"
  shows "\<exists>img q'. audio_event_state_save pad (Some audio_event_state_size) q = Some img
      \<and> length img = audio_event_state_size
      \<and> audio_event_state_load (Some img) True q0 = (True, q')
      \<and> queue_ok q' \<and> queue_list q' = queue_list q"
proof -
  let ?z = "replicate (audio_event_state_size - length (queue_image pad q)) (0 :: u8)"
  show ?thesis
    using count_less [OF assms(1)] image_accepted [OF assms, of pad ?z] image_count [OF assms(1), of pad ?z]
      image_apply_list [of "audio_event_queue_count q" "queue_image pad q @ ?z" q0]
    by (simp add: audio_event_state_save_def audio_event_state_load_def Let_def audio_event_state_size_def)
qed

text \<open>
  C12: the ring refines a bounded first-in first-out queue. In every state whose indices are in
  range, a push appends the event unless the ring already holds its capacity less one, in which case
  the contents are unchanged and the overflow counter is raised; a pop fails exactly on the empty
  queue and otherwise removes the oldest event; requeueing appends as many of the deferred events as
  fit; a reset empties the queue; the count is the number of pending events; and every operation
  keeps the indices in range.
\<close>

theorem audio_queue_refines_fifo:
  assumes "queue_ok q"
  shows "queue_ok (audio_event_push t p v q)
    \<and> queue_list (audio_event_push t p v q) =
       (if length (queue_list q) < QUEUE_CAP - 1
        then queue_list q @ [\<lparr>cycle_stamp = t, port = p, ev_value = v\<rparr>] else queue_list q)
    \<and> s_overflow_count (audio_event_push t p v q) =
       s_overflow_count q + (if length (queue_list q) < QUEUE_CAP - 1 then 0 else 1)
    \<and> (case audio_event_pop q of None \<Rightarrow> queue_list q = []
       | Some (e, q') \<Rightarrow> queue_ok q' \<and> queue_list q = e # queue_list q')
    \<and> queue_ok (audio_event_requeue es q)
    \<and> queue_list (audio_event_requeue es q) = queue_list q @ take (QUEUE_CAP - 1 - length (queue_list q)) es
    \<and> queue_ok (audio_event_queue_reset q) \<and> queue_list (audio_event_queue_reset q) = []
    \<and> audio_event_queue_count q = length (queue_list q)"
  using push_refines [OF assms] pop_refines [OF assms] requeue_list [OF assms, of es] reset_refines
  by simp

text \<open>
  C13: both snapshot formats restore the queue. An image saved from a queue with valid indices and
  ports is accepted by the matching load in any state, whatever the padding bytes are, and the
  loaded queue holds the same events in the same order. Asking for the size first and passing it as
  the capacity is enough for the compact format.
\<close>

theorem queue_snapshot_round_trip:
  assumes "queue_ok q" "ports_ok q"
  shows "(\<exists>q'. audio_event_rb_load
        (Some (snd (audio_event_rb_save pad (Some (fst (audio_event_rb_save pad None q))) q))) q0 = (True, q')
      \<and> queue_ok q' \<and> queue_list q' = queue_list q)
    \<and> (\<exists>img q'. audio_event_state_save pad (Some audio_event_state_size) q = Some img
      \<and> length img = audio_event_state_size
      \<and> audio_event_state_load (Some img) True q0 = (True, q')
      \<and> queue_ok q' \<and> queue_list q' = queue_list q)"
  by (intro conjI compact_round_trip fixed_round_trip assms)

text \<open>
  C14: a load never leaves a broken queue behind. Whatever bytes are presented, either the load is
  refused and the queue is untouched, or it is accepted and the queue then has indices in range and
  only events for existing chip ports; a verification-only load never changes the queue.
\<close>

theorem queue_load_safe:
  "(case audio_event_rb_load src q of (done, q') \<Rightarrow>
     if done then queue_ok q' \<and> ports_ok q' else q' = q)
   \<and> (case audio_event_state_load src apply_it q of (done, q') \<Rightarrow>
     if done \<and> apply_it then queue_ok q' \<and> ports_ok q' else q' = q)"
  by (auto simp: audio_event_rb_load_def audio_event_state_load_def Let_def image_valid_def
      image_apply_list ports_ok_def split: option.splits)

definition three_events :: AudioQueue where
  "three_events = push_event \<lparr>cycle_stamp = 900, port = 4, ev_value = 0x9F\<rparr>
    (push_event \<lparr>cycle_stamp = 40, port = 1, ev_value = 0x80\<rparr>
    (push_event \<lparr>cycle_stamp = 40, port = 0, ev_value = 0x2B\<rparr>
     \<lparr>s_ring = \<lambda>_. \<lparr>cycle_stamp = 0, port = 0, ev_value = 0\<rparr>, s_head = 262142, s_tail = 262142,
      s_overflow_count = 0, g_snd_line = 0, g_snd_mc = 0\<rparr>))"

lemma three_events_facts:
  "queue_ok three_events"
  "queue_list three_events = [\<lparr>cycle_stamp = 40, port = 0, ev_value = 0x2B\<rparr>,
     \<lparr>cycle_stamp = 40, port = 1, ev_value = 0x80\<rparr>, \<lparr>cycle_stamp = 900, port = 4, ev_value = 0x9F\<rparr>]"
proof -
  show "queue_ok three_events"
    unfolding three_events_def by (intro audio.push_ok) (simp add: queue_ok_def QUEUE_CAP_def)
  show "queue_list three_events = [\<lparr>cycle_stamp = 40, port = 0, ev_value = 0x2B\<rparr>,
     \<lparr>cycle_stamp = 40, port = 1, ev_value = 0x80\<rparr>, \<lparr>cycle_stamp = 900, port = 4, ev_value = 0x9F\<rparr>]"
    by (simp add: three_events_def push_event_def audio_event_push_def Let_def ring_full_def ring_put_def
        queue_list_def audio_event_queue_count_def QUEUE_CAP_def upt_rec)
qed

theorem audio_queue_refines_fifo_witness:
  "queue_list (audio_event_push 950 4 0xBF three_events) =
     queue_list three_events @ [\<lparr>cycle_stamp = 950, port = 4, ev_value = 0xBF\<rparr>]"
  using audio_queue_refines_fifo [OF three_events_facts(1), of 950 4 "0xBF"]
  by (simp add: three_events_facts QUEUE_CAP_def)

theorem queue_snapshot_round_trip_witness:
  "\<exists>q'. audio_event_rb_load (Some (snd (audio_event_rb_save (\<lambda>_. (0, 0))
       (Some (fst (audio_event_rb_save (\<lambda>_. (0, 0)) None three_events))) three_events))) three_events = (True, q')
     \<and> queue_ok q' \<and> queue_list q' = queue_list three_events"
proof -
  have "ports_ok three_events" by (simp add: ports_ok_def three_events_facts AUDIO_PORT_PSG_def)
  from queue_snapshot_round_trip [OF three_events_facts(1) this] show ?thesis by blast
qed

end
