(* ===== verification/Audio_Order.thy ===== *)
theory Audio_Order
  imports Audio_Queue "HOL-Library.Multiset"
begin

text \<open>
  The frame timeline of \<^verbatim>\<open>runner/audio/event_order.h\<close>: the pair guard that gives an FM address
  write the stamp of the data write that completes it, and the natural merge sort that orders the
  drained events by stamp. The two buffers that the C function swaps between passes are the argument
  and the result of a pass, and the index ranges of a pass are the runs it splits off. The lemmas
  show that the passes end and that their result is the stable sort of the guarded events.
\<close>

record AudioOrderedEvent =
  oe_e :: AudioEvent
  oe_idx :: u32

abbreviation stamp :: "AudioOrderedEvent \<Rightarrow> u32" where
  "stamp x \<equiv> cycle_stamp (oe_e x)"

section \<open>The pair guard\<close>

definition guard_step :: "AudioOrderedEvent
    \<Rightarrow> (nat \<Rightarrow> u32) \<times> (nat \<Rightarrow> bool) \<times> AudioOrderedEvent list
    \<Rightarrow> (nat \<Rightarrow> u32) \<times> (nat \<Rightarrow> bool) \<times> AudioOrderedEvent list" where
  "guard_step ev = (\<lambda>(next_data, have_data, out).
    let p = port (oe_e ev); part = unat (drop_bit 1 p)
    in if p < 4 then
         if bit p 0 then (next_data(part := stamp ev), have_data(part := True), ev # out)
         else (next_data, have_data(part := False),
               (if have_data part then ev\<lparr>oe_e := (oe_e ev)\<lparr>cycle_stamp := next_data part\<rparr>\<rparr> else ev) # out)
       else (next_data, have_data, ev # out))"

text \<open>The loop runs from the last event to the first, which is a right fold.\<close>

definition pair_guard :: "AudioOrderedEvent list \<Rightarrow> AudioOrderedEvent list" where
  "pair_guard evs = snd (snd (foldr guard_step evs (\<lambda>_. 0, \<lambda>_. False, [])))"

section \<open>The natural merge sort\<close>

fun first_run :: "AudioOrderedEvent list \<Rightarrow> AudioOrderedEvent list \<times> AudioOrderedEvent list" where
  "first_run [] = ([], [])"
| "first_run [x] = ([x], [])"
| "first_run (x # y # ys) =
    (if stamp x \<le> stamp y then (let (r, rest) = first_run (y # ys) in (x # r, rest))
     else ([x], y # ys))"

fun merge_runs :: "AudioOrderedEvent list \<Rightarrow> AudioOrderedEvent list \<Rightarrow> AudioOrderedEvent list" where
  "merge_runs (x # xs) (y # ys) =
    (if stamp x \<le> stamp y then x # merge_runs xs (y # ys) else y # merge_runs (x # xs) ys)"
| "merge_runs xs [] = xs"
| "merge_runs [] ys = ys"

lemma first_run_append: "fst (first_run xs) @ snd (first_run xs) = xs"
  by (induction xs rule: first_run.induct) (simp_all add: Let_def split_beta)

lemma first_run_nonempty: "fst (first_run xs) = [] \<longleftrightarrow> xs = []"
  by (induction xs rule: first_run.induct) (simp_all add: Let_def split_beta)

lemma first_run_length:
  "xs \<noteq> [] \<Longrightarrow> length (snd (first_run xs)) < length xs"
  using first_run_append [of xs] first_run_nonempty [of xs]
  by (metis length_append length_greater_0_conv less_add_same_cancel2)

function merge_pass :: "AudioOrderedEvent list \<Rightarrow> nat \<times> AudioOrderedEvent list" where
  "merge_pass evs =
    (if evs = [] then (0, [])
     else let (a, rest) = first_run evs
       in if rest = [] then (0, a)
          else let (b, rest') = first_run rest; (merges, out) = merge_pass rest'
            in (merges + 1, merge_runs a b @ out))"
  by auto
termination
proof (relation "measure length")
  fix evs :: "AudioOrderedEvent list" and p a rest p' b rest'
  assume "evs \<noteq> []" "p = first_run evs" "(a, rest) = p" "rest \<noteq> []" "p' = first_run rest" "(b, rest') = p'"
  then show "(rest', evs) \<in> measure length"
    using first_run_length [of evs] first_run_length [of rest] by (metis in_measure less_trans snd_conv)
qed simp

declare merge_pass.simps [simp del]

section \<open>A pass removes descents\<close>

fun descents :: "AudioOrderedEvent list \<Rightarrow> nat" where
  "descents (x # y # ys) = (if stamp x \<le> stamp y then 0 else 1) + descents (y # ys)"
| "descents _ = 0"

lemma descents_append:
  "descents (xs @ ys) = descents xs + descents ys
     + (if xs \<noteq> [] \<and> ys \<noteq> [] \<and> stamp (hd ys) < stamp (last xs) then 1 else 0)"
proof (induction xs rule: descents.induct)
qed (cases ys; auto)+

lemma sorted_iff_descents: "sorted (map stamp xs) \<longleftrightarrow> descents xs = 0"
  by (induction xs rule: descents.induct) (auto simp: sorted2)

lemma first_run_sorted: "sorted (map stamp (fst (first_run xs)))"
proof (induction xs rule: first_run.induct)
  case (3 x y ys)
  have "hd (fst (first_run (y # ys))) = y" "fst (first_run (y # ys)) \<noteq> []"
    by (cases ys; simp add: Let_def split_beta)+
  with 3 show ?case
    by (cases "fst (first_run (y # ys))") (auto simp: Let_def split_beta intro: order_trans)
qed simp_all

lemma first_run_boundary:
  "snd (first_run xs) \<noteq> [] \<Longrightarrow> stamp (hd (snd (first_run xs))) < stamp (last (fst (first_run xs)))"
proof (induction xs rule: first_run.induct)
  case (3 x y ys)
  then show ?case using first_run_nonempty [of "y # ys"] by (auto simp: Let_def split_beta)
qed simp_all

lemma set_merge_runs [simp]: "set (merge_runs xs ys) = set xs \<union> set ys"
  by (induction xs ys rule: merge_runs.induct) auto

lemma mset_merge_runs [simp]: "mset (merge_runs xs ys) = mset xs + mset ys"
  by (induction xs ys rule: merge_runs.induct) auto

lemma sorted_merge_runs:
  "sorted (map stamp xs) \<Longrightarrow> sorted (map stamp ys) \<Longrightarrow> sorted (map stamp (merge_runs xs ys))"
  by (induction xs ys rule: merge_runs.induct) auto

lemma stable_merge_runs:
  "sorted (map stamp xs) \<Longrightarrow>
   filter (\<lambda>x. stamp x = v) (merge_runs xs ys) = filter (\<lambda>x. stamp x = v) xs @ filter (\<lambda>x. stamp x = v) ys"
proof (induction xs ys rule: merge_runs.induct)
  case (1 x xs y ys)
  show ?case
  proof (cases "stamp x \<le> stamp y")
    case False
    then have "\<forall>z \<in> set (x # xs). stamp z \<noteq> stamp y" using 1(3) by auto
    then have "stamp y = v \<Longrightarrow> filter (\<lambda>x. stamp x = v) (x # xs) = []" by (auto simp: filter_empty_conv)
    then show ?thesis using 1 False by auto
  qed (use 1 in auto)
qed simp_all

lemma merge_pass_spec:
  assumes "merge_pass evs = (k, out)"
  shows "descents out + k \<le> descents evs \<and> (out = [] \<longleftrightarrow> evs = []) \<and> mset out = mset evs
    \<and> filter (\<lambda>x. stamp x = v) out = filter (\<lambda>x. stamp x = v) evs
    \<and> (k = 0 \<longrightarrow> sorted (map stamp evs))"
  using assms
proof (induction evs arbitrary: k out rule: length_induct)
  case (1 evs)
  define a rest where ar: "a = fst (first_run evs)" "rest = snd (first_run evs)"
  note run = first_run_append [of evs] first_run_sorted [of evs] first_run_boundary [of evs]
    first_run_nonempty [of evs]
  show ?case
  proof (cases "evs = [] \<or> rest = []")
    case True
    then show ?thesis using 1(2) run
      by (subst (asm) merge_pass.simps) (auto simp: ar Let_def split_beta sorted_iff_descents)
  next
    case False
    define b rest' where br: "b = fst (first_run rest)" "rest' = snd (first_run rest)"
    obtain k' out' where p: "merge_pass rest' = (k', out')" by (cases "merge_pass rest'")
    have res: "k = k' + 1" "out = merge_runs a b @ out'"
      using 1(2) False p by (subst (asm) merge_pass.simps; simp add: ar br Let_def split_beta)+
    have IH: "descents out' + k' \<le> descents rest'" "out' = [] \<longleftrightarrow> rest' = []" "mset out' = mset rest'"
      "filter (\<lambda>x. stamp x = v) out' = filter (\<lambda>x. stamp x = v) rest'"
      using 1(1) p first_run_length [of evs] first_run_length [of rest] False by (auto simp: ar br)
    have split: "evs = a @ b @ rest'"
      using run(1) first_run_append [of rest] by (simp add: ar br)
    have b: "sorted (map stamp b)" "b \<noteq> []" "rest' \<noteq> [] \<Longrightarrow> stamp (hd rest') < stamp (last b)"
      using first_run_sorted [of rest] first_run_boundary [of rest] first_run_nonempty [of rest] False
      by (simp_all add: br)
    then have hd: "hd rest = hd b" using first_run_append [of rest] by (metis br(1) hd_append2)
    have a: "sorted (map stamp a)" "a \<noteq> []" "stamp (hd b) < stamp (last a)"
      using run False hd by (auto simp: ar)
    have "descents evs = 1 + descents rest' + (if rest' \<noteq> [] then 1 else 0)"
      using a b unfolding split by (auto simp: descents_append sorted_iff_descents)
    moreover have "descents out \<le> descents out' + (if out' \<noteq> [] then 1 else 0)"
      using sorted_merge_runs [OF a(1) b(1)] unfolding res by (auto simp: descents_append sorted_iff_descents)
    ultimately show ?thesis
      using IH a(2) stable_merge_runs [OF a(1), of v b] res split
      by (auto simp: ac_simps; metis empty_iff set_merge_runs sup_eq_bot_iff set_empty)
  qed
qed

function merge_loop :: "AudioOrderedEvent list \<Rightarrow> AudioOrderedEvent list" where
  "merge_loop input =
    (let (merges, out) = merge_pass input in if merges = 0 then input else merge_loop out)"
  by auto
termination
proof (relation "measure descents")
  fix input out :: "AudioOrderedEvent list" and p merges
  assume "p = merge_pass input" "(merges, out) = p" "merges \<noteq> 0"
  then show "(out, input) \<in> measure descents"
    using merge_pass_spec [of input merges out] by (metis add_leD1 in_measure le_neq_implies_less
        add_cancel_left_right le_add1 le_antisym)
qed simp

declare merge_loop.simps [simp del]

definition audio_event_order :: "AudioOrderedEvent list \<Rightarrow> bool \<Rightarrow> AudioOrderedEvent list" where
  "audio_event_order events pairguard =
    (let events = (if pairguard then pair_guard events else events)
     in if length events < 2 then events else merge_loop events)"

lemma merge_loop_sort: "merge_loop evs = sort_key stamp evs"
proof (induction evs rule: merge_loop.induct)
  case (1 evs)
  obtain k out where p: "merge_pass evs = (k, out)" by (cases "merge_pass evs")
  note spec = merge_pass_spec [OF p]
  show ?case
  proof (cases "k = 0")
    case True
    then show ?thesis using spec p
      by (subst merge_loop.simps) (simp add: sorted_sort_id sort_key_id_if_sorted)
  next
    case False
    have st: "filter (\<lambda>x. stamp x = v) out = filter (\<lambda>x. stamp x = v) evs" for v
      using merge_pass_spec [OF p, of v] by simp
    have "sort_key stamp evs = sort_key stamp out"
    proof (rule properties_for_sort_key)
      show "mset (sort_key stamp out) = mset evs" using spec by simp
      fix x
      have "filter (\<lambda>y. stamp x = stamp y) (sort_key stamp out) = filter (\<lambda>y. stamp y = stamp x) (sort_key stamp out)"
        by (rule filter_cong) auto
      also have "\<dots> = filter (\<lambda>y. stamp y = stamp x) evs" by (simp only: sort_key_stable st)
      finally show "filter (\<lambda>y. stamp x = stamp y) (sort_key stamp out) = filter (\<lambda>y. stamp x = stamp y) evs"
        by (simp add: eq_commute)
    qed simp
    then show ?thesis using 1 p False by (subst merge_loop.simps) simp
  qed
qed

lemma audio_event_order_sort:
  "audio_event_order evs g = sort_key stamp (if g then pair_guard evs else evs)"
proof -
  have "length xs < 2 \<Longrightarrow> sort_key stamp xs = xs" for xs
    by (cases xs; cases "tl xs") auto
  then show ?thesis by (simp add: audio_event_order_def Let_def merge_loop_sort)
qed

section \<open>What the guard does to one FM part\<close>

definition on_part :: "nat \<Rightarrow> AudioOrderedEvent \<Rightarrow> bool" where
  "on_part k x \<longleftrightarrow> port (oe_e x) < 4 \<and> unat (drop_bit 1 (port (oe_e x))) = k"

definition is_data :: "AudioOrderedEvent \<Rightarrow> bool" where
  "is_data x \<longleftrightarrow> bit (port (oe_e x)) 0"

definition restamp :: "u32 \<Rightarrow> AudioOrderedEvent \<Rightarrow> AudioOrderedEvent" where
  "restamp t x = x\<lparr>oe_e := (oe_e x)\<lparr>cycle_stamp := t\<rparr>\<rparr>"

text \<open>Seen from one part, an address write directly before a data write takes its stamp.\<close>

fun guard_part :: "AudioOrderedEvent list \<Rightarrow> AudioOrderedEvent list" where
  "guard_part (x # y # ys) = (if \<not> is_data x \<and> is_data y then restamp (stamp y) x else x) # guard_part (y # ys)"
| "guard_part xs = xs"

definition payload :: "AudioOrderedEvent \<Rightarrow> u32 \<times> u8 \<times> u8" where
  "payload x = (oe_idx x, port (oe_e x), ev_value (oe_e x))"

lemma restamp_fields [simp]:
  "stamp (restamp t x) = t" "on_part k (restamp t x) = on_part k x" "is_data (restamp t x) = is_data x"
  "payload (restamp t x) = payload x"
  by (simp_all add: restamp_def on_part_def is_data_def payload_def)

lemma guard_step_alt:
  "guard_step ev (nd, hv, out) =
    (if port (oe_e ev) < 4 then
       let k = unat (drop_bit 1 (port (oe_e ev)))
       in if is_data ev then (nd(k := stamp ev), hv(k := True), ev # out)
          else (nd, hv(k := False), (if hv k then restamp (nd k) ev else ev) # out)
     else (nd, hv, ev # out))"
  by (simp add: guard_step_def is_data_def restamp_def Let_def)

lemma guard_fold:
  "case foldr guard_step evs (\<lambda>_. 0, \<lambda>_. False, []) of (nd, hv, out) \<Rightarrow>
     filter (on_part k) out = guard_part (filter (on_part k) evs)
   \<and> (case filter (on_part k) evs of [] \<Rightarrow> \<not> hv k
      | d # ds \<Rightarrow> hv k = is_data d \<and> (is_data d \<longrightarrow> nd k = stamp d))
   \<and> map payload out = map payload evs"
proof (induction evs)
  case (Cons ev evs)
  obtain nd hv out where f: "foldr guard_step evs (\<lambda>_. 0, \<lambda>_. False, []) = (nd, hv, out)"
    by (metis prod_cases3)
  show ?case
  proof (cases "on_part k ev")
    case True
    then show ?thesis using Cons f
      by (cases "filter (on_part k) evs") (auto simp: guard_step_alt Let_def on_part_def [of k ev])
  next
    case False
    then show ?thesis using Cons f
      by (auto simp: guard_step_alt Let_def on_part_def [of k ev] split: list.splits)
  qed
qed simp

lemma pair_guard_part: "filter (on_part k) (pair_guard evs) = guard_part (filter (on_part k) evs)"
  "map payload (pair_guard evs) = map payload evs"
  using guard_fold [where evs = evs and k = k] by (auto simp: pair_guard_def split: prod.splits)

lemma guard_part_append:
  "\<not> is_data a \<Longrightarrow> is_data d \<Longrightarrow>
   \<exists>us' vs'. guard_part (us @ a # d # vs) = us' @ restamp (stamp d) a # d # vs'"
proof (induction us)
  case Nil
  then show ?case by (cases vs) auto
next
  case (Cons u us)
  then obtain us' vs' where "guard_part (us @ a # d # vs) = us' @ restamp (stamp d) a # d # vs'" by blast
  moreover obtain w ws where "us @ a # d # vs = w # ws" by (cases us) auto
  ultimately show ?case
    by (auto intro: exI [of _ "_ # us'"])
qed

section \<open>Equal stamps stay together\<close>

lemma insort_keeps_pair:
  assumes "f a = f d"
  shows "\<exists>us' vs'. insort_key f x (us @ a # d # vs) = us' @ a # d # vs'"
proof (induction us)
  case Nil
  then show ?case using assms
    by (cases "f x \<le> f a") (auto intro: exI [of _ "[x]"] exI [of _ "[]"])
next
  case (Cons u us)
  then obtain us' vs' where i: "insort_key f x (us @ a # d # vs) = us' @ a # d # vs'" by blast
  show ?case
  proof (cases "f x \<le> f u")
    case True
    then show ?thesis by - (rule exI [of _ "x # u # us"], simp)
  next
    case False
    then show ?thesis using i by - (rule exI [of _ "u # us'"], simp)
  qed
qed

lemma sort_keeps_pair:
  assumes "f a = f d"
  shows "\<exists>us' vs'. sort_key f (us @ a # d # vs) = us' @ a # d # vs'"
proof (induction us)
  case Nil
  have "\<exists>us' vs'. insort_key f a (insort_key f d xs) = us' @ a # d # vs'" for xs
  proof (induction xs)
    case Nil
    then show ?case using assms by auto
  next
    case (Cons x xs)
    then obtain us' vs' where i: "insort_key f a (insort_key f d xs) = us' @ a # d # vs'" by blast
    show ?case
    proof (cases "f d \<le> f x")
      case True
      then show ?thesis using assms by - (rule exI [of _ "[]"], simp)
    next
      case False
      then show ?thesis using assms i by - (rule exI [of _ "x # us'"], simp)
    qed
  qed
  then show ?case by simp
next
  case (Cons u us)
  then obtain us' vs' where "sort_key f (us @ a # d # vs) = us' @ a # d # vs'" by blast
  then show ?case using insort_keeps_pair [of f a d, OF assms, of u us' vs'] by simp
qed

section \<open>Properties\<close>

text \<open>
  C15: the frame order is the stable sort by stamp. For every list of drained events the natural
  merge passes end, and their result is the stable sort by stamp of the events, after the pair guard
  when it is on; the guard itself changes nothing but stamps.
\<close>

theorem event_order_stable_sort:
  "audio_event_order evs g = sort_key stamp (if g then pair_guard evs else evs)
   \<and> map payload (pair_guard evs) = map payload evs"
  by (simp add: audio_event_order_sort pair_guard_part)

text \<open>
  C16: an FM address write is never separated from its data write. When, among the events pushed for
  one part of the FM chip, an address write is directly followed by a data write, then in the
  ordered frame the same two events are again directly next to each other among the events of the
  part, at the stamp of the data write, whatever else was pushed around them and whatever the stamps.
\<close>

theorem fm_pairs_stay_together:
  assumes "filter (on_part k) evs = us @ a # d # vs" "\<not> is_data a" "is_data d"
  shows "\<exists>us' vs'. filter (on_part k) (audio_event_order evs True) = us' @ restamp (stamp d) a # d # vs'"
proof -
  obtain us1 vs1 where g: "guard_part (us @ a # d # vs) = us1 @ restamp (stamp d) a # d # vs1"
    using guard_part_append [OF assms(2,3)] by blast
  have "filter (on_part k) (audio_event_order evs True) = sort_key stamp (guard_part (us @ a # d # vs))"
    by (simp add: audio_event_order_sort filter_sort pair_guard_part assms(1))
  then show ?thesis unfolding g using sort_keeps_pair [of stamp "restamp (stamp d) a" d us1 vs1] by simp
qed

definition fm_event :: "u32 \<Rightarrow> u8 \<Rightarrow> u8 \<Rightarrow> u32 \<Rightarrow> AudioOrderedEvent" where
  "fm_event t p v i = \<lparr>oe_e = \<lparr>cycle_stamp = t, port = p, ev_value = v\<rparr>, oe_idx = i\<rparr>"

theorem fm_pairs_stay_together_witness:
  "\<exists>us' vs'. filter (on_part 0)
      (audio_event_order [fm_event 700 0 0x28 0, fm_event 650 4 0x9F 1, fm_event 712 1 0xF0 2] True)
    = us' @ restamp 712 (fm_event 700 0 0x28 0) # fm_event 712 1 0xF0 2 # vs'"
proof -
  have "filter (on_part 0) [fm_event 700 0 0x28 0, fm_event 650 4 0x9F 1, fm_event 712 1 0xF0 2]
      = [] @ fm_event 700 0 0x28 0 # fm_event 712 1 0xF0 2 # []"
    by (simp add: on_part_def fm_event_def)
  from fm_pairs_stay_together [OF this] show ?thesis by (simp add: is_data_def fm_event_def)
qed

end
