(* ===== verification/Audio_Mixer.thy ===== *)
theory Audio_Mixer
  imports Audio_Order Audio_Psg
begin

text \<open>
  The frame drain of \<^verbatim>\<open>runner/audio/mixer.c\<close>: the queue is emptied, ordered, split at the end of the
  frame, and the events of the frame are applied to the FM chip, its shadow and the sound generator,
  each advanced to the stamp of an event before the event is written. The FM chip and its shadow are
  C++ wrappers around an external core and enter as the operations of the record \<open>fm_ops\<close>; the
  sound generator is the model of \<^verbatim>\<open>sn76489.c\<close>. The diagnostics dump of the C function is left out,
  the bisection switches are fields of the mixer state, read from the environment by the first drain.
\<close>

record ('f, 's) fm_ops =
  ym2612_init :: "'f \<Rightarrow> 'f"
  ym2612_sample_rate :: nat
  fm_shadow_init :: "'s \<Rightarrow> 's"
  ym2612_advance :: "u32 \<Rightarrow> 'f \<Rightarrow> 'f"
  ym2612_write :: "u8 \<Rightarrow> u8 \<Rightarrow> 'f \<Rightarrow> 'f"
  ym2612_samples_available :: "'f \<Rightarrow> nat"
  ym2612_render_pair :: "nat \<Rightarrow> 'f \<Rightarrow> (int list \<times> int list) \<times> 'f"
  fm_shadow_advance :: "u32 \<Rightarrow> 's \<Rightarrow> 's"
  fm_shadow_write :: "u8 \<Rightarrow> u8 \<Rightarrow> 's \<Rightarrow> 's"
  fm_shadow_enabled :: "'s \<Rightarrow> bool"
  fm_shadow_active :: "'s \<Rightarrow> bool"
  fm_shadow_verify_and_substitute :: "int list \<Rightarrow> 's \<Rightarrow> int list \<times> 's"

record ('f, 's) chips =
  fm :: 'f
  shadow :: 's
  psg :: Psg

text \<open>
  An executor runs the two jobs it is given to completion, in one order or the other; what they share
  they only read.
\<close>

datatype executor = Main_First | Shadow_First

record mixer =
  s_filter_bypass :: bool
  s_filter_started :: bool
  s_fm_filter_mix :: nat
  s_psg_filter_mix :: nat
  s_fm_filter_span :: nat
  s_psg_filter_span :: nat
  s_no_spread :: bool
  s_no_pairguard :: bool
  s_no_leftover :: bool
  s_no_clamp :: bool
  s_mix_toggle_read :: bool
  s_executor :: "executor option"

section \<open>The presentation filter switch\<close>

definition audio_mixer_set_filter_bypass :: "bool \<Rightarrow> mixer \<Rightarrow> mixer" where
  "audio_mixer_set_filter_bypass bypass m =
    (let m = m\<lparr>s_filter_bypass := bypass\<rparr>
     in if s_filter_started m then m
        else m\<lparr>s_fm_filter_mix := (if bypass then s_fm_filter_span m else 0),
               s_psg_filter_mix := (if bypass then s_psg_filter_span m else 0)\<rparr>)"

definition audio_mixer_init :: "('f, 's) fm_ops \<Rightarrow> mixer \<times> ('f, 's) chips \<Rightarrow> mixer \<times> ('f, 's) chips" where
  "audio_mixer_init ops = (\<lambda>(m, c).
    let c = c\<lparr>fm := ym2612_init ops (fm c), psg := psg_init (psg c), shadow := fm_shadow_init ops (shadow c)\<rparr>;
        fm_span = ym2612_sample_rate ops div 200; psg_span = psg_sample_rate div 200;
        m = m\<lparr>s_fm_filter_span := (if fm_span = 0 then 1 else fm_span),
              s_psg_filter_span := (if psg_span = 0 then 1 else psg_span),
              s_filter_started := False\<rparr>
    in (audio_mixer_set_filter_bypass (s_filter_bypass m) m, c))"

definition audio_mixer_set_shadow_executor :: "executor option \<Rightarrow> mixer \<Rightarrow> mixer" where
  "audio_mixer_set_shadow_executor executor m = m\<lparr>s_executor := executor\<rparr>"

text \<open>The bisection switches, read once; \<open>env\<close> gives the value of an environment variable.\<close>

definition env_on :: "(string \<Rightarrow> string option) \<Rightarrow> string \<Rightarrow> bool" where
  "env_on env name = (case env name of Some (c # _) \<Rightarrow> c \<noteq> CHR ''0'' | _ \<Rightarrow> False)"

definition mixer_read_toggles :: "(string \<Rightarrow> string option) \<Rightarrow> mixer \<Rightarrow> mixer" where
  "mixer_read_toggles env m =
    (if s_mix_toggle_read m then m
     else m\<lparr>s_mix_toggle_read := True,
            s_no_spread := (env_on env ''GENESIS_MIXER_NO_SPREAD'' \<or> s_no_spread m),
            s_no_pairguard := (env_on env ''GENESIS_MIXER_NO_PAIRGUARD'' \<or> s_no_pairguard m),
            s_no_leftover := (env_on env ''GENESIS_MIXER_NO_LEFTOVER'' \<or> s_no_leftover m),
            s_no_clamp := (env_on env ''GENESIS_MIXER_NO_CLAMP'' \<or> s_no_clamp m)\<rparr>)"

text \<open>One sample of the crossfade, in 64-bit arithmetic with a final conversion to 16 bits.\<close>

definition fade :: "nat \<Rightarrow> nat \<Rightarrow> int \<Rightarrow> int \<Rightarrow> int" where
  "fade span mix x r = s16 ((x * int (span - mix) + r * int mix) sdiv int span)"

text \<open>
  The loop over the frames of a buffer; a frame is \<open>channels\<close> consecutive samples. The pair is the
  new buffer and the new mix.
\<close>

fun filter_loop :: "nat \<Rightarrow> nat \<Rightarrow> nat \<Rightarrow> bool \<Rightarrow> nat \<Rightarrow> nat \<Rightarrow> int list \<Rightarrow> int list \<Rightarrow> int list \<times> nat" where
  "filter_loop span target channels apply_it mix 0 out raw = (out, mix)"
| "filter_loop span target channels apply_it mix (Suc n) out raw =
    (let frame = (if apply_it \<and> mix \<noteq> 0 then map2 (fade span mix) (take channels out) (take channels raw)
                  else take channels out);
         mix' = (if mix < target then mix + 1 else if target < mix then mix - 1 else mix);
         (rest, m) = filter_loop span target channels apply_it mix' n (drop channels out) (drop channels raw)
     in (frame @ rest, m))"

definition filter_present :: "bool \<Rightarrow> nat \<Rightarrow> int list \<Rightarrow> int list \<Rightarrow> nat \<Rightarrow> nat \<Rightarrow> nat \<Rightarrow> bool \<Rightarrow> int list \<times> nat" where
  "filter_present bypass n out raw channels mix span apply_it =
    (let target = (if bypass then span else 0)
     in if mix = 0 \<and> target = 0 then (out, mix)
        else filter_loop span target channels apply_it mix n out raw)"

section \<open>Collecting, ordering and splitting\<close>

definition DRAIN_CAP :: nat where "DRAIN_CAP = 262144"

definition collect_events :: "AudioQueue \<Rightarrow> AudioOrderedEvent list \<times> AudioQueue" where
  "collect_events q =
    (let (es, q) = drain audio_event_pop DRAIN_CAP q
     in (map (\<lambda>(i, e). \<lparr>oe_e = e, oe_idx = of_nat i\<rparr>) (enumerate 0 es), q))"

fun trim_late :: "u32 \<Rightarrow> AudioOrderedEvent list \<Rightarrow> nat \<Rightarrow> nat" where
  "trim_late end_cycle evs 0 = 0"
| "trim_late end_cycle evs (Suc n) =
    (if end_cycle < stamp (evs ! n) then trim_late end_cycle evs n else Suc n)"

definition fm_address :: "u8 \<Rightarrow> bool" where
  "fm_address p \<longleftrightarrow> p = 0 \<or> p = 2"

definition apply_count :: "bool \<Rightarrow> u32 \<Rightarrow> AudioOrderedEvent list \<Rightarrow> nat" where
  "apply_count no_spread end_cycle evs =
    (if no_spread then length evs
     else let n = trim_late end_cycle evs (length evs)
       in if n > 0 \<and> fm_address (port (oe_e (evs ! (n - 1)))) then n - 1 else n)"

definition defer_event :: "u32 \<Rightarrow> AudioOrderedEvent \<Rightarrow> AudioEvent" where
  "defer_event end_cycle x =
    (oe_e x)\<lparr>cycle_stamp := if end_cycle < stamp x then stamp x - end_cycle else 0\<rparr>"

definition split_frame :: "mixer \<Rightarrow> u32 \<Rightarrow> AudioQueue \<Rightarrow> AudioOrderedEvent list \<times> AudioQueue" where
  "split_frame m end_cycle q =
    (let (evs, q) = collect_events q;
         evs = audio_event_order evs (\<not> s_no_pairguard m);
         n = apply_count (s_no_spread m) end_cycle evs
     in (take n evs,
         if n < length evs then audio_event_requeue (map (defer_event end_cycle) (drop n evs)) q else q))"

section \<open>Applying the events of a frame\<close>

text \<open>The serial loop: the state carries the last stamp of each chip.\<close>

definition serial_event :: "('f, 's) fm_ops \<Rightarrow> AudioOrderedEvent
    \<Rightarrow> u32 \<times> u32 \<times> ('f, 's) chips \<Rightarrow> u32 \<times> u32 \<times> ('f, 's) chips" where
  "serial_event ops x = (\<lambda>(fm_prev, psg_prev, c).
    let e = oe_e x; p = port e in
    if p = AUDIO_PORT_PSG then
      let t = (if cycle_stamp e < psg_prev then psg_prev else cycle_stamp e);
          c = (if t - psg_prev > 0 then c\<lparr>psg := psg_advance True (t - psg_prev) (psg c)\<rparr> else c)
      in (fm_prev, t, c\<lparr>psg := psg_write (ev_value e) (psg c)\<rparr>)
    else
      let t = (if cycle_stamp e < fm_prev then fm_prev else cycle_stamp e);
          c = (if t - fm_prev > 0
               then c\<lparr>fm := ym2612_advance ops (t - fm_prev) (fm c),
                      shadow := fm_shadow_advance ops (t - fm_prev) (shadow c)\<rparr> else c);
          c = (if p < 4 then c\<lparr>fm := ym2612_write ops p (ev_value e) (fm c),
                              shadow := fm_shadow_write ops p (ev_value e) (shadow c)\<rparr> else c)
      in (t, psg_prev, c))"

definition serial_apply :: "('f, 's) fm_ops \<Rightarrow> bool \<Rightarrow> u32 \<Rightarrow> AudioOrderedEvent list \<Rightarrow> ('f, 's) chips \<Rightarrow> ('f, 's) chips" where
  "serial_apply ops no_leftover end_cycle evs c =
    (let (fm_prev, psg_prev, c) = fold (serial_event ops) evs (0, 0, c);
         c = (if fm_prev < end_cycle
              then c\<lparr>fm := ym2612_advance ops (end_cycle - fm_prev) (fm c),
                     shadow := fm_shadow_advance ops (end_cycle - fm_prev) (shadow c)\<rparr> else c);
         c = (if psg_prev < end_cycle then c\<lparr>psg := psg_advance True (end_cycle - psg_prev) (psg c)\<rparr> else c)
     in if no_leftover then c else c\<lparr>psg := psg_reset_leftover (psg c)\<rparr>)"

text \<open>The jobs that an executor runs: one loop per chip over the same events.\<close>

definition fm_job_event :: "('f, 's) fm_ops \<Rightarrow> AudioOrderedEvent \<Rightarrow> u32 \<times> 'f \<Rightarrow> u32 \<times> 'f" where
  "fm_job_event ops x = (\<lambda>(previous, f).
    let e = oe_e x in
    if port e = AUDIO_PORT_PSG then (previous, f)
    else let t = (if cycle_stamp e < previous then previous else cycle_stamp e);
             f = (if t - previous \<noteq> 0 then ym2612_advance ops (t - previous) f else f);
             f = (if port e < 4 then ym2612_write ops (port e) (ev_value e) f else f)
         in (t, f))"

definition fm_job_apply :: "('f, 's) fm_ops \<Rightarrow> u32 \<Rightarrow> AudioOrderedEvent list \<Rightarrow> 'f \<Rightarrow> 'f" where
  "fm_job_apply ops end_cycle evs f =
    (let (previous, f) = fold (fm_job_event ops) evs (0, f)
     in if previous < end_cycle then ym2612_advance ops (end_cycle - previous) f else f)"

definition psg_job_event :: "AudioOrderedEvent \<Rightarrow> u32 \<times> Psg \<Rightarrow> u32 \<times> Psg" where
  "psg_job_event x = (\<lambda>(previous, s).
    let e = oe_e x in
    if port e \<noteq> AUDIO_PORT_PSG then (previous, s)
    else let t = (if cycle_stamp e < previous then previous else cycle_stamp e);
             s = (if previous < t then psg_advance True (t - previous) s else s)
         in (t, psg_write (ev_value e) s))"

definition psg_job_apply :: "bool \<Rightarrow> u32 \<Rightarrow> AudioOrderedEvent list \<Rightarrow> Psg \<Rightarrow> Psg" where
  "psg_job_apply keep_leftover end_cycle evs s =
    (let (previous, s) = fold psg_job_event evs (0, s);
         s = (if previous < end_cycle then psg_advance True (end_cycle - previous) s else s)
     in if keep_leftover then s else psg_reset_leftover s)"

definition shadow_job_event :: "('f, 's) fm_ops \<Rightarrow> AudioOrderedEvent \<Rightarrow> u32 \<times> 's \<Rightarrow> u32 \<times> 's" where
  "shadow_job_event ops x = (\<lambda>(previous, s).
    let e = oe_e x in
    if port e = AUDIO_PORT_PSG then (previous, s)
    else let t = (if cycle_stamp e < previous then previous else cycle_stamp e);
             s = (if previous < t then fm_shadow_advance ops (t - previous) s else s);
             s = (if port e < 4 then fm_shadow_write ops (port e) (ev_value e) s else s)
         in (t, s))"

definition mixer_shadow_job :: "('f, 's) fm_ops \<Rightarrow> u32 \<Rightarrow> AudioOrderedEvent list \<Rightarrow> 's \<Rightarrow> 's" where
  "mixer_shadow_job ops end_cycle evs s =
    (let (previous, s) = fold (shadow_job_event ops) evs (0, s)
     in if previous < end_cycle then fm_shadow_advance ops (end_cycle - previous) s else s)"

section \<open>Rendering and the drain\<close>

text \<open>An output buffer: whether it is there, its capacity, and its address as an integer.\<close>

record out_buffer =
  present :: bool
  cap :: nat
  address :: nat

definition SIZE_MAX :: nat where "SIZE_MAX = 2 ^ 64 - 1"

definition mixer_outputs_disjoint :: "out_buffer \<Rightarrow> out_buffer \<Rightarrow> bool" where
  "mixer_outputs_disjoint f p =
    (if \<not> present f \<or> \<not> present p \<or> cap f = 0 \<or> cap p = 0 then True
     else if cap f > SIZE_MAX div 4 \<or> cap p > SIZE_MAX div 2 then False
     else let fn = cap f * 4; pn = cap p * 2
       in if address f \<le> address p then fn \<le> address p - address f else pn \<le> address f - address p)"

definition render_fm :: "('f, 's) fm_ops \<Rightarrow> out_buffer \<Rightarrow> ('f, 's) chips \<Rightarrow> nat \<times> (int list \<times> int list) \<times> ('f, 's) chips" where
  "render_fm ops b c =
    (let n = min (ym2612_samples_available ops (fm c)) (cap b)
     in if present b \<and> n > 0 then
          (let (pcm, f) = ym2612_render_pair ops n (fm c) in (n, pcm, c\<lparr>fm := f\<rparr>))
        else (n, ([], []), c))"

definition render_psg :: "out_buffer \<Rightarrow> ('f, 's) chips \<Rightarrow> nat \<times> (int list \<times> int list) \<times> ('f, 's) chips" where
  "render_psg b c =
    (let n = min (psg_samples_available (psg c)) (cap b)
     in if present b \<and> n > 0 then
          (let (pcm, s) = psg_render_pair True True n (psg c) in (n, pcm, c\<lparr>psg := s\<rparr>))
        else (n, ([], []), c))"

text \<open>
  The second half of the drain: the samples are taken out of the chips, verified against the shadow,
  and crossfaded. The third component is the new state of the presentation filter.
\<close>

definition present_frame :: "('f, 's) fm_ops \<Rightarrow> out_buffer \<Rightarrow> out_buffer \<Rightarrow> mixer \<Rightarrow> ('f, 's) chips
    \<Rightarrow> (nat \<times> int list) \<times> (nat \<times> int list) \<times> (nat \<times> nat \<times> bool) \<times> ('f, 's) chips" where
  "present_frame ops fb pb m c =
    (let (fm_n, (fm_pcm, fm_raw), c) = render_fm ops fb c;
        (psg_n, (psg_pcm, psg_raw), c) = render_psg pb c;
        fm_out = present fb \<and> fm_n > 0; psg_out = present pb \<and> psg_n > 0;
        (fm_pcm, sh) = (if fm_out then fm_shadow_verify_and_substitute ops fm_pcm (shadow c) else (fm_pcm, shadow c));
        (fm_pcm, fm_mix) = (if fm_out
          then filter_present (s_filter_bypass m) fm_n fm_pcm fm_raw 2 (s_fm_filter_mix m) (s_fm_filter_span m)
                 (\<not> fm_shadow_active ops sh)
          else (fm_pcm, s_fm_filter_mix m));
        (psg_pcm, psg_mix) = (if psg_out
          then filter_present (s_filter_bypass m) psg_n psg_pcm psg_raw 1 (s_psg_filter_mix m) (s_psg_filter_span m) True
          else (psg_pcm, s_psg_filter_mix m))
    in ((fm_n, fm_pcm), (psg_n, psg_pcm), (fm_mix, psg_mix, s_filter_started m \<or> fm_out \<or> psg_out), c\<lparr>shadow := sh\<rparr>))"

text \<open>
  The executor path: each chip job applies its events, counts its samples and renders them into its
  own buffers; the main job runs the FM job and then the job of the sound generator. Verification and
  crossfade follow the join, on the written counts that the jobs left.
\<close>

definition mixer_fm_job :: "('f, 's) fm_ops \<Rightarrow> u32 \<Rightarrow> out_buffer \<Rightarrow> AudioOrderedEvent list \<Rightarrow> 'f
    \<Rightarrow> nat \<times> (int list \<times> int list) \<times> 'f" where
  "mixer_fm_job ops end_cycle b evs f =
    (let f = fm_job_apply ops end_cycle evs f;
         available = ym2612_samples_available ops f;
         written = (if available < cap b then available else cap b)
     in if present b \<and> written \<noteq> 0 then let (pcm, f) = ym2612_render_pair ops written f in (written, pcm, f)
        else (written, ([], []), f))"

definition mixer_psg_job :: "bool \<Rightarrow> u32 \<Rightarrow> out_buffer \<Rightarrow> AudioOrderedEvent list \<Rightarrow> Psg
    \<Rightarrow> nat \<times> (int list \<times> int list) \<times> Psg" where
  "mixer_psg_job keep_leftover end_cycle b evs s =
    (let s = psg_job_apply keep_leftover end_cycle evs s;
         available = psg_samples_available s;
         written = (if available < cap b then available else cap b)
     in if present b \<and> written \<noteq> 0 then let (pcm, s) = psg_render_pair True True written s in (written, pcm, s)
        else (written, ([], []), s))"

type_synonym job_result = "nat \<times> (int list \<times> int list)"

definition mixer_main_job :: "('f, 's) fm_ops \<Rightarrow> bool \<Rightarrow> u32 \<Rightarrow> out_buffer \<Rightarrow> out_buffer \<Rightarrow> AudioOrderedEvent list
    \<Rightarrow> ('f, 's) chips \<Rightarrow> job_result \<times> job_result \<times> ('f, 's) chips" where
  "mixer_main_job ops no_leftover end_cycle fb pb evs c =
    (let (fm_written, fm_pcm, f) = mixer_fm_job ops end_cycle fb evs (fm c); c = c\<lparr>fm := f\<rparr>;
         (psg_written, psg_pcm, p) = mixer_psg_job no_leftover end_cycle pb evs (psg c); c = c\<lparr>psg := p\<rparr>
     in ((fm_written, fm_pcm), (psg_written, psg_pcm), c))"

definition run_executor :: "executor \<Rightarrow> ('f, 's) fm_ops \<Rightarrow> bool \<Rightarrow> u32 \<Rightarrow> out_buffer \<Rightarrow> out_buffer \<Rightarrow> AudioOrderedEvent list
    \<Rightarrow> ('f, 's) chips \<Rightarrow> job_result \<times> job_result \<times> ('f, 's) chips" where
  "run_executor x ops no_leftover end_cycle fb pb evs c =
    (let run_shadow = (\<lambda>c. c\<lparr>shadow := mixer_shadow_job ops end_cycle evs (shadow c)\<rparr>)
     in case x of
          Main_First \<Rightarrow> (let (f, p, c) = mixer_main_job ops no_leftover end_cycle fb pb evs c in (f, p, run_shadow c))
        | Shadow_First \<Rightarrow> mixer_main_job ops no_leftover end_cycle fb pb evs (run_shadow c))"

definition executor_frame :: "executor \<Rightarrow> ('f, 's) fm_ops \<Rightarrow> u32 \<Rightarrow> out_buffer \<Rightarrow> out_buffer \<Rightarrow> AudioOrderedEvent list \<Rightarrow> mixer \<Rightarrow> ('f, 's) chips
    \<Rightarrow> (nat \<times> int list) \<times> (nat \<times> int list) \<times> (nat \<times> nat \<times> bool) \<times> ('f, 's) chips" where
  "executor_frame x ops end_cycle fb pb evs m c =
    (let ((fm_written, (fm_output, raw_fm)), (psg_written, (psg_output, raw_psg)), c) =
           run_executor x ops (s_no_leftover m) end_cycle fb pb evs c;
         (fm_output, c) = (if present fb \<and> fm_written \<noteq> 0
           then let (pcm, sh) = fm_shadow_verify_and_substitute ops fm_output (shadow c) in (pcm, c\<lparr>shadow := sh\<rparr>)
           else (fm_output, c));
         (fm_output, fm_mix) = (if present fb \<and> fm_written \<noteq> 0
           then filter_present (s_filter_bypass m) fm_written fm_output raw_fm 2 (s_fm_filter_mix m) (s_fm_filter_span m)
                  (\<not> fm_shadow_active ops (shadow c))
           else (fm_output, s_fm_filter_mix m));
         (psg_output, psg_mix) = (if present pb \<and> psg_written \<noteq> 0
           then filter_present (s_filter_bypass m) psg_written psg_output raw_psg 1 (s_psg_filter_mix m) (s_psg_filter_span m) True
           else (psg_output, s_psg_filter_mix m));
         started = (if present fb \<and> fm_written \<noteq> 0 \<or> present pb \<and> psg_written \<noteq> 0 then True else s_filter_started m)
     in ((fm_written, fm_output), (psg_written, psg_output), (fm_mix, psg_mix, started), c))"

definition audio_mixer_drain :: "('f, 's) fm_ops \<Rightarrow> (string \<Rightarrow> string option) \<Rightarrow> u32 \<Rightarrow> out_buffer \<Rightarrow> out_buffer
    \<Rightarrow> mixer \<times> AudioQueue \<times> ('f, 's) chips
    \<Rightarrow> (nat \<times> int list) \<times> (nat \<times> int list) \<times> (mixer \<times> AudioQueue \<times> ('f, 's) chips)" where
  "audio_mixer_drain ops env end_cycle fb pb = (\<lambda>(m, q, c).
    let m = mixer_read_toggles env m;
        (evs, q) = split_frame m end_cycle q;
        (f, p, (fm_mix, psg_mix, started), c) =
          (case s_executor m of
             Some x \<Rightarrow> if fm_shadow_enabled ops (shadow c) \<and> mixer_outputs_disjoint fb pb
                       then executor_frame x ops end_cycle fb pb evs m c
                       else present_frame ops fb pb m (serial_apply ops (s_no_leftover m) end_cycle evs c)
           | None \<Rightarrow> present_frame ops fb pb m (serial_apply ops (s_no_leftover m) end_cycle evs c))
    in (f, p, (m\<lparr>s_fm_filter_mix := fm_mix, s_psg_filter_mix := psg_mix, s_filter_started := started\<rparr>, q, c)))"

section \<open>Jobs and the serial loop\<close>

lemma serial_step:
  "serial_event ops x (a, b, c) =
    (fst (fm_job_event ops x (a, fm c)), fst (psg_job_event x (b, psg c)),
     \<lparr>fm = snd (fm_job_event ops x (a, fm c)), shadow = snd (shadow_job_event ops x (a, shadow c)),
      psg = snd (psg_job_event x (b, psg c))\<rparr>)"
  "fst (shadow_job_event ops x (a, shadow c)) = fst (fm_job_event ops x (a, fm c))"
proof -
  have diff: "t - p \<noteq> 0 \<longleftrightarrow> p < t" "0 < t - p \<longleftrightarrow> p < t" if "p \<le> t" for t p :: u32
    using that by (simp_all add: word_gt_0 order_less_le) (metis eq_iff_diff_eq_0)+
  show "serial_event ops x (a, b, c) =
    (fst (fm_job_event ops x (a, fm c)), fst (psg_job_event x (b, psg c)),
     \<lparr>fm = snd (fm_job_event ops x (a, fm c)), shadow = snd (shadow_job_event ops x (a, shadow c)),
      psg = snd (psg_job_event x (b, psg c))\<rparr>)"
    by (cases c) (auto simp: serial_event_def fm_job_event_def psg_job_event_def shadow_job_event_def Let_def diff)
  show "fst (shadow_job_event ops x (a, shadow c)) = fst (fm_job_event ops x (a, fm c))"
    by (simp add: fm_job_event_def shadow_job_event_def Let_def)
qed

lemma serial_fold:
  "fold (serial_event ops) evs (a, b, c) =
    (fst (fold (fm_job_event ops) evs (a, fm c)), fst (fold psg_job_event evs (b, psg c)),
     \<lparr>fm = snd (fold (fm_job_event ops) evs (a, fm c)),
      shadow = snd (fold (shadow_job_event ops) evs (a, shadow c)),
      psg = snd (fold psg_job_event evs (b, psg c))\<rparr>)
   \<and> fst (fold (shadow_job_event ops) evs (a, shadow c)) = fst (fold (fm_job_event ops) evs (a, fm c))"
proof (induction evs arbitrary: a b c)
  case (Cons x evs)
  obtain a' f where f: "fm_job_event ops x (a, fm c) = (a', f)" by fastforce
  obtain b' p where p: "psg_job_event x (b, psg c) = (b', p)" by fastforce
  obtain s where s: "shadow_job_event ops x (a, shadow c) = (a', s)"
    using serial_step(2) [of ops x a c] f by (metis fst_conv surj_pair)
  show ?case using Cons.IH [of a' b' "\<lparr>fm = f, shadow = s, psg = p\<rparr>"]
    by (simp add: serial_step(1) f p s)
qed (cases c, simp)

text \<open>The merged loop gives each chip what its own job gives it.\<close>

lemma serial_is_jobs:
  "serial_apply ops nl end_cycle evs c = \<lparr>fm = fm_job_apply ops end_cycle evs (fm c),
     shadow = mixer_shadow_job ops end_cycle evs (shadow c), psg = psg_job_apply nl end_cycle evs (psg c)\<rparr>"
  using serial_fold [of ops evs 0 0 c]
  by (auto simp: serial_apply_def fm_job_apply_def psg_job_apply_def mixer_shadow_job_def
      Let_def split: prod.splits)

lemma executor_is_serial:
  "executor_frame x ops end_cycle fb pb evs m c = present_frame ops fb pb m (serial_apply ops (s_no_leftover m) end_cycle evs c)"
proof -
  define f where "f = fm_job_apply ops end_cycle evs (fm c)"
  define s where "s = mixer_shadow_job ops end_cycle evs (shadow c)"
  define p where "p = psg_job_apply (s_no_leftover m) end_cycle evs (psg c)"
  define fn where "fn = min (ym2612_samples_available ops f) (cap fb)"
  define pn where "pn = min (psg_samples_available p) (cap pb)"
  have n: "(if ym2612_samples_available ops f < cap fb then ym2612_samples_available ops f else cap fb) = fn"
    "(if psg_samples_available p < cap pb then psg_samples_available p else cap pb) = pn"
    by (auto simp: fn_def pn_def)
  obtain fpcm fraw f' where rf: "(if present fb \<and> fn > 0 then ym2612_render_pair ops fn f else (([], []), f)) = ((fpcm, fraw), f')"
    by (metis surj_pair)
  obtain ppcm praw p' where rp: "(if present pb \<and> pn > 0 then psg_render_pair True True pn p else (([], []), p)) = ((ppcm, praw), p')"
    by (metis surj_pair)
  have jf: "mixer_fm_job ops end_cycle fb evs (fm c) = (fn, (fpcm, fraw), f')"
    using rf by (auto simp: mixer_fm_job_def f_def [symmetric] n Let_def split: if_splits)
  have jp: "mixer_psg_job (s_no_leftover m) end_cycle pb evs (psg c) = (pn, (ppcm, praw), p')"
    using rp by (auto simp: mixer_psg_job_def p_def [symmetric] n Let_def split: if_splits)
  have ex: "run_executor x ops (s_no_leftover m) end_cycle fb pb evs c =
      ((fn, (fpcm, fraw)), (pn, (ppcm, praw)), \<lparr>fm = f', shadow = s, psg = p'\<rparr>)"
    by (cases c; cases x) (use jf jp in \<open>simp_all add: run_executor_def mixer_main_job_def s_def Let_def\<close>)
  have se: "serial_apply ops (s_no_leftover m) end_cycle evs c = \<lparr>fm = f, shadow = s, psg = p\<rparr>"
    by (simp add: serial_is_jobs f_def s_def p_def)
  have rs: "render_fm ops fb \<lparr>fm = f, shadow = s, psg = p\<rparr> = (fn, (fpcm, fraw), \<lparr>fm = f', shadow = s, psg = p\<rparr>)"
    "render_psg pb \<lparr>fm = f', shadow = s, psg = p\<rparr> = (pn, (ppcm, praw), \<lparr>fm = f', shadow = s, psg = p'\<rparr>)"
    using rf rp by (auto simp: render_fm_def render_psg_def fn_def [symmetric] pn_def [symmetric] Let_def split: if_splits)
  show ?thesis
    unfolding executor_frame_def present_frame_def ex se rs Let_def split_conv
    by (cases "fm_shadow_verify_and_substitute ops fpcm s") (auto split: prod.splits)
qed

lemma word_diff_pos:
  assumes "p \<le> (t :: u32)"
  shows "unat p + unat (t - p) = unat t"
  using assms by (simp add: unat_sub word_le_nat_alt)

section \<open>The split of a frame\<close>

lemma trim_late_le: "trim_late e evs n \<le> n"
  by (induction n) auto

lemma trim_late_sorted:
  assumes "sorted (map stamp evs)" "n \<le> length evs"
  shows "(\<forall>i < trim_late e evs n. stamp (evs ! i) \<le> e)
    \<and> (\<forall>i. trim_late e evs n \<le> i \<longrightarrow> i < n \<longrightarrow> e < stamp (evs ! i))"
  using assms(2)
proof (induction n)
  case (Suc n)
  show ?case
  proof (cases "e < stamp (evs ! n)")
    case False
    have "stamp (evs ! i) \<le> stamp (evs ! n)" if "i \<le> n" for i
      using assms(1) Suc.prems that by (auto simp: sorted_iff_nth_mono)
    then have "\<forall>i \<le> n. stamp (evs ! i) \<le> e" using False by (meson not_less order_trans)
    then show ?thesis using False by (simp add: less_Suc_eq_le)
  qed (use Suc in \<open>auto simp: less_Suc_eq\<close>)
qed simp

lemma order_sorted [simp]: "sorted (map stamp (audio_event_order evs g))"
  by (simp add: audio_event_order_sort)

lemma collected:
  "map (oe_e \<circ> (\<lambda>(i, e). \<lparr>oe_e = e, oe_idx = of_nat i\<rparr>)) (enumerate 0 es) = es"
proof -
  have "oe_e \<circ> (\<lambda>(i :: nat, e). \<lparr>oe_e = e, oe_idx = of_nat i\<rparr>) = snd" by auto
  then show ?thesis by (simp add: enumerate_eq_zip)
qed

lemma collect_all:
  assumes "queue_ok q"
  shows "map oe_e (fst (collect_events q)) = queue_list q"
    "queue_ok (snd (collect_events q))" "queue_list (snd (collect_events q)) = []"
proof -
  have "length (queue_list q) \<le> DRAIN_CAP"
    using count_less [OF assms] by (simp add: DRAIN_CAP_def QUEUE_CAP_def)
  with audio.drain_contents [OF assms, of DRAIN_CAP]
  have d: "fst (drain audio_event_pop DRAIN_CAP q) = queue_list q"
    "queue_list (snd (drain audio_event_pop DRAIN_CAP q)) = []" "queue_ok (snd (drain audio_event_pop DRAIN_CAP q))"
    by simp_all
  show "map oe_e (fst (collect_events q)) = queue_list q"
    "queue_ok (snd (collect_events q))" "queue_list (snd (collect_events q)) = []"
    using d by (simp_all add: collect_events_def Let_def split_beta)
      (simp add: collected)
qed

lemma apply_count_le: "apply_count ns e evs \<le> length evs"
  using trim_late_le [of e evs "length evs"] by (auto simp: apply_count_def Let_def)

lemma applied_stamps:
  assumes "sorted (map stamp evs)" "x \<in> set (take (apply_count False e evs) evs)"
  shows "stamp x \<le> e"
proof -
  let ?n = "trim_late e evs (length evs)"
  have "apply_count False e evs \<le> ?n" by (simp add: apply_count_def Let_def)
  then have "x \<in> set (take ?n evs)" using assms(2) by (meson set_take_subset_set_take subsetD)
  then show ?thesis
    using trim_late_sorted [OF assms(1), of "length evs" e] trim_late_le [of e evs "length evs"]
    by (auto simp: in_set_conv_nth)
qed

lemma data_applied:
  assumes "sorted (map stamp evs)" "d \<in> set evs" "stamp d \<le> e" "\<not> fm_address (port (oe_e d))"
  shows "d \<in> set (take (apply_count False e evs) evs)"
proof -
  let ?n = "trim_late e evs (length evs)"
  obtain i where i: "i < length evs" "evs ! i = d" using assms(2) by (auto simp: in_set_conv_nth)
  have "i < ?n"
    using trim_late_sorted [OF assms(1), of "length evs" e] i assms(3) by (meson linorder_not_le order_refl)
  moreover have "i \<noteq> ?n - 1" if "fm_address (port (oe_e (evs ! (?n - 1))))"
    using that i assms(4) by auto
  ultimately have "i < apply_count False e evs" by (auto simp: apply_count_def Let_def)
  then show ?thesis using i by (auto simp: in_set_conv_nth intro!: exI [of _ i])
qed

lemma executor_fields:
  "s_no_pairguard (m\<lparr>s_executor := x\<rparr>) = s_no_pairguard m" "s_no_spread (m\<lparr>s_executor := x\<rparr>) = s_no_spread m"
  "s_no_leftover (m\<lparr>s_executor := x\<rparr>) = s_no_leftover m" "s_filter_bypass (m\<lparr>s_executor := x\<rparr>) = s_filter_bypass m"
  "s_filter_started (m\<lparr>s_executor := x\<rparr>) = s_filter_started m"
  "s_fm_filter_mix (m\<lparr>s_executor := x\<rparr>) = s_fm_filter_mix m" "s_psg_filter_mix (m\<lparr>s_executor := x\<rparr>) = s_psg_filter_mix m"
  "s_fm_filter_span (m\<lparr>s_executor := x\<rparr>) = s_fm_filter_span m" "s_psg_filter_span (m\<lparr>s_executor := x\<rparr>) = s_psg_filter_span m"
  by simp_all

lemma toggles_executor: "mixer_read_toggles env (m\<lparr>s_executor := x\<rparr>) = (mixer_read_toggles env m)\<lparr>s_executor := x\<rparr>"
  by (cases m) (simp add: mixer_read_toggles_def)

lemma split_ignores_executor: "split_frame (m\<lparr>s_executor := x\<rparr>) e q = split_frame m e q"
  unfolding split_frame_def executor_fields by (rule refl)

lemma present_ignores_executor:
  "present_frame ops fb pb (m\<lparr>s_executor := x\<rparr>) c = present_frame ops fb pb m c"
  unfolding present_frame_def executor_fields by (rule refl)

section \<open>Properties\<close>

text \<open>
  C19: handing the chips to an executor changes nothing. For every FM core, every mixer state, queue
  and chip state, and whichever job the executor finishes first, the drain that runs the per-chip jobs,
  with their own rendering and the verification and crossfade after the join, and the drain that applies
  the merged list serially return the same sample counts, the same samples and the same final state.
\<close>

theorem executor_drain_equals_serial:
  "audio_mixer_drain ops env e fb pb (m\<lparr>s_executor := Some x\<rparr>, q, c) =
    (case audio_mixer_drain ops env e fb pb (m\<lparr>s_executor := None\<rparr>, q, c) of
       (f, p, (m', q', c')) \<Rightarrow> (f, p, (m'\<lparr>s_executor := Some x\<rparr>, q', c')))"
proof -
  define n where "n = mixer_read_toggles env m"
  obtain evs q' where sp: "split_frame n e q = (evs, q')" by fastforce
  obtain f p fm_mix psg_mix started c' where
    pr: "present_frame ops fb pb n (serial_apply ops (s_no_leftover n) e evs c) = (f, p, (fm_mix, psg_mix, started), c')"
    by (metis prod_cases4 prod_cases3)
  have m: "n\<lparr>s_executor := Some x, s_fm_filter_mix := a, s_psg_filter_mix := b, s_filter_started := d\<rparr> =
      n\<lparr>s_executor := None, s_fm_filter_mix := a, s_psg_filter_mix := b, s_filter_started := d, s_executor := Some x\<rparr>"
    for a b d by (cases n) simp
  have s: "s_executor (n\<lparr>s_executor := y\<rparr>) = y" for y by simp
  show ?thesis
    by (simp only: audio_mixer_drain_def toggles_executor n_def [symmetric] executor_is_serial split_ignores_executor present_ignores_executor sp pr
        split_conv Let_def if_cancel executor_fields m s option.case)
qed

lemma non_address_guard:
  "filter (\<lambda>x. \<not> fm_address (port (oe_e x))) (pair_guard evs) = filter (\<lambda>x. \<not> fm_address (port (oe_e x))) evs"
proof -
  have addr: "fm_address p" if "p < 4" "\<not> bit p 0" for p :: u8
  proof -
    have "unat p < 4" using that(1) by (simp add: word_less_nat_alt)
    then have "unat p \<in> {0, 1, 2, 3}" by auto
    then have "p \<in> {0, 1, 2, 3}" by (auto simp: word_unat_eq_iff)
    then show ?thesis using that(2) by (auto simp: fm_address_def)
  qed
  have "filter (\<lambda>x. \<not> fm_address (port (oe_e x))) (snd (snd (foldr guard_step evs st))) =
      filter (\<lambda>x. \<not> fm_address (port (oe_e x))) evs @ filter (\<lambda>x. \<not> fm_address (port (oe_e x))) (snd (snd st))" for st
    by (induction evs) (auto simp: guard_step_def Let_def split_beta addr)
  from this [of "(\<lambda>_. 0, \<lambda>_. False, [])"] show ?thesis by (simp add: pair_guard_def)
qed

lemma deferred_late:
  assumes "sorted (map stamp evs)" "x \<in> set (drop (apply_count False e evs) evs)" "\<not> fm_address (port (oe_e x))"
  shows "e < stamp x"
proof (rule ccontr)
  assume "\<not> e < stamp x"
  let ?n = "trim_late e evs (length evs)"
  obtain i where i: "apply_count False e evs \<le> i" "i < length evs" "evs ! i = x"
    using assms(2) by (auto simp: in_set_conv_nth) (metis add.commute le_add2 less_diff_conv)
  have "i < ?n"
    using trim_late_sorted [OF assms(1), of "length evs" e] i \<open>\<not> e < stamp x\<close> by (meson linorder_not_le order_refl)
  then have "i = ?n - 1" "fm_address (port (oe_e (evs ! (?n - 1))))"
    using i(1) by (auto simp: apply_count_def Let_def split: if_splits)
  then show False using i(3) assms(3) by simp
qed

definition rebased :: "u32 \<Rightarrow> AudioEvent \<Rightarrow> AudioOrderedEvent \<Rightarrow> bool" where
  "rebased e ev x \<longleftrightarrow> port ev = port (oe_e x) \<and> ev_value ev = ev_value (oe_e x) \<and>
     unat (cycle_stamp ev) = unat (stamp x) - unat e"

lemma defer_rebased: "rebased e (defer_event e x) x"
  by (auto simp: rebased_def defer_event_def unat_sub word_le_nat_alt word_less_nat_alt)


definition shipped_mixer :: mixer where
  "shipped_mixer = \<lparr>s_filter_bypass = False, s_filter_started = False, s_fm_filter_mix = 0, s_psg_filter_mix = 0,
     s_fm_filter_span = 266, s_psg_filter_span = 1118, s_no_spread = False, s_no_pairguard = False,
     s_no_leftover = False, s_no_clamp = False, s_mix_toggle_read = True, s_executor = None\<rparr>"


section \<open>Writes land at their stamps\<close>

text \<open>
  An FM core that only records what is done to it, and the reading of such a record: the writes with
  the time at which each is made, and the time at the end.
\<close>

datatype chip_op = Advance u32 | Write u8 u8

definition log_ops :: "(chip_op list, 's) fm_ops" where
  "log_ops = \<lparr>ym2612_init = \<lambda>_. [], ym2612_sample_rate = 53267, fm_shadow_init = \<lambda>s. s, ym2612_advance = \<lambda>d l. l @ [Advance d], ym2612_write = \<lambda>p v l. l @ [Write p v],
     ym2612_samples_available = \<lambda>_. 0, ym2612_render_pair = \<lambda>_ l. (([], []), l),
     fm_shadow_advance = \<lambda>_ s. s, fm_shadow_write = \<lambda>_ _ s. s, fm_shadow_enabled = \<lambda>_. False,
     fm_shadow_active = \<lambda>_. False, fm_shadow_verify_and_substitute = \<lambda>l s. (l, s)\<rparr>"

fun timeline :: "nat \<Rightarrow> chip_op list \<Rightarrow> (nat \<times> u8 \<times> u8) list \<times> nat" where
  "timeline t [] = ([], t)"
| "timeline t (Advance d # l) = timeline (t + unat d) l"
| "timeline t (Write p v # l) = (let (ws, t') = timeline t l in ((t, p, v) # ws, t'))"

lemma timeline_snoc:
  "timeline t (l @ [Advance d]) = (fst (timeline t l), snd (timeline t l) + unat d)"
  "timeline t (l @ [Write p v]) = (fst (timeline t l) @ [(snd (timeline t l), p, v)], snd (timeline t l))"
  by (induction t l rule: timeline.induct) (simp_all add: Let_def split_beta)

lemma log_fold:
  fixes ops :: "(chip_op list, 's) fm_ops"
  defines "ops \<equiv> log_ops"
  assumes "sorted (map stamp evs)" "\<forall>x \<in> set evs. prev \<le> stamp x \<and> stamp x \<le> e"
    "timeline 0 l = (ws, unat prev)" "prev \<le> e"
  shows "\<exists>prev' l'. fold (fm_job_event ops) evs (prev, l) = (prev', l') \<and> prev' \<le> e \<and> timeline 0 l' =
    (ws @ map (\<lambda>x. (unat (stamp x), port (oe_e x), ev_value (oe_e x))) (filter (\<lambda>x. port (oe_e x) < 4) evs), unat prev')"
  using assms(2-)
proof (induction evs arbitrary: prev l ws)
  case (Cons x evs)
  have le: "prev \<le> stamp x" "stamp x \<le> e" using Cons.prems by auto
  show ?case
  proof (cases "port (oe_e x) = AUDIO_PORT_PSG")
    case True
    then show ?thesis using Cons by (simp add: fm_job_event_def AUDIO_PORT_PSG_def)
  next
    case False
    let ?ws = "ws @ (if port (oe_e x) < 4 then [(unat (stamp x), port (oe_e x), ev_value (oe_e x))] else [])"
    have "unat prev + unat (stamp x - prev) = unat (stamp x)" by (rule word_diff_pos [OF le(1)])
    then have "\<exists>l1. fm_job_event ops x (prev, l) = (stamp x, l1) \<and> timeline 0 l1 = (?ws, unat (stamp x))"
      using False le Cons.prems(3) by (auto simp: fm_job_event_def Let_def ops_def log_ops_def timeline_snoc)
    then obtain l1 where l1: "fm_job_event ops x (prev, l) = (stamp x, l1)" "timeline 0 l1 = (?ws, unat (stamp x))"
      by blast
    show ?thesis using Cons.IH [OF _ _ l1(2) le(2)] Cons.prems l1(1) by auto
  qed
qed auto

text \<open>
  C21: every FM write of a frame is made at its stamp. With the shipped spreading, whatever is
  queued, the record of a frame shows the FM writes of the applied events in their order, each made
  when the chip has been advanced by exactly its stamp since the start of the frame, and the chip
  ends the frame advanced by exactly the length of the frame.
\<close>

theorem fm_writes_at_stamps:
  fixes c :: "(chip_op list, 's) chips"
  assumes "\<not> s_no_spread m" "fm c = []"
  shows "timeline 0 (fm (serial_apply log_ops nl e (fst (split_frame m e q)) c)) =
    (map (\<lambda>x. (unat (stamp x), port (oe_e x), ev_value (oe_e x)))
       (filter (\<lambda>x. port (oe_e x) < 4) (fst (split_frame m e q))), unat e)"
proof -
  define evs where "evs = audio_event_order (fst (collect_events q)) (\<not> s_no_pairguard m)"
  have s: "fst (split_frame m e q) = take (apply_count False e evs) evs"
    using assms(1) by (simp add: split_frame_def evs_def Let_def split_beta)
  let ?a = "take (apply_count False e evs) evs"
  have "sorted (map stamp evs)" by (simp add: evs_def)
  then have a: "sorted (map stamp ?a)" "\<forall>x \<in> set ?a. 0 \<le> stamp x \<and> stamp x \<le> e"
    using applied_stamps by (auto simp: take_map [symmetric] sorted_wrt_take)
  obtain p l where f: "fold (fm_job_event (log_ops :: (chip_op list, 's) fm_ops)) ?a (0, []) = (p, l)" "p \<le> e"
    "timeline 0 l = (map (\<lambda>x. (unat (stamp x), port (oe_e x), ev_value (oe_e x))) (filter (\<lambda>x. port (oe_e x) < 4) ?a), unat p)"
    using log_fold [OF a, of "[]" "[]"] by auto
  define g where "g = fm_job_apply (log_ops :: (chip_op list, 's) fm_ops) e ?a []"
  have g: "g = (if p < e then l @ [Advance (e - p)] else l)"
    unfolding g_def fm_job_apply_def f(1) by (simp add: log_ops_def)
  have "fm (serial_apply log_ops nl e (fst (split_frame m e q)) c) = g"
    unfolding serial_is_jobs s by (simp add: assms(2) g_def)
  then show ?thesis
    using f word_diff_pos [OF f(2)] unfolding g s by (auto simp: timeline_snoc)
qed

theorem fm_writes_at_stamps_witness:
  "\<forall>s :: Psg. timeline 0 (fm (serial_apply log_ops False 800 (fst (split_frame shipped_mixer 800 three_events))
      \<lparr>fm = [], shadow = (), psg = s\<rparr>)) =
    (map (\<lambda>x. (unat (stamp x), port (oe_e x), ev_value (oe_e x)))
       (filter (\<lambda>x. port (oe_e x) < 4) (fst (split_frame shipped_mixer 800 three_events))), 800)"
proof
  fix s :: Psg
  have "\<not> s_no_spread shipped_mixer" "fm \<lparr>fm = [], shadow = (), psg = s\<rparr> = []"
    by (simp_all add: shipped_mixer_def)
  from fm_writes_at_stamps [OF this, of False 800 three_events]
  show "timeline 0 (fm (serial_apply log_ops False 800 (fst (split_frame shipped_mixer 800 three_events))
      \<lparr>fm = [], shadow = (), psg = s\<rparr>)) =
    (map (\<lambda>x. (unat (stamp x), port (oe_e x), ev_value (oe_e x)))
       (filter (\<lambda>x. port (oe_e x) < 4) (fst (split_frame shipped_mixer 800 three_events))), 800)" by simp
qed

section \<open>The crossfade\<close>

lemma sdiv_convex:
  fixes x r span mix :: int
  assumes "0 < span" "0 \<le> mix" "mix \<le> span" "lo \<le> x" "x \<le> hi" "lo \<le> r" "r \<le> hi"
  shows "lo \<le> (x * (span - mix) + r * mix) sdiv span" "(x * (span - mix) + r * mix) sdiv span \<le> hi"
proof -
  let ?n = "x * (span - mix) + r * mix"
  have "lo * (span - mix) \<le> x * (span - mix)" "lo * mix \<le> r * mix"
    "x * (span - mix) \<le> hi * (span - mix)" "r * mix \<le> hi * mix"
    using assms by (auto intro: mult_right_mono)
  then have b: "lo * span \<le> ?n" "?n \<le> hi * span" by (simp_all add: algebra_simps)
  define q where "q = ?n sdiv span"
  have q: "q = (if 0 \<le> ?n then ?n div span else - ((- ?n) div span))"
    using assms(1) by (cases "?n = 0") (auto simp: q_def signed_divide_int_def sgn_if)
  have "lo \<le> q \<and> q \<le> hi"
  proof (cases "0 \<le> ?n")
    case True
    then show ?thesis using q zdiv_mono1 [OF b(2) assms(1)] zdiv_mono1 [OF b(1) assms(1)] assms(1) by simp
  next
    case False
    have "(- ?n) div span \<le> (- lo * span) div span" "(- hi * span) div span \<le> (- ?n) div span"
      using b assms(1) by (intro zdiv_mono1; simp)+
    moreover have "(- lo * span) div span = - lo" "(- hi * span) div span = - hi"
      using assms(1) by (intro nonzero_mult_div_cancel_right; simp)+
    ultimately have "(- ?n) div span \<le> - lo" "- hi \<le> (- ?n) div span" by metis+
    moreover have "q = - ((- ?n) div span)" by (rule trans [OF q if_not_P [OF False]])
    ultimately show ?thesis by linarith
  qed
  then show "lo \<le> ?n sdiv span" "?n sdiv span \<le> hi" by (simp_all add: q_def)
qed

definition between :: "int \<Rightarrow> int \<times> int \<Rightarrow> bool" where
  "between y = (\<lambda>(x, r). min x r \<le> y \<and> y \<le> max x r)"

definition sample :: "int \<Rightarrow> bool" where
  "sample x \<longleftrightarrow> - 32768 \<le> x \<and> x \<le> 32767"

lemma fade_between:
  assumes "0 < span" "mix \<le> span" "sample x" "sample r"
  shows "min x r \<le> fade span mix x r" "fade span mix x r \<le> max x r"
proof -
  have c: "min x r \<le> (x * int (span - mix) + r * int mix) sdiv int span"
    "(x * int (span - mix) + r * int mix) sdiv int span \<le> max x r"
    using sdiv_convex [of "int span" "int mix" "min x r" x "max x r" r] assms by (simp_all add: of_nat_diff)
  then have "fade span mix x r = (x * int (span - mix) + r * int mix) sdiv int span"
    unfolding fade_def s16_def using assms(3,4)
    by (intro signed_take_bit_int_eq_self) (auto simp: sample_def)
  with c show "min x r \<le> fade span mix x r" "fade span mix x r \<le> max x r" by simp_all
qed

lemma fade_full:
  assumes "0 < span" "sample r"
  shows "fade span span x r = r"
proof -
  have "r * int span sdiv int span = r"
    using sdiv_convex [of "int span" "int span" r r r r] assms(1) by simp
  then show ?thesis using assms(2) by (simp add: fade_def s16_def sample_def signed_take_bit_int_eq_self)
qed

lemma filter_loop_mix:
  assumes "mix \<le> span" "target \<le> span"
  shows "snd (filter_loop span target channels a mix n out raw) =
    (if mix \<le> target then min target (mix + n) else max target (mix - n))"
  using assms by (induction n arbitrary: mix out raw) (auto simp: Let_def split_beta)

lemma filter_loop_between:
  assumes "0 < span" "mix \<le> span" "target \<le> span" "length out = n * channels" "length raw = n * channels"
    "list_all sample out" "list_all sample raw"
  shows "list_all2 between
    (fst (filter_loop span target channels a mix n out raw)) (zip out raw)"
  using assms(2-)
proof (induction n arbitrary: mix out raw)
  case (Suc n)
  let ?m = "if mix < target then mix + 1 else if target < mix then mix - 1 else mix"
  let ?f = "if a \<and> mix \<noteq> 0 then map2 (fade span mix) (take channels out) (take channels raw) else take channels out"
  have z: "zip out raw = zip (take channels out) (take channels raw) @ zip (drop channels out) (drop channels raw)"
    by (metis append_take_drop_id drop_zip take_zip)
  have "list_all2 between ?f (zip (take channels out) (take channels raw))"
    using Suc.prems fade_between [OF assms(1) Suc.prems(1)]
    by (auto simp: list_all2_conv_all_nth list_all_length between_def)
  moreover have "?m \<le> span" "list_all sample (drop channels out)" "list_all sample (drop channels raw)"
    using Suc.prems by (auto simp: list_all_iff dest: in_set_dropD)
  ultimately show ?case
    using Suc.prems Suc.IH [of ?m "drop channels out" "drop channels raw"]
    by (simp add: Let_def split_beta z list_all2_appendI)
qed auto

lemma filter_loop_settled:
  assumes "0 < span" "length out = n * channels" "length raw = n * channels" "list_all sample raw"
  shows "fst (filter_loop span span channels True span n out raw) = raw"
  using assms(2-)
proof (induction n arbitrary: out raw)
  case (Suc n)
  have "list_all sample (take channels raw)" "list_all sample (drop channels raw)"
    using Suc.prems(3) by (auto simp: list_all_iff dest: in_set_dropD in_set_takeD)
  moreover have "map2 (fade span span) xs ys = ys" if "list_all sample ys" "length xs = length ys" for xs ys
    using that fade_full [OF assms(1)] by (auto intro!: nth_equalityI simp: list_all_length)
  ultimately show ?case
    using Suc.prems Suc.IH [of "drop channels out" "drop channels raw"] assms(1)
    by (simp add: Let_def split_beta)
qed auto

text \<open>
  C22: switching the console's output filter on or off is free of clicks. With a positive span and
  16-bit samples, each presented sample lies between the filtered and the unfiltered sample of its
  position; the mix stays within the span, moves by at most one step per frame, and has reached its
  goal once \<open>span\<close> frames were presented; a buffer that starts with the goal reached is the filtered
  one, or the unfiltered one, exactly.
\<close>

theorem filter_crossfade:
  assumes "0 < span" "mix \<le> span" "length out = n * channels" "length raw = n * channels"
    "list_all sample out" "list_all sample raw"
  shows "case filter_present bypass n out raw channels mix span a of (out', mix') \<Rightarrow>
    list_all2 between out' (zip out raw)
    \<and> mix' \<le> span \<and> \<bar>int mix' - int mix\<bar> \<le> int n
    \<and> (span \<le> n \<longrightarrow> mix' = (if bypass then span else 0))
    \<and> (\<not> bypass \<and> mix = 0 \<longrightarrow> out' = out) \<and> (bypass \<and> mix = span \<and> a \<longrightarrow> out' = raw)"
proof -
  have "list_all2 between out (zip out raw)"
    using assms(3,4) by (auto simp: list_all2_conv_all_nth between_def)
  then show ?thesis
    using assms filter_loop_between [OF assms(1,2), of "if bypass then span else 0" out n channels raw a]
      filter_loop_mix [OF assms(2), of "if bypass then span else 0" channels a n out raw]
      filter_loop_settled [OF assms(1,3,4,6)]
    by (auto simp: filter_present_def Let_def split_beta)
qed

theorem filter_crossfade_witness:
  "filter_present True 3 [100, -100, 40] [0, 0, 80] 1 0 2 True = ([100, -50, 80], 2)
   \<and> snd (filter_present True 3 [100, -100, 40] [0, 0, 80] 1 0 2 True) \<le> 2"
proof -
  have "list_all sample [100, -100, 40]" "list_all sample [0, 0, 80]" by (simp_all add: sample_def)
  with filter_crossfade [of 2 0 "[100, -100, 40]" 3 1 "[0, 0, 80]" True True]
  have "snd (filter_present True 3 [100, -100, 40] [0, 0, 80] 1 0 2 True) \<le> 2" by (simp add: split_beta)
  moreover have "filter_present True 3 [100, -100, 40] [0, 0, 80] 1 0 2 True = ([100, -50, 80], 2)" by code_simp
  ultimately show ?thesis by simp
qed

end
