(* ===== verification/Genesis_Bus.thy ===== *)
theory Genesis_Bus
  imports Genesis_Vdp Audio_Queue
begin

text \<open>
  The 68000 and Z80 buses, \<^verbatim>\<open>runner/video/genesis_bus.c\<close>: cartridge, work RAM, battery RAM, the
  expansion bank, the VDP ports, the Z80 area with its sound chips, controllers, and the Z80 side
  with its banked window. The state is the VDP paired with the record \<open>gbus\<close>, the rest of what the
  bus can reach: the fields of \<^verbatim>\<open>GenesisBus\<close>, the memories and counters that the C file declares
  \<^verbatim>\<open>extern\<close>, and the chip event queue. The 68000 side is the word reader of the VDP's own transfers.
  The trace hooks are empty in the shipped build.
\<close>

section \<open>State\<close>

record GenesisBus =
  z80_ram :: "u16 \<Rightarrow> u8"
  z80_bank :: u32
  z80_busreq :: bool
  z80_reset_off :: bool
  z80_reset_pending :: bool
  ym_addr :: "nat \<Rightarrow> u8"
  ym_timer_b :: u8
  ym_mode :: u8
  ym_status :: u8
  ym_timer_b_running :: bool
  ym_timer_b_deadline :: u64
  ym_timer_b_period :: u64
  pad :: "nat \<Rightarrow> u16"
  pad_type :: "nat \<Rightarrow> u8"
  pad_th_count :: "nat \<Rightarrow> u8"
  pad_th_prev :: "nat \<Rightarrow> u8"
  io_data :: "nat \<Rightarrow> u8"
  io_ctrl :: "nat \<Rightarrow> u8"
  version :: u8
  sram :: "u32 \<Rightarrow> u8"
  sram_base :: u32
  sram_end :: u32
  sram_size :: u32
  sram_present :: bool
  sram_enabled :: bool

record gbus = GenesisBus +
  g_rom :: "u32 \<Rightarrow> u8"
  g_rom_ext :: "(u32 \<Rightarrow> u8) option"
  g_rom_ext_size :: u32
  g_ram :: "u16 \<Rightarrow> u8"
  g_audio_cycle_counter :: u32
  g_68k_stamp_rebase :: u32
  g_snd_frame :: u64
  g_snd_pcz :: u32
  z80_pc :: u32
  s_line_base :: u32
  s_z80_off :: u32
  s_interleave_active :: bool
  s_in_vblank_service :: bool
  s_main_cpu_stalls :: u32
  events :: AudioQueue

type_synonym bstate = "gbus vstate"

definition STAMP_68K :: "gbus \<Rightarrow> u32" where
  "STAMP_68K b = g_audio_cycle_counter b * 7 + g_68k_stamp_rebase b"

definition machine_z80_stamp :: "gbus \<Rightarrow> u32" where
  "machine_z80_stamp b = s_line_base b + s_z80_off b"

definition push_68k :: "u8 \<Rightarrow> u8 \<Rightarrow> gbus \<Rightarrow> gbus" where
  "push_68k prt val b =
    b\<lparr>g_snd_pcz := 0xFFFF, events := audio_event_push (STAMP_68K b) prt val (events b)\<rparr>"

definition push_z80 :: "u8 \<Rightarrow> u8 \<Rightarrow> gbus \<Rightarrow> gbus" where
  "push_z80 prt val b =
    b\<lparr>g_snd_pcz := z80_pc b, events := audio_event_push (machine_z80_stamp b) prt val (events b)\<rparr>"

definition glue_charge_68k_stall :: "u32 \<Rightarrow> gbus \<Rightarrow> gbus" where
  "glue_charge_68k_stall cycles b =
    (let b = b\<lparr>g_audio_cycle_counter := g_audio_cycle_counter b + cycles\<rparr>
     in if s_interleave_active b \<and> \<not> s_in_vblank_service b
        then b\<lparr>s_main_cpu_stalls := s_main_cpu_stalls b + cycles\<rparr> else b)"

section \<open>FM timer B\<close>

definition MASTER_CYCLES_PER_FRAME :: u64 where "MASTER_CYCLES_PER_FRAME = 262 * 3420"
definition YM_TIMER_B_MASTER_TICK :: u64 where "YM_TIMER_B_MASTER_TICK = 16 * 144 * 7"

definition ym_abs_z80_stamp :: "gbus \<Rightarrow> u64" where
  "ym_abs_z80_stamp b = g_snd_frame b * MASTER_CYCLES_PER_FRAME + ucast (machine_z80_stamp b)"

definition ym_abs_68k_stamp :: "gbus \<Rightarrow> u64" where
  "ym_abs_68k_stamp b = g_snd_frame b * MASTER_CYCLES_PER_FRAME + ucast (STAMP_68K b)"

definition ym_timer_update :: "u64 \<Rightarrow> gbus \<Rightarrow> gbus" where
  "ym_timer_update now b =
    (if \<not> ym_timer_b_running b \<or> ym_timer_b_period b = 0 \<or> now < ym_timer_b_deadline b then b
     else
       let b = (if bit (ym_mode b) 3 then b\<lparr>ym_status := ym_status b OR 0x02\<rparr> else b);
           elapsed = now - ym_timer_b_deadline b;
           periods = elapsed div ym_timer_b_period b + 1
       in b\<lparr>ym_timer_b_deadline := ym_timer_b_deadline b + periods * ym_timer_b_period b\<rparr>)"

definition timer_b_period_of :: "u8 \<Rightarrow> u64" where
  "timer_b_period_of val = ucast (256 - ucast val :: u32) * YM_TIMER_B_MASTER_TICK"

definition ym_mode_write :: "u8 \<Rightarrow> u64 \<Rightarrow> gbus \<Rightarrow> gbus" where
  "ym_mode_write val now b =
    (let b = (if bit val 4 then b\<lparr>ym_status := ym_status b AND 0xFE\<rparr> else b);
         b = (if bit val 5 then b\<lparr>ym_status := ym_status b AND 0xFD\<rparr> else b);
         b = b\<lparr>ym_mode := val\<rparr>
     in if bit val 1 then
          let b = (if ym_timer_b_period b = 0
                   then b\<lparr>ym_timer_b_period := timer_b_period_of (ym_timer_b b)\<rparr> else b)
          in b\<lparr>ym_timer_b_running := True, ym_timer_b_deadline := now + ym_timer_b_period b\<rparr>
        else b\<lparr>ym_timer_b_running := False\<rparr>)"

definition ym_write_side_effect :: "u8 \<Rightarrow> u8 \<Rightarrow> u64 \<Rightarrow> gbus \<Rightarrow> gbus" where
  "ym_write_side_effect prt val now b =
    (let b = ym_timer_update now b; bank = (if bit prt 1 then 1 else 0)
     in if \<not> bit prt 0 then b\<lparr>ym_addr := (ym_addr b)(bank := val)\<rparr>
        else if bank \<noteq> 0 then b
        else if ym_addr b 0 = 0x26 then
          b\<lparr>ym_timer_b := val, ym_timer_b_period := timer_b_period_of val\<rparr>
        else if ym_addr b 0 = 0x27 then ym_mode_write val now b
        else b)"

section \<open>Initialisation and battery RAM\<close>

definition gbus_init :: "gbus \<Rightarrow> gbus" where
  "gbus_init b = b\<lparr>z80_ram := \<lambda>_. 0, z80_bank := 0, z80_busreq := False, z80_reset_off := False,
     z80_reset_pending := False, ym_addr := \<lambda>_. 0, ym_timer_b := 0, ym_mode := 0, ym_status := 0,
     ym_timer_b_running := False, ym_timer_b_deadline := 0, ym_timer_b_period := 0,
     pad := \<lambda>_. 0, pad_type := \<lambda>_. 0, pad_th_count := \<lambda>_. 0, pad_th_prev := \<lambda>_. 0,
     io_data := \<lambda>_. 0, io_ctrl := \<lambda>_. 0, version := 0x80, sram := \<lambda>_. 0, sram_base := 0,
     sram_end := 0, sram_size := 0, sram_present := False, sram_enabled := False\<rparr>"

text \<open>\<^verbatim>\<open>a & ~1u\<close>: the word that holds the byte at \<open>a\<close>.\<close>

definition even_addr :: "u32 \<Rightarrow> u32" where
  "even_addr a = a AND NOT 1"

definition SRAM_BYTES :: u32 where "SRAM_BYTES = 0x4000"

definition map_sram :: "u32 \<Rightarrow> u32 \<Rightarrow> gbus \<Rightarrow> gbus" where
  "map_sram start end_addr b =
    (let base = even_addr start
     in if end_addr > base \<and> end_addr - base + 1 \<le> SRAM_BYTES
        then b\<lparr>sram_present := True, sram_base := base, sram_end := end_addr, sram_size := end_addr - base + 1\<rparr>
        else b)"

definition rom32 :: "gbus \<Rightarrow> u32 \<Rightarrow> u32" where
  "rom32 b a = push_bit 24 (ucast (g_rom b a)) OR push_bit 16 (ucast (g_rom b (a + 1)))
     OR push_bit 8 (ucast (g_rom b (a + 2))) OR ucast (g_rom b (a + 3))"

definition gbus_sram_setup :: "gbus \<Rightarrow> gbus" where
  "gbus_sram_setup b =
    (if g_rom b 0x1B0 = 0x52 \<and> g_rom b 0x1B1 = 0x41
     then map_sram (rom32 b 0x1B4) (rom32 b 0x1B8) b else b)"

definition gbus_sram_set_geometry :: "u32 \<Rightarrow> u32 \<Rightarrow> gbus \<Rightarrow> gbus" where
  "gbus_sram_set_geometry start end_addr b =
    (if sram_present b \<or> start = 0 then b else map_sram start end_addr b)"

definition sram_hit :: "gbus \<Rightarrow> u32 \<Rightarrow> bool" where
  "sram_hit b a \<longleftrightarrow> sram_present b \<and> sram_enabled b \<and> sram_base b \<le> a \<and> a \<le> sram_end b"

definition gbus_sram_size :: "gbus \<Rightarrow> u32" where
  "gbus_sram_size b = (if sram_present b then sram_size b else 0)"

section \<open>Controllers\<close>

definition GPAD_UP :: u16 where "GPAD_UP = 0x01"
definition GPAD_DOWN :: u16 where "GPAD_DOWN = 0x02"
definition GPAD_LEFT :: u16 where "GPAD_LEFT = 0x04"
definition GPAD_RIGHT :: u16 where "GPAD_RIGHT = 0x08"
definition GPAD_B :: u16 where "GPAD_B = 0x10"
definition GPAD_C :: u16 where "GPAD_C = 0x20"
definition GPAD_A :: u16 where "GPAD_A = 0x40"
definition GPAD_START :: u16 where "GPAD_START = 0x80"
definition GPAD_X :: u16 where "GPAD_X = 0x100"
definition GPAD_Y :: u16 where "GPAD_Y = 0x200"
definition GPAD_Z :: u16 where "GPAD_Z = 0x400"
definition GPAD_MODE :: u16 where "GPAD_MODE = 0x800"

lemmas GPAD_defs = GPAD_UP_def GPAD_DOWN_def GPAD_LEFT_def GPAD_RIGHT_def GPAD_B_def GPAD_C_def
  GPAD_A_def GPAD_START_def GPAD_X_def GPAD_Y_def GPAD_Z_def GPAD_MODE_def

text \<open>\<^verbatim>\<open>(p & m) ? 0 : r\<close>: a pressed button pulls its line down.\<close>

definition line_of :: "u16 \<Rightarrow> u16 \<Rightarrow> u8 \<Rightarrow> u8" where
  "line_of p m r = (if p AND m \<noteq> 0 then 0 else r)"

definition pad_cbrldu :: "u16 \<Rightarrow> u8" where
  "pad_cbrldu p = 0x40 OR line_of p GPAD_C 0x20 OR line_of p GPAD_B 0x10 OR line_of p GPAD_RIGHT 0x08
     OR line_of p GPAD_LEFT 0x04 OR line_of p GPAD_DOWN 0x02 OR line_of p GPAD_UP 0x01"

definition pad_sadu :: "u16 \<Rightarrow> u8" where
  "pad_sadu p = line_of p GPAD_START 0x20 OR line_of p GPAD_A 0x10 OR line_of p GPAD_DOWN 0x02
     OR line_of p GPAD_UP 0x01"

definition pad_read :: "gbus \<Rightarrow> nat \<Rightarrow> u8" where
  "pad_read b prt =
    (let p = pad b prt; th = bit (io_data b prt) 6
     in if pad_type b prt = 1 then
          let c = pad_th_count b prt
          in if th then
               if c \<ge> 3 then
                 0x40 OR line_of p GPAD_C 0x20 OR line_of p GPAD_B 0x10 OR line_of p GPAD_MODE 0x08
                   OR line_of p GPAD_X 0x04 OR line_of p GPAD_Y 0x02 OR line_of p GPAD_Z 0x01
               else pad_cbrldu p
             else if c \<ge> 4 then 0x0F OR line_of p GPAD_START 0x20 OR line_of p GPAD_A 0x10
             else if c = 3 then line_of p GPAD_START 0x20 OR line_of p GPAD_A 0x10
             else pad_sadu p
        else if th then pad_cbrldu p
        else pad_sadu p)"

definition io_read :: "gbus \<Rightarrow> u32 \<Rightarrow> u16" where
  "io_read b a =
    (let r = a AND 0x1E
     in if r = 0x00 then ucast (version b)
        else if r = 0x02 then ucast (pad_read b 0)
        else if r = 0x04 then ucast (pad_read b 1)
        else if r = 0x06 then 0xFF
        else if r = 0x08 then ucast (io_ctrl b 0)
        else if r = 0x0A then ucast (io_ctrl b 1)
        else if r = 0x0C then ucast (io_ctrl b 2)
        else 0)"

definition pad_io_tick :: "nat \<Rightarrow> u8 \<Rightarrow> gbus \<Rightarrow> gbus" where
  "pad_io_tick prt new_data b =
    (let th = new_data AND 0x40
     in if pad_type b prt \<noteq> 1 then b\<lparr>pad_th_prev := (pad_th_prev b)(prt := th)\<rparr>
        else
          let b = (if pad_th_prev b prt \<noteq> 0 \<and> th = 0 \<and> pad_th_count b prt < 0xFF
                   then b\<lparr>pad_th_count := (pad_th_count b)(prt := pad_th_count b prt + 1)\<rparr> else b)
          in b\<lparr>pad_th_prev := (pad_th_prev b)(prt := th)\<rparr>)"

definition set_io_data :: "nat \<Rightarrow> u8 \<Rightarrow> gbus \<Rightarrow> gbus" where
  "set_io_data i v b = b\<lparr>io_data := (io_data b)(i := v)\<rparr>"

definition set_io_ctrl :: "nat \<Rightarrow> u8 \<Rightarrow> gbus \<Rightarrow> gbus" where
  "set_io_ctrl i v b = b\<lparr>io_ctrl := (io_ctrl b)(i := v)\<rparr>"

definition io_write :: "u32 \<Rightarrow> u8 \<Rightarrow> gbus \<Rightarrow> gbus" where
  "io_write a v b =
    (let r = a AND 0x1E
     in if r = 0x02 then set_io_data 0 v (pad_io_tick 0 v b)
        else if r = 0x04 then set_io_data 1 v (pad_io_tick 1 v b)
        else if r = 0x06 then set_io_data 2 v b
        else if r = 0x08 then set_io_ctrl 0 v b
        else if r = 0x0A then set_io_ctrl 1 v b
        else if r = 0x0C then set_io_ctrl 2 v b
        else b)"

definition machine_set_pad :: "int \<Rightarrow> u16 \<Rightarrow> gbus \<Rightarrow> gbus" where
  "machine_set_pad prt buttons b =
    (if 0 \<le> prt \<and> prt < 2 then
       let i = nat prt
       in b\<lparr>pad := (pad b)(i := buttons), pad_th_count := (pad_th_count b)(i := 0),
            pad_th_prev := (pad_th_prev b)(i := io_data b i AND 0x40)\<rparr>
     else b)"

definition machine_set_pad_type :: "int \<Rightarrow> bool \<Rightarrow> gbus \<Rightarrow> gbus" where
  "machine_set_pad_type prt six_button b =
    (if 0 \<le> prt \<and> prt < 2 then b\<lparr>pad_type := (pad_type b)(nat prt := if six_button then 1 else 0)\<rparr> else b)"

section \<open>The 68000 side\<close>

definition gbus_expansion_word :: "gbus \<Rightarrow> u32 \<Rightarrow> u16 option" where
  "gbus_expansion_word b adr =
    (case g_rom_ext b of
       None \<Rightarrow> None
     | Some ext \<Rightarrow>
         if adr < 0x400000 \<or> adr \<ge> 0x800000 then None
         else
           let offset = adr - 0x400000
           in if offset \<ge> g_rom_ext_size b then None
              else Some (be16 (ext offset)
                (if offset + 1 < g_rom_ext_size b \<and> adr + 1 < 0x800000 then ext (offset + 1) else 0xFF)))"

text \<open>
  The regions of the map, in the order in which the reads test them. The battery RAM overlay comes
  first, the expansion bank before everything behind the cartridge.
\<close>

definition sram_word :: "gbus \<Rightarrow> u32 \<Rightarrow> u16" where
  "sram_word b a =
    (let o' = a - sram_base b in be16 (sram b o') (sram b ((o' + 1) mod sram_size b)))"

definition ram_word :: "gbus \<Rightarrow> u32 \<Rightarrow> u16" where
  "ram_word b a = (let o' = ucast a :: u16 in be16 (g_ram b o') (g_ram b (o' + 1)))"

definition z80_word :: "gbus \<Rightarrow> u32 \<Rightarrow> u16" where
  "z80_word b a =
    (let off = ucast a AND 0x1FFF :: u16 in be16 (z80_ram b off) (z80_ram b ((off + 1) AND 0x1FFF)))"

definition ym_status_word :: "gbus \<Rightarrow> u16" where
  "ym_status_word b = ucast (ym_status b) * 0x0101"

definition gbus_read16 :: "u32 \<Rightarrow> bstate \<Rightarrow> u16 \<times> bstate" where
  "gbus_read16 addr s =
    (let (v, b) = s; a = addr AND 0xFFFFFF in
     if sram_hit b a then (sram_word b a, s)
     else if a < 0x400000 then (be16 (g_rom b a) (g_rom b (a + 1)), s)
     else (case gbus_expansion_word b a of Some w \<Rightarrow> (w, s) | None \<Rightarrow>
       if a \<ge> 0xFF0000 then (ram_word b a, s)
       else if a \<ge> 0xC00000 \<and> a < 0xC00010 then
         (if a < 0xC00004 then (let (w, v) = gvdp_read_data v in (w, (v, b)))
          else if a < 0xC00008 then (let (w, v) = gvdp_read_control v in (w, (v, b)))
          else (gvdp_read_hv_counter v, s))
       else if a \<ge> 0xA00000 \<and> a < 0xA10000 then
         (if a AND 0xFFFF < 0x2000 then (z80_word b a, s)
          else if a AND 0xFFFF < 0x6000 then
            (let b = ym_timer_update (ym_abs_68k_stamp b) b in (ym_status_word b, (v, b)))
          else (0xFFFF, s))
       else if a \<ge> 0xA10000 \<and> a < 0xA10020 then (io_read b a, s)
       else if a = 0xA11100 then (if z80_busreq b then 0x0000 else 0x0100, s)
       else if a = 0xA11200 then (if z80_reset_off b then 0x0100 else 0x0000, s)
       else (0xFFFF, s)))"

definition gbus_peek16 :: "bstate \<Rightarrow> u32 \<Rightarrow> u16" where
  "gbus_peek16 s addr =
    (let (v, b) = s; a = addr AND 0xFFFFFF in
     if sram_hit b a then sram_word b a
     else if a < 0x400000 then be16 (g_rom b a) (g_rom b (a + 1))
     else (case gbus_expansion_word b a of Some w \<Rightarrow> w | None \<Rightarrow>
       if a \<ge> 0xFF0000 then ram_word b a
       else if a \<ge> 0xC00000 \<and> a < 0xC00010 then
         (if a < 0xC00004 then gvdp_peek_data v
          else if a < 0xC00008 then gvdp_peek_status v
          else gvdp_read_hv_counter v)
       else if a \<ge> 0xA00000 \<and> a < 0xA10000 then
         (if a AND 0xFFFF < 0x2000 then z80_word b a
          else if a AND 0xFFFF < 0x6000 then ym_status_word b
          else 0xFFFF)
       else if a \<ge> 0xA10000 \<and> a < 0xA10020 then io_read b a
       else if a = 0xA11100 then (if z80_busreq b then 0x0000 else 0x0100)
       else if a = 0xA11200 then (if z80_reset_off b then 0x0100 else 0x0000)
       else 0xFFFF))"

text \<open>The half of a word that a byte access at \<open>a\<close> sees.\<close>

definition half_of :: "u32 \<Rightarrow> u16 \<Rightarrow> u8" where
  "half_of a w = (if bit a 0 then lo8 w else hi8 w)"

definition z80_area :: "u32 \<Rightarrow> bool" where
  "z80_area a \<longleftrightarrow> a \<ge> 0xA00000 \<and> a < 0xA10000 \<and> a AND 0xFFFF < 0x2000"

definition gbus_peek8 :: "bstate \<Rightarrow> u32 \<Rightarrow> u8" where
  "gbus_peek8 s addr =
    (let b = snd s; a = addr AND 0xFFFFFF in
     if z80_area a then z80_ram b (ucast a AND 0x1FFF)
     else if sram_hit b a then sram b (a - sram_base b)
     else half_of a (gbus_peek16 s (even_addr a)))"

definition gbus_read8 :: "u32 \<Rightarrow> bstate \<Rightarrow> u8 \<times> bstate" where
  "gbus_read8 a s =
    (let b = snd s in
     if z80_area a then (z80_ram b (ucast a AND 0x1FFF), s)
     else if sram_hit b (a AND 0xFFFFFF) then (sram b ((a AND 0xFFFFFF) - sram_base b), s)
     else let (w, s) = gbus_read16 (even_addr a) s in (half_of a w, s))"

definition charge_dma :: "bstate \<Rightarrow> bstate" where
  "charge_dma s =
    (let (v, b) = s; (st, v) = gvdp_consume_68k_stall v
     in (v, if st \<noteq> 0 then glue_charge_68k_stall st b else b))"

definition z80_store :: "u32 \<Rightarrow> u8 \<Rightarrow> gbus \<Rightarrow> gbus" where
  "z80_store a val b = b\<lparr>z80_ram := (z80_ram b)(ucast a AND 0x1FFF := val)\<rparr>"

definition fm_port_68k :: "u32 \<Rightarrow> u8 \<Rightarrow> gbus \<Rightarrow> gbus" where
  "fm_port_68k a val b =
    (let prt = ucast (a AND 3)
     in push_68k prt val (ym_write_side_effect prt val (ym_abs_68k_stamp b) b))"

definition gbus_write16 :: "u32 \<Rightarrow> u16 \<Rightarrow> bstate \<Rightarrow> bstate" where
  "gbus_write16 addr val s =
    (let (v, b) = s; a = addr AND 0xFFFFFF in
     if a \<ge> 0xFF0000 then
       (let o' = ucast a :: u16 in (v, b\<lparr>g_ram := (g_ram b)(o' := hi8 val, o' + 1 := lo8 val)\<rparr>))
     else if sram_hit b a then
       (let o' = a - sram_base b
        in (v, b\<lparr>sram := (sram b)(o' := hi8 val, (o' + 1) mod sram_size b := lo8 val)\<rparr>))
     else if a = 0xA130F0 then (v, b\<lparr>sram_enabled := bit val 0\<rparr>)
     else if a < 0x400000 then s
     else if a \<ge> 0xC00000 \<and> a < 0xC00010 then
       charge_dma (if a < 0xC00004 then (gvdp_write_data val v, b)
                   else if a < 0xC00008 then gvdp_write_control (Some gbus_read16) val (v, b)
                   else s)
     else if a \<ge> 0xC00010 \<and> a < 0xC00018 then (v, push_68k AUDIO_PORT_PSG (lo8 val) b)
     else if a \<ge> 0xA00000 \<and> a < 0xA10000 then
       (if a AND 0xFFFF < 0x2000 then (v, z80_store a (hi8 val) b)
        else if a \<ge> 0xA04000 \<and> a \<le> 0xA04003 then (v, fm_port_68k a (lo8 val) b)
        else s)
     else if a \<ge> 0xA10000 \<and> a < 0xA10020 then (v, io_write a (lo8 val) b)
     else if a = 0xA11100 then (v, b\<lparr>z80_busreq := bit val 8\<rparr>)
     else if a = 0xA11200 then
       (v, b\<lparr>z80_reset_off := bit val 8,
             z80_reset_pending := (z80_reset_pending b \<or> z80_reset_off b \<and> \<not> bit val 8)\<rparr>)
     else s)"

definition gbus_write8 :: "u32 \<Rightarrow> u8 \<Rightarrow> bstate \<Rightarrow> bstate" where
  "gbus_write8 addr val s =
    (let (v, b) = s; a = addr AND 0xFFFFFF in
     if a \<ge> 0xFF0000 then (v, b\<lparr>g_ram := (g_ram b)(ucast a := val)\<rparr>)
     else if a \<ge> 0xA00000 \<and> a < 0xA10000 then
       (if a AND 0xFFFF < 0x2000 then (v, z80_store a val b)
        else if a \<ge> 0xA04000 \<and> a \<le> 0xA04003 then (v, fm_port_68k a val b)
        else s)
     else if a = 0xC00011 then (v, push_68k AUDIO_PORT_PSG val b)
     else if sram_hit b a then (v, b\<lparr>sram := (sram b)(a - sram_base b := val)\<rparr>)
     else if a = 0xA130F1 \<or> a = 0xA130F0 then (v, b\<lparr>sram_enabled := bit val 0\<rparr>)
     else gbus_write16 (even_addr a) (be16 val val) s)"

section \<open>The Z80 side\<close>

definition z80_window :: "gbus \<Rightarrow> u16 \<Rightarrow> u32" where
  "z80_window b addr = push_bit 15 (z80_bank b) + (ucast addr - 0x8000)"

definition gbus_z80_read :: "u16 \<Rightarrow> bstate \<Rightarrow> u8 \<times> bstate" where
  "gbus_z80_read addr s =
    (let (v, b) = s in
     if addr < 0x4000 then (z80_ram b (addr AND 0x1FFF), s)
     else if addr < 0x6000 then
       (let b = ym_timer_update (ym_abs_z80_stamp b) b in (ym_status b, (v, b)))
     else if addr < 0x8000 then (0xFF, s)
     else gbus_read8 (z80_window b addr) s)"

definition gbus_z80_write :: "u16 \<Rightarrow> u8 \<Rightarrow> bstate \<Rightarrow> bstate" where
  "gbus_z80_write addr val s =
    (let (v, b) = s in
     if addr < 0x4000 then (v, b\<lparr>z80_ram := (z80_ram b)(addr AND 0x1FFF := val)\<rparr>)
     else if addr < 0x6000 then
       (let prt = ucast (addr AND 3)
        in (v, push_z80 prt val (ym_write_side_effect prt val (ym_abs_z80_stamp b) b)))
     else if addr < 0x6100 then
       (v, b\<lparr>z80_bank := (drop_bit 1 (z80_bank b) OR push_bit 8 (ucast (val AND 1))) AND 0x1FF\<rparr>)
     else if addr = 0x7F11 then (v, push_z80 AUDIO_PORT_PSG val b)
     else if addr \<ge> 0x8000 then gbus_write8 (z80_window b addr) val s
     else s)"

end
