(* ===== verification/Genesis_Bus_Props.thy ===== *)
theory Genesis_Bus_Props
  imports Genesis_Bus Genesis_Vdp_Props
begin

text \<open>
  Properties of the bus: the memories behind it behave as memories from both processors, host
  inspection agrees with reading, the FM timer can be polled at any rate, battery RAM stays within
  its buffer, the six-button controller protocol and the serial bank register of the Z80.
\<close>

section \<open>Addresses\<close>

lemma uint_and_24: "uint (a AND 0xFFFFFF) = uint a mod 2 ^ 24" for a :: u32
proof -
  have "uint (a AND 0xFFFFFF) = uint a AND mask 24" by (simp add: uint_and mask_eq_exp_minus_1)
  then show ?thesis by (simp add: take_bit_eq_mask [symmetric] take_bit_eq_mod)
qed

lemma and_24_id [simp]: "a \<le> 0xFFFFFF \<Longrightarrow> a AND 0xFFFFFF = a" for a :: u32
  by (simp add: word_uint_eq_iff uint_and_24 word_le_def)

lemma and_24_idem [simp]: "(a AND 0xFFFFFF) AND 0xFFFFFF = a AND 0xFFFFFF" for a :: u32
  by (simp add: and.assoc)

lemma even_addr_alt: "even_addr a = 2 * (a div 2)"
proof -
  have "even_addr a = push_bit 1 (drop_bit 1 a)"
    unfolding even_addr_def by (rule bit_word_eqI) (auto simp only: bit_simps bit_1_iff; auto)
  then show ?thesis by (simp add: push_bit_eq_mult drop_bit_eq_div mult.commute)
qed

lemma uint_even_addr: "uint (even_addr a) = 2 * (uint a div 2)"
  using uint_range_size [of a]
  by (simp add: even_addr_alt uint_word_ariths uint_div_distrib word_size)

lemma even_part: "even a \<Longrightarrow> even_addr a = a" "odd a \<Longrightarrow> even_addr a + 1 = a"
proof -
  have p: "even a \<longleftrightarrow> even (uint a)" by (metis bit_0 bit_uint_iff len_gt_0)
  show "even a \<Longrightarrow> even_addr a = a" by (simp add: word_uint_eq_iff uint_even_addr p)
  show "odd a \<Longrightarrow> even_addr a + 1 = a"
    using uint_range_size [of a] by (simp add: word_uint_eq_iff uint_even_addr uint_word_ariths p word_size)
qed

lemma even_addr_mono: "even m \<Longrightarrow> m \<le> a \<Longrightarrow> m \<le> even_addr a" "even_addr a \<le> a"
  "even_addr (a AND 0xFFFFFF) = even_addr a AND 0xFFFFFF"
proof -
  have "uint m \<le> 2 * (uint a div 2)" if "even m" "uint m \<le> uint a"
  proof -
    have "even (uint m)" using that(1) by (metis bit_0 bit_uint_iff len_gt_0)
    then show ?thesis using that(2) by presburger
  qed
  then show "even m \<Longrightarrow> m \<le> a \<Longrightarrow> m \<le> even_addr a" "even_addr a \<le> a"
    by (simp_all add: word_le_def uint_even_addr)
  show "even_addr (a AND 0xFFFFFF) = even_addr a AND 0xFFFFFF"
    unfolding even_addr_def by (simp only: and.assoc and.commute and.left_commute)
qed

lemma half_of_byte [simp]: "half_of a (be16 h l) = (if odd a then l else h)"
  by (simp add: half_of_def bit_0)

section \<open>Memories\<close>

text \<open>
  What both processors expect of a memory: a stored byte is read back, and storing it changes no
  other byte. Everything about blocks follows.
\<close>

locale byte_memory =
  fixes rd :: "'s \<Rightarrow> 'a \<Rightarrow> 'v"
    and wr :: "'a \<Rightarrow> 'v \<Rightarrow> 's \<Rightarrow> 's"
    and mem_ok :: "'s \<Rightarrow> bool"
    and valid :: "'a \<Rightarrow> bool"
  assumes wr_ok: "mem_ok s \<Longrightarrow> valid a \<Longrightarrow> mem_ok (wr a x s)"
    and read_same: "mem_ok s \<Longrightarrow> valid a \<Longrightarrow> rd (wr a x s) a = x"
    and read_other: "mem_ok s \<Longrightarrow> valid a \<Longrightarrow> valid a' \<Longrightarrow> a' \<noteq> a \<Longrightarrow> rd (wr a x s) a' = rd s a'"
begin

lemma block_ok: "mem_ok s \<Longrightarrow> \<forall>(a, x) \<in> set ws. valid a \<Longrightarrow> mem_ok (fold (\<lambda>(a, x). wr a x) ws s)"
  by (induction ws arbitrary: s) (auto simp: wr_ok)

lemma block_frame:
  "mem_ok s \<Longrightarrow> \<forall>(a, x) \<in> set ws. valid a \<Longrightarrow> valid a' \<Longrightarrow> a' \<notin> fst ` set ws \<Longrightarrow>
    rd (fold (\<lambda>(a, x). wr a x) ws s) a' = rd s a'"
  by (induction ws arbitrary: s) (auto simp: wr_ok read_other)

lemma block_round_trip:
  assumes "mem_ok s" "\<forall>(a, x) \<in> set ws. valid a" "distinct (map fst ws)" "(a, x) \<in> set ws"
  shows "rd (fold (\<lambda>(a, x). wr a x) ws s) a = x"
  using assms
proof (induction ws arbitrary: s)
  case (Cons w ws)
  obtain a' x' where w: "w = (a', x')" by fastforce
  show ?case
  proof (cases "(a, x) \<in> set ws")
    case True
    then show ?thesis using Cons by (auto simp: w wr_ok)
  next
    case False
    with Cons.prems have "a = a'" "x = x'" "a \<notin> fst ` set ws" by (auto simp: w)
    then show ?thesis using Cons.prems by (simp add: w block_frame wr_ok read_same)
  qed
qed simp

lemma last_write:
  assumes "mem_ok s" "\<forall>(a, x) \<in> set ws. valid a" "valid a'"
  shows "rd (fold (\<lambda>(a, x). wr a x) ws s) a' = (case map_of (rev ws) a' of Some x \<Rightarrow> x | None \<Rightarrow> rd s a')"
  using assms(1,2)
proof (induction ws rule: rev_induct)
  case (snoc w ws)
  then show ?case using assms(3) block_ok [of s ws]
    by (cases w) (auto simp: read_same read_other)
qed simp

end

definition cart_sram :: "gbus \<Rightarrow> bool" where
  "cart_sram b \<longleftrightarrow> sram_present b \<longrightarrow> sram_end b < 0xA00000"

lemma no_sram_above: "cart_sram b \<Longrightarrow> 0xA00000 \<le> a \<Longrightarrow> \<not> sram_hit b a"
  by (auto simp: cart_sram_def sram_hit_def not_le)

lemma no_expansion_above: "0x800000 \<le> a \<Longrightarrow> gbus_expansion_word b a = None"
  by (simp add: gbus_expansion_word_def split: option.splits)

definition ram_address :: "u32 \<Rightarrow> bool" where
  "ram_address a \<longleftrightarrow> 0xFF0000 \<le> a \<and> a \<le> 0xFFFFFF"

lemma not_z80_area_ram: "0xFF0000 \<le> a \<Longrightarrow> \<not> z80_area a"
  by (simp add: z80_area_def word_le_def word_less_def)

lemma ucast_Suc: "(ucast a :: u16) + 1 = ucast (a + 1)" for a :: u32
  by (simp add: unsigned_ucast_eq word_uint_eq_iff uint_word_ariths take_bit_eq_mod mod_mod_cancel mod_add_left_eq)

lemma read8_ram:
  assumes "cart_sram (snd s)" "ram_address a"
  shows "gbus_read8 a s = (g_ram (snd s) (ucast a), s)"
proof -
  have a: "0xFF0000 \<le> a" "a \<le> 0xFFFFFF" using assms(2) by (simp_all add: ram_address_def)
  have e: "0xFF0000 \<le> even_addr a" "even_addr a \<le> 0xFFFFFF"
    using a even_addr_mono(1) [of "0xFF0000" a] order_trans [OF even_addr_mono(2) a(2)] by simp_all
  have big: "0xA00000 \<le> x" "0x800000 \<le> x" "\<not> x < 0x400000" if "0xFF0000 \<le> x" for x :: u32
    using that by (simp_all add: word_le_def word_less_def)
  have "gbus_read16 (even_addr a) s = (ram_word (snd s) (even_addr a), s)"
    using e big [OF e(1)] assms(1)
    by (simp add: gbus_read16_def split_beta Let_def no_sram_above no_expansion_above)
  moreover have "half_of a (ram_word (snd s) (even_addr a)) = g_ram (snd s) (ucast a)"
    using even_part [of a] by (auto simp: ram_word_def Let_def ucast_Suc)
  ultimately show ?thesis
    using big [OF a(1)] a assms(1) by (simp add: gbus_read8_def not_z80_area_ram no_sram_above)
qed

lemma write8_ram:
  "ram_address a \<Longrightarrow> gbus_write8 a x s = (fst s, (snd s)\<lparr>g_ram := (g_ram (snd s))(ucast a := x)\<rparr>)"
  by (simp add: gbus_write8_def ram_address_def split_beta)

lemma ram_index_inj: "ram_address a \<Longrightarrow> ram_address a' \<Longrightarrow> (ucast a :: u16) = ucast a' \<Longrightarrow> a = a'"
proof -
  have "uint (ucast x :: u16) = uint x - 0xFF0000" if "ram_address x" for x
  proof -
    obtain k where k: "uint x = 0xFF0000 + k" by (metis add.commute diff_add_cancel)
    then have "0 \<le> k" "k < 65536" using that by (simp_all add: ram_address_def word_le_def)
    then have "(0xFF0000 + k) mod 65536 = k" by (simp add: mod_pos_pos_trivial mod_add_eq [symmetric])
    then show ?thesis by (simp add: unsigned_ucast_eq take_bit_eq_mod k)
  qed
  then show "ram_address a \<Longrightarrow> ram_address a' \<Longrightarrow> (ucast a :: u16) = ucast a' \<Longrightarrow> a = a'"
    by (metis diff_add_cancel word_uint_eq_iff)
qed

lemma cart_sram_ram [simp]: "cart_sram (b\<lparr>g_ram := f\<rparr>) = cart_sram b"
  by (simp add: cart_sram_def)

interpretation work_ram: byte_memory "\<lambda>s a. fst (gbus_read8 a s)" gbus_write8 "\<lambda>s. cart_sram (snd s)" ram_address
  by unfold_locales (auto simp: write8_ram read8_ram dest: ram_index_inj)

text \<open>The Z80's view of its RAM against the 68000's stores into it.\<close>

definition z80_address :: "u16 \<Rightarrow> bool" where
  "z80_address a \<longleftrightarrow> a < 0x2000"

definition upload_byte :: "u16 \<Rightarrow> u8 \<Rightarrow> bstate \<Rightarrow> bstate" where
  "upload_byte a = gbus_write8 (0xA00000 + ucast a)"

lemma z80_mask: "z80_address a \<Longrightarrow> a AND 0x1FFF = a"
proof -
  have "uint (a AND 0x1FFF) = uint a AND mask 13" by (simp add: uint_and mask_eq_exp_minus_1)
  then show "z80_address a \<Longrightarrow> a AND 0x1FFF = a"
    by (simp add: take_bit_eq_mask [symmetric] take_bit_eq_mod z80_address_def word_uint_eq_iff word_less_def)
qed

lemma z80_area_facts:
  assumes "z80_address a"
  defines "w \<equiv> 0xA00000 + ucast a :: u32"
  shows "w AND 0xFFFFFF = w" "0xA00000 \<le> w" "w < 0xA10000" "w AND 0xFFFF < 0x2000" "ucast w = a" "\<not> 0xFF0000 \<le> w"
proof -
  have ua: "0 \<le> uint a" "uint a < 0x2000" using assms(1) by (simp_all add: z80_address_def word_less_def)
  then have u: "uint w = 0xA00000 + uint a" by (simp add: w_def uint_word_ariths unsigned_ucast_eq take_bit_int_eq_self)
  have "uint (w AND 0xFFFF) = uint w AND mask 16" by (simp add: uint_and mask_eq_exp_minus_1)
  then have m: "uint (w AND 0xFFFF) = uint w mod 2 ^ 16" by (simp add: take_bit_eq_mask [symmetric] take_bit_eq_mod)
  have "(0xA00000 + uint a) mod 2 ^ 16 = uint a" using ua by (simp add: mod_pos_pos_trivial mod_add_eq [symmetric])
  note k = this
  show "w AND 0xFFFFFF = w" "0xA00000 \<le> w" "w < 0xA10000" "\<not> 0xFF0000 \<le> w"
    using u ua by (simp_all add: word_le_def word_less_def)
  show "w AND 0xFFFF < 0x2000" using m u k ua by (simp add: word_less_def)
  show "ucast w = a" using u k by (simp add: word_uint_eq_iff unsigned_ucast_eq take_bit_eq_mod)
qed

lemma upload_byte_z80:
  "z80_address a \<Longrightarrow> upload_byte a x s = (fst s, (snd s)\<lparr>z80_ram := (z80_ram (snd s))(a := x)\<rparr>)"
  by (simp add: upload_byte_def gbus_write8_def split_beta Let_def z80_area_facts z80_store_def z80_mask)

lemma z80_read_ram: "z80_address a \<Longrightarrow> gbus_z80_read a s = (z80_ram (snd s) a, s)"
  by (simp add: gbus_z80_read_def split_beta z80_mask) (simp add: z80_address_def word_less_def)

interpretation sound_ram: byte_memory "\<lambda>s a. fst (gbus_z80_read a s)" upload_byte "\<lambda>_. True" z80_address
  by unfold_locales (simp_all add: upload_byte_z80 z80_read_ram)

text \<open>Battery RAM, mapped at a fixed place below the Z80 area.\<close>

definition sram_at :: "u32 \<Rightarrow> u32 \<Rightarrow> bstate \<Rightarrow> bool" where
  "sram_at lo hi s \<longleftrightarrow> sram_present (snd s) \<and> sram_enabled (snd s) \<and> sram_base (snd s) = lo
     \<and> sram_end (snd s) = hi \<and> hi < 0xA00000"

definition between_addr :: "u32 \<Rightarrow> u32 \<Rightarrow> u32 \<Rightarrow> bool" where
  "between_addr lo hi a \<longleftrightarrow> lo \<le> a \<and> a \<le> hi \<and> a < 0xA00000"

lemma below_z80:
  assumes "a < (0xA00000 :: u32)"
  shows "a AND 0xFFFFFF = a" "\<not> 0xA00000 \<le> a" "\<not> 0xFF0000 \<le> a" "a \<noteq> 0xC00011" "\<not> z80_area a"
  using assms by (auto simp: word_le_def word_less_def z80_area_def)

lemma sram_access:
  assumes "sram_at lo hi s" "between_addr lo hi a"
  shows "gbus_write8 a x s = (fst s, (snd s)\<lparr>sram := (sram (snd s))(a - lo := x)\<rparr>)"
    "gbus_read8 a s = (sram (snd s) (a - lo), s)"
proof -
  have a: "a < 0xA00000" and hit: "sram_hit (snd s) a" and lo: "sram_base (snd s) = lo"
    using assms by (auto simp: sram_at_def between_addr_def sram_hit_def)
  show "gbus_write8 a x s = (fst s, (snd s)\<lparr>sram := (sram (snd s))(a - lo := x)\<rparr>)"
    using below_z80 [OF a] hit lo by (simp add: gbus_write8_def split_beta Let_def)
  show "gbus_read8 a s = (sram (snd s) (a - lo), s)"
    using below_z80 [OF a] hit lo by (simp add: gbus_read8_def)
qed

interpretation battery_ram: byte_memory "\<lambda>s a. fst (gbus_read8 a s)" gbus_write8 "sram_at lo hi" "between_addr lo hi"
  for lo hi
proof
  fix s a x a'
  assume s: "sram_at lo hi s" and a: "between_addr lo hi a"
  have w: "gbus_write8 a x s = (fst s, (snd s)\<lparr>sram := (sram (snd s))(a - lo := x)\<rparr>)"
    by (rule sram_access(1) [OF s a])
  show ok: "sram_at lo hi (gbus_write8 a x s)" using s by (simp add: w sram_at_def)
  show "fst (gbus_read8 a (gbus_write8 a x s)) = x" using sram_access(2) [OF ok a] by (simp add: w)
  assume a': "between_addr lo hi a'" "a' \<noteq> a"
  then have "a' - lo \<noteq> a - lo" by simp
  then show "fst (gbus_read8 a' (gbus_write8 a x s)) = fst (gbus_read8 a' s)"
    using sram_access(2) [OF ok a'(1)] sram_access(2) [OF s a'(1)] by (simp add: w)
qed

text \<open>
  C23: work RAM and battery RAM are memories. After any sequence of byte stores by the 68000 into
  work RAM, each byte of it reads as the last value stored there, or as before when nothing was
  stored there; the same holds for battery RAM, wherever below the Z80 area the cartridge maps it,
  while its overlay is enabled.
\<close>

theorem cartridge_and_work_ram:
  "(cart_sram (snd s) \<and> (\<forall>(a, x) \<in> set ws. ram_address a) \<and> ram_address r \<longrightarrow>
     fst (gbus_read8 r (fold (\<lambda>(a, x). gbus_write8 a x) ws s)) =
       (case map_of (rev ws) r of Some x \<Rightarrow> x | None \<Rightarrow> fst (gbus_read8 r s)))
   \<and> (sram_at lo hi s \<and> (\<forall>(a, x) \<in> set ws. between_addr lo hi a) \<and> between_addr lo hi r \<longrightarrow>
     fst (gbus_read8 r (fold (\<lambda>(a, x). gbus_write8 a x) ws s)) =
       (case map_of (rev ws) r of Some x \<Rightarrow> x | None \<Rightarrow> fst (gbus_read8 r s)))"
  using work_ram.last_write [of s ws r] battery_ram.last_write [of lo hi s ws r] by blast

text \<open>
  C24: a driver that the 68000 uploads is the program the Z80 sees. After the 68000 stores the bytes
  of a program of at most 8 KB from \<^verbatim>\<open>$A00000\<close> upwards, the Z80 reads exactly these bytes from
  address 0, and again from the mirror at \<^verbatim>\<open>$2000\<close>; its reads change nothing, and the VDP is
  untouched.
\<close>

theorem z80_sees_upload:
  assumes "length bs \<le> 0x2000" "i < length bs"
  shows "let s' = fold (\<lambda>(k, x). gbus_write8 (0xA00000 + ucast (of_nat k :: u16)) x) (enumerate 0 bs) s
    in gbus_z80_read (of_nat i) s' = (bs ! i, s') \<and> gbus_z80_read (0x2000 + of_nat i) s' = (bs ! i, s')
       \<and> fst s' = fst s"
proof -
  define ws where "ws = map (\<lambda>(k, x). (of_nat k :: u16, x)) (enumerate 0 bs)"
  define s' where "s' = fold (\<lambda>(k, x). gbus_write8 (0xA00000 + ucast (of_nat k :: u16)) x) (enumerate 0 bs) s"
  have s': "s' = fold (\<lambda>(a, x). upload_byte a x) ws s"
    by (simp add: s'_def ws_def fold_map comp_def case_prod_unfold upload_byte_def)
  have k: "z80_address (of_nat k)" "unat (of_nat k :: u16) = k" if "k < length bs" for k
    using that assms(1) by (simp_all add: z80_address_def word_less_nat_alt unat_of_nat take_bit_nat_eq_self)
  have ok: "\<forall>(a, x) \<in> set ws. z80_address a" using k(1) by (auto simp: ws_def in_set_enumerate_eq)
  have d: "distinct (map fst ws)"
    using k(2) by (auto simp: ws_def distinct_map inj_on_def comp_def split_beta in_set_enumerate_eq)
      (metis)+
  have "(of_nat i, bs ! i) \<in> set ws"
    using assms(2) by (force simp: ws_def in_set_enumerate_eq)
  from sound_ram.block_round_trip [OF TrueI ok d this]
  have r: "z80_ram (snd s') (of_nat i) = bs ! i" by (simp add: z80_read_ram k(1) assms(2) s')
  have v: "fst (fold (\<lambda>(a, x). upload_byte a x) ws s) = fst s" if "\<forall>(a, x) \<in> set ws. z80_address a" for ws s
    using that by (induction ws arbitrary: s) (auto simp: upload_byte_z80)
  have m: "(0x2000 + of_nat i :: u16) < 0x4000" "(0x2000 + of_nat i :: u16) AND 0x1FFF = of_nat i"
  proof -
    have i: "uint (of_nat i :: u16) = int i" "i < 0x2000"
      using k(2) [OF assms(2)] assms by (simp_all add: uint_nat)
    then have u: "uint (0x2000 + of_nat i :: u16) = 0x2000 + int i" by (simp add: uint_word_ariths)
    then show "(0x2000 + of_nat i :: u16) < 0x4000" using i by (simp add: word_less_def)
    have "uint ((0x2000 + of_nat i :: u16) AND 0x1FFF) = uint (0x2000 + of_nat i :: u16) AND mask 13"
      by (simp add: uint_and mask_eq_exp_minus_1)
    then have "uint ((0x2000 + of_nat i :: u16) AND 0x1FFF) = (0x2000 + int i) mod 2 ^ 13"
      by (simp add: u take_bit_eq_mask [symmetric] take_bit_eq_mod)
    then show "(0x2000 + of_nat i :: u16) AND 0x1FFF = of_nat i"
      using i by (simp add: word_uint_eq_iff)
  qed
  show ?thesis
    unfolding s'_def [symmetric] Let_def
    using r m v [OF ok, of s] by (simp add: z80_read_ram k(1) assms(2) s' [symmetric]) (simp add: gbus_z80_read_def split_beta)
qed

section \<open>Host inspection\<close>

lemma timer_update_shape: "\<exists>st d. ym_timer_update t b = b\<lparr>ym_status := st, ym_timer_b_deadline := d\<rparr>"
proof (cases "\<not> ym_timer_b_running b \<or> ym_timer_b_period b = 0 \<or> t < ym_timer_b_deadline b")
  case True
  then have "ym_timer_update t b = b\<lparr>ym_status := ym_status b, ym_timer_b_deadline := ym_timer_b_deadline b\<rparr>"
    unfolding ym_timer_update_def by simp
  then show ?thesis by blast
next
  case False
  let ?st = "if bit (ym_mode b) 3 then ym_status b OR 0x02 else ym_status b"
  let ?d = "ym_timer_b_deadline b + ((t - ym_timer_b_deadline b) div ym_timer_b_period b + 1) * ym_timer_b_period b"
  have "ym_timer_update t b = b\<lparr>ym_status := ?st, ym_timer_b_deadline := ?d\<rparr>"
    using False unfolding ym_timer_update_def by (simp add: Let_def)
  then show ?thesis by blast
qed

lemma timer_update_other [simp]:
  "z80_ram (ym_timer_update t b) = z80_ram b" "sram (ym_timer_update t b) = sram b"
  "sram_base (ym_timer_update t b) = sram_base b" "sram_size (ym_timer_update t b) = sram_size b"
  "g_rom (ym_timer_update t b) = g_rom b" "g_ram (ym_timer_update t b) = g_ram b"
  "sram_hit (ym_timer_update t b) a = sram_hit b a" "io_read (ym_timer_update t b) a = io_read b a"
  "gbus_expansion_word (ym_timer_update t b) a = gbus_expansion_word b a"
  "z80_busreq (ym_timer_update t b) = z80_busreq b" "z80_reset_off (ym_timer_update t b) = z80_reset_off b"
proof -
  obtain st d where u: "ym_timer_update t b = b\<lparr>ym_status := st, ym_timer_b_deadline := d\<rparr>"
    using timer_update_shape by blast
  show "z80_ram (ym_timer_update t b) = z80_ram b" "sram (ym_timer_update t b) = sram b"
    "sram_base (ym_timer_update t b) = sram_base b" "sram_size (ym_timer_update t b) = sram_size b"
    "g_rom (ym_timer_update t b) = g_rom b" "g_ram (ym_timer_update t b) = g_ram b"
    "z80_busreq (ym_timer_update t b) = z80_busreq b" "z80_reset_off (ym_timer_update t b) = z80_reset_off b"
    by (simp_all add: u)
  show "sram_hit (ym_timer_update t b) a = sram_hit b a" by (simp add: u sram_hit_def)
  show "io_read (ym_timer_update t b) a = io_read b a" by (simp add: u io_read_def pad_read_def Let_def)
  show "gbus_expansion_word (ym_timer_update t b) a = gbus_expansion_word b a"
    by (cases "g_rom_ext b") (simp_all add: u gbus_expansion_word_def Let_def)
qed

lemma timer_update_words [simp]:
  "sram_word (ym_timer_update t b) a = sram_word b a" "ram_word (ym_timer_update t b) a = ram_word b a"
  "z80_word (ym_timer_update t b) a = z80_word b a"
  by (simp_all add: sram_word_def ram_word_def z80_word_def)

lemma peek_status_eq: "fst (gvdp_read_control v) = gvdp_peek_status v"
  by (simp add: gvdp_read_control_def gvdp_peek_status_def gvdp_status_word_def Let_def)

lemma peek_data_eq: "fst (gvdp_read_data v) = gvdp_peek_data v"
  by (simp add: gvdp_read_data_def gvdp_peek_data_def Let_def vram_read_word_def)

definition caught_up :: "bstate \<Rightarrow> bstate" where
  "caught_up s = (fst s, ym_timer_update (ym_abs_68k_stamp (snd s)) (snd s))"

lemma read16_peek: "fst (gbus_read16 a s) = gbus_peek16 (caught_up s) a"
  by (simp only: gbus_read16_def gbus_peek16_def caught_up_def Let_def split_beta fst_conv snd_conv
      timer_update_other timer_update_words peek_status_eq peek_data_eq
      if_distrib [of fst] option.case_distrib [of fst])

lemma z80_offset:
  fixes m :: u32
  assumes "0xA00000 \<le> m" "m < 0xA10000"
  shows "m AND 0xFFFF = m - 0xA00000"
proof -
  obtain k where k: "uint m = 0xA00000 + k" by (metis add.commute diff_add_cancel)
  then have b: "0 \<le> k" "k < 65536" using assms by (simp_all add: word_le_def word_less_def)
  have "uint (m AND 0xFFFF) = uint m AND mask 16" by (simp add: uint_and mask_eq_exp_minus_1)
  then have "uint (m AND 0xFFFF) = (0xA00000 + k) mod 65536"
    by (simp add: take_bit_eq_mask [symmetric] take_bit_eq_mod k)
  also have "\<dots> = k" using b by (simp add: mod_pos_pos_trivial mod_add_eq [symmetric])
  finally show ?thesis using k b by (simp add: word_uint_eq_iff uint_word_ariths)
qed

definition device_read :: "u32 \<Rightarrow> bool" where
  "device_read a \<longleftrightarrow> 0xC00000 \<le> a AND 0xFFFFFF \<and> a AND 0xFFFFFF < 0xC00008
     \<or> 0xA02000 \<le> a AND 0xFFFFFF \<and> a AND 0xFFFFFF < 0xA06000"

lemma read16_frame:
  assumes "\<not> device_read a"
  shows "snd (gbus_read16 a s) = s"
proof -
  define m where "m = a AND 0xFFFFFF"
  have vdp: "\<not> (0xC00000 \<le> m \<and> m < 0xC00008)" using assms by (simp add: device_read_def m_def)
  have ym: "\<not> (0xA02000 \<le> m \<and> m < 0xA06000)" using assms by (auto simp: device_read_def m_def)
  have z: "m AND 0xFFFF < 0x2000 \<or> \<not> m AND 0xFFFF < 0x6000" if h: "0xA00000 \<le> m" "m < 0xA10000"
  proof -
    have "uint (m - 0xA00000) = uint m - 0xA00000" using h by (simp add: uint_sub_if' word_le_def)
    then show ?thesis using ym z80_offset [OF h] by (auto simp: word_less_def word_le_def)
  qed
  have w: "m < 0xC00004 \<Longrightarrow> m < 0xC00008" by (simp add: word_less_def)
  show ?thesis
  proof (cases "gbus_expansion_word (snd s) m")
    case None
    have "\<not> m < 0xC00004 \<and> \<not> m < 0xC00008" if "0xC00000 \<le> m \<and> m < 0xC00010" using that vdp w by blast
    moreover have "m AND 0xFFFF < 0x2000 \<or> \<not> m AND 0xFFFF < 0x6000" if "0xA00000 \<le> m \<and> m < 0xA10000"
      using that z by blast
    ultimately show ?thesis unfolding gbus_read16_def m_def [symmetric]
      by (simp only: split_beta Let_def None option.case if_distrib [of snd] snd_conv if_cancel) (simp, blast)
  qed (simp add: gbus_read16_def m_def [symmetric] split_beta Let_def)
qed

lemma read8_peek:
  assumes "a \<le> 0xFFFFFF"
  shows "fst (gbus_read8 a s) = gbus_peek8 (caught_up s) a"
proof -
  have e: "even_addr a AND 0xFFFFFF = even_addr a"
    using order_trans [OF even_addr_mono(2) assms] by simp
  have c: "snd (caught_up s) = ym_timer_update (ym_abs_68k_stamp (snd s)) (snd s)" by (simp add: caught_up_def)
  show ?thesis
    using assms read16_peek [of "even_addr a" s]
    by (simp add: gbus_read8_def gbus_peek8_def Let_def split_beta c)
qed

text \<open>
  C25: host inspection shows what the processor would read, and inspecting is free. For every state
  and every word address a read returns what a peek shows once the FM timer has caught up with the
  clock, the same for every byte address of the 24-bit bus; when no timer overflow is due, that is
  what a peek shows right away; and outside the VDP ports and the FM status port, where it has side
  effects, a read leaves the state alone.
\<close>

theorem peek_agrees_with_read:
  "fst (gbus_read16 a s) = gbus_peek16 (caught_up s) a
   \<and> (a \<le> 0xFFFFFF \<longrightarrow> fst (gbus_read8 a s) = gbus_peek8 (caught_up s) a)
   \<and> (\<not> ym_timer_b_running (snd s) \<or> ym_abs_68k_stamp (snd s) < ym_timer_b_deadline (snd s) \<longrightarrow>
       fst (gbus_read16 a s) = gbus_peek16 s a)
   \<and> (\<not> device_read a \<longrightarrow> snd (gbus_read16 a s) = s)"
proof -
  have "caught_up s = s"
    if "\<not> ym_timer_b_running (snd s) \<or> ym_abs_68k_stamp (snd s) < ym_timer_b_deadline (snd s)"
    using that by (auto simp: caught_up_def ym_timer_update_def)
  then show ?thesis using read16_peek read8_peek read16_frame by auto
qed

section \<open>The FM timer\<close>

text \<open>The loop that the closed form replaces: add periods until the deadline is past.\<close>

function catch_up :: "nat \<Rightarrow> nat \<Rightarrow> nat \<Rightarrow> nat" where
  "catch_up now period d = (if period = 0 \<or> now < d then d else catch_up now period (d + period))"
  by pat_completeness auto
termination by (relation "measure (\<lambda>(now, period, d). now + 1 - d)") auto

declare catch_up.simps [simp del]

lemma catch_up_closed:
  "0 < p \<Longrightarrow> d \<le> now \<Longrightarrow> catch_up now p d = d + ((now - d) div p + 1) * p"
proof (induction now p d rule: catch_up.induct)
  case (1 now p d)
  show ?case
  proof (cases "d + p \<le> now")
    case True
    have "(now - d) div p = (now - (d + p)) div p + 1"
      using True 1(2) by (simp add: le_div_geq)
    then show ?thesis using 1 True by (simp add: catch_up.simps [of now p d] add_mult_distrib)
  next
    case False
    then show ?thesis using 1(2,3) by (simp add: catch_up.simps [of now p d] catch_up.simps [of now p "d + p"])
  qed
qed

lemma catch_up_past: "0 < p \<Longrightarrow> now < catch_up now p d"
  by (induction now p d rule: catch_up.induct) (simp add: catch_up.simps)

lemma catch_up_twice: "n1 \<le> n2 \<Longrightarrow> catch_up n2 p (catch_up n1 p d) = catch_up n2 p d"
proof (induction n1 p d rule: catch_up.induct)
  case (1 n1 p d)
  show ?case
  proof (cases "p = 0 \<or> n1 < d")
    case False
    then have "catch_up n2 p (catch_up n1 p (d + p)) = catch_up n2 p (d + p)" using 1 by simp
    then show ?thesis using False 1(2) by (simp add: catch_up.simps [of n1 p d] catch_up.simps [of n2 p d])
  qed (simp add: catch_up.simps [of n1 p d])
qed

definition timer_due :: "u64 \<Rightarrow> gbus \<Rightarrow> bool" where
  "timer_due t b \<longleftrightarrow> ym_timer_b_running b \<and> ym_timer_b_period b \<noteq> 0 \<and> ym_timer_b_deadline b \<le> t"

lemma timer_update_fields:
  assumes "unat t + unat (ym_timer_b_period b) < 2 ^ 64"
  shows "ym_timer_update t b =
    b\<lparr>ym_status := (if timer_due t b \<and> bit (ym_mode b) 3 then ym_status b OR 0x02 else ym_status b),
      ym_timer_b_deadline := (if ym_timer_b_running b
        then of_nat (catch_up (unat t) (unat (ym_timer_b_period b)) (unat (ym_timer_b_deadline b)))
        else ym_timer_b_deadline b)\<rparr>" (is "_ = ?r")
proof (cases "timer_due t b")
  case True
  let ?p = "ym_timer_b_period b" and ?d = "ym_timer_b_deadline b"
  have h: "0 < unat ?p" "unat ?d \<le> unat t" using True by (simp_all add: timer_due_def unat_gt_0 word_le_nat_alt)
  have "?d + ((t - ?d) div ?p + 1) * ?p = of_nat (catch_up (unat t) (unat ?p) (unat ?d))"
    using h by (simp add: catch_up_closed unat_sub_if' word_arith_nat_div algebra_simps)
  then show ?thesis using True
    by (auto simp: timer_due_def ym_timer_update_def Let_def not_less)
next
  case False
  then have "catch_up (unat t) (unat (ym_timer_b_period b)) (unat (ym_timer_b_deadline b)) = unat (ym_timer_b_deadline b)
    \<or> \<not> ym_timer_b_running b"
    by (subst catch_up.simps) (auto simp: timer_due_def not_le word_less_nat_alt)
  then show ?thesis using False by (auto simp: timer_due_def ym_timer_update_def not_le)
qed

lemma catch_up_bound:
  "d \<le> now + p \<Longrightarrow> catch_up now p d \<le> now + p"
  by (induction now p d rule: catch_up.induct) (subst catch_up.simps, simp)

text \<open>
  C26: the FM timer can be polled at any rate. As long as the clock stays a period away from
  wrapping, the closed form moves the deadline exactly as the catch-up loop would, past the current
  time by a whole number of periods; and looking at the timer in between changes nothing that is
  seen later: catching up at an earlier and then at a later time is the same as catching up once, at
  the later time.
\<close>

theorem ym_timer_polling:
  assumes "t1 \<le> t2" "unat t2 + unat (ym_timer_b_period b) < 2 ^ 64"
  shows "ym_timer_update t2 (ym_timer_update t1 b) = ym_timer_update t2 b
    \<and> (timer_due t2 b \<longrightarrow>
        unat (ym_timer_b_deadline (ym_timer_update t2 b)) =
          catch_up (unat t2) (unat (ym_timer_b_period b)) (unat (ym_timer_b_deadline b))
        \<and> t2 < ym_timer_b_deadline (ym_timer_update t2 b)
        \<and> (bit (ym_mode b) 3 \<longrightarrow> bit (ym_status (ym_timer_update t2 b)) 1))"
proof -
  let ?p = "unat (ym_timer_b_period b)" and ?d = "unat (ym_timer_b_deadline b)"
  have t1: "unat t1 + ?p < 2 ^ 64" and le: "unat t1 \<le> unat t2"
    using assms by (simp_all add: word_le_nat_alt)
  note u1 = timer_update_fields [OF t1]
  have one: "ym_timer_b_period (ym_timer_update t1 b) = ym_timer_b_period b"
    using timer_update_shape [of t1 b] by auto
  have u2: "ym_timer_update t2 b' = b'\<lparr>ym_status := (if timer_due t2 b' \<and> bit (ym_mode b') 3 then ym_status b' OR 0x02 else ym_status b'),
      ym_timer_b_deadline := (if ym_timer_b_running b'
        then of_nat (catch_up (unat t2) ?p (unat (ym_timer_b_deadline b'))) else ym_timer_b_deadline b')\<rparr>"
    if "ym_timer_b_period b' = ym_timer_b_period b" for b'
    using timer_update_fields [of t2 b'] that assms(2) by simp
  have small: "unat (of_nat (catch_up (unat t) ?p ?d) :: u64) = catch_up (unat t) ?p ?d"
    if "unat t + ?p < 2 ^ 64" for t :: u64
  proof (cases "?d \<le> unat t + ?p")
    case True
    then show ?thesis using catch_up_bound [OF True] that by (simp add: unat_of_nat take_bit_nat_eq_self)
  next
    case False
    then have "catch_up (unat t) ?p ?d = ?d" by (subst catch_up.simps) simp
    then show ?thesis by simp
  qed
  have past: "unat t2 < catch_up (unat t2) ?p ?d" if "timer_due t2 b"
    using that catch_up_past by (simp add: timer_due_def unat_gt_0)
  have "ym_timer_update t2 (ym_timer_update t1 b) = ym_timer_update t2 b"
  proof (cases "ym_timer_b_running b")
    case False
    then show ?thesis by (simp add: ym_timer_update_def)
  next
    case True
    have due: "timer_due t2 (ym_timer_update t1 b) \<longrightarrow> timer_due t2 b" "timer_due t1 b \<longrightarrow> timer_due t2 b"
      "\<not> timer_due t1 b \<longrightarrow> ym_timer_update t1 b = b"
      using assms(1) by (auto simp: timer_due_def ym_timer_update_def not_le)
    have "catch_up (unat t2) ?p (unat (of_nat (catch_up (unat t1) ?p ?d) :: u64)) = catch_up (unat t2) ?p ?d"
      by (simp add: small [OF t1] catch_up_twice [OF le])
    then show ?thesis using due True
      by (cases "timer_due t1 b") (simp_all add: u2 one, simp_all add: u1 or.assoc)
  qed
  moreover have "unat (ym_timer_b_deadline (ym_timer_update t2 b)) = catch_up (unat t2) ?p ?d" if "timer_due t2 b"
    using that small [OF assms(2)] by (simp add: u2 timer_due_def)
  moreover have "bit (ym_status (ym_timer_update t2 b)) 1" if "timer_due t2 b" "bit (ym_mode b) 3"
    using that by (simp add: u2 bit_simps)
  ultimately show ?thesis using past by (simp add: word_less_nat_alt)
qed

section \<open>Concrete instances\<close>

text \<open>A machine with a cartridge whose battery RAM is mapped and enabled at \<^verbatim>\<open>$200001-$2003FF\<close>.\<close>

definition idle_vdp :: GVDP where
  "idle_vdp = gvdp_reset \<lparr>vram = \<lambda>_. 0, cram = \<lambda>_. 0, vsram = \<lambda>_. 0, reg = \<lambda>_. 0, control_pending = False,
     code = 0, address = 0, address_hi = 0, in_vblank = False, in_hblank = False, dma_active = False,
     sprite_overflow = False, sprite_collision = False, vint_pending = False, hint_counter = 0, scanline = 0,
     dma_fill_pending = False, s_pending_68k_stall = 0,
     g_gvdp_events = \<lambda>_. \<lparr>e_seq = 0, e_kind = GVDP_EVT_REG, e_code = 0, e_reason = GVDP_SKIP_NONE,
       e_in_vblank = False, e_scanline = 0, e_addr = 0, e_value = 0, e_inc = 0, e_len = 0, e_src = 0\<rparr>,
     g_gvdp_event_seq = 0, colour_updates = []\<rparr>"

definition power_on :: gbus where
  "power_on = \<lparr>z80_ram = \<lambda>_. 0, z80_bank = 0, z80_busreq = False, z80_reset_off = False, z80_reset_pending = False,
     ym_addr = \<lambda>_. 0, ym_timer_b = 0, ym_mode = 0, ym_status = 0, ym_timer_b_running = False,
     ym_timer_b_deadline = 0, ym_timer_b_period = 0, pad = \<lambda>_. 0, pad_type = \<lambda>_. 0, pad_th_count = \<lambda>_. 0,
     pad_th_prev = \<lambda>_. 0, io_data = \<lambda>_. 0, io_ctrl = \<lambda>_. 0, version = 0x80, sram = \<lambda>_. 0, sram_base = 0,
     sram_end = 0, sram_size = 0, sram_present = False, sram_enabled = False,
     g_rom = \<lambda>_. 0, g_rom_ext = None, g_rom_ext_size = 0, g_ram = \<lambda>_. 0, g_audio_cycle_counter = 0,
     g_68k_stamp_rebase = 0, g_snd_frame = 0, g_snd_pcz = 0, z80_pc = 0, s_line_base = 0, s_z80_off = 0,
     s_interleave_active = False, s_in_vblank_service = False, s_main_cpu_stalls = 0,
     events = \<lparr>s_ring = \<lambda>_. \<lparr>cycle_stamp = 0, port = 0, ev_value = 0\<rparr>, s_head = 0, s_tail = 0,
       s_overflow_count = 0, g_snd_line = 0, g_snd_mc = 0\<rparr>\<rparr>"

definition sonic3_bus :: bstate where
  "sonic3_bus = (idle_vdp, (gbus_sram_set_geometry 0x200001 0x2003FF power_on)\<lparr>sram_enabled := True\<rparr>)"

lemma sonic3_sram: "sram_at 0x200000 0x2003FF sonic3_bus" "cart_sram (snd sonic3_bus)"
  by (simp_all add: sonic3_bus_def sram_at_def cart_sram_def gbus_sram_set_geometry_def map_sram_def power_on_def
      even_addr_def SRAM_BYTES_def Let_def)

theorem cartridge_and_work_ram_witness:
  "fst (gbus_read8 0xFFFE10 (fold (\<lambda>(a, x). gbus_write8 a x) [(0xFFFE10, 3), (0xFFFE11, 4), (0xFFFE10, 5)] sonic3_bus)) = 5
   \<and> fst (gbus_read8 0x200011 (fold (\<lambda>(a, x). gbus_write8 a x) [(0x200011, 0x42), (0x2003FF, 7)] sonic3_bus)) = 0x42"
  using cartridge_and_work_ram [of sonic3_bus "[(0xFFFE10, 3), (0xFFFE11, 4), (0xFFFE10, 5)]" "0xFFFE10" 0 0]
    cartridge_and_work_ram [of sonic3_bus "[(0x200011, 0x42), (0x2003FF, 7)]" "0x200011" "0x200000" "0x2003FF"]
  by (simp add: sonic3_sram ram_address_def between_addr_def)

theorem z80_sees_upload_witness:
  "fst (gbus_z80_read 1 (fold (\<lambda>(k, x). gbus_write8 (0xA00000 + ucast (of_nat k :: u16)) x)
     (enumerate 0 [0xF3, 0x31, 0xFC]) sonic3_bus)) = 0x31"
  using z80_sees_upload [of "[0xF3, 0x31, 0xFC]" 1 sonic3_bus] by (simp add: Let_def del: enumerate_simps)

theorem peek_agrees_with_read_witness:
  "fst (gbus_read16 0x200010 sonic3_bus) = gbus_peek16 sonic3_bus 0x200010
   \<and> fst (gbus_read8 0x200011 sonic3_bus) = gbus_peek8 (caught_up sonic3_bus) 0x200011
   \<and> snd (gbus_read16 0x200010 sonic3_bus) = sonic3_bus"
proof -
  have r: "\<not> ym_timer_b_running (snd sonic3_bus)"
    by (simp add: sonic3_bus_def gbus_sram_set_geometry_def map_sram_def power_on_def Let_def)
  have d: "\<not> device_read 0x200010" by (simp add: device_read_def)
  show ?thesis using peek_agrees_with_read [of "0x200010" sonic3_bus] peek_agrees_with_read [of "0x200011" sonic3_bus] r d
    by auto
qed

theorem ym_timer_polling_witness:
  "let b = power_on\<lparr>ym_timer_b_running := True, ym_mode := 8, ym_timer_b_period := 225792, ym_timer_b_deadline := 300000\<rparr>
   in ym_timer_update 900000 (ym_timer_update 400000 b) = ym_timer_update 900000 b
    \<and> bit (ym_status (ym_timer_update 900000 b)) 1 \<and> 900000 < ym_timer_b_deadline (ym_timer_update 900000 b)"
proof -
  define b where "b = power_on\<lparr>ym_timer_b_running := True, ym_mode := 8, ym_timer_b_period := 225792, ym_timer_b_deadline := 300000\<rparr>"
  have f: "ym_mode b = 8" "ym_timer_b_period b = 225792" "ym_timer_b_running b" "ym_timer_b_deadline b = 300000"
    by (simp_all add: b_def)
  have "timer_due 900000 b" by (simp add: timer_due_def f)
  moreover have "bit (ym_mode b) 3" unfolding f by simp
  moreover have "unat (900000 :: u64) + unat (ym_timer_b_period b) < 2 ^ 64" unfolding f by simp
  moreover have "(400000 :: u64) \<le> 900000" by simp
  ultimately have "ym_timer_update 900000 (ym_timer_update 400000 b) = ym_timer_update 900000 b
    \<and> bit (ym_status (ym_timer_update 900000 b)) 1 \<and> 900000 < ym_timer_b_deadline (ym_timer_update 900000 b)"
    using ym_timer_polling [of 400000 900000 b] by blast
  then show ?thesis unfolding Let_def b_def .
qed

end
