(* ===== verification/Genesis_Bus_Io.thy ===== *)
theory Genesis_Bus_Io
  imports Genesis_Bus_Props
begin

text \<open>
  The devices behind the bus: the six-button controller protocol as a program sees it through the
  data port, the serial bank register of the Z80, and the geometry of the battery RAM, kept by every
  bus operation.
\<close>

section \<open>Controllers\<close>

text \<open>The data port of controller \<open>p\<close>, and a program that writes the port and reads it after each write.\<close>

definition pad_port :: "nat \<Rightarrow> u32" where
  "pad_port p = (if p = 0 then 0xA10003 else 0xA10005)"

fun scan :: "nat \<Rightarrow> u8 list \<Rightarrow> bstate \<Rightarrow> u8 list" where
  "scan p [] s = []"
| "scan p (x # xs) s =
    (let s = gbus_write8 (pad_port p) x s; (r, s) = gbus_read8 (pad_port p) s in r # scan p xs s)"

lemma port_even: "even_addr 0xA10003 = 0xA10002" "even_addr 0xA10005 = 0xA10004"
  by (simp_all add: even_addr_alt)

lemma pad_port_write:
  assumes "cart_sram b" "p < 2"
  shows "gbus_write8 (pad_port p) x (v, b) = (v, set_io_data p x (pad_io_tick p x b))"
proof -
  have "\<not> sram_hit b 0xA10003" "\<not> sram_hit b 0xA10002" "\<not> sram_hit b 0xA10005" "\<not> sram_hit b 0xA10004"
    using no_sram_above [OF assms(1)] by simp_all
  moreover have "p = 0 \<or> p = 1" using assms(2) by auto
  ultimately show ?thesis
    by (elim disjE) (simp_all add: pad_port_def gbus_write8_def port_even gbus_write16_def io_write_def Let_def)
qed

lemma pad_port_read:
  assumes "cart_sram b" "p < 2"
  shows "gbus_read8 (pad_port p) (v, b) = (pad_read b p, (v, b))"
proof -
  have "\<not> sram_hit b 0xA10003" "\<not> sram_hit b 0xA10002" "\<not> sram_hit b 0xA10005" "\<not> sram_hit b 0xA10004"
    "gbus_expansion_word b 0xA10002 = None" "gbus_expansion_word b 0xA10004 = None"
    using no_sram_above [OF assms(1)] no_expansion_above by simp_all
  moreover have "p = 0 \<or> p = 1" using assms(2) by auto
  moreover have "lo8 (ucast x) = x" for x :: u8 unfolding lo8_def by (rule bit_word_eqI) (simp add: bit_simps)
  ultimately show ?thesis
    by (elim disjE) (simp_all add: pad_port_def gbus_read8_def z80_area_def port_even gbus_read16_def io_read_def
        Let_def half_of_def)
qed

lemma pad_tick_keeps:
  "cart_sram (set_io_data p x (pad_io_tick p x b)) = cart_sram b"
  "pad_type (set_io_data p x (pad_io_tick p x b)) = pad_type b" "pad (set_io_data p x (pad_io_tick p x b)) = pad b"
  "io_data (set_io_data p x (pad_io_tick p x b)) p = x"
  by (simp_all add: set_io_data_def pad_io_tick_def cart_sram_def Let_def)

lemma pad_scan_step:
  assumes "cart_sram b" "p < 2"
  shows "scan p (x # xs) (v, b) =
    (let b' = set_io_data p x (pad_io_tick p x b) in pad_read b' p # scan p xs (v, b'))"
  using assms by (simp add: pad_port_write pad_port_read pad_tick_keeps Let_def)

text \<open>The controller as an automaton: the last level of the select line and the number of falling edges.\<close>

lemma tick_levels:
  assumes "pad_type b p = 1"
  shows "pad_th_prev (set_io_data p x (pad_io_tick p x b)) p = x AND 0x40"
    "pad_th_count (set_io_data p x (pad_io_tick p x b)) p =
      (if pad_th_prev b p \<noteq> 0 \<and> x AND 0x40 = 0 \<and> pad_th_count b p < 0xFF then pad_th_count b p + 1 else pad_th_count b p)"
  using assms by (simp_all add: set_io_data_def pad_io_tick_def Let_def)

definition pad_extra :: "u16 \<Rightarrow> u8" where
  "pad_extra p = 0x40 OR line_of p GPAD_C 0x20 OR line_of p GPAD_B 0x10 OR line_of p GPAD_MODE 0x08
     OR line_of p GPAD_X 0x04 OR line_of p GPAD_Y 0x02 OR line_of p GPAD_Z 0x01"

definition pad_sa :: "u16 \<Rightarrow> u8" where
  "pad_sa p = line_of p GPAD_START 0x20 OR line_of p GPAD_A 0x10"

definition six_read :: "u16 \<Rightarrow> bool \<Rightarrow> u8 \<Rightarrow> u8" where
  "six_read p th c = (if th then if c \<ge> 3 then pad_extra p else pad_cbrldu p
     else if c \<ge> 4 then 0x0F OR pad_sa p else if c = 3 then pad_sa p else pad_sadu p)"

lemma pad_read_six:
  "pad_type b p = 1 \<Longrightarrow> pad_read b p = six_read (pad b p) (bit (io_data b p) 6) (pad_th_count b p)"
  by (simp add: pad_read_def six_read_def pad_extra_def pad_sa_def or.assoc Let_def)

lemma pad_read_three:
  "pad_type b p \<noteq> 1 \<Longrightarrow> pad_read b p = (if bit (io_data b p) 6 then pad_cbrldu (pad b p) else pad_sadu (pad b p))"
  by (simp add: pad_read_def)

fun six_scan :: "u16 \<Rightarrow> u8 \<Rightarrow> u8 \<Rightarrow> u8 list \<Rightarrow> u8 list" where
  "six_scan btn prev c [] = []"
| "six_scan btn prev c (x # xs) =
    (let c = (if prev \<noteq> 0 \<and> x AND 0x40 = 0 \<and> c < 0xFF then c + 1 else c)
     in six_read btn (bit x 6) c # six_scan btn (x AND 0x40) c xs)"

lemma scan_six:
  "cart_sram b \<Longrightarrow> p < 2 \<Longrightarrow> pad_type b p = 1 \<Longrightarrow>
    scan p xs (v, b) = six_scan (pad b p) (pad_th_prev b p) (pad_th_count b p) xs"
proof (induction xs arbitrary: b)
  case (Cons x xs)
  show ?case
    unfolding pad_scan_step [OF Cons.prems(1,2)] six_scan.simps
    using Cons.prems Cons.IH [of "set_io_data p x (pad_io_tick p x b)"]
    by (simp add: pad_tick_keeps tick_levels pad_read_six Let_def)
qed simp

lemma one_edge: "\<not> (4 :: u8) \<le> 1" "\<not> (3 :: u8) \<le> 1" "(1 :: u8) \<noteq> 3"
  by (simp_all add: word_le_def)

lemma scan_three:
  "cart_sram b \<Longrightarrow> p < 2 \<Longrightarrow> pad_type b p \<noteq> 1 \<Longrightarrow>
    scan p xs (v, b) = map (\<lambda>x. if bit x 6 then pad_cbrldu (pad b p) else pad_sadu (pad b p)) xs"
proof (induction xs arbitrary: b)
  case (Cons x xs)
  show ?case
    unfolding pad_scan_step [OF Cons.prems(1,2)]
    using Cons.prems Cons.IH [of "set_io_data p x (pad_io_tick p x b)"]
    by (simp add: pad_tick_keeps pad_read_three Let_def)
qed simp

text \<open>What a program recovers from the reads: a line that is low is a pressed button.\<close>

definition pressed :: "u8 \<Rightarrow> nat \<Rightarrow> u16 \<Rightarrow> u16" where
  "pressed r i m = (if bit r i then 0 else m)"

definition decode_pad :: "u8 list \<Rightarrow> u16" where
  "decode_pad rs =
     pressed (rs ! 0) 0 GPAD_UP OR pressed (rs ! 0) 1 GPAD_DOWN OR pressed (rs ! 0) 2 GPAD_LEFT
     OR pressed (rs ! 0) 3 GPAD_RIGHT OR pressed (rs ! 0) 4 GPAD_B OR pressed (rs ! 0) 5 GPAD_C
     OR pressed (rs ! 1) 4 GPAD_A OR pressed (rs ! 1) 5 GPAD_START
     OR pressed (rs ! 6) 2 GPAD_X OR pressed (rs ! 6) 1 GPAD_Y OR pressed (rs ! 6) 0 GPAD_Z
     OR pressed (rs ! 6) 3 GPAD_MODE"

lemma pressed_alt: "pressed r i m = (if \<not> bit r i then m else 0)"
  by (simp add: pressed_def)

lemma bit_line_of: "bit (line_of p m r) i \<longleftrightarrow> p AND m = 0 \<and> bit r i"
  by (simp add: line_of_def)

lemma and_button: "p AND (2 ^ k) = 0 \<longleftrightarrow> \<not> bit p k" if "k < 16" for p :: u16
  using that by (simp add: and_exp_eq_0_iff_not_bit)

lemma buttons:
  "p AND GPAD_UP = 0 \<longleftrightarrow> \<not> bit p 0" "p AND GPAD_DOWN = 0 \<longleftrightarrow> \<not> bit p 1" "p AND GPAD_LEFT = 0 \<longleftrightarrow> \<not> bit p 2"
  "p AND GPAD_RIGHT = 0 \<longleftrightarrow> \<not> bit p 3" "p AND GPAD_B = 0 \<longleftrightarrow> \<not> bit p 4" "p AND GPAD_C = 0 \<longleftrightarrow> \<not> bit p 5"
  "p AND GPAD_A = 0 \<longleftrightarrow> \<not> bit p 6" "p AND GPAD_START = 0 \<longleftrightarrow> \<not> bit p 7" "p AND GPAD_X = 0 \<longleftrightarrow> \<not> bit p 8"
  "p AND GPAD_Y = 0 \<longleftrightarrow> \<not> bit p 9" "p AND GPAD_Z = 0 \<longleftrightarrow> \<not> bit p 10" "p AND GPAD_MODE = 0 \<longleftrightarrow> \<not> bit p 11"
  using and_button [of 0 p] and_button [of 1 p] and_button [of 2 p] and_button [of 3 p] and_button [of 4 p]
    and_button [of 5 p] and_button [of 6 p] and_button [of 7 p] and_button [of 8 p] and_button [of 9 p]
    and_button [of 10 p] and_button [of 11 p]
  by (simp_all add: GPAD_defs)

lemma pad_lines:
  "bit (pad_cbrldu p) 0 = (\<not> bit p 0)" "bit (pad_cbrldu p) 1 = (\<not> bit p 1)" "bit (pad_cbrldu p) 2 = (\<not> bit p 2)"
  "bit (pad_cbrldu p) 3 = (\<not> bit p 3)" "bit (pad_cbrldu p) 4 = (\<not> bit p 4)" "bit (pad_cbrldu p) 5 = (\<not> bit p 5)"
  "bit (pad_sadu p) 4 = (\<not> bit p 6)" "bit (pad_sadu p) 5 = (\<not> bit p 7)"
  "bit (pad_extra p) 2 = (\<not> bit p 8)" "bit (pad_extra p) 1 = (\<not> bit p 9)" "bit (pad_extra p) 0 = (\<not> bit p 10)"
  "bit (pad_extra p) 3 = (\<not> bit p 11)"
  by (simp_all add: pad_cbrldu_def pad_sadu_def pad_extra_def bit_or_iff bit_line_of buttons del: bit_0)

lemma decode_buttons:
  "(if bit p 0 then GPAD_UP else 0) OR (if bit p 1 then GPAD_DOWN else 0) OR (if bit p 2 then GPAD_LEFT else 0)
    OR (if bit p 3 then GPAD_RIGHT else 0) OR (if bit p 4 then GPAD_B else 0) OR (if bit p 5 then GPAD_C else 0)
    OR (if bit p 6 then GPAD_A else 0) OR (if bit p 7 then GPAD_START else 0) OR (if bit p 8 then GPAD_X else 0)
    OR (if bit p 9 then GPAD_Y else 0) OR (if bit p 10 then GPAD_Z else 0) OR (if bit p 11 then GPAD_MODE else 0)
   = p AND 0xFFF"
proof (rule bit_word_eqI)
  fix n assume "n < LENGTH(16)"
  then have "n \<in> {0, 1, 2, 3, 4, 5, 6, 7, 8, 9, 10, 11, 12, 13, 14, 15}" by (simp, arith)
  then show "bit ((if bit p 0 then GPAD_UP else 0) OR (if bit p 1 then GPAD_DOWN else 0) OR (if bit p 2 then GPAD_LEFT else 0)
    OR (if bit p 3 then GPAD_RIGHT else 0) OR (if bit p 4 then GPAD_B else 0) OR (if bit p 5 then GPAD_C else 0)
    OR (if bit p 6 then GPAD_A else 0) OR (if bit p 7 then GPAD_START else 0) OR (if bit p 8 then GPAD_X else 0)
    OR (if bit p 9 then GPAD_Y else 0) OR (if bit p 10 then GPAD_Z else 0) OR (if bit p 11 then GPAD_MODE else 0)) n
   = bit (p AND 0xFFF) n"
    unfolding bit_or_iff bit_and_iff GPAD_defs by (elim insertE emptyE) (simp_all del: bit_0)
qed

text \<open>
  C27: the controller protocol shows a program every button. With a six-button controller in either
  port, after a frame's button state is set and the program toggles the select line eight times
  starting high, the twelve buttons can be decoded from its reads; the sixth read has the low nibble
  clear, the signature that tells it from a three-button controller, and the eighth has it set. With
  a three-button controller the low-phase reads all show Up and Down, so that the signature only
  appears when both are held.
\<close>

theorem controller_protocol:
  assumes "cart_sram b" "p < 2"
  shows "let rs = scan p [0x40, 0, 0x40, 0, 0x40, 0, 0x40, 0] (v, machine_set_pad (int p) btn b) in
    if pad_type b p = 1
    then decode_pad rs = btn AND 0xFFF \<and> rs ! 5 AND 0x0F = 0 \<and> rs ! 7 AND 0x0F = 0x0F
    else rs ! 5 = pad_sadu btn \<and> (rs ! 5 AND 0x0F = 0 \<longleftrightarrow> bit btn 0 \<and> bit btn 1)"
proof -
  define b' where "b' = machine_set_pad (int p) btn b"
  have f: "cart_sram b'" "pad_type b' p = pad_type b p" "pad b' p = btn" "pad_th_count b' p = 0"
    using assms by (simp_all add: b'_def machine_set_pad_def cart_sram_def Let_def)
  show ?thesis
  proof (cases "pad_type b p = 1")
    case True
    have r: "scan p [0x40, 0, 0x40, 0, 0x40, 0, 0x40, 0] (v, b') =
        [pad_cbrldu btn, pad_sadu btn, pad_cbrldu btn, pad_sadu btn, pad_cbrldu btn, pad_sa btn, pad_extra btn, 0x0F OR pad_sa btn]"
      using scan_six [OF f(1) assms(2), of "[0x40, 0, 0x40, 0, 0x40, 0, 0x40, 0]" v] f True
      by (simp add: six_read_def one_edge del: scan.simps)
    have "pad_sa btn AND 0x0F = 0" "(0x0F OR pad_sa btn) AND 0x0F = 0x0F"
      by (auto simp: pad_sa_def line_of_def)
    moreover have "decode_pad rs = btn AND 0xFFF"
      if "rs ! 0 = pad_cbrldu btn" "rs ! 1 = pad_sadu btn" "rs ! 6 = pad_extra btn" for rs
      unfolding decode_pad_def that pressed_alt pad_lines not_not by (rule decode_buttons)
    ultimately show ?thesis using True r by (simp add: b'_def del: scan.simps)
  next
    case False
    have "pad_sadu btn AND 0x0F = 0 \<longleftrightarrow> bit btn 0 \<and> bit btn 1"
      unfolding pad_sadu_def line_of_def by (auto simp: buttons)
    then show ?thesis using False scan_three [OF f(1) assms(2)] f by (simp add: b'_def del: scan.simps)
  qed
qed

section \<open>The bank register of the Z80\<close>

definition bank_step :: "u8 \<Rightarrow> u32 \<Rightarrow> u32" where
  "bank_step x bank = (drop_bit 1 bank OR push_bit 8 (ucast (x AND 1))) AND 0x1FF"

lemma bank_write: "gbus_z80_write 0x6000 x (v, b) = (v, b\<lparr>z80_bank := bank_step x (z80_bank b)\<rparr>)"
  by (simp add: gbus_z80_write_def bank_step_def)

lemma mask_9: "(0x1FF :: u32) = mask 9"
  by (simp add: mask_eq_exp_minus_1)

lemma bit_bank_step:
  "bit (bank_step x bank) j \<longleftrightarrow> j < 9 \<and> (bit bank (Suc j) \<or> j = 8 \<and> bit x 0)"
  by (auto simp: bank_step_def mask_9 bit_simps bit_1_iff less_Suc_eq simp del: bit_0)

lemma bank_small: "bank < 0x200 \<Longrightarrow> bit bank j \<Longrightarrow> j < 9" for bank :: u32
proof -
  assume "bank < 0x200" "bit bank j"
  then have "take_bit 9 (uint bank) = uint bank" "bit (uint bank) j"
    by (auto simp: word_less_def take_bit_int_eq_self bit_uint_iff dest: bit_imp_le_length)
  then show "j < 9" by (metis bit_take_bit_iff)
qed

lemma bank_fold:
  assumes "bank < 0x200"
  shows "length xs \<le> 9 \<Longrightarrow> bit (fold bank_step xs bank) j \<longleftrightarrow>
    j < 9 \<and> (if 9 \<le> j + length xs then bit (xs ! (j + length xs - 9)) 0 else bit bank (j + length xs))"
proof (induction xs arbitrary: j rule: rev_induct)
  case Nil
  then show ?case using bank_small [OF assms, of j] by (cases "j < 9") auto
next
  case (snoc x xs)
  then have IH: "bit (fold bank_step xs bank) (Suc j) \<longleftrightarrow>
     Suc j < 9 \<and> (if 9 \<le> Suc j + length xs then bit (xs ! (Suc j + length xs - 9)) 0 else bit bank (Suc j + length xs))"
    by simp
  show ?case
    using snoc.prems by (auto simp: bit_bank_step IH nth_append simp del: bit_0)
qed

lemma fold_bank_write:
  "fold (gbus_z80_write 0x6000) xs (v, b) = (v, b\<lparr>z80_bank := fold bank_step xs (z80_bank b)\<rparr>)"
  by (induction xs arbitrary: b) (simp_all add: bank_write)

text \<open>
  The bank register loads serially. Whatever nine-bit value it held, after nine writes to \<^verbatim>\<open>$6000\<close> it holds the
  low bits of the nine bytes, first byte lowest, and nothing else has changed; and the upper half of
  the Z80's address space then reads the 32 KB of the 68000 bus that the register selects.
\<close>

theorem z80_bank_serial:
  assumes "length xs = 9" "z80_bank b < 0x200"
  shows "let s' = fold (gbus_z80_write 0x6000) xs (v, b) in
    s' = (v, b\<lparr>z80_bank := z80_bank (snd s')\<rparr>)
    \<and> (\<forall>j. bit (z80_bank (snd s')) j \<longleftrightarrow> j < 9 \<and> bit (xs ! j) 0)
    \<and> (\<forall>off < 0x8000. gbus_z80_read (0x8000 + off) s' =
        gbus_read8 (push_bit 15 (z80_bank (snd s')) + ucast off) s')"
proof -
  have "bit (fold bank_step xs (z80_bank b)) j \<longleftrightarrow> j < 9 \<and> bit (xs ! j) 0" for j
    using bank_fold [OF assms(2), of xs j] assms(1) by auto
  moreover have "gbus_z80_read (0x8000 + off) s = gbus_read8 (push_bit 15 (z80_bank (snd s)) + ucast off) s"
    if "off < 0x8000" for off s
  proof -
    have o: "0 \<le> uint off" "uint off < 0x8000" using that by (simp_all add: word_less_def)
    then have u: "uint (0x8000 + off) = 0x8000 + uint off" by (simp add: uint_word_ariths)
    then have n: "\<not> 0x8000 + off < 0x4000" "\<not> 0x8000 + off < 0x6000" "\<not> 0x8000 + off < 0x8000"
      unfolding word_less_def u by (simp_all add: not_less add_nonneg_nonneg)
    have "ucast (0x8000 + off) - 0x8000 = (ucast off :: u32)"
      using u o by (simp add: word_uint_eq_iff uint_word_ariths unsigned_ucast_eq take_bit_int_eq_self)
    then show ?thesis using n by (simp add: gbus_z80_read_def split_beta z80_window_def)
  qed
  ultimately show ?thesis by (simp add: fold_bank_write Let_def)
qed

section \<open>The geometry of the battery RAM\<close>

definition geometry :: "gbus \<Rightarrow> bool \<times> u32 \<times> u32 \<times> u32" where
  "geometry b = (sram_present b, sram_base b, sram_end b, sram_size b)"

definition sram_ok :: "bool \<times> u32 \<times> u32 \<times> u32 \<Rightarrow> bool" where
  "sram_ok = (\<lambda>(present, base, hi, size). present \<longrightarrow> base < hi \<and> size = hi - base + 1 \<and> size \<noteq> 0 \<and> size \<le> SRAM_BYTES)"

lemma map_sram_ok:
  assumes "sram_ok (geometry b)" "\<not> (even_addr start = 0 \<and> hi = 0xFFFFFFFF)"
  shows "sram_ok (geometry (map_sram start hi b))"
proof -
  have "hi - even_addr start + 1 \<noteq> 0" if "even_addr start < hi"
  proof
    assume "hi - even_addr start + 1 = 0"
    then have "hi - even_addr start = 0xFFFFFFFF" by (simp add: add_eq_0_iff2)
    then have "uint hi - uint (even_addr start) = 0xFFFFFFFF"
      using that by (simp add: word_uint_eq_iff uint_sub_if' word_less_def)
    moreover have "0 \<le> uint (even_addr start)" "uint hi < 4294967296"
      using uint_range_size [of hi] by (simp_all add: word_size)
    ultimately have "uint (even_addr start) = 0" "uint hi = 0xFFFFFFFF" by linarith+
    then show False using assms(2) by (simp add: word_uint_eq_iff)
  qed
  then show ?thesis
    using assms(1) by (auto simp: map_sram_def geometry_def sram_ok_def Let_def)
qed

lemma sram_ok_access:
  assumes "sram_ok (geometry b)" "sram_hit b a"
  shows "a - sram_base b < SRAM_BYTES" "(a - sram_base b + 1) mod sram_size b < SRAM_BYTES" "sram_size b \<noteq> 0"
proof -
  have h: "sram_base b \<le> a" "a \<le> sram_end b" "sram_base b < sram_end b" "sram_size b = sram_end b - sram_base b + 1"
    "sram_size b \<noteq> 0" "sram_size b \<le> SRAM_BYTES"
    using assms unfolding sram_ok_def geometry_def sram_hit_def split by blast+
  show nz: "sram_size b \<noteq> 0" by (rule h(5))
  have "a - sram_base b \<le> sram_end b - sram_base b"
    using h(1,2,3) by (simp add: word_le_def uint_sub_if' word_less_def)
  also have "\<dots> < sram_size b"
    using unatSuc [of "sram_end b - sram_base b"] h(4,5) by (simp add: word_less_nat_alt add.commute)
  also note h(6)
  finally show "a - sram_base b < SRAM_BYTES" .
  have "(a - sram_base b + 1) mod sram_size b < sram_size b"
    using nz by (simp add: word_mod_less_divisor word_neq_0_conv)
  also note h(6)
  finally show "(a - sram_base b + 1) mod sram_size b < SRAM_BYTES" .
qed

text \<open>A transfer through the VDP keeps whatever its reader keeps of the rest of the machine.\<close>

lemma dma_words_keep:
  assumes "\<And>a s. g (snd (snd (rd a s))) = g (snd s)"
  shows "g (snd (dma_words rd n src s)) = g (snd s)"
proof (induction n arbitrary: src s)
  case (Suc n)
  show ?case using Suc assms [of src s] by (simp add: split_beta)
qed simp

lemma write_control_keep:
  assumes "\<And>a s. g (snd (snd (rd a s))) = g (snd s)"
  shows "g (snd (gvdp_write_control (Some rd) val s)) = g (snd s)"
proof -
  have "g (snd (dma_run_68k_to_vdp (Some rd) s)) = g (snd s)" for s
    using dma_words_keep [of g rd, OF assms] by (simp add: dma_run_68k_to_vdp_def Let_def)
  then have "g (snd (maybe_start_dma (Some rd) s)) = g (snd s)" for s
    by (simp add: maybe_start_dma_def Let_def split_beta)
  then show ?thesis by (simp add: gvdp_write_control_def Let_def split_beta)
qed

lemma read16_geometry: "geometry (snd (snd (gbus_read16 a s))) = geometry (snd s)"
proof -
  have t: "geometry (ym_timer_update t b) = geometry b" for t b
    using timer_update_shape [of t b] by (auto simp: geometry_def)
  show ?thesis
    by (simp only: gbus_read16_def Let_def split_beta fst_conv snd_conv if_distrib [of snd] t if_cancel
        option.case_distrib [of snd]) (simp add: t split: option.splits)
qed

lemma geometry_helpers:
  "geometry (push_68k prt x b) = geometry b" "geometry (push_z80 prt x b) = geometry b"
  "geometry (glue_charge_68k_stall n b) = geometry b" "geometry (io_write a x b) = geometry b"
  "geometry (z80_store a x b) = geometry b" "geometry (ym_write_side_effect prt x t b) = geometry b"
proof -
  show "geometry (push_68k prt x b) = geometry b" "geometry (push_z80 prt x b) = geometry b"
    "geometry (glue_charge_68k_stall n b) = geometry b" "geometry (z80_store a x b) = geometry b"
    by (simp_all add: geometry_def push_68k_def push_z80_def glue_charge_68k_stall_def z80_store_def Let_def)
  show "geometry (io_write a x b) = geometry b"
    by (simp add: geometry_def io_write_def set_io_data_def set_io_ctrl_def pad_io_tick_def Let_def)
  have t: "geometry (ym_timer_update t b) = geometry b"
    using timer_update_shape [of t b] by (auto simp: geometry_def)
  have m: "geometry (ym_mode_write x t c) = geometry c" for c by (simp add: ym_mode_write_def geometry_def Let_def)
  have f: "geometry (c\<lparr>ym_addr := f\<rparr>) = geometry c" "geometry (c\<lparr>ym_timer_b := p, ym_timer_b_period := q\<rparr>) = geometry c"
    for c f p q by (simp_all add: geometry_def)
  show "geometry (ym_write_side_effect prt x t b) = geometry b"
    by (simp add: ym_write_side_effect_def Let_def t m f)
qed

lemma charge_geometry: "geometry (snd (charge_dma s)) = geometry (snd s)"
  by (simp add: charge_dma_def split_beta Let_def geometry_helpers)

lemma write16_geometry: "geometry (snd (gbus_write16 a x s)) = geometry (snd s)"
proof -
  have f: "geometry (b\<lparr>g_ram := r\<rparr>) = geometry b" "geometry (b\<lparr>sram := r'\<rparr>) = geometry b"
    "geometry (b\<lparr>sram_enabled := e\<rparr>) = geometry b" "geometry (b\<lparr>z80_busreq := e\<rparr>) = geometry b"
    "geometry (b\<lparr>z80_reset_off := e, z80_reset_pending := e'\<rparr>) = geometry b" for b r r' e e'
    by (simp_all add: geometry_def)
  have fm: "geometry (fm_port_68k c y b) = geometry b" for c y b
    by (simp add: fm_port_68k_def Let_def geometry_helpers)
  have c: "geometry (snd (gvdp_write_control (Some gbus_read16) x (fst s, snd s))) = geometry (snd s)"
    using write_control_keep [of geometry gbus_read16 x s] read16_geometry by simp
  show ?thesis
    by (simp only: gbus_write16_def Let_def split_beta if_distrib [of snd] if_distrib [of geometry] snd_conv fst_conv
        f fm c geometry_helpers charge_geometry if_cancel)
qed

lemma write8_geometry: "geometry (snd (gbus_write8 a x s)) = geometry (snd s)"
proof -
  have f: "geometry (b\<lparr>g_ram := r\<rparr>) = geometry b" "geometry (b\<lparr>sram := r'\<rparr>) = geometry b"
    "geometry (b\<lparr>sram_enabled := e\<rparr>) = geometry b" for b r r' e
    by (simp_all add: geometry_def)
  have fm: "geometry (fm_port_68k c y b) = geometry b" for c y b
    by (simp add: fm_port_68k_def Let_def geometry_helpers)
  show ?thesis
    by (simp only: gbus_write8_def Let_def split_beta if_distrib [of snd] if_distrib [of geometry] snd_conv fst_conv
        f fm geometry_helpers write16_geometry if_cancel)
qed

lemma read8_geometry: "geometry (snd (snd (gbus_read8 a s))) = geometry (snd s)"
  using read16_geometry [of "even_addr a" s] by (simp add: gbus_read8_def Let_def split_beta)

lemma z80_geometry:
  "geometry (snd (snd (gbus_z80_read p s))) = geometry (snd s)" "geometry (snd (gbus_z80_write p x s)) = geometry (snd s)"
proof -
  have t: "geometry (ym_timer_update t b) = geometry b" for t b
    using timer_update_shape [of t b] by (auto simp: geometry_def)
  show "geometry (snd (snd (gbus_z80_read p s))) = geometry (snd s)"
    by (simp add: gbus_z80_read_def split_beta Let_def t read8_geometry)
  have f: "geometry (b\<lparr>z80_ram := r\<rparr>) = geometry b" "geometry (b\<lparr>z80_bank := r'\<rparr>) = geometry b" for b r r'
    by (simp_all add: geometry_def)
  show "geometry (snd (gbus_z80_write p x s)) = geometry (snd s)"
    by (simp add: gbus_z80_write_def split_beta Let_def f geometry_helpers write8_geometry)
qed

text \<open>
  The whole 32-bit address space as a range: the one range whose size wraps to zero and so passes the
  size test. A cartridge claims it through its header, or, when the header maps nothing, through the
  specification of the game.
\<close>

definition whole_space :: "u32 \<Rightarrow> u32 \<Rightarrow> bool" where
  "whole_space start hi \<longleftrightarrow> even_addr start = 0 \<and> hi = 0xFFFFFFFF"

definition claims_space :: "gbus \<Rightarrow> u32 \<Rightarrow> u32 \<Rightarrow> bool" where
  "claims_space b start hi \<longleftrightarrow>
    g_rom b 0x1B0 = 0x52 \<and> g_rom b 0x1B1 = 0x41 \<and> whole_space (rom32 b 0x1B4) (rom32 b 0x1B8)
    \<or> \<not> sram_present (gbus_sram_setup (gbus_init b)) \<and> start \<noteq> 0 \<and> whole_space start hi"

text \<open>
  The bus states that a run reaches, with a flag that tells whether its cartridge claims the whole
  space. The geometry is taken from any header and any specification; after that both processors access
  the bus in any order, the frontend sets pads and loads the battery file, the scheduler restarts the
  Z80, everything outside the bus structure changes in any way, and a snapshot of any state reached
  before is loaded back.
\<close>

inductive booted :: "bool \<Rightarrow> bstate \<Rightarrow> bool" where
  boot: "booted (claims_space b start hi) (v, gbus_sram_set_geometry start hi (gbus_sram_setup (gbus_init b)))"
| read16: "booted w s \<Longrightarrow> booted w (snd (gbus_read16 a s))"
| read8: "booted w s \<Longrightarrow> booted w (snd (gbus_read8 a s))"
| write16: "booted w s \<Longrightarrow> booted w (gbus_write16 a y s)"
| write8: "booted w s \<Longrightarrow> booted w (gbus_write8 a x s)"
| z80_rd: "booted w s \<Longrightarrow> booted w (snd (gbus_z80_read p s))"
| z80_wr: "booted w s \<Longrightarrow> booted w (gbus_z80_write p x s)"
| pads: "booted w (v, b) \<Longrightarrow> booted w (v, machine_set_pad i btn b)"
| pad_types: "booted w (v, b) \<Longrightarrow> booted w (v, machine_set_pad_type i six b)"
| battery: "booted w (v, b) \<Longrightarrow> booted w (v, b\<lparr>sram := f\<rparr>)"
| restart: "booted w (v, b) \<Longrightarrow> booted w (v, b\<lparr>z80_reset_pending := False\<rparr>)"
| outside: "booted w (v, b) \<Longrightarrow> booted w (v', GenesisBus.extend (GenesisBus.truncate b) m)"
| snapshot: "booted w (v, b) \<Longrightarrow> booted w (v1, b1) \<Longrightarrow>
    booted w (v', GenesisBus.extend (GenesisBus.truncate b1) (GenesisBus.more b))"

lemma init_geometry: "geometry (gbus_init b) = (False, 0, 0, 0)" "rom32 (gbus_init b) a = rom32 b a" "g_rom (gbus_init b) = g_rom b"
  by (simp_all add: geometry_def gbus_init_def rom32_def)

lemma machine_geometry:
  "geometry (machine_set_pad i btn b) = geometry b" "geometry (machine_set_pad_type i six b) = geometry b"
  "geometry (b\<lparr>sram := f\<rparr>) = geometry b" "geometry (b\<lparr>z80_reset_pending := r\<rparr>) = geometry b"
  "geometry (GenesisBus.extend (GenesisBus.truncate b) m) = geometry b"
  by (simp_all add: geometry_def machine_set_pad_def machine_set_pad_type_def GenesisBus.defs Let_def)

lemma map_sram_whole:
  "whole_space start hi \<Longrightarrow> geometry (map_sram start hi b) = (True, 0, 0xFFFFFFFF, 0)"
  by (simp add: whole_space_def map_sram_def geometry_def SRAM_BYTES_def word_gt_0)

lemma boot_geometry:
  "if claims_space b start hi
   then geometry (gbus_sram_set_geometry start hi (gbus_sram_setup (gbus_init b))) = (True, 0, 0xFFFFFFFF, 0)
   else sram_ok (geometry (gbus_sram_set_geometry start hi (gbus_sram_setup (gbus_init b))))"
proof -
  let ?h = "gbus_sram_setup (gbus_init b)" and ?ra = "g_rom b 0x1B0 = 0x52 \<and> g_rom b 0x1B1 = 0x41"
  have i: "sram_ok (geometry (gbus_init b))" by (simp add: init_geometry sram_ok_def)
  show ?thesis
  proof (cases "?ra \<and> whole_space (rom32 b 0x1B4) (rom32 b 0x1B8)")
    case True
    then have "geometry ?h = (True, 0, 0xFFFFFFFF, 0)" by (simp add: gbus_sram_setup_def init_geometry map_sram_whole)
    then show ?thesis using True by (simp add: claims_space_def gbus_sram_set_geometry_def geometry_def)
  next
    case header: False
    have "sram_ok (geometry ?h)"
      using map_sram_ok [OF i] header i by (auto simp: gbus_sram_setup_def init_geometry whole_space_def)
    then show ?thesis
      using header map_sram_ok [of ?h start hi] map_sram_whole [of start hi ?h]
      by (auto simp: claims_space_def gbus_sram_set_geometry_def whole_space_def)
  qed
qed

lemma booted_geometry:
  "booted w s \<Longrightarrow> if w then geometry (snd s) = (True, 0, 0xFFFFFFFF, 0) else sram_ok (geometry (snd s))"
proof (induction rule: booted.induct)
  case (boot b start hi v)
  show ?case using boot_geometry by simp
qed (simp_all add: read16_geometry read8_geometry write16_geometry write8_geometry z80_geometry machine_geometry split: if_splits)


section \<open>Concrete instances\<close>

definition six_button_bus :: gbus where
  "six_button_bus = machine_set_pad_type 0 True power_on"

theorem controller_protocol_witness:
  "\<forall>v. decode_pad (scan 0 [0x40, 0, 0x40, 0, 0x40, 0, 0x40, 0] (v, machine_set_pad 0 0x905 six_button_bus)) = 0x905"
proof
  fix v
  have "cart_sram six_button_bus" "pad_type six_button_bus 0 = 1"
    by (simp_all add: six_button_bus_def cart_sram_def machine_set_pad_type_def power_on_def)
  with controller_protocol [of six_button_bus 0 v "0x905"]
  show "decode_pad (scan 0 [0x40, 0, 0x40, 0, 0x40, 0, 0x40, 0] (v, machine_set_pad 0 0x905 six_button_bus)) = 0x905"
    by (simp add: Let_def del: scan.simps)
qed

theorem z80_bank_serial_witness:
  "\<forall>v. bit (z80_bank (snd (fold (gbus_z80_write 0x6000) [1, 0, 0, 0, 0, 0, 0, 1, 1] (v, power_on)))) 8"
proof
  fix v
  have "z80_bank power_on < 0x200" by (simp add: power_on_def word_less_def)
  moreover have "length [1, 0, 0, 0, 0, 0, 0, 1, 1 :: u8] = 9" by simp
  ultimately have "bit (z80_bank (snd (fold (gbus_z80_write 0x6000) [1, 0, 0, 0, 0, 0, 0, 1, 1] (v, power_on)))) 8 \<longleftrightarrow>
      8 < (9 :: nat) \<and> bit ([1, 0, 0, 0, 0, 0, 0, 1, 1] ! 8 :: u8) 0"
    using z80_bank_serial [of "[1, 0, 0, 0, 0, 0, 0, 1, 1]" power_on v] unfolding Let_def by blast
  then show "bit (z80_bank (snd (fold (gbus_z80_write 0x6000) [1, 0, 0, 0, 0, 0, 0, 1, 1] (v, power_on)))) 8" by simp
qed

text \<open>A cartridge with a kilobyte of battery RAM, and one whose specification claims the whole space.\<close>

definition small_sram :: "u32 \<Rightarrow> u32 \<Rightarrow> bstate" where
  "small_sram start hi =
    gbus_write16 0xA130F0 1 (idle_vdp, gbus_sram_set_geometry start hi (gbus_sram_setup (gbus_init power_on)))"

lemma small_sram_booted: "booted (claims_space power_on start hi) (small_sram start hi)"
  unfolding small_sram_def by (intro booted.intros)

lemma small_sram_hit:
  "sram_hit (snd (small_sram 0x200001 0x2003FF)) 0x2003FF" "sram_hit (snd (small_sram 1 0xFFFFFFFF)) 0x2003FF"
  by (simp_all add: small_sram_def gbus_write16_def sram_hit_def gbus_sram_set_geometry_def gbus_sram_setup_def map_sram_def
      gbus_init_def power_on_def SRAM_BYTES_def even_addr_alt Let_def bit_0 word_gt_0)


end
