(* ===== verification/Glue_Irq.thy ===== *)
theory Glue_Irq
  imports M68k_Alu Genesis_Bus_Props
begin

text \<open>
  Interrupt delivery and cycle budget of the runtime, \<^verbatim>\<open>runner/glue.c\<close> with
  \<^verbatim>\<open>main_cpu_clock.h\<close> and \<^verbatim>\<open>native_interrupt_frame.h\<close>: the atomic and the interleaved run of a
  handler, the latches for masked requests, the raster debt of a handler, the chunks of the main
  program and the budget that a chunk drains. The recompiled program is not part of the repository;
  its handlers, the switch into its fiber and its timing choices are fields of the parameter record
  \<open>game\<close>, whose operations act on the whole state.
\<close>

section \<open>State\<close>

record glue =
  g_cpu :: M68KState
  vdp :: GVDP
  bus :: gbus
  s_game_running :: bool
  s_game_fiber :: bool
  s_game_yielded_vblank :: bool
  s_state_parked :: bool
  s_native_pc_scope :: bool
  s_native_instruction_open :: bool
  s_native_vblank_completed :: bool
  s_irq_in_progress :: bool
  s_own_vint_latched :: bool
  s_own_hint_latched :: bool
  s_interleave_irq :: bool
  s_pending_irq :: nat
  s_irq_cycle_debt :: u32
  s_irq_cycle_debt_level :: nat
  s_chunk_cycles :: u32
  s_main_cpu_divisor :: u32
  clock_remainder :: u32
  s_cycle_budget :: u32
  s_budget_cyc_seen :: u32
  g_chunk_yield_count :: u64
  s_watchdog_counter :: u32
  s_insn_watchdog_base :: u64
  g_native_insn_count :: u64
  g_cycle_accumulator :: u32
  g_split_sp_popped :: int
  rte_real :: bool
  rte_dummy :: bool
  rte_uses_dummy :: bool

record game =
  intr_stack :: u32
  genesis_force_interp :: bool
  call_vblank :: "(glue \<Rightarrow> glue) option"
  call_hblank :: "(glue \<Rightarrow> glue) option"
  m68k_interp_run_handler :: "u32 \<Rightarrow> glue \<Rightarrow> glue"
  m68k_read32 :: "u32 \<Rightarrow> glue \<Rightarrow> u32 \<times> glue"
  fiber_switch :: "glue \<Rightarrow> glue"
  main_cpu_divisor :: "(glue \<Rightarrow> u32) option"
  state_boundary_at_frame_end :: bool

definition map_bus :: "(gbus \<Rightarrow> gbus) \<Rightarrow> glue \<Rightarrow> glue" where
  "map_bus f g = g\<lparr>bus := f (bus g)\<rparr>"

section \<open>The main program's clock\<close>

definition main_cpu_elapsed :: "u32 \<Rightarrow> u32 \<Rightarrow> u32 \<Rightarrow> u32 \<Rightarrow> u32 \<times> u32" where
  "main_cpu_elapsed remainder elapsed stalls divisor =
    (if divisor \<le> 1 then (elapsed, 0)
     else
       let stalls = (if stalls > elapsed then elapsed else stalls);
           cpu = (ucast (elapsed - stalls) :: u64) + ucast remainder
       in (stalls + ucast (cpu div ucast divisor), ucast (cpu mod ucast divisor)))"

text \<open>
  The check that every bus access makes. The flag tells that the budget is used up, in which case
  the C function switches to the scheduler before it returns.
\<close>

definition check_cycle_budget :: "glue \<Rightarrow> bool \<times> glue" where
  "check_cycle_budget g =
    (if s_interleave_active (bus g) \<and> \<not> s_in_vblank_service (bus g) then
       let seen = s_budget_cyc_seen g;
           now = g_audio_cycle_counter (bus g);
           g = (if s_main_cpu_divisor g > 1 \<and> \<not> s_irq_in_progress g \<and> now > seen
                then let elapsed = now - seen;
                         (scaled, remainder) = main_cpu_elapsed (clock_remainder g) elapsed
                           (s_main_cpu_stalls (bus g)) (s_main_cpu_divisor g)
                     in map_bus (\<lambda>b. b\<lparr>g_audio_cycle_counter := now - (elapsed - scaled)\<rparr>)
                          (g\<lparr>clock_remainder := remainder\<rparr>)
                else g);
           now = g_audio_cycle_counter (bus g);
           g = map_bus (\<lambda>b. b\<lparr>s_main_cpu_stalls := 0\<rparr>) g;
           g = (if now > seen then g\<lparr>s_cycle_budget := s_cycle_budget g - (now - seen)\<rparr> else g);
           g = g\<lparr>s_budget_cyc_seen := now\<rparr>
       in if s_cycle_budget g \<le>s 0
          then (True, g\<lparr>s_watchdog_counter := 0, g_chunk_yield_count := g_chunk_yield_count g + 1\<rparr>)
          else (False, g)
     else (False, g))"

section \<open>Running a chunk of the main program\<close>

definition instruction_watchdog_reset :: "glue \<Rightarrow> glue" where
  "instruction_watchdog_reset g = g\<lparr>s_insn_watchdog_base := g_native_insn_count g\<rparr>"

definition divisor_of :: "game \<Rightarrow> glue \<Rightarrow> u32" where
  "divisor_of gm g =
    (let d = (case main_cpu_divisor gm of Some f \<Rightarrow> f g | None \<Rightarrow> 1) in if d = 0 then 1 else d)"

definition start_chunk :: "game \<Rightarrow> u32 \<Rightarrow> glue \<Rightarrow> glue" where
  "start_chunk gm cycles g =
    (let g = g\<lparr>s_chunk_cycles := cycles\<rparr>;
         divisor = (if s_native_pc_scope g then 1 else divisor_of gm g);
         g = (if divisor \<noteq> s_main_cpu_divisor g then g\<lparr>clock_remainder := 0\<rparr> else g);
         g = g\<lparr>s_main_cpu_divisor := divisor, s_cycle_budget := cycles,
               s_budget_cyc_seen := g_audio_cycle_counter (bus g)\<rparr>;
         g = map_bus (\<lambda>b. b\<lparr>s_main_cpu_stalls := 0, s_interleave_active := True\<rparr>) g;
         g = (instruction_watchdog_reset g)\<lparr>s_state_parked := False\<rparr>;
         g = instruction_watchdog_reset (fiber_switch gm g)
     in map_bus (\<lambda>b. b\<lparr>s_interleave_active := False\<rparr>) g)"

definition glue_run_game_chunk :: "game \<Rightarrow> u32 \<Rightarrow> glue \<Rightarrow> glue" where
  "glue_run_game_chunk gm cycles g =
    (if s_state_parked g \<and> \<not> state_boundary_at_frame_end gm then g
     else if \<not> s_game_running g \<or> \<not> s_game_fiber g then g
     else if s_game_yielded_vblank g then g
     else if s_irq_cycle_debt g \<noteq> 0 then
       (if s_irq_cycle_debt g \<ge> cycles then
          let debt = s_irq_cycle_debt g - cycles;
              g = g\<lparr>s_irq_cycle_debt := debt\<rparr>
          in if debt = 0 then g\<lparr>s_irq_cycle_debt_level := 0\<rparr> else g
        else start_chunk gm (cycles - s_irq_cycle_debt g)
          (g\<lparr>s_irq_cycle_debt := 0, s_irq_cycle_debt_level := 0\<rparr>))
     else start_chunk gm cycles g)"

section \<open>Handlers\<close>

text \<open>\<^verbatim>\<open>g_rte_pending\<close> is a macro for the cell that \<^verbatim>\<open>g_rte_pending_ptr\<close> points to.\<close>

definition set_rte_pending :: "bool \<Rightarrow> glue \<Rightarrow> glue" where
  "set_rte_pending x g = (if rte_uses_dummy g then g\<lparr>rte_dummy := x\<rparr> else g\<lparr>rte_real := x\<rparr>)"

definition rte_enter :: "glue \<Rightarrow> glue" where
  "rte_enter g = set_rte_pending False ((set_rte_pending False g)\<lparr>rte_uses_dummy := True\<rparr>)"

definition rte_leave :: "glue \<Rightarrow> glue" where
  "rte_leave g = set_rte_pending False (g\<lparr>rte_uses_dummy := False\<rparr>)"

definition frame_bytes :: "u16 \<Rightarrow> u32 \<Rightarrow> u8 list" where
  "frame_bytes sr pc = [hi8 sr, lo8 sr, ucast (drop_bit 24 pc), ucast (drop_bit 16 pc), ucast (drop_bit 8 pc), ucast pc]"

fun put_bytes :: "u16 \<Rightarrow> u8 list \<Rightarrow> (u16 \<Rightarrow> u8) \<Rightarrow> u16 \<Rightarrow> u8" where
  "put_bytes a [] ram = ram"
| "put_bytes a (x # xs) ram = put_bytes (a + 1) xs (ram(a := x))"

definition native_interrupt_frame_write :: "u32 \<Rightarrow> u16 \<Rightarrow> u32 \<Rightarrow> (u16 \<Rightarrow> u8) \<Rightarrow> u16 \<Rightarrow> u8" where
  "native_interrupt_frame_write sp sr pc = put_bytes (ucast sp) (frame_bytes sr pc)"

definition native_interrupt_frame_read :: "(u16 \<Rightarrow> u8) \<Rightarrow> u32 \<Rightarrow> u16 \<times> u32" where
  "native_interrupt_frame_read ram sp =
    (let a = ucast sp :: u16
     in (be16 (ram a) (ram (a + 1)),
         fold (\<lambda>i pc. push_bit 8 pc OR ucast (ram (a + of_nat i))) [2..<6] 0))"

definition save_stack :: "game \<Rightarrow> glue \<Rightarrow> u8 list" where
  "save_stack gm g = map (\<lambda>i. g_ram (bus g) (ucast (intr_stack gm - 256) + of_nat i)) [0..<256]"

definition restore_stack :: "game \<Rightarrow> u8 list \<Rightarrow> glue \<Rightarrow> glue" where
  "restore_stack gm save g =
    map_bus (\<lambda>b. b\<lparr>g_ram := put_bytes (ucast (intr_stack gm - 256)) save (g_ram b)\<rparr>) g"

definition with_mask :: "nat \<Rightarrow> u16 \<Rightarrow> u16" where
  "with_mask level sr = (sr AND NOT 0x0700) OR push_bit 8 (of_nat (level mod 8))"

definition run_handler :: "game \<Rightarrow> nat \<Rightarrow> glue \<Rightarrow> glue" where
  "run_handler gm level g =
    (if genesis_force_interp gm then
       let (vector, g) = m68k_read32 gm (if level = 6 then 0x78 else 0x70) g
       in m68k_interp_run_handler gm (vector AND 0xFFFFFF) g
     else case (if level = 6 then call_vblank gm else call_hblank gm) of Some f \<Rightarrow> f g | None \<Rightarrow> g)"

text \<open>The stamp re-base: the handler's first write is stamped at the raster position of delivery.\<close>

definition rebase_stamps :: "glue \<Rightarrow> glue" where
  "rebase_stamps = map_bus (\<lambda>b. b\<lparr>g_68k_stamp_rebase := machine_z80_stamp b - g_audio_cycle_counter b * 7\<rparr>)"

definition vint_prologue :: "game \<Rightarrow> glue \<Rightarrow> glue" where
  "vint_prologue gm g =
    (let saved = g_cpu g;
         precise = s_native_pc_scope g;
         exception_sp = (A_reg saved 7 - 6) AND 0xFFFFFF;
         g = g\<lparr>g_split_sp_popped := 0, g_cpu := setA 7 (if precise then exception_sp else intr_stack gm) saved\<rparr>;
         g = map_bus (\<lambda>b. b\<lparr>s_in_vblank_service := True\<rparr>) g;
         g = (if precise then
                map_bus (\<lambda>b. b\<lparr>g_ram := native_interrupt_frame_write exception_sp (SR saved) (PC saved) (g_ram b)\<rparr>)
                  (g\<lparr>g_cpu := (g_cpu g)\<lparr>SR := with_mask 6 (SR saved)\<rparr>\<rparr>)
              else g);
         g = rte_enter (rebase_stamps g);
         g = g\<lparr>vdp := (vdp g)\<lparr>in_vblank := True\<rparr>\<rparr>
     in if precise
        then (map_bus (\<lambda>b. b\<lparr>g_audio_cycle_counter := g_audio_cycle_counter b + 44\<rparr>) g)
               \<lparr>g_cycle_accumulator := g_cycle_accumulator g + 44\<rparr>
        else g)"

definition own_deliver_vint :: "game \<Rightarrow> glue \<Rightarrow> glue" where
  "own_deliver_vint gm g0 =
    (let saved = g_cpu g0;
         precise = s_native_pc_scope g0;
         exception_sp = (A_reg saved 7 - 6) AND 0xFFFFFF;
         save = save_stack gm g0;
         cyc_before = g_audio_cycle_counter (bus g0);
         g = run_handler gm 6 (vint_prologue gm g0);
         g = g\<lparr>s_irq_cycle_debt := s_irq_cycle_debt g + (g_audio_cycle_counter (bus g) - cyc_before)\<rparr>;
         g = (if s_irq_cycle_debt g \<noteq> 0 then g\<lparr>s_irq_cycle_debt_level := 6\<rparr> else g);
         g = map_bus (\<lambda>b. b\<lparr>g_68k_stamp_rebase := g_68k_stamp_rebase (bus g0)\<rparr>) g;
         g = rte_leave (g\<lparr>vdp := (vdp g)\<lparr>in_vblank := in_vblank (vdp g0)\<rparr>\<rparr>);
         g = map_bus (\<lambda>b. b\<lparr>s_in_vblank_service := False\<rparr>) g;
         (return_sr, return_pc) = (if precise then native_interrupt_frame_read (g_ram (bus g)) exception_sp
                                   else (SR saved, PC saved));
         g = (if precise then g else restore_stack gm save g);
         g = g\<lparr>g_cpu := saved\<rparr>;
         g = (if precise
              then g\<lparr>g_cpu := saved\<lparr>PC := return_pc AND 0xFFFFFF, SR := return_sr\<rparr>, s_native_vblank_completed := True,
                     s_budget_cyc_seen := g_audio_cycle_counter (bus g)\<rparr>
              else g)
     in g\<lparr>g_split_sp_popped := g_split_sp_popped g0, s_game_yielded_vblank := False\<rparr>)"

definition own_run_handler_interleaved :: "game \<Rightarrow> nat \<Rightarrow> glue \<Rightarrow> glue" where
  "own_run_handler_interleaved gm level g0 =
    (let saved = g_cpu g0; save = save_stack gm g0;
         g = g0\<lparr>g_split_sp_popped := 0,
                g_cpu := (setA 7 (intr_stack gm) saved)\<lparr>SR := with_mask level (SR saved)\<rparr>,
                s_irq_in_progress := True, vdp := (vdp g0)\<lparr>in_vblank := True\<rparr>\<rparr>;
         g = rte_leave (run_handler gm level (rte_enter g));
         g = g\<lparr>vdp := (vdp g)\<lparr>in_vblank := in_vblank (vdp g0)\<rparr>\<rparr>
     in (restore_stack gm save g)\<lparr>g_cpu := saved, g_split_sp_popped := g_split_sp_popped g0,
          s_irq_in_progress := False, s_game_yielded_vblank := False\<rparr>)"

definition own_deliver_hint :: "game \<Rightarrow> glue \<Rightarrow> glue" where
  "own_deliver_hint gm g0 =
    (let saved = g_cpu g0; save = save_stack gm g0;
         g = g0\<lparr>g_split_sp_popped := 0, g_cpu := setA 7 (intr_stack gm) saved\<rparr>;
         g = rte_enter (rebase_stamps (map_bus (\<lambda>b. b\<lparr>s_in_vblank_service := True\<rparr>) g));
         cyc_before = g_audio_cycle_counter (bus g);
         g = run_handler gm 4 g;
         g = g\<lparr>s_irq_cycle_debt := s_irq_cycle_debt g + (g_audio_cycle_counter (bus g) - cyc_before)\<rparr>;
         g = (if s_irq_cycle_debt g \<noteq> 0 \<and> s_irq_cycle_debt_level g < 4 then g\<lparr>s_irq_cycle_debt_level := 4\<rparr> else g);
         g = map_bus (\<lambda>b. b\<lparr>g_68k_stamp_rebase := g_68k_stamp_rebase (bus g0), s_in_vblank_service := False\<rparr>) (rte_leave g)
     in (restore_stack gm save g)\<lparr>g_cpu := saved, g_split_sp_popped := g_split_sp_popped g0\<rparr>)"

section \<open>Requests and latches\<close>

definition imask :: "glue \<Rightarrow> nat" where
  "imask g = unat (drop_bit 8 (SR (g_cpu g)) AND 7)"

definition latch_request :: "nat \<Rightarrow> glue \<Rightarrow> glue" where
  "latch_request level g =
    (if level = 6 then g\<lparr>s_own_vint_latched := True\<rparr>
     else if level = 4 then g\<lparr>s_own_hint_latched := True\<rparr> else g)"

definition glue_own_interrupt :: "game \<Rightarrow> nat \<Rightarrow> glue \<Rightarrow> glue" where
  "glue_own_interrupt gm level g =
    (if \<not> s_game_running g then g
     else if s_native_pc_scope g \<and> s_native_instruction_open g then latch_request level g
     else if s_irq_in_progress g then latch_request level g
     else if level = 6 then
       (if imask g < 6 then
          let g = g\<lparr>s_own_vint_latched := False\<rparr>
          in if s_interleave_irq g \<and> s_game_yielded_vblank g
             then g\<lparr>s_pending_irq := 6, s_game_yielded_vblank := False\<rparr>
             else own_deliver_vint gm g
        else g\<lparr>s_own_vint_latched := True\<rparr>)
     else if level = 4 \<and> imask g \<ge> 4 then g\<lparr>s_own_hint_latched := True\<rparr>
     else if level = 4 then own_deliver_hint gm (g\<lparr>s_own_hint_latched := False\<rparr>)
     else g)"

definition glue_own_vint_service_latched :: "game \<Rightarrow> glue \<Rightarrow> bool \<times> glue" where
  "glue_own_vint_service_latched gm g =
    (if \<not> s_own_vint_latched g \<or> \<not> s_game_running g then (False, g)
     else if s_native_pc_scope g \<and> s_native_instruction_open g then (False, g)
     else if imask g \<ge> 6 then (False, g)
     else (True, own_deliver_vint gm (g\<lparr>s_own_vint_latched := False\<rparr>)))"

definition glue_own_hint_service_latched :: "game \<Rightarrow> glue \<Rightarrow> bool \<times> glue" where
  "glue_own_hint_service_latched gm g =
    (if s_native_pc_scope g \<and> s_native_instruction_open g then (False, g)
     else if \<not> s_own_hint_latched g \<or> \<not> s_game_running g \<or> s_irq_in_progress g \<or> s_pending_irq g \<noteq> 0
       \<or> \<not> bit (reg (vdp g) 0) 4 \<or> imask g \<ge> 4 then (False, g)
     else (True, glue_own_interrupt gm 4 g))"

end
