(* ===== verification/Glue_Irq_Props.thy ===== *)
theory Glue_Irq_Props
  imports Glue_Irq
begin

text \<open>
  Properties of interrupt delivery and of the cycle budget: a handler is invisible to the program it
  interrupts except through memory, its time is charged to the raster exactly, masked V-ints behave
  as one level-triggered line, and the divided clock of the main program loses no cycle.
\<close>

section \<open>Byte runs in wrapping RAM\<close>

lemma put_bytes_other: "\<forall>i < length xs. a' \<noteq> a + of_nat i \<Longrightarrow> put_bytes a xs ram a' = ram a'"
proof (induction xs arbitrary: a ram)
  case (Cons x xs)
  have "a' \<noteq> a + 1 + of_nat i" if "i < length xs" for i
    using Cons.prems that by (auto dest: spec [of _ "Suc i"] simp: add.assoc)
  moreover have "a' \<noteq> a" using Cons.prems by (auto dest: spec [of _ 0])
  ultimately show ?case unfolding put_bytes.simps by (subst Cons.IH) simp_all
qed simp

lemma small_offsets: "i < 65536 \<Longrightarrow> of_nat i = (0 :: u16) \<longleftrightarrow> i = 0"
  by (simp add: word_unat_eq_iff unat_of_nat take_bit_nat_eq_self)

lemma put_bytes_nth:
  "length xs \<le> 65536 \<Longrightarrow> i < length xs \<Longrightarrow> put_bytes a xs ram (a + of_nat i) = xs ! i"
proof (induction xs arbitrary: a ram i)
  case (Cons x xs)
  show ?case
  proof (cases i)
    case 0
    have "a \<noteq> a + 1 + of_nat k" if "k < length xs" for k
      using small_offsets [of "Suc k"] that Cons.prems(1) by (simp add: add.assoc)
    then have "put_bytes (a + 1) xs (ram(a := x)) a = x" by (subst put_bytes_other) auto
    then show ?thesis using 0 by simp
  next
    case (Suc k)
    have e: "a + of_nat i = a + 1 + of_nat k" by (simp add: Suc add.assoc)
    show ?thesis unfolding put_bytes.simps e by (subst Cons.IH) (use Cons.prems Suc in simp_all)
  qed
qed simp

lemma put_bytes_restores:
  assumes "length xs \<le> 65536" "\<And>i. i < length xs \<Longrightarrow> xs ! i = ram0 (a + of_nat i)"
  shows "put_bytes a xs ram a' = (if \<exists>i < length xs. a' = a + of_nat i then ram0 a' else ram a')"
  using put_bytes_nth [OF assms(1)] put_bytes_other [of xs a' a ram] assms(2) by auto

lemma frame_round_trip:
  "native_interrupt_frame_read (native_interrupt_frame_write sp sr pc ram) sp = (sr, pc)"
  for pc :: u32
proof -
  let ?r = "put_bytes (ucast sp) (frame_bytes sr pc) ram"
  have n: "?r (ucast sp + of_nat i) = frame_bytes sr pc ! i" if "i < 6" for i
    using put_bytes_nth [of "frame_bytes sr pc" i] that by (simp add: frame_bytes_def)
  have k: "?r (ucast sp) = hi8 sr" "?r (ucast sp + 1) = lo8 sr" "?r (ucast sp + 2) = ucast (drop_bit 24 pc)"
    "?r (ucast sp + 3) = ucast (drop_bit 16 pc)" "?r (ucast sp + 4) = ucast (drop_bit 8 pc)" "?r (ucast sp + 5) = ucast pc"
    using n [of 0] n [of 1] n [of 2] n [of 3] n [of 4] n [of 5] by (simp_all add: frame_bytes_def)
  have "push_bit 8 (push_bit 8 (push_bit 8 (ucast (ucast (drop_bit 24 pc) :: u8)) OR ucast (ucast (drop_bit 16 pc) :: u8))
      OR ucast (ucast (drop_bit 8 pc) :: u8)) OR ucast (ucast pc :: u8) = pc" (is "?l = pc")
  proof (rule bit_word_eqI)
    fix n assume "n < LENGTH(32)"
    then consider "n < 8" | "8 \<le> n" "n < 16" | "16 \<le> n" "n < 24" | "24 \<le> n" "n < 32" by fastforce
    then show "bit ?l n = bit pc n"
      by cases (simp_all add: bit_simps, linarith+)
  qed
  then show ?thesis
    by (simp add: native_interrupt_frame_read_def native_interrupt_frame_write_def Let_def k upt_rec)
qed

section \<open>The divided clock\<close>

lemma unat_ucast_eq: "unat (ucast w :: 'b::len word) = take_bit LENGTH('b) (unat w)" for w :: "'a::len word"
  by (simp add: unsigned_ucast_eq)

lemma main_cpu_elapsed_nat:
  assumes "stalls \<le> elapsed" "1 < divisor" "remainder < divisor"
  shows "unat (fst (main_cpu_elapsed remainder elapsed stalls divisor)) =
      unat stalls + (unat elapsed - unat stalls + unat remainder) div unat divisor"
    "unat (snd (main_cpu_elapsed remainder elapsed stalls divisor)) =
      (unat elapsed - unat stalls + unat remainder) mod unat divisor"
proof -
  let ?d = "unat divisor" and ?n = "unat elapsed - unat stalls + unat remainder"
  have b: "unat elapsed < 2 ^ 32" "unat remainder < 2 ^ 32" "unat stalls \<le> unat elapsed" "1 < ?d" "unat remainder < ?d"
    "?d < 2 ^ 32"
    using assms unsigned_less [of elapsed] unsigned_less [of remainder] unsigned_less [of divisor]
    by (simp_all add: word_le_nat_alt word_less_nat_alt)
  define cpu where "cpu = (ucast (elapsed - stalls) :: u64) + ucast remainder"
  have cpu: "unat cpu = ?n"
    using b by (simp add: cpu_def unat_word_ariths unat_sub assms(1) unat_ucast_eq take_bit_nat_eq_self)
  have du: "unat (ucast divisor :: u64) = ?d" using b by (simp add: unat_ucast_eq take_bit_nat_eq_self)
  have f: "main_cpu_elapsed remainder elapsed stalls divisor =
      (stalls + ucast (cpu div ucast divisor), ucast (cpu mod ucast divisor))"
    using assms(1) linorder_not_le [THEN iffD2, OF assms(2)] unfolding main_cpu_elapsed_def cpu_def Let_def by (simp add: leD)
  have "unat stalls + ?n div ?d < 2 ^ 32"
  proof -
    define x where "x = unat elapsed - unat stalls"
    have "x + unat remainder < x + ?d" "x \<le> x * ?d" using b by simp_all
    then have "x + unat remainder < x * ?d + ?d" by linarith
    then have "x + unat remainder < (x + 1) * ?d" by simp
    then have "(x + unat remainder) div ?d < x + 1" by (rule less_mult_imp_div_less)
    then have "?n div ?d \<le> unat elapsed - unat stalls" by (simp add: x_def)
    then show ?thesis using b by linarith
  qed
  note small = this
  have q: "unat (cpu div ucast divisor) = ?n div ?d" "unat (cpu mod ucast divisor) = ?n mod ?d"
    by (simp_all only: unat_div_distrib unat_mod_distrib cpu du)
  have "unat (ucast (cpu div ucast divisor) :: u32) = ?n div ?d"
    using small unfolding unat_ucast_eq q by (simp add: take_bit_nat_eq_self)
  then show "unat (fst (main_cpu_elapsed remainder elapsed stalls divisor)) = unat stalls + ?n div ?d"
    using small by (simp add: f unat_word_ariths)
  have "?n mod ?d < ?d" using b by simp
  then have "?n mod ?d < 2 ^ 32" using b by linarith
  then show "unat (snd (main_cpu_elapsed remainder elapsed stalls divisor)) = ?n mod ?d"
    unfolding f snd_conv unat_ucast_eq q by (simp add: take_bit_nat_eq_self)
qed

text \<open>The clock over a sequence of bus accesses, each with the cycles and stalls since the one before.\<close>

fun clock_run :: "u32 \<Rightarrow> u32 \<Rightarrow> (u32 \<times> u32) list \<Rightarrow> nat \<times> u32" where
  "clock_run divisor r [] = (0, r)"
| "clock_run divisor r ((elapsed, stalls) # xs) =
    (let (scaled, r) = main_cpu_elapsed r elapsed stalls divisor; (total, r) = clock_run divisor r xs
     in (unat scaled + total, r))"

text \<open>
  C29: the divided clock of the main program loses no cycle. However the executed cycles are cut into
  bus accesses, the time charged to the frame is the stalls in full plus the processor cycles divided
  by the divisor, rounded once over the whole sequence and not per access, and the fraction left is
  carried on.
\<close>

theorem divided_clock_exact:
  assumes "1 < divisor" "r < divisor" "list_all (\<lambda>(elapsed, stalls). stalls \<le> elapsed) xs"
  shows "let cpu = unat r + sum_list (map (\<lambda>(elapsed, stalls). unat elapsed - unat stalls) xs);
      (total, r') = clock_run divisor r xs
    in total = sum_list (map (\<lambda>(elapsed, stalls). unat stalls) xs) + cpu div unat divisor
      \<and> unat r' = cpu mod unat divisor"
  using assms(2,3)
proof (induction xs arbitrary: r)
  case Nil
  then show ?case by (simp add: word_less_nat_alt)
next
  case (Cons x xs)
  obtain elapsed stalls where x: "x = (elapsed, stalls)" by fastforce
  obtain scaled r1 where c: "main_cpu_elapsed r elapsed stalls divisor = (scaled, r1)" by fastforce
  let ?d = "unat divisor" and ?n = "unat elapsed - unat stalls + unat r"
  let ?s = "sum_list (map (\<lambda>(elapsed, stalls). unat elapsed - unat stalls) xs)"
  have ok: "stalls \<le> elapsed" using Cons.prems(2) by (simp add: x)
  have e: "unat scaled = unat stalls + ?n div ?d" "unat r1 = ?n mod ?d"
    using main_cpu_elapsed_nat [OF ok assms(1) Cons.prems(1)] by (simp_all add: c)
  have d: "0 < ?d" using assms(1) by (simp add: word_less_nat_alt)
  have "r1 < divisor" using e(2) d by (simp add: word_less_nat_alt)
  moreover obtain t r' where cr: "clock_run divisor r1 xs = (t, r')" by fastforce
  ultimately have IH: "t = sum_list (map (\<lambda>(elapsed, stalls). unat stalls) xs) + (unat r1 + ?s) div ?d"
      "unat r' = (unat r1 + ?s) mod ?d"
    using Cons.IH [of r1] Cons.prems(2) by (simp_all add: Let_def)
  have "?n + ?s = ?n div ?d * ?d + (?n mod ?d + ?s)" using div_mult_mod_eq [of ?n ?d] by linarith
  then have split: "?n div ?d + (?n mod ?d + ?s) div ?d = (?n + ?s) div ?d" "(?n mod ?d + ?s) mod ?d = (?n + ?s) mod ?d"
    using d by (simp_all only: div_mult_self3 mod_mult_self3)
  have n: "unat r + (unat elapsed - unat stalls + ?s) = ?n + ?s" by simp
  have "unat scaled + t = unat stalls + sum_list (map (\<lambda>(elapsed, stalls). unat stalls) xs) + (?n + ?s) div ?d"
    "unat r' = (?n + ?s) mod ?d"
    using IH e split by simp_all
  then show ?case by (simp add: x c cr n)
qed

theorem divided_clock_exact_witness:
  "clock_run 3 1 [(10, 4), (5, 0), (7, 7)] = (15, 0)
   \<and> (let (total, r) = clock_run 3 1 [(10, 4), (5, 0), (7, 7)] in total = 11 + 12 div 3)"
proof -
  have p: "1 < (3 :: u32)" "(1 :: u32) < 3" by (simp_all add: word_less_def)
  have "list_all (\<lambda>(elapsed, stalls). stalls \<le> elapsed) [(10 :: u32, 4 :: u32), (5, 0), (7, 7)]" by simp
  from divided_clock_exact [OF p this]
  have "let (total, r) = clock_run 3 1 [(10, 4), (5, 0), (7, 7)] in total = 11 + 12 div 3" by (simp add: Let_def split_beta)
  moreover have "clock_run 3 1 [(10, 4), (5, 0), (7, 7)] = (15, 0)" by code_simp
  ultimately show ?thesis by simp
qed

section \<open>Handlers\<close>

lemmas glue_ops = map_bus_def rte_enter_def rte_leave_def set_rte_pending_def restore_stack_def rebase_stamps_def

definition stack_area :: "game \<Rightarrow> u16 \<Rightarrow> bool" where
  "stack_area gm a \<longleftrightarrow> (\<exists>i < 256. a = ucast (intr_stack gm - 256) + of_nat i)"

lemma restored_ram:
  "g_ram (bus (restore_stack gm (save_stack gm g) g')) a =
    (if stack_area gm a then g_ram (bus g) a else g_ram (bus g') a)"
proof -
  have "put_bytes (ucast (intr_stack gm - 256)) (save_stack gm g) (g_ram (bus g')) a =
      (if \<exists>i < length (save_stack gm g). a = ucast (intr_stack gm - 256) + of_nat i then g_ram (bus g) a else g_ram (bus g') a)"
    by (rule put_bytes_restores) (simp_all add: save_stack_def)
  then show ?thesis by (simp add: restore_stack_def map_bus_def stack_area_def save_stack_def)
qed

lemma rte_fields:
  "g_cpu (rte_enter g) = g_cpu g" "bus (rte_enter g) = bus g" "vdp (rte_enter g) = vdp g"
  "g_cpu (rte_leave g) = g_cpu g" "bus (rte_leave g) = bus g" "vdp (rte_leave g) = vdp g"
  "s_irq_cycle_debt (rte_leave g) = s_irq_cycle_debt g" "s_irq_cycle_debt (rte_enter g) = s_irq_cycle_debt g"
  "\<not> rte_uses_dummy (rte_leave g)" "\<not> rte_real (rte_leave g)" "s_irq_cycle_debt_level (rte_leave g) = s_irq_cycle_debt_level g"
  by (simp_all add: rte_enter_def rte_leave_def set_rte_pending_def)

text \<open>The state right after the handler of a delivery returns.\<close>

definition after_vint :: "game \<Rightarrow> glue \<Rightarrow> glue" where
  "after_vint gm g = run_handler gm 6 (vint_prologue gm g)"

definition hint_prologue :: "game \<Rightarrow> glue \<Rightarrow> glue" where
  "hint_prologue gm g = rte_enter (rebase_stamps (map_bus (\<lambda>b. b\<lparr>s_in_vblank_service := True\<rparr>)
     (g\<lparr>g_split_sp_popped := 0, g_cpu := setA 7 (intr_stack gm) (g_cpu g)\<rparr>)))"

definition after_hint :: "game \<Rightarrow> glue \<Rightarrow> glue" where
  "after_hint gm g = run_handler gm 4 (hint_prologue gm g)"

definition after_interleaved :: "game \<Rightarrow> nat \<Rightarrow> glue \<Rightarrow> glue" where
  "after_interleaved gm level g = run_handler gm level (rte_enter (g\<lparr>g_split_sp_popped := 0,
     g_cpu := (setA 7 (intr_stack gm) (g_cpu g))\<lparr>SR := with_mask level (SR (g_cpu g))\<rparr>,
     s_irq_in_progress := True, vdp := (vdp g)\<lparr>in_vblank := True\<rparr>\<rparr>))"

text \<open>
  The return bookkeeping of a delivery: the split-return counter is the interrupted program's again,
  and the pending-RTE flag is again the real cell, cleared.
\<close>

definition return_state :: "glue \<Rightarrow> glue \<Rightarrow> bool" where
  "return_state g g' \<longleftrightarrow> g_split_sp_popped g' = g_split_sp_popped g \<and> \<not> rte_uses_dummy g' \<and> \<not> rte_real g'"

text \<open>
  What the handler left and the delivery may not touch: the state after the delivery agrees with the
  state right after the handler outside the registers, the interrupt bookkeeping and, on the bus, the
  RAM, the stamp re-base and the service flag; on the VDP outside the vblank flag.
\<close>

definition rest_kept :: "glue \<Rightarrow> glue \<Rightarrow> bool" where
  "rest_kept g1 g' \<longleftrightarrow>
    g'\<lparr>g_cpu := g_cpu g1, bus := bus g1, vdp := vdp g1, g_split_sp_popped := g_split_sp_popped g1,
       s_irq_cycle_debt := s_irq_cycle_debt g1, s_irq_cycle_debt_level := s_irq_cycle_debt_level g1,
       rte_real := rte_real g1, rte_uses_dummy := rte_uses_dummy g1, s_irq_in_progress := s_irq_in_progress g1,
       s_game_yielded_vblank := s_game_yielded_vblank g1, s_native_vblank_completed := s_native_vblank_completed g1,
       s_budget_cyc_seen := s_budget_cyc_seen g1\<rparr> = g1
    \<and> (bus g')\<lparr>g_ram := g_ram (bus g1), g_68k_stamp_rebase := g_68k_stamp_rebase (bus g1),
         s_in_vblank_service := s_in_vblank_service (bus g1)\<rparr> = bus g1
    \<and> (vdp g')\<lparr>in_vblank := in_vblank (vdp g1)\<rparr> = vdp g1"

lemma restore_stack_fields:
  "g_cpu (restore_stack gm save g) = g_cpu g" "vdp (restore_stack gm save g) = vdp g"
  "rte_uses_dummy (restore_stack gm save g) = rte_uses_dummy g" "rte_real (restore_stack gm save g) = rte_real g"
  "s_irq_cycle_debt (restore_stack gm save g) = s_irq_cycle_debt g"
  "s_irq_cycle_debt_level (restore_stack gm save g) = s_irq_cycle_debt_level g"
  "\<exists>r. bus (restore_stack gm save g) = (bus g)\<lparr>g_ram := r\<rparr>"
  by (auto simp: restore_stack_def map_bus_def)

lemma vint_cpu:
  "g_cpu (own_deliver_vint gm g) = (if s_native_pc_scope g then
     let (sr, pc) = native_interrupt_frame_read (g_ram (bus (after_vint gm g))) ((A_reg (g_cpu g) 7 - 6) AND 0xFFFFFF)
     in (g_cpu g)\<lparr>PC := pc AND 0xFFFFFF, SR := sr\<rparr>
   else g_cpu g)"
  by (simp add: own_deliver_vint_def after_vint_def Let_def split_beta map_bus_def rte_fields)

lemma vint_debt:
  "s_irq_cycle_debt (own_deliver_vint gm g) = s_irq_cycle_debt (after_vint gm g)
     + (g_audio_cycle_counter (bus (after_vint gm g)) - g_audio_cycle_counter (bus g))"
  by (simp add: own_deliver_vint_def after_vint_def Let_def split_beta map_bus_def rte_fields restore_stack_def)

lemma vint_bus:
  "g_ram (bus (own_deliver_vint gm g)) a = (if \<not> s_native_pc_scope g \<and> stack_area gm a then g_ram (bus g) a
     else g_ram (bus (after_vint gm g)) a)"
  "g_audio_cycle_counter (bus (own_deliver_vint gm g)) = g_audio_cycle_counter (bus (after_vint gm g))"
  "g_68k_stamp_rebase (bus (own_deliver_vint gm g)) = g_68k_stamp_rebase (bus g)"
  "\<not> s_in_vblank_service (bus (own_deliver_vint gm g))"
  using restored_ram [of gm g _ a]
  by (simp_all add: own_deliver_vint_def after_vint_def Let_def split_beta map_bus_def rte_fields)
    (simp_all add: restore_stack_def map_bus_def)

lemma vint_rest:
  "in_vblank (vdp (own_deliver_vint gm g)) = in_vblank (vdp g)"
  "return_state g (own_deliver_vint gm g)"
  "\<not> s_game_yielded_vblank (own_deliver_vint gm g)"
  "rest_kept (after_vint gm g) (own_deliver_vint gm g)"
  "s_irq_cycle_debt_level (own_deliver_vint gm g) =
     (if s_irq_cycle_debt (own_deliver_vint gm g) \<noteq> 0 then 6 else s_irq_cycle_debt_level (after_vint gm g))"
  "s_budget_cyc_seen (own_deliver_vint gm g) =
     (if s_native_pc_scope g then g_audio_cycle_counter (bus (own_deliver_vint gm g)) else s_budget_cyc_seen (after_vint gm g))"
  "s_native_vblank_completed (own_deliver_vint gm g) = (s_native_pc_scope g \<or> s_native_vblank_completed (after_vint gm g))"
  by (simp_all add: own_deliver_vint_def after_vint_def return_state_def rest_kept_def Let_def split_beta glue_ops)

lemma hint_fields:
  "g_cpu (own_deliver_hint gm g) = g_cpu g"
  "g_ram (bus (own_deliver_hint gm g)) a = (if stack_area gm a then g_ram (bus g) a else g_ram (bus (after_hint gm g)) a)"
  "s_irq_cycle_debt (own_deliver_hint gm g) = s_irq_cycle_debt (after_hint gm g)
     + (g_audio_cycle_counter (bus (after_hint gm g)) - g_audio_cycle_counter (bus g))"
  "g_68k_stamp_rebase (bus (own_deliver_hint gm g)) = g_68k_stamp_rebase (bus g)"
  "g_audio_cycle_counter (bus (own_deliver_hint gm g)) = g_audio_cycle_counter (bus (after_hint gm g))"
  "\<not> s_in_vblank_service (bus (own_deliver_hint gm g))"
  using restored_ram [of gm g _ a]
  by (simp_all add: own_deliver_hint_def after_hint_def hint_prologue_def Let_def split_beta map_bus_def rte_fields rebase_stamps_def)
    (simp_all add: restore_stack_def map_bus_def rte_fields)

lemma hint_rest:
  "vdp (own_deliver_hint gm g) = vdp (after_hint gm g)"
  "return_state g (own_deliver_hint gm g)"
  "rest_kept (after_hint gm g) (own_deliver_hint gm g)"
  "s_irq_cycle_debt_level (own_deliver_hint gm g) =
     (if s_irq_cycle_debt (own_deliver_hint gm g) \<noteq> 0 then max 4 (s_irq_cycle_debt_level (after_hint gm g))
      else s_irq_cycle_debt_level (after_hint gm g))"
  by (simp_all add: own_deliver_hint_def after_hint_def hint_prologue_def return_state_def rest_kept_def Let_def split_beta glue_ops)

lemma interleaved_fields:
  "g_cpu (own_run_handler_interleaved gm level g) = g_cpu g"
  "g_ram (bus (own_run_handler_interleaved gm level g)) a =
     (if stack_area gm a then g_ram (bus g) a else g_ram (bus (after_interleaved gm level g)) a)"
  "in_vblank (vdp (own_run_handler_interleaved gm level g)) = in_vblank (vdp g)"
  using restored_ram [of gm g _ a]
  by (simp_all add: own_run_handler_interleaved_def after_interleaved_def Let_def split_beta rte_fields)
    (simp_all add: restore_stack_def map_bus_def rte_fields)

lemma interleaved_rest:
  "return_state g (own_run_handler_interleaved gm level g)"
  "rest_kept (after_interleaved gm level g) (own_run_handler_interleaved gm level g)"
  "s_irq_cycle_debt (own_run_handler_interleaved gm level g) = s_irq_cycle_debt (after_interleaved gm level g)"
  "\<not> s_irq_in_progress (own_run_handler_interleaved gm level g)"
  "\<not> s_game_yielded_vblank (own_run_handler_interleaved gm level g)"
  by (simp_all add: own_run_handler_interleaved_def after_interleaved_def return_state_def rest_kept_def Let_def glue_ops)

lemma prologue_stamp:
  "STAMP_68K (bus (vint_prologue gm g)) = machine_z80_stamp (bus g) + (if s_native_pc_scope g then 44 * 7 else 0)"
  by (simp add: vint_prologue_def Let_def map_bus_def rte_fields rebase_stamps_def STAMP_68K_def machine_z80_stamp_def)

lemma hint_prologue_stamp: "STAMP_68K (bus (hint_prologue gm g)) = machine_z80_stamp (bus g)"
  by (simp add: hint_prologue_def map_bus_def rte_fields rebase_stamps_def STAMP_68K_def machine_z80_stamp_def)

lemma prologue_frame:
  "s_native_pc_scope g \<Longrightarrow>
    native_interrupt_frame_read (g_ram (bus (vint_prologue gm g))) ((A_reg (g_cpu g) 7 - 6) AND 0xFFFFFF)
      = (SR (g_cpu g), PC (g_cpu g))"
  using frame_round_trip [of "(A_reg (g_cpu g) 7 - 6) AND 0xFFFFFF" "SR (g_cpu g)" "PC (g_cpu g)"]
  by (simp add: vint_prologue_def Let_def map_bus_def rte_fields rebase_stamps_def)


section \<open>Masked requests\<close>

text \<open>
  The V-int request as the processor sees it: one line that a request asserts and that the next
  opportunity with the mask below six takes and clears. An event is a request or a scanline check;
  before it the main program runs, an arbitrary change \<open>w\<close> of the state. The specification keeps the
  line beside the state; the latch of the runtime only mirrors it.
\<close>

fun vint_line :: "game \<Rightarrow> (bool \<times> (glue \<Rightarrow> glue)) list \<Rightarrow> bool \<times> glue \<Rightarrow> bool \<times> glue" where
  "vint_line gm [] s = s"
| "vint_line gm ((request, w) # es) (asserted, g) =
    (let g = w g; asserted = (asserted \<or> request)
     in if asserted \<and> imask g < 6
        then vint_line gm es (False, own_deliver_vint gm (g\<lparr>s_own_vint_latched := False\<rparr>))
        else vint_line gm es (asserted, g\<lparr>s_own_vint_latched := asserted\<rparr>))"

text \<open>The runtime: the scheduler raises the V-int or looks for a latched one.\<close>

fun irq_run :: "game \<Rightarrow> (bool \<times> (glue \<Rightarrow> glue)) list \<Rightarrow> glue \<Rightarrow> glue" where
  "irq_run gm [] g = g"
| "irq_run gm ((request, w) # es) g =
    irq_run gm es (if request then glue_own_interrupt gm 6 (w g) else snd (glue_own_vint_service_latched gm (w g)))"

text \<open>What the rest of the runtime must leave alone while it runs: the latch and the delivery switches.\<close>

definition irq_view :: "glue \<Rightarrow> bool \<times> bool \<times> bool \<times> bool \<times> bool" where
  "irq_view g = (s_own_vint_latched g, s_game_running g, s_native_pc_scope g \<and> s_native_instruction_open g,
     s_irq_in_progress g, s_interleave_irq g)"

definition keeps_irq :: "(glue \<Rightarrow> glue) \<Rightarrow> bool" where
  "keeps_irq w \<longleftrightarrow> (\<forall>g. irq_view (w g) = irq_view g)"

lemma irq_view_simps:
  "irq_view (map_bus f g) = irq_view g" "irq_view (rte_enter g) = irq_view g" "irq_view (rte_leave g) = irq_view g"
  "irq_view (restore_stack gm sv g) = irq_view g" "irq_view (rebase_stamps g) = irq_view g"
  "irq_view (g\<lparr>g_cpu := c\<rparr>) = irq_view g" "irq_view (g\<lparr>vdp := v\<rparr>) = irq_view g"
  "irq_view (g\<lparr>s_irq_cycle_debt := d\<rparr>) = irq_view g" "irq_view (g\<lparr>s_irq_cycle_debt_level := l\<rparr>) = irq_view g"
  "irq_view (g\<lparr>g_cycle_accumulator := d\<rparr>) = irq_view g"
  "irq_view (g\<lparr>g_split_sp_popped := i, g_cpu := c\<rparr>) = irq_view g" "irq_view (g\<lparr>g_split_sp_popped := i\<rparr>) = irq_view g"
  "irq_view (g\<lparr>g_split_sp_popped := i, s_game_yielded_vblank := y\<rparr>) = irq_view g"
  "irq_view (g\<lparr>g_cpu := c, s_native_vblank_completed := n, s_budget_cyc_seen := d\<rparr>) = irq_view g"
  by (simp_all add: irq_view_def map_bus_def rte_enter_def rte_leave_def set_rte_pending_def restore_stack_def rebase_stamps_def)

lemma prologue_irq: "irq_view (vint_prologue gm g) = irq_view g"
  by (simp add: vint_prologue_def Let_def irq_view_simps)

lemma deliver_irq:
  assumes "keeps_irq (run_handler gm 6)"
  shows "irq_view (own_deliver_vint gm g) = irq_view g"
proof -
  define h where "h = run_handler gm 6 (vint_prologue gm g)"
  have h: "irq_view h = irq_view g" using assms by (simp add: h_def keeps_irq_def prologue_irq)
  show ?thesis
    unfolding own_deliver_vint_def h_def [symmetric] Let_def by (simp add: irq_view_simps h split_beta)
qed

lemma latch_same: "g\<lparr>s_own_vint_latched := s_own_vint_latched g\<rparr> = g"
  by (cases g) simp

lemma irq_event:
  assumes "irq_view g = (l, True, False, False, False)"
  shows "(if request then glue_own_interrupt gm 6 g else snd (glue_own_vint_service_latched gm g)) =
    (if (l \<or> request) \<and> imask g < 6 then own_deliver_vint gm (g\<lparr>s_own_vint_latched := False\<rparr>)
     else g\<lparr>s_own_vint_latched := l \<or> request\<rparr>)"
proof -
  have v: "s_own_vint_latched g = l" "s_game_running g" "\<not> (s_native_pc_scope g \<and> s_native_instruction_open g)"
    "\<not> s_irq_in_progress g" "\<not> s_interleave_irq g"
    using assms by (simp_all add: irq_view_def)
  show ?thesis
    using v latch_same [of g] by (auto simp: glue_own_interrupt_def glue_own_vint_service_latched_def Let_def not_less)
qed

lemma irq_run_line:
  assumes "keeps_irq (run_handler gm 6)" "list_all (\<lambda>(r, w). keeps_irq w) es" "irq_view g = (l, True, False, False, False)"
  shows "vint_line gm es (l, g) = (s_own_vint_latched (irq_run gm es g), irq_run gm es g)"
  using assms(2,3)
proof (induction es arbitrary: g l)
  case Nil
  then show ?case by (simp add: irq_view_def)
next
  case (Cons e es)
  obtain r w where e: "e = (r, w)" by fastforce
  have es: "list_all (\<lambda>(r, w). keeps_irq w) es" using Cons.prems(1) by (simp add: e)
  have g1: "irq_view (w g) = (l, True, False, False, False)"
    using Cons.prems by (simp add: e keeps_irq_def)
  have u: "irq_view ((w g)\<lparr>s_own_vint_latched := x\<rparr>) = (x, True, False, False, False)" for x
    using g1 by (simp add: irq_view_def)
  show ?case
    unfolding e vint_line.simps irq_run.simps irq_event [OF g1] Let_def
    using Cons.IH [OF es] u deliver_irq [OF assms(1)] by simp
qed

text \<open>
  C31: masked V-ints behave as one level-triggered line. While no interleaved handler runs, whatever
  the main program and the handler do to the rest of the state, and however requests, scanline
  checks and the interrupt mask interleave, the runtime goes through the same states as a processor
  with a level-triggered line: a request with the mask open is served at once, a masked one at the
  first check or request with the mask open, several masked requests count as one, none is lost, and
  a request is latched exactly when the line is asserted.
\<close>

theorem vint_level_triggered:
  assumes "keeps_irq (run_handler gm 6)" "list_all (\<lambda>(r, w). keeps_irq w) es" "s_game_running g"
    "\<not> (s_native_pc_scope g \<and> s_native_instruction_open g)" "\<not> s_irq_in_progress g" "\<not> s_interleave_irq g"
  shows "vint_line gm es (s_own_vint_latched g, g) = (s_own_vint_latched (irq_run gm es g), irq_run gm es g)"
  using irq_run_line [OF assms(1,2)] assms(3-) by (simp add: irq_view_def)

section \<open>The raster debt of a handler\<close>

text \<open>A main program that executes one instruction for each cycle of the budget it is given.\<close>

definition spending :: "game \<Rightarrow> game" where
  "spending gm = gm\<lparr>fiber_switch := \<lambda>g. g\<lparr>g_native_insn_count := g_native_insn_count g + ucast (s_cycle_budget g)\<rparr>\<rparr>"

definition active :: "glue \<Rightarrow> bool" where
  "active g \<longleftrightarrow> s_game_running g \<and> s_game_fiber g \<and> \<not> s_game_yielded_vblank g \<and> \<not> s_state_parked g"

lemma start_chunk_spending:
  "s_irq_cycle_debt (start_chunk (spending gm) c g) = s_irq_cycle_debt g"
  "active g \<Longrightarrow> active (start_chunk (spending gm) c g)"
  "g_native_insn_count (start_chunk (spending gm) c g) = g_native_insn_count g + ucast c"
  by (simp_all add: start_chunk_def Let_def spending_def active_def map_bus_def instruction_watchdog_reset_def)

lemma chunk_spending:
  assumes "active g"
  shows "unat (s_irq_cycle_debt (glue_run_game_chunk (spending gm) c g)) = unat (s_irq_cycle_debt g) - unat c"
    "active (glue_run_game_chunk (spending gm) c g)"
    "g_native_insn_count (glue_run_game_chunk (spending gm) c g) =
      g_native_insn_count g + of_nat (unat c - unat (s_irq_cycle_debt g))"
proof -
  have a: "active (g\<lparr>s_irq_cycle_debt := d, s_irq_cycle_debt_level := l\<rparr>)" "active (g\<lparr>s_irq_cycle_debt := d\<rparr>)" for d l
    using assms by (simp_all add: active_def)
  show "unat (s_irq_cycle_debt (glue_run_game_chunk (spending gm) c g)) = unat (s_irq_cycle_debt g) - unat c"
    using assms
    by (auto simp: glue_run_game_chunk_def active_def Let_def start_chunk_spending unat_sub word_le_nat_alt)
  show "active (glue_run_game_chunk (spending gm) c g)"
    using assms a start_chunk_spending(2) by (auto simp: glue_run_game_chunk_def Let_def active_def)
  show "g_native_insn_count (glue_run_game_chunk (spending gm) c g) =
      g_native_insn_count g + of_nat (unat c - unat (s_irq_cycle_debt g))"
  proof (cases "c \<le> s_irq_cycle_debt g")
    case True
    then have n: "unat c - unat (s_irq_cycle_debt g) = 0" by (simp add: word_le_nat_alt)
    have "c = 0" if "s_irq_cycle_debt g = 0" using that True by simp
    then show ?thesis
      using assms True unfolding n by (auto simp: glue_run_game_chunk_def active_def Let_def start_chunk_spending)
  next
    case False
    then have "unat c - unat (s_irq_cycle_debt g) = unat (c - s_irq_cycle_debt g)"
      by (simp add: unat_sub word_le_nat_alt)
    then show ?thesis
      using assms False by (auto simp: glue_run_game_chunk_def active_def Let_def start_chunk_spending)
  qed
qed

text \<open>
  The time of a handler delays the main program by exactly that time. Over any sequence of
  scanline chunks the main program is given the chunk cycles less the raster debt, as far as they
  exceed it, and the debt left is what the chunks did not cover: no cycle of a handler is dropped
  and none is charged twice.
\<close>

theorem raster_debt_paid:
  assumes "active g"
  shows "let g' = fold (glue_run_game_chunk (spending gm)) cs g; cycles = sum_list (map unat cs);
      debt = unat (s_irq_cycle_debt g)
    in g_native_insn_count g' = g_native_insn_count g + of_nat (cycles - debt)
      \<and> unat (s_irq_cycle_debt g') = debt - cycles"
  using assms
proof (induction cs arbitrary: g)
  case (Cons c cs)
  let ?g = "glue_run_game_chunk (spending gm) c g" and ?s = "sum_list (map unat cs)" and ?d = "unat (s_irq_cycle_debt g)"
  have "unat c - ?d + (?s - (?d - unat c)) = unat c + ?s - ?d" by simp
  then have "(of_nat (unat c - ?d) :: u64) + of_nat (?s - (?d - unat c)) = of_nat (unat c + ?s - ?d)"
    by (metis of_nat_add)
  then show ?case
    using Cons.IH [OF chunk_spending(2) [OF Cons.prems]] chunk_spending(1,3) [OF Cons.prems, of gm c]
    by (simp add: Let_def add.assoc)
qed simp

section \<open>Concrete instances\<close>

definition idle_glue :: glue where
  "idle_glue = \<lparr>g_cpu = \<lparr>D_reg = \<lambda>_. 0, A_reg = \<lambda>_. 0xFFFFFE00, SR = 0x2000, PC = 0x200, USP = 0\<rparr>,
     vdp = idle_vdp, bus = power_on, s_game_running = True, s_game_fiber = True, s_game_yielded_vblank = False,
     s_state_parked = False, s_native_pc_scope = False, s_native_instruction_open = False,
     s_native_vblank_completed = False, s_irq_in_progress = False, s_own_vint_latched = False,
     s_own_hint_latched = False, s_interleave_irq = False, s_pending_irq = 0, s_irq_cycle_debt = 700,
     s_irq_cycle_debt_level = 6, s_chunk_cycles = 0, s_main_cpu_divisor = 1, clock_remainder = 0, s_cycle_budget = 0,
     s_budget_cyc_seen = 0, g_chunk_yield_count = 0, s_watchdog_counter = 0, s_insn_watchdog_base = 0,
     g_native_insn_count = 0, g_cycle_accumulator = 0, g_split_sp_popped = 0, rte_real = False, rte_dummy = False,
     rte_uses_dummy = False\<rparr>"

text \<open>A game whose handlers store one byte to work RAM and take 300 cycles.\<close>

definition small_handler :: "glue \<Rightarrow> glue" where
  "small_handler = map_bus (\<lambda>b. b\<lparr>g_ram := (g_ram b)(0xFE10 := 1), g_audio_cycle_counter := g_audio_cycle_counter b + 300\<rparr>)"

definition small_game :: game where
  "small_game = \<lparr>intr_stack = 0xFFFFFD00, genesis_force_interp = False, call_vblank = Some small_handler,
     call_hblank = Some small_handler, m68k_interp_run_handler = \<lambda>_ g. g, m68k_read32 = \<lambda>_ g. (0, g),
     fiber_switch = \<lambda>g. g, main_cpu_divisor = None, state_boundary_at_frame_end = False\<rparr>"

definition set_mask :: "u16 \<Rightarrow> glue \<Rightarrow> glue" where
  "set_mask sr g = g\<lparr>g_cpu := (g_cpu g)\<lparr>SR := sr\<rparr>\<rparr>"

lemma small_game_native:
  "native_interrupt_frame_read (g_ram (bus (after_vint small_game (idle_glue\<lparr>s_native_pc_scope := True\<rparr>)))) 0xFFFDFA =
   native_interrupt_frame_read (g_ram (bus (vint_prologue small_game (idle_glue\<lparr>s_native_pc_scope := True\<rparr>)))) 0xFFFDFA"
  by (simp add: native_interrupt_frame_read_def after_vint_def run_handler_def small_game_def small_handler_def map_bus_def Let_def)


theorem vint_level_triggered_witness:
  "let es = [(True, set_mask 0x2700), (True, set_mask 0x2700), (False, set_mask 0x2000)] in
   vint_line small_game es (False, idle_glue) = (s_own_vint_latched (irq_run small_game es idle_glue), irq_run small_game es idle_glue)
   \<and> \<not> fst (vint_line small_game es (False, idle_glue))"
proof -
  let ?es = "[(True, set_mask 0x2700), (True, set_mask 0x2700), (False, set_mask 0x2000)]"
  have "keeps_irq (run_handler small_game 6)"
    by (simp add: keeps_irq_def run_handler_def small_game_def small_handler_def irq_view_simps)
  moreover have "list_all (\<lambda>(r, w). keeps_irq w) ?es"
    by (simp add: keeps_irq_def set_mask_def irq_view_simps)
  ultimately have "vint_line small_game ?es (s_own_vint_latched idle_glue, idle_glue) =
      (s_own_vint_latched (irq_run small_game ?es idle_glue), irq_run small_game ?es idle_glue)"
    by (rule vint_level_triggered) (simp_all add: idle_glue_def)
  moreover have "\<not> fst (vint_line small_game ?es (False, idle_glue))"
    by (simp add: set_mask_def imask_def Let_def)
  ultimately show ?thesis by (simp add: idle_glue_def Let_def)
qed

theorem raster_debt_paid_witness:
  "g_native_insn_count (fold (glue_run_game_chunk (spending small_game)) [488, 488] idle_glue) = 276"
proof -
  have "active idle_glue" by (simp add: active_def idle_glue_def)
  from raster_debt_paid [OF this, of small_game "[488, 488]"] show ?thesis
    by (simp add: idle_glue_def Let_def)
qed

end
