(* ===== verification/Vdp_Lanes.thy ===== *)
theory Vdp_Lanes
  imports Prelude
begin

text \<open>
  Eight pixels in one 64-bit word: \<^verbatim>\<open>runner/video/genesis_tile_row.h\<close> and
  \<^verbatim>\<open>runner/video/genesis_vdp_compose.h\<close>. The batched renderer expands a tile row of eight
  nibbles and composes eight columns at a time with plain 64-bit arithmetic. The theory holds these
  two routines, for hosts of either byte order, with a calculus of lanes: a word that holds eight
  bytes is \<open>lanes f\<close>, and every operation of the routines is carried out lane by lane. Pixel rows
  are functions from the output column, a C int, to a byte.
\<close>

section \<open>Lanes\<close>

primrec pack_lanes :: "nat \<Rightarrow> (nat \<Rightarrow> u8) \<Rightarrow> u64" where
  "pack_lanes 0 f = 0"
| "pack_lanes (Suc k) f = pack_lanes k f OR push_bit (8 * k) (ucast (f k))"

definition lanes :: "(nat \<Rightarrow> u8) \<Rightarrow> u64" where
  "lanes f = pack_lanes 8 f"

definition lane :: "u64 \<Rightarrow> nat \<Rightarrow> u8" where
  "lane w k = ucast (drop_bit (8 * k) w)"

lemma bit_pack_lanes:
  "bit (pack_lanes k f) n \<longleftrightarrow> n < 64 \<and> n < 8 * k \<and> bit (f (n div 8)) (n mod 8)"
proof (induction k)
  case (Suc k)
  have "n div 8 = k \<and> n mod 8 = n - 8 * k" if "8 * k \<le> n" "n < 8 + 8 * k"
  proof -
    have "n div 8 = k" using that by (intro div_nat_eqI) simp_all
    then show ?thesis by (simp add: modulo_nat_def)
  qed
  moreover have "bit (f k) (n - 8 * k) \<Longrightarrow> n < 8 + 8 * k"
    using bit_imp_le_length [of "f k" "n - 8 * k"] by simp
  ultimately show ?case
    using Suc by (cases "8 * k \<le> n") (auto simp: bit_simps)
qed simp

lemma bit_lanes: "bit (lanes f) n \<longleftrightarrow> n < 64 \<and> bit (f (n div 8)) (n mod 8)"
  by (auto simp: lanes_def bit_pack_lanes)

lemma lane_lanes [simp]: "k < 8 \<Longrightarrow> lane (lanes f) k = f k"
  by (rule bit_word_eqI) (simp add: lane_def bit_simps bit_lanes)

lemma lanes_cong: "(\<And>k. k < 8 \<Longrightarrow> f k = g k) \<Longrightarrow> lanes f = lanes g"
  by (rule bit_word_eqI) (auto simp: bit_lanes)

lemma lanes_bitwise:
  "lanes f AND lanes g = lanes (\<lambda>k. f k AND g k)"
  "lanes f OR lanes g = lanes (\<lambda>k. f k OR g k)"
  "lanes f XOR lanes g = lanes (\<lambda>k. f k XOR g k)"
  by (rule bit_word_eqI; simp add: bit_simps bit_lanes)+

lemma lanes_bit:
  "j < 8 \<Longrightarrow> drop_bit j (lanes f) AND lanes (\<lambda>_. 1) = lanes (\<lambda>k. of_bool (bit (f k) j))"
proof (rule bit_word_eqI)
  fix n assume "j < 8" "n < LENGTH(64)"
  moreover have "(j + n) div 8 = n div 8 \<and> (j + n) mod 8 = j" if "n mod 8 = 0"
    using that \<open>j < 8\<close> by (auto elim!: dvdE simp: mod_eq_0_iff_dvd)
  moreover have "j + n < 64" if "n mod 8 = 0"
    using that \<open>n < LENGTH(64)\<close> \<open>j < 8\<close> by (auto elim!: dvdE simp: mod_eq_0_iff_dvd)
  ultimately show "bit (drop_bit j (lanes f) AND lanes (\<lambda>_. 1)) n \<longleftrightarrow> bit (lanes (\<lambda>k. of_bool (bit (f k) j))) n"
    by (auto simp: bit_simps bit_lanes)
qed

lemma pack_lanes_Suc_add: "pack_lanes (Suc k) f = pack_lanes k f + push_bit (8 * k) (ucast (f k))"
proof -
  have "pack_lanes k f AND push_bit (8 * k) (ucast (f k)) = 0"
    by (rule bit_word_eqI) (simp add: bit_simps bit_pack_lanes)
  then show ?thesis by (simp add: disjunctive_add_eq_or)
qed

lemma lanes_add:
  assumes "\<And>k. uint (f k) + uint (g k) < 256"
  shows "lanes f + lanes g = lanes (\<lambda>k. f k + g k)"
proof -
  have u: "(ucast (f k + g k) :: u64) = ucast (f k) + ucast (g k)" for k
  proof -
    have "unat (f k) + unat (g k) < 256"
      using assms [of k] unfolding uint_nat by linarith
    then have "unat (f k + g k) = unat (f k) + unat (g k)"
      by (simp add: unat_word_ariths)
    then show ?thesis by (metis of_nat_add of_nat_unat)
  qed
  have "pack_lanes k f + pack_lanes k g = pack_lanes k (\<lambda>k. f k + g k)" for k
    by (induction k) (simp_all add: pack_lanes_Suc_add u push_bit_add algebra_simps del: pack_lanes.simps(2))
  then show ?thesis by (simp add: lanes_def)
qed

lemma lanes_times_255: "lanes (\<lambda>k. of_bool (P k)) * 255 = lanes (\<lambda>k. if P k then 255 else 0)"
proof -
  have u: "push_bit m (ucast (of_bool b :: u8)) * 255 = (push_bit m (ucast (if b then 255 else 0 :: u8)) :: u64)" for m b
    by (simp add: push_bit_eq_mult)
  have "pack_lanes k (\<lambda>k. of_bool (P k)) * 255 = pack_lanes k (\<lambda>k. if P k then 255 else 0)" for k
    by (induction k) (simp_all only: pack_lanes_Suc_add pack_lanes.simps(1) distrib_right u mult_zero_left)
  then show ?thesis by (simp add: lanes_def)
qed

lemma lanes_broadcast: "ucast b * lanes (\<lambda>_. 1) = lanes (\<lambda>_. b)"
proof -
  have "ucast b * pack_lanes k (\<lambda>_. 1) = pack_lanes k (\<lambda>_. b)" for k
    by (induction k) (simp_all add: pack_lanes_Suc_add push_bit_eq_mult algebra_simps del: pack_lanes.simps(2))
  then show ?thesis by (simp add: lanes_def)
qed

lemma lanes_shift_flag:
  assumes "j < 8"
  shows "push_bit j (lanes (\<lambda>k. of_bool (P k))) = lanes (\<lambda>k. if P k then push_bit j 1 else 0)"
proof -
  have "(ucast (push_bit j 1 :: u8) :: u64) = push_bit j 1"
    using assms by (intro bit_word_eqI) (auto simp: bit_simps)
  then have u: "push_bit j (push_bit m (ucast (of_bool b :: u8))) =
      (push_bit m (ucast (if b then push_bit j 1 else 0 :: u8)) :: u64)" for m b
    by (simp add: push_bit_eq_mult power_add)
  have "push_bit j (pack_lanes k (\<lambda>k. of_bool (P k))) = pack_lanes k (\<lambda>k. if P k then push_bit j 1 else 0)" for k
    by (induction k) (simp_all only: pack_lanes.simps push_bit_or u push_bit_of_0)
  then show ?thesis by (simp add: lanes_def)
qed

lemma lanes_const:
  "0x0101010101010101 = lanes (\<lambda>_. 1)" "0x3f3f3f3f3f3f3f3f = lanes (\<lambda>_. 0x3f)"
  "0x0f0f0f0f0f0f0f0f = lanes (\<lambda>_. 0x0f)" "0x1010101010101010 = lanes (\<lambda>_. 0x10)"
  by code_simp+

section \<open>Tile rows\<close>

text \<open>
  The byte order of the host is the argument \<open>little\<close>; the C code tests it on the memory image of
  a \<^verbatim>\<open>uint16_t\<close>.
\<close>

definition gtile_packed_row :: "bool \<Rightarrow> u32 \<Rightarrow> u8 \<Rightarrow> bool \<Rightarrow> u64" where
  "gtile_packed_row little bits attr flip =
    (let p = ucast bits;
         p = (p OR push_bit 16 p) AND 0x0000ffff0000ffff;
         p = (p OR push_bit 8 p) AND 0x00ff00ff00ff00ff;
         p = (p OR push_bit 4 p) AND 0x0f0f0f0f0f0f0f0f;
         p = p OR push_bit 2 ((p + 0x0f0f0f0f0f0f0f0f) AND 0x1010101010101010);
         p = p OR ucast attr * 0x0101010101010101
     in if flip \<noteq> little then
          let p = push_bit 8 (p AND 0x00ff00ff00ff00ff) OR (drop_bit 8 p AND 0x00ff00ff00ff00ff);
              p = push_bit 16 (p AND 0x0000ffff0000ffff) OR (drop_bit 16 p AND 0x0000ffff0000ffff)
          in push_bit 32 p OR drop_bit 32 p
        else p)"

text \<open>The nibble of a pixel, the packed byte of a pixel, and the bytes of a word in memory order.\<close>

definition row_nibble :: "u32 \<Rightarrow> nat \<Rightarrow> u8" where
  "row_nibble bits k = ucast (drop_bit (28 - 4 * k) bits) AND 15"

definition packed_pixel :: "u8 \<Rightarrow> u8 \<Rightarrow> u8" where
  "packed_pixel attr nib = attr OR nib OR (if nib = 0 then 0 else 0x40)"

definition memory_byte :: "bool \<Rightarrow> u64 \<Rightarrow> nat \<Rightarrow> u8" where
  "memory_byte little w k = lane w (if little then k else 7 - k)"

lemma word64_eqI:
  fixes v w :: u64
  assumes "list_all (\<lambda>n. bit v n \<longleftrightarrow> bit w n) [0, 1, 2, 3, 4, 5, 6, 7, 8, 9, 10, 11, 12, 13, 14, 15, 16, 17, 18, 19, 20, 21, 22, 23, 24,
    25, 26, 27, 28, 29, 30, 31, 32, 33, 34, 35, 36, 37, 38, 39, 40, 41, 42, 43, 44, 45, 46,
    47, 48, 49, 50, 51, 52, 53, 54, 55, 56, 57, 58, 59, 60, 61, 62, 63]"
  shows "v = w"
proof -
  have "[0..<64] = [0, 1, 2, 3, 4, 5, 6, 7, 8, 9, 10, 11, 12, 13, 14, 15, 16, 17, 18, 19, 20, 21, 22, 23, 24,
    25, 26, 27, 28, 29, 30, 31, 32, 33, 34, 35, 36, 37, 38, 39, 40, 41, 42, 43, 44, 45, 46,
    47, 48, 49, 50, 51, 52, 53, 54, 55, 56, 57, 58, 59, 60, 61, 62, 63]"
    by code_simp
  with assms have "list_all (\<lambda>n. bit v n \<longleftrightarrow> bit w n) [0..<64]" by simp
  then show ?thesis by (intro bit_word_eqI) (auto simp: list_all_iff)
qed

lemma bit_u32_high: "32 \<le> n \<Longrightarrow> \<not> bit (w :: u32) n"
  using bit_imp_le_length [of w n] by auto

lemma spread_nibbles:
  fixes bits :: u32
  shows "(let p = ucast bits :: u64;
         p = (p OR push_bit 16 p) AND 0x0000ffff0000ffff;
         p = (p OR push_bit 8 p) AND 0x00ff00ff00ff00ff
     in (p OR push_bit 4 p) AND 0x0f0f0f0f0f0f0f0f) = lanes (\<lambda>k. ucast (drop_bit (4 * k) bits) AND 15)"
  by (rule word64_eqI) (simp add: Let_def bit_simps bit_lanes bit_u32_high flip: numeral_2_eq_2)

lemma swap_lanes:
  fixes p :: u64
  shows "(let p = push_bit 8 (p AND 0x00ff00ff00ff00ff) OR (drop_bit 8 p AND 0x00ff00ff00ff00ff);
              p = push_bit 16 (p AND 0x0000ffff0000ffff) OR (drop_bit 16 p AND 0x0000ffff0000ffff)
          in push_bit 32 p OR drop_bit 32 p) = lanes (\<lambda>k. lane p (7 - k))"
  by (rule word64_eqI) (simp add: Let_def bit_simps bit_lanes lane_def flip: numeral_2_eq_2)

lemma low_nibble_cases:
  assumes "list_all P [0, 1, 2, 3, 4, 5, 6, 7, 8, 9, 10, 11, 12, 13, 14, 15]"
  shows "P (x AND 15 :: u8)"
proof -
  have "x AND 15 = take_bit 4 x" by (simp add: take_bit_eq_mask mask_eq_exp_minus_1)
  then have "unat (x AND 15) < 16" using take_bit_nat_less_exp [of 4 "unat x"] by (simp add: unsigned_take_bit_eq)
  then have "unat (x AND 15) \<in> set [0, 1, 2, 3, 4, 5, 6, 7, 8, 9, 10, 11, 12, 13, 14, 15]" by simp arith
  then have "(of_nat (unat (x AND 15)) :: u8) \<in> of_nat ` set [0, 1, 2, 3, 4, 5, 6, 7, 8, 9, 10, 11, 12, 13, 14, 15]"
    by blast
  with assms show ?thesis by (auto simp: list_all_iff)
qed

lemma opacity_carry: "(x AND 15 :: u8) + 15 AND 16 = (if x AND 15 = 0 then 0 else 16)"
  by (rule low_nibble_cases) simp

lemma low_nibble_small: "uint (x AND 15 :: u8) + uint (15 :: u8) < 256"
  by (rule low_nibble_cases) simp

lemma packed_row_lanes:
  fixes N :: "nat \<Rightarrow> u8"
  assumes "p = lanes (\<lambda>k. N k AND 15)"
  shows "(p OR push_bit 2 ((p + 0x0f0f0f0f0f0f0f0f) AND 0x1010101010101010)) OR ucast attr * 0x0101010101010101 =
    lanes (\<lambda>k. packed_pixel attr (N k AND 15))"
proof -
  have "(p + lanes (\<lambda>_. 15)) AND lanes (\<lambda>_. 16) = lanes (\<lambda>k. if N k AND 15 \<noteq> 0 then push_bit 4 1 else 0)"
    unfolding assms lanes_add [OF low_nibble_small] lanes_bitwise opacity_carry by (rule lanes_cong) simp
  also have "\<dots> = push_bit 4 (lanes (\<lambda>k. of_bool (N k AND 15 \<noteq> 0)))"
    by (rule lanes_shift_flag [symmetric]) simp
  finally have "push_bit 2 ((p + lanes (\<lambda>_. 15)) AND lanes (\<lambda>_. 16)) = lanes (\<lambda>k. if N k AND 15 \<noteq> 0 then 0x40 else 0)"
    using lanes_shift_flag [of 6 "\<lambda>k. N k AND 15 \<noteq> 0"] by (simp cong: if_cong)
  then show ?thesis
    unfolding lanes_const lanes_broadcast packed_pixel_def
    by (simp only: assms lanes_bitwise) (rule lanes_cong, simp add: ac_simps)
qed

lemma gtile_packed_row_bytes:
  assumes "k < 8"
  shows "memory_byte little (gtile_packed_row little bits attr flip) k =
    packed_pixel attr (row_nibble bits (if flip then 7 - k else k))"
proof -
  let ?p = "lanes (\<lambda>k. packed_pixel attr (ucast (drop_bit (4 * k) bits) AND 15))"
  have p: "gtile_packed_row little bits attr flip = (if flip \<noteq> little then lanes (\<lambda>k. lane ?p (7 - k)) else ?p)"
    unfolding gtile_packed_row_def Let_def packed_row_lanes [OF spread_nibbles [unfolded Let_def]] swap_lanes [unfolded Let_def]
    by (rule refl)
  obtain j where "7 - k = j" "7 - j = k" "j < 8" "28 - 4 * j = 4 * k" "28 - 4 * k = 4 * j"
    using assms by force
  then show ?thesis
    using assms unfolding memory_byte_def row_nibble_def p by (cases flip; cases little; simp)
qed

section \<open>Composition\<close>

record row_layers =
  l_plane_a :: "int \<Rightarrow> u8"
  l_plane_b :: "int \<Rightarrow> u8"
  l_sprite :: "int \<Rightarrow> u8"
  l_opaque :: "int \<Rightarrow> u8"
  l_high :: "int \<Rightarrow> u8"
  l_shadow_op :: "int \<Rightarrow> u8"
  l_hilite_op :: "int \<Rightarrow> u8"

definition gvdp_compose_load :: "bool \<Rightarrow> (int \<Rightarrow> u8) \<Rightarrow> int \<Rightarrow> u64" where
  "gvdp_compose_load little p x = lanes (\<lambda>k. p (x + int (if little then k else 7 - k)))"

definition compose_store :: "bool \<Rightarrow> int \<Rightarrow> u64 \<Rightarrow> (int \<Rightarrow> u8) \<Rightarrow> int \<Rightarrow> u8" where
  "compose_store little x w out = (\<lambda>i. if x \<le> i \<and> i < x + 8 then memory_byte little w (nat (i - x)) else out i)"

definition gvdp_compose_select :: "u64 \<Rightarrow> u64 \<Rightarrow> u64 \<Rightarrow> u64" where
  "gvdp_compose_select below over flags = below XOR ((below XOR over) AND (flags * 255))"

definition compose_eight :: "bool \<Rightarrow> row_layers \<Rightarrow> u8 \<Rightarrow> bool \<Rightarrow> int \<Rightarrow> u64" where
  "compose_eight little r backdrop shadow_mode x =
    (let one = 0x0101010101010101; colors = 0x3f3f3f3f3f3f3f3f;
         a = gvdp_compose_load little (l_plane_a r) x; b = gvdp_compose_load little (l_plane_b r) x;
         s = gvdp_compose_load little (l_sprite r) x; so = gvdp_compose_load little (l_opaque r) x;
         ah = drop_bit 7 (a AND push_bit 1 a) AND one;
         bh = drop_bit 7 (b AND push_bit 1 b) AND one;
         sh = gvdp_compose_load little (l_high r) x AND so;
         pixel = ucast backdrop * one;
         pixel = gvdp_compose_select pixel (b AND colors) (drop_bit 6 b AND one);
         pixel = gvdp_compose_select pixel (a AND colors) (drop_bit 6 a AND one);
         pixel = gvdp_compose_select pixel s so;
         pixel = gvdp_compose_select pixel (b AND colors) bh;
         pixel = gvdp_compose_select pixel (a AND colors) ah;
         pixel = gvdp_compose_select pixel s sh
     in if shadow_mode then
          let normal = drop_bit 7 (NOT (pixel OR push_bit 1 pixel)) AND one;
              normal_planes = drop_bit 7 (a OR b) AND one;
              shadow = (one XOR (normal_planes OR sh)) OR gvdp_compose_load little (l_shadow_op r) x;
              hilite = gvdp_compose_load little (l_hilite_op r) x;
              shade = push_bit 6 (shadow AND (one XOR hilite)) OR push_bit 7 ((one XOR shadow) AND hilite)
          in pixel + (shade AND (normal * 255))
        else pixel)"

definition compose_one :: "row_layers \<Rightarrow> u8 \<Rightarrow> bool \<Rightarrow> int \<Rightarrow> u8" where
  "compose_one r backdrop shadow_mode x =
    (let a = l_plane_a r x; b = l_plane_b r x; s = l_sprite r x;
         so = l_opaque r x \<noteq> 0; sh = l_high r x \<noteq> 0 \<and> so;
         ah = a AND 0xc0 = 0xc0; bh = b AND 0xc0 = 0xc0;
         pixel = (if sh then s else if ah then a AND 63 else if bh then b AND 63 else if so then s
                  else if a AND 64 \<noteq> 0 then a AND 63 else if b AND 64 \<noteq> 0 then b AND 63 else backdrop)
     in if shadow_mode \<and> pixel < 64 then
          let shadow = (a OR b) AND 128 = 0 \<and> \<not> sh;
              shadow = (shadow \<or> l_shadow_op r x \<noteq> 0);
              hilite = (l_hilite_op r x \<noteq> 0 \<and> \<not> shadow);
              shadow = (shadow \<and> l_hilite_op r x = 0)
          in if hilite then pixel + 128 else if shadow then pixel + 64 else pixel
        else pixel)"

text \<open>\<^verbatim>\<open>gvdp_compose_span\<close>: eight columns at a time, then column by column.\<close>

function gvdp_compose_span :: "bool \<Rightarrow> row_layers \<Rightarrow> u8 \<Rightarrow> bool \<Rightarrow> int \<Rightarrow> nat \<Rightarrow> (int \<Rightarrow> u8) \<Rightarrow> int \<Rightarrow> u8" where
  "gvdp_compose_span little r backdrop shadow_mode x count out =
    (if 8 \<le> count then
       gvdp_compose_span little r backdrop shadow_mode (x + 8) (count - 8)
         (compose_store little x (compose_eight little r backdrop shadow_mode x) out)
     else if count = 0 then out
     else gvdp_compose_span little r backdrop shadow_mode (x + 1) (count - 1)
            (out(x := compose_one r backdrop shadow_mode x)))"
  by pat_completeness auto
termination by (relation "measure (\<lambda>(little, r, backdrop, shadow_mode, x, count, out). count)") auto

declare gvdp_compose_span.simps [simp del]

lemma lanes_select:
  "gvdp_compose_select (lanes u) (lanes v) (lanes (\<lambda>k. of_bool (P k))) = lanes (\<lambda>k. if P k then v k else u k)"
proof -
  have m: "(255 :: u8) = mask 8" by (simp add: mask_eq_exp_minus_1)
  have "x XOR ((x XOR y) AND 255) = y" for x y :: u8
    unfolding m by (rule bit_word_eqI) (auto simp: bit_simps)
  then show ?thesis
    unfolding gvdp_compose_select_def lanes_times_255 lanes_bitwise by (intro lanes_cong) simp
qed

lemma bit_doubled: "bit (w * 2 :: u64) n \<longleftrightarrow> 0 < n \<and> n < 64 \<and> bit w (n - 1)"
  using bit_push_bit_iff [of 1 w n] by (auto simp: Suc_le_eq)

lemma lanes_both_bits:
  "drop_bit 7 (lanes f AND push_bit 1 (lanes f)) AND lanes (\<lambda>_. 1) = lanes (\<lambda>k. of_bool (bit (f k) 7 \<and> bit (f k) 6))"
  by (rule word64_eqI) (simp add: bit_simps bit_lanes bit_doubled)

lemma lanes_neither_bit:
  "drop_bit 7 (NOT (lanes f OR push_bit 1 (lanes f))) AND lanes (\<lambda>_. 1) =
    lanes (\<lambda>k. of_bool (\<not> bit (f k) 7 \<and> \<not> bit (f k) 6))"
  by (rule word64_eqI) (simp add: bit_simps bit_lanes bit_doubled)

lemma byte_eq_iff: "x = y \<longleftrightarrow> list_all (\<lambda>n. bit x n \<longleftrightarrow> bit y n) [0, 1, 2, 3, 4, 5, 6, 7]" for x y :: u8
proof
  assume "list_all (\<lambda>n. bit x n \<longleftrightarrow> bit y n) [0, 1, 2, 3, 4, 5, 6, 7]"
  moreover have "[0, 1, 2, 3, 4, 5, 6, 7] = [0..<8]" by code_simp
  ultimately have "list_all (\<lambda>n. bit x n \<longleftrightarrow> bit y n) [0..<8]" by (simp only:)
  then show "x = y" by (intro bit_word_eqI) (auto simp: list_all_iff)
qed simp

lemma flag_byte:
  fixes x :: u8
  assumes "x \<le> 1"
  shows "x = of_bool (x \<noteq> 0)"
proof (cases "x = 0")
  case False
  then have "unat x \<noteq> 0" by (simp add: unat_eq_zero)
  with assms have "unat x = unat (1 :: u8)" by (simp add: word_le_nat_alt)
  then have "x = 1" by (simp only: word_unat_eq_iff)
  then show ?thesis by simp
qed simp

lemma bit_u8_high: "8 \<le> n \<Longrightarrow> \<not> bit (w :: u8) n"
  using bit_imp_le_length [of w n] by auto

lemma pixel_below_64: "x < 64 \<longleftrightarrow> \<not> bit x 7 \<and> \<not> bit x 6" for x :: u8
proof -
  have "x < 64 \<longleftrightarrow> unat (drop_bit 6 x) = 0"
    by (simp add: word_less_nat_alt unsigned_drop_bit_eq drop_bit_eq_div unat_div_distrib div_eq_0_iff)
  also have "\<dots> \<longleftrightarrow> \<not> bit x 7 \<and> \<not> bit x 6"
    unfolding unat_eq_zero byte_eq_iff by (auto simp: bit_simps bit_u8_high)
  finally show ?thesis .
qed

lemma and_bits:
  "a AND 64 \<noteq> 0 \<longleftrightarrow> bit a 6" "a AND 0xc0 = 0xc0 \<longleftrightarrow> bit a 7 \<and> bit a 6" "a AND 128 = 0 \<longleftrightarrow> \<not> bit a 7" for a :: u8
  unfolding byte_eq_iff by (auto simp: bit_simps)

text \<open>
  The flags of a row are zero or one in every column. Eight columns composed in one word are then
  eight columns composed one by one.
\<close>

definition flags_01 :: "row_layers \<Rightarrow> int \<Rightarrow> bool" where
  "flags_01 r x \<longleftrightarrow> l_opaque r x \<le> 1 \<and> l_high r x \<le> 1 \<and> l_shadow_op r x \<le> 1 \<and> l_hilite_op r x \<le> 1"

lemma lanes_flags_or: "lanes (\<lambda>k. of_bool (P k)) OR lanes (\<lambda>k. of_bool (Q k)) = lanes (\<lambda>k. of_bool (P k \<or> Q k))"
  and lanes_flags_and: "lanes (\<lambda>k. of_bool (P k)) AND lanes (\<lambda>k. of_bool (Q k)) = lanes (\<lambda>k. of_bool (P k \<and> Q k))"
  and lanes_flags_not: "lanes (\<lambda>_. 1) XOR lanes (\<lambda>k. of_bool (P k)) = lanes (\<lambda>k. of_bool (\<not> P k))"
  unfolding lanes_bitwise by (rule lanes_cong; simp)+

lemma shade_add:
  "uint (if \<not> bit p 7 \<and> \<not> bit p 6 then if s then 64 else if h then 128 else 0 else (0 :: u8)) + uint (p :: u8) < 256"
proof (cases "p < 64")
  case True
  then have "uint p < 64" by (simp add: word_less_def)
  then show ?thesis by simp
next
  case False
  then have "\<not> (\<not> bit p 7 \<and> \<not> bit p 6)" by (simp add: pixel_below_64)
  then show ?thesis using uint_bounded [of p] by (simp only: if_False) simp
qed

lemma lanes_shade:
  "lanes p + ((push_bit 6 (lanes (\<lambda>k. of_bool (S k \<and> \<not> H k))) OR push_bit 7 (lanes (\<lambda>k. of_bool (\<not> S k \<and> H k)))) AND
      (lanes (\<lambda>k. of_bool (\<not> bit (p k) 7 \<and> \<not> bit (p k) 6)) * 255)) =
    lanes (\<lambda>k. if p k < 64 then if S k \<and> \<not> H k then p k + 64 else if \<not> S k \<and> H k then p k + 128 else p k else p k)"
proof -
  let ?s = "\<lambda>k. if \<not> bit (p k) 7 \<and> \<not> bit (p k) 6 then if S k \<and> \<not> H k then 64 else if \<not> S k \<and> H k then 128 else 0 else 0 :: u8"
  have "(push_bit 6 (lanes (\<lambda>k. of_bool (S k \<and> \<not> H k))) OR push_bit 7 (lanes (\<lambda>k. of_bool (\<not> S k \<and> H k)))) AND
      (lanes (\<lambda>k. of_bool (\<not> bit (p k) 7 \<and> \<not> bit (p k) 6)) * 255) = lanes ?s"
    unfolding lanes_times_255 by (simp add: lanes_shift_flag lanes_bitwise) (rule lanes_cong, auto)
  moreover have "lanes ?s + lanes p = lanes (\<lambda>k. ?s k + p k)"
    by (rule lanes_add) (rule shade_add)
  ultimately show ?thesis
    by (simp only: add.commute [of "lanes p"]) (rule lanes_cong, simp add: pixel_below_64 add.commute)
qed

lemma lanes_flags: "(\<And>k. k < 8 \<Longrightarrow> f k \<le> 1) \<Longrightarrow> lanes f = lanes (\<lambda>k. of_bool (f k \<noteq> 0))"
  by (rule lanes_cong) (rule flag_byte)

lemma compose_eight_shadow:
  "compose_eight little r backdrop True x =
    (let one = 0x0101010101010101; pixel = compose_eight little r backdrop False x;
         a = gvdp_compose_load little (l_plane_a r) x; b = gvdp_compose_load little (l_plane_b r) x;
         sh = gvdp_compose_load little (l_high r) x AND gvdp_compose_load little (l_opaque r) x;
         normal = drop_bit 7 (NOT (pixel OR push_bit 1 pixel)) AND one;
         normal_planes = drop_bit 7 (a OR b) AND one;
         shadow = (one XOR (normal_planes OR sh)) OR gvdp_compose_load little (l_shadow_op r) x;
         hilite = gvdp_compose_load little (l_hilite_op r) x;
         shade = push_bit 6 (shadow AND (one XOR hilite)) OR push_bit 7 ((one XOR shadow) AND hilite)
     in pixel + (shade AND (normal * 255)))"
  by (simp only: compose_eight_def Let_def if_True if_False)

lemma compose_eight_lanes:
  assumes "\<And>k. k < 8 \<Longrightarrow> flags_01 r (x + int k)"
  shows "compose_eight little r backdrop shadow_mode x =
    lanes (\<lambda>k. compose_one r backdrop shadow_mode (x + int (if little then k else 7 - k)))"
proof -
  define col where "col k = x + int (if little then k else 7 - k)" for k
  have fl: "l_opaque r (col k) \<le> 1" "l_high r (col k) \<le> 1" "l_shadow_op r (col k) \<le> 1" "l_hilite_op r (col k) \<le> 1"
    if "k < 8" for k
    using assms [of k] assms [of "7 - k"] that by (auto simp: flags_01_def col_def)
  note loads = gvdp_compose_load_def [where x = x and little = little, folded col_def]
  have fs: "lanes (\<lambda>k. l_opaque r (col k)) = lanes (\<lambda>k. of_bool (l_opaque r (col k) \<noteq> 0))"
    "lanes (\<lambda>k. l_high r (col k)) = lanes (\<lambda>k. of_bool (l_high r (col k) \<noteq> 0))"
    "lanes (\<lambda>k. l_shadow_op r (col k)) = lanes (\<lambda>k. of_bool (l_shadow_op r (col k) \<noteq> 0))"
    "lanes (\<lambda>k. l_hilite_op r (col k)) = lanes (\<lambda>k. of_bool (l_hilite_op r (col k) \<noteq> 0))"
    by (rule lanes_flags, erule fl)+
  let ?A = "\<lambda>k. l_plane_a r (col k)" and ?B = "\<lambda>k. l_plane_b r (col k)"
  let ?so = "\<lambda>k. l_opaque r (col k) \<noteq> 0" and ?sh = "\<lambda>k. l_high r (col k) \<noteq> 0 \<and> l_opaque r (col k) \<noteq> 0"
  define px where "px k = (if ?sh k then l_sprite r (col k) else if bit (?A k) 7 \<and> bit (?A k) 6 then ?A k AND 63
    else if bit (?B k) 7 \<and> bit (?B k) 6 then ?B k AND 63 else if ?so k then l_sprite r (col k)
    else if bit (?A k) 6 then ?A k AND 63 else if bit (?B k) 6 then ?B k AND 63 else backdrop)" for k
  let ?S = "\<lambda>k. (\<not> ((bit (?A k) 7 \<or> bit (?B k) 7) \<or> ?sh k) \<or> l_shadow_op r (col k) \<noteq> 0)"
  let ?H = "\<lambda>k. l_hilite_op r (col k) \<noteq> 0"
  have six: "drop_bit 6 (lanes f) AND lanes (\<lambda>_. 1) = lanes (\<lambda>k. of_bool (bit (f k) 6))"
    and seven: "drop_bit 7 (lanes f OR lanes g) AND lanes (\<lambda>_. 1) = lanes (\<lambda>k. of_bool (bit (f k) 7 \<or> bit (g k) 7))" for f g
    by (simp_all add: lanes_bit lanes_bitwise bit_or_iff)
  have pixel: "compose_eight little r backdrop False x = lanes px"
    unfolding compose_eight_def Let_def lanes_const lanes_broadcast loads fs six lanes_both_bits lanes_flags_and if_False
    by (simp only: lanes_bitwise lanes_select) (rule lanes_cong, simp only: px_def)
  have shadow: "compose_eight little r backdrop True x =
      lanes (\<lambda>k. if px k < 64 then if ?S k \<and> \<not> ?H k then px k + 64 else if \<not> ?S k \<and> ?H k then px k + 128 else px k else px k)"
    unfolding compose_eight_shadow Let_def pixel lanes_const loads fs seven lanes_neither_bit
      lanes_flags_or lanes_flags_and lanes_flags_not
    by (rule lanes_shade)
  have one: "compose_one r backdrop sm (col k) = (if sm \<and> px k < 64
      then if \<not> ?S k \<and> ?H k then px k + 128 else if ?S k \<and> \<not> ?H k then px k + 64 else px k else px k)" for sm k
    unfolding compose_one_def Let_def and_bits bit_or_iff px_def [symmetric] by auto
  show ?thesis
  proof (cases shadow_mode)
    case True
    then show ?thesis
      unfolding col_def [symmetric] by (simp only: shadow) (rule lanes_cong, auto simp: one)
  next
    case False
    then show ?thesis
      unfolding col_def [symmetric] by (simp only: pixel) (rule lanes_cong, simp add: one)
  qed
qed

lemma compose_store_eight:
  assumes "\<And>k. k < 8 \<Longrightarrow> flags_01 r (x + int k)"
  shows "compose_store little x (compose_eight little r backdrop shadow_mode x) out =
    (\<lambda>i. if x \<le> i \<and> i < x + 8 then compose_one r backdrop shadow_mode i else out i)"
proof
  fix i
  show "compose_store little x (compose_eight little r backdrop shadow_mode x) out i =
    (if x \<le> i \<and> i < x + 8 then compose_one r backdrop shadow_mode i else out i)"
  proof (cases "x \<le> i \<and> i < x + 8")
    case True
    define k where "k = nat (i - x)"
    have k: "k < 8" "i = x + int k" using True by (auto simp: k_def)
    obtain j where j: "7 - k = j" "7 - j = k" "j < 8" using k(1) by force
    have "compose_eight little r backdrop shadow_mode x =
        lanes (\<lambda>k. compose_one r backdrop shadow_mode (x + int (if little then k else 7 - k)))"
      by (rule compose_eight_lanes) (rule assms)
    then show ?thesis
      using k j by (cases little) (simp_all add: compose_store_def memory_byte_def)
  qed (auto simp: compose_store_def)
qed

lemma compose_span_pointwise:
  assumes "\<And>i. x \<le> i \<Longrightarrow> i < x + int count \<Longrightarrow> flags_01 r i"
  shows "gvdp_compose_span little r backdrop shadow_mode x count out =
    (\<lambda>i. if x \<le> i \<and> i < x + int count then compose_one r backdrop shadow_mode i else out i)"
  using assms
proof (induction little r backdrop shadow_mode x count out rule: gvdp_compose_span.induct)
  case (1 little r backdrop shadow_mode x count out)
  consider "8 \<le> count" | "count = 0" | "0 < count" "count < 8" by linarith
  then show ?case
  proof cases
    case 1
    let ?out = "compose_store little x (compose_eight little r backdrop shadow_mode x) out"
    have out: "?out = (\<lambda>i. if x \<le> i \<and> i < x + 8 then compose_one r backdrop shadow_mode i else out i)"
      by (rule compose_store_eight, rule "1.prems") (use 1 in auto)
    have "gvdp_compose_span little r backdrop shadow_mode (x + 8) (count - 8) ?out =
        (\<lambda>i. if x + 8 \<le> i \<and> i < x + 8 + int (count - 8) then compose_one r backdrop shadow_mode i else ?out i)"
      using 1 by (intro "1.IH"(1) "1.prems") auto
    then show ?thesis
      using 1 by (subst gvdp_compose_span.simps) (auto simp: out fun_eq_iff of_nat_diff)
  next
    case 2
    then show ?thesis by (auto simp: gvdp_compose_span.simps fun_eq_iff)
  next
    case 3
    let ?out = "out(x := compose_one r backdrop shadow_mode x)"
    have "gvdp_compose_span little r backdrop shadow_mode (x + 1) (count - 1) ?out =
        (\<lambda>i. if x + 1 \<le> i \<and> i < x + 1 + int (count - 1) then compose_one r backdrop shadow_mode i else ?out i)"
      using 3 by (intro "1.IH"(2) "1.prems") auto
    then show ?thesis
      using 3 by (subst gvdp_compose_span.simps) (auto simp: fun_eq_iff of_nat_diff)
  qed
qed

end
