(* ===== verification/Vdp_Dac.thy ===== *)
theory Vdp_Dac
  imports Prelude
begin

text \<open>
  Output colours: the nonlinear DAC ladder of \<^verbatim>\<open>runner/video/genesis_dac.h\<close> with the two tables that
  replace its computation at run time, \<^verbatim>\<open>genesis_dac_table.h\<close> (every 9-bit colour at three
  shading levels) and \<^verbatim>\<open>genesis_dac_inverse8.h\<close> (the channel nearest to an output byte).
\<close>

section \<open>The ladder\<close>

definition dac_normal :: "int list" where "dac_normal = [0, 49, 87, 119, 146, 174, 206, 255]"
definition dac_shadow :: "int list" where "dac_shadow = [0, 27, 49, 71, 87, 103, 119, 130]"
definition dac_highlight :: "int list" where "dac_highlight = [130, 146, 157, 174, 190, 206, 228, 255]"

definition genesis_dac_level :: "nat \<Rightarrow> int \<Rightarrow> int" where
  "genesis_dac_level chan3 level =
    (if level = 1 then dac_shadow else if level = 2 then dac_highlight else dac_normal) ! (chan3 mod 8)"

definition nearest_step :: "u32 \<Rightarrow> nat \<Rightarrow> u32 \<times> nat \<Rightarrow> u32 \<times> nat" where
  "nearest_step v i s =
    (let (bd, best) = s; n = word_of_int (dac_normal ! i); d = (if v > n then v - n else n - v)
     in if d < bd then (d, i) else (bd, best))"

definition genesis_dac_nearest_normal_idx :: "u32 \<Rightarrow> nat" where
  "genesis_dac_nearest_normal_idx v = snd (fold (nearest_step v) [0..<8] (0x100, 0))"

section \<open>The tables\<close>

definition dac_colors_normal :: "int list" where
  "dac_colors_normal =
    [0xFF000000, 0xFF310000, 0xFF570000, 0xFF770000, 0xFF920000, 0xFFAE0000, 0xFFCE0000, 0xFFFF0000, 0xFF003100, 0xFF313100, 0xFF573100, 0xFF773100, 0xFF923100, 0xFFAE3100, 0xFFCE3100, 0xFFFF3100,
     0xFF005700, 0xFF315700, 0xFF575700, 0xFF775700, 0xFF925700, 0xFFAE5700, 0xFFCE5700, 0xFFFF5700, 0xFF007700, 0xFF317700, 0xFF577700, 0xFF777700, 0xFF927700, 0xFFAE7700, 0xFFCE7700, 0xFFFF7700,
     0xFF009200, 0xFF319200, 0xFF579200, 0xFF779200, 0xFF929200, 0xFFAE9200, 0xFFCE9200, 0xFFFF9200, 0xFF00AE00, 0xFF31AE00, 0xFF57AE00, 0xFF77AE00, 0xFF92AE00, 0xFFAEAE00, 0xFFCEAE00, 0xFFFFAE00,
     0xFF00CE00, 0xFF31CE00, 0xFF57CE00, 0xFF77CE00, 0xFF92CE00, 0xFFAECE00, 0xFFCECE00, 0xFFFFCE00, 0xFF00FF00, 0xFF31FF00, 0xFF57FF00, 0xFF77FF00, 0xFF92FF00, 0xFFAEFF00, 0xFFCEFF00, 0xFFFFFF00,
     0xFF000031, 0xFF310031, 0xFF570031, 0xFF770031, 0xFF920031, 0xFFAE0031, 0xFFCE0031, 0xFFFF0031, 0xFF003131, 0xFF313131, 0xFF573131, 0xFF773131, 0xFF923131, 0xFFAE3131, 0xFFCE3131, 0xFFFF3131,
     0xFF005731, 0xFF315731, 0xFF575731, 0xFF775731, 0xFF925731, 0xFFAE5731, 0xFFCE5731, 0xFFFF5731, 0xFF007731, 0xFF317731, 0xFF577731, 0xFF777731, 0xFF927731, 0xFFAE7731, 0xFFCE7731, 0xFFFF7731,
     0xFF009231, 0xFF319231, 0xFF579231, 0xFF779231, 0xFF929231, 0xFFAE9231, 0xFFCE9231, 0xFFFF9231, 0xFF00AE31, 0xFF31AE31, 0xFF57AE31, 0xFF77AE31, 0xFF92AE31, 0xFFAEAE31, 0xFFCEAE31, 0xFFFFAE31,
     0xFF00CE31, 0xFF31CE31, 0xFF57CE31, 0xFF77CE31, 0xFF92CE31, 0xFFAECE31, 0xFFCECE31, 0xFFFFCE31, 0xFF00FF31, 0xFF31FF31, 0xFF57FF31, 0xFF77FF31, 0xFF92FF31, 0xFFAEFF31, 0xFFCEFF31, 0xFFFFFF31,
     0xFF000057, 0xFF310057, 0xFF570057, 0xFF770057, 0xFF920057, 0xFFAE0057, 0xFFCE0057, 0xFFFF0057, 0xFF003157, 0xFF313157, 0xFF573157, 0xFF773157, 0xFF923157, 0xFFAE3157, 0xFFCE3157, 0xFFFF3157,
     0xFF005757, 0xFF315757, 0xFF575757, 0xFF775757, 0xFF925757, 0xFFAE5757, 0xFFCE5757, 0xFFFF5757, 0xFF007757, 0xFF317757, 0xFF577757, 0xFF777757, 0xFF927757, 0xFFAE7757, 0xFFCE7757, 0xFFFF7757,
     0xFF009257, 0xFF319257, 0xFF579257, 0xFF779257, 0xFF929257, 0xFFAE9257, 0xFFCE9257, 0xFFFF9257, 0xFF00AE57, 0xFF31AE57, 0xFF57AE57, 0xFF77AE57, 0xFF92AE57, 0xFFAEAE57, 0xFFCEAE57, 0xFFFFAE57,
     0xFF00CE57, 0xFF31CE57, 0xFF57CE57, 0xFF77CE57, 0xFF92CE57, 0xFFAECE57, 0xFFCECE57, 0xFFFFCE57, 0xFF00FF57, 0xFF31FF57, 0xFF57FF57, 0xFF77FF57, 0xFF92FF57, 0xFFAEFF57, 0xFFCEFF57, 0xFFFFFF57,
     0xFF000077, 0xFF310077, 0xFF570077, 0xFF770077, 0xFF920077, 0xFFAE0077, 0xFFCE0077, 0xFFFF0077, 0xFF003177, 0xFF313177, 0xFF573177, 0xFF773177, 0xFF923177, 0xFFAE3177, 0xFFCE3177, 0xFFFF3177,
     0xFF005777, 0xFF315777, 0xFF575777, 0xFF775777, 0xFF925777, 0xFFAE5777, 0xFFCE5777, 0xFFFF5777, 0xFF007777, 0xFF317777, 0xFF577777, 0xFF777777, 0xFF927777, 0xFFAE7777, 0xFFCE7777, 0xFFFF7777,
     0xFF009277, 0xFF319277, 0xFF579277, 0xFF779277, 0xFF929277, 0xFFAE9277, 0xFFCE9277, 0xFFFF9277, 0xFF00AE77, 0xFF31AE77, 0xFF57AE77, 0xFF77AE77, 0xFF92AE77, 0xFFAEAE77, 0xFFCEAE77, 0xFFFFAE77,
     0xFF00CE77, 0xFF31CE77, 0xFF57CE77, 0xFF77CE77, 0xFF92CE77, 0xFFAECE77, 0xFFCECE77, 0xFFFFCE77, 0xFF00FF77, 0xFF31FF77, 0xFF57FF77, 0xFF77FF77, 0xFF92FF77, 0xFFAEFF77, 0xFFCEFF77, 0xFFFFFF77,
     0xFF000092, 0xFF310092, 0xFF570092, 0xFF770092, 0xFF920092, 0xFFAE0092, 0xFFCE0092, 0xFFFF0092, 0xFF003192, 0xFF313192, 0xFF573192, 0xFF773192, 0xFF923192, 0xFFAE3192, 0xFFCE3192, 0xFFFF3192,
     0xFF005792, 0xFF315792, 0xFF575792, 0xFF775792, 0xFF925792, 0xFFAE5792, 0xFFCE5792, 0xFFFF5792, 0xFF007792, 0xFF317792, 0xFF577792, 0xFF777792, 0xFF927792, 0xFFAE7792, 0xFFCE7792, 0xFFFF7792,
     0xFF009292, 0xFF319292, 0xFF579292, 0xFF779292, 0xFF929292, 0xFFAE9292, 0xFFCE9292, 0xFFFF9292, 0xFF00AE92, 0xFF31AE92, 0xFF57AE92, 0xFF77AE92, 0xFF92AE92, 0xFFAEAE92, 0xFFCEAE92, 0xFFFFAE92,
     0xFF00CE92, 0xFF31CE92, 0xFF57CE92, 0xFF77CE92, 0xFF92CE92, 0xFFAECE92, 0xFFCECE92, 0xFFFFCE92, 0xFF00FF92, 0xFF31FF92, 0xFF57FF92, 0xFF77FF92, 0xFF92FF92, 0xFFAEFF92, 0xFFCEFF92, 0xFFFFFF92,
     0xFF0000AE, 0xFF3100AE, 0xFF5700AE, 0xFF7700AE, 0xFF9200AE, 0xFFAE00AE, 0xFFCE00AE, 0xFFFF00AE, 0xFF0031AE, 0xFF3131AE, 0xFF5731AE, 0xFF7731AE, 0xFF9231AE, 0xFFAE31AE, 0xFFCE31AE, 0xFFFF31AE,
     0xFF0057AE, 0xFF3157AE, 0xFF5757AE, 0xFF7757AE, 0xFF9257AE, 0xFFAE57AE, 0xFFCE57AE, 0xFFFF57AE, 0xFF0077AE, 0xFF3177AE, 0xFF5777AE, 0xFF7777AE, 0xFF9277AE, 0xFFAE77AE, 0xFFCE77AE, 0xFFFF77AE,
     0xFF0092AE, 0xFF3192AE, 0xFF5792AE, 0xFF7792AE, 0xFF9292AE, 0xFFAE92AE, 0xFFCE92AE, 0xFFFF92AE, 0xFF00AEAE, 0xFF31AEAE, 0xFF57AEAE, 0xFF77AEAE, 0xFF92AEAE, 0xFFAEAEAE, 0xFFCEAEAE, 0xFFFFAEAE,
     0xFF00CEAE, 0xFF31CEAE, 0xFF57CEAE, 0xFF77CEAE, 0xFF92CEAE, 0xFFAECEAE, 0xFFCECEAE, 0xFFFFCEAE, 0xFF00FFAE, 0xFF31FFAE, 0xFF57FFAE, 0xFF77FFAE, 0xFF92FFAE, 0xFFAEFFAE, 0xFFCEFFAE, 0xFFFFFFAE,
     0xFF0000CE, 0xFF3100CE, 0xFF5700CE, 0xFF7700CE, 0xFF9200CE, 0xFFAE00CE, 0xFFCE00CE, 0xFFFF00CE, 0xFF0031CE, 0xFF3131CE, 0xFF5731CE, 0xFF7731CE, 0xFF9231CE, 0xFFAE31CE, 0xFFCE31CE, 0xFFFF31CE,
     0xFF0057CE, 0xFF3157CE, 0xFF5757CE, 0xFF7757CE, 0xFF9257CE, 0xFFAE57CE, 0xFFCE57CE, 0xFFFF57CE, 0xFF0077CE, 0xFF3177CE, 0xFF5777CE, 0xFF7777CE, 0xFF9277CE, 0xFFAE77CE, 0xFFCE77CE, 0xFFFF77CE,
     0xFF0092CE, 0xFF3192CE, 0xFF5792CE, 0xFF7792CE, 0xFF9292CE, 0xFFAE92CE, 0xFFCE92CE, 0xFFFF92CE, 0xFF00AECE, 0xFF31AECE, 0xFF57AECE, 0xFF77AECE, 0xFF92AECE, 0xFFAEAECE, 0xFFCEAECE, 0xFFFFAECE,
     0xFF00CECE, 0xFF31CECE, 0xFF57CECE, 0xFF77CECE, 0xFF92CECE, 0xFFAECECE, 0xFFCECECE, 0xFFFFCECE, 0xFF00FFCE, 0xFF31FFCE, 0xFF57FFCE, 0xFF77FFCE, 0xFF92FFCE, 0xFFAEFFCE, 0xFFCEFFCE, 0xFFFFFFCE,
     0xFF0000FF, 0xFF3100FF, 0xFF5700FF, 0xFF7700FF, 0xFF9200FF, 0xFFAE00FF, 0xFFCE00FF, 0xFFFF00FF, 0xFF0031FF, 0xFF3131FF, 0xFF5731FF, 0xFF7731FF, 0xFF9231FF, 0xFFAE31FF, 0xFFCE31FF, 0xFFFF31FF,
     0xFF0057FF, 0xFF3157FF, 0xFF5757FF, 0xFF7757FF, 0xFF9257FF, 0xFFAE57FF, 0xFFCE57FF, 0xFFFF57FF, 0xFF0077FF, 0xFF3177FF, 0xFF5777FF, 0xFF7777FF, 0xFF9277FF, 0xFFAE77FF, 0xFFCE77FF, 0xFFFF77FF,
     0xFF0092FF, 0xFF3192FF, 0xFF5792FF, 0xFF7792FF, 0xFF9292FF, 0xFFAE92FF, 0xFFCE92FF, 0xFFFF92FF, 0xFF00AEFF, 0xFF31AEFF, 0xFF57AEFF, 0xFF77AEFF, 0xFF92AEFF, 0xFFAEAEFF, 0xFFCEAEFF, 0xFFFFAEFF,
     0xFF00CEFF, 0xFF31CEFF, 0xFF57CEFF, 0xFF77CEFF, 0xFF92CEFF, 0xFFAECEFF, 0xFFCECEFF, 0xFFFFCEFF, 0xFF00FFFF, 0xFF31FFFF, 0xFF57FFFF, 0xFF77FFFF, 0xFF92FFFF, 0xFFAEFFFF, 0xFFCEFFFF, 0xFFFFFFFF]"

definition dac_colors_shadow :: "int list" where
  "dac_colors_shadow =
    [0xFF000000, 0xFF1B0000, 0xFF310000, 0xFF470000, 0xFF570000, 0xFF670000, 0xFF770000, 0xFF820000, 0xFF001B00, 0xFF1B1B00, 0xFF311B00, 0xFF471B00, 0xFF571B00, 0xFF671B00, 0xFF771B00, 0xFF821B00,
     0xFF003100, 0xFF1B3100, 0xFF313100, 0xFF473100, 0xFF573100, 0xFF673100, 0xFF773100, 0xFF823100, 0xFF004700, 0xFF1B4700, 0xFF314700, 0xFF474700, 0xFF574700, 0xFF674700, 0xFF774700, 0xFF824700,
     0xFF005700, 0xFF1B5700, 0xFF315700, 0xFF475700, 0xFF575700, 0xFF675700, 0xFF775700, 0xFF825700, 0xFF006700, 0xFF1B6700, 0xFF316700, 0xFF476700, 0xFF576700, 0xFF676700, 0xFF776700, 0xFF826700,
     0xFF007700, 0xFF1B7700, 0xFF317700, 0xFF477700, 0xFF577700, 0xFF677700, 0xFF777700, 0xFF827700, 0xFF008200, 0xFF1B8200, 0xFF318200, 0xFF478200, 0xFF578200, 0xFF678200, 0xFF778200, 0xFF828200,
     0xFF00001B, 0xFF1B001B, 0xFF31001B, 0xFF47001B, 0xFF57001B, 0xFF67001B, 0xFF77001B, 0xFF82001B, 0xFF001B1B, 0xFF1B1B1B, 0xFF311B1B, 0xFF471B1B, 0xFF571B1B, 0xFF671B1B, 0xFF771B1B, 0xFF821B1B,
     0xFF00311B, 0xFF1B311B, 0xFF31311B, 0xFF47311B, 0xFF57311B, 0xFF67311B, 0xFF77311B, 0xFF82311B, 0xFF00471B, 0xFF1B471B, 0xFF31471B, 0xFF47471B, 0xFF57471B, 0xFF67471B, 0xFF77471B, 0xFF82471B,
     0xFF00571B, 0xFF1B571B, 0xFF31571B, 0xFF47571B, 0xFF57571B, 0xFF67571B, 0xFF77571B, 0xFF82571B, 0xFF00671B, 0xFF1B671B, 0xFF31671B, 0xFF47671B, 0xFF57671B, 0xFF67671B, 0xFF77671B, 0xFF82671B,
     0xFF00771B, 0xFF1B771B, 0xFF31771B, 0xFF47771B, 0xFF57771B, 0xFF67771B, 0xFF77771B, 0xFF82771B, 0xFF00821B, 0xFF1B821B, 0xFF31821B, 0xFF47821B, 0xFF57821B, 0xFF67821B, 0xFF77821B, 0xFF82821B,
     0xFF000031, 0xFF1B0031, 0xFF310031, 0xFF470031, 0xFF570031, 0xFF670031, 0xFF770031, 0xFF820031, 0xFF001B31, 0xFF1B1B31, 0xFF311B31, 0xFF471B31, 0xFF571B31, 0xFF671B31, 0xFF771B31, 0xFF821B31,
     0xFF003131, 0xFF1B3131, 0xFF313131, 0xFF473131, 0xFF573131, 0xFF673131, 0xFF773131, 0xFF823131, 0xFF004731, 0xFF1B4731, 0xFF314731, 0xFF474731, 0xFF574731, 0xFF674731, 0xFF774731, 0xFF824731,
     0xFF005731, 0xFF1B5731, 0xFF315731, 0xFF475731, 0xFF575731, 0xFF675731, 0xFF775731, 0xFF825731, 0xFF006731, 0xFF1B6731, 0xFF316731, 0xFF476731, 0xFF576731, 0xFF676731, 0xFF776731, 0xFF826731,
     0xFF007731, 0xFF1B7731, 0xFF317731, 0xFF477731, 0xFF577731, 0xFF677731, 0xFF777731, 0xFF827731, 0xFF008231, 0xFF1B8231, 0xFF318231, 0xFF478231, 0xFF578231, 0xFF678231, 0xFF778231, 0xFF828231,
     0xFF000047, 0xFF1B0047, 0xFF310047, 0xFF470047, 0xFF570047, 0xFF670047, 0xFF770047, 0xFF820047, 0xFF001B47, 0xFF1B1B47, 0xFF311B47, 0xFF471B47, 0xFF571B47, 0xFF671B47, 0xFF771B47, 0xFF821B47,
     0xFF003147, 0xFF1B3147, 0xFF313147, 0xFF473147, 0xFF573147, 0xFF673147, 0xFF773147, 0xFF823147, 0xFF004747, 0xFF1B4747, 0xFF314747, 0xFF474747, 0xFF574747, 0xFF674747, 0xFF774747, 0xFF824747,
     0xFF005747, 0xFF1B5747, 0xFF315747, 0xFF475747, 0xFF575747, 0xFF675747, 0xFF775747, 0xFF825747, 0xFF006747, 0xFF1B6747, 0xFF316747, 0xFF476747, 0xFF576747, 0xFF676747, 0xFF776747, 0xFF826747,
     0xFF007747, 0xFF1B7747, 0xFF317747, 0xFF477747, 0xFF577747, 0xFF677747, 0xFF777747, 0xFF827747, 0xFF008247, 0xFF1B8247, 0xFF318247, 0xFF478247, 0xFF578247, 0xFF678247, 0xFF778247, 0xFF828247,
     0xFF000057, 0xFF1B0057, 0xFF310057, 0xFF470057, 0xFF570057, 0xFF670057, 0xFF770057, 0xFF820057, 0xFF001B57, 0xFF1B1B57, 0xFF311B57, 0xFF471B57, 0xFF571B57, 0xFF671B57, 0xFF771B57, 0xFF821B57,
     0xFF003157, 0xFF1B3157, 0xFF313157, 0xFF473157, 0xFF573157, 0xFF673157, 0xFF773157, 0xFF823157, 0xFF004757, 0xFF1B4757, 0xFF314757, 0xFF474757, 0xFF574757, 0xFF674757, 0xFF774757, 0xFF824757,
     0xFF005757, 0xFF1B5757, 0xFF315757, 0xFF475757, 0xFF575757, 0xFF675757, 0xFF775757, 0xFF825757, 0xFF006757, 0xFF1B6757, 0xFF316757, 0xFF476757, 0xFF576757, 0xFF676757, 0xFF776757, 0xFF826757,
     0xFF007757, 0xFF1B7757, 0xFF317757, 0xFF477757, 0xFF577757, 0xFF677757, 0xFF777757, 0xFF827757, 0xFF008257, 0xFF1B8257, 0xFF318257, 0xFF478257, 0xFF578257, 0xFF678257, 0xFF778257, 0xFF828257,
     0xFF000067, 0xFF1B0067, 0xFF310067, 0xFF470067, 0xFF570067, 0xFF670067, 0xFF770067, 0xFF820067, 0xFF001B67, 0xFF1B1B67, 0xFF311B67, 0xFF471B67, 0xFF571B67, 0xFF671B67, 0xFF771B67, 0xFF821B67,
     0xFF003167, 0xFF1B3167, 0xFF313167, 0xFF473167, 0xFF573167, 0xFF673167, 0xFF773167, 0xFF823167, 0xFF004767, 0xFF1B4767, 0xFF314767, 0xFF474767, 0xFF574767, 0xFF674767, 0xFF774767, 0xFF824767,
     0xFF005767, 0xFF1B5767, 0xFF315767, 0xFF475767, 0xFF575767, 0xFF675767, 0xFF775767, 0xFF825767, 0xFF006767, 0xFF1B6767, 0xFF316767, 0xFF476767, 0xFF576767, 0xFF676767, 0xFF776767, 0xFF826767,
     0xFF007767, 0xFF1B7767, 0xFF317767, 0xFF477767, 0xFF577767, 0xFF677767, 0xFF777767, 0xFF827767, 0xFF008267, 0xFF1B8267, 0xFF318267, 0xFF478267, 0xFF578267, 0xFF678267, 0xFF778267, 0xFF828267,
     0xFF000077, 0xFF1B0077, 0xFF310077, 0xFF470077, 0xFF570077, 0xFF670077, 0xFF770077, 0xFF820077, 0xFF001B77, 0xFF1B1B77, 0xFF311B77, 0xFF471B77, 0xFF571B77, 0xFF671B77, 0xFF771B77, 0xFF821B77,
     0xFF003177, 0xFF1B3177, 0xFF313177, 0xFF473177, 0xFF573177, 0xFF673177, 0xFF773177, 0xFF823177, 0xFF004777, 0xFF1B4777, 0xFF314777, 0xFF474777, 0xFF574777, 0xFF674777, 0xFF774777, 0xFF824777,
     0xFF005777, 0xFF1B5777, 0xFF315777, 0xFF475777, 0xFF575777, 0xFF675777, 0xFF775777, 0xFF825777, 0xFF006777, 0xFF1B6777, 0xFF316777, 0xFF476777, 0xFF576777, 0xFF676777, 0xFF776777, 0xFF826777,
     0xFF007777, 0xFF1B7777, 0xFF317777, 0xFF477777, 0xFF577777, 0xFF677777, 0xFF777777, 0xFF827777, 0xFF008277, 0xFF1B8277, 0xFF318277, 0xFF478277, 0xFF578277, 0xFF678277, 0xFF778277, 0xFF828277,
     0xFF000082, 0xFF1B0082, 0xFF310082, 0xFF470082, 0xFF570082, 0xFF670082, 0xFF770082, 0xFF820082, 0xFF001B82, 0xFF1B1B82, 0xFF311B82, 0xFF471B82, 0xFF571B82, 0xFF671B82, 0xFF771B82, 0xFF821B82,
     0xFF003182, 0xFF1B3182, 0xFF313182, 0xFF473182, 0xFF573182, 0xFF673182, 0xFF773182, 0xFF823182, 0xFF004782, 0xFF1B4782, 0xFF314782, 0xFF474782, 0xFF574782, 0xFF674782, 0xFF774782, 0xFF824782,
     0xFF005782, 0xFF1B5782, 0xFF315782, 0xFF475782, 0xFF575782, 0xFF675782, 0xFF775782, 0xFF825782, 0xFF006782, 0xFF1B6782, 0xFF316782, 0xFF476782, 0xFF576782, 0xFF676782, 0xFF776782, 0xFF826782,
     0xFF007782, 0xFF1B7782, 0xFF317782, 0xFF477782, 0xFF577782, 0xFF677782, 0xFF777782, 0xFF827782, 0xFF008282, 0xFF1B8282, 0xFF318282, 0xFF478282, 0xFF578282, 0xFF678282, 0xFF778282, 0xFF828282]"

definition dac_colors_highlight :: "int list" where
  "dac_colors_highlight =
    [0xFF828282, 0xFF928282, 0xFF9D8282, 0xFFAE8282, 0xFFBE8282, 0xFFCE8282, 0xFFE48282, 0xFFFF8282, 0xFF829282, 0xFF929282, 0xFF9D9282, 0xFFAE9282, 0xFFBE9282, 0xFFCE9282, 0xFFE49282, 0xFFFF9282,
     0xFF829D82, 0xFF929D82, 0xFF9D9D82, 0xFFAE9D82, 0xFFBE9D82, 0xFFCE9D82, 0xFFE49D82, 0xFFFF9D82, 0xFF82AE82, 0xFF92AE82, 0xFF9DAE82, 0xFFAEAE82, 0xFFBEAE82, 0xFFCEAE82, 0xFFE4AE82, 0xFFFFAE82,
     0xFF82BE82, 0xFF92BE82, 0xFF9DBE82, 0xFFAEBE82, 0xFFBEBE82, 0xFFCEBE82, 0xFFE4BE82, 0xFFFFBE82, 0xFF82CE82, 0xFF92CE82, 0xFF9DCE82, 0xFFAECE82, 0xFFBECE82, 0xFFCECE82, 0xFFE4CE82, 0xFFFFCE82,
     0xFF82E482, 0xFF92E482, 0xFF9DE482, 0xFFAEE482, 0xFFBEE482, 0xFFCEE482, 0xFFE4E482, 0xFFFFE482, 0xFF82FF82, 0xFF92FF82, 0xFF9DFF82, 0xFFAEFF82, 0xFFBEFF82, 0xFFCEFF82, 0xFFE4FF82, 0xFFFFFF82,
     0xFF828292, 0xFF928292, 0xFF9D8292, 0xFFAE8292, 0xFFBE8292, 0xFFCE8292, 0xFFE48292, 0xFFFF8292, 0xFF829292, 0xFF929292, 0xFF9D9292, 0xFFAE9292, 0xFFBE9292, 0xFFCE9292, 0xFFE49292, 0xFFFF9292,
     0xFF829D92, 0xFF929D92, 0xFF9D9D92, 0xFFAE9D92, 0xFFBE9D92, 0xFFCE9D92, 0xFFE49D92, 0xFFFF9D92, 0xFF82AE92, 0xFF92AE92, 0xFF9DAE92, 0xFFAEAE92, 0xFFBEAE92, 0xFFCEAE92, 0xFFE4AE92, 0xFFFFAE92,
     0xFF82BE92, 0xFF92BE92, 0xFF9DBE92, 0xFFAEBE92, 0xFFBEBE92, 0xFFCEBE92, 0xFFE4BE92, 0xFFFFBE92, 0xFF82CE92, 0xFF92CE92, 0xFF9DCE92, 0xFFAECE92, 0xFFBECE92, 0xFFCECE92, 0xFFE4CE92, 0xFFFFCE92,
     0xFF82E492, 0xFF92E492, 0xFF9DE492, 0xFFAEE492, 0xFFBEE492, 0xFFCEE492, 0xFFE4E492, 0xFFFFE492, 0xFF82FF92, 0xFF92FF92, 0xFF9DFF92, 0xFFAEFF92, 0xFFBEFF92, 0xFFCEFF92, 0xFFE4FF92, 0xFFFFFF92,
     0xFF82829D, 0xFF92829D, 0xFF9D829D, 0xFFAE829D, 0xFFBE829D, 0xFFCE829D, 0xFFE4829D, 0xFFFF829D, 0xFF82929D, 0xFF92929D, 0xFF9D929D, 0xFFAE929D, 0xFFBE929D, 0xFFCE929D, 0xFFE4929D, 0xFFFF929D,
     0xFF829D9D, 0xFF929D9D, 0xFF9D9D9D, 0xFFAE9D9D, 0xFFBE9D9D, 0xFFCE9D9D, 0xFFE49D9D, 0xFFFF9D9D, 0xFF82AE9D, 0xFF92AE9D, 0xFF9DAE9D, 0xFFAEAE9D, 0xFFBEAE9D, 0xFFCEAE9D, 0xFFE4AE9D, 0xFFFFAE9D,
     0xFF82BE9D, 0xFF92BE9D, 0xFF9DBE9D, 0xFFAEBE9D, 0xFFBEBE9D, 0xFFCEBE9D, 0xFFE4BE9D, 0xFFFFBE9D, 0xFF82CE9D, 0xFF92CE9D, 0xFF9DCE9D, 0xFFAECE9D, 0xFFBECE9D, 0xFFCECE9D, 0xFFE4CE9D, 0xFFFFCE9D,
     0xFF82E49D, 0xFF92E49D, 0xFF9DE49D, 0xFFAEE49D, 0xFFBEE49D, 0xFFCEE49D, 0xFFE4E49D, 0xFFFFE49D, 0xFF82FF9D, 0xFF92FF9D, 0xFF9DFF9D, 0xFFAEFF9D, 0xFFBEFF9D, 0xFFCEFF9D, 0xFFE4FF9D, 0xFFFFFF9D,
     0xFF8282AE, 0xFF9282AE, 0xFF9D82AE, 0xFFAE82AE, 0xFFBE82AE, 0xFFCE82AE, 0xFFE482AE, 0xFFFF82AE, 0xFF8292AE, 0xFF9292AE, 0xFF9D92AE, 0xFFAE92AE, 0xFFBE92AE, 0xFFCE92AE, 0xFFE492AE, 0xFFFF92AE,
     0xFF829DAE, 0xFF929DAE, 0xFF9D9DAE, 0xFFAE9DAE, 0xFFBE9DAE, 0xFFCE9DAE, 0xFFE49DAE, 0xFFFF9DAE, 0xFF82AEAE, 0xFF92AEAE, 0xFF9DAEAE, 0xFFAEAEAE, 0xFFBEAEAE, 0xFFCEAEAE, 0xFFE4AEAE, 0xFFFFAEAE,
     0xFF82BEAE, 0xFF92BEAE, 0xFF9DBEAE, 0xFFAEBEAE, 0xFFBEBEAE, 0xFFCEBEAE, 0xFFE4BEAE, 0xFFFFBEAE, 0xFF82CEAE, 0xFF92CEAE, 0xFF9DCEAE, 0xFFAECEAE, 0xFFBECEAE, 0xFFCECEAE, 0xFFE4CEAE, 0xFFFFCEAE,
     0xFF82E4AE, 0xFF92E4AE, 0xFF9DE4AE, 0xFFAEE4AE, 0xFFBEE4AE, 0xFFCEE4AE, 0xFFE4E4AE, 0xFFFFE4AE, 0xFF82FFAE, 0xFF92FFAE, 0xFF9DFFAE, 0xFFAEFFAE, 0xFFBEFFAE, 0xFFCEFFAE, 0xFFE4FFAE, 0xFFFFFFAE,
     0xFF8282BE, 0xFF9282BE, 0xFF9D82BE, 0xFFAE82BE, 0xFFBE82BE, 0xFFCE82BE, 0xFFE482BE, 0xFFFF82BE, 0xFF8292BE, 0xFF9292BE, 0xFF9D92BE, 0xFFAE92BE, 0xFFBE92BE, 0xFFCE92BE, 0xFFE492BE, 0xFFFF92BE,
     0xFF829DBE, 0xFF929DBE, 0xFF9D9DBE, 0xFFAE9DBE, 0xFFBE9DBE, 0xFFCE9DBE, 0xFFE49DBE, 0xFFFF9DBE, 0xFF82AEBE, 0xFF92AEBE, 0xFF9DAEBE, 0xFFAEAEBE, 0xFFBEAEBE, 0xFFCEAEBE, 0xFFE4AEBE, 0xFFFFAEBE,
     0xFF82BEBE, 0xFF92BEBE, 0xFF9DBEBE, 0xFFAEBEBE, 0xFFBEBEBE, 0xFFCEBEBE, 0xFFE4BEBE, 0xFFFFBEBE, 0xFF82CEBE, 0xFF92CEBE, 0xFF9DCEBE, 0xFFAECEBE, 0xFFBECEBE, 0xFFCECEBE, 0xFFE4CEBE, 0xFFFFCEBE,
     0xFF82E4BE, 0xFF92E4BE, 0xFF9DE4BE, 0xFFAEE4BE, 0xFFBEE4BE, 0xFFCEE4BE, 0xFFE4E4BE, 0xFFFFE4BE, 0xFF82FFBE, 0xFF92FFBE, 0xFF9DFFBE, 0xFFAEFFBE, 0xFFBEFFBE, 0xFFCEFFBE, 0xFFE4FFBE, 0xFFFFFFBE,
     0xFF8282CE, 0xFF9282CE, 0xFF9D82CE, 0xFFAE82CE, 0xFFBE82CE, 0xFFCE82CE, 0xFFE482CE, 0xFFFF82CE, 0xFF8292CE, 0xFF9292CE, 0xFF9D92CE, 0xFFAE92CE, 0xFFBE92CE, 0xFFCE92CE, 0xFFE492CE, 0xFFFF92CE,
     0xFF829DCE, 0xFF929DCE, 0xFF9D9DCE, 0xFFAE9DCE, 0xFFBE9DCE, 0xFFCE9DCE, 0xFFE49DCE, 0xFFFF9DCE, 0xFF82AECE, 0xFF92AECE, 0xFF9DAECE, 0xFFAEAECE, 0xFFBEAECE, 0xFFCEAECE, 0xFFE4AECE, 0xFFFFAECE,
     0xFF82BECE, 0xFF92BECE, 0xFF9DBECE, 0xFFAEBECE, 0xFFBEBECE, 0xFFCEBECE, 0xFFE4BECE, 0xFFFFBECE, 0xFF82CECE, 0xFF92CECE, 0xFF9DCECE, 0xFFAECECE, 0xFFBECECE, 0xFFCECECE, 0xFFE4CECE, 0xFFFFCECE,
     0xFF82E4CE, 0xFF92E4CE, 0xFF9DE4CE, 0xFFAEE4CE, 0xFFBEE4CE, 0xFFCEE4CE, 0xFFE4E4CE, 0xFFFFE4CE, 0xFF82FFCE, 0xFF92FFCE, 0xFF9DFFCE, 0xFFAEFFCE, 0xFFBEFFCE, 0xFFCEFFCE, 0xFFE4FFCE, 0xFFFFFFCE,
     0xFF8282E4, 0xFF9282E4, 0xFF9D82E4, 0xFFAE82E4, 0xFFBE82E4, 0xFFCE82E4, 0xFFE482E4, 0xFFFF82E4, 0xFF8292E4, 0xFF9292E4, 0xFF9D92E4, 0xFFAE92E4, 0xFFBE92E4, 0xFFCE92E4, 0xFFE492E4, 0xFFFF92E4,
     0xFF829DE4, 0xFF929DE4, 0xFF9D9DE4, 0xFFAE9DE4, 0xFFBE9DE4, 0xFFCE9DE4, 0xFFE49DE4, 0xFFFF9DE4, 0xFF82AEE4, 0xFF92AEE4, 0xFF9DAEE4, 0xFFAEAEE4, 0xFFBEAEE4, 0xFFCEAEE4, 0xFFE4AEE4, 0xFFFFAEE4,
     0xFF82BEE4, 0xFF92BEE4, 0xFF9DBEE4, 0xFFAEBEE4, 0xFFBEBEE4, 0xFFCEBEE4, 0xFFE4BEE4, 0xFFFFBEE4, 0xFF82CEE4, 0xFF92CEE4, 0xFF9DCEE4, 0xFFAECEE4, 0xFFBECEE4, 0xFFCECEE4, 0xFFE4CEE4, 0xFFFFCEE4,
     0xFF82E4E4, 0xFF92E4E4, 0xFF9DE4E4, 0xFFAEE4E4, 0xFFBEE4E4, 0xFFCEE4E4, 0xFFE4E4E4, 0xFFFFE4E4, 0xFF82FFE4, 0xFF92FFE4, 0xFF9DFFE4, 0xFFAEFFE4, 0xFFBEFFE4, 0xFFCEFFE4, 0xFFE4FFE4, 0xFFFFFFE4,
     0xFF8282FF, 0xFF9282FF, 0xFF9D82FF, 0xFFAE82FF, 0xFFBE82FF, 0xFFCE82FF, 0xFFE482FF, 0xFFFF82FF, 0xFF8292FF, 0xFF9292FF, 0xFF9D92FF, 0xFFAE92FF, 0xFFBE92FF, 0xFFCE92FF, 0xFFE492FF, 0xFFFF92FF,
     0xFF829DFF, 0xFF929DFF, 0xFF9D9DFF, 0xFFAE9DFF, 0xFFBE9DFF, 0xFFCE9DFF, 0xFFE49DFF, 0xFFFF9DFF, 0xFF82AEFF, 0xFF92AEFF, 0xFF9DAEFF, 0xFFAEAEFF, 0xFFBEAEFF, 0xFFCEAEFF, 0xFFE4AEFF, 0xFFFFAEFF,
     0xFF82BEFF, 0xFF92BEFF, 0xFF9DBEFF, 0xFFAEBEFF, 0xFFBEBEFF, 0xFFCEBEFF, 0xFFE4BEFF, 0xFFFFBEFF, 0xFF82CEFF, 0xFF92CEFF, 0xFF9DCEFF, 0xFFAECEFF, 0xFFBECEFF, 0xFFCECEFF, 0xFFE4CEFF, 0xFFFFCEFF,
     0xFF82E4FF, 0xFF92E4FF, 0xFF9DE4FF, 0xFFAEE4FF, 0xFFBEE4FF, 0xFFCEE4FF, 0xFFE4E4FF, 0xFFFFE4FF, 0xFF82FFFF, 0xFF92FFFF, 0xFF9DFFFF, 0xFFAEFFFF, 0xFFBEFFFF, 0xFFCEFFFF, 0xFFE4FFFF, 0xFFFFFFFF]"

definition genesis_dac_inverse8 :: "nat list" where
  "genesis_dac_inverse8 =
    [0, 0, 0, 0, 0, 0, 0, 0, 0, 0, 0, 0, 0, 0, 0, 0, 0, 0, 0, 0, 0, 0, 0, 0, 0, 1, 1, 1, 1, 1, 1, 1,
     1, 1, 1, 1, 1, 1, 1, 1, 1, 1, 1, 1, 1, 1, 1, 1, 1, 1, 1, 1, 1, 1, 1, 1, 1, 1, 1, 1, 1, 1, 1, 1,
     1, 1, 1, 1, 1, 2, 2, 2, 2, 2, 2, 2, 2, 2, 2, 2, 2, 2, 2, 2, 2, 2, 2, 2, 2, 2, 2, 2, 2, 2, 2, 2,
     2, 2, 2, 2, 2, 2, 2, 2, 3, 3, 3, 3, 3, 3, 3, 3, 3, 3, 3, 3, 3, 3, 3, 3, 3, 3, 3, 3, 3, 3, 3, 3,
     3, 3, 3, 3, 3, 4, 4, 4, 4, 4, 4, 4, 4, 4, 4, 4, 4, 4, 4, 4, 4, 4, 4, 4, 4, 4, 4, 4, 4, 4, 4, 4,
     4, 5, 5, 5, 5, 5, 5, 5, 5, 5, 5, 5, 5, 5, 5, 5, 5, 5, 5, 5, 5, 5, 5, 5, 5, 5, 5, 5, 5, 5, 5, 6,
     6, 6, 6, 6, 6, 6, 6, 6, 6, 6, 6, 6, 6, 6, 6, 6, 6, 6, 6, 6, 6, 6, 6, 6, 6, 6, 6, 6, 6, 6, 6, 6,
     6, 6, 6, 6, 6, 6, 6, 7, 7, 7, 7, 7, 7, 7, 7, 7, 7, 7, 7, 7, 7, 7, 7, 7, 7, 7, 7, 7, 7, 7, 7, 7]"

definition genesis_dac_colors :: "int list list" where
  "genesis_dac_colors = [dac_colors_normal, dac_colors_shadow, dac_colors_highlight]"

definition dac_index :: "u16 \<Rightarrow> nat" where
  "dac_index c = unat ((drop_bit 1 c AND 7) OR (drop_bit 2 c AND 0x38) OR (drop_bit 3 c AND 0x1C0))"

definition genesis_dac_cram_to_argb :: "u16 \<Rightarrow> int \<Rightarrow> u32" where
  "genesis_dac_cram_to_argb c level =
    (let shade = (if level = 1 then 1 else if level = 2 then 2 else 0) in word_of_int (genesis_dac_colors ! shade ! dac_index c))"

section \<open>The tables are the ladder\<close>

text \<open>Every colour of three channels of a ladder, in the order of the 9-bit index.\<close>

definition ladder_table :: "int list \<Rightarrow> int list" where
  "ladder_table l = concat (map (\<lambda>b. concat (map (\<lambda>g. map (\<lambda>r. 0xFF000000 + r * 65536 + g * 256 + b) l) l)) l)"

lemma tables_ladder:
  "dac_colors_normal = ladder_table dac_normal"
  "dac_colors_shadow = ladder_table dac_shadow"
  "dac_colors_highlight = ladder_table dac_highlight"
  by code_simp+

lemma nth_concat_blocks:
  assumes "\<And>x. x \<in> set xs \<Longrightarrow> length (f x) = m" "i < length xs" "j < m"
  shows "concat (map f xs) ! (i * m + j) = f (xs ! i) ! j"
  using assms
proof (induction xs arbitrary: i)
  case (Cons x xs)
  show ?case
  proof (cases i)
    case 0
    then show ?thesis using Cons.prems by (simp add: nth_append)
  next
    case (Suc k)
    then have "i * m + j = length (f x) + (k * m + j)" using Cons.prems(1) by simp
    then have "concat (map f (x # xs)) ! (i * m + j) = concat (map f xs) ! (k * m + j)" by (simp only: concat.simps list.map nth_append_length_plus)
    then show ?thesis using Cons Suc by simp
  qed
qed simp

lemma ladder_table_nth:
  assumes "length l = 8" "r < 8" "g < 8" "b < 8"
  shows "ladder_table l ! (b * 64 + (g * 8 + r)) = 0xFF000000 + l ! r * 65536 + l ! g * 256 + l ! b"
proof -
  have len: "length (concat (map (\<lambda>g. map (\<lambda>r. 0xFF000000 + r * 65536 + g * 256 + b) l) l)) = 64" for b :: int
    using assms(1) by (simp add: length_concat comp_def sum_list_triv)
  have "ladder_table l ! (b * 64 + (g * 8 + r)) =
      concat (map (\<lambda>g. map (\<lambda>r. 0xFF000000 + r * 65536 + g * 256 + l ! b) l) l) ! (g * 8 + r)"
    unfolding ladder_table_def using assms by (subst nth_concat_blocks) (auto simp: len)
  also have "\<dots> = map (\<lambda>r. 0xFF000000 + r * 65536 + l ! g * 256 + l ! b) l ! r"
    using assms by (subst nth_concat_blocks) auto
  finally show ?thesis using assms by simp
qed

definition channel :: "nat \<Rightarrow> u16 \<Rightarrow> nat" where
  "channel k c = unat (drop_bit k c AND 7)"

lemma channel_less: "channel k c < 8"
proof -
  have "drop_bit k c AND 7 = take_bit 3 (drop_bit k c)" by (simp add: take_bit_eq_mask mask_eq_exp_minus_1)
  then show ?thesis
    using take_bit_nat_less_exp [of 3 "unat (drop_bit k c)"] by (simp add: channel_def unsigned_take_bit_eq)
qed

lemma dac_index_channels: "dac_index c = channel 9 c * 64 + (channel 5 c * 8 + channel 1 c)"
proof -
  let ?b = "drop_bit 9 c AND 7" and ?g = "drop_bit 5 c AND 7" and ?r = "drop_bit 1 c AND 7"
  have m: "(7 :: u16) = mask 3" "(0x38 :: u16) = push_bit 3 (mask 3)" "(0x1C0 :: u16) = push_bit 6 (mask 3)"
    by (simp_all add: mask_eq_exp_minus_1)
  have "drop_bit 2 c AND 0x38 = push_bit 3 ?g" "drop_bit 3 c AND 0x1C0 = push_bit 6 ?b"
    unfolding m by (rule bit_word_eqI; auto simp: bit_simps)+
  then have "dac_index c = unat (?r OR push_bit 3 ?g OR push_bit 6 ?b)"
    by (simp add: dac_index_def)
  also have "push_bit 3 ?g AND push_bit 6 ?b = 0" "?r AND (push_bit 3 ?g OR push_bit 6 ?b) = 0"
    unfolding m by (rule bit_word_eqI; auto simp: bit_simps)+
  then have "?r OR push_bit 3 ?g OR push_bit 6 ?b = ?r + (push_bit 3 ?g + push_bit 6 ?b)"
    by (simp add: disjunctive_add_eq_or)
  also have "\<dots> = of_nat (channel 9 c * 64 + (channel 5 c * 8 + channel 1 c))"
    by (simp add: channel_def push_bit_eq_mult)
  also have "unat (of_nat (channel 9 c * 64 + (channel 5 c * 8 + channel 1 c)) :: u16) = channel 9 c * 64 + (channel 5 c * 8 + channel 1 c)"
    using channel_less [of 9 c] channel_less [of 5 c] channel_less [of 1 c] by (simp only: unsigned_of_nat) (simp add: take_bit_nat_eq_self_iff)
  finally show ?thesis .
qed

lemma ladder_lengths: "length dac_normal = 8" "length dac_shadow = 8" "length dac_highlight = 8"
  by (simp_all add: dac_normal_def dac_shadow_def dac_highlight_def)

lemma cram_to_argb_ladder:
  "genesis_dac_cram_to_argb c level = word_of_int (0xFF000000 + genesis_dac_level (channel 1 c) level * 65536 +
    genesis_dac_level (channel 5 c) level * 256 + genesis_dac_level (channel 9 c) level)"
  unfolding genesis_dac_cram_to_argb_def genesis_dac_colors_def dac_index_channels tables_ladder genesis_dac_level_def Let_def
  using channel_less [of 9 c] channel_less [of 5 c] channel_less [of 1 c]
  by (simp add: ladder_table_nth ladder_lengths)

text \<open>The search for the nearest channel, in integers.\<close>

fun nearest_int :: "int \<Rightarrow> int list \<Rightarrow> nat \<Rightarrow> int \<Rightarrow> nat \<Rightarrow> nat" where
  "nearest_int v [] i bd best = best"
| "nearest_int v (n # ns) i bd best =
    (if \<bar>v - n\<bar> < bd then nearest_int v ns (i + 1) \<bar>v - n\<bar> i else nearest_int v ns (i + 1) bd best)"

lemma word_of_int_less: "0 \<le> a \<Longrightarrow> a < 2 ^ 32 \<Longrightarrow> 0 \<le> b \<Longrightarrow> b < 2 ^ 32 \<Longrightarrow> (word_of_int a :: u32) < word_of_int b \<longleftrightarrow> a < b"
  by (simp add: word_less_def uint_word_of_int take_bit_int_eq_self)

lemma nearest_step_int:
  assumes "0 \<le> v" "v < 256" "0 \<le> dac_normal ! i" "dac_normal ! i < 256" "0 \<le> bd" "bd \<le> 256"
  shows "nearest_step (word_of_int v) i (word_of_int bd, best) =
    (if \<bar>v - dac_normal ! i\<bar> < bd then (word_of_int \<bar>v - dac_normal ! i\<bar>, i) else (word_of_int bd, best))"
proof -
  let ?n = "dac_normal ! i"
  have "(if (word_of_int v :: u32) > word_of_int ?n then word_of_int v - word_of_int ?n else word_of_int ?n - word_of_int v)
      = (word_of_int \<bar>v - ?n\<bar> :: u32)"
  proof (cases "?n < v")
    case True
    then have "(word_of_int ?n :: u32) < word_of_int v" using assms by (subst word_of_int_less) auto
    then show ?thesis using True by (simp only: if_True abs_of_nonneg wi_hom_syms)
  next
    case False
    then have "\<not> (word_of_int ?n :: u32) < word_of_int v" using assms by (subst word_of_int_less) auto
    then show ?thesis using False by (simp only: if_False wi_hom_syms) simp
  qed
  moreover have "(word_of_int \<bar>v - ?n\<bar> :: u32) < word_of_int bd \<longleftrightarrow> \<bar>v - ?n\<bar> < bd"
    using assms by (intro word_of_int_less) auto
  ultimately show ?thesis by (simp add: nearest_step_def Let_def)
qed

lemma fold_nearest_int:
  assumes "0 \<le> v" "v < 256" "\<forall>j < 8. 0 \<le> dac_normal ! j \<and> dac_normal ! j < 256" "0 \<le> bd" "bd \<le> 256" "i + k = 8"
  shows "snd (fold (nearest_step (word_of_int v)) [i..<8] (word_of_int bd, best)) = nearest_int v (drop i dac_normal) i bd best"
  using assms(4-)
proof (induction k arbitrary: i bd best)
  case (Suc k)
  then have i: "i < 8" by simp
  have "drop i dac_normal = dac_normal ! i # drop (Suc i) dac_normal"
    using i by (simp add: Cons_nth_drop_Suc ladder_lengths)
  moreover have "nearest_step (word_of_int v) i (word_of_int bd, best) =
    (if \<bar>v - dac_normal ! i\<bar> < bd then (word_of_int \<bar>v - dac_normal ! i\<bar>, i) else (word_of_int bd, best))"
    using assms(1-3) i Suc.prems by (intro nearest_step_int) auto
  ultimately show ?case
    using i Suc.prems Suc.IH by (simp add: upt_conv_Cons)
qed (simp add: ladder_lengths)

lemma nearest_normal_int:
  assumes "0 \<le> v" "v < 256"
  shows "genesis_dac_nearest_normal_idx (word_of_int v) = nearest_int v dac_normal 0 256 0"
proof -
  have "list_all (\<lambda>x. 0 \<le> x \<and> x < 256) dac_normal" by (simp add: dac_normal_def)
  then have "\<forall>j < 8. 0 \<le> dac_normal ! j \<and> dac_normal ! j < 256"
    using ladder_lengths(1) by (auto simp: list_all_length)
  then show ?thesis
    using fold_nearest_int [OF assms, of 256 0 8 0] by (simp add: genesis_dac_nearest_normal_idx_def)
qed

lemma inverse_table: "map (\<lambda>v. nearest_int v dac_normal 0 256 0) [0..255] = genesis_dac_inverse8"
  by code_simp

text \<open>The first channel whose level is closest to a value.\<close>

definition first_nearest :: "int \<Rightarrow> nat \<Rightarrow> bool" where
  "first_nearest v i \<longleftrightarrow> i < 8 \<and>
    list_all (\<lambda>(j, n). \<bar>v - dac_normal ! i\<bar> \<le> \<bar>v - n\<bar> \<and> (i \<le> j \<or> \<bar>v - dac_normal ! i\<bar> < \<bar>v - n\<bar>)) (zip [0..<8] dac_normal)"

lemma inverse_first_nearest: "list_all (\<lambda>(v, i). first_nearest v i) (zip [0..255] genesis_dac_inverse8)"
  by code_simp

lemma inverse_recovers: "map (\<lambda>n. genesis_dac_inverse8 ! nat n) dac_normal = [0..<8]"
  by code_simp

lemma byte_index: "unat v < length [0..255 :: int] \<and> [0..255] ! unat v = uint v" for v :: u8
proof -
  have "unat v < 2 ^ LENGTH(8)" by (rule unsigned_less)
  then have v: "unat v < 256" by simp
  have l: "length [0..255 :: int] = 256" by simp
  have "0 + int (unat v) \<le> 255" using v by linarith
  then have "[0..255 :: int] ! unat v = int (unat v)" by (subst nth_upto) simp_all
  with v l show ?thesis by (simp only: uint_nat)
qed

lemma inverse8_nearest: "genesis_dac_inverse8 ! unat v = nearest_int (uint v) dac_normal 0 256 0" for v :: u8
  using byte_index [of v] unfolding inverse_table [symmetric] by (simp only: nth_map)

text \<open>
  C32: the colour tables are exact. A palette word is shown as the colour whose channels are the
  ladder levels of its three 3-bit channels, at every shading level and whatever its unused bits are;
  the inverse table gives for every byte the channel that the search over the ladder finds, which
  is the first one closest to it; and it recovers the channel of every colour shown at normal level.
\<close>

theorem dac_tables_exact:
  fixes c :: u16 and v :: u8
  shows "genesis_dac_cram_to_argb c level = word_of_int (0xFF000000 + genesis_dac_level (channel 1 c) level * 65536 +
      genesis_dac_level (channel 5 c) level * 256 + genesis_dac_level (channel 9 c) level)
    \<and> genesis_dac_inverse8 ! unat v = genesis_dac_nearest_normal_idx (ucast v)
    \<and> first_nearest (uint v) (genesis_dac_inverse8 ! unat v)
    \<and> genesis_dac_inverse8 ! nat (genesis_dac_level (channel k c) 0) = channel k c"
proof (intro conjI)
  show "genesis_dac_inverse8 ! unat v = genesis_dac_nearest_normal_idx (ucast v)"
    using uint_bounded [of v] nearest_normal_int [of "uint v"] by (simp add: inverse8_nearest)
  have "length genesis_dac_inverse8 = 256" by (simp flip: inverse_table)
  then have "zip [0..255] genesis_dac_inverse8 ! unat v = (uint v, genesis_dac_inverse8 ! unat v)"
    "unat v < length (zip [0..255 :: int] genesis_dac_inverse8)"
    using byte_index [of v] by simp_all
  then show "first_nearest (uint v) (genesis_dac_inverse8 ! unat v)"
    using inverse_first_nearest by (auto simp: list_all_length)
  have "map (\<lambda>n. genesis_dac_inverse8 ! nat n) dac_normal ! channel k c = channel k c"
    unfolding inverse_recovers using channel_less [of k c] by simp
  then show "genesis_dac_inverse8 ! nat (genesis_dac_level (channel k c) 0) = channel k c"
    using channel_less [of k c] by (simp add: genesis_dac_level_def ladder_lengths)
qed (rule cram_to_argb_ladder)

end
