(* ===== verification/Vdp_Render.thy ===== *)
theory Vdp_Render
  imports Genesis_Vdp Vdp_Lanes Vdp_Dac
begin

text \<open>
  The scanline renderer of \<^verbatim>\<open>runner/video/genesis_vdp.c\<close>: sprite evaluation, plane fetch,
  composition, the host's presentation options, and the captured rows that are composed later. The
  build selects a scalar or a batched implementation (\<^verbatim>\<open>GENESIS_BATCHED_PLANES\<close>,
  \<^verbatim>\<open>GENESIS_NATIVE_COMPOSE\<close>, \<^verbatim>\<open>GENESIS_NATIVE_TILE_ROWS\<close>) for a host of either byte order;
  these choices are the record \<open>render_cfg\<close>. Columns and rows of the output are C ints; a row is a
  function from the column to a byte. The recorder of raster jobs
  (\<^verbatim>\<open>genesis_raster_jobs.c\<close>) is taken as not capturing.
\<close>

section \<open>Presentation state\<close>

definition GVDP_MAX_WIDTH :: int where "GVDP_MAX_WIDTH = 512"
definition GVDP_MAX_HEIGHT :: int where "GVDP_MAX_HEIGHT = 240"
definition GVDP_PALETTE_SHADOW :: u8 where "GVDP_PALETTE_SHADOW = 64"
definition GVDP_PALETTE_HIGHLIGHT :: u8 where "GVDP_PALETTE_HIGHLIGHT = 128"
definition GVDP_WS_BAR_INDEX :: u8 where "GVDP_WS_BAR_INDEX = 192"
definition GVDP_HOST_PALETTE_BASE :: u8 where "GVDP_HOST_PALETTE_BASE = 193"
definition GVDP_HOST_PALETTE_SIZE :: nat where "GVDP_HOST_PALETTE_SIZE = 63"
definition GVDP_EXT_LINES :: nat where "GVDP_EXT_LINES = 3"

type_synonym pixels = "int \<Rightarrow> u8"

text \<open>
  The file-static options. A host sprite provider sees the VDP, the output row, its width and the
  column of screen column 0, and redraws the index, opacity and priority arrays of the sprite layer.
  A pattern bank is its bytes with their number, and its optional palette lines.
\<close>

record present =
  s_unlimited_sprites :: bool
  s_host_sprites :: "(GVDP \<Rightarrow> int \<Rightarrow> int \<Rightarrow> int \<Rightarrow> pixels \<times> pixels \<times> pixels \<Rightarrow> pixels \<times> pixels \<times> pixels) option"
  s_host_palette :: "nat \<Rightarrow> u32"
  s_host_palette_enabled :: bool
  s_ext_tiles :: "(nat \<Rightarrow> u8) option"
  s_ext_top :: "nat \<Rightarrow> u16"
  s_ext_bottom :: "nat \<Rightarrow> u16"
  s_ext_split :: int
  s_sprite_patterns :: "nat \<Rightarrow> (nat \<Rightarrow> u8) option"
  s_sprite_pattern_lines :: "nat \<Rightarrow> (nat \<Rightarrow> u8) option"
  s_sprite_pattern_bytes :: "nat \<Rightarrow> nat"
  s_ws_extra :: int
  s_ws_canvas_w :: int
  s_ws_bar_black :: bool
  s_ws_bgdiag :: bool

definition gvdp_set_unlimited_sprites :: "bool \<Rightarrow> present \<Rightarrow> present" where
  "gvdp_set_unlimited_sprites enabled p = p\<lparr>s_unlimited_sprites := enabled\<rparr>"

definition gvdp_set_host_palette :: "(nat \<Rightarrow> u32) option \<Rightarrow> nat \<Rightarrow> present \<Rightarrow> bool \<times> present" where
  "gvdp_set_host_palette argb count p =
    (if count > GVDP_HOST_PALETTE_SIZE then (False, p)
     else (True, p\<lparr>s_host_palette := (\<lambda>i. if i < GVDP_HOST_PALETTE_SIZE
                     then case argb of Some c \<Rightarrow> if i < count then c i else 0xFF000000 | None \<Rightarrow> 0xFF000000
                     else s_host_palette p i),
                   s_host_palette_enabled := argb \<noteq> None \<and> count \<noteq> 0\<rparr>))"

definition gvdp_host_palette :: "present \<Rightarrow> (nat \<Rightarrow> u32) option" where
  "gvdp_host_palette p = (if s_host_palette_enabled p then Some (s_host_palette p) else None)"

definition gvdp_set_ext_tiles :: "(nat \<Rightarrow> u8) option \<Rightarrow> present \<Rightarrow> present" where
  "gvdp_set_ext_tiles tile_lines p = p\<lparr>s_ext_tiles := tile_lines\<rparr>"

definition gvdp_set_ext_colors :: "(nat \<Rightarrow> u16) \<Rightarrow> (nat \<Rightarrow> u16) option \<Rightarrow> int \<Rightarrow> present \<Rightarrow> present" where
  "gvdp_set_ext_colors upper lower split_row p =
    p\<lparr>s_ext_top := upper, s_ext_bottom := (case lower of Some b \<Rightarrow> b | None \<Rightarrow> upper), s_ext_split := split_row\<rparr>"

definition gvdp_ext_active :: "present \<Rightarrow> bool" where
  "gvdp_ext_active p = (s_ext_tiles p \<noteq> None)"

definition gvdp_ext_line :: "present \<Rightarrow> nat \<Rightarrow> nat" where
  "gvdp_ext_line p tile =
    (let line = (case s_ext_tiles p of Some t \<Rightarrow> unat (t (tile mod 0x800)) | None \<Rightarrow> 0)
     in if line \<le> GVDP_EXT_LINES then line else 0)"

definition gvdp_ext_color :: "present \<Rightarrow> int \<Rightarrow> int \<Rightarrow> int \<Rightarrow> u16" where
  "gvdp_ext_color p row line nib =
    (let tab = (if row \<ge> s_ext_split p then s_ext_bottom p else s_ext_top p)
     in if line < 1 \<or> line > int GVDP_EXT_LINES \<or> nib < 0 \<or> nib \<ge> 16 then 0 else tab (nat ((line - 1) * 16 + nib)))"

definition gvdp_set_sprite_patterns_bank ::
  "nat \<Rightarrow> (nat \<Rightarrow> u8) option \<Rightarrow> nat \<Rightarrow> (nat \<Rightarrow> u8) option \<Rightarrow> present \<Rightarrow> bool \<times> present" where
  "gvdp_set_sprite_patterns_bank bank patterns bytes tile_lines p =
    (if bank \<ge> 2 \<or> (patterns \<noteq> None \<and> (bytes = 0 \<or> bytes > 65536 \<or> bytes mod 32 \<noteq> 0)) then (False, p)
     else (True, p\<lparr>s_sprite_patterns := (s_sprite_patterns p)(bank := patterns),
                   s_sprite_pattern_bytes := (s_sprite_pattern_bytes p)(bank := if patterns \<noteq> None then bytes else 0),
                   s_sprite_pattern_lines := (s_sprite_pattern_lines p)(bank := if patterns \<noteq> None then tile_lines else None)\<rparr>))"

definition sprite_bank :: "u8 \<Rightarrow> nat" where
  "sprite_bank flags = of_bool (bit flags 6)"

definition gvdp_sprite_patterns :: "present \<Rightarrow> u8 \<Rightarrow> ((nat \<Rightarrow> u8) \<times> nat) option" where
  "gvdp_sprite_patterns p flags =
    (let bank = sprite_bank flags
     in if bit flags 7 then map_option (\<lambda>pat. (pat, s_sprite_pattern_bytes p bank)) (s_sprite_patterns p bank) else None)"

definition bank_line :: "present \<Rightarrow> nat \<Rightarrow> nat \<Rightarrow> u8" where
  "bank_line p bank tile =
    (case s_sprite_pattern_lines p bank of
       Some lines \<Rightarrow> if tile < s_sprite_pattern_bytes p bank div 32 then lines tile else 0 | None \<Rightarrow> 0)"

definition gvdp_sprite_pattern_line :: "present \<Rightarrow> u8 \<Rightarrow> nat \<Rightarrow> nat" where
  "gvdp_sprite_pattern_line p flags tile =
    (let bank = sprite_bank flags
     in if \<not> bit flags 7 \<or> s_sprite_patterns p bank = None then gvdp_ext_line p tile
        else let line = unat (bank_line p bank tile) in if line \<le> GVDP_EXT_LINES then line else 0)"

definition gvdp_sprite_palette_line :: "present \<Rightarrow> u8 \<Rightarrow> nat \<Rightarrow> nat \<Rightarrow> nat" where
  "gvdp_sprite_palette_line p flags tile source_line =
    (let bank = sprite_bank flags;
         line = (if flags AND 0xA0 \<noteq> 0 \<and> s_sprite_patterns p bank \<noteq> None then bank_line p bank tile
                 else case s_ext_tiles p of Some t \<Rightarrow> t (tile mod 0x800) | None \<Rightarrow> 0)
     in if source_line \<noteq> 0 \<and> \<not> bit line 7 then 0
        else let line = unat (line AND NOT 0x80) in if line \<le> GVDP_EXT_LINES then line else 0)"

definition gvdp_set_host_sprites ::
  "(GVDP \<Rightarrow> int \<Rightarrow> int \<Rightarrow> int \<Rightarrow> pixels \<times> pixels \<times> pixels \<Rightarrow> pixels \<times> pixels \<times> pixels) option \<Rightarrow> present \<Rightarrow> present" where
  "gvdp_set_host_sprites draw p =
    (let p = p\<lparr>s_host_sprites := draw\<rparr>
     in if draw = None then snd (gvdp_set_host_palette None 0 p) else p)"

definition clamp_ws_extra :: "present \<Rightarrow> int \<Rightarrow> int" where
  "clamp_ws_extra p w =
    (let e = s_ws_extra p; max_e = (GVDP_MAX_WIDTH - w) div 2;
         e = (if e < 0 then 0 else e)
     in if e > max_e then max_e else e)"

definition gvdp_set_ws_extra :: "int \<Rightarrow> present \<Rightarrow> present" where
  "gvdp_set_ws_extra extra_px p = p\<lparr>s_ws_extra := extra_px\<rparr>"

definition gvdp_set_ws_canvas :: "int \<Rightarrow> present \<Rightarrow> present" where
  "gvdp_set_ws_canvas canvas_w p =
    (let c = (if canvas_w < 0 then 0 else canvas_w)
     in p\<lparr>s_ws_canvas_w := if c > GVDP_MAX_WIDTH then GVDP_MAX_WIDTH else c\<rparr>)"

definition gvdp_set_ws_bar_black :: "bool \<Rightarrow> present \<Rightarrow> present" where
  "gvdp_set_ws_bar_black black p = p\<lparr>s_ws_bar_black := black\<rparr>"

definition gvdp_set_bgdiag :: "bool \<Rightarrow> present \<Rightarrow> present" where
  "gvdp_set_bgdiag on p = p\<lparr>s_ws_bgdiag := on\<rparr>"

definition gvdp_active_width :: "present \<Rightarrow> GVDP \<Rightarrow> int" where
  "gvdp_active_width p v =
    (let w = int (gvdp_screen_width v); content = w + 2 * clamp_ws_extra p w
     in if s_ws_canvas_w p > content then s_ws_canvas_w p else content)"

section \<open>Sprites\<close>

text \<open>
  The sprite layer of a row: the file-static arrays, the array of first owners, and the two sticky
  status flags of the VDP while the row is evaluated.
\<close>

record sprite_layer =
  s_spr_idx :: pixels
  s_spr_op :: pixels
  s_spr_hi :: pixels
  s_spr_shadow_op :: pixels
  s_spr_hilite_op :: pixels
  spr_drawn :: "int \<Rightarrow> bool"
  spr_collision :: bool
  spr_overflow :: bool

definition MODE4_SHI :: "GVDP \<Rightarrow> bool" where "MODE4_SHI v = bit (reg v 0x0C) 3"

definition memset :: "int \<Rightarrow> int \<Rightarrow> 'a \<Rightarrow> (int \<Rightarrow> 'a) \<Rightarrow> int \<Rightarrow> 'a" where
  "memset x n val buf = (\<lambda>i. if x \<le> i \<and> i < x + n then val else buf i)"

text \<open>One on-line sprite: the decoded attributes and the row of cells the line crosses.\<close>

record sprite_piece =
  p_size :: u8
  p_patterns :: "((nat \<Rightarrow> u8) \<times> nat) option"
  p_hsz :: nat
  p_vsz :: nat
  p_tile :: nat
  p_pal :: nat
  p_pri :: bool
  p_hf :: bool
  p_celly :: nat
  p_fy :: nat
  p_tile_bytes :: nat
  p_screen_x :: int

definition sprite_byte :: "GVDP \<Rightarrow> sprite_piece \<Rightarrow> nat \<Rightarrow> u8" where
  "sprite_byte v q a =
    (case p_patterns q of Some (pat, bytes) \<Rightarrow> if a < bytes then pat a else 0 | None \<Rightarrow> vram v (of_nat a))"

definition sprite_plot :: "bool \<Rightarrow> nat \<Rightarrow> sprite_piece \<Rightarrow> u8 \<Rightarrow> int \<Rightarrow> sprite_layer \<Rightarrow> sprite_layer" where
  "sprite_plot sh_mode ext q nib sx s =
    (if spr_drawn s sx then s\<lparr>spr_collision := True\<rparr>
     else if ext = 0 \<and> sh_mode \<and> p_pal q = 3 \<and> nib = 14 then s\<lparr>s_spr_hilite_op := (s_spr_hilite_op s)(sx := 1)\<rparr>
     else if ext = 0 \<and> sh_mode \<and> p_pal q = 3 \<and> nib = 15 then s\<lparr>s_spr_shadow_op := (s_spr_shadow_op s)(sx := 1)\<rparr>
     else s\<lparr>s_spr_idx := (s_spr_idx s)(sx := if ext \<noteq> 0 then GVDP_HOST_PALETTE_BASE + of_nat ((ext - 1) * 16) + nib
                                            else of_nat (p_pal q * 16) + nib),
            s_spr_op := (s_spr_op s)(sx := 1), s_spr_hi := (s_spr_hi s)(sx := of_bool (p_pri q)),
            spr_drawn := (spr_drawn s)(sx := True)\<rparr>)"

definition sprite_tile :: "sprite_piece \<Rightarrow> nat \<Rightarrow> nat" where
  "sprite_tile q cellx = (p_tile q + cellx * p_vsz q + p_celly q) mod 0x800"

text \<open>The scalar loop body, one output column.\<close>

definition sprite_column :: "present \<Rightarrow> GVDP \<Rightarrow> sprite_piece \<Rightarrow> int \<Rightarrow> nat \<Rightarrow> sprite_layer \<Rightarrow> sprite_layer" where
  "sprite_column p v q cols lx s =
    (let width = p_hsz q * 8; sx = p_screen_x q + int lx
     in if sx < 0 \<or> sx \<ge> cols then s
        else
          let ix = (if p_hf q then width - 1 - lx else lx); cellx = ix div 8; fx = ix mod 8;
              tileno = sprite_tile q cellx;
              byte = sprite_byte v q (tileno * p_tile_bytes q + p_fy q * 4 + fx div 2);
              nib = (if odd fx then byte AND 0x0F else drop_bit 4 byte)
          in if nib = 0 then s
             else sprite_plot (MODE4_SHI v) (gvdp_sprite_palette_line p (p_size q) tileno (p_pal q)) q nib sx s)"

text \<open>The batched loop body, one cell of eight columns.\<close>

definition sprite_cell_bits :: "GVDP \<Rightarrow> sprite_piece \<Rightarrow> nat \<Rightarrow> u32" where
  "sprite_cell_bits v q a = fold (\<lambda>b bits. push_bit 8 bits OR ucast (sprite_byte v q (a + b))) [0..<4] 0"

definition sprite_cell_pixel ::
  "bool \<Rightarrow> sprite_piece \<Rightarrow> int \<Rightarrow> nat \<Rightarrow> u32 \<Rightarrow> nat \<Rightarrow> nat \<Rightarrow> sprite_layer \<Rightarrow> sprite_layer" where
  "sprite_cell_pixel sh_mode q cols ext bits cell fx s =
    (let sx = p_screen_x q + int (cell * 8) + int fx
     in if sx < 0 \<or> sx \<ge> cols then s
        else let nib = row_nibble bits (fx XOR (if p_hf q then 7 else 0))
             in if nib = 0 then s else sprite_plot sh_mode ext q nib sx s)"

definition sprite_cell :: "present \<Rightarrow> GVDP \<Rightarrow> sprite_piece \<Rightarrow> int \<Rightarrow> nat \<Rightarrow> sprite_layer \<Rightarrow> sprite_layer" where
  "sprite_cell p v q cols cell s =
    (let cellx = (if p_hf q then p_hsz q - 1 - cell else cell);
         tileno = sprite_tile q cellx;
         bits = sprite_cell_bits v q (tileno * p_tile_bytes q + p_fy q * 4);
         ext = gvdp_sprite_palette_line p (p_size q) tileno (p_pal q)
     in fold (sprite_cell_pixel (MODE4_SHI v) q cols ext bits cell) [0..<8] s)"

definition sprite_draw :: "bool \<Rightarrow> present \<Rightarrow> GVDP \<Rightarrow> sprite_piece \<Rightarrow> int \<Rightarrow> sprite_layer \<Rightarrow> sprite_layer" where
  "sprite_draw batched p v q cols s =
    (if batched then fold (sprite_cell p v q cols) [0..<p_hsz q] s
     else fold (sprite_column p v q cols) [0..<p_hsz q * 8] s)"

definition sprite_piece_of :: "present \<Rightarrow> GVDP \<Rightarrow> int \<Rightarrow> int \<Rightarrow> u16 \<Rightarrow> int \<Rightarrow> sprite_piece" where
  "sprite_piece_of p v line offset e y =
    (let im2 = MODE4_IM2 v; shift = (if im2 then 4 else 3);
         sz = vram v (e + 2); hsz = unat (drop_bit 2 sz AND 3) + 1; vsz = unat (sz AND 3) + 1;
         height = int (push_bit shift vsz);
         attr = vram_read_word v (e + 4); xword = unat (vram_read_word v (e + 6) AND 0x3FF);
         iy = nat (if bit attr 12 then height - 1 - (line - y) else line - y)
     in \<lparr>p_size = sz, p_patterns = gvdp_sprite_patterns p sz, p_hsz = hsz, p_vsz = vsz,
         p_tile = unat (attr AND 0x07FF), p_pal = unat (drop_bit 13 attr AND 3), p_pri = bit attr 15, p_hf = bit attr 11,
         p_celly = drop_bit shift iy, p_fy = iy mod 2 ^ shift, p_tile_bytes = (if im2 then 64 else 32),
         p_screen_x = int xword - 128 + offset\<rparr>)"

primrec sprite_loop ::
  "bool \<Rightarrow> present \<Rightarrow> GVDP \<Rightarrow> int \<Rightarrow> int \<Rightarrow> int \<Rightarrow> nat \<Rightarrow> nat \<Rightarrow> nat \<Rightarrow> int \<Rightarrow> sprite_layer \<Rightarrow> sprite_layer" where
  "sprite_loop batched p v line cols offset 0 link on_line pixels_budget s = s"
| "sprite_loop batched p v line cols offset (Suc n) link on_line pixels_budget s =
    (let im2 = MODE4_IM2 v; max_per_line = (if MODE4_H40 v then 20 else 16);
         sat = push_bit 9 (ucast (reg v 5 AND 0x7F)) :: u16;
         e = sat + of_nat (link * 8);
         y = int (unat (vram_read_word v e AND 0x3FF)) - (if im2 then 256 else 128);
         height = int (push_bit (if im2 then 4 else 3) (unat (vram v (e + 2) AND 3) + 1));
         next = unat (vram v (e + 3) AND 0x7F)
     in if line \<ge> y \<and> line < y + height then
          (let on_line = on_line + 1
           in if on_line > max_per_line \<and> \<not> s_unlimited_sprites p then s\<lparr>spr_overflow := True\<rparr>
              else if vram_read_word v (e + 6) AND 0x3FF = 0 \<and> on_line > 1 then s
              else
                let q = sprite_piece_of p v line offset e y;
                    s = sprite_draw batched p v q cols s;
                    pixels_budget = pixels_budget - int (p_hsz q * 8)
                in if pixels_budget \<le> 0 \<and> \<not> s_unlimited_sprites p then s\<lparr>spr_overflow := True\<rparr>
                   else if next = 0 then s
                   else sprite_loop batched p v line cols offset n next on_line pixels_budget s)
        else if next = 0 then s
        else sprite_loop batched p v line cols offset n next on_line pixels_budget s)"

definition sprite_render_line ::
  "bool \<Rightarrow> present \<Rightarrow> int \<Rightarrow> int \<Rightarrow> int \<Rightarrow> GVDP \<times> sprite_layer \<Rightarrow> GVDP \<times> sprite_layer" where
  "sprite_render_line batched p line cols offset vs =
    (let (v, s) = vs;
         s = s\<lparr>s_spr_op := memset 0 cols 0 (s_spr_op s), s_spr_shadow_op := memset 0 cols 0 (s_spr_shadow_op s),
               s_spr_hilite_op := memset 0 cols 0 (s_spr_hilite_op s), spr_drawn := memset 0 cols False (spr_drawn s),
               spr_collision := sprite_collision v, spr_overflow := sprite_overflow v\<rparr>;
         s = sprite_loop batched p v line cols offset (if MODE4_H40 v then 80 else 64) 0 0 cols s
     in (v\<lparr>sprite_collision := spr_collision s, sprite_overflow := spr_overflow s\<rparr>, s))"

definition gvdp_evaluate_scanline ::
  "bool \<Rightarrow> present \<Rightarrow> int \<Rightarrow> GVDP \<times> sprite_layer \<Rightarrow> GVDP \<times> sprite_layer" where
  "gvdp_evaluate_scanline batched p line vs =
    (let v = fst vs
     in if \<not> gvdp_display_enabled v then vs
        else let w = int (gvdp_screen_width v); cols = gvdp_active_width p v
             in sprite_render_line batched p line cols ((cols - w) div 2) vs)"

section \<open>Planes\<close>

definition plane_tiles :: "u8 \<Rightarrow> nat" where
  "plane_tiles code2 = (if code2 AND 3 = 1 then 64 else if code2 AND 3 = 3 then 128 else 32)"

record PlanePixelCache =
  next_coord :: u32
  cache_attr :: u16

definition empty_cache :: PlanePixelCache where
  "empty_cache = \<lparr>next_coord = NOT 0, cache_attr = 0\<rparr>"

record plane_pixel =
  px_idx :: u8
  px_opaque :: bool
  px_hi :: bool

definition plane_coord :: "nat \<Rightarrow> nat \<Rightarrow> u32" where
  "plane_coord px py = push_bit 16 (ucast (of_nat py :: u16)) OR ucast (of_nat px :: u16)"

definition plane_entry :: "GVDP \<Rightarrow> u16 \<Rightarrow> nat \<Rightarrow> nat \<Rightarrow> nat \<Rightarrow> nat \<Rightarrow> u16" where
  "plane_entry v base wt shift px py = vram_read_word v (base + of_nat ((drop_bit shift py * wt + px div 8) * 2))"

text \<open>The pixel that a name-table entry gives, \<^verbatim>\<open>px\<close> and \<^verbatim>\<open>py\<close> inside the plane.\<close>

definition entry_pixel :: "present \<Rightarrow> GVDP \<Rightarrow> u16 \<Rightarrow> bool \<Rightarrow> nat \<Rightarrow> nat \<Rightarrow> plane_pixel" where
  "entry_pixel p v e im2 px py =
    (let fy_mask = (if im2 then 15 else 7); tile_bytes = (if im2 then 64 else 32);
         ti = unat (e AND 0x07FF);
         fx = (if bit e 11 then px mod 8 XOR 7 else px mod 8);
         fy = (if bit e 12 then (py AND fy_mask) XOR fy_mask else py AND fy_mask);
         byte = vram v (of_nat (ti * tile_bytes + fy * 4 + fx div 2));
         nib = (if odd fx then byte AND 0x0F else drop_bit 4 byte);
         ext = (if nib \<noteq> 0 \<and> e AND 0x6000 = 0 then gvdp_ext_line p ti else 0)
     in \<lparr>px_idx = (if ext \<noteq> 0 then GVDP_HOST_PALETTE_BASE + of_nat ((ext - 1) * 16) + nib
                   else ucast (drop_bit 13 e AND 3) * 16 + nib),
         px_opaque = (nib \<noteq> 0), px_hi = bit e 15\<rparr>)"

definition fetch_plane_pixel ::
  "present \<Rightarrow> GVDP \<Rightarrow> u16 \<Rightarrow> nat \<Rightarrow> nat \<Rightarrow> int \<Rightarrow> int \<Rightarrow> bool \<Rightarrow> PlanePixelCache \<Rightarrow> plane_pixel \<times> PlanePixelCache" where
  "fetch_plane_pixel p v base wt ht px0 py0 im2 cache =
    (let shift = (if im2 then 4 else 3);
         px = nat (px0 AND (int (wt * 8) - 1)); py = nat (py0 AND (int (push_bit shift ht) - 1));
         coord = plane_coord px py;
         e = (if next_coord cache = coord then cache_attr cache else plane_entry v base wt shift px py)
     in (entry_pixel p v e im2 px py,
         \<lparr>next_coord = (if px mod 8 \<noteq> 7 then coord + 1 else NOT 0), cache_attr = e\<rparr>))"

record render_cfg =
  batched_planes :: bool
  native_compose :: bool
  native_tile_rows :: bool
  little_endian :: bool

text \<open>
  \<^verbatim>\<open>fetch_plane_span\<close>: the packed bytes of a span with the private index of each pixel, zero where
  it has none. The C function writes the two rows through separate pointers; where it is given no
  second pointer, no tile has an extra line and the private row is zero and not read.
\<close>

definition span_tile :: "render_cfg \<Rightarrow> present \<Rightarrow> GVDP \<Rightarrow> u16 \<Rightarrow> nat \<Rightarrow> bool \<Rightarrow> nat \<Rightarrow> nat \<Rightarrow> (u8 \<times> u8) list" where
  "span_tile cfg p v e py im2 fx n =
    (let fy_mask = (if im2 then 15 else 7); tile_bytes = (if im2 then 64 else 32);
         fy = (if bit e 12 then (py AND fy_mask) XOR fy_mask else py AND fy_mask);
         pa = of_nat (unat (e AND 0x7ff) * tile_bytes + fy * 4) :: u16;
         bits = push_bit 24 (ucast (vram v pa)) OR push_bit 16 (ucast (vram v (pa + 1))) OR
                push_bit 8 (ucast (vram v (pa + 2))) OR ucast (vram v (pa + 3));
         attr = ucast ((drop_bit 9 e AND 0x30) OR (drop_bit 8 e AND 0x80));
         line_ext = (if e AND 0x6000 = 0 then gvdp_ext_line p (unat (e AND 0x7ff)) else 0);
         packed = (if native_tile_rows cfg
                   then let pixels = gtile_packed_row (little_endian cfg) bits attr (bit e 11)
                        in map (\<lambda>i. memory_byte (little_endian cfg) pixels (fx + i)) [0..<n]
                   else map (\<lambda>i. packed_pixel attr (row_nibble bits (fx + i XOR (if bit e 11 then 7 else 0)))) [0..<n])
     in map (\<lambda>x. let nib = x AND 15
                 in (x, if line_ext \<noteq> 0 \<and> nib \<noteq> 0 then GVDP_HOST_PALETTE_BASE + of_nat ((line_ext - 1) * 16) + nib else 0))
          packed)"

function fetch_plane_span ::
  "render_cfg \<Rightarrow> present \<Rightarrow> GVDP \<Rightarrow> u16 \<Rightarrow> nat \<Rightarrow> nat \<Rightarrow> int \<Rightarrow> int \<Rightarrow> bool \<Rightarrow> nat \<Rightarrow> (u8 \<times> u8) list" where
  "fetch_plane_span cfg p v base wt ht px0 py0 im2 count =
    (if count = 0 then []
     else
       let shift = (if im2 then 4 else 3);
           py = nat (py0 AND (int (push_bit shift ht) - 1)); px = nat (px0 AND (int (wt * 8) - 1));
           fx = px mod 8; n = min (8 - fx) count;
           e = vram_read_word v (base + of_nat (drop_bit shift py * wt * 2) + of_nat (px div 8 * 2))
       in span_tile cfg p v e py im2 fx n @
          fetch_plane_span cfg p v base wt ht (int px + int n) py0 im2 (count - n))"
  by pat_completeness auto
termination
  by (relation "measure (\<lambda>(cfg, p, v, base, wt, ht, px0, py0, im2, count). count)")
    (auto simp: Let_def intro!: diff_less_mono2)

declare fetch_plane_span.simps [simp del]

section \<open>A row\<close>

text \<open>The part of the registers and scroll tables that is constant over a row.\<close>

record row_regs =
  r_w :: int
  r_im2 :: bool
  r_wt :: nat
  r_ht :: nat
  r_win_wt :: nat
  r_base_a :: u16
  r_base_b :: u16
  r_base_w :: u16
  r_hs_a :: int
  r_hs_b :: int
  r_two_cell :: bool
  r_vs_mask :: u16
  r_window_x :: int
  r_window_right :: bool
  r_window_v_in :: bool

definition row_setup :: "present \<Rightarrow> GVDP \<Rightarrow> int \<Rightarrow> row_regs" where
  "row_setup p v line =
    (let im2 = MODE4_IM2 v; rline = (if im2 then line div 2 else line); h40 = MODE4_H40 v;
         hbase = push_bit 10 (ucast (reg v 0x0D AND 0x3F)) :: u16;
         hmode = reg v 0x0B AND 3;
         hidx = (if hmode = 0 then 0 else if hmode = 2 then rline AND NOT 7 else rline);
         hidx_b = (if s_ws_bgdiag p then 0 else hidx);
         wx = reg v 0x11; wy = reg v 0x12; window_y = int (unat (wy AND 0x1F) * 8)
     in \<lparr>r_w = int (gvdp_screen_width v), r_im2 = im2,
         r_wt = plane_tiles (reg v 0x10), r_ht = plane_tiles (drop_bit 4 (reg v 0x10)),
         r_win_wt = (if h40 then 64 else 32),
         r_base_a = push_bit 10 (ucast (reg v 2 AND 0x38)), r_base_b = push_bit 13 (ucast (reg v 4 AND 7)),
         r_base_w = push_bit 10 (ucast (reg v 3 AND (if h40 then 0x3E else 0x3F))),
         r_hs_a = int (unat (vram_read_word v (hbase + word_of_int (hidx * 4)) AND 0x3FF)),
         r_hs_b = int (unat (vram_read_word v (hbase + word_of_int (hidx_b * 4 + 2)) AND 0x3FF)),
         r_two_cell = bit (reg v 0x0B) 2, r_vs_mask = (if im2 then 0x7FF else 0x3FF),
         r_window_x = int (unat (wx AND 0x1F) * 16), r_window_right = bit wx 7,
         r_window_v_in = (if bit wy 7 then rline \<ge> window_y else rline < window_y)\<rparr>)"

definition column_scroll :: "GVDP \<Rightarrow> row_regs \<Rightarrow> int \<Rightarrow> int \<times> int" where
  "column_scroll v r x =
    (let scroll = (\<lambda>i. int (unat (vsram v i AND r_vs_mask r)))
     in if r_two_cell r then
          let xc = (if x < 0 then 0 else if x \<ge> r_w r then r_w r - 1 else x); col = nat (xc div 16 * 2)
          in (scroll (col mod GVDP_VSRAM_ENTRIES), scroll ((col + 1) mod GVDP_VSRAM_ENTRIES))
        else (scroll 0, scroll 1))"

definition in_window :: "row_regs \<Rightarrow> int \<Rightarrow> bool" where
  "in_window r x \<longleftrightarrow> 0 \<le> x \<and> x < r_w r \<and>
    ((if r_window_right r then x \<ge> r_window_x r else x < r_window_x r) \<or> r_window_v_in r)"

text \<open>The batched planes: spans that end at tile-column, scroll-column and window boundaries.\<close>

definition span_boundary :: "row_regs \<Rightarrow> int \<Rightarrow> int \<Rightarrow> int" where
  "span_boundary r extra x =
    (let b = (if x < 0 then 0 else if x \<ge> r_w r then r_w r + extra else (x div 16 + 1) * 16);
         b = (if b > r_w r + extra then r_w r + extra else b)
     in if r_window_x r > x \<and> r_window_x r < b then r_window_x r else b)"

record plane_rows =
  plane_a :: pixels
  plane_b :: pixels
  private_a :: pixels
  private_b :: pixels

definition put_span :: "int \<Rightarrow> 'a list \<Rightarrow> (int \<Rightarrow> 'a) \<Rightarrow> int \<Rightarrow> 'a" where
  "put_span x xs buf = (\<lambda>i. if x \<le> i \<and> i < x + int (length xs) then xs ! nat (i - x) else buf i)"

lemma span_boundary_progress: "x < r_w r + extra \<Longrightarrow> x < span_boundary r extra x"
  by (auto simp: span_boundary_def Let_def)

function plane_spans ::
  "render_cfg \<Rightarrow> present \<Rightarrow> GVDP \<Rightarrow> row_regs \<Rightarrow> int \<Rightarrow> int \<Rightarrow> int \<Rightarrow> int \<Rightarrow> plane_rows \<Rightarrow> plane_rows" where
  "plane_spans cfg p v r line extra offset x t =
    (if x < r_w r + extra then
       let boundary = span_boundary r extra x; n = nat (boundary - x);
           (vs_a, vs_b) = column_scroll v r x; xo = x + offset;
           sa = (if in_window r x
                 then fetch_plane_span cfg p v (r_base_w r) (r_win_wt r) (r_ht r) x line (r_im2 r) n
                 else fetch_plane_span cfg p v (r_base_a r) (r_wt r) (r_ht r) (x - r_hs_a r) (line + vs_a) (r_im2 r) n);
           sb = fetch_plane_span cfg p v (r_base_b r) (r_wt r) (r_ht r) (x - r_hs_b r) (line + vs_b) (r_im2 r) n
       in plane_spans cfg p v r line extra offset boundary
            (t\<lparr>plane_a := put_span xo (map fst sa) (plane_a t), private_a := put_span xo (map snd sa) (private_a t),
               plane_b := put_span xo (map fst sb) (plane_b t), private_b := put_span xo (map snd sb) (private_b t)\<rparr>)
     else t)"
  by pat_completeness auto
termination
  by (relation "measure (\<lambda>(cfg, p, v, r, line, extra, offset, x, t). nat (r_w r + extra - x))")
    (auto simp: span_boundary_progress)

declare plane_spans.simps [simp del]

text \<open>The scalar planes: one column through the three caches.\<close>

type_synonym caches = "PlanePixelCache \<times> PlanePixelCache \<times> PlanePixelCache"

definition scalar_planes ::
  "present \<Rightarrow> GVDP \<Rightarrow> row_regs \<Rightarrow> int \<Rightarrow> int \<Rightarrow> caches \<Rightarrow> plane_pixel \<times> plane_pixel \<times> caches" where
  "scalar_planes p v r line x cs =
    (let (cache_a, cache_b, cache_w) = cs; (vs_a, vs_b) = column_scroll v r x;
         (a, cache_a, cache_w) =
           (if in_window r x
            then let (a, c) = fetch_plane_pixel p v (r_base_w r) (r_win_wt r) (r_ht r) x line (r_im2 r) cache_w
                 in (a, cache_a, c)
            else let (a, c) = fetch_plane_pixel p v (r_base_a r) (r_wt r) (r_ht r) (x - r_hs_a r) (line + vs_a) (r_im2 r) cache_a
                 in (a, c, cache_w));
         (b, cache_b) = fetch_plane_pixel p v (r_base_b r) (r_wt r) (r_ht r) (x - r_hs_b r) (line + vs_b) (r_im2 r) cache_b
     in (a, b, cache_a, cache_b, cache_w))"

definition packed_planes :: "present \<Rightarrow> plane_rows \<Rightarrow> int \<Rightarrow> plane_pixel \<times> plane_pixel" where
  "packed_planes p t xo =
    (let pixel = (\<lambda>packed private. \<lparr>px_idx = (if gvdp_ext_active p \<and> private \<noteq> 0 then private else packed AND 0x3F),
                                     px_opaque = bit packed 6, px_hi = bit packed 7\<rparr>)
     in (pixel (plane_a t xo) (private_a t xo), pixel (plane_b t xo) (private_b t xo)))"

section \<open>Priority\<close>

definition s_layer_select :: "nat list" where
  "s_layer_select =
    [0, 2, 0, 6, 1, 2, 1, 6, 0, 2, 0, 6, 5, 5, 5, 6, 3, 3, 3, 6, 3, 3, 3, 6, 3, 3, 3, 6, 5, 5, 5, 6,
     0, 2, 0, 6, 1, 2, 1, 6, 0, 2, 0, 6, 5, 5, 5, 6, 7, 7, 7, 7, 7, 7, 7, 7, 7, 7, 7, 7, 7, 7, 7, 7]"

definition select_key :: "u8 \<Rightarrow> u8 \<Rightarrow> u8 \<Rightarrow> u8 \<Rightarrow> nat" where
  "select_key a b s_op s_hi =
    unat ((ucast (drop_bit 6 a) OR push_bit 2 (ucast (drop_bit 6 b))) OR push_bit 4 (ucast s_op OR push_bit 1 (ucast s_hi)) :: u32)"

definition select_table :: "u8 \<Rightarrow> u8 \<Rightarrow> u8 \<Rightarrow> u8 \<Rightarrow> u8 \<Rightarrow> u8 \<Rightarrow> u8 \<Rightarrow> u8 \<Rightarrow> u8" where
  "select_table a b s_op s_hi a_idx b_idx s_idx backdrop =
    (let selection = s_layer_select ! select_key a b s_op s_hi;
         colors = ((ucast backdrop OR push_bit 8 (ucast b_idx)) OR push_bit 16 (ucast a_idx)) OR push_bit 24 (ucast s_idx) :: u32
     in ucast (drop_bit (selection mod 4 * 8) colors))"

definition select_cascade :: "plane_pixel \<Rightarrow> plane_pixel \<Rightarrow> u8 \<Rightarrow> u8 \<Rightarrow> u8 \<Rightarrow> u8 \<Rightarrow> u8" where
  "select_cascade a b s_op s_hi s_idx backdrop =
    (if s_op \<noteq> 0 \<and> s_hi \<noteq> 0 then s_idx else if px_opaque a \<and> px_hi a then px_idx a
     else if px_opaque b \<and> px_hi b then px_idx b else if s_op \<noteq> 0 then s_idx
     else if px_opaque a then px_idx a else if px_opaque b then px_idx b else backdrop)"

definition shade_pixel :: "bool \<Rightarrow> plane_pixel \<Rightarrow> plane_pixel \<Rightarrow> sprite_layer \<Rightarrow> int \<Rightarrow> u8 \<Rightarrow> u8" where
  "shade_pixel sh_mode a b s xo px =
    (if sh_mode \<and> px < of_nat GVDP_CRAM_ENTRIES then
       let hi_present = ((s_spr_op s xo \<noteq> 0 \<and> s_spr_hi s xo \<noteq> 0) \<or> px_hi a \<or> px_hi b);
           sh = (\<not> hi_present \<or> s_spr_shadow_op s xo \<noteq> 0);
           hl = (s_spr_hilite_op s xo \<noteq> 0 \<and> \<not> sh);
           sh = (sh \<and> s_spr_hilite_op s xo = 0)
       in if hl then px + GVDP_PALETTE_HIGHLIGHT else if sh then px + GVDP_PALETTE_SHADOW else px
     else px)"

definition mark_wrap :: "present \<Rightarrow> row_regs \<Rightarrow> int \<Rightarrow> u8 \<Rightarrow> u8" where
  "mark_wrap p r x px =
    (if s_ws_bgdiag p \<and> px < GVDP_HOST_PALETTE_BASE \<and> (x - r_hs_b r) AND (int (r_wt r * 8) - 1) = 0
     then (px AND 0x3F) + GVDP_PALETTE_SHADOW else px)"

definition winner_of :: "plane_rows \<Rightarrow> sprite_layer \<Rightarrow> int \<Rightarrow> nat" where
  "winner_of t s i = s_layer_select ! select_key (plane_a t i) (plane_b t i) (s_spr_op s i) (s_spr_hi s i) mod 4"

definition compose_private_planes :: "plane_rows \<Rightarrow> sprite_layer \<Rightarrow> int \<Rightarrow> int \<Rightarrow> pixels \<Rightarrow> pixels" where
  "compose_private_planes t s x n out =
    (\<lambda>i. if x \<le> i \<and> i < x + n \<and> \<not> (private_a t i = 0 \<and> private_b t i = 0) then
           if winner_of t s i = 2 \<and> private_a t i \<noteq> 0 then private_a t i
           else if winner_of t s i = 1 \<and> private_b t i \<noteq> 0 then private_b t i else out i
         else out i)"

section \<open>Rendering a row\<close>

definition host_draw :: "present \<Rightarrow> GVDP \<Rightarrow> int \<Rightarrow> int \<Rightarrow> int \<Rightarrow> sprite_layer \<Rightarrow> sprite_layer" where
  "host_draw p v line cols offset s =
    (case s_host_sprites p of
       None \<Rightarrow> s
     | Some draw \<Rightarrow>
         let (idx, op, hi) = draw v line cols offset (s_spr_idx s, s_spr_op s, s_spr_hi s);
             inside = (\<lambda>new old x. if 0 \<le> x \<and> x < cols then new x else old x)
         in s\<lparr>s_spr_idx := inside idx (s_spr_idx s), s_spr_op := inside op (s_spr_op s), s_spr_hi := inside hi (s_spr_hi s)\<rparr>)"

definition normalize_flags :: "present \<Rightarrow> int \<Rightarrow> sprite_layer \<Rightarrow> sprite_layer" where
  "normalize_flags p cols s =
    (if s_host_sprites p = None then s
     else let norm = (\<lambda>f x. if 0 \<le> x \<and> x < cols then of_bool (f x \<noteq> 0) else f x)
          in s\<lparr>s_spr_op := norm (s_spr_op s), s_spr_hi := norm (s_spr_hi s)\<rparr>)"

definition empty_rows :: plane_rows where
  "empty_rows = \<lparr>plane_a = \<lambda>_. 0, plane_b = \<lambda>_. 0, private_a = \<lambda>_. 0, private_b = \<lambda>_. 0\<rparr>"

definition layers_of :: "plane_rows \<Rightarrow> sprite_layer \<Rightarrow> row_layers" where
  "layers_of t s = \<lparr>l_plane_a = plane_a t, l_plane_b = plane_b t, l_sprite = s_spr_idx s, l_opaque = s_spr_op s,
     l_high = s_spr_hi s, l_shadow_op = s_spr_shadow_op s, l_hilite_op = s_spr_hilite_op s\<rparr>"

definition scalar_pixel ::
  "present \<Rightarrow> GVDP \<Rightarrow> row_regs \<Rightarrow> int \<Rightarrow> int \<Rightarrow> u8 \<Rightarrow> sprite_layer \<Rightarrow> int \<Rightarrow> caches \<times> pixels \<Rightarrow> caches \<times> pixels" where
  "scalar_pixel p v r line offset backdrop s xo st =
    (let (cs, out) = st; x = xo - offset;
         (a, b, cs) = scalar_planes p v r line x cs;
         px = select_cascade a b (s_spr_op s xo) (s_spr_hi s xo) (s_spr_idx s xo) backdrop;
         px = shade_pixel (MODE4_SHI v) a b s xo px
     in (cs, out(xo := mark_wrap p r x px)))"

definition packed_column ::
  "present \<Rightarrow> GVDP \<Rightarrow> row_regs \<Rightarrow> int \<Rightarrow> u8 \<Rightarrow> plane_rows \<Rightarrow> sprite_layer \<Rightarrow> int \<Rightarrow> pixels \<Rightarrow> pixels" where
  "packed_column p v r offset backdrop t s xo out =
    (let (a, b) = packed_planes p t xo;
         px = select_table (plane_a t xo) (plane_b t xo) (s_spr_op s xo) (s_spr_hi s xo)
                (px_idx a) (px_idx b) (s_spr_idx s xo) backdrop;
         px = shade_pixel (MODE4_SHI v) a b s xo px
     in out(xo := mark_wrap p r (xo - offset) px))"

definition gvdp_render_scanline ::
  "render_cfg \<Rightarrow> present \<Rightarrow> int \<Rightarrow> pixels \<Rightarrow> GVDP \<times> sprite_layer \<Rightarrow> int \<times> pixels \<times> GVDP \<times> sprite_layer" where
  "gvdp_render_scanline cfg p line out vs =
    (let v = fst vs; w = int (gvdp_screen_width v); content_extra = clamp_ws_extra p w; content_block = w + 2 * content_extra;
         cols = (if s_ws_canvas_w p > content_block then s_ws_canvas_w p else content_block);
         pillar = (cols - content_block) div 2; offset = pillar + content_extra;
         backdrop = reg v 7 AND 0x3F;
         bar_idx = (if s_ws_bar_black p then GVDP_WS_BAR_INDEX else backdrop);
         content_end = pillar + content_block;
         bars = memset content_end (cols - content_end) bar_idx \<circ> memset 0 pillar bar_idx
     in if \<not> gvdp_display_enabled v then (cols, bars (memset pillar content_block backdrop out), vs)
        else
          let r = row_setup p v line;
              (v, s) = sprite_render_line (batched_planes cfg) p line cols offset vs;
              s = host_draw p v line cols offset s;
              s = (if batched_planes cfg then normalize_flags p cols s else s);
              t = (if batched_planes cfg
                   then plane_spans cfg p v r line content_extra offset (- content_extra) empty_rows else empty_rows);
              out = bars out;
              out = (if batched_planes cfg \<and> native_compose cfg \<and> \<not> s_ws_bgdiag p then
                       let out = gvdp_compose_span (little_endian cfg) (layers_of t s) backdrop (MODE4_SHI v) pillar (nat content_block) out
                       in if gvdp_ext_active p then compose_private_planes t s pillar content_block out else out
                     else if batched_planes cfg
                     then fold (packed_column p v r offset backdrop t s) [pillar..content_end - 1] out
                     else snd (fold (scalar_pixel p v r line offset backdrop s) [pillar..content_end - 1]
                                 ((empty_cache, empty_cache, empty_cache), out)))
          in (cols, out, v, s))"

section \<open>Captured rows\<close>

record GVDPRasterRow =
  row_width :: int
  row_start :: int
  row_count :: int
  row_diag_offset :: int
  row_diag_mask :: int
  row_backdrop :: u8
  row_bar :: u8
  row_display :: bool
  row_shadow_mode :: bool
  row_diagnostic :: bool
  row_private_planes :: bool
  row_planes :: plane_rows
  row_sprites :: sprite_layer
  row_host_palette :: "nat \<Rightarrow> u32"

definition private_art :: "present \<Rightarrow> bool" where
  "private_art p \<longleftrightarrow> s_ext_tiles p \<noteq> None \<or> s_sprite_patterns p 0 \<noteq> None \<or> s_sprite_patterns p 1 \<noteq> None"

text \<open>
  A row is captured or refused before any state changes. The sprite arrays of a captured row are
  copies of the sprite layer in the columns of the row.
\<close>

definition capture_scanline ::
  "render_cfg \<Rightarrow> present \<Rightarrow> bool \<Rightarrow> int \<Rightarrow> GVDPRasterRow \<Rightarrow> GVDP \<times> sprite_layer
     \<Rightarrow> (int \<times> GVDPRasterRow \<times> GVDP \<times> sprite_layer) option" where
  "capture_scanline cfg p presented line row vs =
    (let v = fst vs
     in if line < 0 \<or> line \<ge> GVDP_MAX_HEIGHT * 2 \<or> (\<not> presented \<and> (s_host_sprites p \<noteq> None \<or> private_art p)) then None
        else
          let w = int (gvdp_screen_width v); extra = clamp_ws_extra p w; block = w + 2 * extra;
              width = (if s_ws_canvas_w p > block then s_ws_canvas_w p else block);
              start = (width - block) div 2; offset = start + extra; backdrop = reg v 7 AND 0x3F;
              row = row\<lparr>row_width := width, row_start := start, row_count := block, row_backdrop := backdrop,
                        row_bar := if s_ws_bar_black p then GVDP_WS_BAR_INDEX else backdrop,
                        row_display := gvdp_display_enabled v, row_shadow_mode := MODE4_SHI v,
                        row_diagnostic := s_ws_bgdiag p, row_private_planes := False,
                        row_diag_offset := 0, row_diag_mask := 0\<rparr>;
              row = (if presented then row\<lparr>row_host_palette := (\<lambda>i. if i < GVDP_HOST_PALETTE_SIZE then 0xFF000000 else row_host_palette row i)\<rparr> else row)
          in if \<not> row_display row then Some (width, row, vs)
             else
               let r = row_setup p v line;
                   row = row\<lparr>row_diag_mask := int (r_wt r * 8) - 1, row_diag_offset := offset + r_hs_b r\<rparr>;
                   (v, s) = sprite_render_line (batched_planes cfg) p line width offset vs;
                   s = (if presented then normalize_flags p width (host_draw p v line width offset s) else s);
                   palette = (if \<not> presented then row_host_palette row
                     else if s_host_palette_enabled p then s_host_palette p
                     else if private_art p then (\<lambda>i. if i < GVDP_EXT_LINES * 16
                            then genesis_dac_cram_to_argb (gvdp_ext_color p line (1 + int (i div 16)) (int (i mod 16))) 0
                            else row_host_palette row i)
                     else row_host_palette row);
                   t = plane_spans cfg p v r line extra offset (- extra) (row_planes row)
               in Some (width, row\<lparr>row_sprites := s, row_host_palette := palette,
                                   row_private_planes := presented \<and> gvdp_ext_active p, row_planes := t\<rparr>, v, s))"

definition gvdp_capture_scanline where
  "gvdp_capture_scanline cfg p = capture_scanline cfg p False"

definition gvdp_capture_presented_scanline where
  "gvdp_capture_presented_scanline cfg p = capture_scanline cfg p True"

definition gvdp_compose_captured :: "render_cfg \<Rightarrow> GVDPRasterRow \<Rightarrow> pixels \<Rightarrow> (int \<times> pixels) option" where
  "gvdp_compose_captured cfg row out =
    (let start = row_start row; count = row_count row
     in if row_width row = 0 \<or> row_width row > GVDP_MAX_WIDTH \<or> start > row_width row \<or> count > row_width row - start then None
        else
          let out = memset 0 (row_width row) (row_bar row) out
          in if \<not> row_display row then Some (row_width row, memset start count (row_backdrop row) out)
             else
               let t = row_planes row; s = row_sprites row;
                   out = gvdp_compose_span (little_endian cfg) (layers_of t s) (row_backdrop row) (row_shadow_mode row) start (nat count) out;
                   out = (if row_private_planes row then compose_private_planes t s start count out else out);
                   out = (if row_diagnostic row
                          then (\<lambda>x. if start \<le> x \<and> x < start + count \<and> out x < GVDP_HOST_PALETTE_BASE
                                       \<and> (x - row_diag_offset row) AND row_diag_mask row = 0
                                     then (out x AND 63) + GVDP_PALETTE_SHADOW else out x)
                          else out)
               in Some (row_width row, out))"

end
