(* ===== verification/Genesis_Machine.thy ===== *)
theory Genesis_Machine
  imports Glue_Irq Vdp_Render
begin

text \<open>
  The scanline scheduler, \<^verbatim>\<open>runner/video/genesis_machine.c\<close>: the frame loop that advances the
  recompiled 68000 program, the Z80 and the VDP line by line, delivers their interrupts and emits the
  active rows, and the rollback snapshot of the machine. The guest is the record \<open>machine\<close>; what only
  the host sees (palette cache, row buffers, sprite arrays) is the record \<open>host_out\<close>, with the state
  \<open>'h\<close> of the host's callbacks.

  One instruction of the Z80 core is an argument, because the core is a vendored library. It works on
  its registers and, through the bus thunks, on the VDP and the bus.
\<close>

section \<open>The Z80 core's registers\<close>

record z80 =
  z_cyc :: u64
  z_pc :: u16
  z_sp :: u16
  z_ix :: u16
  z_iy :: u16
  z_mem_ptr :: u16
  z_a :: u8
  z_b :: u8
  z_c :: u8
  z_d :: u8
  z_e :: u8
  z_h :: u8
  z_l :: u8
  z_a' :: u8
  z_b' :: u8
  z_c' :: u8
  z_d' :: u8
  z_e' :: u8
  z_h' :: u8
  z_l' :: u8
  z_f' :: u8
  z_i :: u8
  z_r :: u8
  z_sf :: bool
  z_zf :: bool
  z_yf :: bool
  z_hf :: bool
  z_xf :: bool
  z_pf :: bool
  z_nf :: bool
  z_cf :: bool
  iff_delay :: u8
  interrupt_mode :: u8
  int_data :: u8
  iff1 :: bool
  iff2 :: bool
  halted :: bool
  int_pending :: bool
  nmi_pending :: bool

type_synonym z80_core = "z80 \<times> bstate \<Rightarrow> z80 \<times> bstate"

definition z80_init :: z80 where
  "z80_init = \<lparr>z_cyc = 0, z_pc = 0, z_sp = 0xFFFF, z_ix = 0, z_iy = 0, z_mem_ptr = 0,
     z_a = 0xFF, z_b = 0, z_c = 0, z_d = 0, z_e = 0, z_h = 0, z_l = 0,
     z_a' = 0, z_b' = 0, z_c' = 0, z_d' = 0, z_e' = 0, z_h' = 0, z_l' = 0, z_f' = 0, z_i = 0, z_r = 0,
     z_sf = True, z_zf = True, z_yf = True, z_hf = True, z_xf = True, z_pf = True, z_nf = True, z_cf = True, iff_delay = 0, interrupt_mode = 0, int_data = 0,
     iff1 = False, iff2 = False, halted = False, int_pending = False, nmi_pending = False\<rparr>"

definition z80_own_reset :: "z80 \<Rightarrow> z80" where
  "z80_own_reset z = z\<lparr>z_pc := 0, iff1 := False, iff2 := False, halted := False, interrupt_mode := 0,
     iff_delay := 0, int_pending := False, nmi_pending := False, int_data := 0xFF\<rparr>"

section \<open>The machine\<close>

text \<open>\<^verbatim>\<open>g_snd_line\<close> is a file-static of the runtime; \<^verbatim>\<open>g_snd_frame\<close>, \<^verbatim>\<open>s_line_base\<close> and \<^verbatim>\<open>s_z80_off\<close> are fields of the bus state.\<close>

record machine =
  m_glue :: glue
  m_z80 :: z80
  z80_cycle_debt :: u32
  master_cycle :: u32
  g_snd_line :: u32

definition m_vdp :: "machine \<Rightarrow> GVDP" where "m_vdp m = vdp (m_glue m)"
definition m_bus :: "machine \<Rightarrow> gbus" where "m_bus m = bus (m_glue m)"

definition map_glue :: "(glue \<Rightarrow> glue) \<Rightarrow> machine \<Rightarrow> machine" where
  "map_glue f m = m\<lparr>m_glue := f (m_glue m)\<rparr>"

definition put_vdp :: "GVDP \<Rightarrow> machine \<Rightarrow> machine" where
  "put_vdp v = map_glue (\<lambda>g. g\<lparr>vdp := v\<rparr>)"

definition LINES_TOTAL :: nat where "LINES_TOTAL = 262"
definition MASTER_PER_LINE :: u32 where "MASTER_PER_LINE = 3420"
definition M68K_PER_LINE :: u32 where "M68K_PER_LINE = 488"
definition Z80_PER_LINE :: u32 where "Z80_PER_LINE = 228"
definition MASTER_PER_Z80 :: u32 where "MASTER_PER_Z80 = MASTER_PER_LINE div Z80_PER_LINE"

section \<open>A slice of the Z80\<close>

definition set_z80_off :: "u32 \<Rightarrow> bstate \<Rightarrow> bstate" where
  "set_z80_off off vb = (fst vb, (snd vb)\<lparr>s_z80_off := off\<rparr>)"

text \<open>
  One pass through the loop, then the loop: it does not return, and is \<open>None\<close>, when the core makes
  no progress.
\<close>

definition slice_step :: "z80_core \<Rightarrow> u32 \<times> z80 \<times> bstate \<Rightarrow> u32 \<times> z80 \<times> bstate" where
  "slice_step step c =
    (let (done, z, vb) = c; z' = step (z, set_z80_off (done * MASTER_PER_Z80) vb)
     in (done + ucast (z_cyc (fst z') - z_cyc z), z'))"

partial_function (option) z80_slice :: "z80_core \<Rightarrow> u32 \<Rightarrow> u32 \<times> z80 \<times> bstate \<Rightarrow> (u32 \<times> z80 \<times> bstate) option" where
  "z80_slice step target c = (if fst c < target then z80_slice step target (slice_step step c) else Some c)"

definition z80_halted :: "machine \<Rightarrow> bool" where
  "z80_halted m \<longleftrightarrow> \<not> z80_reset_off (m_bus m) \<or> z80_busreq (m_bus m)"

definition take_reset :: "machine \<Rightarrow> machine" where
  "take_reset m =
    (if z80_reset_pending (m_bus m)
     then map_glue (map_bus (\<lambda>b. b\<lparr>z80_reset_pending := False\<rparr>)) (m\<lparr>m_z80 := z80_own_reset (m_z80 m)\<rparr>)
     else m)"

definition step_z80 :: "z80_core \<Rightarrow> u32 \<Rightarrow> machine \<Rightarrow> machine option" where
  "step_z80 step target m =
    (if z80_halted m then Some m
     else
       let m = take_reset m
       in case z80_slice step target (z80_cycle_debt m, (m_z80 m)\<lparr>z_cyc := 0\<rparr>, (m_vdp m, m_bus m)) of
            None \<Rightarrow> None
          | Some (done, z, (v, b)) \<Rightarrow>
              Some (m\<lparr>m_glue := (m_glue m)\<lparr>vdp := v, bus := b\<rparr>, m_z80 := z, z80_cycle_debt := done - target\<rparr>))"

section \<open>Output\<close>

definition GVDP_OUTPUT_PALETTE_SIZE :: nat where "GVDP_OUTPUT_PALETTE_SIZE = 256"

record 'h host_out =
  o_present :: present
  s_cram_argb :: "nat \<Rightarrow> u32"
  o_sprites :: sprite_layer
  idxbuf :: pixels
  rowbuf :: "int \<Rightarrow> u32"
  o_raster :: GVDPRasterRow
  o_user :: 'h

definition bgr9_to_argb :: "u16 \<Rightarrow> int \<Rightarrow> u32" where
  "bgr9_to_argb c lvl = genesis_dac_cram_to_argb c lvl"

definition colour_cb :: "nat \<times> u16 \<Rightarrow> (nat \<Rightarrow> u32) \<Rightarrow> nat \<Rightarrow> u32" where
  "colour_cb update cache =
    (let (idx, bgr9) = update
     in if idx \<ge> GVDP_CRAM_ENTRIES then cache
        else cache(idx := bgr9_to_argb bgr9 0, idx + 64 := bgr9_to_argb bgr9 1, idx + 128 := bgr9_to_argb bgr9 2))"

text \<open>
  The VDP calls \<^verbatim>\<open>colour_cb\<close> at every colour write; the model keeps the calls in the VDP's list of
  notifications, so the cache that a row sees is the array with all of them applied. The host's own
  entries lie above the ones that \<^verbatim>\<open>colour_cb\<close> writes.
\<close>

definition argb_cache :: "GVDP \<Rightarrow> 'h host_out \<Rightarrow> nat \<Rightarrow> u32" where
  "argb_cache v o1 = fold colour_cb (colour_updates v) (s_cram_argb o1)"

definition genesis_pixels_expand ::
  "pixels \<Rightarrow> int \<Rightarrow> (nat \<Rightarrow> u32) \<Rightarrow> nat \<Rightarrow> u32 \<Rightarrow> (int \<Rightarrow> u32) \<Rightarrow> int \<Rightarrow> u32" where
  "genesis_pixels_expand indices count palette colors fallback out =
    (\<lambda>x. if 0 \<le> x \<and> x < count
         then (let i = unat (indices x) in if i < colors then palette i else fallback) else out x)"

record NativeRowContext =
  n_line :: int
  n_width :: int
  n_ready :: bool
  n_indices_ready :: bool
  n_raster :: "GVDPRasterRow option"

type_synonym 'h rowstate = "NativeRowContext \<times> GVDP \<times> 'h host_out"

definition host_colours :: "GVDPRasterRow option \<Rightarrow> int \<Rightarrow> present \<Rightarrow> (nat \<Rightarrow> u32) \<Rightarrow> nat \<Rightarrow> u32" where
  "host_colours raster line p cache =
    (let base = unat GVDP_HOST_PALETTE_BASE
     in case (case raster of Some r \<Rightarrow> Some (row_host_palette r) | None \<Rightarrow> gvdp_host_palette p) of
          Some pal \<Rightarrow> (\<lambda>i. if base \<le> i \<and> i < base + GVDP_HOST_PALETTE_SIZE then pal (i - base) else cache i)
        | None \<Rightarrow> if gvdp_ext_active p
                  then (\<lambda>i. if base \<le> i \<and> i < base + GVDP_EXT_LINES * 16
                            then bgr9_to_argb (gvdp_ext_color p line (1 + int ((i - base) div 16)) (int ((i - base) mod 16))) 0
                            else cache i)
                  else cache)"

definition native_row_indices :: "render_cfg \<Rightarrow> 'h rowstate \<Rightarrow> 'h rowstate" where
  "native_row_indices cfg rvo =
    (let (r, v, o1) = rvo
     in case n_raster r of
          Some row \<Rightarrow>
            (case gvdp_compose_captured cfg row (idxbuf o1) of
               Some (w, out) \<Rightarrow> (r\<lparr>n_width := w\<rparr>, v, o1\<lparr>idxbuf := out\<rparr>)
             | None \<Rightarrow> (r\<lparr>n_width := 0\<rparr>, v, o1))
        | None \<Rightarrow>
            (case gvdp_render_scanline cfg (o_present o1) (n_line r) (idxbuf o1) (v, o_sprites o1) of
               (w, out, v, s) \<Rightarrow> (r\<lparr>n_width := w\<rparr>, v, o1\<lparr>idxbuf := out, o_sprites := s\<rparr>)))"

definition native_row_prepare :: "render_cfg \<Rightarrow> 'h rowstate \<Rightarrow> 'h rowstate" where
  "native_row_prepare cfg rvo =
    (if n_indices_ready (fst rvo) then rvo
     else
       let (r, v, o1) = native_row_indices cfg rvo
       in (r\<lparr>n_indices_ready := True\<rparr>, v,
           o1\<lparr>s_cram_argb := host_colours (n_raster r) (n_line r) (o_present o1) (s_cram_argb o1)\<rparr>))"

definition native_row_fetch :: "render_cfg \<Rightarrow> 'h rowstate \<Rightarrow> 'h rowstate" where
  "native_row_fetch cfg rvo =
    (if n_ready (fst rvo) then rvo
     else
       let (r, v, o1) = native_row_prepare cfg rvo
       in (r\<lparr>n_ready := True\<rparr>, v,
           o1\<lparr>rowbuf := genesis_pixels_expand (idxbuf o1) (n_width r) (argb_cache v o1)
                          GVDP_OUTPUT_PALETTE_SIZE 0xFF000000 (rowbuf o1)\<rparr>))"

section \<open>Sinks and producers\<close>

text \<open>
  A sink takes finished rows; the indexed adapter may take palette indices instead. A producer may
  draw a row itself, and asks at most once effectively for the native row, whose pixels it is then
  given. Callbacks are functions on the host's state: they neither change nor advance the guest, as
  the header of the scheduler requires of them.
\<close>

type_synonym 'h argb_sink = "'h \<Rightarrow> int \<Rightarrow> (int \<Rightarrow> u32) \<Rightarrow> int \<Rightarrow> 'h"

record 'h GenesisIndexedSink =
  ix_argb :: "'h argb_sink option"
  ix_indexed :: "('h \<Rightarrow> int \<Rightarrow> pixels \<Rightarrow> int \<Rightarrow> (nat \<Rightarrow> u32) \<Rightarrow> 'h) option"
  ix_accepts :: "('h \<Rightarrow> int \<Rightarrow> int \<Rightarrow> bool \<times> 'h) option"

datatype 'h sink = Argb "'h argb_sink" | Adapter "'h GenesisIndexedSink option"

datatype 'h reply = Delivered 'h | AskNative "(int \<Rightarrow> u32) \<Rightarrow> 'h"

record 'h GenesisScanlineProducer =
  pr_enabled :: "'h \<Rightarrow> nat \<times> 'h"
  pr_render :: "'h \<Rightarrow> GVDP \<Rightarrow> int \<Rightarrow> int \<Rightarrow> GVDPRasterRow option \<Rightarrow> 'h reply"

fun sink_argb :: "'h sink \<Rightarrow> 'h argb_sink" where
  "sink_argb (Argb f) = f"
| "sink_argb (Adapter None) = (\<lambda>h line argb width. h)"
| "sink_argb (Adapter (Some x)) = (case ix_argb x of Some f \<Rightarrow> f | None \<Rightarrow> (\<lambda>h line argb width. h))"

fun sink_indexed :: "bool \<Rightarrow> 'h sink \<Rightarrow> 'h GenesisIndexedSink option" where
  "sink_indexed pipeline (Adapter (Some x)) = (if pipeline \<and> ix_indexed x \<noteq> None then Some x else None)"
| "sink_indexed pipeline _ = None"

definition evaluate_row :: "render_cfg \<Rightarrow> int \<Rightarrow> GVDP \<times> 'h host_out \<Rightarrow> GVDP \<times> 'h host_out" where
  "evaluate_row cfg row vo =
    (let (v, o1) = vo; (v, s) = gvdp_evaluate_scanline (batched_planes cfg) (o_present o1) row (v, o_sprites o1)
     in (v, o1\<lparr>o_sprites := s\<rparr>))"

definition row_context :: "int \<Rightarrow> NativeRowContext" where
  "row_context row = \<lparr>n_line = row, n_width = 0, n_ready = False, n_indices_ready = False, n_raster = None\<rparr>"

definition produce_row :: "render_cfg \<Rightarrow> 'h GenesisScanlineProducer \<Rightarrow> bool \<Rightarrow> int \<Rightarrow> GVDP \<times> 'h host_out \<Rightarrow> GVDP \<times> 'h host_out" where
  "produce_row cfg producer layers row vo =
    (let (v, o1) = vo;
         (r, v, o1) =
           (if layers then
              (case gvdp_capture_presented_scanline cfg (o_present o1) row (o_raster o1) (v, o_sprites o1) of
                 Some (w, raster, v, s) \<Rightarrow>
                   ((row_context row)\<lparr>n_raster := Some raster\<rparr>, v, o1\<lparr>o_raster := raster, o_sprites := s\<rparr>)
               | None \<Rightarrow> native_row_fetch cfg (row_context row, v, o1))
            else (row_context row, evaluate_row cfg row (v, o1)))
     in case pr_render producer (o_user o1) v row (gvdp_active_width (o_present o1) v) (n_raster r) of
          Delivered h \<Rightarrow> (v, o1\<lparr>o_user := h\<rparr>)
        | AskNative f \<Rightarrow>
            (let (r, v, o1) = native_row_fetch cfg (r, v, o1) in (v, o1\<lparr>o_user := f (rowbuf o1)\<rparr>)))"

definition deliver_row :: "'h sink \<Rightarrow> int \<Rightarrow> 'h rowstate \<Rightarrow> GVDP \<times> 'h host_out" where
  "deliver_row snk row rvo =
    (let (r, v, o1) = rvo in (v, o1\<lparr>o_user := sink_argb snk (o_user o1) row (rowbuf o1) (n_width r)\<rparr>))"

definition sink_row :: "render_cfg \<Rightarrow> bool \<Rightarrow> 'h sink \<Rightarrow> int \<Rightarrow> GVDP \<times> 'h host_out \<Rightarrow> GVDP \<times> 'h host_out" where
  "sink_row cfg pipeline snk row vo =
    (case sink_indexed pipeline snk of
       None \<Rightarrow> deliver_row snk row (native_row_fetch cfg (row_context row, vo))
     | Some x \<Rightarrow>
         (let (r, v, o1) = native_row_prepare cfg (row_context row, vo);
              (ok, h) = (case ix_accepts x of None \<Rightarrow> (True, o_user o1) | Some f \<Rightarrow> f (o_user o1) row (n_width r));
              o1 = o1\<lparr>o_user := h\<rparr>
          in case ix_indexed x of
               Some f \<Rightarrow>
                 if ok then (v, o1\<lparr>o_user := f h row (idxbuf o1) (n_width r) (argb_cache v o1)\<rparr>)
                 else deliver_row snk row (native_row_fetch cfg (r, v, o1))
             | None \<Rightarrow> (v, o1)))"

definition emit_row ::
  "render_cfg \<Rightarrow> bool \<Rightarrow> 'h sink option \<Rightarrow> 'h GenesisScanlineProducer option \<Rightarrow> int \<Rightarrow> GVDP \<times> 'h host_out \<Rightarrow> GVDP \<times> 'h host_out" where
  "emit_row cfg pipeline snk producer row vo =
    (case snk of
       None \<Rightarrow> evaluate_row cfg row vo
     | Some s \<Rightarrow>
         (case producer of
            None \<Rightarrow> sink_row cfg pipeline s row vo
          | Some p \<Rightarrow>
              (let (v, o1) = vo; (custom, h) = pr_enabled p (o_user o1); o1 = o1\<lparr>o_user := h\<rparr>
               in if custom \<noteq> 0 then produce_row cfg p (bit custom 1) row (v, o1)
                  else sink_row cfg pipeline s row (v, o1))))"

definition emit_line ::
  "render_cfg \<Rightarrow> bool \<Rightarrow> 'h sink option \<Rightarrow> 'h GenesisScanlineProducer option \<Rightarrow> nat \<Rightarrow> GVDP \<times> 'h host_out \<Rightarrow> GVDP \<times> 'h host_out" where
  "emit_line cfg pipeline snk producer line vo =
    (let dbl = gvdp_interlace_double (fst vo)
     in fold (\<lambda>sub. emit_row cfg pipeline snk producer (int (push_bit dbl line + sub))) [0..<dbl + 1] vo)"

section \<open>The frame\<close>

text \<open>Everything of a line up to its rows: the three processors and the vertical interrupt.\<close>

definition begin_line :: "nat \<Rightarrow> machine \<Rightarrow> (bool \<times> bool) \<times> machine" where
  "begin_line line m =
    (let (irq, v) = gvdp_begin_scanline line (m_vdp m);
         m = (put_vdp v m)\<lparr>g_snd_line := of_nat line\<rparr>
     in (irq, map_glue (map_bus (\<lambda>b. b\<lparr>s_line_base := of_nat line * MASTER_PER_LINE, s_z80_off := 0\<rparr>)) m))"

definition service_latched :: "game \<Rightarrow> glue \<Rightarrow> glue" where
  "service_latched gm g = snd (glue_own_hint_service_latched gm (snd (glue_own_vint_service_latched gm g)))"

definition vertical_interrupt :: "game \<Rightarrow> bool \<Rightarrow> machine \<Rightarrow> machine" where
  "vertical_interrupt gm virq m =
    (if virq then map_glue (glue_own_interrupt gm 6) (m\<lparr>m_z80 := (m_z80 m)\<lparr>int_pending := True\<rparr>\<rparr>) else m)"

definition run_line :: "z80_core \<Rightarrow> game \<Rightarrow> nat \<Rightarrow> machine \<Rightarrow> (bool \<times> machine) option" where
  "run_line step gm line m =
    (let ((hirq, virq), m) = begin_line line m;
         m = map_glue (service_latched gm \<circ> glue_run_game_chunk gm M68K_PER_LINE) m
     in case step_z80 step Z80_PER_LINE m of
          None \<Rightarrow> None
        | Some m \<Rightarrow> Some (hirq, vertical_interrupt gm virq m))"

definition end_line :: "game \<Rightarrow> bool \<Rightarrow> machine \<Rightarrow> machine" where
  "end_line gm hirq m =
    (let m = (if hirq then map_glue (glue_own_interrupt gm 4) m else m)
     in m\<lparr>master_cycle := master_cycle m + MASTER_PER_LINE\<rparr>)"

definition machine_line ::
  "render_cfg \<Rightarrow> bool \<Rightarrow> z80_core \<Rightarrow> game \<Rightarrow> 'h sink option \<Rightarrow> 'h GenesisScanlineProducer option
     \<Rightarrow> nat \<Rightarrow> nat \<Rightarrow> machine \<times> 'h host_out \<Rightarrow> (machine \<times> 'h host_out) option" where
  "machine_line cfg pipeline step gm snk producer active_h line mo =
    (case run_line step gm line (fst mo) of
       None \<Rightarrow> None
     | Some (hirq, m) \<Rightarrow>
         (let (m, o1) =
            (if line < active_h
             then (let (v, o1) = emit_line cfg pipeline snk producer line (m_vdp m, snd mo) in (put_vdp v m, o1))
             else (m, snd mo))
          in Some (end_line gm hirq m, o1)))"

fun run_lines :: "(nat \<Rightarrow> 'a \<Rightarrow> 'a option) \<Rightarrow> nat list \<Rightarrow> 'a \<Rightarrow> 'a option" where
  "run_lines f [] x = Some x"
| "run_lines f (line # rest) x = (case f line x of None \<Rightarrow> None | Some y \<Rightarrow> run_lines f rest y)"

definition end_frame :: "machine \<Rightarrow> machine" where
  "end_frame = map_glue (map_bus (\<lambda>b. b\<lparr>g_snd_frame := g_snd_frame b + 1\<rparr>))"

definition machine_run_frame_ex ::
  "render_cfg \<Rightarrow> bool \<Rightarrow> z80_core \<Rightarrow> game \<Rightarrow> 'h sink option \<Rightarrow> 'h GenesisScanlineProducer option
     \<Rightarrow> machine \<times> 'h host_out \<Rightarrow> (machine \<times> 'h host_out) option" where
  "machine_run_frame_ex cfg pipeline step gm snk producer mo =
    map_option (apfst end_frame)
      (run_lines (machine_line cfg pipeline step gm snk producer (gvdp_screen_height (m_vdp (fst mo)))) [0..<LINES_TOTAL] mo)"

definition machine_run_frame ::
  "render_cfg \<Rightarrow> bool \<Rightarrow> z80_core \<Rightarrow> game \<Rightarrow> 'h sink option \<Rightarrow> machine \<times> 'h host_out \<Rightarrow> (machine \<times> 'h host_out) option" where
  "machine_run_frame cfg pipeline step gm snk = machine_run_frame_ex cfg pipeline step gm snk None"

section \<open>Initialisation\<close>

definition machine_init :: "machine \<times> 'h host_out \<Rightarrow> machine \<times> 'h host_out" where
  "machine_init mo =
    (let (m, o1) = mo; g = m_glue m
     in (m\<lparr>m_glue := g\<lparr>vdp := gvdp_init (vdp g), bus := gbus_init (bus g)\<rparr>,
           m_z80 := z80_own_reset z80_init, z80_cycle_debt := 0, master_cycle := 0\<rparr>,
         o1\<lparr>s_cram_argb := (s_cram_argb o1)(unat GVDP_WS_BAR_INDEX := 0xFF000000)\<rparr>))"

section \<open>Rollback snapshots\<close>

text \<open>
  A snapshot is the image of the machine structure and a tail with the statics around it. The VDP's
  event ring, its notifications and the owed stall are not members of the structure; the bus
  structure is the part of the bus state that its record \<open>GenesisBus\<close> names. Host pointers are zeroed
  in the image and rewired on load; the model has none.
\<close>

record MachineRbTail =
  snd_frame :: u64
  snd_line :: u32
  pending_stall :: u32
  unlimited_sprites :: u32

record rb_image =
  rb_vdp :: GVDP
  rb_bus :: GenesisBus
  rb_z80 :: z80
  rb_debt :: u32
  rb_master :: u32
  rb_tail :: MachineRbTail

definition no_event :: GVdpEvent where
  "no_event = \<lparr>e_seq = 0, e_kind = GVDP_EVT_REG, e_code = 0, e_reason = GVDP_SKIP_NONE, e_in_vblank = False,
     e_scanline = 0, e_addr = 0, e_value = 0, e_inc = 0, e_len = 0, e_src = 0\<rparr>"

definition vdp_struct :: "GVDP \<Rightarrow> GVDP" where
  "vdp_struct v = v\<lparr>s_pending_68k_stall := 0, g_gvdp_events := \<lambda>_. no_event, g_gvdp_event_seq := 0, colour_updates := []\<rparr>"

text \<open>
  The size of an image: \<^verbatim>\<open>sizeof(GenesisMachine)\<close>, which depends on the compiler's layout and is an
  argument here, and the 24 bytes of the tail.
\<close>

definition RB_SIZE :: "nat \<Rightarrow> nat" where "RB_SIZE sizeof_machine = sizeof_machine + 24"

text \<open>With no destination the needed size is returned; a buffer that is too small is refused and left alone.\<close>

definition machine_rb_save :: "nat \<Rightarrow> bool \<Rightarrow> nat \<Rightarrow> machine \<times> 'h host_out \<Rightarrow> nat \<times> rb_image option" where
  "machine_rb_save sizeof_machine dst cap mo =
    (let (m, o1) = mo; need = RB_SIZE sizeof_machine
     in if \<not> dst then (need, None)
        else if cap < need then (0, None)
        else (need, Some \<lparr>rb_vdp = vdp_struct (m_vdp m), rb_bus = GenesisBus.truncate (m_bus m), rb_z80 = m_z80 m,
               rb_debt = z80_cycle_debt m, rb_master = master_cycle m,
               rb_tail = \<lparr>snd_frame = g_snd_frame (m_bus m), snd_line = g_snd_line m,
                          pending_stall = gvdp_rb_pending_stall (m_vdp m),
                          unlimited_sprites = of_bool (s_unlimited_sprites (o_present o1))\<rparr>\<rparr>))"

text \<open>The palette rebuild calls \<^verbatim>\<open>colour_cb\<close> for every colour.\<close>

definition rebuild_palette :: "GVDP \<Rightarrow> GVDP" where
  "rebuild_palette v = v\<lparr>colour_updates := colour_updates v @ map (\<lambda>c. (c, cram v c)) [0..<GVDP_CRAM_ENTRIES]\<rparr>"

definition machine_rb_load :: "nat \<Rightarrow> rb_image option \<Rightarrow> nat \<Rightarrow> machine \<times> 'h host_out \<Rightarrow> bool \<times> machine \<times> 'h host_out" where
  "machine_rb_load sizeof_machine src len mo =
    (case src of
       None \<Rightarrow> (False, mo)
     | Some img \<Rightarrow>
         if len \<noteq> fst (machine_rb_save sizeof_machine False 0 mo) then (False, mo)
         else
           let (m, o1) = mo; t = rb_tail img;
               v = (rb_vdp img)\<lparr>s_pending_68k_stall := s_pending_68k_stall (m_vdp m), g_gvdp_events := g_gvdp_events (m_vdp m),
                      g_gvdp_event_seq := g_gvdp_event_seq (m_vdp m), colour_updates := colour_updates (m_vdp m)\<rparr>;
               b = (GenesisBus.extend (rb_bus img) (GenesisBus.more (m_bus m)))\<lparr>g_snd_frame := snd_frame t\<rparr>;
               v = rebuild_palette (gvdp_rb_set_pending_stall (pending_stall t) v)
           in (True, m\<lparr>m_glue := (m_glue m)\<lparr>vdp := v, bus := b\<rparr>, m_z80 := rb_z80 img, z80_cycle_debt := rb_debt img,
                       master_cycle := rb_master img, g_snd_line := snd_line t\<rparr>,
               o1\<lparr>o_present := gvdp_set_unlimited_sprites (unlimited_sprites t \<noteq> 0) (o_present o1)\<rparr>))"

end
