(* ===== verification/Vdp_Render_Props.thy ===== *)
theory Vdp_Render_Props
  imports Vdp_Render
begin

text \<open>
  The batched renderer draws what the scalar renderer draws. Sprites: a cell of eight columns is
  drawn as its columns one by one. Planes: the cache of the scalar fetch always holds the entry it
  stands for, a span holds the pixels that the scalar fetch gives at its columns, and the spans of a
  row never cross a change of scroll or window. Composition: the selection table and the word-wide
  composition are the priority cascade. A captured row composes to the rendered row, and evaluating
  a row without output has the same effect on the VDP.
\<close>

section \<open>Sprites\<close>

lemma less_8_cases:
  fixes k :: nat
  assumes "list_all P [0, 1, 2, 3, 4, 5, 6, 7]" "k < 8"
  shows "P k"
proof -
  have "[0, 1, 2, 3, 4, 5, 6, 7] = [0..<8]" by code_simp
  with assms(1) have "list_all P [0..<8]" by (simp only:)
  with assms(2) show ?thesis by (simp add: list_all_iff)
qed

lemma byte_pair_nibbles:
  fixes b0 b1 b2 b3 :: u8
  assumes "k < 8"
  shows "row_nibble (push_bit 24 (ucast b0) OR push_bit 16 (ucast b1) OR push_bit 8 (ucast b2) OR ucast b3 :: u32) k =
    (let b = [b0, b1, b2, b3] ! (k div 2) in if odd k then b AND 15 else drop_bit 4 b)"
  by (rule less_8_cases [OF _ assms])
    (simp add: byte_eq_iff row_nibble_def bit_simps bit_u8_high Let_def flip: numeral_2_eq_2)

lemma xor_seven: "k < 8 \<Longrightarrow> k XOR 7 = 7 - k" for k :: nat
  by (rule less_8_cases [of "\<lambda>k. k XOR 7 = 7 - k"]) simp_all

lemma sprite_cell_bits_nibble:
  assumes "k < 8"
  shows "row_nibble (sprite_cell_bits v q a) k =
    (let b = sprite_byte v q (a + k div 2) in if odd k then b AND 15 else drop_bit 4 b)"
proof -
  let ?b = "\<lambda>i. sprite_byte v q (a + i)"
  have "[0..<4] = [0, 1, 2, 3 :: nat]" by code_simp
  then have "sprite_cell_bits v q a = push_bit 24 (ucast (?b 0)) OR push_bit 16 (ucast (?b 1)) OR
      push_bit 8 (ucast (?b 2)) OR ucast (?b 3)"
    unfolding sprite_cell_bits_def by (simp add: push_bit_or or.assoc)
  moreover have "[?b 0, ?b 1, ?b 2, ?b 3] ! (k div 2) = ?b (k div 2)"
    by (rule less_8_cases [OF _ assms]) simp
  ultimately show ?thesis by (simp only: byte_pair_nibbles [OF assms])
qed

lemma fold_blocks: "fold f [0..<n * 8] s = fold (\<lambda>c. fold (\<lambda>i. f (c * 8 + i)) [0..<8]) [0..<n] s"
proof (induction n)
  case (Suc n)
  have "[0..<Suc n * 8] = [0..<n * 8] @ map (\<lambda>i. n * 8 + i) [0..<8]"
    using upt_add_eq_append [of 0 "n * 8" 8] map_add_upt [of "n * 8" 8] by (simp add: add.commute)
  then show ?case by (simp add: Suc fold_map comp_def)
qed simp

lemma sprite_column_cell:
  assumes "cell < p_hsz q" "fx < 8"
  defines "tileno \<equiv> sprite_tile q (if p_hf q then p_hsz q - 1 - cell else cell)"
  shows "sprite_column p v q cols (cell * 8 + fx) s =
    sprite_cell_pixel (MODE4_SHI v) q cols (gvdp_sprite_palette_line p (p_size q) tileno (p_pal q))
      (sprite_cell_bits v q (tileno * p_tile_bytes q + p_fy q * 4)) cell fx s"
proof -
  let ?k = "fx XOR (if p_hf q then 7 else 0)"
  define ix where "ix = (if p_hf q then p_hsz q * 8 - 1 - (cell * 8 + fx) else cell * 8 + fx)"
  have k: "?k < 8" using assms(2) xor_seven [of fx] by (cases "p_hf q") simp_all
  have "ix = (if p_hf q then p_hsz q - 1 - cell else cell) * 8 + ?k"
    using assms(1,2) by (auto simp: ix_def xor_seven diff_mult_distrib)
  then have "ix div 8 = (if p_hf q then p_hsz q - 1 - cell else cell)" "ix mod 8 = ?k"
    using k by simp_all
  then show ?thesis
    unfolding sprite_column_def sprite_cell_pixel_def sprite_cell_bits_nibble [OF k] Let_def ix_def [symmetric] tileno_def
    by (simp add: add.assoc)
qed

lemma sprite_draw_batched: "sprite_draw True p v q cols s = sprite_draw False p v q cols s"
proof -
  have "sprite_cell p v q cols cell s' = fold (\<lambda>fx. sprite_column p v q cols (cell * 8 + fx)) [0..<8] s'"
    if "cell < p_hsz q" for cell s'
    unfolding sprite_cell_def Let_def by (rule fold_cong) (auto simp: sprite_column_cell [OF that])
  then show ?thesis
    unfolding sprite_draw_def fold_blocks by (auto intro!: fold_cong)
qed

lemma sprite_loop_batched:
  "sprite_loop True p v line cols offset n link on_line budget s =
   sprite_loop False p v line cols offset n link on_line budget s"
proof (induction n arbitrary: link on_line budget s)
  case (Suc n)
  show ?case by (simp only: sprite_loop.simps Suc.IH sprite_draw_batched)
qed simp

lemma sprite_render_line_batched: "sprite_render_line b p line cols offset vs = sprite_render_line False p line cols offset vs"
  by (cases b) (simp_all only: sprite_render_line_def sprite_loop_batched)

section \<open>Plane fetch\<close>

text \<open>The pixel of a plane, without cache or span: a name-table entry and a pattern nibble.\<close>

definition plane_shift :: "bool \<Rightarrow> nat" where
  "plane_shift im2 = (if im2 then 4 else 3)"

definition plane_pixel_at :: "present \<Rightarrow> GVDP \<Rightarrow> u16 \<Rightarrow> nat \<Rightarrow> nat \<Rightarrow> int \<Rightarrow> int \<Rightarrow> bool \<Rightarrow> plane_pixel" where
  "plane_pixel_at p v base wt ht px0 py0 im2 =
    (let px = nat (px0 mod int (wt * 8)); py = nat (py0 mod int (push_bit (plane_shift im2) ht))
     in entry_pixel p v (plane_entry v base wt (plane_shift im2) px py) im2 px py)"

definition plane_size :: "nat \<Rightarrow> bool" where
  "plane_size n \<longleftrightarrow> n = 32 \<or> n = 64 \<or> n = 128"

lemma plane_size_tiles [simp]: "plane_size (plane_tiles c)"
  by (simp add: plane_size_def plane_tiles_def)

lemma and_exp_minus_1: "x AND (2 ^ n - 1) = x mod 2 ^ n" for x :: int
  by (metis mask_eq_exp_minus_1 take_bit_eq_mask take_bit_eq_mod)

lemma plane_masks:
  assumes "plane_size n"
  shows "x AND (int (n * 8) - 1) = x mod int (n * 8)"
    "x AND (int (push_bit (plane_shift im2) n) - 1) = x mod int (push_bit (plane_shift im2) n)"
  using assms and_exp_minus_1 [of x 8] and_exp_minus_1 [of x 9] and_exp_minus_1 [of x 10] and_exp_minus_1 [of x 11]
  by (auto simp: plane_size_def plane_shift_def push_bit_eq_mult)

lemma plane_bounds:
  assumes "plane_size n"
  shows "nat (x mod int (n * 8)) < n * 8" "nat (x mod int (n * 8)) < 1024"
    "nat (x mod int (push_bit (plane_shift im2) n)) < 2048" "8 dvd n * 8"
proof -
  have "0 < n" using assms by (auto simp: plane_size_def)
  then show *: "nat (x mod int (n * 8)) < n * 8"
    using pos_mod_bound [of "int (n * 8)" x] by (simp add: nat_less_iff)
  show "nat (x mod int (n * 8)) < 1024"
    using * assms by (auto simp: plane_size_def)
  have "0 < int (push_bit (plane_shift im2) n)" "int (push_bit (plane_shift im2) n) \<le> 2048"
    using assms by (auto simp: plane_size_def plane_shift_def push_bit_eq_mult)
  then show "nat (x mod int (push_bit (plane_shift im2) n)) < 2048"
    using pos_mod_bound [of "int (push_bit (plane_shift im2) n)" x] pos_mod_sign [of "int (push_bit (plane_shift im2) n)" x]
    by linarith
qed simp

lemma plane_coord_nat:
  assumes "px < 65536" "py < 65536"
  shows "plane_coord px py = of_nat (py * 65536 + px)"
proof -
  have u: "(ucast (of_nat n :: u16) :: u32) = of_nat n" if "n < 65536" for n
    using that by (simp add: unsigned_of_nat take_bit_nat_eq_self)
  have "push_bit 16 (ucast (of_nat py :: u16)) AND ucast (of_nat px :: u16) = (0 :: u32)"
    by (rule bit_word_eqI) (auto simp: bit_simps dest: bit_imp_le_length)
  then have "plane_coord px py = push_bit 16 (ucast (of_nat py :: u16)) + ucast (of_nat px :: u16)"
    by (simp only: plane_coord_def disjunctive_add_eq_or)
  then show ?thesis
    unfolding u [OF assms(1)] u [OF assms(2)] by (simp add: push_bit_eq_mult)
qed

lemma plane_coord_inject:
  assumes "px < 1024" "py < 2048" "px' < 1024" "py' < 2048"
  shows "plane_coord px py = plane_coord px' py' \<longleftrightarrow> px = px' \<and> py = py'"
    "plane_coord px py + 1 = plane_coord px' py' \<longleftrightarrow> px + 1 = px' \<and> py = py'" "plane_coord px py \<noteq> NOT 0"
proof -
  have n: "(of_nat m :: u32) = of_nat n \<longleftrightarrow> m = n" if "m < 2 ^ 32" "n < 2 ^ 32" for m n
    using that by (simp add: word_of_nat_eq_iff take_bit_nat_eq_self)
  have c: "plane_coord px py = of_nat (py * 65536 + px)" "plane_coord px' py' = of_nat (py' * 65536 + px')"
    using assms by (simp_all add: plane_coord_nat)
  have pair: "y * 65536 + x = y' * 65536 + x' \<longleftrightarrow> x = x' \<and> y = y'" if "x < 65536" "x' < 65536" for x y x' y' :: nat
  proof
    assume e: "y * 65536 + x = y' * 65536 + x'"
    have "x = (y * 65536 + x) mod 65536" "x' = (y' * 65536 + x') mod 65536" using that by simp_all
    with e have "x = x'" by metis
    with e show "x = x' \<and> y = y'" by simp
  qed simp
  show "plane_coord px py = plane_coord px' py' \<longleftrightarrow> px = px' \<and> py = py'"
    unfolding c using assms by (subst n, simp, simp, subst pair) auto
  have s: "plane_coord px py + 1 = of_nat (py * 65536 + (px + 1))" unfolding c by simp
  show "plane_coord px py + 1 = plane_coord px' py' \<longleftrightarrow> px + 1 = px' \<and> py = py'"
    unfolding s c(2) using assms by (subst n, simp, simp, subst pair) auto
  have m: "(NOT 0 :: u32) = of_nat (2 ^ 32 - 1)" by simp
  show "plane_coord px py \<noteq> NOT 0"
    unfolding c m using assms by (subst n) auto
qed

definition cache_ok :: "GVDP \<Rightarrow> u16 \<Rightarrow> nat \<Rightarrow> bool \<Rightarrow> PlanePixelCache \<Rightarrow> bool" where
  "cache_ok v base wt im2 c \<longleftrightarrow> next_coord c = NOT 0 \<or>
    (\<exists>px py. px < 1023 \<and> py < 2048 \<and> px mod 8 \<noteq> 7 \<and> next_coord c = plane_coord px py + 1 \<and>
       cache_attr c = plane_entry v base wt (plane_shift im2) px py)"

lemma cache_ok_empty [simp]: "cache_ok v base wt im2 empty_cache"
  by (simp add: cache_ok_def empty_cache_def)

lemma cached_entry:
  assumes "cache_ok v base wt im2 c" "px < 1024" "py < 2048"
  shows "(if next_coord c = plane_coord px py then cache_attr c else plane_entry v base wt (plane_shift im2) px py) =
    plane_entry v base wt (plane_shift im2) px py"
proof (cases "next_coord c = plane_coord px py")
  case True
  with assms plane_coord_inject(3) [of px py] obtain px' py' where h: "px' < 1023" "py' < 2048" "px' mod 8 \<noteq> 7"
      "plane_coord px' py' + 1 = plane_coord px py" "cache_attr c = plane_entry v base wt (plane_shift im2) px' py'"
    by (auto simp: cache_ok_def)
  then have "px = px' + 1" "py = py'" using plane_coord_inject(2) [of px' py' px py] assms(2,3) by auto
  moreover have "(px' + 1) div 8 = px' div 8" using h(3) by presburger
  ultimately show ?thesis using h(5) by (simp add: plane_entry_def)
qed simp

lemma fetch_plane_pixel_exact:
  assumes "plane_size wt" "plane_size ht" "cache_ok v base wt im2 c"
  shows "fst (fetch_plane_pixel p v base wt ht px0 py0 im2 c) = plane_pixel_at p v base wt ht px0 py0 im2
    \<and> cache_ok v base wt im2 (snd (fetch_plane_pixel p v base wt ht px0 py0 im2 c))"
proof -
  define px where "px = nat (px0 mod int (wt * 8))"
  define py where "py = nat (py0 mod int (push_bit (plane_shift im2) ht))"
  have b: "px < 1024" "py < 2048" using plane_bounds assms(1,2) by (simp_all only: px_def py_def)
  have "px < 1023" if "px mod 8 \<noteq> 7" using that b(1) by presburger
  then have "cache_ok v base wt im2 \<lparr>next_coord = if px mod 8 \<noteq> 7 then plane_coord px py + 1 else NOT 0,
      cache_attr = plane_entry v base wt (plane_shift im2) px py\<rparr>"
    using b by (auto simp: cache_ok_def)
  then show ?thesis
    unfolding fetch_plane_pixel_def plane_pixel_at_def Let_def plane_shift_def [symmetric] plane_masks [OF assms(1)] plane_masks [OF assms(2)]
      px_def [symmetric] py_def [symmetric] cached_entry [OF assms(3) b]
    by (simp only: fst_conv snd_conv)
qed

section \<open>Plane spans\<close>

definition unpack :: "present \<Rightarrow> u8 \<times> u8 \<Rightarrow> plane_pixel" where
  "unpack p = (\<lambda>(packed, private).
    \<lparr>px_idx = (if gvdp_ext_active p \<and> private \<noteq> 0 then private else packed AND 0x3F),
     px_opaque = bit packed 6, px_hi = bit packed 7\<rparr>)"

lemma packed_planes_unpack:
  "packed_planes p t xo = (unpack p (plane_a t xo, private_a t xo), unpack p (plane_b t xo, private_b t xo))"
  by (simp add: packed_planes_def unpack_def)

definition entry_attr :: "u16 \<Rightarrow> u8" where
  "entry_attr e = ucast ((drop_bit 9 e AND 0x30) OR (drop_bit 8 e AND 0x80))"

lemma packed_fields:
  fixes x :: u8 and e :: u16
  shows "packed_pixel (entry_attr e) (x AND 15) AND 15 = x AND 15"
    "packed_pixel (entry_attr e) (x AND 15) AND 0x3F = ucast (drop_bit 13 e AND 3) * 16 + (x AND 15)"
    "bit (packed_pixel (entry_attr e) (x AND 15)) 6 \<longleftrightarrow> x AND 15 \<noteq> 0"
    "bit (packed_pixel (entry_attr e) (x AND 15)) 7 \<longleftrightarrow> bit e 15"
proof -
  have m: "(15 :: u8) = mask 4" by (simp add: mask_eq_exp_minus_1)
  have "(ucast (drop_bit 13 e AND 3) :: u8) * 16 = push_bit 4 (ucast (drop_bit 13 e AND 3))"
    by (simp add: push_bit_eq_mult)
  moreover have "push_bit 4 (ucast (drop_bit 13 e AND 3) :: u8) AND (x AND 15) = 0"
    unfolding m by (rule bit_word_eqI) (auto simp: bit_simps)
  ultimately have "(ucast (drop_bit 13 e AND 3) :: u8) * 16 + (x AND 15) = push_bit 4 (ucast (drop_bit 13 e AND 3)) OR (x AND 15)"
    by (simp only: disjunctive_add_eq_or)
  then show "packed_pixel (entry_attr e) (x AND 15) AND 0x3F = ucast (drop_bit 13 e AND 3) * 16 + (x AND 15)"
    by (simp only: byte_eq_iff) (simp add: packed_pixel_def entry_attr_def bit_simps)
  show "packed_pixel (entry_attr e) (x AND 15) AND 15 = x AND 15"
    by (simp only: byte_eq_iff) (simp add: packed_pixel_def entry_attr_def bit_simps)
  show "bit (packed_pixel (entry_attr e) (x AND 15)) 6 \<longleftrightarrow> x AND 15 \<noteq> 0"
    "bit (packed_pixel (entry_attr e) (x AND 15)) 7 \<longleftrightarrow> bit e 15"
    by (simp_all add: packed_pixel_def entry_attr_def bit_simps)
qed

lemma private_index_nonzero: "ext \<le> 3 \<Longrightarrow> GVDP_HOST_PALETTE_BASE + of_nat ((ext - 1) * 16) + (x AND 15 :: u8) \<noteq> 0"
  "ext \<le> 3 \<Longrightarrow> 193 \<le> GVDP_HOST_PALETTE_BASE + of_nat ((ext - 1) * 16) + (x AND 15 :: u8)"
proof -
  assume "ext \<le> 3"
  then consider "ext - 1 = 0" | "ext - 1 = 1" | "ext - 1 = 2" by linarith
  then show g: "193 \<le> GVDP_HOST_PALETTE_BASE + of_nat ((ext - 1) * 16) + (x AND 15 :: u8)"
    by cases (simp_all only: GVDP_HOST_PALETTE_BASE_def, (rule low_nibble_cases, simp)+)
  then show "GVDP_HOST_PALETTE_BASE + of_nat ((ext - 1) * 16) + (x AND 15 :: u8) \<noteq> 0"
    by (auto simp: word_le_nat_alt)
qed

lemma gvdp_ext_line_bound: "gvdp_ext_line p tile \<le> 3" "gvdp_ext_line p tile \<noteq> 0 \<Longrightarrow> gvdp_ext_active p"
  by (auto simp: gvdp_ext_line_def gvdp_ext_active_def GVDP_EXT_LINES_def Let_def split: option.splits)

text \<open>An entry's pixel by its tile row: the nibble, and the packed byte with its private index.\<close>

definition entry_row :: "GVDP \<Rightarrow> u16 \<Rightarrow> bool \<Rightarrow> nat \<Rightarrow> u32" where
  "entry_row v e im2 py =
    (let fy_mask = (if im2 then 15 else 7); tile_bytes = (if im2 then 64 else 32);
         fy = (if bit e 12 then (py AND fy_mask) XOR fy_mask else py AND fy_mask);
         pa = of_nat (unat (e AND 0x7ff) * tile_bytes + fy * 4) :: u16
     in push_bit 24 (ucast (vram v pa)) OR push_bit 16 (ucast (vram v (pa + 1))) OR
        push_bit 8 (ucast (vram v (pa + 2))) OR ucast (vram v (pa + 3)))"

definition entry_nibble :: "GVDP \<Rightarrow> u16 \<Rightarrow> bool \<Rightarrow> nat \<Rightarrow> nat \<Rightarrow> u8" where
  "entry_nibble v e im2 py k = row_nibble (entry_row v e im2 py) (if bit e 11 then 7 - k else k)"

definition entry_ext :: "present \<Rightarrow> u16 \<Rightarrow> nat" where
  "entry_ext p e = (if e AND 0x6000 = 0 then gvdp_ext_line p (unat (e AND 0x7ff)) else 0)"

lemma four_bytes: "j < 4 \<Longrightarrow> [vram v pa, vram v (pa + 1), vram v (pa + 2), vram v (pa + 3)] ! j = vram v (pa + of_nat j)"
  by (auto simp: numeral_eq_Suc less_Suc_eq)

lemma entry_pixel_nibble:
  "entry_pixel p v e im2 px py =
    (let nib = entry_nibble v e im2 py (px mod 8); ext = (if nib \<noteq> 0 then entry_ext p e else 0)
     in \<lparr>px_idx = (if ext \<noteq> 0 then GVDP_HOST_PALETTE_BASE + of_nat ((ext - 1) * 16) + nib
                   else ucast (drop_bit 13 e AND 3) * 16 + nib),
         px_opaque = (nib \<noteq> 0), px_hi = bit e 15\<rparr>)"
proof -
  define fy where "fy = (if bit e 12 then (py AND (if im2 then 15 else 7)) XOR (if im2 then 15 else 7) else py AND (if im2 then 15 else 7))"
  define a where "a = unat (e AND 0x7ff) * (if im2 then 64 else 32) + fy * 4"
  define fx where "fx = (if bit e 11 then px mod 8 XOR 7 else px mod 8)"
  have fx: "fx = (if bit e 11 then 7 - px mod 8 else px mod 8)" "fx < 8"
    using xor_seven [of "px mod 8"] by (auto simp: fx_def less_Suc_eq_le intro: order.trans)
  have h: "fx div 2 < 4" using fx(2) by simp
  have "entry_nibble v e im2 py (px mod 8) =
      (let b = vram v (of_nat a + of_nat (fx div 2)) in if odd fx then b AND 15 else drop_bit 4 b)"
    unfolding entry_nibble_def entry_row_def Let_def fy_def [symmetric] a_def [symmetric] fx(1) [symmetric]
    by (simp only: byte_pair_nibbles [OF fx(2)] Let_def four_bytes [OF h])
  then have n: "(let byte = vram v (of_nat (a + fx div 2)) in if odd fx then byte AND 0x0F else drop_bit 4 byte) =
      entry_nibble v e im2 py (px mod 8)"
    by (simp only: of_nat_add)
  show ?thesis
    unfolding entry_pixel_def Let_def fy_def [symmetric] a_def [symmetric] fx_def [symmetric] n [unfolded Let_def] entry_ext_def
    by simp
qed

lemma nibble_form: "\<exists>y. entry_nibble v e im2 py k = y AND 15"
  by (auto simp: entry_nibble_def row_nibble_def)

lemma span_tile_nth:
  assumes "i < n" "fx + n \<le> 8"
  shows "span_tile cfg p v e py im2 fx n ! i =
    (let nib = entry_nibble v e im2 py (fx + i)
     in (packed_pixel (entry_attr e) nib,
         if entry_ext p e \<noteq> 0 \<and> nib \<noteq> 0 then GVDP_HOST_PALETTE_BASE + of_nat ((entry_ext p e - 1) * 16) + nib else 0))"
proof -
  have "fx + i < 8" using assms by simp
  then have "memory_byte (little_endian cfg) (gtile_packed_row (little_endian cfg) (entry_row v e im2 py) (entry_attr e) (bit e 11)) (fx + i)
      = packed_pixel (entry_attr e) (entry_nibble v e im2 py (fx + i))"
    "row_nibble (entry_row v e im2 py) (fx + i XOR (if bit e 11 then 7 else 0)) = entry_nibble v e im2 py (fx + i)"
    by (simp_all add: gtile_packed_row_bytes entry_nibble_def xor_seven)
  moreover obtain y where "entry_nibble v e im2 py (fx + i) = y AND 15" using nibble_form by blast
  ultimately show ?thesis
    using assms(1) unfolding span_tile_def Let_def entry_attr_def [symmetric] entry_ext_def [symmetric]
      entry_row_def [unfolded Let_def, symmetric]
    by (simp add: packed_fields)
qed

lemma span_tile_length [simp]: "length (span_tile cfg p v e py im2 fx n) = n"
  by (simp add: span_tile_def Let_def)

text \<open>Every private index of a span is zero or a host colour.\<close>

definition host_index :: "u8 \<Rightarrow> bool" where
  "host_index x \<longleftrightarrow> x = 0 \<or> 193 \<le> x"

lemma span_tile_unpack:
  assumes "i < n" "fx + n \<le> 8" "px mod 8 = fx + i"
  shows "unpack p (span_tile cfg p v e py im2 fx n ! i) = entry_pixel p v e im2 px py
    \<and> host_index (snd (span_tile cfg p v e py im2 fx n ! i))"
proof -
  obtain y where y: "entry_nibble v e im2 py (fx + i) = y AND 15" using nibble_form by blast
  define nib where "nib = y AND 15"
  define packed where "packed = packed_pixel (entry_attr e) nib"
  define host where "host = GVDP_HOST_PALETTE_BASE + of_nat ((entry_ext p e - 1) * 16) + nib"
  have le: "entry_ext p e \<le> 3" and act: "entry_ext p e \<noteq> 0 \<Longrightarrow> gvdp_ext_active p"
    using gvdp_ext_line_bound [of p] by (auto simp: entry_ext_def split: if_splits)
  have h: "host \<noteq> 0" "193 \<le> host" unfolding host_def nib_def by (rule private_index_nonzero [OF le])+
  have f: "packed AND 0x3F = ucast (drop_bit 13 e AND 3) * 16 + nib" "bit packed 6 \<longleftrightarrow> nib \<noteq> 0" "bit packed 7 \<longleftrightarrow> bit e 15"
    by (simp_all only: packed_def nib_def packed_fields)
  show ?thesis
    unfolding span_tile_nth [OF assms(1,2)] entry_pixel_nibble assms(3) y Let_def nib_def [symmetric] packed_def [symmetric]
      host_def [symmetric] unpack_def host_index_def
    using h act by (auto simp: f) (simp add: host_def)
qed

lemma plane_pixel_cell:
  fixes px :: nat
  assumes "px < wt * 8" "px mod 8 + i < 8"
  shows "(px + i) div 8 = px div 8 \<and> (px + i) mod 8 = px mod 8 + i \<and> px + i < wt * 8"
proof -
  define q k where "q = px div 8" and "k = px mod 8"
  have px: "px = q * 8 + k" by (simp add: q_def k_def)
  have "q < wt" unfolding q_def by (rule less_mult_imp_div_less [OF assms(1)])
  have "k + i < 8" unfolding k_def by (rule assms(2))
  have "q * 8 + 8 \<le> wt * 8" using \<open>q < wt\<close> by linarith
  with \<open>k + i < 8\<close> show ?thesis by (simp add: px add.assoc)
qed

lemma plane_pixel_shift:
  "plane_pixel_at p v base wt ht (int (nat (px0 mod int (wt * 8))) + k) py0 im2 = plane_pixel_at p v base wt ht (px0 + k) py0 im2"
  if "plane_size wt"
proof -
  have "0 < int (wt * 8)" using that by (auto simp: plane_size_def)
  then have "int (nat (px0 mod int (wt * 8))) = px0 mod int (wt * 8)" by (simp only: pos_mod_sign nat_0_le)
  then show ?thesis by (simp only: plane_pixel_at_def mod_add_left_eq)
qed

lemma fetch_plane_span_exact:
  assumes "plane_size wt" "plane_size ht"
  shows "length (fetch_plane_span cfg p v base wt ht px0 py0 im2 count) = count \<and>
    (\<forall>i < count. unpack p (fetch_plane_span cfg p v base wt ht px0 py0 im2 count ! i) =
        plane_pixel_at p v base wt ht (px0 + int i) py0 im2
      \<and> host_index (snd (fetch_plane_span cfg p v base wt ht px0 py0 im2 count ! i)))"
  using assms
proof (induction cfg p v base wt ht px0 py0 im2 count rule: fetch_plane_span.induct)
  case (1 cfg p v base wt ht px0 py0 im2 count)
  show ?case
  proof (cases "count = 0")
    case True
    then show ?thesis by (simp add: fetch_plane_span.simps)
  next
    case False
    define px where "px = nat (px0 mod int (wt * 8))"
    define py where "py = nat (py0 mod int (push_bit (plane_shift im2) ht))"
    define n where "n = min (8 - px mod 8) count"
    let ?e = "plane_entry v base wt (plane_shift im2) px py"
    let ?rest = "fetch_plane_span cfg p v base wt ht (int px + int n) py0 im2 (count - n)"
    have bnd: "px < wt * 8" using plane_bounds(1) "1.prems"(1) by (simp add: px_def)
    have e: "?e = vram_read_word v (base + of_nat (drop_bit (plane_shift im2) py * wt * 2) + of_nat (px div 8 * 2))"
      by (simp add: plane_entry_def distrib_left distrib_right mult.commute mult.left_commute add.assoc)
    have step: "fetch_plane_span cfg p v base wt ht px0 py0 im2 count = span_tile cfg p v ?e py im2 (px mod 8) n @ ?rest"
      unfolding e by (subst fetch_plane_span.simps)
        (simp only: False if_False Let_def plane_shift_def [symmetric] plane_masks [OF "1.prems"(1)] plane_masks [OF "1.prems"(2)]
          px_def [symmetric] py_def [symmetric] n_def [symmetric])
    have rest: "length ?rest = count - n \<and> (\<forall>i < count - n. unpack p (?rest ! i) =
        plane_pixel_at p v base wt ht (int px + int n + int i) py0 im2 \<and> host_index (snd (?rest ! i)))"
      using "1.IH" [OF False refl refl refl refl refl refl "1.prems"]
      unfolding plane_shift_def [symmetric] plane_masks [OF "1.prems"(1)] plane_masks [OF "1.prems"(2)]
        px_def [symmetric] py_def [symmetric] n_def [symmetric] .
    have first: "unpack p (span_tile cfg p v ?e py im2 (px mod 8) n ! i) = plane_pixel_at p v base wt ht (px0 + int i) py0 im2
        \<and> host_index (snd (span_tile cfg p v ?e py im2 (px mod 8) n ! i))" if "i < n" for i
    proof -
      have "px mod 8 + i < 8" "px mod 8 + n \<le> 8" using that by (auto simp: n_def)
      then have i: "(px + i) div 8 = px div 8" "(px + i) mod 8 = px mod 8 + i" "px + i < wt * 8"
        using plane_pixel_cell [OF bnd] by auto
      have "plane_pixel_at p v base wt ht (px0 + int i) py0 im2 = plane_pixel_at p v base wt ht (int px + int i) py0 im2"
        using plane_pixel_shift [OF "1.prems"(1)] by (simp only: px_def)
      also have "(int px + int i) mod int (wt * 8) = int (px + i)"
        using i(3) by (simp flip: of_nat_add)
      then have "plane_pixel_at p v base wt ht (int px + int i) py0 im2 =
          entry_pixel p v (plane_entry v base wt (plane_shift im2) (px + i) py) im2 (px + i) py"
        by (simp only: plane_pixel_at_def Let_def py_def nat_int)
      also have "plane_entry v base wt (plane_shift im2) (px + i) py = ?e"
        by (simp only: plane_entry_def i)
      finally show ?thesis
        using span_tile_unpack [OF that \<open>px mod 8 + n \<le> 8\<close> i(2)] by simp
    qed
    have "n \<le> count" by (simp add: n_def)
    moreover have "int px + int n + int (i - n) = int px + int i" if "n \<le> i" for i using that by simp
    moreover have "plane_pixel_at p v base wt ht (int px + k) py0 im2 = plane_pixel_at p v base wt ht (px0 + k) py0 im2" for k
      unfolding px_def by (rule plane_pixel_shift [OF "1.prems"(1)])
    ultimately show ?thesis
      using first rest unfolding step by (auto simp: nth_append not_less less_diff_conv2)
  qed
qed

end
