(* ===== verification/Vdp_Row.thy ===== *)
theory Vdp_Row
  imports Vdp_Render_Props
begin

text \<open>
  Whole rows: the spans of a row give the plane pixels that the scalar loop fetches column by column,
  the selection table and the word-wide composition give the priority cascade with its shading, and so
  the scalar and the batched renderers, captured rows and evaluated rows agree.
\<close>

section \<open>Planes of a row\<close>

definition row_ok :: "row_regs \<Rightarrow> bool" where
  "row_ok r \<longleftrightarrow> plane_size (r_wt r) \<and> plane_size (r_ht r) \<and> plane_size (r_win_wt r) \<and> 0 \<le> r_window_x r
    \<and> 0 < r_w r \<and> 16 dvd r_w r"

lemma row_ok_setup [simp]: "row_ok (row_setup p v line)"
  by (auto simp: row_ok_def row_setup_def Let_def plane_size_def plane_tiles_def gvdp_screen_width_def)

definition plane_a_at :: "present \<Rightarrow> GVDP \<Rightarrow> row_regs \<Rightarrow> int \<Rightarrow> int \<Rightarrow> plane_pixel" where
  "plane_a_at p v r line x =
    (if in_window r x then plane_pixel_at p v (r_base_w r) (r_win_wt r) (r_ht r) x line (r_im2 r)
     else plane_pixel_at p v (r_base_a r) (r_wt r) (r_ht r) (x - r_hs_a r) (line + fst (column_scroll v r x)) (r_im2 r))"

definition plane_b_at :: "present \<Rightarrow> GVDP \<Rightarrow> row_regs \<Rightarrow> int \<Rightarrow> int \<Rightarrow> plane_pixel" where
  "plane_b_at p v r line x =
    plane_pixel_at p v (r_base_b r) (r_wt r) (r_ht r) (x - r_hs_b r) (line + snd (column_scroll v r x)) (r_im2 r)"

lemma span_boundary_cases:
  assumes "row_ok r" "x \<le> x'" "x' < span_boundary r extra x"
  shows "in_window r x' = in_window r x" "column_scroll v r x' = column_scroll v r x" "x' < r_w r + extra"
proof -
  have w: "0 \<le> r_window_x r" "0 < r_w r" "16 dvd r_w r" using assms(1) by (auto simp: row_ok_def)
  have lim: "x' < r_w r + extra"
    and win: "r_window_x r \<le> x \<longleftrightarrow> r_window_x r \<le> x'"
    and zone: "x < 0 \<and> x' < 0 \<or> r_w r \<le> x \<and> r_w r \<le> x' \<or> 0 \<le> x \<and> x < r_w r \<and> x' < (x div 16 + 1) * 16"
    using assms(2,3) w(1,2) by (auto simp: span_boundary_def Let_def split: if_splits)
  have col: "x' < r_w r \<and> x' div 16 = x div 16" if "0 \<le> x" "x < r_w r" "x' < (x div 16 + 1) * 16"
  proof -
    obtain k where k: "r_w r = 16 * k" using w(3) by (elim dvdE)
    have "x div 16 < k" using that(2) unfolding k by linarith
    moreover have "x' div 16 = x div 16"
    proof (rule int_div_pos_eq)
      show "x' = 16 * (x div 16) + (x' - 16 * (x div 16))" by simp
      show "0 \<le> x' - 16 * (x div 16)" using assms(2) mult_div_mod_eq [of 16 x] pos_mod_sign [of 16 x] by linarith
      show "x' - 16 * (x div 16) < 16" using that(3) by simp
    qed
    ultimately show ?thesis using that unfolding k by linarith
  qed
  show "in_window r x' = in_window r x"
    using zone win col assms(2) w by (auto simp: in_window_def not_le not_less)
  show "column_scroll v r x' = column_scroll v r x"
    using zone col assms(2) w by (auto simp: column_scroll_def Let_def)
  show "x' < r_w r + extra" by (rule lim)
qed

definition row_good :: "present \<Rightarrow> GVDP \<Rightarrow> row_regs \<Rightarrow> int \<Rightarrow> int \<Rightarrow> plane_rows \<Rightarrow> int \<Rightarrow> bool" where
  "row_good p v r line offset t x \<longleftrightarrow>
    unpack p (plane_a t (x + offset), private_a t (x + offset)) = plane_a_at p v r line x \<and>
    unpack p (plane_b t (x + offset), private_b t (x + offset)) = plane_b_at p v r line x \<and>
    host_index (private_a t (x + offset)) \<and> host_index (private_b t (x + offset))"

lemma put_span_at:
  "put_span (x + offset) (map f xs) buf (x' + offset) =
    (if x \<le> x' \<and> x' < x + int (length xs) then f (xs ! nat (x' - x)) else buf (x' + offset))"
  by (auto simp: put_span_def)

text \<open>One turn of the loop writes the columns of its span and keeps the others.\<close>

lemma plane_spans_step:
  assumes ok: "row_ok r" and x: "x < r_w r + extra" and old: "x' < x \<Longrightarrow> row_good p v r line offset t x'"
    and x': "x' < span_boundary r extra x"
  shows "let n = nat (span_boundary r extra x - x);
      (vs_a, vs_b) = column_scroll v r x; xo = x + offset;
      sa = (if in_window r x
            then fetch_plane_span cfg p v (r_base_w r) (r_win_wt r) (r_ht r) x line (r_im2 r) n
            else fetch_plane_span cfg p v (r_base_a r) (r_wt r) (r_ht r) (x - r_hs_a r) (line + vs_a) (r_im2 r) n);
      sb = fetch_plane_span cfg p v (r_base_b r) (r_wt r) (r_ht r) (x - r_hs_b r) (line + vs_b) (r_im2 r) n
    in row_good p v r line offset
         (t\<lparr>plane_a := put_span xo (map fst sa) (plane_a t), private_a := put_span xo (map snd sa) (private_a t),
            plane_b := put_span xo (map fst sb) (plane_b t), private_b := put_span xo (map snd sb) (private_b t)\<rparr>) x'"
proof -
  have sz: "plane_size (r_wt r)" "plane_size (r_ht r)" "plane_size (r_win_wt r)" using ok by (auto simp: row_ok_def)
  define n where "n = nat (span_boundary r extra x - x)"
  have n: "x + int n = span_boundary r extra x" using span_boundary_progress [OF x] by (simp add: n_def)
  define sa where "sa = (if in_window r x
      then fetch_plane_span cfg p v (r_base_w r) (r_win_wt r) (r_ht r) x line (r_im2 r) n
      else fetch_plane_span cfg p v (r_base_a r) (r_wt r) (r_ht r) (x - r_hs_a r) (line + fst (column_scroll v r x)) (r_im2 r) n)"
  define sb where "sb = fetch_plane_span cfg p v (r_base_b r) (r_wt r) (r_ht r) (x - r_hs_b r) (line + snd (column_scroll v r x)) (r_im2 r) n"
  have len: "length sa = n" "length sb = n"
    using fetch_plane_span_exact sz by (auto simp: sa_def sb_def)
  have new: "unpack p (sa ! nat (x' - x)) = plane_a_at p v r line x' \<and> unpack p (sb ! nat (x' - x)) = plane_b_at p v r line x'
      \<and> host_index (snd (sa ! nat (x' - x))) \<and> host_index (snd (sb ! nat (x' - x)))" if "x \<le> x'"
  proof -
    define i where "i = nat (x' - x)"
    have i: "i < n" "x' = x + int i" using that x' n by (auto simp: i_def)
    note same = span_boundary_cases [OF ok that x']
    show ?thesis
      using i(1) fetch_plane_span_exact [OF sz(3,2), of cfg p v "r_base_w r" x line "r_im2 r" n]
        fetch_plane_span_exact [OF sz(1,2), of cfg p v "r_base_a r" "x - r_hs_a r" "line + fst (column_scroll v r x)" "r_im2 r" n]
        fetch_plane_span_exact [OF sz(1,2), of cfg p v "r_base_b r" "x - r_hs_b r" "line + snd (column_scroll v r x)" "r_im2 r" n]
      unfolding i_def [symmetric] plane_a_at_def plane_b_at_def same sa_def sb_def i(2) [symmetric]
      by (simp add: i(2) diff_add_eq)
  qed
  show ?thesis
    unfolding Let_def case_prod_unfold n_def [symmetric] sa_def [symmetric] sb_def [symmetric] row_good_def
    using new old x' by (simp add: put_span_at len n row_good_def)
qed

lemma plane_spans_exact:
  assumes "row_ok r" "\<And>x'. lo \<le> x' \<Longrightarrow> x' < x \<Longrightarrow> row_good p v r line offset t x'"
    "lo \<le> x'" "x' < r_w r + extra"
  shows "row_good p v r line offset (plane_spans cfg p v r line extra offset x t) x'"
  using assms
proof (induction cfg p v r line extra offset x t rule: plane_spans.induct)
  case (1 cfg p v r line extra offset x t)
  show ?case
  proof (cases "x < r_w r + extra")
    case False
    then show ?thesis using "1.prems" by (subst plane_spans.simps) auto
  next
    case True
    obtain vs_a vs_b where vs: "column_scroll v r x = (vs_a, vs_b)" by fastforce
    let ?n = "nat (span_boundary r extra x - x)" and ?xo = "x + offset"
    let ?sa = "if in_window r x
      then fetch_plane_span cfg p v (r_base_w r) (r_win_wt r) (r_ht r) x line (r_im2 r) ?n
      else fetch_plane_span cfg p v (r_base_a r) (r_wt r) (r_ht r) (x - r_hs_a r) (line + vs_a) (r_im2 r) ?n"
    let ?sb = "fetch_plane_span cfg p v (r_base_b r) (r_wt r) (r_ht r) (x - r_hs_b r) (line + vs_b) (r_im2 r) ?n"
    let ?t = "t\<lparr>plane_a := put_span ?xo (map fst ?sa) (plane_a t), private_a := put_span ?xo (map snd ?sa) (private_a t),
      plane_b := put_span ?xo (map fst ?sb) (plane_b t), private_b := put_span ?xo (map snd ?sb) (private_b t)\<rparr>"
    have "row_good p v r line offset ?t y" if "lo \<le> y" "y < span_boundary r extra x" for y
      using plane_spans_step [OF "1.prems"(1) True "1.prems"(2) [OF that(1)] that(2), of cfg] by (simp only: Let_def vs prod.case)
    then have "row_good p v r line offset (plane_spans cfg p v r line extra offset (span_boundary r extra x) ?t) x'"
      using "1.IH" [OF True refl refl vs [symmetric] refl refl refl refl "1.prems"(1)] "1.prems"(3,4) by blast
    then show ?thesis
      using True by (subst plane_spans.simps) (simp only: Let_def vs prod.case if_True)
  qed
qed

section \<open>The scalar loop\<close>

definition caches_ok :: "GVDP \<Rightarrow> row_regs \<Rightarrow> caches \<Rightarrow> bool" where
  "caches_ok v r = (\<lambda>(a, b, w). cache_ok v (r_base_a r) (r_wt r) (r_im2 r) a \<and> cache_ok v (r_base_b r) (r_wt r) (r_im2 r) b
    \<and> cache_ok v (r_base_w r) (r_win_wt r) (r_im2 r) w)"

lemma scalar_planes_exact:
  assumes "row_ok r" "caches_ok v r cs"
  shows "\<exists>cs'. scalar_planes p v r line x cs = (plane_a_at p v r line x, plane_b_at p v r line x, cs') \<and> caches_ok v r cs'"
proof -
  have sz: "plane_size (r_wt r)" "plane_size (r_ht r)" "plane_size (r_win_wt r)" using assms(1) by (auto simp: row_ok_def)
  obtain a b w where cs: "cs = (a, b, w)" by (cases cs) auto
  obtain vs_a vs_b where vs: "column_scroll v r x = (vs_a, vs_b)" by fastforce
  note ok = assms(2) [unfolded caches_ok_def cs prod.case]
  note fa = fetch_plane_pixel_exact [OF sz(1,2) conjunct1 [OF ok], of p "x - r_hs_a r" "line + vs_a"]
  note fb = fetch_plane_pixel_exact [OF sz(1,2) conjunct1 [OF conjunct2 [OF ok]], of p "x - r_hs_b r" "line + vs_b"]
  note fw = fetch_plane_pixel_exact [OF sz(3,2) conjunct2 [OF conjunct2 [OF ok]], of p x line]
  show ?thesis
    using fa fb fw ok by (auto simp: scalar_planes_def cs vs Let_def case_prod_unfold plane_a_at_def plane_b_at_def caches_ok_def)
qed

definition column_value :: "present \<Rightarrow> GVDP \<Rightarrow> row_regs \<Rightarrow> int \<Rightarrow> int \<Rightarrow> u8 \<Rightarrow> sprite_layer \<Rightarrow> int \<Rightarrow> u8" where
  "column_value p v r line offset backdrop s xo =
    (let a = plane_a_at p v r line (xo - offset); b = plane_b_at p v r line (xo - offset);
         px = select_cascade a b (s_spr_op s xo) (s_spr_hi s xo) (s_spr_idx s xo) backdrop
     in mark_wrap p r (xo - offset) (shade_pixel (MODE4_SHI v) a b s xo px))"

lemma scalar_loop:
  assumes "row_ok r" "caches_ok v r cs"
  shows "snd (fold (scalar_pixel p v r line offset backdrop s) xs (cs, out)) =
    (\<lambda>i. if i \<in> set xs then column_value p v r line offset backdrop s i else out i)"
  using assms(2)
proof (induction xs arbitrary: cs out)
  case (Cons x xs)
  obtain cs' where "scalar_planes p v r line (x - offset) cs =
      (plane_a_at p v r line (x - offset), plane_b_at p v r line (x - offset), cs')" "caches_ok v r cs'"
    using scalar_planes_exact [OF assms(1) Cons.prems] by blast
  then show ?case
    using Cons.IH [of cs'] by (auto simp: scalar_pixel_def Let_def column_value_def fun_eq_iff)
qed simp

end
