(* ===== verification/Vdp_Compose.thy ===== *)
theory Vdp_Compose
  imports Vdp_Row
begin

text \<open>
  Composition of a row and the agreement of the renderers.
\<close>

section \<open>Priority\<close>

definition winner :: "u8 \<Rightarrow> u8 \<Rightarrow> bool \<Rightarrow> bool \<Rightarrow> nat" where
  "winner a b op hi =
    (if op \<and> hi then 3 else if bit a 6 \<and> bit a 7 then 2 else if bit b 6 \<and> bit b 7 then 1
     else if op then 3 else if bit a 6 then 2 else if bit b 6 then 1 else 0)"

lemma top_bits: "drop_bit 6 a = of_bool (bit a 6) + 2 * of_bool (bit a 7)" for a :: u8
proof -
  have "(of_bool (bit a 6) :: u8) AND 2 * of_bool (bit a 7) = 0" by simp
  then have "(of_bool (bit a 6) :: u8) + 2 * of_bool (bit a 7) = of_bool (bit a 6) OR 2 * of_bool (bit a 7)"
    by (rule disjunctive_add_eq_or)
  then show ?thesis
    by (simp only: byte_eq_iff) (simp add: bit_simps bit_u8_high)
qed

lemma select_winner:
  assumes "op \<le> 1" "hi \<le> 1"
  shows "s_layer_select ! select_key a b op hi mod 4 = winner a b (op \<noteq> 0) (hi \<noteq> 0)"
proof -
  have "op = 0 \<or> op = 1" "hi = 0 \<or> hi = 1"
    using flag_byte [OF assms(1)] flag_byte [OF assms(2)] by (metis of_bool_eq)+
  then show ?thesis
    unfolding select_key_def top_bits winner_def s_layer_select_def
    by (elim disjE; cases "bit a 6"; cases "bit a 7"; cases "bit b 6"; cases "bit b 7"; simp)
qed

lemma pick_color:
  fixes c0 c1 c2 c3 :: u8
  assumes "k < 4"
  shows "(ucast (drop_bit (k * 8) (((ucast c0 OR push_bit 8 (ucast c1)) OR push_bit 16 (ucast c2)) OR push_bit 24 (ucast c3) :: u32)) :: u8)
    = [c0, c1, c2, c3] ! k"
proof -
  have "k \<in> {0, 1, 2, 3}" using assms by auto
  then show ?thesis
    by (elim insertE emptyE; simp only:; intro bit_word_eqI) (auto simp: bit_simps bit_u8_high)
qed

lemma select_table_cascade:
  assumes "op \<le> 1" "hi \<le> 1"
  shows "select_table (fst x) (fst y) op hi (px_idx (unpack p x)) (px_idx (unpack p y)) si backdrop =
    select_cascade (unpack p x) (unpack p y) op hi si backdrop"
proof -
  have "winner (fst x) (fst y) (op \<noteq> 0) (hi \<noteq> 0) < 4" by (simp add: winner_def)
  then show ?thesis
    unfolding select_table_def Let_def select_winner [OF assms] pick_color [OF \<open>winner (fst x) (fst y) (op \<noteq> 0) (hi \<noteq> 0) < 4\<close>]
    by (simp add: winner_def select_cascade_def unpack_def case_prod_unfold)
qed

definition sprite_flags_01 :: "sprite_layer \<Rightarrow> int \<Rightarrow> bool" where
  "sprite_flags_01 s x \<longleftrightarrow> s_spr_op s x \<le> 1 \<and> s_spr_hi s x \<le> 1 \<and> s_spr_shadow_op s x \<le> 1 \<and> s_spr_hilite_op s x \<le> 1"

lemma flags_01_layers [simp]: "flags_01 (layers_of t s) x = sprite_flags_01 s x"
  by (simp add: flags_01_def layers_of_def sprite_flags_01_def)

lemma fold_columns: "fold (\<lambda>x out. out(x := f x)) xs out = (\<lambda>i. if i \<in> set xs then f i else out i)"
  by (induction xs arbitrary: out) (auto simp: fun_eq_iff)

lemma packed_columns:
  assumes "\<And>x. x \<in> set xs \<Longrightarrow> row_good p v r line offset t (x - offset)" "\<And>x. x \<in> set xs \<Longrightarrow> sprite_flags_01 s x"
  shows "fold (packed_column p v r offset backdrop t s) xs out =
    (\<lambda>i. if i \<in> set xs then column_value p v r line offset backdrop s i else out i)"
proof -
  have "packed_column p v r offset backdrop t s x out' = out'(x := column_value p v r line offset backdrop s x)"
    if "x \<in> set xs" for x out'
  proof -
    have g: "unpack p (plane_a t x, private_a t x) = plane_a_at p v r line (x - offset)"
      "unpack p (plane_b t x, private_b t x) = plane_b_at p v r line (x - offset)"
      using assms(1) [OF that] by (simp_all add: row_good_def)
    have "s_spr_op s x \<le> 1" "s_spr_hi s x \<le> 1" using assms(2) [OF that] by (simp_all add: sprite_flags_01_def)
    from select_table_cascade [OF this, of "(plane_a t x, private_a t x)" "(plane_b t x, private_b t x)" p "s_spr_idx s x" backdrop]
    show ?thesis by (simp add: packed_column_def packed_planes_unpack g column_value_def Let_def)
  qed
  then have "fold (packed_column p v r offset backdrop t s) xs out =
      fold (\<lambda>x out. out(x := column_value p v r line offset backdrop s x)) xs out"
    by (intro fold_cong) auto
  then show ?thesis by (simp only: fold_columns)
qed

lemma and_63_small: "(x AND 63 :: u8) < 64"
  by (simp add: pixel_below_64 bit_simps)

lemma winner_values: "winner a b op hi \<in> {0, 1, 2, 3}"
  by (simp add: winner_def)

lemma select_cascade_winner:
  "select_cascade (unpack p x) (unpack p y) op hi si backdrop =
    [backdrop, px_idx (unpack p y), px_idx (unpack p x), si] ! winner (fst x) (fst y) (op \<noteq> 0) (hi \<noteq> 0)"
  by (simp add: winner_def select_cascade_def unpack_def case_prod_unfold)

lemma compose_one_winner:
  "compose_one (layers_of t s) backdrop sm i =
    shade_pixel sm (unpack p (plane_a t i, pa)) (unpack p (plane_b t i, pb)) s i
      ([backdrop, plane_b t i AND 63, plane_a t i AND 63, s_spr_idx s i] ! winner (plane_a t i) (plane_b t i) (s_spr_op s i \<noteq> 0) (s_spr_hi s i \<noteq> 0))"
proof -
  have px: "(if s_spr_hi s i \<noteq> 0 \<and> s_spr_op s i \<noteq> 0 then s_spr_idx s i
      else if bit (plane_a t i) 7 \<and> bit (plane_a t i) 6 then plane_a t i AND 63
      else if bit (plane_b t i) 7 \<and> bit (plane_b t i) 6 then plane_b t i AND 63 else if s_spr_op s i \<noteq> 0 then s_spr_idx s i
      else if bit (plane_a t i) 6 then plane_a t i AND 63 else if bit (plane_b t i) 6 then plane_b t i AND 63 else backdrop) =
    [backdrop, plane_b t i AND 63, plane_a t i AND 63, s_spr_idx s i] ! winner (plane_a t i) (plane_b t i) (s_spr_op s i \<noteq> 0) (s_spr_hi s i \<noteq> 0)"
    by (simp add: winner_def)
  show ?thesis
    unfolding compose_one_def layers_of_def row_layers.simps Let_def and_bits bit_or_iff px shade_pixel_def unpack_def prod.case
      plane_pixel.simps GVDP_CRAM_ENTRIES_def GVDP_PALETTE_HIGHLIGHT_def GVDP_PALETTE_SHADOW_def
    by auto
qed

text \<open>Overwriting a composed column with the private colour of its winner is composing the private colour.\<close>

lemma shade_pixel_host: "193 \<le> px \<Longrightarrow> shade_pixel sm a b s i px = px"
proof -
  assume "193 \<le> px"
  then have "\<not> px < 64" by (simp add: word_less_nat_alt word_le_nat_alt)
  then show ?thesis by (simp add: shade_pixel_def GVDP_CRAM_ENTRIES_def)
qed

lemma private_column:
  assumes "sprite_flags_01 s i" "host_index (private_a t i)" "host_index (private_b t i)" "x \<le> i" "i < x + n"
    and that: "out i = compose_one (layers_of t s) backdrop sm i"
  shows "(if gvdp_ext_active p then compose_private_planes t s x n out i else out i) =
    (let a = unpack p (plane_a t i, private_a t i); b = unpack p (plane_b t i, private_b t i)
     in shade_pixel sm a b s i (select_cascade a b (s_spr_op s i) (s_spr_hi s i) (s_spr_idx s i) backdrop))"
proof -
  let ?w = "winner (plane_a t i) (plane_b t i) (s_spr_op s i \<noteq> 0) (s_spr_hi s i \<noteq> 0)"
  have w: "winner_of t s i = ?w"
    using assms(1) by (simp add: winner_of_def select_winner sprite_flags_01_def)
  have out: "out i = shade_pixel sm (unpack p (plane_a t i, private_a t i)) (unpack p (plane_b t i, private_b t i)) s i
      ([backdrop, plane_b t i AND 63, plane_a t i AND 63, s_spr_idx s i] ! ?w)"
    unfolding that by (rule compose_one_winner)
  have idx: "px_idx (unpack p (q, z)) = (if gvdp_ext_active p \<and> z \<noteq> 0 then z else q AND 63)" for q z
    by (simp add: unpack_def)
  have "?w = 0 \<or> ?w = 1 \<or> ?w = 2 \<or> ?w = 3" using winner_values by blast
  then show ?thesis
    unfolding select_cascade_winner idx compose_private_planes_def w out Let_def fst_conv
    using assms(2-5) by (elim disjE) (auto simp: shade_pixel_host host_index_def)
qed

section \<open>Flags of the sprite layer\<close>

text \<open>
  Between rows the priority bytes of the sprite layer are zero or one; while a row is evaluated its
  other flags are too.
\<close>

definition layer_ok :: "sprite_layer \<Rightarrow> bool" where
  "layer_ok s \<longleftrightarrow> (\<forall>x. s_spr_hi s x \<le> 1)"

definition flags_in_row :: "int \<Rightarrow> sprite_layer \<Rightarrow> bool" where
  "flags_in_row cols s \<longleftrightarrow> (\<forall>x. 0 \<le> x \<and> x < cols \<longrightarrow> sprite_flags_01 s x)"

definition layer_inv :: "int \<Rightarrow> sprite_layer \<Rightarrow> bool" where
  "layer_inv cols s \<longleftrightarrow> layer_ok s \<and> flags_in_row cols s"

lemma sprite_plot_inv: "layer_inv cols s \<Longrightarrow> layer_inv cols (sprite_plot sh_mode ext q nib sx s)"
  by (auto simp: layer_inv_def layer_ok_def flags_in_row_def sprite_flags_01_def sprite_plot_def)

lemma fold_inv: "(\<And>x s. P s \<Longrightarrow> P (f x s)) \<Longrightarrow> P s \<Longrightarrow> P (fold f xs s)"
  by (induction xs arbitrary: s) auto

lemma sprite_draw_inv: "layer_inv cols s \<Longrightarrow> layer_inv cols (sprite_draw b p v q n s)"
proof -
  assume "layer_inv cols s"
  then have "layer_inv cols (fold (sprite_column p v q n) [0..<p_hsz q * 8] s)"
    by (intro fold_inv [of "layer_inv cols"]) (auto simp: sprite_column_def Let_def sprite_plot_inv)
  then have "layer_inv cols (sprite_draw False p v q n s)" by (simp add: sprite_draw_def)
  then show ?thesis by (cases b) (simp_all only: sprite_draw_batched)
qed

lemma layer_inv_overflow [simp]: "layer_inv cols (s\<lparr>spr_overflow := b\<rparr>) = layer_inv cols s"
  by (simp add: layer_inv_def layer_ok_def flags_in_row_def sprite_flags_01_def)

lemma sprite_loop_inv:
  "layer_inv cols s \<Longrightarrow> layer_inv cols (sprite_loop b p v line n offset m link on_line budget s)"
proof (induction m arbitrary: link on_line budget s)
  case (Suc m)
  then show ?case
    by (simp add: Let_def sprite_draw_inv)
qed simp

lemma sprite_render_line_inv: "layer_ok s \<Longrightarrow> layer_inv cols (snd (sprite_render_line b p line cols offset (v, s)))"
  unfolding sprite_render_line_def Let_def prod.case snd_conv
  by (rule sprite_loop_inv) (simp add: layer_inv_def layer_ok_def flags_in_row_def sprite_flags_01_def memset_def)

text \<open>The host provider's arbitrary flags are normalised before composition; only their being nonzero counts.\<close>

lemma normalize_host_flags:
  assumes "layer_inv cols s"
  shows "layer_inv cols (normalize_flags p cols (host_draw p v line cols offset s))"
  using assms
  by (auto simp: layer_inv_def layer_ok_def flags_in_row_def sprite_flags_01_def normalize_flags_def host_draw_def Let_def
      split: option.splits prod.splits)

lemma column_value_normalized:
  assumes "0 \<le> i" "i < cols"
  shows "column_value p v r line offset backdrop (normalize_flags p' cols s) i = column_value p v r line offset backdrop s i"
proof -
  let ?s = "normalize_flags p' cols s"
  have "s_spr_op ?s i = 0 \<longleftrightarrow> s_spr_op s i = 0" "s_spr_hi ?s i = 0 \<longleftrightarrow> s_spr_hi s i = 0" "s_spr_idx ?s i = s_spr_idx s i"
    "s_spr_shadow_op ?s i = s_spr_shadow_op s i" "s_spr_hilite_op ?s i = s_spr_hilite_op s i"
    using assms by (simp_all add: normalize_flags_def Let_def)
  then show ?thesis
    by (simp only: column_value_def Let_def select_cascade_def shade_pixel_def)
qed

section \<open>The renderers agree\<close>

text \<open>A row as a function of its column: bars, backdrop while the display is off, or the composed pixel.\<close>

definition row_picture :: "present \<Rightarrow> GVDP \<Rightarrow> int \<Rightarrow> sprite_layer \<Rightarrow> pixels \<Rightarrow> pixels" where
  "row_picture p v line s out =
    (let w = int (gvdp_screen_width v); extra = clamp_ws_extra p w; block = w + 2 * extra; cols = gvdp_active_width p v;
         pillar = (cols - block) div 2; backdrop = reg v 7 AND 0x3F
     in (\<lambda>x. if 0 \<le> x \<and> x < cols then
              if pillar \<le> x \<and> x < pillar + block then
                if gvdp_display_enabled v then column_value p v (row_setup p v line) line (pillar + extra) backdrop s x else backdrop
              else if s_ws_bar_black p then GVDP_WS_BAR_INDEX else backdrop
            else out x))"

lemma active_width_geometry:
  fixes v p
  defines "w \<equiv> int (gvdp_screen_width v)"
  defines "extra \<equiv> clamp_ws_extra p w"
  shows "0 \<le> extra" "w + 2 * extra \<le> gvdp_active_width p v" "w + 2 * extra \<le> GVDP_MAX_WIDTH" "0 < w"
proof -
  have "w = 256 \<or> w = 320" by (simp add: w_def gvdp_screen_width_def)
  then show "0 < w" "0 \<le> extra" "w + 2 * extra \<le> GVDP_MAX_WIDTH"
    by (auto simp: extra_def clamp_ws_extra_def Let_def GVDP_MAX_WIDTH_def)
  show "w + 2 * extra \<le> gvdp_active_width p v"
    by (simp add: gvdp_active_width_def Let_def w_def extra_def)
qed

lemma sprite_flags_independent:
  fixes v :: GVDP
  assumes "v' = v\<lparr>sprite_collision := c, sprite_overflow := o'\<rparr>"
  shows "row_setup p v' line = row_setup p v line" "gvdp_active_width p v' = gvdp_active_width p v"
    "gvdp_screen_width v' = gvdp_screen_width v" "gvdp_display_enabled v' = gvdp_display_enabled v" "reg v' = reg v"
  by (simp_all add: assms row_setup_def gvdp_active_width_def gvdp_screen_width_def gvdp_display_enabled_def MODE2_DISPLAY_ON_def
      MODE4_IM2_def MODE4_H40_def vram_read_word_def)

lemma evaluated_vdp: "\<exists>c o'. fst (sprite_render_line b p line cols offset (v, s)) = v\<lparr>sprite_collision := c, sprite_overflow := o'\<rparr>"
  by (auto simp: sprite_render_line_def Let_def)

lemma center_offset: "(cols - (w + 2 * extra)) div 2 + extra = (cols - w) div 2" for cols w extra :: int
proof -
  have "cols - w = cols - (w + 2 * extra) + extra * 2" by simp
  then show ?thesis by (metis div_mult_self1 zero_neq_numeral add.commute)
qed

lemma memset_bars:
  assumes "0 \<le> pillar" "0 \<le> block" "pillar + block \<le> cols"
  shows "(memset (pillar + block) (cols - (pillar + block)) bar \<circ> memset 0 pillar bar) out =
    (\<lambda>x. if 0 \<le> x \<and> x < cols \<and> \<not> (pillar \<le> x \<and> x < pillar + block) then bar else out x)"
  using assms by (auto simp: memset_def fun_eq_iff)

text \<open>The three ways to compose the columns of a row.\<close>

definition compose_columns ::
  "render_cfg \<Rightarrow> present \<Rightarrow> GVDP \<Rightarrow> row_regs \<Rightarrow> int \<Rightarrow> int \<Rightarrow> int \<Rightarrow> int \<Rightarrow> u8 \<Rightarrow> plane_rows \<Rightarrow> sprite_layer \<Rightarrow> pixels \<Rightarrow> pixels" where
  "compose_columns cfg p v r line pillar block offset backdrop t s out =
    (if batched_planes cfg \<and> native_compose cfg \<and> \<not> s_ws_bgdiag p then
       let out = gvdp_compose_span (little_endian cfg) (layers_of t s) backdrop (MODE4_SHI v) pillar (nat block) out
       in if gvdp_ext_active p then compose_private_planes t s pillar block out else out
     else if batched_planes cfg
     then fold (packed_column p v r offset backdrop t s) [pillar..pillar + block - 1] out
     else snd (fold (scalar_pixel p v r line offset backdrop s) [pillar..pillar + block - 1]
                 ((empty_cache, empty_cache, empty_cache), out)))"

definition column_shade :: "present \<Rightarrow> GVDP \<Rightarrow> row_regs \<Rightarrow> int \<Rightarrow> int \<Rightarrow> u8 \<Rightarrow> sprite_layer \<Rightarrow> int \<Rightarrow> u8" where
  "column_shade p v r line offset backdrop s xo =
    (let a = plane_a_at p v r line (xo - offset); b = plane_b_at p v r line (xo - offset)
     in shade_pixel (MODE4_SHI v) a b s xo (select_cascade a b (s_spr_op s xo) (s_spr_hi s xo) (s_spr_idx s xo) backdrop))"

lemma column_value_shade:
  "column_value p v r line offset backdrop s xo = mark_wrap p r (xo - offset) (column_shade p v r line offset backdrop s xo)"
  by (simp add: column_value_def column_shade_def Let_def)

lemma native_columns:
  assumes "\<And>x. pillar \<le> x \<Longrightarrow> x < pillar + block \<Longrightarrow> row_good p v r line offset t (x - offset)"
    "\<And>x. pillar \<le> x \<Longrightarrow> x < pillar + block \<Longrightarrow> sprite_flags_01 s x" "0 \<le> block"
  shows "(let out = gvdp_compose_span little (layers_of t s) backdrop (MODE4_SHI v) pillar (nat block) out
       in if gvdp_ext_active p then compose_private_planes t s pillar block out else out) =
    (\<lambda>i. if pillar \<le> i \<and> i < pillar + block then column_shade p v r line offset backdrop s i else out i)"
proof
  fix i
  define out1 where "out1 = gvdp_compose_span little (layers_of t s) backdrop (MODE4_SHI v) pillar (nat block) out"
  have o: "out1 = (\<lambda>i. if pillar \<le> i \<and> i < pillar + block then compose_one (layers_of t s) backdrop (MODE4_SHI v) i else out i)"
    unfolding out1_def using assms(2,3) by (subst compose_span_pointwise) auto
  have "(if gvdp_ext_active p then compose_private_planes t s pillar block out1 else out1) i =
      (if pillar \<le> i \<and> i < pillar + block then column_shade p v r line offset backdrop s i else out i)"
  proof (cases "pillar \<le> i \<and> i < pillar + block")
    case True
    then have g: "row_good p v r line offset t (i - offset)" "sprite_flags_01 s i" using assms(1,2) by auto
    have "(if gvdp_ext_active p then compose_private_planes t s pillar block out1 i else out1 i) =
      (let a = unpack p (plane_a t i, private_a t i); b = unpack p (plane_b t i, private_b t i)
       in shade_pixel (MODE4_SHI v) a b s i (select_cascade a b (s_spr_op s i) (s_spr_hi s i) (s_spr_idx s i) backdrop))"
      using True g by (intro private_column) (auto simp: row_good_def o)
    then show ?thesis
      using True g(1) by (cases "gvdp_ext_active p") (simp_all add: row_good_def column_shade_def Let_def)
  qed (auto simp: o compose_private_planes_def)
  then show "(let out = gvdp_compose_span little (layers_of t s) backdrop (MODE4_SHI v) pillar (nat block) out
       in if gvdp_ext_active p then compose_private_planes t s pillar block out else out) i =
      (if pillar \<le> i \<and> i < pillar + block then column_shade p v r line offset backdrop s i else out i)"
    by (simp only: out1_def Let_def)
qed

lemma compose_columns_exact:
  assumes "row_ok r" "0 \<le> block"
    and "batched_planes cfg \<Longrightarrow> (\<And>x. pillar \<le> x \<Longrightarrow> x < pillar + block \<Longrightarrow> row_good p v r line offset t (x - offset))"
    and "batched_planes cfg \<Longrightarrow> (\<And>x. pillar \<le> x \<Longrightarrow> x < pillar + block \<Longrightarrow> sprite_flags_01 s x)"
  shows "compose_columns cfg p v r line pillar block offset backdrop t s out =
    (\<lambda>i. if pillar \<le> i \<and> i < pillar + block then column_value p v r line offset backdrop s i else out i)"
proof -
  have range: "i \<in> set [pillar..pillar + block - 1] \<longleftrightarrow> pillar \<le> i \<and> i < pillar + block" for i by auto
  have "caches_ok v r (empty_cache, empty_cache, empty_cache)" by (simp add: caches_ok_def)
  note scalar = scalar_loop [OF assms(1) this, of p line offset backdrop s "[pillar..pillar + block - 1]" out, unfolded range]
  have packed: "batched_planes cfg \<Longrightarrow> fold (packed_column p v r offset backdrop t s) [pillar..pillar + block - 1] out =
    (\<lambda>i. if pillar \<le> i \<and> i < pillar + block then column_value p v r line offset backdrop s i else out i)"
    using assms(3,4) by (subst packed_columns [where line = line]) (auto simp: range)
  show ?thesis
    unfolding compose_columns_def using scalar packed native_columns [OF assms(3,4,2)]
    by (auto simp: column_value_shade mark_wrap_def)
qed

lemma evaluated_row:
  fixes v :: GVDP and p :: present
  defines "offset \<equiv> (gvdp_active_width p v - int (gvdp_screen_width v)) div 2"
  assumes ev: "gvdp_evaluate_scanline False p line (v, s) = (v1, s1)"
  shows "gvdp_display_enabled v \<Longrightarrow> sprite_render_line b p line (gvdp_active_width p v) offset (v, s) = (v1, s1)"
    "\<not> gvdp_display_enabled v \<Longrightarrow> v1 = v \<and> s1 = s"
    "\<exists>c o'. v1 = v\<lparr>sprite_collision := c, sprite_overflow := o'\<rparr>"
proof -
  show r: "sprite_render_line b p line (gvdp_active_width p v) offset (v, s) = (v1, s1)" if "gvdp_display_enabled v" for b
    using ev sprite_render_line_batched [of b] that by (simp add: gvdp_evaluate_scanline_def Let_def offset_def)
  show e: "\<not> gvdp_display_enabled v \<Longrightarrow> v1 = v \<and> s1 = s" using ev by (simp add: gvdp_evaluate_scanline_def)
  show "\<exists>c o'. v1 = v\<lparr>sprite_collision := c, sprite_overflow := o'\<rparr>"
  proof (cases "gvdp_display_enabled v")
    case True
    then show ?thesis using evaluated_vdp [of False p line "gvdp_active_width p v" offset v s] by (simp add: r)
  next
    case False
    with e have "v1 = v\<lparr>sprite_collision := sprite_collision v, sprite_overflow := sprite_overflow v\<rparr>" by simp
    then show ?thesis by blast
  qed
qed

text \<open>Where the picture of a row lies in the output, as every function of the file computes it.\<close>

locale row_geometry =
  fixes p :: present and v :: GVDP and extra block cols pillar offset :: int
  assumes extra: "extra = clamp_ws_extra p (int (gvdp_screen_width v))"
    and block: "block = int (gvdp_screen_width v) + 2 * extra"
    and cols: "cols = gvdp_active_width p v"
    and pillar: "pillar = (cols - block) div 2"
    and offset: "offset = (cols - int (gvdp_screen_width v)) div 2"
begin

lemma facts:
  shows "0 \<le> extra" "0 \<le> block" "0 \<le> pillar" "pillar + block \<le> cols" "block \<le> GVDP_MAX_WIDTH" "0 < cols"
    "pillar + extra = offset" "(if s_ws_canvas_w p > block then s_ws_canvas_w p else block) = cols"
proof -
  have g: "0 \<le> extra" "block \<le> cols" "0 < int (gvdp_screen_width v)" "block \<le> GVDP_MAX_WIDTH"
    using active_width_geometry(1-3) [where p = p and v = v] active_width_geometry(4) [where v = v] by (simp_all add: extra block cols)
  then show "0 \<le> extra" "0 \<le> block" "0 \<le> pillar" "pillar + block \<le> cols" "block \<le> GVDP_MAX_WIDTH" "0 < cols"
    by (simp_all add: block pillar)
  show "pillar + extra = offset"
    using center_offset [of cols "int (gvdp_screen_width v)" extra] by (simp only: pillar block offset)
  show "(if s_ws_canvas_w p > block then s_ws_canvas_w p else block) = cols"
    by (simp only: cols gvdp_active_width_def Let_def block extra)
qed

lemma spans_good:
  assumes "pillar \<le> x" "x < pillar + block"
  shows "row_good p v1 (row_setup p v line) line offset
    (plane_spans cfg p v1 (row_setup p v line) line extra offset (- extra) t) (x - offset)"
proof -
  have "r_w (row_setup p v line) = int (gvdp_screen_width v)" by (simp add: row_setup_def Let_def)
  then have "- extra \<le> x - offset" "x - offset < r_w (row_setup p v line) + extra"
    using assms facts(7) unfolding block by linarith+
  then show ?thesis
    by (intro plane_spans_exact [where lo = "- extra"] row_ok_setup) linarith+
qed

lemma bars:
  "(memset (pillar + block) (cols - (pillar + block)) bar \<circ> memset 0 pillar bar) out =
    (\<lambda>x. if 0 \<le> x \<and> x < cols \<and> \<not> (pillar \<le> x \<and> x < pillar + block) then bar else out x)"
  by (rule memset_bars [OF facts(3,2,4)])

lemma picture:
  assumes "v1 = v\<lparr>sprite_collision := c, sprite_overflow := o'\<rparr>"
  shows "row_picture p v1 line s2 out = (\<lambda>x. if 0 \<le> x \<and> x < cols then
      if pillar \<le> x \<and> x < pillar + block then
        if gvdp_display_enabled v then column_value p v1 (row_setup p v line) line offset (reg v 7 AND 0x3F) s2 x else reg v 7 AND 0x3F
      else if s_ws_bar_black p then GVDP_WS_BAR_INDEX else reg v 7 AND 0x3F
    else out x)"
  unfolding row_picture_def Let_def sprite_flags_independent [OF assms] extra [symmetric] block [symmetric] cols [symmetric]
    pillar [symmetric] facts(7) ..

text \<open>
  What every build of the renderer computes: the width and the picture of the row, the VDP after sprite
  evaluation, and the sprite layer, normalised in the batched build.
\<close>

lemma render:
  assumes ok: "layer_ok s" and ev: "gvdp_evaluate_scanline False p line (v, s) = (v1, s1)"
    and s2: "s2 = (if gvdp_display_enabled v then host_draw p v1 line cols offset s1 else s1)"
  shows "gvdp_render_scanline cfg p line out (v, s) = (cols, row_picture p v1 line s2 out, v1,
    if gvdp_display_enabled v \<and> batched_planes cfg then normalize_flags p cols s2 else s2)"
proof -
  note geo = extra [symmetric] block [symmetric] facts(8) pillar [symmetric] facts(7)
  obtain c o' where v1: "v1 = v\<lparr>sprite_collision := c, sprite_overflow := o'\<rparr>" using evaluated_row(3) [OF ev] by blast
  note pic = picture [OF v1] and same = sprite_flags_independent [OF v1]
  show ?thesis
  proof (cases "gvdp_display_enabled v")
    case False
    then show ?thesis
      unfolding gvdp_render_scanline_def pic Let_def fst_conv geo bars
      using evaluated_row(2) [OF ev] facts by (auto simp: memset_def fun_eq_iff s2)
  next
    case True
    define s3 where "s3 = (if batched_planes cfg then normalize_flags p cols s2 else s2)"
    define t where "t = (if batched_planes cfg
      then plane_spans cfg p v1 (row_setup p v line) line extra offset (- extra) empty_rows else empty_rows)"
    let ?bd = "reg v 7 AND 0x3F" and ?bar = "if s_ws_bar_black p then GVDP_WS_BAR_INDEX else reg v 7 AND 0x3F"
    note r1 = evaluated_row(1) [OF ev True, folded cols, folded offset]
    have inv: "layer_inv cols s1" using sprite_render_line_inv [OF ok, of cols False p line offset v] by (simp only: r1 snd_conv)
    have flags: "sprite_flags_01 s3 x" if "batched_planes cfg" "pillar \<le> x" "x < pillar + block" for x
      using normalize_host_flags [OF inv, of p v1 line offset] that facts True
      by (simp add: s3_def s2 layer_inv_def flags_in_row_def)
    have col: "compose_columns cfg p v1 (row_setup p v line) line pillar block offset ?bd t s3 out' =
        (\<lambda>i. if pillar \<le> i \<and> i < pillar + block then column_value p v1 (row_setup p v line) line offset ?bd s3 i else out' i)" for out'
      by (rule compose_columns_exact) (use facts flags spans_good in \<open>simp_all add: t_def\<close>)
    have "column_value p v1 r line offset ?bd s3 i = column_value p v1 r line offset ?bd s2 i" if "0 \<le> i" "i < cols" for i r
      unfolding s3_def using column_value_normalized [OF that] by simp
    moreover have "gvdp_render_scanline cfg p line out (v, s) = (cols, compose_columns cfg p v1 (row_setup p v line) line pillar block offset ?bd t s3
        ((memset (pillar + block) (cols - (pillar + block)) ?bar \<circ> memset 0 pillar ?bar) out), v1, s3)"
      unfolding gvdp_render_scanline_def Let_def fst_conv geo compose_columns_def t_def s3_def s2
      using True by (simp only: r1 prod.case if_True if_False not_True_eq_False same)
    ultimately show ?thesis
      unfolding pic col bars using True facts by (auto simp: fun_eq_iff s3_def)
  qed
qed

lemma captured:
  assumes ok: "layer_ok s" and ev: "gvdp_evaluate_scanline False p line (v, s) = (v1, s1)"
    and s2: "s2 = (if gvdp_display_enabled v then host_draw p v1 line cols offset s1 else s1)"
    and canvas: "s_ws_canvas_w p \<le> GVDP_MAX_WIDTH"
    and cap: "capture_scanline cfg p presented line row (v, s) = Some (w, row', v', s')"
  shows "w = cols \<and> v' = v1 \<and> gvdp_compose_captured cfg' row' out = Some (cols, row_picture p v1 line s2 out)"
proof -
  note geo = extra [symmetric] block [symmetric] facts(8) pillar [symmetric] facts(7)
  have lim: "cols \<le> GVDP_MAX_WIDTH" using canvas facts(5,8) by (auto split: if_splits)
  obtain c o' where v1: "v1 = v\<lparr>sprite_collision := c, sprite_overflow := o'\<rparr>" using evaluated_row(3) [OF ev] by blast
  note pic = picture [OF v1]
  have guard: "(line < 0 \<or> line \<ge> GVDP_MAX_HEIGHT * 2 \<or> (\<not> presented \<and> (s_host_sprites p \<noteq> None \<or> private_art p))) = False"
  proof (rule ccontr)
    assume "\<not> ?thesis"
    then show False using cap unfolding capture_scanline_def Let_def by (simp only: simp_thms if_True option.distinct)
  qed
  then have art: "\<not> presented \<Longrightarrow> s_host_sprites p = None \<and> \<not> private_art p"
    by blast
  let ?bd = "reg v 7 AND 0x3F" and ?bar = "if s_ws_bar_black p then GVDP_WS_BAR_INDEX else reg v 7 AND 0x3F"
  show ?thesis
  proof (cases "gvdp_display_enabled v")
    case False
    then have "w = cols \<and> v' = v \<and> row_width row' = cols \<and> row_start row' = pillar \<and> row_count row' = block \<and>
        row_bar row' = ?bar \<and> row_backdrop row' = ?bd \<and> \<not> row_display row'"
      using guard cap unfolding capture_scanline_def Let_def fst_conv geo by (cases presented) auto
    then have r: "w = cols" "v' = v" "row_width row' = cols" "row_start row' = pillar" "row_count row' = block"
        "row_bar row' = ?bar" "row_backdrop row' = ?bd" "\<not> row_display row'" by blast+
    show ?thesis
      unfolding gvdp_compose_captured_def pic r Let_def
      using r(8) lim False evaluated_row(2) [OF ev] facts by (auto simp: memset_def fun_eq_iff r)
  next
    case True
    note r1 = evaluated_row(1) [OF ev True, folded cols, folded offset]
    let ?r = "row_setup p v line" and ?s = "normalize_flags p cols s2"
    let ?t = "plane_spans cfg p v1 ?r line extra offset (- extra) (row_planes row)"
    have r: "w = cols" "v' = v1" "row_width row' = cols" "row_start row' = pillar" "row_count row' = block"
        "row_bar row' = ?bar" "row_backdrop row' = ?bd" "row_display row'" "row_planes row' = ?t" "row_sprites row' = ?s"
        "row_shadow_mode row' = MODE4_SHI v1" "row_diagnostic row' = s_ws_bgdiag p" "row_private_planes row' = gvdp_ext_active p"
        "row_diag_mask row' = int (r_wt ?r * 8) - 1" "row_diag_offset row' = offset + r_hs_b ?r"
    proof -
      have sp: "(if presented then normalize_flags p cols (host_draw p v1 line cols offset s1) else s1) = ?s"
        using art True by (cases presented) (simp_all add: s2 normalize_flags_def host_draw_def)
      have ext: "presented \<and> gvdp_ext_active p \<longleftrightarrow> gvdp_ext_active p"
        using art by (cases presented) (auto simp: private_art_def gvdp_ext_active_def)
      have shi: "MODE4_SHI v1 = MODE4_SHI v" by (simp add: v1 MODE4_SHI_def)
      have "w = cols \<and> v' = v1 \<and> row_width row' = cols \<and> row_start row' = pillar \<and> row_count row' = block \<and>
        row_bar row' = ?bar \<and> row_backdrop row' = ?bd \<and> row_display row' \<and> row_planes row' = ?t \<and> row_sprites row' = ?s \<and>
        row_shadow_mode row' = MODE4_SHI v1 \<and> row_diagnostic row' = s_ws_bgdiag p \<and> row_private_planes row' = gvdp_ext_active p \<and>
        row_diag_mask row' = int (r_wt ?r * 8) - 1 \<and> row_diag_offset row' = offset + r_hs_b ?r"
        using guard cap True unfolding capture_scanline_def Let_def fst_conv geo r1 prod.case sp ext shi
        by (cases presented) auto
      then show "w = cols" "v' = v1" "row_width row' = cols" "row_start row' = pillar" "row_count row' = block"
        "row_bar row' = ?bar" "row_backdrop row' = ?bd" "row_display row'" "row_planes row' = ?t" "row_sprites row' = ?s"
        "row_shadow_mode row' = MODE4_SHI v1" "row_diagnostic row' = s_ws_bgdiag p" "row_private_planes row' = gvdp_ext_active p"
        "row_diag_mask row' = int (r_wt ?r * 8) - 1" "row_diag_offset row' = offset + r_hs_b ?r"
        by blast+
    qed
    have flags: "sprite_flags_01 ?s x" if "pillar \<le> x" "x < pillar + block" for x
    proof -
      have "layer_inv cols s1" using sprite_render_line_inv [OF ok, of cols False p line offset v] by (simp only: r1 snd_conv)
      from normalize_host_flags [OF this, of p v1 line offset] show ?thesis
        using that facts True by (simp add: s2 layer_inv_def flags_in_row_def)
    qed
    have col: "(let out = gvdp_compose_span (little_endian cfg') (layers_of ?t ?s) ?bd (MODE4_SHI v1) pillar (nat block) out
       in if gvdp_ext_active p then compose_private_planes ?t ?s pillar block out else out) =
      (\<lambda>i. if pillar \<le> i \<and> i < pillar + block then column_shade p v1 ?r line offset ?bd ?s i else out i)" for out
      by (rule native_columns [OF spans_good flags facts(2)])
    have "column_value p v1 ?r line offset ?bd ?s i = column_value p v1 ?r line offset ?bd s2 i" if "0 \<le> i" "i < cols" for i
      by (rule column_value_normalized [OF that])
    note val = this [unfolded column_value_shade]
    have mark: "(if s_ws_bgdiag p \<and> px < GVDP_HOST_PALETTE_BASE \<and> (x - (offset + r_hs_b ?r)) AND (int (r_wt ?r * 8) - 1) = 0
        then (px AND 63) + GVDP_PALETTE_SHADOW else px) = mark_wrap p ?r (x - offset) px" for x px
      by (simp add: mark_wrap_def diff_diff_eq)
    let ?mid = "\<lambda>i. if pillar \<le> i \<and> i < pillar + block then column_shade p v1 ?r line offset ?bd ?s i else memset 0 cols ?bar out i"
    let ?fin = "if s_ws_bgdiag p then (\<lambda>x. if pillar \<le> x \<and> x < pillar + block \<and> ?mid x < GVDP_HOST_PALETTE_BASE
        \<and> (x - (offset + r_hs_b ?r)) AND (int (r_wt ?r * 8) - 1) = 0 then (?mid x AND 63) + GVDP_PALETTE_SHADOW else ?mid x) else ?mid"
    have "(cols = 0 \<or> cols > GVDP_MAX_WIDTH \<or> pillar > cols \<or> block > cols - pillar) = False" using lim facts by auto
    then have comp: "gvdp_compose_captured cfg' row' out = Some (cols, ?fin)"
      unfolding gvdp_compose_captured_def r Let_def col [unfolded Let_def] using r(8) by (simp only: if_False not_True_eq_False)
    have "?fin x = row_picture p v1 line s2 out x" for x
      unfolding pic column_value_shade using True facts val [of x] mark [of "?mid x" x]
      by (cases "pillar \<le> x \<and> x < pillar + block") (auto simp: memset_def)
    then have "?fin = row_picture p v1 line s2 out" ..
    with comp r(1,2) show ?thesis by (simp only:)
  qed
qed

end

interpretation rg: row_geometry p v "clamp_ws_extra p (int (gvdp_screen_width v))"
  "int (gvdp_screen_width v) + 2 * clamp_ws_extra p (int (gvdp_screen_width v))" "gvdp_active_width p v"
  "(gvdp_active_width p v - (int (gvdp_screen_width v) + 2 * clamp_ws_extra p (int (gvdp_screen_width v)))) div 2"
  "(gvdp_active_width p v - int (gvdp_screen_width v)) div 2" for p v
  by unfold_locales (rule refl)+

end
