(* ===== verification/Vdp_Picture.thy ===== *)
theory Vdp_Picture
  imports Vdp_Compose
begin

text \<open>
  The two statements about whole rows, with concrete instances: every build of the renderer draws the
  same row, and a captured row composes to it.
\<close>

section \<open>Concrete instances\<close>

definition plain_present :: present where
  "plain_present = \<lparr>s_unlimited_sprites = False, s_host_sprites = None, s_host_palette = \<lambda>_. 0, s_host_palette_enabled = False,
     s_ext_tiles = None, s_ext_top = \<lambda>_. 0, s_ext_bottom = \<lambda>_. 0, s_ext_split = 1048576, s_sprite_patterns = \<lambda>_. None,
     s_sprite_pattern_lines = \<lambda>_. None, s_sprite_pattern_bytes = \<lambda>_. 0, s_ws_extra = 40, s_ws_canvas_w = 398,
     s_ws_bar_black = True, s_ws_bgdiag = False\<rparr>"

definition blank_layer :: sprite_layer where
  "blank_layer = \<lparr>s_spr_idx = \<lambda>_. 0, s_spr_op = \<lambda>_. 0, s_spr_hi = \<lambda>_. 0, s_spr_shadow_op = \<lambda>_. 0, s_spr_hilite_op = \<lambda>_. 0,
     spr_drawn = \<lambda>_. False, spr_collision = False, spr_overflow = False\<rparr>"

definition blank_row :: GVDPRasterRow where
  "blank_row = \<lparr>row_width = 0, row_start = 0, row_count = 0, row_diag_offset = 0, row_diag_mask = 0, row_backdrop = 0, row_bar = 0,
     row_display = False, row_shadow_mode = False, row_diagnostic = False, row_private_planes = False, row_planes = empty_rows,
     row_sprites = blank_layer, row_host_palette = \<lambda>_. 0\<rparr>"

definition scalar_build :: render_cfg where
  "scalar_build = \<lparr>batched_planes = False, native_compose = False, native_tile_rows = False, little_endian = True\<rparr>"

definition batched_build :: render_cfg where
  "batched_build = \<lparr>batched_planes = True, native_compose = True, native_tile_rows = True, little_endian = True\<rparr>"

text \<open>Display on, 320 columns, shadow and highlight, plane tables at different addresses, one tile of pattern data.\<close>

definition demo_vdp :: GVDP where
  "demo_vdp = \<lparr>vram = (\<lambda>a. if a < 32 then 0x1F else 0), cram = \<lambda>_. 0, vsram = \<lambda>_. 0,
     reg = (\<lambda>_. 0)(1 := 0x64, 2 := 0x30, 4 := 0x07, 5 := 0x78, 7 := 0x02, 12 := 0x89, 13 := 0x3F, 16 := 0x01),
     control_pending = False, code = 0, address = 0, address_hi = 0, in_vblank = False, in_hblank = False,
     dma_active = False, sprite_overflow = False, sprite_collision = False, vint_pending = False, hint_counter = 0,
     scanline = 0, dma_fill_pending = False, s_pending_68k_stall = 0,
     g_gvdp_events = \<lambda>_. \<lparr>e_seq = 0, e_kind = GVDP_EVT_REG, e_code = 0, e_reason = GVDP_SKIP_NONE, e_in_vblank = False,
       e_scanline = 0, e_addr = 0, e_value = 0, e_inc = 0, e_len = 0, e_src = 0\<rparr>,
     g_gvdp_event_seq = 0, colour_updates = []\<rparr>"

lemma instance_ok: "layer_ok blank_layer" "\<not> batched_planes scalar_build" "batched_planes batched_build" "s_ws_canvas_w plain_present \<le> GVDP_MAX_WIDTH"
  by (simp_all add: layer_ok_def blank_layer_def scalar_build_def batched_build_def plain_present_def GVDP_MAX_WIDTH_def)

section \<open>Whole rows\<close>

lemma evaluate_batched: "gvdp_evaluate_scanline b p line vs = gvdp_evaluate_scanline False p line vs"
  by (simp only: gvdp_evaluate_scanline_def sprite_render_line_batched [of b])

lemma render_exact:
  assumes "layer_ok s" "gvdp_evaluate_scanline False p line (v, s) = (v1, s1)"
  shows "\<exists>s2. gvdp_render_scanline cfg p line out (v, s) = (gvdp_active_width p v, row_picture p v1 line
      (if gvdp_display_enabled v then host_draw p v1 line (gvdp_active_width p v)
         ((gvdp_active_width p v - int (gvdp_screen_width v)) div 2) s1 else s1) out, v1, s2)
    \<and> (batched_planes cfg \<longrightarrow> layer_ok s2)"
proof -
  let ?s = "if gvdp_display_enabled v then host_draw p v1 line (gvdp_active_width p v)
         ((gvdp_active_width p v - int (gvdp_screen_width v)) div 2) s1 else s1"
  have "layer_inv (gvdp_active_width p v) s1" if "gvdp_display_enabled v"
    using sprite_render_line_inv [OF assms(1), of _ False p line _ v] evaluated_row(1) [OF assms(2) that, of False] by (metis snd_conv)
  then have "layer_ok (if gvdp_display_enabled v \<and> batched_planes cfg then normalize_flags p (gvdp_active_width p v) ?s else ?s)"
    if "batched_planes cfg"
    using that normalize_host_flags evaluated_row(2) [OF assms(2)] assms(1) by (auto simp: layer_inv_def)
  then show ?thesis
    using rg.render [OF assms refl, of cfg out] by blast
qed

text \<open>
  C33: the batched renderer is an exact optimisation. For every build, byte order, VDP state, presentation
  option, host sprite provider and output row, the width, every pixel and the VDP's status flags are
  those of the scalar renderer on the same state, and the status flags are those of evaluating the row
  without any output, as a replay does; the batched build keeps its sprite layer fit for the next row.
\<close>

theorem renderers_agree:
  assumes "layer_ok s" "\<not> batched_planes scalar"
  shows "let (cols, picture, v1, s1) = gvdp_render_scanline cfg p line out (v, s);
      (cols', picture', v2, s2) = gvdp_render_scanline scalar p line out (v, s)
    in cols = cols' \<and> picture = picture' \<and> v1 = v2 \<and> v1 = fst (gvdp_evaluate_scanline b p line (v, s))
      \<and> (batched_planes cfg \<longrightarrow> layer_ok s1)"
proof -
  obtain v1 s1 where ev: "gvdp_evaluate_scanline False p line (v, s) = (v1, s1)" by fastforce
  show ?thesis
    using render_exact [OF assms(1) ev, of cfg out] render_exact [OF assms(1) ev, of scalar out] evaluate_batched [of b p line "(v, s)"]
    by (auto simp: ev)
qed

theorem renderers_agree_witness:
  "layer_ok blank_layer \<and> (let (cols, picture, v1, s1) = gvdp_render_scanline batched_build plain_present 100 (\<lambda>_. 0) (demo_vdp, blank_layer);
      (cols', picture', v2, s2) = gvdp_render_scanline scalar_build plain_present 100 (\<lambda>_. 0) (demo_vdp, blank_layer)
    in cols = cols' \<and> picture = picture' \<and> v1 = v2 \<and> v1 = fst (gvdp_evaluate_scanline True plain_present 100 (demo_vdp, blank_layer))
      \<and> layer_ok s1)"
  using renderers_agree [OF instance_ok(1,2), of batched_build plain_present 100 "\<lambda>_. 0" demo_vdp True] instance_ok(1)
  by (auto simp: Let_def case_prod_unfold instance_ok(3))

text \<open>
  C34: deferring the composition changes nothing. A row that is captured, with or without presentation
  providers, composes later to exactly the pixels that rendering it at once would have given, and
  leaves the same status flags; the capture is refused before any change of state.
\<close>

theorem captured_row_exact:
  assumes "layer_ok s" "s_ws_canvas_w p \<le> GVDP_MAX_WIDTH"
  shows "case capture_scanline cfg p presented line row (v, s) of
      Some (w, row', v', s') \<Rightarrow>
        let (cols, picture, v1, s1) = gvdp_render_scanline cfg'' p line out (v, s)
        in w = cols \<and> v' = v1 \<and> gvdp_compose_captured cfg' row' out = Some (cols, picture)
    | None \<Rightarrow> line < 0 \<or> line \<ge> GVDP_MAX_HEIGHT * 2 \<or> \<not> presented"
proof (cases "capture_scanline cfg p presented line row (v, s)")
  case None
  then show ?thesis by (auto simp: capture_scanline_def Let_def split: if_splits prod.splits)
next
  case (Some x)
  obtain w row' v' s' where x: "x = (w, row', v', s')" by (cases x) auto
  obtain v1 s1 where ev: "gvdp_evaluate_scanline False p line (v, s) = (v1, s1)" by fastforce
  show ?thesis
    using rg.captured [OF assms(1) ev refl assms(2) Some [unfolded x]] render_exact [OF assms(1) ev, of cfg'' out]
    by (auto simp: Some x)
qed

lemma demo_captured: "capture_scanline cfg plain_present False 100 row (demo_vdp, s) \<noteq> None"
  by (simp add: capture_scanline_def Let_def plain_present_def private_art_def GVDP_MAX_HEIGHT_def case_prod_unfold)

theorem captured_row_exact_witness:
  "case capture_scanline batched_build plain_present False 100 blank_row (demo_vdp, blank_layer) of
      Some (w, row', v', s') \<Rightarrow>
        let (cols, picture, v1, s1) = gvdp_render_scanline scalar_build plain_present 100 (\<lambda>_. 0) (demo_vdp, blank_layer)
        in w = cols \<and> v' = v1 \<and> gvdp_compose_captured batched_build row' (\<lambda>_. 0) = Some (cols, picture)
    | None \<Rightarrow> False"
  using captured_row_exact [OF instance_ok(1,4), where cfg = batched_build and presented = False and line = 100 and row = blank_row
      and v = demo_vdp and cfg'' = scalar_build and cfg' = batched_build and out = "\<lambda>_. 0"]
    demo_captured [of batched_build blank_row blank_layer]
  by (auto split: option.splits)

end
