(* ===== verification/Genesis_Machine_Props.thy ===== *)
theory Genesis_Machine_Props
  imports Genesis_Machine Vdp_Picture Glue_Irq_Props Genesis_Bus_Io
begin

text \<open>
  What the scheduler promises: the output requested from a frame is invisible to the guest, the Z80
  receives its share of every line and every frame ends, and a rollback snapshot restores the machine.
\<close>

section \<open>The status flags of a row\<close>

text \<open>Two layers that agree on the owners of the row's columns and on the status flags so far.\<close>

definition same_owners :: "int \<Rightarrow> sprite_layer \<Rightarrow> sprite_layer \<Rightarrow> bool" where
  "same_owners cols s s' \<longleftrightarrow> (\<forall>x. 0 \<le> x \<and> x < cols \<longrightarrow> spr_drawn s x = spr_drawn s' x)
     \<and> spr_collision s = spr_collision s' \<and> spr_overflow s = spr_overflow s'"

lemma same_owners_plot:
  "0 \<le> sx \<Longrightarrow> sx < cols \<Longrightarrow> same_owners cols s s' \<Longrightarrow> same_owners cols (sprite_plot sh ext q nib sx s) (sprite_plot sh ext q nib sx s')"
  by (auto simp: same_owners_def sprite_plot_def)

lemma fold_related: "(\<And>x s s'. R s s' \<Longrightarrow> R (f x s) (f x s')) \<Longrightarrow> R s s' \<Longrightarrow> R (fold f xs s) (fold f xs s')"
  by (induction xs arbitrary: s s') auto

lemma same_owners_column:
  "same_owners cols s s' \<Longrightarrow> same_owners cols (sprite_column p v q cols lx s) (sprite_column p v q cols lx s')"
  by (auto simp: sprite_column_def Let_def intro!: same_owners_plot)

lemma same_owners_draw:
  "same_owners cols s s' \<Longrightarrow> same_owners cols (sprite_draw False p v q cols s) (sprite_draw False p v q cols s')"
  unfolding sprite_draw_def by (auto intro!: fold_related same_owners_column)

lemma same_owners_overflow: "same_owners cols s s' \<Longrightarrow> same_owners cols (s\<lparr>spr_overflow := x\<rparr>) (s'\<lparr>spr_overflow := x\<rparr>)"
  by (simp add: same_owners_def)

lemma if_related: "(c \<Longrightarrow> R a a') \<Longrightarrow> (\<not> c \<Longrightarrow> R b b') \<Longrightarrow> R (if c then a else b) (if c then a' else b')"
  by simp

lemma same_owners_loop:
  "same_owners cols s s' \<Longrightarrow> same_owners cols (sprite_loop False p v line cols offset n link on_line budget s)
     (sprite_loop False p v line cols offset n link on_line budget s')"
proof (induction n arbitrary: link on_line budget s s')
  case (Suc n)
  show ?case
    unfolding sprite_loop.simps Let_def
    by (intro if_related [of _ "same_owners cols"] same_owners_overflow same_owners_draw Suc)
qed simp

text \<open>The VDP after a row, as evaluation without output leaves it.\<close>

definition status_after :: "present \<Rightarrow> int \<Rightarrow> GVDP \<Rightarrow> GVDP" where
  "status_after p line v = fst (gvdp_evaluate_scanline False p line (v, blank_layer))"

lemma sprite_render_line_status:
  "fst (sprite_render_line b p line cols offset (v, s)) = fst (sprite_render_line False p line cols offset (v, blank_layer))"
proof -
  have *: "same_owners cols (s\<lparr>s_spr_op := a, s_spr_shadow_op := a1, s_spr_hilite_op := a2, spr_drawn := memset 0 cols False (spr_drawn s),
      spr_collision := c, spr_overflow := d\<rparr>) (blank_layer\<lparr>s_spr_op := b, s_spr_shadow_op := b1, s_spr_hilite_op := b2,
      spr_drawn := memset 0 cols False (spr_drawn blank_layer), spr_collision := c, spr_overflow := d\<rparr>)" for a a1 a2 b b1 b2 c d
    by (simp add: same_owners_def memset_def)
  show ?thesis
    unfolding sprite_render_line_batched [of b] unfolding sprite_render_line_def Let_def prod.case fst_conv
    using same_owners_loop [OF *] unfolding same_owners_def by simp
qed

lemma evaluate_status: "fst (gvdp_evaluate_scanline b p line (v, s)) = status_after p line v"
  by (simp add: status_after_def gvdp_evaluate_scanline_def Let_def sprite_render_line_status [of b _ _ _ _ _ s]
      sprite_render_line_status [of False _ _ _ _ _ s])

text \<open>Evaluating a row again changes nothing: the flags are sticky and are not read by the evaluation.\<close>

definition more_flags :: "bool \<Rightarrow> bool \<Rightarrow> sprite_layer \<Rightarrow> sprite_layer \<Rightarrow> bool" where
  "more_flags c d s s' \<longleftrightarrow> spr_drawn s' = spr_drawn s \<and> spr_collision s' = (spr_collision s \<or> c) \<and> spr_overflow s' = (spr_overflow s \<or> d)"

lemma more_flags_plot: "more_flags c d s s' \<Longrightarrow> more_flags c d (sprite_plot sh ext q nib sx s) (sprite_plot sh ext q nib sx s')"
  unfolding sprite_plot_def more_flags_def by simp

lemma more_flags_column: "more_flags c d s s' \<Longrightarrow> more_flags c d (sprite_column p v q cols lx s) (sprite_column p v q cols lx s')"
  unfolding sprite_column_def Let_def by (intro if_related [of _ "more_flags c d"] more_flags_plot)

lemma more_flags_draw:
  assumes "more_flags c d s s'"
  shows "more_flags c d (sprite_draw False p v q cols s) (sprite_draw False p v q cols s')"
  unfolding sprite_draw_def if_False using assms by (intro fold_related [of "more_flags c d"] more_flags_column)

lemma more_flags_overflow: "more_flags c d s s' \<Longrightarrow> more_flags c d (s\<lparr>spr_overflow := True\<rparr>) (s'\<lparr>spr_overflow := True\<rparr>)"
  by (simp add: more_flags_def)

lemma more_flags_loop:
  "more_flags c d s s' \<Longrightarrow> more_flags c d (sprite_loop False p v line cols offset n link on_line budget s)
     (sprite_loop False p v line cols offset n link on_line budget s')"
proof (induction n arbitrary: link on_line budget s s')
  case (Suc n)
  show ?case
    unfolding sprite_loop.simps Let_def
    by (intro if_related [of _ "more_flags c d"] more_flags_overflow more_flags_draw Suc)
qed simp

lemma sprite_loop_status_unread:
  fixes v :: GVDP
  shows "sprite_loop False p (v\<lparr>sprite_collision := c, sprite_overflow := d\<rparr>) line cols offset n link on_line budget s = sprite_loop False p v line cols offset n link on_line budget s"
proof -
  define v' where "v' = v\<lparr>sprite_collision := c, sprite_overflow := d\<rparr>"
  have sel: "MODE4_IM2 v' = MODE4_IM2 v" "MODE4_H40 v' = MODE4_H40 v" "MODE4_SHI v' = MODE4_SHI v" "reg v' = reg v" "vram v' = vram v"
    "vram_read_word v' = vram_read_word v"
    by (simp_all add: v'_def MODE4_IM2_def MODE4_H40_def MODE4_SHI_def vram_read_word_def fun_eq_iff)
  have "sprite_byte v' = sprite_byte v" by (intro ext) (simp only: sprite_byte_def sel)
  then have draw: "sprite_draw False p v' = sprite_draw False p v"
    by (intro ext) (simp only: sprite_draw_def sprite_column_def [abs_def] sel if_False)
  have piece: "sprite_piece_of p v' = sprite_piece_of p v"
    by (intro ext) (simp only: sprite_piece_of_def sel)
  show ?thesis
    unfolding v'_def [symmetric] by (induction n arbitrary: link on_line budget s) (simp_all only: sprite_loop.simps sel draw piece)
qed

lemma sprite_render_line_again:
  assumes "fst (sprite_render_line False p line cols offset (v, blank_layer)) = v1"
  shows "fst (sprite_render_line False p line cols offset (v1, blank_layer)) = v1"
proof -
  define s0 where "s0 c d = blank_layer\<lparr>s_spr_op := memset 0 cols 0 (s_spr_op blank_layer),
    s_spr_shadow_op := memset 0 cols 0 (s_spr_shadow_op blank_layer), s_spr_hilite_op := memset 0 cols 0 (s_spr_hilite_op blank_layer),
    spr_drawn := memset 0 cols False (spr_drawn blank_layer), spr_collision := c, spr_overflow := d\<rparr>" for c d
  define L where "L c d = sprite_loop False p v line cols offset (if MODE4_H40 v then 80 else 64) 0 0 cols (s0 c d)" for c d
  have L: "spr_collision (L c d) = (spr_collision (L False False) \<or> c)" "spr_overflow (L c d) = (spr_overflow (L False False) \<or> d)" for c d
    using more_flags_loop [of c d "s0 False False" "s0 c d" p v line cols offset "if MODE4_H40 v then 80 else 64" 0 0 cols]
    by (auto simp: more_flags_def L_def s0_def)
  have v1: "v1 = v\<lparr>sprite_collision := spr_collision (L (sprite_collision v) (sprite_overflow v)),
      sprite_overflow := spr_overflow (L (sprite_collision v) (sprite_overflow v))\<rparr>"
    using assms by (simp add: sprite_render_line_def Let_def L_def s0_def)
  have "fst (sprite_render_line False p line cols offset (v1, blank_layer)) =
      v1\<lparr>sprite_collision := spr_collision (L (sprite_collision v1) (sprite_overflow v1)),
         sprite_overflow := spr_overflow (L (sprite_collision v1) (sprite_overflow v1))\<rparr>"
    unfolding sprite_render_line_def Let_def prod.case fst_conv L_def s0_def
    by (simp add: v1 sprite_loop_status_unread MODE4_H40_def)
  also have "\<dots> = v1"
  proof -
    have "spr_collision (L (spr_collision (L c d)) x) = spr_collision (L c d)" "spr_overflow (L x (spr_overflow (L c d))) = spr_overflow (L c d)" for c d x
      using L [of "spr_collision (L c d)" x] L [of x "spr_overflow (L c d)"] L [of c d] by blast+
    then show ?thesis unfolding v1 by simp
  qed
  finally show ?thesis .
qed

lemma status_after_display: "\<not> gvdp_display_enabled v \<Longrightarrow> status_after p line v = v"
  by (simp add: status_after_def gvdp_evaluate_scanline_def)

lemma status_after_render: "gvdp_display_enabled v \<Longrightarrow> status_after p line v =
    fst (sprite_render_line b p line (gvdp_active_width p v) ((gvdp_active_width p v - int (gvdp_screen_width v)) div 2) (v, s))"
  by (simp add: status_after_def gvdp_evaluate_scanline_def Let_def sprite_render_line_status [of b])

lemma status_after_fields: "\<exists>c d. status_after p line v = v\<lparr>sprite_collision := c, sprite_overflow := d\<rparr>"
proof (cases "gvdp_display_enabled v")
  case True
  then show ?thesis by (metis status_after_render evaluated_vdp)
next
  case False
  then have "status_after p line v = v\<lparr>sprite_collision := sprite_collision v, sprite_overflow := sprite_overflow v\<rparr>"
    by (simp add: status_after_display)
  then show ?thesis by blast
qed

lemma status_after_again: "status_after p line (status_after p line v) = status_after p line v"
proof (cases "gvdp_display_enabled v")
  case True
  obtain c d where f: "status_after p line v = v\<lparr>sprite_collision := c, sprite_overflow := d\<rparr>" using status_after_fields by blast
  note same = sprite_flags_independent [OF f]
  show ?thesis
    using sprite_render_line_again [OF status_after_render [OF True, symmetric], of p line] status_after_render [of "status_after p line v" p line False blank_layer]
    by (simp add: same True)
qed (simp add: status_after_display)

section \<open>Output is invisible to the guest\<close>

lemma active_width_cases:
  "gvdp_active_width p v = (let c = int (gvdp_screen_width v) + 2 * clamp_ws_extra p (int (gvdp_screen_width v))
     in if s_ws_canvas_w p > c then s_ws_canvas_w p else c)"
  by (simp add: gvdp_active_width_def Let_def)

lemma render_status: "fst (snd (snd (gvdp_render_scanline cfg p line out (v, s)))) = status_after p line v"
proof (cases "gvdp_display_enabled v")
  case True
  define w where "w = int (gvdp_screen_width v)"
  define cols where "cols = gvdp_active_width p v"
  obtain v1 s1 where sr: "sprite_render_line (batched_planes cfg) p line cols ((cols - w) div 2) (v, s) = (v1, s1)" by fastforce
  have "fst (snd (snd (gvdp_render_scanline cfg p line out (v, s)))) = v1"
    unfolding gvdp_render_scanline_def Let_def fst_conv w_def [symmetric]
      active_width_cases [of p v, folded w_def, unfolded Let_def, folded cols_def, symmetric] center_offset sr
    using True by simp
  moreover have "status_after p line v = v1"
    using status_after_render [OF True, of p line "batched_planes cfg" s] sr by (simp add: cols_def w_def)
  ultimately show ?thesis by simp
qed (simp add: gvdp_render_scanline_def Let_def status_after_display)

lemma capture_status:
  assumes "capture_scanline cfg p presented line row (v, s) = Some (w', row', v', s')"
  shows "v' = status_after p line v"
proof (cases "gvdp_display_enabled v")
  case True
  define w where "w = int (gvdp_screen_width v)"
  define cols where "cols = gvdp_active_width p v"
  obtain v1 s1 where sr: "sprite_render_line (batched_planes cfg) p line cols ((cols - w) div 2) (v, s) = (v1, s1)" by fastforce
  have "v' = v1"
    using assms True
    unfolding capture_scanline_def Let_def fst_conv w_def [symmetric]
      active_width_cases [of p v, folded w_def, unfolded Let_def, folded cols_def, symmetric] center_offset sr
    by (auto split: if_splits)
  moreover have "status_after p line v = v1"
    using status_after_render [OF True, of p line "batched_planes cfg" s] sr by (simp add: cols_def w_def)
  ultimately show ?thesis by simp
next
  case False
  then show ?thesis using assms by (auto simp: capture_scanline_def Let_def status_after_display split: if_splits)
qed

definition fetched_status :: "NativeRowContext \<Rightarrow> present \<Rightarrow> GVDP \<Rightarrow> GVDP" where
  "fetched_status r p v = (if n_indices_ready r \<or> n_raster r \<noteq> None then v else status_after p (n_line r) v)"

lemma native_row_indices_guest:
  assumes "native_row_indices cfg (r, v, o1) = (r', v', o2)"
  shows "v' = (if n_raster r \<noteq> None then v else status_after (o_present o1) (n_line r) v) \<and> o_present o2 = o_present o1
    \<and> n_line r' = n_line r \<and> n_ready r' = n_ready r"
proof (cases "n_raster r")
  case None
  obtain w out v2 s2 where R: "gvdp_render_scanline cfg (o_present o1) (n_line r) (idxbuf o1) (v, o_sprites o1) = (w, out, v2, s2)"
    by (metis prod_cases4)
  show ?thesis using assms render_status [of cfg "o_present o1" "n_line r" "idxbuf o1" v "o_sprites o1"]
    unfolding native_row_indices_def Let_def prod.case None option.case R by auto
next
  case (Some row)
  then show ?thesis using assms unfolding native_row_indices_def Let_def prod.case Some option.case by (auto split: option.splits)
qed

lemma native_row_prepare_guest:
  assumes "native_row_prepare cfg (r, v, o1) = (r', v', o2)"
  shows "v' = fetched_status r (o_present o1) v" "o_present o2 = o_present o1" "n_line r' = n_line r" "n_indices_ready r'" "n_ready r' = n_ready r"
proof -
  obtain r3 v3 o3 where i: "native_row_indices cfg (r, v, o1) = (r3, v3, o3)" by (metis prod_cases3)
  show "v' = fetched_status r (o_present o1) v" "o_present o2 = o_present o1" "n_line r' = n_line r" "n_indices_ready r'" "n_ready r' = n_ready r"
    using assms native_row_indices_guest [OF i] unfolding native_row_prepare_def Let_def i
    by (auto simp: fetched_status_def split: if_splits)
qed

lemma native_row_fetch_guest:
  assumes "native_row_fetch cfg (r, v, o1) = (r', v', o2)"
  shows "v' = (if n_ready r then v else fetched_status r (o_present o1) v)" "o_present o2 = o_present o1" "n_line r' = n_line r"
proof -
  obtain r3 v3 o3 where i: "native_row_prepare cfg (r, v, o1) = (r3, v3, o3)" by (metis prod_cases3)
  show "v' = (if n_ready r then v else fetched_status r (o_present o1) v)" "o_present o2 = o_present o1" "n_line r' = n_line r"
    using assms native_row_prepare_guest [OF i] unfolding native_row_fetch_def Let_def i by (auto split: if_splits)
qed

lemma fetched_again: "v = status_after p (n_line r) v' \<Longrightarrow> fetched_status r p v = v"
  by (simp add: fetched_status_def status_after_again)

lemma row_context_simps [simp]:
  "n_line (row_context row) = row" "\<not> n_ready (row_context row)" "\<not> n_indices_ready (row_context row)" "n_raster (row_context row) = None"
  by (simp_all add: row_context_def)

lemma fetched_fresh [simp]: "fetched_status (row_context row) p v = status_after p row v"
  by (simp add: fetched_status_def)

lemma evaluate_row_guest:
  assumes "evaluate_row cfg row (v, o1) = (v', o2)"
  shows "v' = status_after (o_present o1) row v" "o_present o2 = o_present o1"
  using assms evaluate_status [of "batched_planes cfg" "o_present o1" row v "o_sprites o1"]
  by (auto simp: evaluate_row_def Let_def split: prod.splits)

lemma sink_row_guest:
  assumes "sink_row cfg pipeline snk row (v, o1) = (v', o2)"
  shows "v' = status_after (o_present o1) row v \<and> o_present o2 = o_present o1"
proof (cases "sink_indexed pipeline snk")
  case None
  obtain r3 v3 o3 where f: "native_row_fetch cfg (row_context row, v, o1) = (r3, v3, o3)" by (metis prod_cases3)
  show ?thesis using assms native_row_fetch_guest [OF f] None f by (auto simp: sink_row_def deliver_row_def Let_def)
next
  case (Some x)
  obtain r3 v3 o3 where f: "native_row_prepare cfg (row_context row, v, o1) = (r3, v3, o3)" by (metis prod_cases3)
  note pr = native_row_prepare_guest [OF f]
  obtain ok h where ok: "(case ix_accepts x of None \<Rightarrow> (True, o_user o3) | Some f \<Rightarrow> f (o_user o3) row (n_width r3)) = (ok, h)"
    by fastforce
  obtain r4 v4 o4 where g: "native_row_fetch cfg (r3, v3, o3\<lparr>o_user := h\<rparr>) = (r4, v4, o4)" by (metis prod_cases3)
  have "v4 = v3" "o_present o4 = o_present o3"
    using native_row_fetch_guest [OF g] pr(4) by (auto simp: fetched_status_def)
  then show ?thesis
    using assms pr unfolding sink_row_def Some option.case f Let_def prod.case ok g deliver_row_def
    by (auto split: option.splits if_splits)
qed

lemma produce_row_guest:
  assumes "produce_row cfg producer layers row (v, o1) = (v', o2)"
  shows "v' = status_after (o_present o1) row v \<and> o_present o2 = o_present o1"
proof -
  define first where "first = (if layers then
              (case gvdp_capture_presented_scanline cfg (o_present o1) row (o_raster o1) (v, o_sprites o1) of
                 Some (w, raster, v, s) \<Rightarrow>
                   ((row_context row)\<lparr>n_raster := Some raster\<rparr>, v, o1\<lparr>o_raster := raster, o_sprites := s\<rparr>)
               | None \<Rightarrow> native_row_fetch cfg (row_context row, v, o1))
            else (row_context row, evaluate_row cfg row (v, o1)))"
  obtain r3 v3 o3 where f: "first = (r3, v3, o3)" by (metis prod_cases3)
  have v3: "v3 = status_after (o_present o1) row v \<and> o_present o3 = o_present o1 \<and> n_line r3 = row"
  proof (cases layers)
    case False
    then have e: "evaluate_row cfg row (v, o1) = (v3, o3)" "r3 = row_context row" using f by (simp_all add: first_def)
    then show ?thesis using evaluate_row_guest [OF e(1)] by simp
  next
    case True
    show ?thesis
    proof (cases "gvdp_capture_presented_scanline cfg (o_present o1) row (o_raster o1) (v, o_sprites o1)")
      case None
      then have n: "native_row_fetch cfg (row_context row, v, o1) = (r3, v3, o3)" using f True by (simp add: first_def)
      show ?thesis using native_row_fetch_guest [OF n] by simp
    next
      case (Some c)
      obtain w raster v4 s4 where c: "c = (w, raster, v4, s4)" by (metis prod_cases4)
      have "v4 = status_after (o_present o1) row v"
        using Some unfolding c gvdp_capture_presented_scanline_def by (rule capture_status)
      then show ?thesis using True f unfolding first_def Some c by auto
    qed
  qed
  obtain r4 v4 o4 where g: "native_row_fetch cfg (r3, v3, o3) = (r4, v4, o4)" by (metis prod_cases3)
  have "v4 = v3" "o_present o4 = o_present o3"
    using native_row_fetch_guest [OF g] fetched_again [of v3 "o_present o3" r3 v] v3 by (simp_all split: if_splits)
  then show ?thesis
    using assms v3 unfolding produce_row_def Let_def prod.case first_def [symmetric] f g
    by (auto split: reply.splits)
qed

lemma emit_row_guest:
  assumes "emit_row cfg pipeline snk producer row (v, o1) = (v', o2)"
  shows "v' = status_after (o_present o1) row v \<and> o_present o2 = o_present o1"
proof (cases snk)
  case None
  then have "evaluate_row cfg row (v, o1) = (v', o2)" using assms by (simp add: emit_row_def)
  then show ?thesis by (simp add: evaluate_row_guest)
next
  case (Some s)
  note S = this
  show ?thesis
  proof (cases producer)
    case None
    then have "sink_row cfg pipeline s row (v, o1) = (v', o2)" using assms S by (simp add: emit_row_def)
    then show ?thesis by (rule sink_row_guest)
  next
    case (Some p)
    obtain custom h where e: "pr_enabled p (o_user o1) = (custom, h)" by fastforce
    show ?thesis
      using assms produce_row_guest [of cfg p "bit custom 1" row v "o1\<lparr>o_user := h\<rparr>" v' o2]
        sink_row_guest [of cfg pipeline s row v "o1\<lparr>o_user := h\<rparr>" v' o2]
      unfolding emit_row_def Let_def S Some option.case prod.case e by (simp split: if_splits)
  qed
qed

definition same_guest :: "present \<Rightarrow> 'a \<times> 'h host_out \<Rightarrow> 'a \<times> 'k host_out \<Rightarrow> bool" where
  "same_guest p x y \<longleftrightarrow> fst x = fst y \<and> o_present (snd x) = p \<and> o_present (snd y) = p"

lemma same_guest_conv [simp]: "same_guest p (a, o1) (b, o2) \<longleftrightarrow> a = b \<and> o_present o1 = p \<and> o_present o2 = p"
  by (simp add: same_guest_def)

lemma emit_row_same:
  assumes "same_guest p vo vo'"
  shows "same_guest p (emit_row cfg pipeline snk producer row vo) (emit_row cfg' pipeline' snk' producer' row vo')"
proof -
  obtain v o1 o2 where "vo = (v, o1)" "vo' = (v, o2)" "o_present o1 = p" "o_present o2 = p"
    using assms by (metis same_guest_conv surj_pair)
  then show ?thesis
    using emit_row_guest [of cfg pipeline snk producer row v o1] emit_row_guest [of cfg' pipeline' snk' producer' row v o2]
    by (metis same_guest_conv surj_pair)
qed

lemma fold_same: "(\<And>x s s'. R s s' \<Longrightarrow> R (f x s) (g x s')) \<Longrightarrow> R s s' \<Longrightarrow> R (fold f xs s) (fold g xs s')"
  by (induction xs arbitrary: s s') auto

lemma emit_line_same:
  assumes "same_guest p vo vo'"
  shows "same_guest p (emit_line cfg pipeline snk producer line vo) (emit_line cfg' pipeline' snk' producer' line vo')"
proof -
  have "fst vo = fst vo'" using assms by (simp add: same_guest_def)
  then show ?thesis unfolding emit_line_def Let_def
    using assms by (auto intro!: fold_same [of "same_guest p"] emit_row_same)
qed

lemma machine_line_same:
  assumes "same_guest p mo mo'"
  shows "rel_option (same_guest p) (machine_line cfg pipeline step gm snk producer h line mo)
    (machine_line cfg' pipeline' step gm snk' producer' h line mo')"
proof -
  obtain m o1 o2 where mo: "mo = (m, o1)" "mo' = (m, o2)" "o_present o1 = p" "o_present o2 = p"
    using assms by (metis same_guest_conv surj_pair)
  show ?thesis
  proof (cases "run_line step gm line m")
    case (Some x)
    obtain hirq m1 where x: "x = (hirq, m1)" by fastforce
    obtain va oa vb ob where e: "emit_line cfg pipeline snk producer line (m_vdp m1, o1) = (va, oa)"
        "emit_line cfg' pipeline' snk' producer' line (m_vdp m1, o2) = (vb, ob)" by fastforce
    have "same_guest p (va, oa) (vb, ob)"
      using emit_line_same [of p "(m_vdp m1, o1)" "(m_vdp m1, o2)" cfg pipeline snk producer line cfg' pipeline' snk' producer'] mo(3,4)
      by (simp add: e)
    then show ?thesis using mo(3,4)
      unfolding machine_line_def mo(1,2) fst_conv snd_conv Some x option.case prod.case Let_def e by (cases "line < h") simp_all
  qed (simp add: machine_line_def mo)
qed

lemma run_lines_same:
  "(\<And>l x y. R x y \<Longrightarrow> rel_option R (f l x) (g l y)) \<Longrightarrow> R x y \<Longrightarrow> rel_option R (run_lines f ls x) (run_lines g ls y)"
proof (induction ls arbitrary: x y)
  case (Cons l ls)
  have "rel_option R (f l x) (g l y)" using Cons.prems by blast
  then show ?case using Cons.IH [OF Cons.prems(1)] by (cases "f l x"; cases "g l y") auto
qed simp

lemma frame_same:
  assumes "same_guest p mo mo'"
  shows "rel_option (same_guest p) (machine_run_frame_ex cfg pipeline step gm snk producer mo)
    (machine_run_frame_ex cfg' pipeline' step gm snk' producer' mo')"
proof -
  have f: "fst mo = fst mo'" using assms by (simp add: same_guest_def)
  have *: "rel_option (same_guest p) (map_option (apfst end_frame) x) (map_option (apfst end_frame) y)"
    if "rel_option (same_guest p) x y" for x :: "(machine \<times> 'a host_out) option" and y :: "(machine \<times> 'b host_out) option"
    using that by (cases x; cases y) (auto simp: same_guest_def)
  show ?thesis
    unfolding machine_run_frame_ex_def f by (intro * run_lines_same machine_line_same assms)
qed

text \<open>
  C35: what is asked of the output does not change the game. Whatever the sink, the producer and its
  answers, the build of the renderer and the row buffers left by earlier frames, a frame leaves the
  guest in the state it has after a frame without any output, as a rollback replay runs it, or neither
  frame ends; and it leaves the presentation options alone, so the same holds for the next frame.
\<close>

theorem presentation_invisible:
  fixes o1 :: "'h host_out" and o2 :: "'k host_out"
  shows "map_option (\<lambda>(m, o'). (m, o_present o')) (machine_run_frame_ex cfg pipeline step gm snk producer (m, o1)) =
    map_option (\<lambda>(m, o'). (m, o_present o1)) (machine_run_frame_ex cfg' pipeline' step gm None None (m, o2\<lparr>o_present := o_present o1\<rparr>))"
proof -
  have "rel_option (same_guest (o_present o1)) (machine_run_frame_ex cfg pipeline step gm snk producer (m, o1))
      (machine_run_frame_ex cfg' pipeline' step gm None None (m, o2\<lparr>o_present := o_present o1\<rparr>))"
    by (rule frame_same) simp
  then show ?thesis
    by (cases "machine_run_frame_ex cfg pipeline step gm snk producer (m, o1)";
        cases "machine_run_frame_ex cfg' pipeline' step gm None None (m, o2\<lparr>o_present := o_present o1\<rparr>)") auto
qed

section \<open>The Z80's share of a line\<close>

text \<open>The documented behaviour of the core: an instruction takes at least one and at most \<open>K\<close> T-states.\<close>

definition steady :: "int \<Rightarrow> z80_core \<Rightarrow> bool" where
  "steady K step \<longleftrightarrow> (\<forall>z vb. 1 \<le> uint (z_cyc (fst (step (z, vb))) - z_cyc z) \<and> uint (z_cyc (fst (step (z, vb))) - z_cyc z) \<le> K)"

definition slice_cycles :: "u32 \<times> z80 \<times> bstate \<Rightarrow> int" where
  "slice_cycles c = uint (z_cyc (fst (snd c)))"

lemma slice_step_advance:
  assumes "steady K step" "K \<le> 2 ^ 31" "uint (fst c) \<le> 2 ^ 31 - 1" "slice_cycles c \<le> 2 ^ 31"
  obtains t where "1 \<le> t" "t \<le> K" "uint (fst (slice_step step c)) = uint (fst c) + t" "slice_cycles (slice_step step c) = slice_cycles c + t"
proof -
  obtain d z vb where c: "c = (d, z, vb)" by (metis prod_cases3)
  define z' where "z' = step (z, set_z80_off (d * MASTER_PER_Z80) vb)"
  define t where "t = uint (z_cyc (fst z') - z_cyc z)"
  have t: "1 \<le> t" "t \<le> K" using assms(1) unfolding steady_def t_def z'_def by blast+
  have "uint (d + ucast (z_cyc (fst z') - z_cyc z)) = uint d + t"
    using assms t by (simp add: c t_def uint_word_ariths(1) unsigned_ucast_eq take_bit_eq_mod mod_add_right_eq)
  moreover have "uint (z_cyc (fst z')) = uint (z_cyc z) + t"
  proof -
    have "uint (z_cyc z + x) = (uint (z_cyc z) + uint x) mod 2 ^ 64" for x by (simp add: uint_word_ariths(1))
    from this [of "z_cyc (fst z') - z_cyc z"] have "uint (z_cyc (fst z')) = (uint (z_cyc z) + t) mod 2 ^ 64" by (simp add: t_def)
    then show ?thesis using assms t by (simp add: c slice_cycles_def)
  qed
  ultimately show thesis using that [of t] t by (simp add: slice_step_def c Let_def slice_cycles_def z'_def [symmetric])
qed

lemma slice_returns:
  assumes st: "steady K step" "K \<le> 2 ^ 31" and target: "uint target \<le> 65536"
    and c: "uint (fst c) \<le> 2 ^ 31 - 1" "0 \<le> k" "uint (fst c) = k + slice_cycles c"
  shows "\<exists>c'. z80_slice step target c = Some c' \<and> uint target \<le> uint (fst c')
    \<and> uint (fst c') = k + slice_cycles c' \<and> (fst c < target \<longrightarrow> uint (fst c') < uint target + K) \<and> (fst c \<ge> target \<longrightarrow> c' = c)"
  using c
proof (induction "nat (uint target - uint (fst c))" arbitrary: c rule: less_induct)
  case less
  show ?case
  proof (cases "fst c < target")
    case True
    then have d: "uint (fst c) < uint target" by (simp add: word_less_def)
    have "slice_cycles c \<le> 2 ^ 31" using less.prems by linarith
    then obtain t where t: "1 \<le> t" "t \<le> K" "uint (fst (slice_step step c)) = uint (fst c) + t"
        "slice_cycles (slice_step step c) = slice_cycles c + t"
      by (rule slice_step_advance [OF st less.prems(1)])
    have unf: "z80_slice step target c = z80_slice step target (slice_step step c)"
      using True by (simp add: z80_slice.simps [of step target c])
    show ?thesis
    proof (cases "fst (slice_step step c) < target")
      case go: True
      then have "uint (fst c) + t < uint target" using t by (simp add: word_less_def)
      then show ?thesis
        using less.hyps [of "slice_step step c"] less.prems t target d go unf leD [of target "fst c"] True by auto
    next
      case False
      then have "uint target \<le> uint (fst c) + t" using t by (simp add: word_less_def)
      moreover have "z80_slice step target c = Some (slice_step step c)"
        using False by (simp add: unf z80_slice.simps [of step target "slice_step step c"])
      ultimately show ?thesis
        using t d less.prems leD [of target "fst c"] True by (intro exI [of _ "slice_step step c"]) auto
    qed
  next
    case False
    then have "uint target \<le> uint (fst c)" by (simp add: not_less word_le_def)
    moreover have "z80_slice step target c = Some c" using False by (simp add: z80_slice.simps [of step target c])
    ultimately show ?thesis using less.prems False by (intro exI [of _ c]) auto
  qed
qed

lemma take_reset_debt [simp]: "z80_cycle_debt (take_reset m) = z80_cycle_debt m" "master_cycle (take_reset m) = master_cycle m"
  by (simp_all add: take_reset_def map_glue_def)

lemma step_z80_share:
  assumes st: "steady K step" "K \<le> 2 ^ 31" and debt: "uint (z80_cycle_debt m) < K"
  shows "\<exists>m'. step_z80 step Z80_PER_LINE m = Some m' \<and> uint (z80_cycle_debt m') < K \<and> master_cycle m' = master_cycle m
    \<and> (if z80_halted m then m' = m
       else uint (z_cyc (m_z80 m')) + uint (z80_cycle_debt m) = 228 + uint (z80_cycle_debt m'))"
proof (cases "z80_halted m")
  case False
  define m1 where "m1 = take_reset m"
  define c where "c = (z80_cycle_debt m, (m_z80 m1)\<lparr>z_cyc := 0\<rparr>, (m_vdp m1, m_bus m1))"
  have c: "uint (fst c) = uint (z80_cycle_debt m)" "slice_cycles c = 0" by (simp_all add: c_def slice_cycles_def)
  have target: "uint Z80_PER_LINE = 228" by (simp add: Z80_PER_LINE_def)
  obtain c' where s: "z80_slice step Z80_PER_LINE c = Some c'" "228 \<le> uint (fst c')"
      "uint (fst c') = uint (z80_cycle_debt m) + slice_cycles c'" "fst c < Z80_PER_LINE \<longrightarrow> uint (fst c') < 228 + K"
      "fst c \<ge> Z80_PER_LINE \<longrightarrow> c' = c"
    using slice_returns [OF st, of Z80_PER_LINE c "uint (z80_cycle_debt m)"] c debt st(2) by (auto simp: target)
  have sub: "uint (fst c' - Z80_PER_LINE) = uint (fst c') - 228"
    using s(2) by (simp add: uint_sub_lem [THEN iffD1] target)
  have "uint (fst c' - Z80_PER_LINE) < K"
    using s(4,5) debt c(1) sub by (cases "fst c < Z80_PER_LINE") (simp_all add: not_less)
  moreover have m1: "z80_cycle_debt m1 = z80_cycle_debt m" "master_cycle m1 = master_cycle m" by (simp_all add: m1_def)
  moreover obtain d z v b where c': "c' = (d, z, v, b)" by (metis prod_cases4)
  ultimately show ?thesis
    using False s(1,3) sub unfolding step_z80_def Let_def m1_def [symmetric] m1 c_def [symmetric] c'
    by (simp add: slice_cycles_def m1)
qed (use assms in \<open>simp add: step_z80_def\<close>)


lemma map_glue_simps [simp]:
  "z80_cycle_debt (map_glue f m) = z80_cycle_debt m" "master_cycle (map_glue f m) = master_cycle m"
  by (simp_all add: map_glue_def)

lemma put_vdp_simps [simp]:
  "z80_cycle_debt (put_vdp v m) = z80_cycle_debt m" "master_cycle (put_vdp v m) = master_cycle m"
  by (simp_all add: put_vdp_def)

lemma run_line_returns:
  assumes st: "steady K step" "K \<le> 2 ^ 31" and debt: "uint (z80_cycle_debt m) < K"
  shows "\<exists>h m'. run_line step gm line m = Some (h, m') \<and> uint (z80_cycle_debt m') < K \<and> master_cycle m' = master_cycle m"
proof -
  obtain hirq virq m1 where b: "begin_line line m = ((hirq, virq), m1)" by (metis prod_cases3 surj_pair)
  define m2 where "m2 = map_glue (service_latched gm \<circ> glue_run_game_chunk gm M68K_PER_LINE) m1"
  have "z80_cycle_debt m1 = z80_cycle_debt m \<and> master_cycle m1 = master_cycle m"
    using b by (auto simp: begin_line_def Let_def split: prod.splits)
  then have "uint (z80_cycle_debt m2) < K" "master_cycle m2 = master_cycle m" using debt by (simp_all add: m2_def)
  then obtain m3 where "step_z80 step Z80_PER_LINE m2 = Some m3" "uint (z80_cycle_debt m3) < K" "master_cycle m3 = master_cycle m"
    using step_z80_share [OF st, of m2] by auto
  then show ?thesis
    unfolding run_line_def b Let_def prod.case m2_def [symmetric] by (auto simp: vertical_interrupt_def)
qed

lemma machine_line_returns:
  assumes "steady K step" "K \<le> 2 ^ 31" "uint (z80_cycle_debt (fst mo)) < K"
  shows "\<exists>mo'. machine_line cfg pipeline step gm snk producer h line mo = Some mo' \<and> uint (z80_cycle_debt (fst mo')) < K
    \<and> master_cycle (fst mo') = master_cycle (fst mo) + 3420"
proof -
  obtain hirq m1 where "run_line step gm line (fst mo) = Some (hirq, m1)" "uint (z80_cycle_debt m1) < K" "master_cycle m1 = master_cycle (fst mo)"
    using run_line_returns [OF assms] by blast
  then show ?thesis
    unfolding machine_line_def by (auto simp: end_line_def Let_def MASTER_PER_LINE_def split: prod.splits)
qed

lemma run_lines_returns:
  assumes "\<And>l x. P x \<Longrightarrow> \<exists>y. f l x = Some y \<and> P y \<and> (\<mu> y :: u32) = \<mu> x + d" "P x"
  shows "\<exists>y. run_lines f ls x = Some y \<and> P y \<and> \<mu> y = \<mu> x + of_nat (length ls) * d"
  using assms(2)
proof (induction ls arbitrary: x)
  case (Cons l ls)
  obtain y where y: "f l x = Some y" "P y" "\<mu> y = \<mu> x + d" using assms(1) Cons.prems by blast
  then show ?case using Cons.IH [OF y(2)] by (auto simp: algebra_simps)
qed simp

lemma frame_returns:
  assumes "steady K step" "K \<le> 2 ^ 31" "uint (z80_cycle_debt (fst mo)) < K"
  shows "\<exists>mo'. machine_run_frame_ex cfg pipeline step gm snk producer mo = Some mo' \<and> uint (z80_cycle_debt (fst mo')) < K
    \<and> master_cycle (fst mo') = master_cycle (fst mo) + 262 * 3420"
proof -
  have "\<exists>y. run_lines (machine_line cfg pipeline step gm snk producer (gvdp_screen_height (m_vdp (fst mo)))) [0..<LINES_TOTAL] mo = Some y
      \<and> uint (z80_cycle_debt (fst y)) < K \<and> master_cycle (fst y) = master_cycle (fst mo) + of_nat (length [0..<LINES_TOTAL]) * 3420"
    by (rule run_lines_returns [where P = "\<lambda>mo. uint (z80_cycle_debt (fst mo)) < K" and \<mu> = "\<lambda>mo. master_cycle (fst mo)"])
      (rule machine_line_returns [OF assms(1,2)], assumption, rule assms(3))
  then show ?thesis
    unfolding machine_run_frame_ex_def by (auto simp: end_frame_def LINES_TOTAL_def)
qed

text \<open>
  C36: the Z80 keeps pace with the picture and a frame always ends. Take a core whose every step takes
  at least one and at most \<open>K\<close> T-states, where \<open>K\<close> is at most \<open>2\<^sup>3\<^sup>1\<close> so that the 32-bit counter of the line
  cannot wrap (a step of the core in use executes a whole chain of prefixes, but a chain ends at the
  latest at address 0x6000, after fewer than 57345 of them), and a debt below \<open>K\<close>. Then a line gives
  a released Z80 exactly 228 T-states less what it overran the line before, plus what it overruns this
  one; the new debt is again below \<open>K\<close>; a held Z80 is left alone. Hence any number of frames returns,
  each with 262 lines of 3420 master cycles, for every program, interrupt handler and output.
\<close>

theorem z80_keeps_pace:
  assumes "steady K step" "K \<le> 2 ^ 31" "uint (z80_cycle_debt m) < K"
  shows "(\<exists>m'. step_z80 step Z80_PER_LINE m = Some m' \<and> uint (z80_cycle_debt m') < K
      \<and> (if z80_halted m then m' = m else uint (z_cyc (m_z80 m')) = 228 - uint (z80_cycle_debt m) + uint (z80_cycle_debt m')))
    \<and> (\<exists>m' o'. run_lines (\<lambda>_. machine_run_frame_ex cfg pipeline step gm snk producer) [0..<n] (m, o1) = Some (m', o')
      \<and> uint (z80_cycle_debt m') < K \<and> master_cycle m' = master_cycle m + of_nat n * (262 * 3420))"
proof -
  have "\<exists>mo'. run_lines (\<lambda>_. machine_run_frame_ex cfg pipeline step gm snk producer) [0..<n] (m, o1) = Some mo'
      \<and> uint (z80_cycle_debt (fst mo')) < K \<and> master_cycle (fst mo') = master_cycle m + of_nat (length [0..<n]) * (262 * 3420)"
    by (rule run_lines_returns [where P = "\<lambda>mo. uint (z80_cycle_debt (fst mo)) < K" and \<mu> = "\<lambda>mo. master_cycle (fst mo)" and x = "(m, o1)", unfolded fst_conv])
      (rule frame_returns [OF assms(1,2)], assumption, rule assms(3))
  moreover obtain m' where "step_z80 step Z80_PER_LINE m = Some m'" "uint (z80_cycle_debt m') < K"
      "if z80_halted m then m' = m else uint (z_cyc (m_z80 m')) + uint (z80_cycle_debt m) = 228 + uint (z80_cycle_debt m')"
    using step_z80_share [OF assms] by blast
  ultimately show ?thesis by (force split: if_splits)
qed

section \<open>Snapshots\<close>

lemma colour_cb_other: "i < 192 \<Longrightarrow> i mod 64 \<noteq> c \<Longrightarrow> colour_cb (c, x) cache i = cache i"
  using mod_mult_self2 [of c 64 2] by (auto simp: colour_cb_def GVDP_CRAM_ENTRIES_def)

lemma colour_cb_same: "i < 192 \<Longrightarrow> colour_cb (i mod 64, x) cache i = bgr9_to_argb x (int (i div 64))"
proof -
  assume "i < 192"
  then have d: "i div 64 = 0 \<or> i div 64 = 1 \<or> i div 64 = 2" by (simp add: div_less_iff_less_mult) linarith
  have "i = i mod 64 + 64 * (i div 64)" by simp
  with d consider "i = i mod 64" "i div 64 = 0" | "i = i mod 64 + 64" "i div 64 = 1" | "i = i mod 64 + 128" "i div 64 = 2" by force
  then show ?thesis
    by cases (auto simp: colour_cb_def GVDP_CRAM_ENTRIES_def)
qed

lemma palette_rebuilt:
  assumes "i < 192"
  shows "fold colour_cb (map (\<lambda>c. (c, f c)) [0..<n]) cache i = (if i mod 64 < n then bgr9_to_argb (f (i mod 64)) (int (i div 64)) else cache i)"
proof (induction n)
  case (Suc n)
  show ?case
  proof (cases "i mod 64 = n")
    case True
    then show ?thesis using colour_cb_same [OF assms] by (auto simp flip: True)
  next
    case False
    then show ?thesis using colour_cb_other [OF assms False] Suc by (simp add: less_Suc_eq)
  qed
qed simp

text \<open>Loading a saved image is a snapshot step of the bus: the structure of the saved bus, beside what the loading machine has outside it.\<close>

lemma bus_parts:
  fixes b :: gbus and t :: GenesisBus
  shows "b = GenesisBus.extend (GenesisBus.truncate b) (GenesisBus.more b)"
    "GenesisBus.truncate (b\<lparr>g_snd_frame := f\<rparr>) = GenesisBus.truncate b"
    "GenesisBus.truncate (GenesisBus.extend t x) = t"
  by (cases b; simp add: GenesisBus.defs)+

lemma rb_load_booted:
  assumes "booted w (v1, m_bus m)" "booted w (v2, m_bus m2)"
    "machine_rb_save sz True cap (m, o1) = (n, Some img)" "machine_rb_load sz (Some img) len (m2, o2) = (ok, m', o')"
  shows "booted w (m_vdp m', m_bus m')"
proof -
  have "rb_bus img = GenesisBus.truncate (m_bus m)"
    using assms(3) by (auto simp: machine_rb_save_def Let_def split: if_splits)
  then have "GenesisBus.truncate (m_bus m') = GenesisBus.truncate (m_bus (if ok then m else m2))"
    using assms(4) by (auto simp: machine_rb_load_def Let_def m_bus_def bus_parts(2,3) split: if_splits)
  then show ?thesis
    using booted.outside [OF assms(1), of "m_vdp m'" "GenesisBus.more (m_bus m')"]
      booted.outside [OF assms(2), of "m_vdp m'" "GenesisBus.more (m_bus m')"] bus_parts(1) [of "m_bus m'"]
    by (cases ok) simp_all
qed

text \<open>
  C37: a rollback snapshot restores the machine. Asked without a buffer, the save tells the size it
  needs; a smaller buffer is refused and left alone, and every buffer of that size or more receives the
  same image. That image, loaded into any other machine, is accepted and gives back the Z80, the clocks,
  the VDP with its owed stall, the bus with the timer clock and the sprite-limit option; saving again
  gives the same image; the memories and counters that belong to other snapshots stay those of the
  loading machine; the palette cache shows the restored colours at all three intensities. A load without
  an image, or of any other length, shorter or longer, is refused and changes nothing.
\<close>

theorem machine_snapshot_round_trip:
  "\<exists>img. (\<forall>cap. machine_rb_save sz False cap (m, o1) = (RB_SIZE sz, None)
        \<and> machine_rb_save sz True cap (m, o1) = (if cap < RB_SIZE sz then (0, None) else (RB_SIZE sz, Some img)))
    \<and> (\<forall>src len. len = RB_SIZE sz \<or> machine_rb_load sz src len (m2, o2) = (False, m2, o2))
    \<and> machine_rb_load sz None len (m2, o2) = (False, m2, o2)
    \<and> (case machine_rb_load sz (Some img) (RB_SIZE sz) (m2, o2) of (ok, m', o') \<Rightarrow> ok
      \<and> machine_rb_save sz True (RB_SIZE sz) (m', o') = (RB_SIZE sz, Some img)
      \<and> m_z80 m' = m_z80 m \<and> z80_cycle_debt m' = z80_cycle_debt m \<and> master_cycle m' = master_cycle m \<and> g_snd_line m' = g_snd_line m
      \<and> vdp_struct (m_vdp m') = vdp_struct (m_vdp m) \<and> s_pending_68k_stall (m_vdp m') = s_pending_68k_stall (m_vdp m)
      \<and> m_bus m' = (GenesisBus.extend (GenesisBus.truncate (m_bus m)) (GenesisBus.more (m_bus m2)))\<lparr>g_snd_frame := g_snd_frame (m_bus m)\<rparr>
      \<and> (m_glue m')\<lparr>vdp := v, bus := b\<rparr> = (m_glue m2)\<lparr>vdp := v, bus := b\<rparr>
      \<and> s_unlimited_sprites (o_present o') = s_unlimited_sprites (o_present o1)
      \<and> map (argb_cache (m_vdp m') o') [0..<192] =
          map (\<lambda>i. genesis_dac_cram_to_argb (cram (m_vdp m) (i mod 64)) (int (i div 64))) [0..<192])"
proof -
  obtain img where img: "machine_rb_save sz True (RB_SIZE sz) (m, o1) = (RB_SIZE sz, Some img)"
    by (simp add: machine_rb_save_def Let_def)
  have save: "machine_rb_save sz False cap (m, o1) = (RB_SIZE sz, None)
    \<and> machine_rb_save sz True cap (m, o1) = (if cap < RB_SIZE sz then (0, None) else (RB_SIZE sz, Some img))" for cap
    using img by (auto simp: machine_rb_save_def Let_def)
  have refuse: "len = RB_SIZE sz \<or> machine_rb_load sz src len (m2, o2) = (False, m2, o2)"
    "machine_rb_load sz None len (m2, o2) = (False, m2, o2)" for src len
    by (simp_all add: machine_rb_load_def machine_rb_save_def Let_def split: option.split)
  show ?thesis
    by (intro exI [of _ img] conjI allI save refuse)
      (use img in \<open>auto simp: machine_rb_save_def machine_rb_load_def Let_def m_vdp_def m_bus_def vdp_struct_def rebuild_palette_def
        gvdp_rb_pending_stall_def gvdp_rb_set_pending_stall_def gvdp_set_unlimited_sprites_def argb_cache_def
        GVDP_CRAM_ENTRIES_def palette_rebuilt bgr9_to_argb_def GenesisBus.defs\<close>)
qed

section \<open>A concrete instance\<close>

text \<open>
  A core with the memory and interrupt timing of the one in use, and instructions of one byte: it
  fetches through the bus, executes a chain of DD and FD prefixes with the opcode behind them in one
  step of four T-states each, and accepts a pending mode 1 interrupt after it. On any bus state it
  takes at most 262153 T-states.
\<close>

primrec fetch_chain :: "nat \<Rightarrow> z80 \<times> bstate \<Rightarrow> z80 \<times> bstate" where
  "fetch_chain 0 zb = zb"
| "fetch_chain (Suc n) zb =
    (let (z, vb) = zb; (op, vb) = gbus_z80_read (z_pc z) vb; z = z\<lparr>z_pc := z_pc z + 1, z_cyc := z_cyc z + 4\<rparr>
     in if op = 0xDD \<or> op = 0xFD then fetch_chain n (z, vb) else (z, vb))"

definition accept_irq :: "z80 \<Rightarrow> z80" where
  "accept_irq z =
    (if int_pending z \<and> iff1 z
     then z\<lparr>int_pending := False, iff1 := False, iff2 := False, z_pc := 0x38, z_cyc := z_cyc z + 13\<rparr> else z)"

definition prefix_core :: z80_core where
  "prefix_core zb = apfst accept_irq (fetch_chain 65535 zb)"

lemma fetch_chain_cycles:
  "\<exists>t \<le> 4 * n. (n = 0 \<or> 4 \<le> t) \<and> z_cyc (fst (fetch_chain n zb)) = z_cyc (fst zb) + of_nat t"
proof (induction n arbitrary: zb)
  case (Suc n)
  define vb' where "vb' = snd (gbus_z80_read (z_pc (fst zb)) (snd zb))"
  define op where "op = fst (gbus_z80_read (z_pc (fst zb)) (snd zb))"
  define z' where "z' = (fst zb)\<lparr>z_pc := z_pc (fst zb) + 1, z_cyc := z_cyc (fst zb) + 4\<rparr>"
  have unf: "fetch_chain (Suc n) zb = (if op = 0xDD \<or> op = 0xFD then fetch_chain n (z', vb') else (z', vb'))"
    by (simp add: split_beta Let_def op_def z'_def vb'_def)
  obtain t where "t \<le> 4 * n" "z_cyc (fst (fetch_chain n (z', vb'))) = z_cyc z' + of_nat t"
    using Suc.IH [of "(z', vb')"] by auto
  then show ?case
    unfolding unf by (cases "op = 0xDD \<or> op = 0xFD") (auto simp: z'_def intro: exI [of _ "t + 4"] exI [of _ 4])
qed simp

lemma prefix_core_steady: "steady 262153 prefix_core"
  unfolding steady_def
proof (intro allI)
  fix z :: z80 and vb :: bstate
  obtain t where t: "t \<le> 262140" "4 \<le> t" "z_cyc (fst (fetch_chain 65535 (z, vb))) = z_cyc z + of_nat t"
    using fetch_chain_cycles [of 65535 "(z, vb)"] by auto
  obtain u where u: "4 \<le> u" "u \<le> 262153" "z_cyc (fst (prefix_core (z, vb))) = z_cyc z + of_nat u"
  proof (cases "z_cyc (fst (prefix_core (z, vb))) = z_cyc z + of_nat t")
    case False
    then have "z_cyc (fst (prefix_core (z, vb))) = z_cyc z + of_nat (t + 13)"
      using t(3) by (auto simp: prefix_core_def accept_irq_def split: if_splits)
    then show thesis using t by (intro that [of "t + 13"]) simp_all
  qed (use t that in auto)
  have "uint (of_nat u :: u64) = int u" using u(2) by (simp add: unsigned_of_nat take_bit_nat_eq_self)
  then show "1 \<le> uint (z_cyc (fst (prefix_core (z, vb))) - z_cyc z) \<and> uint (z_cyc (fst (prefix_core (z, vb))) - z_cyc z) \<le> 262153"
    using u by simp
qed

text \<open>A released Z80 in memory that holds nothing but prefixes, owing three T-states of the line before.\<close>

definition demo_machine :: machine where
  "demo_machine = \<lparr>m_glue = idle_glue\<lparr>bus := power_on\<lparr>z80_reset_off := True, z80_ram := \<lambda>_. 0xDD\<rparr>\<rparr>, m_z80 = z80_own_reset z80_init,
     z80_cycle_debt = 3, master_cycle = 0, g_snd_line = 0\<rparr>"

definition demo_out :: "unit host_out" where
  "demo_out = \<lparr>o_present = plain_present, s_cram_argb = \<lambda>_. 0, o_sprites = blank_layer, idxbuf = \<lambda>_. 0, rowbuf = \<lambda>_. 0,
     o_raster = blank_row, o_user = ()\<rparr>"

theorem z80_keeps_pace_witness:
  "(\<exists>m'. step_z80 prefix_core Z80_PER_LINE demo_machine = Some m' \<and> uint (z_cyc (m_z80 m')) = 225 + uint (z80_cycle_debt m'))
   \<and> (\<exists>m' o'. run_lines (\<lambda>_. machine_run_frame_ex batched_build True prefix_core small_game None None) [0..<60] (demo_machine, demo_out) = Some (m', o')
      \<and> master_cycle m' = 60 * (262 * 3420))"
proof -
  have "uint (z80_cycle_debt demo_machine) < 262153" by (simp add: demo_machine_def)
  then show ?thesis
    using z80_keeps_pace [OF prefix_core_steady, of demo_machine batched_build True small_game None None 60 demo_out]
    by (auto simp: demo_machine_def z80_halted_def m_bus_def power_on_def)
qed

end
