(* ===== verification/Cd_Mix.thy ===== *)
theory Cd_Mix
  imports Prelude
begin

text \<open>
  The Sega CD clock-domain mixer, \<^verbatim>\<open>runner/cd/audio_mix.c\<close> with \<^verbatim>\<open>audio_owned_span.h\<close>: two ring
  queues of time-stamped stereo samples, each of which may hold one run of equal samples in compressed
  form; reservations that let a sound chip write a whole span at once; and the interpolating output
  window. Samples are 16-bit words read as signed numbers, time stamps count the 12.5 MHz clock. A
  reservation carries the place it was made for; the pointers by which the C code recognises its own
  mixer and queue have no counterpart, because a reservation of the model is only used with its mixer.
\<close>

section \<open>State\<close>

type_synonym i16 = "16 word"

definition QUEUE_CAPACITY :: nat where "QUEUE_CAPACITY = 4096"
definition MIX_CLOCK_HZ :: nat where "MIX_CLOCK_HZ = 12500000"
definition MAX_WINDOW_FRAMES :: nat where "MAX_WINDOW_FRAMES = 16384"

datatype mix_result = MIX_OK | MIX_INVALID | MIX_NOT_ACTIVE | MIX_PAUSED | MIX_QUEUE_FULL
  | MIX_BAD_TIMESTAMP | MIX_NEED_INPUT | MIX_WINDOW_MISMATCH | MIX_ALREADY_BOUND

datatype audio_source = SOURCE_PCM | SOURCE_CDDA

definition FAULT_OVERFLOW :: u32 where "FAULT_OVERFLOW = 1"
definition FAULT_TIMESTAMP :: u32 where "FAULT_TIMESTAMP = 2"
definition FAULT_UNDERFLOW :: u32 where "FAULT_UNDERFLOW = 4"
definition FAULT_WINDOW :: u32 where "FAULT_WINDOW = 8"

record SegaCDAudioFrame =
  subclock :: u64
  f_left :: i16
  f_right :: i16

record SegaCDAudioConstant =
  c_first :: u64
  c_phase :: u32
  c_step :: u32
  c_den :: u32
  c_left :: i16
  c_right :: i16

record SegaCDAudioQueue =
  frame :: "nat \<Rightarrow> SegaCDAudioFrame"
  last_subclock :: u64
  accepted_frames :: u64
  rejected_frames :: u64
  discarded_frames :: u64
  q_head :: nat
  q_count :: nat
  q_active :: bool
  have_last_subclock :: bool
  q_run :: SegaCDAudioConstant
  run_first :: nat
  run_count :: nat

record SegaCDAudioWindow =
  first_subclock :: u64
  first_phase :: u32
  step_numerator :: u32
  step_denominator :: u32
  rate_hz :: u32
  w_frames :: nat
  w_pending :: bool

record SegaCDAudioMix =
  m_source :: "audio_source \<Rightarrow> SegaCDAudioQueue"
  window :: SegaCDAudioWindow
  faults :: u32
  rendered_frames :: u64
  underflow_blocks :: u64
  overflow_events :: u64
  paused_rejections :: u64
  next_output_subclock :: u64
  next_output_phase :: u32
  next_output_denominator :: u32
  next_output_step_numerator :: u32
  next_output_rate_hz :: u32
  paused :: bool
  next_output_valid :: bool
  last_result :: mix_result

definition set_result :: "mix_result \<Rightarrow> SegaCDAudioMix \<Rightarrow> mix_result \<times> SegaCDAudioMix" where
  "set_result r mix = (r, mix\<lparr>last_result := r\<rparr>)"

definition add_fault :: "u32 \<Rightarrow> SegaCDAudioMix \<Rightarrow> SegaCDAudioMix" where
  "add_fault f mix = mix\<lparr>faults := faults mix OR f\<rparr>"

definition map_source :: "audio_source \<Rightarrow> (SegaCDAudioQueue \<Rightarrow> SegaCDAudioQueue) \<Rightarrow> SegaCDAudioMix \<Rightarrow> SegaCDAudioMix" where
  "map_source s f mix = mix\<lparr>m_source := (m_source mix)(s := f (m_source mix s))\<rparr>"

section \<open>Queues\<close>

definition empty_queue :: SegaCDAudioQueue where
  "empty_queue = \<lparr>frame = \<lambda>_. \<lparr>subclock = 0, f_left = 0, f_right = 0\<rparr>, last_subclock = 0, accepted_frames = 0, rejected_frames = 0,
     discarded_frames = 0, q_head = 0, q_count = 0, q_active = False, have_last_subclock = False,
     q_run = \<lparr>c_first = 0, c_phase = 0, c_step = 0, c_den = 0, c_left = 0, c_right = 0\<rparr>, run_first = 0, run_count = 0\<rparr>"

definition segacd_audio_mix_init :: SegaCDAudioMix where
  "segacd_audio_mix_init = \<lparr>m_source = \<lambda>_. empty_queue,
     window = \<lparr>first_subclock = 0, first_phase = 0, step_numerator = 0, step_denominator = 0, rate_hz = 0, w_frames = 0, w_pending = False\<rparr>,
     faults = 0, rendered_frames = 0, underflow_blocks = 0, overflow_events = 0, paused_rejections = 0, next_output_subclock = 0,
     next_output_phase = 0, next_output_denominator = 0, next_output_step_numerator = 0, next_output_rate_hz = 0, paused = False,
     next_output_valid = False, last_result = MIX_OK\<rparr>"

definition segacd_audio_mix_reset :: "SegaCDAudioMix \<Rightarrow> SegaCDAudioMix" where
  "segacd_audio_mix_reset mix = segacd_audio_mix_init\<lparr>m_source :=
     \<lambda>s. empty_queue\<lparr>discarded_frames := discarded_frames (m_source mix s) + of_nat (q_count (m_source mix s))\<rparr>\<rparr>"

definition clear_queue :: "SegaCDAudioQueue \<Rightarrow> SegaCDAudioQueue" where
  "clear_queue q = q\<lparr>discarded_frames := discarded_frames q + of_nat (q_count q), q_head := 0, q_count := 0,
     have_last_subclock := False, run_count := 0\<rparr>"

definition segacd_audio_mix_set_active :: "audio_source \<Rightarrow> bool \<Rightarrow> SegaCDAudioMix \<Rightarrow> mix_result \<times> SegaCDAudioMix" where
  "segacd_audio_mix_set_active s active mix =
    (if paused mix then set_result MIX_PAUSED mix
     else set_result MIX_OK (map_source s (\<lambda>q. (clear_queue q)\<lparr>q_active := active\<rparr>) mix))"

definition bad_timestamp :: "SegaCDAudioQueue \<Rightarrow> u64 \<Rightarrow> bool" where
  "bad_timestamp q t \<longleftrightarrow> have_last_subclock q \<and> (t \<le> last_subclock q \<or> unat (t - last_subclock q) > MIX_CLOCK_HZ)"

definition store_frame :: "SegaCDAudioFrame \<Rightarrow> SegaCDAudioQueue \<Rightarrow> SegaCDAudioQueue" where
  "store_frame f q = q\<lparr>frame := (frame q)((q_head q + q_count q) mod QUEUE_CAPACITY := f), q_count := q_count q + 1,
     last_subclock := subclock f, have_last_subclock := True, accepted_frames := accepted_frames q + 1\<rparr>"

definition segacd_audio_mix_push :: "audio_source \<Rightarrow> SegaCDAudioFrame \<Rightarrow> SegaCDAudioMix \<Rightarrow> mix_result \<times> SegaCDAudioMix" where
  "segacd_audio_mix_push s f mix =
    (let q = m_source mix s; reject = map_source s (\<lambda>q. q\<lparr>rejected_frames := rejected_frames q + 1\<rparr>)
     in if paused mix then set_result MIX_PAUSED (reject (mix\<lparr>paused_rejections := paused_rejections mix + 1\<rparr>))
        else if \<not> q_active q then set_result MIX_NOT_ACTIVE (reject mix)
        else if bad_timestamp q (subclock f) then set_result MIX_BAD_TIMESTAMP (add_fault FAULT_TIMESTAMP mix)
        else if q_count q = QUEUE_CAPACITY
        then set_result MIX_QUEUE_FULL (add_fault FAULT_OVERFLOW (reject (mix\<lparr>overflow_events := overflow_events mix + 1\<rparr>)))
        else set_result MIX_OK (map_source s (store_frame f) mix))"

definition segacd_audio_mix_pause :: "SegaCDAudioMix \<Rightarrow> SegaCDAudioMix" where
  "segacd_audio_mix_pause mix =
    snd (set_result MIX_OK (mix\<lparr>m_source := \<lambda>s. (clear_queue (m_source mix s))\<lparr>q_active := False\<rparr>, paused := True,
      window := (window mix)\<lparr>w_pending := False\<rparr>, next_output_valid := False\<rparr>))"

definition segacd_audio_mix_resume :: "SegaCDAudioMix \<Rightarrow> SegaCDAudioMix" where
  "segacd_audio_mix_resume mix =
    snd (set_result MIX_OK (mix\<lparr>m_source := \<lambda>s. (m_source mix s)\<lparr>q_active := False\<rparr>, paused := False,
      window := (window mix)\<lparr>w_pending := False\<rparr>, next_output_valid := False\<rparr>))"

definition segacd_audio_mix_clear_faults :: "u32 \<Rightarrow> SegaCDAudioMix \<Rightarrow> SegaCDAudioMix" where
  "segacd_audio_mix_clear_faults bits mix = mix\<lparr>faults := faults mix AND NOT bits\<rparr>"

text \<open>
  Run arithmetic: the time stamp of logical frame \<open>i\<close> of a run, and the run without its first \<open>n\<close>
  frames. A frame of the queue is read from the run where the run covers its slot.
\<close>

definition run_ticks :: "SegaCDAudioConstant \<Rightarrow> nat \<Rightarrow> u64" where
  "run_ticks r n = ucast (c_phase r) + of_nat n * ucast (c_step r)"

definition constant_stamp :: "SegaCDAudioConstant \<Rightarrow> nat \<Rightarrow> u64" where
  "constant_stamp r i = c_first r + run_ticks r i div ucast (c_den r)"

definition advance_constant :: "nat \<Rightarrow> SegaCDAudioConstant \<Rightarrow> SegaCDAudioConstant" where
  "advance_constant n r = r\<lparr>c_first := c_first r + run_ticks r n div ucast (c_den r),
     c_phase := ucast (run_ticks r n mod ucast (c_den r))\<rparr>"

definition run_frame :: "SegaCDAudioConstant \<Rightarrow> nat \<Rightarrow> SegaCDAudioFrame" where
  "run_frame r i = \<lparr>subclock = constant_stamp r i, f_left = c_left r, f_right = c_right r\<rparr>"

definition run_offset :: "SegaCDAudioQueue \<Rightarrow> nat \<Rightarrow> nat" where
  "run_offset q slot = (slot + QUEUE_CAPACITY - run_first q) mod QUEUE_CAPACITY"

definition frame_at :: "SegaCDAudioQueue \<Rightarrow> nat \<Rightarrow> SegaCDAudioFrame" where
  "frame_at q i =
    (let slot = (q_head q + i) mod QUEUE_CAPACITY; offset = run_offset q slot
     in if offset < run_count q then run_frame (q_run q) offset else frame q slot)"

definition segacd_audio_mix_queue_frame :: "SegaCDAudioMix \<Rightarrow> audio_source \<Rightarrow> nat \<Rightarrow> SegaCDAudioFrame option" where
  "segacd_audio_mix_queue_frame mix s i = (if i \<ge> q_count (m_source mix s) then None else Some (frame_at (m_source mix s) i))"

section \<open>Reservations\<close>

record SegaCDAudioWriteGrant =
  g_count :: nat
  g_first :: nat
  old_head :: nat
  old_count :: nat
  g_source :: audio_source
  g_first_subclock :: u64
  g_last_subclock :: u64
  g_constant :: "SegaCDAudioConstant option"

definition segacd_audio_mix_begin_span ::
  "SegaCDAudioMix \<Rightarrow> audio_source \<Rightarrow> u64 \<Rightarrow> u64 \<Rightarrow> nat \<Rightarrow> SegaCDAudioWriteGrant option" where
  "segacd_audio_mix_begin_span mix s first fin count =
    (let q = m_source mix s
     in if count = 0 \<or> paused mix then None
        else if \<not> q_active q \<or> q_count q > QUEUE_CAPACITY \<or> count > QUEUE_CAPACITY - q_count q
          \<or> fin < first \<or> (count > 1 \<and> fin = first) \<or> unat (fin - first) > MIX_CLOCK_HZ then None
        else if bad_timestamp q first then None
        else Some \<lparr>g_count = count, g_first = (q_head q + q_count q) mod QUEUE_CAPACITY, old_head = q_head q,
               old_count = q_count q, g_source = s, g_first_subclock = first, g_last_subclock = fin, g_constant = None\<rparr>)"

definition run_continues :: "SegaCDAudioQueue \<Rightarrow> SegaCDAudioConstant \<Rightarrow> nat \<Rightarrow> bool" where
  "run_continues q r slot \<longleftrightarrow> (run_first q + run_count q) mod QUEUE_CAPACITY = slot \<and> advance_constant (run_count q) (q_run q) = r"

definition segacd_audio_mix_begin_constant ::
  "SegaCDAudioMix \<Rightarrow> audio_source \<Rightarrow> SegaCDAudioConstant \<Rightarrow> nat \<Rightarrow> SegaCDAudioWriteGrant option" where
  "segacd_audio_mix_begin_constant mix s r count =
    (if count = 0 \<or> count > QUEUE_CAPACITY \<or> c_den r = 0 \<or> c_den r > 1000000 \<or> c_phase r \<ge> c_den r \<or> c_step r < c_den r then None
     else
       let span = run_ticks r (count - 1) div ucast (c_den r)
       in if c_first r > - 1 - span then None
          else case segacd_audio_mix_begin_span mix s (c_first r) (c_first r + span) count of
                 None \<Rightarrow> None
               | Some g \<Rightarrow>
                   (let q = m_source mix s
                    in if run_count q \<noteq> 0 \<and> \<not> run_continues q r (g_first g) then None
                       else Some (g\<lparr>g_constant := Some r\<rparr>)))"

text \<open>The holder of a span writes its frames through the reservation, into the slots behind the queue.\<close>

definition grant_slot :: "SegaCDAudioWriteGrant \<Rightarrow> nat \<Rightarrow> nat" where
  "grant_slot g i = (g_first g + i) mod QUEUE_CAPACITY"

definition grant_write :: "SegaCDAudioWriteGrant \<Rightarrow> nat \<Rightarrow> SegaCDAudioFrame \<Rightarrow> SegaCDAudioMix \<Rightarrow> SegaCDAudioMix" where
  "grant_write g i f = map_source (g_source g) (\<lambda>q. q\<lparr>frame := (frame q)(grant_slot g i := f)\<rparr>)"

definition accept_span :: "SegaCDAudioWriteGrant \<Rightarrow> SegaCDAudioQueue \<Rightarrow> SegaCDAudioQueue" where
  "accept_span g q = q\<lparr>q_count := q_count q + g_count g, accepted_frames := accepted_frames q + of_nat (g_count g),
     last_subclock := g_last_subclock g, have_last_subclock := True\<rparr>"

definition accept_run :: "SegaCDAudioConstant \<Rightarrow> SegaCDAudioWriteGrant \<Rightarrow> SegaCDAudioQueue \<Rightarrow> SegaCDAudioQueue" where
  "accept_run r g q =
    (let q = (if run_count q = 0 then q\<lparr>q_run := r, run_first := g_first g\<rparr> else q)
     in accept_span g (q\<lparr>run_count := run_count q + g_count g\<rparr>))"

definition segacd_audio_mix_commit_span :: "SegaCDAudioWriteGrant \<Rightarrow> SegaCDAudioMix \<Rightarrow> mix_result \<times> SegaCDAudioMix" where
  "segacd_audio_mix_commit_span g mix =
    (let s = g_source g; q = m_source mix s
     in case g_constant g of
          Some r \<Rightarrow>
            if segacd_audio_mix_begin_constant mix s r (g_count g) \<noteq> Some g then (MIX_INVALID, mix)
            else set_result MIX_OK (map_source s (accept_run r g) mix)
        | None \<Rightarrow>
            if paused mix \<or> \<not> q_active q \<or> q_head q \<noteq> old_head g \<or> q_count q \<noteq> old_count g \<or> q_count q > QUEUE_CAPACITY
              \<or> g_count g = 0 \<or> g_count g > QUEUE_CAPACITY - q_count q
              \<or> g_first g \<noteq> (q_head q + q_count q) mod QUEUE_CAPACITY
              \<or> subclock (frame q (grant_slot g 0)) \<noteq> g_first_subclock g
              \<or> subclock (frame q (grant_slot g (g_count g - 1))) \<noteq> g_last_subclock g
            then (MIX_INVALID, mix)
            else set_result MIX_OK (map_source s (accept_span g) mix))"

section \<open>The output window\<close>

definition valid_window :: "u32 \<Rightarrow> u32 \<Rightarrow> u32 \<Rightarrow> u32 \<Rightarrow> nat \<Rightarrow> bool" where
  "valid_window phase step den rate frames \<longleftrightarrow> \<not> (frames = 0 \<or> frames > MAX_WINDOW_FRAMES \<or> step = 0 \<or> den = 0 \<or> den > 1000000
     \<or> phase \<ge> den \<or> rate = 0 \<or> rate > 1000000 \<or> (ucast step :: u64) > of_nat MIX_CLOCK_HZ * ucast den)"

definition span_ticks :: "u32 \<Rightarrow> u32 \<Rightarrow> u32 \<Rightarrow> nat \<Rightarrow> u64" where
  "span_ticks phase step den frames =
    (let n = of_nat frames * ucast step + ucast phase :: u64
     in n div ucast den + of_bool (n mod ucast den \<noteq> 0))"

definition segacd_audio_mix_set_window ::
  "u64 \<Rightarrow> u32 \<Rightarrow> u32 \<Rightarrow> u32 \<Rightarrow> u32 \<Rightarrow> nat \<Rightarrow> SegaCDAudioMix \<Rightarrow> mix_result \<times> SegaCDAudioMix" where
  "segacd_audio_mix_set_window clk phase step den rate frames mix =
    (if \<not> valid_window phase step den rate frames then set_result MIX_INVALID (add_fault FAULT_WINDOW mix)
     else if clk > - 1 - span_ticks phase step den frames then set_result MIX_INVALID (add_fault FAULT_WINDOW mix)
     else if paused mix then set_result MIX_PAUSED mix
     else if w_pending (window mix) then set_result MIX_WINDOW_MISMATCH (add_fault FAULT_WINDOW mix)
     else if next_output_valid mix \<and> (clk \<noteq> next_output_subclock mix \<or> phase \<noteq> next_output_phase mix
       \<or> den \<noteq> next_output_denominator mix \<or> step \<noteq> next_output_step_numerator mix \<or> rate \<noteq> next_output_rate_hz mix)
     then set_result MIX_WINDOW_MISMATCH (add_fault FAULT_WINDOW mix)
     else set_result MIX_OK (mix\<lparr>window := \<lparr>first_subclock = clk, first_phase = phase, step_numerator = step,
            step_denominator = den, rate_hz = rate, w_frames = frames, w_pending = True\<rparr>\<rparr>))"

text \<open>\<^verbatim>\<open>compare_stamp\<close>: the order of a stamp and a position with a fraction, as a sign.\<close>

definition compare_stamp :: "u64 \<Rightarrow> u64 \<Rightarrow> u32 \<Rightarrow> int" where
  "compare_stamp t clk phase = (if t < clk then -1 else if t > clk then 1 else if phase \<noteq> 0 then -1 else 0)"

definition run_covers :: "SegaCDAudioQueue \<Rightarrow> u64 \<Rightarrow> u32 \<Rightarrow> u64 \<Rightarrow> u32 \<Rightarrow> bool" where
  "run_covers q clk phase clk' phase' \<longleftrightarrow> run_count q \<noteq> 0 \<and> compare_stamp (c_first (q_run q)) clk phase \<le> 0
     \<and> compare_stamp (constant_stamp (q_run q) (run_count q - 1)) clk' phase' \<ge> 0"

function seek_cursor :: "SegaCDAudioQueue \<Rightarrow> u64 \<Rightarrow> u32 \<Rightarrow> nat \<Rightarrow> nat" where
  "seek_cursor q clk phase cursor =
    (if cursor + 1 < q_count q \<and> compare_stamp (subclock (frame_at q (cursor + 1))) clk phase \<le> 0
     then seek_cursor q clk phase (cursor + 1) else cursor)"
  by pat_completeness auto
termination by (relation "measure (\<lambda>(q, clk, phase, cursor). q_count q - cursor)") auto

declare seek_cursor.simps [simp del]

definition rounded_step :: "int \<Rightarrow> int \<Rightarrow> int" where
  "rounded_step num span = (if num \<ge> 0 then (num + span div 2) div span else - ((- num + span div 2) div span))"

definition interpolate :: "i16 \<Rightarrow> i16 \<Rightarrow> u64 \<Rightarrow> u64 \<Rightarrow> i16" where
  "interpolate a b elapsed span = word_of_int (sint a + rounded_step ((sint b - sint a) * uint elapsed) (uint span))"

text \<open>
  One source at one position: nothing is available, or the two samples with the cursor left behind. An
  inactive source leaves the samples at zero.
\<close>

definition interpolated_sample ::
  "SegaCDAudioQueue \<Rightarrow> u64 \<Rightarrow> u32 \<Rightarrow> u32 \<Rightarrow> nat \<Rightarrow> (nat \<times> i16 \<times> i16) option" where
  "interpolated_sample q clk phase den cursor =
    (if \<not> q_active q then Some (cursor, 0, 0)
     else if q_count q = 0 then None
     else if run_covers q clk phase clk phase then Some (cursor, c_left (q_run q), c_right (q_run q))
     else
       let cursor = seek_cursor q clk phase cursor; a = frame_at q cursor; cmp = compare_stamp (subclock a) clk phase
       in if cmp = 0 then Some (cursor, f_left a, f_right a)
          else if cmp > 0 \<or> cursor + 1 \<ge> q_count q then None
          else
            let b = frame_at q (cursor + 1); elapsed = (clk - subclock a) * ucast den + ucast phase;
                span = (subclock b - subclock a) * ucast den
            in if span = 0 \<or> elapsed > span then None
               else Some (cursor, interpolate (f_left a) (f_left b) elapsed span, interpolate (f_right a) (f_right b) elapsed span))"

definition position_after :: "u64 \<Rightarrow> u32 \<Rightarrow> u32 \<Rightarrow> u32 \<Rightarrow> nat \<Rightarrow> u64 \<times> u32" where
  "position_after clk phase step den i =
    (let n = ucast phase + of_nat i * ucast step :: u64 in (clk + n div ucast den, ucast (n mod ucast den)))"

definition advance_position :: "u32 \<Rightarrow> u32 \<Rightarrow> u64 \<times> u32 \<Rightarrow> u64 \<times> u32" where
  "advance_position step den cp =
    (let n = ucast (snd cp) + ucast step :: u64 in (fst cp + n div ucast den, ucast (n mod ucast den)))"

definition source_constant_window :: "SegaCDAudioQueue \<Rightarrow> SegaCDAudioWindow \<Rightarrow> (i16 \<times> i16) option" where
  "source_constant_window q w =
    (if \<not> q_active q then Some (0, 0)
     else
       let (fin, fin_phase) = position_after (first_subclock w) (first_phase w) (step_numerator w) (step_denominator w) (w_frames w - 1)
       in if run_covers q (first_subclock w) (first_phase w) fin fin_phase
          then Some (c_left (q_run q), c_right (q_run q)) else None)"

primrec available_from :: "SegaCDAudioQueue \<Rightarrow> u32 \<Rightarrow> u32 \<Rightarrow> nat \<Rightarrow> u64 \<times> u32 \<Rightarrow> nat \<Rightarrow> bool" where
  "available_from q step den 0 cp cursor = True"
| "available_from q step den (Suc n) cp cursor =
    (case interpolated_sample q (fst cp) (snd cp) den cursor of
       None \<Rightarrow> False
     | Some (cursor, l, r) \<Rightarrow> available_from q step den n (advance_position step den cp) cursor)"

definition source_window_available :: "SegaCDAudioQueue \<Rightarrow> SegaCDAudioWindow \<Rightarrow> bool" where
  "source_window_available q w \<longleftrightarrow> source_constant_window q w \<noteq> None
     \<or> available_from q (step_numerator w) (step_denominator w) (w_frames w) (first_subclock w, first_phase w) 0"

definition segacd_audio_mix_check_window :: "SegaCDAudioMix \<Rightarrow> nat \<Rightarrow> u32 \<Rightarrow> mix_result" where
  "segacd_audio_mix_check_window mix frames rate =
    (let w = window mix
     in if \<not> w_pending w then MIX_INVALID
        else if paused mix then MIX_PAUSED
        else if frames \<noteq> w_frames w \<or> rate \<noteq> rate_hz w then MIX_WINDOW_MISMATCH
        else if \<not> source_window_available (m_source mix SOURCE_PCM) w \<or> \<not> source_window_available (m_source mix SOURCE_CDDA) w
        then MIX_NEED_INPUT else MIX_OK)"

definition saturate_s16 :: "int \<Rightarrow> i16" where
  "saturate_s16 x = word_of_int (if x > 32767 then 32767 else if x < -32768 then -32768 else x)"

definition mix_frame :: "i16 \<times> i16 \<Rightarrow> i16 \<times> i16 \<Rightarrow> i16 \<times> i16 \<Rightarrow> i16 \<times> i16" where
  "mix_frame a b out = (saturate_s16 (sint (fst out) + sint (fst a) + sint (fst b)), saturate_s16 (sint (snd out) + sint (snd a) + sint (snd b)))"

text \<open>\<^verbatim>\<open>consume_before_window_end\<close>: retire the frames before the last one at or before the end of the window.\<close>

definition retire_run :: "SegaCDAudioQueue \<Rightarrow> u64 \<Rightarrow> nat" where
  "retire_run q fin =
    (let r = q_run q; delta = fin - c_first r;
         n = unat (((delta + 1) * ucast (c_den r) - 1 - ucast (c_phase r)) div ucast (c_step r))
     in min (min n (run_count q - 1)) (q_count q - 1))"

definition retire_frames :: "nat \<Rightarrow> SegaCDAudioQueue \<Rightarrow> SegaCDAudioQueue" where
  "retire_frames n q = q\<lparr>q_run := advance_constant n (q_run q), run_first := (run_first q + n) mod QUEUE_CAPACITY,
     run_count := run_count q - n, q_head := (q_head q + n) mod QUEUE_CAPACITY, q_count := q_count q - n\<rparr>"

definition retire_one :: "SegaCDAudioQueue \<Rightarrow> SegaCDAudioQueue" where
  "retire_one q = q\<lparr>q_head := (q_head q + 1) mod QUEUE_CAPACITY, q_count := q_count q - 1\<rparr>"

definition consume_step :: "u64 \<Rightarrow> SegaCDAudioQueue \<Rightarrow> SegaCDAudioQueue" where
  "consume_step fin q =
    (if run_count q \<noteq> 0 \<and> q_head q = run_first q
     then let n = retire_run q fin
          in if n \<noteq> 0 then retire_frames n q else retire_one (q\<lparr>run_count := 0\<rparr>)
     else retire_one q)"

lemma consume_step_less: "q_count q > 1 \<Longrightarrow> q_count (consume_step fin q) < q_count q"
  by (auto simp: consume_step_def Let_def retire_frames_def retire_one_def retire_run_def)

function consume_before_window_end :: "u64 \<Rightarrow> u32 \<Rightarrow> SegaCDAudioQueue \<Rightarrow> SegaCDAudioQueue" where
  "consume_before_window_end fin phase q =
    (if q_count q > 1 \<and> compare_stamp (subclock (frame_at q 1)) fin phase \<le> 0
     then consume_before_window_end fin phase (consume_step fin q) else q)"
  by pat_completeness auto
termination
  by (relation "measure (\<lambda>(fin, phase, q). q_count q)") (auto simp: consume_step_less)

declare consume_before_window_end.simps [simp del]

text \<open>
  The general loop of \<^verbatim>\<open>segacd_audio_mix_render_window\<close>: position, cursors and the frames still to mix. It
  says whether it reached the end; when a source has nothing the frames from there on stay as they are.
\<close>

definition source_sample ::
  "(i16 \<times> i16) option \<Rightarrow> SegaCDAudioQueue \<Rightarrow> u32 \<Rightarrow> u64 \<times> u32 \<Rightarrow> nat \<Rightarrow> (nat \<times> i16 \<times> i16) option" where
  "source_sample const q den cp cursor =
    (case const of Some lr \<Rightarrow> Some (cursor, lr) | None \<Rightarrow> interpolated_sample q (fst cp) (snd cp) den cursor)"

primrec render_loop ::
  "(audio_source \<Rightarrow> (i16 \<times> i16) option) \<Rightarrow> SegaCDAudioMix \<Rightarrow> (i16 \<times> i16) list \<Rightarrow> u64 \<times> u32 \<Rightarrow> nat \<Rightarrow> nat \<Rightarrow> bool \<times> (i16 \<times> i16) list" where
  "render_loop const mix [] cp ca cb = (True, [])"
| "render_loop const mix (out # outs) cp ca cb =
    (let w = window mix
     in case source_sample (const SOURCE_PCM) (m_source mix SOURCE_PCM) (step_denominator w) cp ca of
          None \<Rightarrow> (False, out # outs)
        | Some (ca, a) \<Rightarrow>
            (case source_sample (const SOURCE_CDDA) (m_source mix SOURCE_CDDA) (step_denominator w) cp cb of
               None \<Rightarrow> (False, out # outs)
             | Some (cb, b) \<Rightarrow>
                 apsnd ((#) (mix_frame a b out))
                   (render_loop const mix outs (advance_position (step_numerator w) (step_denominator w) cp) ca cb)))"

definition position_loop :: "SegaCDAudioWindow \<Rightarrow> nat \<Rightarrow> u64 \<times> u32" where
  "position_loop w n = (advance_position (step_numerator w) (step_denominator w) ^^ n) (first_subclock w, first_phase w)"

definition finish_window :: "u64 \<times> u32 \<Rightarrow> u64 \<times> u32 \<Rightarrow> SegaCDAudioMix \<Rightarrow> mix_result \<times> SegaCDAudioMix" where
  "finish_window next fin mix =
    (let w = window mix;
         mix = mix\<lparr>next_output_subclock := fst next, next_output_phase := snd next, next_output_denominator := step_denominator w,
                   next_output_step_numerator := step_numerator w, next_output_rate_hz := rate_hz w, next_output_valid := True,
                   m_source := \<lambda>s. consume_before_window_end (fst fin) (snd fin) (m_source mix s),
                   rendered_frames := rendered_frames mix + of_nat (w_frames w), window := w\<lparr>w_pending := False\<rparr>\<rparr>
     in set_result MIX_OK mix)"

definition constant_mix :: "i16 \<times> i16 \<Rightarrow> i16 \<times> i16 \<Rightarrow> (i16 \<times> i16) list \<Rightarrow> (i16 \<times> i16) list" where
  "constant_mix a b outs =
    (let l = sint (fst a) + sint (fst b); r = sint (snd a) + sint (snd b)
     in if l \<noteq> 0 \<or> r \<noteq> 0 then map (\<lambda>out. (saturate_s16 (sint (fst out) + l), saturate_s16 (sint (snd out) + r))) outs else outs)"

definition segacd_audio_mix_render_window ::
  "(i16 \<times> i16) list \<Rightarrow> u32 \<Rightarrow> SegaCDAudioMix \<Rightarrow> mix_result \<times> (i16 \<times> i16) list \<times> SegaCDAudioMix" where
  "segacd_audio_mix_render_window stereo rate mix =
    (let frames = length stereo; w = window mix; fail = (\<lambda>r out m. case set_result r m of (r, m) \<Rightarrow> (r, out, m));
         underflow = (\<lambda>m. add_fault FAULT_UNDERFLOW (m\<lparr>underflow_blocks := underflow_blocks m + 1\<rparr>))
     in if \<not> w_pending w then fail MIX_INVALID stereo (add_fault FAULT_WINDOW mix)
        else if paused mix then fail MIX_PAUSED stereo mix
        else case segacd_audio_mix_check_window mix frames rate of
               MIX_WINDOW_MISMATCH \<Rightarrow> fail MIX_WINDOW_MISMATCH stereo (add_fault FAULT_WINDOW mix)
             | MIX_NEED_INPUT \<Rightarrow> fail MIX_NEED_INPUT stereo (underflow mix)
             | MIX_OK \<Rightarrow>
                 (let const = (\<lambda>s. source_constant_window (m_source mix s) w)
                  in case (const SOURCE_PCM, const SOURCE_CDDA) of
                       (Some a, Some b) \<Rightarrow>
                         (case finish_window (position_after (first_subclock w) (first_phase w) (step_numerator w) (step_denominator w) frames)
                             (position_after (first_subclock w) (first_phase w) (step_numerator w) (step_denominator w) (frames - 1)) mix of
                            (r, m) \<Rightarrow> (r, constant_mix a b stereo, m))
                     | _ \<Rightarrow>
                         (case render_loop const mix stereo (first_subclock w, first_phase w) 0 0 of
                            (False, out) \<Rightarrow> fail MIX_NEED_INPUT out (underflow mix)
                          | (True, out) \<Rightarrow>
                              (case finish_window (position_loop w frames) (position_loop w (frames - 1)) mix of (r, m) \<Rightarrow> (r, out, m))))
             | result \<Rightarrow> fail result stereo (add_fault FAULT_WINDOW mix))"

end
