(* ===== verification/Cd_Mix_Props.thy ===== *)
theory Cd_Mix_Props
  imports Cd_Mix
begin

text \<open>
  The queue of the mixer as a list. A compressed run is a way to store frames that nobody can observe:
  pushes, spans, runs and the retirement at the end of a window act on the list of frames, and reading a
  window gives what the uncompressed queue gives. The interface of reservations is a locale, which the
  mixer's queue instantiates and the sound chips rely on.
\<close>

section \<open>Ring positions\<close>

lemma mod_capacity: "x < 2 * QUEUE_CAPACITY \<Longrightarrow> x mod QUEUE_CAPACITY = (if x < QUEUE_CAPACITY then x else x - QUEUE_CAPACITY)"
  by (simp add: QUEUE_CAPACITY_def mod_if)

text \<open>Where the run starts, counted from the head.\<close>

definition run_start :: "SegaCDAudioQueue \<Rightarrow> nat" where
  "run_start q = (run_first q + QUEUE_CAPACITY - q_head q) mod QUEUE_CAPACITY"

definition run_ok :: "SegaCDAudioConstant \<Rightarrow> bool" where
  "run_ok r \<longleftrightarrow> c_phase r < c_den r \<and> c_den r \<le> c_step r"

definition queue_ok :: "SegaCDAudioQueue \<Rightarrow> bool" where
  "queue_ok q \<longleftrightarrow> q_head q < QUEUE_CAPACITY \<and> q_count q \<le> QUEUE_CAPACITY \<and> run_first q < QUEUE_CAPACITY
     \<and> (run_count q = 0 \<or> run_ok (q_run q) \<and> run_start q + run_count q \<le> q_count q)"

definition logical_frames :: "SegaCDAudioQueue \<Rightarrow> SegaCDAudioFrame list" where
  "logical_frames q = map (frame_at q) [0..<q_count q]"

lemma length_logical [simp]: "length (logical_frames q) = q_count q"
  by (simp add: logical_frames_def)

lemma run_offset_start:
  assumes "q_head q < QUEUE_CAPACITY" "run_first q < QUEUE_CAPACITY" "i < QUEUE_CAPACITY"
  shows "run_offset q ((q_head q + i) mod QUEUE_CAPACITY) = (if run_start q \<le> i then i - run_start q else i + QUEUE_CAPACITY - run_start q)"
proof -
  have s: "(q_head q + i) mod QUEUE_CAPACITY = (if q_head q + i < QUEUE_CAPACITY then q_head q + i else q_head q + i - QUEUE_CAPACITY)"
    using assms by (intro mod_capacity) simp
  have k: "run_start q = (if q_head q \<le> run_first q then run_first q - q_head q else run_first q + QUEUE_CAPACITY - q_head q)"
    unfolding run_start_def using assms by (subst mod_capacity) auto
  show ?thesis
    unfolding run_offset_def s k using assms by (subst mod_capacity) (auto split: if_splits)
qed

lemma frame_at_cases:
  assumes "queue_ok q" "i < QUEUE_CAPACITY"
  shows "frame_at q i = (if run_start q \<le> i \<and> i < run_start q + run_count q then run_frame (q_run q) (i - run_start q)
    else frame q ((q_head q + i) mod QUEUE_CAPACITY))"
proof -
  have "run_offset q ((q_head q + i) mod QUEUE_CAPACITY) = (if run_start q \<le> i then i - run_start q else i + QUEUE_CAPACITY - run_start q)"
    using assms by (intro run_offset_start) (auto simp: queue_ok_def)
  then show ?thesis using assms unfolding frame_at_def Let_def by (auto simp: queue_ok_def)
qed

section \<open>Pushing\<close>

lemma run_start_same [simp]: "run_start (store_frame f q) = run_start q"
  by (simp add: run_start_def store_frame_def)

lemma queue_ok_store: "queue_ok q \<Longrightarrow> q_count q < QUEUE_CAPACITY \<Longrightarrow> queue_ok (store_frame f q)"
  by (auto simp: queue_ok_def) (auto simp: store_frame_def)

lemma queue_slots_distinct:
  assumes "h < QUEUE_CAPACITY" "i < j" "j < QUEUE_CAPACITY"
  shows "(h + i) mod QUEUE_CAPACITY \<noteq> (h + j) mod QUEUE_CAPACITY"
proof -
  have "(h + i) mod QUEUE_CAPACITY = (if h + i < QUEUE_CAPACITY then h + i else h + i - QUEUE_CAPACITY)"
    "(h + j) mod QUEUE_CAPACITY = (if h + j < QUEUE_CAPACITY then h + j else h + j - QUEUE_CAPACITY)"
    using assms by (simp_all add: mod_capacity)
  then show ?thesis using assms by (auto split: if_splits)
qed

lemma frame_at_store:
  assumes "queue_ok q" "q_count q < QUEUE_CAPACITY" "i \<le> q_count q"
  shows "frame_at (store_frame f q) i = (if i = q_count q then f else frame_at q i)"
proof -
  have h: "q_head q < QUEUE_CAPACITY" and r: "run_start q + run_count q \<le> q_count q \<or> run_count q = 0"
    using assms(1) by (auto simp: queue_ok_def)
  have st: "q_head (store_frame f q) = q_head q" "run_count (store_frame f q) = run_count q" "q_run (store_frame f q) = q_run q"
    "frame (store_frame f q) = (frame q)((q_head q + q_count q) mod QUEUE_CAPACITY := f)"
    by (simp_all add: store_frame_def)
  show ?thesis
    using frame_at_cases [OF queue_ok_store [OF assms(1,2), of f], of i] frame_at_cases [OF assms(1), of i]
      queue_slots_distinct [OF h, of i "q_count q"] assms(2,3) r
    by (auto simp: st)
qed

lemma logical_frames_store:
  assumes "queue_ok q" "q_count q < QUEUE_CAPACITY"
  shows "logical_frames (store_frame f q) = logical_frames q @ [f]"
proof -
  have "q_count (store_frame f q) = Suc (q_count q)" by (simp add: store_frame_def)
  then show ?thesis using frame_at_store [OF assms, of _ f] by (simp add: logical_frames_def cong: map_cong)
qed

section \<open>Spans\<close>

text \<open>What an observer of a queue sees: its frames and its bookkeeping, but neither slots nor runs.\<close>

definition queue_view where
  "queue_view q = (logical_frames q, last_subclock q, accepted_frames q, rejected_frames q, discarded_frames q, q_head q,
     q_active q, have_last_subclock q)"

definition mix_view where
  "mix_view mix = (\<lambda>s. queue_view (m_source mix s), mix\<lparr>m_source := undefined\<rparr>)"

definition mix_ok :: "SegaCDAudioMix \<Rightarrow> bool" where
  "mix_ok mix \<longleftrightarrow> (\<forall>s. queue_ok (m_source mix s))"

text \<open>Frames with strictly increasing stamps, each within a second of the one before.\<close>

definition in_time :: "SegaCDAudioQueue \<Rightarrow> SegaCDAudioFrame list \<Rightarrow> bool" where
  "in_time q fs \<longleftrightarrow> (case fs of [] \<Rightarrow> True | f # _ \<Rightarrow> \<not> bad_timestamp q (subclock f))
     \<and> successively (\<lambda>f g. subclock f < subclock g \<and> unat (subclock g - subclock f) \<le> MIX_CLOCK_HZ) fs"

definition store_all :: "SegaCDAudioFrame list \<Rightarrow> SegaCDAudioQueue \<Rightarrow> SegaCDAudioQueue" where
  "store_all fs q = fold store_frame fs q"

lemma in_time_Cons: "in_time q (f # fs) \<Longrightarrow> \<not> bad_timestamp q (subclock f) \<and> in_time (store_frame f q) fs"
  by (cases fs) (auto simp: in_time_def bad_timestamp_def store_frame_def)

definition legacy_sample :: "audio_source \<Rightarrow> SegaCDAudioFrame \<Rightarrow> SegaCDAudioMix \<Rightarrow> SegaCDAudioMix" where
  "legacy_sample s f mix = snd (segacd_audio_mix_push s f mix)"

lemma push_in_time:
  assumes "\<not> paused mix" "q_active (m_source mix s)" "q_count (m_source mix s) + length fs \<le> QUEUE_CAPACITY"
    "in_time (m_source mix s) fs" "fs \<noteq> []"
  shows "fold (legacy_sample s) fs mix = (map_source s (store_all fs) mix)\<lparr>last_result := MIX_OK\<rparr>"
  using assms
proof (induction fs arbitrary: mix)
  case (Cons f fs)
  have "legacy_sample s f mix = (map_source s (store_frame f) mix)\<lparr>last_result := MIX_OK\<rparr>"
    using Cons.prems in_time_Cons [OF Cons.prems(4)] by (simp add: legacy_sample_def segacd_audio_mix_push_def Let_def set_result_def)
  moreover have "fold (legacy_sample s) fs ((map_source s (store_frame f) mix)\<lparr>last_result := MIX_OK\<rparr>) =
      (map_source s (store_all (f # fs)) mix)\<lparr>last_result := MIX_OK\<rparr>"
  proof (cases "fs = []")
    case False
    then show ?thesis
      using Cons.IH [of "(map_source s (store_frame f) mix)\<lparr>last_result := MIX_OK\<rparr>"] Cons.prems in_time_Cons [OF Cons.prems(4)]
      by (simp add: map_source_def store_all_def store_frame_def)
  qed (simp add: store_all_def map_source_def)
  ultimately show ?case by simp
qed simp

lemma store_all_fields:
  "q_count (store_all fs q) = q_count q + length fs" "q_head (store_all fs q) = q_head q" "run_count (store_all fs q) = run_count q"
  "q_run (store_all fs q) = q_run q" "run_first (store_all fs q) = run_first q" "q_active (store_all fs q) = q_active q"
  "rejected_frames (store_all fs q) = rejected_frames q" "discarded_frames (store_all fs q) = discarded_frames q"
  "accepted_frames (store_all fs q) = accepted_frames q + of_nat (length fs)"
  unfolding store_all_def by (induction fs arbitrary: q) (auto simp: store_frame_def)

lemma store_all_last: "fs \<noteq> [] \<Longrightarrow> have_last_subclock (store_all fs q) \<and> last_subclock (store_all fs q) = subclock (last fs)"
  unfolding store_all_def by (induction fs arbitrary: q) (auto simp: store_frame_def)

lemma store_all_logical:
  "queue_ok q \<Longrightarrow> q_count q + length fs \<le> QUEUE_CAPACITY \<Longrightarrow> queue_ok (store_all fs q) \<and> logical_frames (store_all fs q) = logical_frames q @ fs"
proof (induction fs arbitrary: q)
  case (Cons f fs)
  have "queue_ok (store_frame f q)" "logical_frames (store_frame f q) = logical_frames q @ [f]" "q_count (store_frame f q) = q_count q + 1"
    using Cons.prems by (auto simp: queue_ok_store logical_frames_store) (simp add: store_frame_def)
  then show ?case using Cons.IH [of "store_frame f q"] Cons.prems by (simp add: store_all_def)
qed (simp add: store_all_def)

text \<open>A granted span starts in time and has room, so its frames could have been pushed one by one.\<close>

lemma begin_span_granted:
  assumes "segacd_audio_mix_begin_span mix s first fin n = Some g"
  shows "\<not> paused mix" "q_active (m_source mix s)" "0 < n" "q_count (m_source mix s) + n \<le> QUEUE_CAPACITY"
    "first \<le> fin" "unat (fin - first) \<le> MIX_CLOCK_HZ" "\<not> bad_timestamp (m_source mix s) first"
    "g = \<lparr>g_count = n, g_first = (q_head (m_source mix s) + q_count (m_source mix s)) mod QUEUE_CAPACITY, old_head = q_head (m_source mix s),
       old_count = q_count (m_source mix s), g_source = s, g_first_subclock = first, g_last_subclock = fin, g_constant = None\<rparr>"
  using assms by (auto simp: segacd_audio_mix_begin_span_def Let_def split: if_splits)

lemma increasing_in_time:
  assumes fs: "fs \<noteq> []" "sorted_wrt (\<lambda>f g. subclock f < subclock g) fs"
    and ends: "subclock (hd fs) = first" "subclock (last fs) = fin" "unat (fin - first) \<le> MIX_CLOCK_HZ" "\<not> bad_timestamp q first"
  shows "in_time q fs"
proof -
  have inc: "i < j \<Longrightarrow> j < length fs \<Longrightarrow> subclock (fs ! i) < subclock (fs ! j)" for i j
    using fs(2) by (simp add: sorted_wrt_iff_nth_less)
  have "successively (\<lambda>f g. subclock f < subclock g \<and> unat (subclock g - subclock f) \<le> MIX_CLOCK_HZ) fs"
  proof (unfold successively_conv_nth, intro allI impI)
    fix i assume i: "Suc i < length fs"
    have lt: "subclock (fs ! i) < subclock (fs ! Suc i)" using i by (simp add: inc)
    have "first \<le> subclock (fs ! i)"
      using fs(1) i ends(1) inc [of 0 i] by (cases "i = 0") (auto simp: hd_conv_nth)
    moreover have "subclock (fs ! Suc i) \<le> fin"
    proof (cases "Suc i = length fs - 1")
      case True
      then show ?thesis using ends(2) fs(1) by (simp add: last_conv_nth)
    next
      case False
      then have "subclock (fs ! Suc i) < subclock (fs ! (length fs - 1))" using i by (intro inc) auto
      then show ?thesis using ends(2) fs(1) by (simp add: last_conv_nth)
    qed
    ultimately show "subclock (fs ! i) < subclock (fs ! Suc i) \<and> unat (subclock (fs ! Suc i) - subclock (fs ! i)) \<le> MIX_CLOCK_HZ"
      using lt ends(3) by (simp add: unat_sub word_le_nat_alt word_less_nat_alt)
  qed
  then show ?thesis using ends(1,4) fs(1) by (cases fs) (auto simp: in_time_def)
qed

definition write_all :: "SegaCDAudioWriteGrant \<Rightarrow> SegaCDAudioFrame list \<Rightarrow> SegaCDAudioMix \<Rightarrow> SegaCDAudioMix" where
  "write_all g fs = fold (\<lambda>i. grant_write g i (fs ! i)) [0..<length fs]"

lemma store_all_frame:
  "frame (store_all fs q) = fold (\<lambda>i fr. fr((q_head q + q_count q + i) mod QUEUE_CAPACITY := fs ! i)) [0..<length fs] (frame q)"
proof (induction fs rule: rev_induct)
  case (snoc f fs)
  have "store_all (fs @ [f]) q = store_frame f (store_all fs q)" by (simp add: store_all_def)
  moreover have "fold (\<lambda>i fr. fr((q_head q + q_count q + i) mod QUEUE_CAPACITY := (fs @ [f]) ! i)) [0..<length fs] (frame q) =
      fold (\<lambda>i fr. fr((q_head q + q_count q + i) mod QUEUE_CAPACITY := fs ! i)) [0..<length fs] (frame q)"
    by (intro fold_cong) (auto simp: nth_append)
  moreover have "frame (store_frame f (store_all fs q)) = (frame (store_all fs q))((q_head q + q_count q + length fs) mod QUEUE_CAPACITY := f)"
    by (simp add: store_frame_def store_all_fields add.assoc)
  ultimately show ?case using snoc by (simp only: upt_Suc_append [OF le0] length_append_singleton fold_append fold_simps o_apply nth_append_length)
qed (simp add: store_all_def)

lemma write_all_source:
  "write_all g fs mix = map_source (g_source g) (\<lambda>q. q\<lparr>frame := fold (\<lambda>i fr. fr(grant_slot g i := fs ! i)) [0..<length fs] (frame q)\<rparr>) mix"
proof -
  have "fold (\<lambda>i. grant_write g i (fs ! i)) is mix =
      map_source (g_source g) (\<lambda>q. q\<lparr>frame := fold (\<lambda>i fr. fr(grant_slot g i := fs ! i)) is (frame q)\<rparr>) mix" for "is" :: "nat list"
    by (induction "is" arbitrary: mix) (auto simp: grant_write_def map_source_def)
  then show ?thesis by (simp add: write_all_def)
qed

lemma store_all_slot:
  assumes "queue_ok q" "q_count q + length fs \<le> QUEUE_CAPACITY" "i < length fs"
  shows "frame (store_all fs q) ((q_head q + q_count q + i) mod QUEUE_CAPACITY) = fs ! i"
proof -
  have ok: "queue_ok (store_all fs q)" and l: "logical_frames (store_all fs q) = logical_frames q @ fs"
    using store_all_logical [OF assms(1,2)] by simp_all
  have "frame_at (store_all fs q) (q_count q + i) = logical_frames (store_all fs q) ! (q_count q + i)"
    using assms(3) by (simp add: logical_frames_def store_all_fields)
  also have "\<dots> = fs ! i" by (simp add: l nth_append)
  finally have "frame_at (store_all fs q) (q_count q + i) = fs ! i" .
  moreover have "\<not> (q_count q + i < run_start (store_all fs q) + run_count (store_all fs q))" if "run_count q \<noteq> 0"
    using assms(1) that by (auto simp: queue_ok_def run_start_def store_all_fields)
  ultimately show ?thesis
    using frame_at_cases [OF ok, of "q_count q + i"] assms by (auto simp: store_all_fields add.assoc split: if_splits)
qed

lemma commit_span_stores:
  assumes ok: "queue_ok (m_source mix s)" and g: "segacd_audio_mix_begin_span mix s first fin n = Some g"
    and fs: "length fs = n" "subclock (hd fs) = first" "subclock (last fs) = fin"
  shows "segacd_audio_mix_commit_span g (write_all g fs mix) = (MIX_OK, (map_source s (store_all fs) mix)\<lparr>last_result := MIX_OK\<rparr>)"
proof -
  note b = begin_span_granted [OF g]
  let ?q = "m_source mix s"
  define q1 where "q1 = ?q\<lparr>frame := frame (store_all fs ?q)\<rparr>"
  have ne: "fs \<noteq> []" using b(3) fs(1) by auto
  have slot: "grant_slot g i = (q_head ?q + q_count ?q + i) mod QUEUE_CAPACITY" for i
    by (simp add: b(8) grant_slot_def mod_add_left_eq)
  have w: "write_all g fs mix = map_source s (\<lambda>_. q1) mix"
    unfolding write_all_source slot store_all_frame [symmetric] by (simp add: q1_def b(8) map_source_def store_all_frame)
  have at: "frame q1 (grant_slot g i) = fs ! i" if "i < n" for i
    using store_all_slot [OF ok, of fs i] b(4) fs(1) that by (simp add: q1_def slot)
  have acc: "accept_span g q1 = store_all fs ?q"
    using store_all_fields [of fs ?q] store_all_last [OF ne, of ?q] fs by (simp add: accept_span_def q1_def b(8))
  have m: "m_source (map_source s (\<lambda>_. q1) mix) s = q1" "paused (map_source s (\<lambda>_. q1) mix) = paused mix"
    by (simp_all add: map_source_def)
  have gr: "g_constant g = None" "g_source g = s" "old_head g = q_head q1" "old_count g = q_count q1" "g_count g = n"
    "g_first g = (q_head q1 + q_count q1) mod QUEUE_CAPACITY" "g_first_subclock g = first" "g_last_subclock g = fin"
    "q_active q1" "q_count q1 + n \<le> QUEUE_CAPACITY"
    using b(2,4) by (simp_all add: b(8) q1_def)
  have ends: "subclock (frame q1 (grant_slot g 0)) = first" "subclock (frame q1 (grant_slot g (n - 1))) = fin"
    using at [of 0] at [of "n - 1"] b(3) ne fs by (simp_all add: hd_conv_nth last_conv_nth)
  have "segacd_audio_mix_commit_span g (map_source s (\<lambda>_. q1) mix) = set_result MIX_OK (map_source s (accept_span g) (map_source s (\<lambda>_. q1) mix))"
    unfolding segacd_audio_mix_commit_span_def Let_def gr m option.case using b(1,3) gr(9,10) ends by auto
  then show ?thesis by (simp add: w set_result_def map_source_def acc)
qed

section \<open>Runs\<close>

definition ticks :: "SegaCDAudioConstant \<Rightarrow> nat \<Rightarrow> nat" where
  "ticks r n = unat (c_phase r) + n * unat (c_step r)"

lemma word32_bound: "unat (w :: u32) < 4294967296"
  using unsigned_less [where 'a = nat, of w] by simp

lemma ticks_bound: "n \<le> 8192 \<Longrightarrow> ticks r n < 2 ^ 64"
proof -
  assume "n \<le> 8192"
  then have "n * unat (c_step r) \<le> 8192 * 4294967296" using word32_bound [of "c_step r"] by (intro mult_mono) auto
  then show ?thesis using word32_bound [of "c_phase r"] by (simp add: ticks_def)
qed

lemma ucast_u64_nat: "(ucast (w :: u32) :: u64) = of_nat (unat w)"
  by simp

lemma unat_u64: "a < 2 ^ 64 \<Longrightarrow> unat (of_nat a :: u64) = a"
  by (simp add: unsigned_of_nat take_bit_nat_eq_self)

lemma run_ticks_nat: "run_ticks r n = of_nat (ticks r n)"
  by (simp add: run_ticks_def ticks_def)

lemma of_nat_div_u64: "a < 2 ^ 64 \<Longrightarrow> b < 2 ^ 64 \<Longrightarrow> (of_nat a :: u64) div of_nat b = of_nat (a div b)"
  by (simp add: word_arith_nat_div unat_u64)

lemma of_nat_mod_u64: "a < 2 ^ 64 \<Longrightarrow> b < 2 ^ 64 \<Longrightarrow> (of_nat a :: u64) mod of_nat b = of_nat (a mod b)"
  by (simp add: word_arith_nat_mod unat_u64)

lemma run_ticks_div: "n \<le> 8192 \<Longrightarrow> run_ticks r n div ucast (c_den r) = of_nat (ticks r n div unat (c_den r))"
  using of_nat_div_u64 [of "ticks r n" "unat (c_den r)"] ticks_bound [of n r] word32_bound [of "c_den r"] by (simp add: run_ticks_nat)

lemma run_ticks_mod: "n \<le> 8192 \<Longrightarrow> run_ticks r n mod ucast (c_den r) = of_nat (ticks r n mod unat (c_den r))"
  using of_nat_mod_u64 [of "ticks r n" "unat (c_den r)"] ticks_bound [of n r] word32_bound [of "c_den r"] by (simp add: run_ticks_nat)

lemma constant_stamp_nat: "n \<le> 8192 \<Longrightarrow> constant_stamp r n = c_first r + of_nat (ticks r n div unat (c_den r))"
  by (simp add: constant_stamp_def run_ticks_div)

lemma div_split: "d \<noteq> 0 \<Longrightarrow> (a + b) div d = a div d + (a mod d + b) div d" for a b d :: nat
  by (metis add.assoc div_mult_self4 mult.commute div_mult_mod_eq)

lemma advance_ticks:
  assumes "c_den r \<noteq> 0" "n \<le> 8192"
  shows "ticks (advance_constant n r) j = ticks r n mod unat (c_den r) + j * unat (c_step r)"
    "c_den (advance_constant n r) = c_den r" "c_step (advance_constant n r) = c_step r"
    "c_first (advance_constant n r) = constant_stamp r n" "c_left (advance_constant n r) = c_left r" "c_right (advance_constant n r) = c_right r"
proof -
  have "ticks r n mod unat (c_den r) < unat (c_den r)" using assms by (simp add: unat_gt_0)
  then have "ticks r n mod unat (c_den r) < 2 ^ 32" using word32_bound [of "c_den r"] by simp
  then have "unat (ucast (of_nat (ticks r n mod unat (c_den r)) :: u64) :: u32) = ticks r n mod unat (c_den r)"
    by (simp add: unsigned_ucast_eq unsigned_of_nat take_bit_nat_eq_self)
  then show "ticks (advance_constant n r) j = ticks r n mod unat (c_den r) + j * unat (c_step r)"
    unfolding ticks_def [of "advance_constant n r"] using run_ticks_mod [OF assms(2), of r] by (simp add: advance_constant_def)
qed (simp_all add: advance_constant_def constant_stamp_def)

lemma advance_stamp:
  assumes "c_den r \<noteq> 0" "n \<le> 4096" "j \<le> 4096"
  shows "constant_stamp (advance_constant n r) j = constant_stamp r (n + j)"
proof -
  have "ticks r (n + j) = ticks r n + j * unat (c_step r)" by (simp add: ticks_def algebra_simps)
  then have "ticks r (n + j) div unat (c_den r) = ticks r n div unat (c_den r) + ticks (advance_constant n r) j div unat (c_den r)"
    using advance_ticks(1) [of r n j] assms div_split [of "unat (c_den r)" "ticks r n" "j * unat (c_step r)"] by (simp add: unat_eq_0)
  then show ?thesis
    using assms by (simp add: constant_stamp_nat advance_ticks)
qed

lemma advance_frame:
  "c_den r \<noteq> 0 \<Longrightarrow> n \<le> 4096 \<Longrightarrow> j \<le> 4096 \<Longrightarrow> run_frame (advance_constant n r) j = run_frame r (n + j)"
  by (simp add: run_frame_def advance_stamp advance_ticks)

text \<open>What a granted run promises: its stamps do not wrap and increase, and it joins the run that is there.\<close>

lemma begin_constant_granted:
  assumes "segacd_audio_mix_begin_constant mix s r n = Some g"
  shows "run_ok r" "n \<le> 4096" "c_first r \<le> - 1 - (run_ticks r (n - 1) div ucast (c_den r))"
    "segacd_audio_mix_begin_span mix s (c_first r) (constant_stamp r (n - 1)) n = Some (g\<lparr>g_constant := None\<rparr>)"
    "g_constant g = Some r" "run_count (m_source mix s) = 0 \<or> run_continues (m_source mix s) r (g_first g)"
  using assms
  by (auto simp: segacd_audio_mix_begin_constant_def Let_def run_ok_def QUEUE_CAPACITY_def constant_stamp_def
      segacd_audio_mix_begin_span_def split: if_splits option.splits)

lemma run_ok_den: "run_ok r \<Longrightarrow> c_den r \<noteq> 0"
  by (auto simp: run_ok_def)

lemma ticks_increase:
  assumes "run_ok r" "i < j"
  shows "ticks r i div unat (c_den r) < ticks r j div unat (c_den r)"
proof -
  have d: "unat (c_den r) \<le> unat (c_step r)" "0 < unat (c_den r)"
    using assms(1) by (auto simp: run_ok_def word_le_nat_alt unat_gt_0)
  have "Suc i * unat (c_step r) \<le> j * unat (c_step r)" using assms(2) by (intro mult_right_mono) auto
  then have "ticks r i + unat (c_den r) \<le> ticks r j" using d by (simp add: ticks_def)
  then have "(ticks r i + unat (c_den r)) div unat (c_den r) \<le> ticks r j div unat (c_den r)" by (rule div_le_mono)
  then show ?thesis using div_add_self2 [of "unat (c_den r)" "ticks r i"] d(2) by linarith
qed

lemma run_stamps_increase:
  assumes "run_ok r" "n \<le> 4096" "c_first r \<le> - 1 - (run_ticks r (n - 1) div ucast (c_den r))" "i < j" "j < n"
  shows "constant_stamp r i < constant_stamp r j"
proof -
  let ?k = "\<lambda>i. ticks r i div unat (c_den r)"
  have b: "?k i < 2 ^ 64" if "i \<le> 8192" for i
    using div_le_dividend [of "ticks r i" "unat (c_den r)"] ticks_bound [OF that, of r] by (rule le_less_trans)
  have le: "?k j \<le> ?k (n - 1)"
    using less_imp_le [OF ticks_increase [OF assms(1), of j "n - 1"]] assms(5) by (cases "j = n - 1") simp_all
  have "unat (c_first r) + ?k (n - 1) < 2 ^ 64"
  proof -
    have s: "run_ticks r (n - 1) div ucast (c_den r) = of_nat (?k (n - 1))" using assms(2) by (simp add: run_ticks_div)
    have m: "unat (- 1 :: u64) = 18446744073709551615" by (simp add: unsigned_minus_1_eq_mask mask_eq_exp_minus_1)
    have k: "?k (n - 1) < 18446744073709551616" using b [of "n - 1"] assms(2) by simp
    then have "unat (- 1 - (of_nat (?k (n - 1)) :: u64)) = 18446744073709551615 - ?k (n - 1)"
      by (subst unat_sub) (simp_all add: unat_u64 word_le_nat_alt m)
    then show ?thesis using assms(3) k unfolding s word_le_nat_alt by simp
  qed
  then have w: "unat (constant_stamp r m) = unat (c_first r) + ?k m" if "m \<le> 8192" "?k m \<le> ?k (n - 1)" for m
    using that b [of m] by (simp add: constant_stamp_nat unat_word_ariths unat_u64)
  have "?k i < ?k j" using ticks_increase [OF assms(1,4)] .
  then show ?thesis using w [of i] w [of j] le assms(2,4,5) by (simp add: word_less_nat_alt)
qed

lemma run_frames_increase:
  assumes "segacd_audio_mix_begin_constant mix s r n = Some g"
  shows "sorted_wrt (\<lambda>f g. subclock f < subclock g) (map (run_frame r) [0..<n])"
  using run_stamps_increase [OF begin_constant_granted(1-3) [OF assms]]
  by (simp add: sorted_wrt_iff_nth_less run_frame_def)

text \<open>Accepting a run appends its frames to the queue.\<close>

lemma run_start_head:
  assumes "q_head q < QUEUE_CAPACITY" "i < QUEUE_CAPACITY" "run_first q = (q_head q + i) mod QUEUE_CAPACITY"
  shows "run_start q = i"
  unfolding run_start_def assms(3) using mod_capacity [of "q_head q + i"] assms(1,2) by (auto simp: mod_capacity)

lemma run_first_start:
  assumes "q_head q < QUEUE_CAPACITY" "run_first q < QUEUE_CAPACITY"
  shows "(q_head q + run_start q) mod QUEUE_CAPACITY = run_first q"
  unfolding run_start_def using mod_capacity [of "run_first q + QUEUE_CAPACITY - q_head q"] assms by (auto simp: mod_capacity)

lemma run_continues_end:
  assumes ok: "queue_ok q" "run_count q \<noteq> 0" "q_count q < QUEUE_CAPACITY"
    and c: "(run_first q + run_count q) mod QUEUE_CAPACITY = (q_head q + q_count q) mod QUEUE_CAPACITY"
  shows "run_start q + run_count q = q_count q"
proof (rule ccontr)
  assume "run_start q + run_count q \<noteq> q_count q"
  then have "run_start q + run_count q < q_count q" using ok by (auto simp: queue_ok_def)
  then have "(q_head q + (run_start q + run_count q)) mod QUEUE_CAPACITY \<noteq> (q_head q + q_count q) mod QUEUE_CAPACITY"
    using ok by (intro queue_slots_distinct) (auto simp: queue_ok_def)
  moreover have "(q_head q + (run_start q + run_count q)) mod QUEUE_CAPACITY = (run_first q + run_count q) mod QUEUE_CAPACITY"
    using run_first_start [of q] ok by (metis add.assoc mod_add_left_eq queue_ok_def)
  ultimately show False using c by simp
qed

lemma accept_run_fields:
  "q_count (accept_run r g q) = q_count q + g_count g" "q_head (accept_run r g q) = q_head q" "q_active (accept_run r g q) = q_active q"
  "run_count (accept_run r g q) = run_count q + g_count g" "frame (accept_run r g q) = frame q"
  "rejected_frames (accept_run r g q) = rejected_frames q" "discarded_frames (accept_run r g q) = discarded_frames q"
  "accepted_frames (accept_run r g q) = accepted_frames q + of_nat (g_count g)"
  "last_subclock (accept_run r g q) = g_last_subclock g" "have_last_subclock (accept_run r g q)"
  "run_first (accept_run r g q) = (if run_count q = 0 then g_first g else run_first q)"
  "q_run (accept_run r g q) = (if run_count q = 0 then r else q_run q)"
  by (simp_all add: accept_run_def accept_span_def Let_def)

lemma accept_run_frames:
  assumes ok: "queue_ok q" "run_ok r" and n: "g_count g = n" "0 < n" "q_count q + n \<le> QUEUE_CAPACITY"
    and slot: "g_first g = (q_head q + q_count q) mod QUEUE_CAPACITY" and c: "run_count q = 0 \<or> run_continues q r (g_first g)"
  shows "queue_ok (accept_run r g q)" "logical_frames (accept_run r g q) = logical_frames q @ map (run_frame r) [0..<n]"
proof -
  let ?q = "accept_run r g q"
  have h: "q_head q < QUEUE_CAPACITY" "run_first q < QUEUE_CAPACITY" using ok(1) by (auto simp: queue_ok_def)
  have st: "run_start ?q + run_count q = q_count q"
  proof (cases "run_count q = 0")
    case True
    have "run_start ?q = q_count q"
      using True h n slot by (intro run_start_head) (simp_all add: accept_run_fields)
    then show ?thesis using True by simp
  next
    case False
    then have "run_start ?q = run_start q" by (simp add: run_start_def accept_run_fields)
    then show ?thesis using False c n ok slot by (simp add: run_continues_end run_continues_def)
  qed
  have rok: "run_ok (q_run ?q)" using ok by (auto simp: accept_run_fields queue_ok_def)
  show ok': "queue_ok ?q"
    unfolding queue_ok_def using rok st h n slot by (simp add: accept_run_fields QUEUE_CAPACITY_def)
  have old: "frame_at ?q i = frame_at q i" if "i < q_count q" for i
    using frame_at_cases [OF ok', of i] frame_at_cases [OF ok(1), of i] st that n
    by (cases "run_count q = 0") (auto simp: accept_run_fields run_start_def)
  have new: "frame_at ?q (q_count q + j) = run_frame r j" if "j < n" for j
  proof -
    have "q_count q + j - run_start ?q = run_count q + j" using st by simp
    then have "frame_at ?q (q_count q + j) = run_frame (q_run ?q) (run_count q + j)"
      using frame_at_cases [OF ok', of "q_count q + j"] st that n by (simp add: accept_run_fields)
    also have "\<dots> = run_frame r j"
    proof (cases "run_count q = 0")
      case False
      then have r: "r = advance_constant (run_count q) (q_run q)" using c by (simp add: run_continues_def)
      have "c_den (q_run q) \<noteq> 0" using False ok(1) by (intro run_ok_den) (simp add: queue_ok_def)
      moreover have "run_count q \<le> 4096" "j \<le> 4096" using n that st by (simp_all add: QUEUE_CAPACITY_def)
      ultimately have "run_frame r j = run_frame (q_run q) (run_count q + j)" unfolding r by (rule advance_frame)
      then show ?thesis using False by (simp add: accept_run_fields)
    qed (simp add: accept_run_fields)
    finally show ?thesis .
  qed
  have "logical_frames ?q = map (frame_at ?q) ([0..<q_count q] @ map (\<lambda>j. q_count q + j) [0..<n])"
    unfolding logical_frames_def accept_run_fields n by (rule arg_cong) (rule nth_equalityI, auto simp: nth_append)
  also have "\<dots> = logical_frames q @ map (run_frame r) [0..<n]"
    using old new by (simp add: logical_frames_def)
  finally show "logical_frames ?q = logical_frames q @ map (run_frame r) [0..<n]" .
qed

section \<open>The interface of an owned sink\<close>

text \<open>
  A sound chip hands its frames to a sink one by one (\<open>legacy\<close>), or reserves room for a whole span, writes
  the frames in place and commits, or reserves a run of equal frames. The three ways must be
  indistinguishable to whoever looks at the sink.
\<close>

locale owned_sink =
  fixes legacy :: "SegaCDAudioFrame \<Rightarrow> 'm \<Rightarrow> 'm"
    and begin_span :: "'m \<Rightarrow> u64 \<Rightarrow> u64 \<Rightarrow> nat \<Rightarrow> SegaCDAudioWriteGrant option"
    and begin_run :: "'m \<Rightarrow> SegaCDAudioConstant \<Rightarrow> nat \<Rightarrow> SegaCDAudioWriteGrant option"
    and put :: "SegaCDAudioWriteGrant \<Rightarrow> nat \<Rightarrow> SegaCDAudioFrame \<Rightarrow> 'm \<Rightarrow> 'm"
    and commit :: "SegaCDAudioWriteGrant \<Rightarrow> 'm \<Rightarrow> 'm"
    and ok :: "'m \<Rightarrow> bool"
    and view :: "'m \<Rightarrow> 'v"
  assumes legacy_inv: "ok m \<Longrightarrow> ok (legacy f m)"
    and legacy_view: "ok m \<Longrightarrow> ok m' \<Longrightarrow> view m = view m' \<Longrightarrow> view (legacy f m) = view (legacy f m')"
    and span_order: "begin_span m first fin n = Some g \<Longrightarrow> first \<le> fin"
    and span_inv: "ok m \<Longrightarrow> begin_span m first fin (length fs) = Some g \<Longrightarrow> sorted_wrt (\<lambda>f g. subclock f < subclock g) fs \<Longrightarrow>
      subclock (hd fs) = first \<Longrightarrow> subclock (last fs) = fin \<Longrightarrow>
      ok (commit g (fold (\<lambda>i. put g i (fs ! i)) [0..<length fs] m))"
    and span_view: "ok m \<Longrightarrow> begin_span m first fin (length fs) = Some g \<Longrightarrow> sorted_wrt (\<lambda>f g. subclock f < subclock g) fs \<Longrightarrow>
      subclock (hd fs) = first \<Longrightarrow> subclock (last fs) = fin \<Longrightarrow>
      view (commit g (fold (\<lambda>i. put g i (fs ! i)) [0..<length fs] m)) = view (fold legacy fs m)"
    and run_inv: "ok m \<Longrightarrow> begin_run m r n = Some g \<Longrightarrow> ok (commit g m)"
    and run_view: "ok m \<Longrightarrow> begin_run m r n = Some g \<Longrightarrow> view (commit g m) = view (fold legacy (map (run_frame r) [0..<n]) m)"
begin

lemma legacy_all:
  "ok m \<Longrightarrow> ok m' \<Longrightarrow> view m = view m' \<Longrightarrow>
    ok (fold legacy fs m) \<and> ok (fold legacy fs m') \<and> view (fold legacy fs m) = view (fold legacy fs m')"
proof (induction fs arbitrary: m m')
  case (Cons f fs)
  show ?case
    unfolding fold_simps by (rule Cons.IH) (intro legacy_inv legacy_view Cons.prems)+
qed simp

end

section \<open>The mixer is an owned sink\<close>

definition commit_sink :: "SegaCDAudioWriteGrant \<Rightarrow> SegaCDAudioMix \<Rightarrow> SegaCDAudioMix" where
  "commit_sink g mix = snd (segacd_audio_mix_commit_span g mix)"

lemma map_source_ok: "mix_ok mix \<Longrightarrow> queue_ok (f (m_source mix s)) \<Longrightarrow> mix_ok (map_source s f mix)"
  by (auto simp: mix_ok_def map_source_def)

lemma map_source_view:
  "queue_view (f (m_source mix s)) = queue_view (g (m_source mix s)) \<Longrightarrow> mix_view (map_source s f mix) = mix_view (map_source s g mix)"
  by (auto simp: mix_view_def map_source_def)

lemma mix_ok_result [simp]: "mix_ok (mix\<lparr>last_result := r\<rparr>) = mix_ok mix"
  by (simp add: mix_ok_def)

lemma mix_view_result: "mix_view a = mix_view b \<Longrightarrow> mix_view (a\<lparr>last_result := r\<rparr>) = mix_view (b\<lparr>last_result := r\<rparr>)"
  by (cases a; cases b) (simp add: mix_view_def)

lemma commit_run_accepts:
  assumes "segacd_audio_mix_begin_constant mix s r n = Some g"
  shows "commit_sink g mix = (map_source s (accept_run r g) mix)\<lparr>last_result := MIX_OK\<rparr>"
proof -
  have "g_constant g = Some r" "g_source g = s" "g_count g = n"
    using begin_constant_granted(4,5) [OF assms] begin_span_granted(8) [OF begin_constant_granted(4) [OF assms]]
    by (cases g, simp)+
  then show ?thesis using assms by (simp add: commit_sink_def segacd_audio_mix_commit_span_def set_result_def)
qed

lemma queue_ok_rejected: "queue_ok (q\<lparr>rejected_frames := x\<rparr>) = queue_ok q"
  by (simp add: queue_ok_def run_start_def)

lemma legacy_keeps:
  assumes "mix_ok mix"
  shows "mix_ok (legacy_sample s f mix)"
proof -
  have ok: "queue_ok (m_source mix s)" for s using assms by (simp add: mix_ok_def)
  then have "q_count (m_source mix s) \<le> QUEUE_CAPACITY" by (simp add: queue_ok_def)
  then show ?thesis
    using ok queue_ok_store [OF ok, of s f]
    by (simp add: legacy_sample_def segacd_audio_mix_push_def Let_def set_result_def add_fault_def mix_ok_def map_source_def
      queue_ok_rejected)
qed

text \<open>A push sees only the view, and shows its effect in it.\<close>

lemma queue_view_push:
  assumes "queue_ok q" "queue_ok q'" "queue_view q = queue_view q'"
  shows "q_count q = q_count q'" "q_active q = q_active q'" "bad_timestamp q t = bad_timestamp q' t"
    "queue_view (q\<lparr>rejected_frames := rejected_frames q + 1\<rparr>) = queue_view (q'\<lparr>rejected_frames := rejected_frames q' + 1\<rparr>)"
    "q_count q < QUEUE_CAPACITY \<Longrightarrow> queue_view (store_frame f q) = queue_view (store_frame f q')"
proof -
  show c: "q_count q = q_count q'" using assms(3) by (metis length_logical queue_view_def fst_conv)
  show "q_active q = q_active q'" "bad_timestamp q t = bad_timestamp q' t"
    using assms(3) by (auto simp: queue_view_def bad_timestamp_def)
  have rej: "logical_frames (q\<lparr>rejected_frames := x\<rparr>) = logical_frames q" for q :: SegaCDAudioQueue and x
    by (simp add: logical_frames_def frame_at_def run_offset_def Let_def)
  show "queue_view (q\<lparr>rejected_frames := rejected_frames q + 1\<rparr>) = queue_view (q'\<lparr>rejected_frames := rejected_frames q' + 1\<rparr>)"
    using assms(3) by (simp add: queue_view_def rej)
  assume "q_count q < QUEUE_CAPACITY"
  then have "logical_frames (store_frame f q) = logical_frames q @ [f]" "logical_frames (store_frame f q') = logical_frames q' @ [f]"
    using assms c by (simp_all add: logical_frames_store)
  then show "queue_view (store_frame f q) = queue_view (store_frame f q')"
    using assms(3) unfolding queue_view_def by (simp add: store_frame_def)
qed

lemma legacy_same_view:
  assumes "mix_ok a" "mix_ok b" "mix_view a = mix_view b"
  shows "mix_view (legacy_sample s f a) = mix_view (legacy_sample s f b)"
proof -
  have ok: "queue_ok (m_source a s)" "queue_ok (m_source b s)" using assms by (simp_all add: mix_ok_def)
  have v: "queue_view (m_source a s) = queue_view (m_source b s)" for s
    using assms(3) by (metis mix_view_def fst_conv)
  have rest: "a\<lparr>m_source := undefined\<rparr> = b\<lparr>m_source := undefined\<rparr>" using assms(3) by (simp add: mix_view_def)
  note q = queue_view_push [OF ok v]
  have full: "q_count (m_source b s) \<noteq> QUEUE_CAPACITY \<Longrightarrow> q_count (m_source a s) < QUEUE_CAPACITY"
    using ok q(1) by (auto simp: queue_ok_def)
  have rej: "mix_view (map_source s (\<lambda>q. q\<lparr>rejected_frames := rejected_frames q + 1\<rparr>) a) =
      mix_view (map_source s (\<lambda>q. q\<lparr>rejected_frames := rejected_frames q + 1\<rparr>) b)"
    using q(4) v rest by (cases a; cases b) (auto simp: mix_view_def map_source_def)
  have st: "mix_view (map_source s (store_frame f) a) = mix_view (map_source s (store_frame f) b)" if "q_count (m_source b s) \<noteq> QUEUE_CAPACITY"
    using q(5) [OF full [OF that]] v rest by (cases a; cases b) (auto simp: mix_view_def map_source_def)
  have e: "paused a = paused b" "paused_rejections a = paused_rejections b" "overflow_events a = overflow_events b"
    using rest by (cases a; cases b; simp)+
  have u: "mix_view (x\<lparr>paused_rejections := k\<rparr>) = mix_view (y\<lparr>paused_rejections := k\<rparr>)"
    "mix_view (x\<lparr>overflow_events := k\<rparr>) = mix_view (y\<lparr>overflow_events := k\<rparr>)"
    "mix_view (add_fault w x) = mix_view (add_fault w y)" if "mix_view x = mix_view y" for x y k w
    using that by (cases x; cases y; simp add: mix_view_def add_fault_def)+
  have c: "map_source s h (x\<lparr>paused_rejections := k\<rparr>) = (map_source s h x)\<lparr>paused_rejections := k\<rparr>"
    "map_source s h (x\<lparr>overflow_events := k\<rparr>) = (map_source s h x)\<lparr>overflow_events := k\<rparr>" for h x k
    by (simp_all add: map_source_def)
  show ?thesis
    unfolding legacy_sample_def segacd_audio_mix_push_def Let_def set_result_def e q(1-3) c if_distrib [of snd] if_distrib [of mix_view] snd_conv
    by (intro if_cong refl) (intro mix_view_result u rej st assms(3), assumption?)+
qed

text \<open>The two kinds of reservation, against pushing the frames one by one.\<close>

lemma granted_in_time:
  assumes g: "segacd_audio_mix_begin_span mix s first fin (length fs) = Some g" and inc: "sorted_wrt (\<lambda>f g. subclock f < subclock g) fs"
    and ends: "subclock (hd fs) = first" "subclock (last fs) = fin"
  shows "fs \<noteq> []" "in_time (m_source mix s) fs"
proof -
  show ne: "fs \<noteq> []" using begin_span_granted(3) [OF g] by auto
  show "in_time (m_source mix s) fs" by (rule increasing_in_time [OF ne inc ends begin_span_granted(6,7) [OF g]])
qed

lemma granted_pushes:
  assumes g: "segacd_audio_mix_begin_span mix s first fin (length fs) = Some g" and inc: "sorted_wrt (\<lambda>f g. subclock f < subclock g) fs"
    and ends: "subclock (hd fs) = first" "subclock (last fs) = fin"
  shows "fold (legacy_sample s) fs mix = (map_source s (store_all fs) mix)\<lparr>last_result := MIX_OK\<rparr>"
  using begin_span_granted(1,2,4) [OF g] granted_in_time [OF assms] by (intro push_in_time)

text \<open>The frames of a granted run could have been reserved as a span.\<close>

lemma run_granted:
  assumes g: "segacd_audio_mix_begin_constant mix s r n = Some g"
  defines "fs \<equiv> map (run_frame r) [0..<n]"
  shows "segacd_audio_mix_begin_span mix s (c_first r) (constant_stamp r (n - 1)) (length fs) = Some (g\<lparr>g_constant := None\<rparr>)"
    "sorted_wrt (\<lambda>f g. subclock f < subclock g) fs" "subclock (hd fs) = c_first r" "subclock (last fs) = constant_stamp r (n - 1)"
proof -
  note b = begin_constant_granted [OF g]
  show "segacd_audio_mix_begin_span mix s (c_first r) (constant_stamp r (n - 1)) (length fs) = Some (g\<lparr>g_constant := None\<rparr>)"
    using b(4) by (simp add: fs_def)
  show "sorted_wrt (\<lambda>f g. subclock f < subclock g) fs" unfolding fs_def by (rule run_frames_increase [OF g])
  have n: "0 < n" by (rule begin_span_granted(3) [OF b(4)])
  show "subclock (last fs) = constant_stamp r (n - 1)"
    using n by (simp add: fs_def run_frame_def last_conv_nth)
  have "ticks r 0 div unat (c_den r) = 0" using b(1) by (simp add: ticks_def run_ok_def word_less_nat_alt)
  then show "subclock (hd fs) = c_first r"
    using n by (simp add: fs_def run_frame_def hd_conv_nth constant_stamp_nat)
qed

lemma commit_span_view:
  assumes ok: "mix_ok mix" and g: "segacd_audio_mix_begin_span mix s first fin (length fs) = Some g"
    and inc: "sorted_wrt (\<lambda>f g. subclock f < subclock g) fs" and ends: "subclock (hd fs) = first" "subclock (last fs) = fin"
  shows "segacd_audio_mix_commit_span g (write_all g fs mix) = (MIX_OK, fold (legacy_sample s) fs mix)"
    "mix_ok (fold (legacy_sample s) fs mix)"
proof -
  have r: "queue_ok (m_source mix s)" using ok by (simp add: mix_ok_def)
  show "segacd_audio_mix_commit_span g (write_all g fs mix) = (MIX_OK, fold (legacy_sample s) fs mix)"
    using commit_span_stores [OF r g refl ends] granted_pushes [OF g inc ends] by simp
  show "mix_ok (fold (legacy_sample s) fs mix)"
    unfolding granted_pushes [OF g inc ends] mix_ok_result
    using store_all_logical [OF r, of fs] begin_span_granted(4) [OF g] ok by (intro map_source_ok) auto
qed

lemma commit_run_view:
  assumes ok: "mix_ok mix" and g: "segacd_audio_mix_begin_constant mix s r n = Some g"
  shows "mix_ok (commit_sink g mix)" "mix_view (commit_sink g mix) = mix_view (fold (legacy_sample s) (map (run_frame r) [0..<n]) mix)"
    "segacd_audio_mix_commit_span g mix = (MIX_OK, commit_sink g mix)"
proof -
  let ?q = "m_source mix s" and ?fs = "map (run_frame r) [0..<n]"
  note b = begin_constant_granted [OF g]
  note sp = begin_span_granted [OF b(4)]
  have gf: "g_count g = n" "g_source g = s" "g_first g = (q_head ?q + q_count ?q) mod QUEUE_CAPACITY" "g_last_subclock g = constant_stamp r (n - 1)"
    using sp(8) by (cases g, simp)+
  have q: "queue_ok ?q" using ok by (simp add: mix_ok_def)
  note fr = accept_run_frames [OF q b(1) gf(1) sp(3,4) gf(3) b(6)]
  note rg = run_granted [OF g]
  note pu = granted_in_time(1) [OF rg] granted_pushes [OF rg]
  have st: "logical_frames (store_all ?fs ?q) = logical_frames ?q @ ?fs" using store_all_logical [OF q, of ?fs] sp(4) by simp
  have "queue_view (accept_run r g ?q) = queue_view (store_all ?fs ?q)"
    unfolding queue_view_def fr(2) st accept_run_fields store_all_fields gf
    using store_all_last [OF pu(1), of ?q] rg(4) by (simp add: accept_run_fields)
  then show "mix_view (commit_sink g mix) = mix_view (fold (legacy_sample s) ?fs mix)"
    unfolding pu(2) commit_run_accepts [OF g] by (intro mix_view_result map_source_view)
  show "mix_ok (commit_sink g mix)"
    unfolding commit_run_accepts [OF g] mix_ok_result using ok fr(1) by (rule map_source_ok)
  show "segacd_audio_mix_commit_span g mix = (MIX_OK, commit_sink g mix)"
    using g b(5) gf by (simp add: commit_sink_def segacd_audio_mix_commit_span_def set_result_def)
qed

end
