(* ===== verification/Cd_Native.thy ===== *)
theory Cd_Native
  imports Cd_Mix_Props
begin

text \<open>
  The sample sinks of \<^verbatim>\<open>runner/cd/audio_native.c\<close>, which stand between the sound devices of the Sega CD
  and the mixer: a sink passes samples on until the first fault, the CDDA sink plants two silent samples
  before the first one of a stream, and both offer the mixer's reservations. Each is an owned sink.
\<close>

section \<open>Sinks\<close>

datatype native_result = NATIVE_OK | NATIVE_INVALID | NATIVE_NO_MEMORY | NATIVE_EVENT_OVERFLOW | NATIVE_BACKWARDS_WRITE
  | NATIVE_BAD_PORT | NATIVE_RENDER_OVERFLOW | NATIVE_MIX_UNDERFLOW | NATIVE_MIX_ERROR | NATIVE_HOST_AUDIO_ERROR

definition FAULT_MIX :: u32 where "FAULT_MIX = 16"
definition PSG_PERIOD_NUMERATOR :: u64 where "PSG_PERIOD_NUMERATOR = 40000000"
definition PSG_PERIOD_DENOMINATOR :: u64 where "PSG_PERIOD_DENOMINATOR = 715909"

record SegaCDNativeAudio =
  mix :: SegaCDAudioMix
  stat_faults :: u32
  stat_result :: native_result
  cdda_active :: bool
  cdda_started :: bool
  pending_valid :: bool
  pending_first_psg_index :: u64
  trace_spans :: bool
  owned_spans :: "audio_source \<Rightarrow> u64"
  owned_frames :: "audio_source \<Rightarrow> u64"
  constant_spans :: "audio_source \<Rightarrow> u64"
  constant_frames :: "audio_source \<Rightarrow> u64"

definition record_result :: "native_result \<Rightarrow> SegaCDNativeAudio \<Rightarrow> SegaCDNativeAudio" where
  "record_result r a = (if stat_result a = NATIVE_OK \<and> r \<noteq> NATIVE_OK then a\<lparr>stat_result := r\<rparr> else a)"

definition has_fatal_error :: "SegaCDNativeAudio \<Rightarrow> bool" where
  "has_fatal_error a \<longleftrightarrow> stat_faults a \<noteq> 0"

definition record_mix_error :: "mix_result \<Rightarrow> SegaCDNativeAudio \<Rightarrow> SegaCDNativeAudio" where
  "record_mix_error r a =
    (if r = MIX_OK then a else record_result NATIVE_MIX_ERROR (a\<lparr>stat_faults := stat_faults a OR FAULT_MIX\<rparr>))"

text \<open>A call of the mixer; \<open>checked\<close> goes on after success and records the error otherwise.\<close>

definition on_mix :: "(SegaCDAudioMix \<Rightarrow> mix_result \<times> SegaCDAudioMix) \<Rightarrow> SegaCDNativeAudio \<Rightarrow> mix_result \<times> SegaCDNativeAudio" where
  "on_mix h a = (fst (h (mix a)), a\<lparr>mix := snd (h (mix a))\<rparr>)"

definition checked ::
  "(SegaCDAudioMix \<Rightarrow> mix_result \<times> SegaCDAudioMix) \<Rightarrow> (SegaCDNativeAudio \<Rightarrow> SegaCDNativeAudio) \<Rightarrow> SegaCDNativeAudio \<Rightarrow> SegaCDNativeAudio" where
  "checked h k a = (case on_mix h a of (r, a) \<Rightarrow> if r \<noteq> MIX_OK then record_mix_error r a else k a)"

definition checked_if ::
  "bool \<Rightarrow> (SegaCDAudioMix \<Rightarrow> mix_result \<times> SegaCDAudioMix) \<Rightarrow> (SegaCDNativeAudio \<Rightarrow> SegaCDNativeAudio) \<Rightarrow> SegaCDNativeAudio \<Rightarrow> SegaCDNativeAudio" where
  "checked_if c h k = (if c then checked h k else k)"

definition push_recorded :: "audio_source \<Rightarrow> SegaCDAudioFrame \<Rightarrow> SegaCDNativeAudio \<Rightarrow> SegaCDNativeAudio" where
  "push_recorded s f a = (case on_mix (segacd_audio_mix_push s f) a of (r, a) \<Rightarrow> record_mix_error r a)"

definition silent_frame :: "u64 \<Rightarrow> SegaCDAudioFrame" where
  "silent_frame t = \<lparr>subclock = t, f_left = 0, f_right = 0\<rparr>"

definition cdda_seed :: "SegaCDNativeAudio \<Rightarrow> u64" where
  "cdda_seed a =
    (let ordinal = pending_first_psg_index a + 1
     in if pending_valid a \<and> ordinal \<le> - 1 div PSG_PERIOD_NUMERATOR then ordinal * PSG_PERIOD_NUMERATOR div PSG_PERIOD_DENOMINATOR else 0)"

text \<open>
  \<^verbatim>\<open>segacd_native_audio_create\<close>, as far as the mixer goes: both sources start active with one silent sample
  at time zero. \<open>trace\<close> is the environment variable that turns the counters of \<open>count_span\<close> on.
\<close>

definition start_source :: "audio_source \<Rightarrow> SegaCDAudioMix \<Rightarrow> SegaCDAudioMix option" where
  "start_source s m =
    (let (r, m) = segacd_audio_mix_set_active s True m
     in if r \<noteq> MIX_OK then None else let (r, m) = segacd_audio_mix_push s (silent_frame 0) m in if r \<noteq> MIX_OK then None else Some m)"

definition segacd_native_audio_create :: "bool \<Rightarrow> SegaCDNativeAudio option" where
  "segacd_native_audio_create trace =
    (case start_source SOURCE_PCM segacd_audio_mix_init of
       None \<Rightarrow> None
     | Some m \<Rightarrow>
         (case start_source SOURCE_CDDA m of
            None \<Rightarrow> None
          | Some m \<Rightarrow> Some \<lparr>mix = m, stat_faults = 0, stat_result = NATIVE_OK, cdda_active = True, cdda_started = True,
              pending_valid = False, pending_first_psg_index = 0, trace_spans = trace, owned_spans = \<lambda>_. 0, owned_frames = \<lambda>_. 0,
              constant_spans = \<lambda>_. 0, constant_frames = \<lambda>_. 0\<rparr>))"

definition push_cdda_sample :: "SegaCDAudioFrame \<Rightarrow> SegaCDNativeAudio \<Rightarrow> SegaCDNativeAudio" where
  "push_cdda_sample f a =
    (if has_fatal_error a then a
     else if \<not> cdda_active a
     then (if f_left f \<noteq> 0 \<or> f_right f \<noteq> 0
           then record_result NATIVE_MIX_ERROR (a\<lparr>stat_faults := stat_faults a OR FAULT_MIX\<rparr>) else a)
     else if \<not> cdda_started a
     then checked (segacd_audio_mix_set_active SOURCE_CDDA True)
            (\<lambda>a. let seed = cdda_seed a
                 in checked_if (seed < subclock f) (segacd_audio_mix_push SOURCE_CDDA (silent_frame seed))
                      (checked_if (subclock f > seed + 1) (segacd_audio_mix_push SOURCE_CDDA (silent_frame (subclock f - 1)))
                        (\<lambda>a. push_recorded SOURCE_CDDA f (a\<lparr>cdda_started := True\<rparr>))) a) a
     else push_recorded SOURCE_CDDA f a)"

definition segacd_native_audio_pcm_sample :: "SegaCDAudioFrame \<Rightarrow> SegaCDNativeAudio \<Rightarrow> SegaCDNativeAudio" where
  "segacd_native_audio_pcm_sample f a = (if has_fatal_error a then a else push_recorded SOURCE_PCM f a)"

definition segacd_native_audio_cdda_sample :: "SegaCDAudioFrame \<Rightarrow> SegaCDNativeAudio \<Rightarrow> SegaCDNativeAudio" where
  "segacd_native_audio_cdda_sample = push_cdda_sample"

definition segacd_native_audio_set_cdda_active :: "bool \<Rightarrow> SegaCDNativeAudio \<Rightarrow> SegaCDNativeAudio" where
  "segacd_native_audio_set_cdda_active active a =
    (if has_fatal_error a then a
     else checked (segacd_audio_mix_set_active SOURCE_CDDA active)
            (checked_if active (segacd_audio_mix_push SOURCE_CDDA (silent_frame 0))
              (\<lambda>a. record_result NATIVE_OK (a\<lparr>cdda_active := active, cdda_started := False\<rparr>))) a)"

definition begin_pcm_span :: "SegaCDNativeAudio \<Rightarrow> u64 \<Rightarrow> u64 \<Rightarrow> nat \<Rightarrow> SegaCDAudioWriteGrant option" where
  "begin_pcm_span a first fin n = (if has_fatal_error a then None else segacd_audio_mix_begin_span (mix a) SOURCE_PCM first fin n)"

definition begin_cdda_span :: "SegaCDNativeAudio \<Rightarrow> u64 \<Rightarrow> u64 \<Rightarrow> nat \<Rightarrow> SegaCDAudioWriteGrant option" where
  "begin_cdda_span a first fin n =
    (if \<not> has_fatal_error a \<and> cdda_active a \<and> cdda_started a then segacd_audio_mix_begin_span (mix a) SOURCE_CDDA first fin n else None)"

definition begin_pcm_constant :: "SegaCDNativeAudio \<Rightarrow> SegaCDAudioConstant \<Rightarrow> nat \<Rightarrow> SegaCDAudioWriteGrant option" where
  "begin_pcm_constant a r n = (if has_fatal_error a then None else segacd_audio_mix_begin_constant (mix a) SOURCE_PCM r n)"

definition begin_cdda_constant :: "SegaCDNativeAudio \<Rightarrow> SegaCDAudioConstant \<Rightarrow> nat \<Rightarrow> SegaCDAudioWriteGrant option" where
  "begin_cdda_constant a r n =
    (if \<not> has_fatal_error a \<and> cdda_active a \<and> cdda_started a then segacd_audio_mix_begin_constant (mix a) SOURCE_CDDA r n else None)"

text \<open>The chip writes through the reservation straight into the mixer's ring.\<close>

definition write_span :: "SegaCDAudioWriteGrant \<Rightarrow> nat \<Rightarrow> SegaCDAudioFrame \<Rightarrow> SegaCDNativeAudio \<Rightarrow> SegaCDNativeAudio" where
  "write_span g i f a = a\<lparr>mix := grant_write g i f (mix a)\<rparr>"

definition count_span :: "SegaCDAudioWriteGrant \<Rightarrow> SegaCDNativeAudio \<Rightarrow> SegaCDNativeAudio" where
  "count_span g a =
    (let s = g_source g; n = of_nat (g_count g);
         a = a\<lparr>owned_spans := (owned_spans a)(s := owned_spans a s + 1), owned_frames := (owned_frames a)(s := owned_frames a s + n)\<rparr>
     in if g_constant g = None then a
        else a\<lparr>constant_spans := (constant_spans a)(s := constant_spans a s + 1), constant_frames := (constant_frames a)(s := constant_frames a s + n)\<rparr>)"

definition commit_source_span :: "SegaCDAudioWriteGrant \<Rightarrow> SegaCDNativeAudio \<Rightarrow> SegaCDNativeAudio" where
  "commit_source_span g a =
    (case on_mix (segacd_audio_mix_commit_span g) a of (r, a) \<Rightarrow>
       let a = record_mix_error r a in if r = MIX_OK \<and> trace_spans a then count_span g a else a)"

section \<open>Equal views\<close>

text \<open>Two states that differ only in how the mixer stores its frames and in the trace counters.\<close>

definition native_ok :: "SegaCDNativeAudio \<Rightarrow> bool" where
  "native_ok a \<longleftrightarrow> mix_ok (mix a)"

definition native_view where
  "native_view a = (mix_view (mix a), stat_faults a, stat_result a, cdda_active a, cdda_started a, pending_valid a, pending_first_psg_index a, trace_spans a)"

definition alike :: "SegaCDNativeAudio \<Rightarrow> SegaCDNativeAudio \<Rightarrow> bool" where
  "alike a b \<longleftrightarrow> native_ok a \<and> native_ok b \<and> native_view a = native_view b"

definition view_call :: "(SegaCDAudioMix \<Rightarrow> mix_result \<times> SegaCDAudioMix) \<Rightarrow> bool" where
  "view_call h \<longleftrightarrow> (\<forall>m m'. mix_ok m \<and> mix_ok m' \<and> mix_view m = mix_view m' \<longrightarrow>
     fst (h m) = fst (h m') \<and> mix_ok (snd (h m)) \<and> mix_ok (snd (h m')) \<and> mix_view (snd (h m)) = mix_view (snd (h m')))"

lemma view_last_result: "mix_view m = mix_view m' \<Longrightarrow> last_result m = last_result m'"
  by (cases m; cases m') (simp add: mix_view_def)

lemma push_view_call: "view_call (segacd_audio_mix_push s f)"
proof -
  have r: "fst (segacd_audio_mix_push s f m) = last_result (snd (segacd_audio_mix_push s f m))" for m
    by (simp add: segacd_audio_mix_push_def set_result_def Let_def)
  show ?thesis
    unfolding view_call_def r legacy_sample_def [symmetric]
    by (intro allI impI conjI view_last_result legacy_same_view) (simp_all add: legacy_keeps)
qed

lemma cleared_queue:
  "queue_ok q \<Longrightarrow> queue_ok ((clear_queue q)\<lparr>q_active := b\<rparr>)"
  "queue_view ((clear_queue q)\<lparr>q_active := b\<rparr>) = ([], last_subclock q, accepted_frames q, rejected_frames q,
     discarded_frames q + of_nat (length (logical_frames q)), 0, b, False)"
  by (simp_all add: clear_queue_def queue_ok_def QUEUE_CAPACITY_def queue_view_def logical_frames_def)

lemma set_active_view_call: "view_call (segacd_audio_mix_set_active s b)"
proof (unfold view_call_def, intro allI impI)
  fix m m' assume a: "mix_ok m \<and> mix_ok m' \<and> mix_view m = mix_view m'"
  let ?f = "\<lambda>q. (clear_queue q)\<lparr>q_active := b\<rparr>"
  have v: "queue_view (m_source m s) = queue_view (m_source m' s)" for s
    using a by (metis mix_view_def fst_conv)
  have q: "queue_view (?f (m_source m s)) = queue_view (?f (m_source m' s))"
    unfolding cleared_queue using v [of s] by (simp add: queue_view_def)
  have p: "paused m = paused m'" using a by (cases m; cases m') (simp add: mix_view_def)
  have "mix_view (map_source s ?f m) = mix_view (map_source s ?f m')"
    using q v a by (cases m; cases m') (auto simp: mix_view_def map_source_def)
  moreover have "mix_ok (map_source s ?f m)" "mix_ok (map_source s ?f m')"
    using a by (simp_all add: map_source_ok cleared_queue mix_ok_def [of m] mix_ok_def [of m'])
  ultimately show "fst (segacd_audio_mix_set_active s b m) = fst (segacd_audio_mix_set_active s b m') \<and>
      mix_ok (snd (segacd_audio_mix_set_active s b m)) \<and> mix_ok (snd (segacd_audio_mix_set_active s b m')) \<and>
      mix_view (snd (segacd_audio_mix_set_active s b m)) = mix_view (snd (segacd_audio_mix_set_active s b m'))"
    using a by (auto simp: segacd_audio_mix_set_active_def set_result_def p intro!: mix_view_result)
qed

lemma alike_facts:
  assumes "alike a b"
  shows "has_fatal_error a = has_fatal_error b" "cdda_active a = cdda_active b" "cdda_started a = cdda_started b" "cdda_seed a = cdda_seed b"
  using assms by (auto simp: alike_def native_view_def has_fatal_error_def cdda_seed_def)

lemma record_alike:
  "alike a b \<Longrightarrow> alike (record_mix_error r a) (record_mix_error r b)"
  "alike a b \<Longrightarrow> alike (record_result q (a\<lparr>stat_faults := stat_faults a OR w\<rparr>)) (record_result q (b\<lparr>stat_faults := stat_faults b OR w\<rparr>))"
  "alike a b \<Longrightarrow> alike (a\<lparr>cdda_started := c\<rparr>) (b\<lparr>cdda_started := c\<rparr>)"
  by (auto simp: alike_def native_ok_def native_view_def record_mix_error_def record_result_def)

lemma on_mix_alike:
  assumes "view_call h" "alike a b"
  shows "fst (on_mix h a) = fst (on_mix h b)" "alike (snd (on_mix h a)) (snd (on_mix h b))"
  using assms by (auto simp: view_call_def alike_def native_ok_def native_view_def on_mix_def)

lemma checked_alike:
  assumes "view_call h" "alike a b" "\<And>a b. alike a b \<Longrightarrow> alike (k a) (l b)"
  shows "alike (checked h k a) (checked h l b)" "alike (checked_if c h k a) (checked_if c h l b)"
  using on_mix_alike [OF assms(1,2)] assms(2,3) by (auto simp: checked_def checked_if_def case_prod_unfold intro: record_alike)

lemma push_recorded_alike: "alike a b \<Longrightarrow> alike (push_recorded s f a) (push_recorded s f b)"
  using on_mix_alike [OF push_view_call] by (simp add: push_recorded_def case_prod_unfold record_alike)

lemma pcm_alike: "alike a b \<Longrightarrow> alike (segacd_native_audio_pcm_sample f a) (segacd_native_audio_pcm_sample f b)"
  by (simp add: segacd_native_audio_pcm_sample_def alike_facts push_recorded_alike)

lemma cdda_alike:
  assumes "alike a b"
  shows "alike (segacd_native_audio_cdda_sample f a) (segacd_native_audio_cdda_sample f b)"
proof -
  have "alike (checked_if (cdda_seed a < subclock f) (segacd_audio_mix_push SOURCE_CDDA (silent_frame (cdda_seed a)))
        (checked_if (subclock f > cdda_seed a + 1) (segacd_audio_mix_push SOURCE_CDDA (silent_frame (subclock f - 1)))
          (\<lambda>a. push_recorded SOURCE_CDDA f (a\<lparr>cdda_started := True\<rparr>))) a)
      (checked_if (cdda_seed b < subclock f) (segacd_audio_mix_push SOURCE_CDDA (silent_frame (cdda_seed b)))
        (checked_if (subclock f > cdda_seed b + 1) (segacd_audio_mix_push SOURCE_CDDA (silent_frame (subclock f - 1)))
          (\<lambda>a. push_recorded SOURCE_CDDA f (a\<lparr>cdda_started := True\<rparr>))) b)" if "alike a b" for a b
    unfolding alike_facts(4) [OF that] using that by (intro checked_alike push_view_call push_recorded_alike record_alike)
  then show ?thesis
    unfolding segacd_native_audio_cdda_sample_def push_cdda_sample_def Let_def alike_facts(1-3) [OF assms]
    using assms by (auto intro!: checked_alike(1) set_active_view_call push_recorded_alike record_alike)
qed

section \<open>Both sinks are owned sinks\<close>

text \<open>While a span is granted, every push succeeds and the sink records nothing.\<close>

lemma push_recorded_ok:
  assumes "\<not> paused (mix a)" "q_active (m_source (mix a) s)" "q_count (m_source (mix a) s) < QUEUE_CAPACITY"
    "\<not> bad_timestamp (m_source (mix a) s) (subclock f)"
  shows "push_recorded s f a = a\<lparr>mix := legacy_sample s f (mix a)\<rparr>"
  using assms by (simp add: push_recorded_def on_mix_def record_mix_error_def legacy_sample_def segacd_audio_mix_push_def set_result_def Let_def)

lemma push_recorded_all:
  assumes "\<not> paused (mix a)" "q_active (m_source (mix a) s)" "q_count (m_source (mix a) s) + length fs \<le> QUEUE_CAPACITY"
    "in_time (m_source (mix a) s) fs"
  shows "fold (push_recorded s) fs a = a\<lparr>mix := fold (legacy_sample s) fs (mix a)\<rparr>"
  using assms
proof (induction fs arbitrary: a)
  case (Cons f fs)
  have one: "push_recorded s f a = a\<lparr>mix := legacy_sample s f (mix a)\<rparr>"
    using Cons.prems in_time_Cons [OF Cons.prems(4)] by (intro push_recorded_ok) auto
  have st: "store_all [f] = store_frame f" by (rule ext) (simp add: store_all_def)
  have l: "legacy_sample s f (mix a) = (map_source s (store_frame f) (mix a))\<lparr>last_result := MIX_OK\<rparr>"
    using push_in_time [of "mix a" s "[f]"] Cons.prems by (simp add: st in_time_def)
  have "fold (push_recorded s) fs (push_recorded s f a) = (push_recorded s f a)\<lparr>mix := fold (legacy_sample s) fs (mix (push_recorded s f a))\<rparr>"
    using Cons.prems in_time_Cons [OF Cons.prems(4)]
    by (intro Cons.IH) (simp_all add: one l map_source_def store_frame_def)
  then show ?case by (simp add: one)
qed simp

lemma sample_push:
  "\<not> has_fatal_error a \<Longrightarrow> segacd_native_audio_pcm_sample f a = push_recorded SOURCE_PCM f a"
  "\<not> has_fatal_error a \<Longrightarrow> cdda_active a \<Longrightarrow> cdda_started a \<Longrightarrow> segacd_native_audio_cdda_sample f a = push_recorded SOURCE_CDDA f a"
  by (simp_all add: segacd_native_audio_pcm_sample_def segacd_native_audio_cdda_sample_def push_cdda_sample_def)

text \<open>A sink that is a plain push while its guard holds, and whose guard pushing into the mixer keeps.\<close>

lemma guarded_all:
  assumes sink: "\<And>f a. guard a \<Longrightarrow> sink f a = push_recorded s f a" and keep: "\<And>a m. guard a \<Longrightarrow> guard (a\<lparr>mix := m\<rparr>)"
    and a: "guard a" "\<not> paused (mix a)" "q_active (m_source (mix a) s)" "q_count (m_source (mix a) s) + length fs \<le> QUEUE_CAPACITY"
      "in_time (m_source (mix a) s) fs"
  shows "fold sink fs a = a\<lparr>mix := fold (legacy_sample s) fs (mix a)\<rparr>"
  using a
proof (induction fs rule: rev_induct)
  case (snoc f fs)
  have t: "in_time (m_source (mix a) s) fs"
    using snoc.prems(5) unfolding in_time_def successively_append_iff by (auto split: list.splits)
  let ?a = "a\<lparr>mix := fold (legacy_sample s) fs (mix a)\<rparr>"
  have "fold sink fs a = ?a" using snoc.IH snoc.prems t by simp
  moreover have "push_recorded s f ?a = fold (push_recorded s) (fs @ [f]) a"
    using push_recorded_all [OF snoc.prems(2,3) _ t] snoc.prems(4) by simp
  ultimately show ?case
    using sink [OF keep [OF snoc.prems(1)], of f "fold (legacy_sample s) fs (mix a)"] push_recorded_all [OF snoc.prems(2-5)] by simp
qed simp

lemma write_span_all: "fold (\<lambda>i. write_span g i (fs ! i)) [0..<length fs] a = a\<lparr>mix := write_all g fs (mix a)\<rparr>"
proof -
  have "fold (\<lambda>i. write_span g i (fs ! i)) is a = a\<lparr>mix := fold (\<lambda>i. grant_write g i (fs ! i)) is (mix a)\<rparr>" for "is"
    by (induction "is" arbitrary: a) (simp_all add: write_span_def)
  then show ?thesis by (simp add: write_all_def)
qed

lemma commit_source_view:
  assumes "segacd_audio_mix_commit_span g m = (MIX_OK, m')"
  shows "native_view (commit_source_span g (a\<lparr>mix := m\<rparr>)) = native_view (a\<lparr>mix := m'\<rparr>)"
    "native_ok (commit_source_span g (a\<lparr>mix := m\<rparr>)) = mix_ok m'"
  using assms
  by (simp_all add: commit_source_span_def on_mix_def record_mix_error_def count_span_def native_view_def native_ok_def Let_def)

lemma guarded_span:
  assumes sink: "\<And>f a. guard a \<Longrightarrow> sink f a = push_recorded s f a" and keep: "\<And>a m. guard a \<Longrightarrow> guard (a\<lparr>mix := m\<rparr>)"
    and a: "native_ok a" "guard a" and g: "segacd_audio_mix_begin_span (mix a) s first fin (length fs) = Some g"
    and inc: "sorted_wrt (\<lambda>f g. subclock f < subclock g) fs" and ends: "subclock (hd fs) = first" "subclock (last fs) = fin"
  defines "b \<equiv> commit_source_span g (fold (\<lambda>i. write_span g i (fs ! i)) [0..<length fs] a)"
  shows "native_ok b" "native_view b = native_view (fold sink fs a)"
proof -
  have m: "mix_ok (mix a)" using a by (simp add: native_ok_def)
  note c = commit_span_view [OF m g inc ends]
  note v = commit_source_view [OF c(1), of a, folded write_span_all]
  have "fold sink fs a = a\<lparr>mix := fold (legacy_sample s) fs (mix a)\<rparr>"
    using begin_span_granted(1,2,4) [OF g] granted_in_time(2) [OF g inc ends] a(2) by (intro guarded_all [of guard] sink keep)
  then show "native_ok b" "native_view b = native_view (fold sink fs a)" using v c(2) by (simp_all add: b_def)
qed

lemma guarded_run:
  assumes sink: "\<And>f a. guard a \<Longrightarrow> sink f a = push_recorded s f a" and keep: "\<And>a m. guard a \<Longrightarrow> guard (a\<lparr>mix := m\<rparr>)"
    and a: "native_ok a" "guard a" and g: "segacd_audio_mix_begin_constant (mix a) s r n = Some g"
  shows "native_ok (commit_source_span g a)"
    "native_view (commit_source_span g a) = native_view (fold sink (map (run_frame r) [0..<n]) a)"
proof -
  let ?fs = "map (run_frame r) [0..<n]"
  have m: "mix_ok (mix a)" using a by (simp add: native_ok_def)
  note c = commit_run_view [OF m g]
  note v = commit_source_view [OF c(3), of a]
  note rg = run_granted [OF g]
  have "fold sink ?fs a = a\<lparr>mix := fold (legacy_sample s) ?fs (mix a)\<rparr>"
    using begin_span_granted(1,2,4) [OF rg(1)] granted_in_time(2) [OF rg] a(2) by (intro guarded_all [of guard] sink keep)
  then show "native_ok (commit_source_span g a)" "native_view (commit_source_span g a) = native_view (fold sink ?fs a)"
    using v c by (simp_all add: native_view_def)
qed

text \<open>So a sink with such a guard, whose reservations also ask for the guard, is an owned sink.\<close>

lemma guarded_sink:
  assumes sink: "\<And>f a. guard a \<Longrightarrow> sink f a = push_recorded s f a" and keep: "\<And>a m. guard a \<Longrightarrow> guard (a\<lparr>mix := m\<rparr>)"
    and alike: "\<And>a b f. alike a b \<Longrightarrow> alike (sink f a) (sink f b)"
    and span: "\<And>a first fin n g. bs a first fin n = Some g \<Longrightarrow> guard a \<and> segacd_audio_mix_begin_span (mix a) s first fin n = Some g"
    and run: "\<And>a r n g. br a r n = Some g \<Longrightarrow> guard a \<and> segacd_audio_mix_begin_constant (mix a) s r n = Some g"
  shows "owned_sink sink bs br write_span commit_source_span native_ok native_view"
proof (unfold_locales, goal_cases)
  case (1 m f)
  then show ?case using alike [of m m f] by (simp add: alike_def)
next
  case (2 m m' f)
  then show ?case using alike [of m m' f] by (simp add: alike_def)
next
  case (3 m first fin n g)
  then show ?case using span begin_span_granted(5) by blast
next
  case (4 m first fin fs g)
  then show ?case using guarded_span(1) [of guard sink s, OF sink keep] span by blast
next
  case (5 m first fin fs g)
  then show ?case using guarded_span(2) [of guard sink s, OF sink keep] span by blast
next
  case (6 m r n g)
  then show ?case using guarded_run(1) [of guard sink s, OF sink keep] run by blast
next
  case (7 m r n g)
  then show ?case using guarded_run(2) [of guard sink s, OF sink keep] run by blast
qed

interpretation pcm_sink: owned_sink segacd_native_audio_pcm_sample begin_pcm_span begin_pcm_constant write_span commit_source_span
  native_ok native_view
  by (rule guarded_sink [where guard = "\<lambda>a. \<not> has_fatal_error a" and s = SOURCE_PCM])
    (auto simp: sample_push pcm_alike begin_pcm_span_def begin_pcm_constant_def has_fatal_error_def split: if_splits)

interpretation cdda_sink: owned_sink segacd_native_audio_cdda_sample begin_cdda_span begin_cdda_constant write_span commit_source_span
  native_ok native_view
  by (rule guarded_sink [where guard = "\<lambda>a. \<not> has_fatal_error a \<and> cdda_active a \<and> cdda_started a" and s = SOURCE_CDDA])
    (auto simp: sample_push cdda_alike begin_cdda_span_def begin_cdda_constant_def has_fatal_error_def split: if_splits)

lemma native_create_ok: "native_ok (the (segacd_native_audio_create trace))"
proof -
  have init: "mix_ok segacd_audio_mix_init" by (simp add: mix_ok_def segacd_audio_mix_init_def queue_ok_def empty_queue_def QUEUE_CAPACITY_def)
  have call: "mix_ok (snd (h m))" if "view_call h" "mix_ok m" for h m using that by (auto simp: view_call_def)
  have start: "\<exists>m'. start_source s m = Some m' \<and> mix_ok m' \<and> \<not> paused m'" if "mix_ok m" "\<not> paused m" for s m
  proof -
    define m1 where "m1 = snd (segacd_audio_mix_set_active s True m)"
    have ok: "mix_ok (snd (segacd_audio_mix_push s (silent_frame 0) m1))"
      unfolding m1_def by (intro call push_view_call set_active_view_call that(1))
    have m1: "\<not> paused m1" "q_active (m_source m1 s)" "\<not> have_last_subclock (m_source m1 s)" "q_count (m_source m1 s) = 0"
      "fst (segacd_audio_mix_set_active s True m) = MIX_OK"
      using that(2) by (simp_all add: m1_def segacd_audio_mix_set_active_def set_result_def map_source_def clear_queue_def)
    then have "fst (segacd_audio_mix_push s (silent_frame 0) m1) = MIX_OK \<and> \<not> paused (snd (segacd_audio_mix_push s (silent_frame 0) m1))"
      by (simp add: segacd_audio_mix_push_def set_result_def Let_def bad_timestamp_def map_source_def QUEUE_CAPACITY_def)
    then show ?thesis using ok m1(5) by (simp add: start_source_def Let_def case_prod_unfold m1_def [symmetric])
  qed
  obtain m where m: "start_source SOURCE_PCM segacd_audio_mix_init = Some m" "mix_ok m" "\<not> paused m"
    using start [OF init, of SOURCE_PCM] by (auto simp: segacd_audio_mix_init_def)
  obtain m' where "start_source SOURCE_CDDA m = Some m'" "mix_ok m'"
    using start [OF m(2,3), of SOURCE_CDDA] by auto
  then show ?thesis using m by (simp add: segacd_native_audio_create_def native_ok_def)
qed

end
