(* ===== verification/Cd_Pcm.thy ===== *)
theory Cd_Pcm
  imports Cd_Native
begin

text \<open>
  The PCM sound chip of the Sega CD, \<^verbatim>\<open>runner/cd/rf5c164.c\<close>: eight channels that read 8-bit samples from
  64 KiB of wave memory, one stereo sample every 384 clocks. \<^verbatim>\<open>rf5c164_advance_timed\<close> computes sample by
  sample; \<^verbatim>\<open>rf5c164_advance_owned\<close> works on a compact copy of the channels that sound, writes straight
  into the mixer's queue and stores a stretch of equal samples as a run. Both must be the same machine.
\<close>

section \<open>The chip\<close>

record Rf5c164Channel =
  env :: u8
  pan :: u8
  fdl :: u8
  fdh :: u8
  lsl :: u8
  lsh :: u8
  ch_start :: u8
  ch_on :: bool
  address :: u32

record Rf5c164 =
  channel :: "Rf5c164Channel list"
  wave :: "u16 \<Rightarrow> u8"
  selected :: u8
  bank :: u8
  enabled :: bool
  disabled :: u8
  phase :: u16
  p_left :: i16
  p_right :: i16
  samples :: u64

definition channel_reset :: Rf5c164Channel where
  "channel_reset = \<lparr>env = 0, pan = 0, fdl = 0, fdh = 0, lsl = 0, lsh = 0, ch_start = 0, ch_on = False, address = 0\<rparr>"

definition rf5c164_reset :: "Rf5c164 \<Rightarrow> Rf5c164" where
  "rf5c164_reset p = p\<lparr>channel := replicate 8 channel_reset, selected := 0, bank := 0, enabled := False, disabled := 255,
     phase := 0, p_left := 0, p_right := 0, samples := 0\<rparr>"

definition rf5c164_init :: Rf5c164 where
  "rf5c164_init = rf5c164_reset \<lparr>channel = replicate 8 channel_reset, wave = \<lambda>_. 0, selected = 0, bank = 0, enabled = False,
     disabled = 0, phase = 0, p_left = 0, p_right = 0, samples = 0\<rparr>"

definition wave_position :: "u32 \<Rightarrow> u16" where
  "wave_position a = ucast (drop_bit 11 a)"

definition bank_address :: "Rf5c164 \<Rightarrow> u32 \<Rightarrow> u16" where
  "bank_address p a = push_bit 12 (ucast (bank p)) OR (ucast a AND 0xFFF)"

definition rf5c164_read :: "Rf5c164 \<Rightarrow> u32 \<Rightarrow> u8" where
  "rf5c164_read p a =
    (let a = a AND 0x1FFF
     in if a \<ge> 0x1000 then (if enabled p then 0xFF else wave p (bank_address p a))
        else if a \<ge> 0x10 \<and> a < 0x20
        then let position = wave_position (address (channel p ! (unat (a - 0x10) div 2)))
             in if bit a 0 then ucast (drop_bit 8 position) else ucast position
        else 0xFF)"

definition start_address :: "u8 \<Rightarrow> u32" where
  "start_address v = push_bit 19 (ucast v)"

definition set_switch :: "u8 \<Rightarrow> nat \<Rightarrow> Rf5c164Channel \<Rightarrow> Rf5c164Channel" where
  "set_switch v n c = (let c = c\<lparr>ch_on := \<not> bit v n\<rparr> in if ch_on c then c else c\<lparr>address := start_address (ch_start c)\<rparr>)"

definition write_register :: "Rf5c164 \<Rightarrow> u32 \<Rightarrow> u8 \<Rightarrow> Rf5c164" where
  "write_register p a v =
    (let n = unat (selected p); c = channel p ! n; put = (\<lambda>c. p\<lparr>channel := (channel p)[n := c]\<rparr>)
     in if a = 0 then put (c\<lparr>env := v\<rparr>)
        else if a = 1 then put (c\<lparr>pan := v\<rparr>)
        else if a = 2 then put (c\<lparr>fdl := v\<rparr>)
        else if a = 3 then put (c\<lparr>fdh := v\<rparr>)
        else if a = 4 then put (c\<lparr>lsl := v\<rparr>)
        else if a = 5 then put (c\<lparr>lsh := v\<rparr>)
        else if a = 6 then put (let c = c\<lparr>ch_start := v\<rparr> in if ch_on c then c else c\<lparr>address := start_address v\<rparr>)
        else if a = 7 then
          let p = (if bit v 6 then p\<lparr>selected := v AND 7\<rparr> else p\<lparr>bank := v AND 15\<rparr>) in p\<lparr>enabled := bit v 7\<rparr>
        else if a = 8 then p\<lparr>disabled := v, channel := map (\<lambda>(n, c). set_switch v n c) (enumerate 0 (channel p))\<rparr>
        else p)"

definition rf5c164_write :: "u32 \<Rightarrow> u8 \<Rightarrow> Rf5c164 \<Rightarrow> Rf5c164" where
  "rf5c164_write a v p =
    (let a = a AND 0x1FFF
     in if a \<ge> 0x1000 then p\<lparr>wave := (wave p)(bank_address p a := v)\<rparr> else write_register p a v)"

definition saturate :: "int \<Rightarrow> i16" where
  "saturate n = word_of_int (if n > 32767 then 32767 else if n < - 32768 then - 32768 else n)"

section \<open>One sample\<close>

definition loop_address :: "Rf5c164Channel \<Rightarrow> u32" where
  "loop_address c = push_bit 11 (push_bit 8 (ucast (lsh c)) OR ucast (lsl c))"

definition step_size :: "Rf5c164Channel \<Rightarrow> u32" where
  "step_size c = push_bit 8 (ucast (fdh c)) + ucast (fdl c)"

text \<open>The signed contribution of a sample: the top bit is the sign, the scale is pan times envelope.\<close>

definition voice_level :: "u8 \<Rightarrow> int \<Rightarrow> int" where
  "voice_level sample scale = (let v = (uint (sample AND 127) * scale) div 32 in if bit sample 7 then v else - v)"

definition left_scale :: "Rf5c164Channel \<Rightarrow> int" where
  "left_scale c = uint (pan c AND 15) * uint (env c)"

definition right_scale :: "Rf5c164Channel \<Rightarrow> int" where
  "right_scale c = uint (drop_bit 4 (pan c)) * uint (env c)"

primrec mix_channels :: "(u16 \<Rightarrow> u8) \<Rightarrow> Rf5c164Channel list \<Rightarrow> int \<Rightarrow> int \<Rightarrow> Rf5c164Channel list \<times> int \<times> int" where
  "mix_channels mem [] l r = ([], l, r)"
| "mix_channels mem (c # cs) l r =
    (if \<not> ch_on c then let (cs, l, r) = mix_channels mem cs l r in (c # cs, l, r)
     else
       let sample = mem (wave_position (address c));
           (c, sample) =
             (if sample = 255
              then let c = c\<lparr>address := loop_address c\<rparr>; sample = mem (wave_position (address c))
                   in (c, if sample = 255 then None else Some sample)
              else (c\<lparr>address := (address c + step_size c) AND 0x7FFFFFF\<rparr>, Some sample));
           (l, r) = (case sample of None \<Rightarrow> (l, r) | Some s \<Rightarrow> (l + voice_level s (left_scale c), r + voice_level s (right_scale c)));
           (cs, l, r) = mix_channels mem cs l r
       in (c # cs, l, r))"

definition rf5c164_sample :: "Rf5c164 \<Rightarrow> Rf5c164" where
  "rf5c164_sample p =
    (let (cs, l, r) = (if enabled p then mix_channels (wave p) (channel p) 0 0 else (channel p, 0, 0))
     in p\<lparr>channel := cs, p_left := saturate l, p_right := saturate r, samples := samples p + 1\<rparr>)"

section \<open>Advancing\<close>

text \<open>A sink is a function on the state it keeps; a missing sink is the identity.\<close>

definition clock_total :: "Rf5c164 \<Rightarrow> u32 \<Rightarrow> u64" where
  "clock_total p clocks = ucast (phase p) + ucast clocks"

definition sample_count :: "Rf5c164 \<Rightarrow> u32 \<Rightarrow> u32" where
  "sample_count p clocks = ucast (clock_total p clocks div 384)"

definition rf5c164_advance :: "(i16 \<Rightarrow> i16 \<Rightarrow> 'm \<Rightarrow> 'm) \<Rightarrow> u32 \<Rightarrow> Rf5c164 \<times> 'm \<Rightarrow> Rf5c164 \<times> 'm" where
  "rf5c164_advance sink clocks pm =
    ((\<lambda>(p, m). let p = rf5c164_sample p in (p, sink (p_left p) (p_right p) m)) ^^ unat (sample_count (fst pm) clocks))
      ((fst pm)\<lparr>phase := ucast (clock_total (fst pm) clocks mod 384)\<rparr>, snd pm)"

definition timed_step :: "(SegaCDAudioFrame \<Rightarrow> 'm \<Rightarrow> 'm) \<Rightarrow> u64 \<Rightarrow> nat \<Rightarrow> Rf5c164 \<times> 'm \<Rightarrow> Rf5c164 \<times> 'm" where
  "timed_step sink origin n pm =
    (let p = rf5c164_sample (fst pm)
     in (p, sink \<lparr>subclock = origin + of_nat n * 384, f_left = p_left p, f_right = p_right p\<rparr> (snd pm)))"

definition rf5c164_advance_timed :: "(SegaCDAudioFrame \<Rightarrow> 'm \<Rightarrow> 'm) \<Rightarrow> u64 \<Rightarrow> u32 \<Rightarrow> Rf5c164 \<times> 'm \<Rightarrow> Rf5c164 \<times> 'm" where
  "rf5c164_advance_timed sink start clocks pm =
    (let p = fst pm; first = 384 - ucast (phase p) :: u32
     in fold (timed_step sink (start + ucast first)) [0..<unat (sample_count p clocks)]
          (p\<lparr>phase := ucast (clock_total p clocks mod 384)\<rparr>, snd pm))"

text \<open>
  \<^verbatim>\<open>rf5c164_advance_owned\<close>. The owned sink is a record of operations; no record stands for every binding
  that the guard refuses (no sink, another sink, a missing operation).
\<close>

record 'm SegaCDAudioOwnedSink =
  o_begin :: "'m \<Rightarrow> u64 \<Rightarrow> u64 \<Rightarrow> nat \<Rightarrow> SegaCDAudioWriteGrant option"
  o_commit :: "SegaCDAudioWriteGrant \<Rightarrow> 'm \<Rightarrow> 'm"
  o_write :: "SegaCDAudioWriteGrant \<Rightarrow> nat \<Rightarrow> SegaCDAudioFrame \<Rightarrow> 'm \<Rightarrow> 'm"
  o_begin_constant :: "('m \<Rightarrow> SegaCDAudioConstant \<Rightarrow> nat \<Rightarrow> SegaCDAudioWriteGrant option) option"

record Voice =
  v_channel :: nat
  v_address :: u32
  v_loop :: u32
  v_step :: u32
  v_left :: int
  v_right :: int

definition voice_of :: "nat \<Rightarrow> Rf5c164Channel \<Rightarrow> Voice" where
  "voice_of n c = \<lparr>v_channel = n, v_address = address c, v_loop = loop_address c, v_step = step_size c,
     v_left = left_scale c, v_right = right_scale c\<rparr>"

primrec voices_of :: "nat \<Rightarrow> Rf5c164Channel list \<Rightarrow> Voice list" where
  "voices_of n [] = []"
| "voices_of n (c # cs) = (if ch_on c then voice_of n c # voices_of (n + 1) cs else voices_of (n + 1) cs)"

text \<open>The preview of a constant stretch: every voice stands still; nothing when one does not.\<close>

primrec constant_voices :: "(u16 \<Rightarrow> u8) \<Rightarrow> Voice list \<Rightarrow> int \<Rightarrow> int \<Rightarrow> (Voice list \<times> int \<times> int) option" where
  "constant_voices mem [] l r = Some ([], l, r)"
| "constant_voices mem (v # vs) l r =
    (if v_step v \<noteq> 0 then None
     else
       let sample = mem (wave_position (v_address v));
           (v, sample) =
             (if sample = 255 then let v = v\<lparr>v_address := v_loop v\<rparr> in (v, mem (wave_position (v_address v))) else (v, sample));
           (l, r) = (if sample \<noteq> 255 then (l + voice_level sample (v_left v), r + voice_level sample (v_right v)) else (l, r))
       in map_option (\<lambda>(vs, l, r). (v # vs, l, r)) (constant_voices mem vs l r))"

primrec mix_voices :: "(u16 \<Rightarrow> u8) \<Rightarrow> Voice list \<Rightarrow> int \<Rightarrow> int \<Rightarrow> Voice list \<times> int \<times> int" where
  "mix_voices mem [] l r = ([], l, r)"
| "mix_voices mem (v # vs) l r =
    (let sample = mem (wave_position (v_address v));
         (v, sample) =
           (if sample = 255
            then let v = v\<lparr>v_address := v_loop v\<rparr>; sample = mem (wave_position (v_address v))
                 in (v, if sample = 255 then None else Some sample)
            else (v\<lparr>v_address := (v_address v + v_step v) AND 0x7FFFFFF\<rparr>, Some sample));
         (l, r) = (case sample of None \<Rightarrow> (l, r) | Some s \<Rightarrow> (l + voice_level s (v_left v), r + voice_level s (v_right v)));
         (vs, l, r) = mix_voices mem vs l r
     in (v # vs, l, r))"

definition write_back :: "Voice list \<Rightarrow> Rf5c164Channel list \<Rightarrow> Rf5c164Channel list" where
  "write_back vs cs = fold (\<lambda>v cs. cs[v_channel v := (cs ! v_channel v)\<lparr>address := v_address v\<rparr>]) vs cs"

definition owned_step ::
  "'m SegaCDAudioOwnedSink \<Rightarrow> SegaCDAudioWriteGrant \<Rightarrow> (u16 \<Rightarrow> u8) \<Rightarrow> u64 \<Rightarrow> nat \<Rightarrow> Voice list \<times> i16 \<times> i16 \<times> 'm \<Rightarrow> Voice list \<times> i16 \<times> i16 \<times> 'm" where
  "owned_step owned g mem first n st =
    (case st of (vs, _, _, m) \<Rightarrow>
       let (vs, l, r) = mix_voices mem vs 0 0
       in (vs, saturate l, saturate r,
           o_write owned g n \<lparr>subclock = first + of_nat n * 384, f_left = saturate l, f_right = saturate r\<rparr> m))"

definition owned_constant ::
  "'m SegaCDAudioOwnedSink \<Rightarrow> u64 \<Rightarrow> u32 \<Rightarrow> Voice list \<Rightarrow> Rf5c164 \<times> 'm \<Rightarrow> (Rf5c164 \<times> 'm) option" where
  "owned_constant owned first count vs pm =
    (case (o_begin_constant owned, constant_voices (wave (fst pm)) vs 0 0) of
       (Some begin_constant, Some (vs, l, r)) \<Rightarrow>
         (let run = \<lparr>c_first = first, c_phase = 0, c_step = 384, c_den = 1, c_left = saturate l, c_right = saturate r\<rparr>
          in case begin_constant (snd pm) run (unat count) of
               Some g \<Rightarrow>
                 if g_constant g \<noteq> None \<and> g_count g = unat count
                 then Some ((fst pm)\<lparr>channel := write_back vs (channel (fst pm)), p_left := saturate l, p_right := saturate r,
                        samples := samples (fst pm) + ucast count\<rparr>, o_commit owned g (snd pm))
                 else None
             | None \<Rightarrow> None)
     | _ \<Rightarrow> None)"

definition rf5c164_advance_owned ::
  "(SegaCDAudioFrame \<Rightarrow> 'm \<Rightarrow> 'm) \<Rightarrow> 'm SegaCDAudioOwnedSink option \<Rightarrow> u64 \<Rightarrow> u32 \<Rightarrow> Rf5c164 \<times> 'm \<Rightarrow> Rf5c164 \<times> 'm" where
  "rf5c164_advance_owned sink owned start clocks pm =
    (let p = fst pm; m = snd pm; count = sample_count p clocks; timed = rf5c164_advance_timed sink start clocks pm
     in case owned of None \<Rightarrow> timed
        | Some owned \<Rightarrow>
            if phase p \<ge> 384 \<or> count = 0 then timed
            else
              let first = start + 384 - ucast (phase p); fin = first + ucast (count - 1) * 384;
                  vs = (if enabled p then voices_of 0 (channel p) else []);
                  p' = p\<lparr>phase := ucast (clock_total p clocks mod 384)\<rparr>
              in case owned_constant owned first count vs (p', m) of
                   Some pm' \<Rightarrow> pm'
                 | None \<Rightarrow>
                     (case o_begin owned m first fin (unat count) of
                        None \<Rightarrow> timed
                      | Some g \<Rightarrow>
                          if g_count g \<noteq> unat count then timed
                          else
                            let (vs, l, r, m) = fold (owned_step owned g (wave p) first) [0..<unat count] (vs, 0, 0, m)
                            in (p'\<lparr>channel := write_back vs (channel p'), p_left := l, p_right := r, samples := samples p' + ucast count\<rparr>,
                                o_commit owned g m)))"

text \<open>The sink that \<^verbatim>\<open>segacd_native_audio_attach_io\<close> binds to the chip.\<close>

definition pcm_owned_sink :: "SegaCDNativeAudio SegaCDAudioOwnedSink" where
  "pcm_owned_sink = \<lparr>o_begin = begin_pcm_span, o_commit = commit_source_span, o_write = write_span, o_begin_constant = Some begin_pcm_constant\<rparr>"

end
