(* ===== verification/Cd_Cdda.thy ===== *)
theory Cd_Cdda
  imports Cd_Pcm
begin

text \<open>
  The CD audio stream of the Sega CD, \<^verbatim>\<open>runner/cd/cdda.c\<close> with the fader of \<^verbatim>\<open>runner/cd/fader.c\<close>: a FIFO of
  two raw sectors, played at 44100 frames a second of a 12.5 MHz clock by an exact fraction, each frame
  scaled by a gain that slews by one step a frame. \<^verbatim>\<open>segacd_cdda_advance_to\<close> plays frame by frame,
  \<^verbatim>\<open>segacd_cdda_advance_owned\<close> in chunks of equal gain, with the divisions replaced by a recurrence.
  The positions in the FIFO are natural numbers, which the code keeps below 2 sectors and 588 frames.
\<close>

section \<open>The fader\<close>

record SegaCDFader =
  current_field :: u16
  target_field :: u16
  control_bits :: u16

definition fader_field :: "u16 \<Rightarrow> u16" where
  "fader_field raw = drop_bit 4 raw AND 0x7FF"

definition segacd_fader_reset :: "u16 \<Rightarrow> SegaCDFader" where
  "segacd_fader_reset raw = \<lparr>current_field = fader_field raw, target_field = fader_field raw, control_bits = raw AND 0xE\<rparr>"

definition segacd_fader_set_target :: "u16 \<Rightarrow> SegaCDFader \<Rightarrow> SegaCDFader" where
  "segacd_fader_set_target raw f = f\<lparr>target_field := fader_field raw, control_bits := raw AND 0xE\<rparr>"

definition segacd_fader_current_raw :: "SegaCDFader \<Rightarrow> u16" where
  "segacd_fader_current_raw f = push_bit 4 (current_field f) OR control_bits f"

definition segacd_fader_target_raw :: "SegaCDFader \<Rightarrow> u16" where
  "segacd_fader_target_raw f = push_bit 4 (target_field f) OR control_bits f"

definition segacd_fader_control :: "SegaCDFader \<Rightarrow> u16" where
  "segacd_fader_control f = control_bits f"

definition fader_gain :: "u16 \<Rightarrow> int \<times> int" where
  "fader_gain field = (if field < 4 then (uint field, 1024) else (uint (drop_bit 2 field), 256))"

definition clamp_s16 :: "int \<Rightarrow> i16" where
  "clamp_s16 v = word_of_int (if v > 32767 then 32767 else if v < - 32768 then - 32768 else v)"

definition scale_sample :: "i16 \<Rightarrow> int \<times> int \<Rightarrow> i16" where
  "scale_sample sample gain =
    (let product = sint sample * fst gain; den = snd gain
     in clamp_s16 (if product < 0 then - ((- product + den div 2) div den) else (product + den div 2) div den))"

definition slew :: "u16 \<Rightarrow> u16 \<Rightarrow> u16" where
  "slew current target = (if current < target then current + 1 else if current > target then current - 1 else current)"

definition segacd_fader_tick :: "SegaCDFader \<Rightarrow> i16 \<Rightarrow> i16 \<Rightarrow> SegaCDFader \<times> i16 \<times> i16" where
  "segacd_fader_tick f left right =
    (let gain = fader_gain (current_field f)
     in (f\<lparr>current_field := slew (current_field f) (target_field f)\<rparr>, scale_sample left gain, scale_sample right gain))"

section \<open>The stream\<close>

definition CDDA_CLOCK :: u64 where "CDDA_CLOCK = 12500000"
definition CDDA_RATE :: u64 where "CDDA_RATE = 44100"
definition SECTOR_FRAMES :: nat where "SECTOR_FRAMES = 588"
definition FIFO_SECTORS :: nat where "FIFO_SECTORS = 2"

datatype cdda_transport = CDDA_STOPPED | CDDA_PLAYING | CDDA_PAUSED

datatype cdda_result = CDDA_OK | CDDA_INVALID | CDDA_NOT_PLAYING | CDDA_OVERFLOW | CDDA_UNDERFLOW | CDDA_UNSUPPORTED

definition STATUS_OVERFLOW :: u16 where "STATUS_OVERFLOW = 1"
definition STATUS_UNDERFLOW :: u16 where "STATUS_UNDERFLOW = 2"
definition STATUS_DEEMPHASIS_UNSUPPORTED :: u16 where "STATUS_DEEMPHASIS_UNSUPPORTED = 4"
definition STATUS_DOUBLE_SPEED_UNSUPPORTED :: u16 where "STATUS_DOUBLE_SPEED_UNSUPPORTED = 8"

record SegaCDCdda =
  fifo :: "nat \<Rightarrow> nat \<Rightarrow> i16 \<times> i16"
  fifo_lba :: "nat \<Rightarrow> 32 word"
  clock_now :: u64
  epoch_origin :: u64
  cd_phase :: u64
  total_sample_ticks :: u64
  delivered_frames :: u64
  underflow_frames :: u64
  silence_frames :: u64
  sectors_accepted :: u64
  fader_raw_target :: u16
  status :: u16
  fifo_head :: nat
  fifo_count :: nat
  transport :: cdda_transport
  source_anchored :: bool
  deemphasis :: bool
  double_speed :: bool
  fifo_frame :: nat
  fader :: SegaCDFader

definition cdda_clear_queue :: "SegaCDCdda \<Rightarrow> SegaCDCdda" where
  "cdda_clear_queue s = s\<lparr>fifo_head := 0, fifo_count := 0, fifo_frame := 0, source_anchored := False\<rparr>"

definition segacd_cdda_set_modes :: "bool \<Rightarrow> bool \<Rightarrow> SegaCDCdda \<Rightarrow> cdda_result \<times> SegaCDCdda" where
  "segacd_cdda_set_modes de ds s =
    (let s = s\<lparr>deemphasis := de, double_speed := ds,
           status := orif ds STATUS_DOUBLE_SPEED_UNSUPPORTED (orif de STATUS_DEEMPHASIS_UNSUPPORTED (status s))\<rparr>
     in (if de \<or> ds then CDDA_UNSUPPORTED else CDDA_OK, s))"

definition raw_modes :: "u16 \<Rightarrow> SegaCDCdda \<Rightarrow> cdda_result \<times> SegaCDCdda" where
  "raw_modes raw = segacd_cdda_set_modes (raw AND 0xC \<noteq> 0) (raw AND 2 \<noteq> 0)"

definition segacd_cdda_reset :: "u64 \<Rightarrow> u16 \<Rightarrow> SegaCDCdda" where
  "segacd_cdda_reset now raw =
    snd (raw_modes raw \<lparr>fifo = \<lambda>_ _. (0, 0), fifo_lba = \<lambda>_. 0, clock_now = now, epoch_origin = now, cd_phase = 0,
      total_sample_ticks = 0, delivered_frames = 0, underflow_frames = 0, silence_frames = 0, sectors_accepted = 0,
      fader_raw_target = raw, status = 0, fifo_head = 0, fifo_count = 0, transport = CDDA_STOPPED, source_anchored = False,
      deemphasis = False, double_speed = False, fifo_frame = 0, fader = segacd_fader_reset raw\<rparr>)"

definition segacd_cdda_play :: "SegaCDCdda \<Rightarrow> SegaCDCdda" where
  "segacd_cdda_play s = (if transport s \<noteq> CDDA_PLAYING then (cdda_clear_queue s)\<lparr>transport := CDDA_PLAYING\<rparr> else s)"

definition segacd_cdda_pause :: "SegaCDCdda \<Rightarrow> SegaCDCdda" where
  "segacd_cdda_pause s = (cdda_clear_queue s)\<lparr>transport := CDDA_PAUSED\<rparr>"

definition segacd_cdda_stop :: "SegaCDCdda \<Rightarrow> SegaCDCdda" where
  "segacd_cdda_stop s = (cdda_clear_queue s)\<lparr>transport := CDDA_STOPPED\<rparr>"

definition segacd_cdda_seek :: "SegaCDCdda \<Rightarrow> SegaCDCdda" where
  "segacd_cdda_seek = cdda_clear_queue"

definition segacd_cdda_clear_for_data :: "SegaCDCdda \<Rightarrow> SegaCDCdda" where
  "segacd_cdda_clear_for_data = cdda_clear_queue"

definition segacd_cdda_set_fader_target_raw :: "u16 \<Rightarrow> SegaCDCdda \<Rightarrow> cdda_result \<times> SegaCDCdda" where
  "segacd_cdda_set_fader_target_raw raw s =
    (let (r, s) = raw_modes raw s
     in if r \<noteq> CDDA_OK then (r, s)
        else (CDDA_OK, s\<lparr>fader_raw_target := raw, fader := segacd_fader_set_target raw (fader s)\<rparr>))"

definition load_le_s16 :: "u8 \<Rightarrow> u8 \<Rightarrow> i16" where
  "load_le_s16 lo hi = ucast lo OR push_bit 8 (ucast hi)"

definition unsupported :: "SegaCDCdda \<Rightarrow> bool" where
  "unsupported s \<longleftrightarrow> status s AND (STATUS_DEEMPHASIS_UNSUPPORTED OR STATUS_DOUBLE_SPEED_UNSUPPORTED) \<noteq> 0"

definition sector_frame :: "u8 list \<Rightarrow> nat \<Rightarrow> i16 \<times> i16" where
  "sector_frame raw n = (load_le_s16 (raw ! (4 * n)) (raw ! (4 * n + 1)), load_le_s16 (raw ! (4 * n + 2)) (raw ! (4 * n + 3)))"

definition segacd_cdda_push_raw_sector :: "u64 \<Rightarrow> 32 word \<Rightarrow> u8 list \<Rightarrow> SegaCDCdda \<Rightarrow> cdda_result \<times> SegaCDCdda" where
  "segacd_cdda_push_raw_sector stamp lba raw s =
    (if stamp \<noteq> clock_now s then (CDDA_INVALID, s)
     else if unsupported s then (CDDA_UNSUPPORTED, s)
     else if transport s \<noteq> CDDA_PLAYING then (CDDA_NOT_PLAYING, s)
     else if fifo_count s = FIFO_SECTORS then (CDDA_OVERFLOW, s\<lparr>status := status s OR STATUS_OVERFLOW\<rparr>)
     else
       let s = (if \<not> source_anchored s then s\<lparr>cd_phase := 0, source_anchored := True\<rparr> else s);
           slot = (fifo_head s + fifo_count s) mod FIFO_SECTORS
       in (CDDA_OK, s\<lparr>fifo := (fifo s)(slot := \<lambda>n. if n < SECTOR_FRAMES then sector_frame raw n else fifo s slot n),
             fifo_lba := (fifo_lba s)(slot := lba), fifo_count := fifo_count s + 1, sectors_accepted := sectors_accepted s + 1\<rparr>))"

section \<open>Frame by frame\<close>

definition next_sector :: "SegaCDCdda \<Rightarrow> SegaCDCdda" where
  "next_sector s = s\<lparr>fifo_frame := 0, fifo_head := (fifo_head s + 1) mod FIFO_SECTORS, fifo_count := fifo_count s - 1\<rparr>"

definition has_data :: "SegaCDCdda \<Rightarrow> bool" where
  "has_data s \<longleftrightarrow> transport s = CDDA_PLAYING \<and> source_anchored s"

definition emit_tick :: "(SegaCDAudioFrame \<Rightarrow> 'm \<Rightarrow> 'm) \<Rightarrow> u64 \<Rightarrow> SegaCDCdda \<times> 'm \<times> u64 \<Rightarrow> SegaCDCdda \<times> 'm \<times> u64" where
  "emit_tick sink at st =
    (case st of (s, m, emitted) \<Rightarrow>
       let s = s\<lparr>total_sample_ticks := total_sample_ticks s + 1\<rparr>
       in if has_data s \<and> fifo_count s = 0
          then (s\<lparr>status := status s OR STATUS_UNDERFLOW, underflow_frames := underflow_frames s + 1\<rparr>, m, emitted)
          else
            let (s, left, right) =
                  (if has_data s
                   then let (l, r) = fifo s (fifo_head s) (fifo_frame s); s = s\<lparr>fifo_frame := fifo_frame s + 1\<rparr>
                        in (if fifo_frame s = SECTOR_FRAMES then next_sector s else s, l, r)
                   else (s\<lparr>silence_frames := silence_frames s + 1\<rparr>, 0, 0));
                (f, left, right) = segacd_fader_tick (fader s) left right
            in (s\<lparr>fader := f, delivered_frames := delivered_frames s + 1\<rparr>,
                sink \<lparr>subclock = at, f_left = left, f_right = right\<rparr> m, emitted + 1))"

definition ticks_needed :: "SegaCDCdda \<Rightarrow> u64" where
  "ticks_needed s = (CDDA_CLOCK - cd_phase s + CDDA_RATE - 1) div CDDA_RATE"

lemma emit_tick_time:
  "clock_now (fst (emit_tick sink at st)) = clock_now (fst st)" "cd_phase (fst (emit_tick sink at st)) = cd_phase (fst st)"
  by (simp_all add: emit_tick_def next_sector_def Let_def split: prod.splits)

lemma no_need_decreases:
  assumes "ticks_needed s = 0"
  shows "unat (cd_phase s - CDDA_CLOCK) < unat (cd_phase s)"
proof -
  define x where "x = CDDA_CLOCK - cd_phase s + CDDA_RATE - 1"
  have "x div 44100 = 0" using assms by (simp add: ticks_needed_def x_def CDDA_RATE_def)
  then have "unat (x div 44100) = 0" by simp
  then have "unat x div 44100 = 0" by (simp add: unat_div_distrib)
  then have x: "unat x < 44100" by simp
  have p: "cd_phase s = 12544099 - x" by (simp add: x_def CDDA_CLOCK_def CDDA_RATE_def)
  have "x \<le> 12544099" "x \<le> 44099" using x by (simp_all add: word_le_nat_alt)
  then have "unat (12544099 - x) = 12544099 - unat x" "unat (44099 - x) = 44099 - unat x" by (simp_all add: unat_sub)
  then show ?thesis using x assms p by (simp add: CDDA_CLOCK_def)
qed

lemma need_zero:
  assumes "ticks_needed s \<le> target - clock_now s" "unat (target - clock_now s) \<le> unat (target - (clock_now s + ticks_needed s))"
  shows "ticks_needed s = 0"
proof -
  have "target - (clock_now s + ticks_needed s) = target - clock_now s - ticks_needed s" by simp
  then have "unat (target - (clock_now s + ticks_needed s)) = unat (target - clock_now s) - unat (ticks_needed s)"
    using assms(1) by (simp only: unat_sub)
  moreover have "unat (ticks_needed s) \<le> unat (target - clock_now s)" using assms(1) by (simp only: word_le_nat_alt)
  ultimately show ?thesis using assms(2) by (simp add: unat_eq_0 [symmetric])
qed

function advance_loop :: "(SegaCDAudioFrame \<Rightarrow> 'm \<Rightarrow> 'm) \<Rightarrow> u64 \<Rightarrow> SegaCDCdda \<Rightarrow> 'm \<Rightarrow> u64 \<Rightarrow> bool \<Rightarrow> SegaCDCdda \<times> 'm \<times> u64 \<times> bool" where
  "advance_loop sink target s m emitted underflow =
    (if clock_now s < target
     then let need = ticks_needed s; remaining = target - clock_now s
          in if need > remaining
             then (s\<lparr>cd_phase := cd_phase s + remaining * CDDA_RATE, clock_now := target\<rparr>, m, emitted, underflow)
             else let s1 = s\<lparr>clock_now := clock_now s + need, cd_phase := cd_phase s + need * CDDA_RATE - CDDA_CLOCK\<rparr>;
                      st = emit_tick sink (clock_now s1) (s1, m, emitted)
                  in advance_loop sink target (fst st) (fst (snd st)) (snd (snd st))
                       (underflow \<or> underflow_frames (fst st) \<noteq> underflow_frames s1)
     else (s, m, emitted, underflow))"
  by pat_completeness auto
termination
  by (relation "measures [\<lambda>(sink, target, s, m, e, u). unat (target - clock_now s), \<lambda>(sink, target, s, m, e, u). unat (cd_phase s)]")
    (auto simp: emit_tick_time not_less no_need_decreases dest!: need_zero)

declare advance_loop.simps [simp del]

definition segacd_cdda_advance_to ::
  "(SegaCDAudioFrame \<Rightarrow> 'm \<Rightarrow> 'm) \<Rightarrow> u64 \<Rightarrow> SegaCDCdda \<times> 'm \<Rightarrow> cdda_result \<times> u64 \<times> SegaCDCdda \<times> 'm" where
  "segacd_cdda_advance_to sink target sm =
    (let (s, m) = sm
     in if target < clock_now s then (CDDA_INVALID, 0, s, m)
        else if unsupported s then (CDDA_UNSUPPORTED, 0, s, m)
        else let (s, m, emitted, underflow) = advance_loop sink target s m 0 False
             in (if underflow then CDDA_UNDERFLOW else CDDA_OK, emitted, s, m))"

section \<open>In chunks\<close>

definition owned_scale :: "i16 \<Rightarrow> int \<Rightarrow> nat \<Rightarrow> i16" where
  "owned_scale sample numerator shift =
    (if numerator = 0 then 0
     else if numerator = 2 ^ shift then sample
     else let product = sint sample * numerator; magnitude = \<bar>product\<bar>;
              v = (magnitude + 2 ^ (shift - 1)) div 2 ^ shift
          in clamp_s16 (if product < 0 then - v else v))"

definition gain_numerator :: "u16 \<Rightarrow> int" where
  "gain_numerator field = (if field < 4 then uint field else uint (drop_bit 2 field))"

definition gain_shift :: "u16 \<Rightarrow> nat" where
  "gain_shift field = (if field < 4 then 10 else 8)"

definition advance_field :: "nat \<Rightarrow> u16 \<Rightarrow> u16 \<Rightarrow> u16" where
  "advance_field n field target =
    (if field < target then let distance = unat (target - field) in field + of_nat (if n < distance then n else distance)
     else if field > target then let distance = unat (field - target) in field - of_nat (if n < distance then n else distance)
     else field)"

definition set_field :: "u16 \<Rightarrow> SegaCDCdda \<Rightarrow> SegaCDCdda" where
  "set_field field s = s\<lparr>fader := (fader s)\<lparr>current_field := field\<rparr>\<rparr>"

definition next_position :: "nat \<times> nat \<Rightarrow> nat \<times> nat" where
  "next_position hf = (if snd hf + 1 = SECTOR_FRAMES then ((fst hf + 1) mod FIFO_SECTORS, 0) else (fst hf, snd hf + 1))"

primrec same_frames :: "nat \<Rightarrow> SegaCDCdda \<Rightarrow> nat \<times> nat \<Rightarrow> i16 \<times> i16 \<Rightarrow> bool" where
  "same_frames 0 s hf lr = True"
| "same_frames (Suc n) s hf lr =
    (let hf = next_position hf in if fifo s (fst hf) (snd hf) \<noteq> lr then False else same_frames n s hf lr)"

text \<open>The sample that every frame of the stretch would have, when there is one.\<close>

definition constant_input :: "SegaCDCdda \<Rightarrow> nat \<Rightarrow> (i16 \<times> i16) option" where
  "constant_input s emitted =
    (let field = current_field (fader s); target = target_field (fader s)
     in if \<not> has_data s \<or> field = 0 \<and> target = 0 then Some (0, 0)
        else let (left, right) = fifo s (fifo_head s) (fifo_frame s)
             in if (field = target \<or> left = 0 \<and> right = 0) \<and> same_frames (emitted - 1) s (fifo_head s, fifo_frame s) (left, right)
                then Some (owned_scale left (gain_numerator field) (gain_shift field), owned_scale right (gain_numerator field) (gain_shift field))
                else None)"

definition move_frames :: "nat \<Rightarrow> SegaCDCdda \<Rightarrow> SegaCDCdda" where
  "move_frames n s =
    (let s = s\<lparr>fifo_frame := fifo_frame s + n\<rparr> in if fifo_frame s = SECTOR_FRAMES then next_sector s else s)"

text \<open>Loops over chunks, with a bound on their number: a chunk has at least one frame.\<close>

primrec skip_frames :: "nat \<Rightarrow> nat \<Rightarrow> SegaCDCdda \<Rightarrow> SegaCDCdda" where
  "skip_frames 0 remaining s = s"
| "skip_frames (Suc bound) remaining s =
    (if remaining = 0 then s
     else let room = SECTOR_FRAMES - fifo_frame s; chunk = (if remaining < room then remaining else room)
          in skip_frames bound (remaining - chunk) (move_frames chunk s))"

definition plateau :: "u16 \<Rightarrow> u16 \<Rightarrow> nat" where
  "plateau field target = (if field < 4 then 1 else if field < target then 4 - unat (field AND 3) else unat (field AND 3) + 1)"

definition chunk_size :: "SegaCDCdda \<Rightarrow> nat \<Rightarrow> nat" where
  "chunk_size s rest =
    (if has_data s
     then let field = current_field (fader s); target = target_field (fader s); room = SECTOR_FRAMES - fifo_frame s;
              n = (if rest > room then room else rest)
          in if field \<noteq> target
             then let distance = unat (if field < target then target - field else field - target)
                  in if distance \<ge> plateau field target \<and> n > plateau field target then plateau field target else n
             else n
     else rest)"

definition stamp_step :: "u64 \<times> u32 \<Rightarrow> u64 \<times> u32" where
  "stamp_step sp =
    (if snd sp < 19700 then (fst sp + 284, snd sp + (44100 - 19700)) else (fst sp + 283, snd sp - 19700))"

definition chunk_frame :: "SegaCDCdda \<Rightarrow> u64 \<Rightarrow> nat \<Rightarrow> SegaCDAudioFrame" where
  "chunk_frame s stamp i =
    (let field = current_field (fader s); (l, r) = fifo s (fifo_head s) (fifo_frame s + i);
         scale = (\<lambda>x. if has_data s then owned_scale x (gain_numerator field) (gain_shift field) else 0)
     in \<lparr>subclock = stamp, f_left = scale l, f_right = scale r\<rparr>)"

definition write_chunk ::
  "'m SegaCDAudioOwnedSink \<Rightarrow> SegaCDAudioWriteGrant \<Rightarrow> nat \<Rightarrow> SegaCDCdda \<Rightarrow> nat \<Rightarrow> (u64 \<times> u32) \<times> 'm \<Rightarrow> (u64 \<times> u32) \<times> 'm" where
  "write_chunk owned g done s i st =
    (stamp_step (fst st), o_write owned g (done + i) (chunk_frame s (fst (fst st)) i) (snd st))"

definition finish_chunk :: "nat \<Rightarrow> SegaCDCdda \<Rightarrow> SegaCDCdda" where
  "finish_chunk n s =
    (let s = set_field (advance_field n (current_field (fader s)) (target_field (fader s))) s
     in if has_data s then move_frames n s else s)"

primrec write_chunks ::
  "nat \<Rightarrow> 'm SegaCDAudioOwnedSink \<Rightarrow> SegaCDAudioWriteGrant \<Rightarrow> nat \<Rightarrow> nat \<Rightarrow> SegaCDCdda \<Rightarrow> (u64 \<times> u32) \<times> 'm \<Rightarrow> SegaCDCdda \<times> 'm" where
  "write_chunks 0 owned g emitted done s st = (s, snd st)"
| "write_chunks (Suc bound) owned g emitted done s st =
    (if done < emitted
     then let n = chunk_size s (emitted - done)
          in write_chunks bound owned g emitted (done + n) (finish_chunk n s) (fold (write_chunk owned g done s) [0..<n] st)
     else (s, snd st))"

definition finish_owned :: "u64 \<Rightarrow> u64 \<Rightarrow> u64 \<Rightarrow> u64 \<Rightarrow> bool \<Rightarrow> SegaCDCdda \<Rightarrow> SegaCDCdda" where
  "finish_owned target tot due emitted data s =
    (let s = s\<lparr>clock_now := target, cd_phase := tot mod CDDA_CLOCK, total_sample_ticks := total_sample_ticks s + due,
           delivered_frames := delivered_frames s + emitted\<rparr>;
         s = (if \<not> data then s\<lparr>silence_frames := silence_frames s + due\<rparr> else s)
     in if due > emitted
        then s\<lparr>underflow_frames := underflow_frames s + (due - emitted), status := status s OR STATUS_UNDERFLOW\<rparr> else s)"

definition owned_refused :: "u64 \<Rightarrow> SegaCDCdda \<Rightarrow> bool" where
  "owned_refused target s \<longleftrightarrow> target < clock_now s \<or> cd_phase s \<ge> CDDA_CLOCK \<or> unsupported s \<or> fifo_count s > FIFO_SECTORS
     \<or> fifo_head s \<ge> FIFO_SECTORS \<or> fifo_frame s \<ge> SECTOR_FRAMES \<or> target - clock_now s > (- 1 - cd_phase s) div CDDA_RATE"

definition first_need :: "SegaCDCdda \<Rightarrow> u64" where
  "first_need s = (CDDA_CLOCK - cd_phase s + CDDA_RATE - 1) div CDDA_RATE"

definition owned_run :: "SegaCDCdda \<Rightarrow> i16 \<times> i16 \<Rightarrow> SegaCDAudioConstant" where
  "owned_run s lr = \<lparr>c_first = clock_now s + first_need s,
     c_phase = 44100 - 1 - ucast (cd_phase s + first_need s * CDDA_RATE - CDDA_CLOCK),
     c_step = 12500000, c_den = 44100, c_left = fst lr, c_right = snd lr\<rparr>"

definition owned_result :: "u64 \<Rightarrow> u64 \<Rightarrow> cdda_result" where
  "owned_result due emitted = (if due > emitted then CDDA_UNDERFLOW else CDDA_OK)"

definition cdda_constant ::
  "'m SegaCDAudioOwnedSink \<Rightarrow> nat \<Rightarrow> SegaCDCdda \<Rightarrow> 'm \<Rightarrow> (SegaCDCdda \<times> SegaCDAudioWriteGrant) option" where
  "cdda_constant owned emitted s m =
    (case (o_begin_constant owned, constant_input s emitted) of
       (Some begin_constant, Some lr) \<Rightarrow>
         (case begin_constant m (owned_run s lr) emitted of
            Some g \<Rightarrow>
              if g_constant g \<noteq> None \<and> g_count g = emitted
              then let s1 = set_field (advance_field emitted (current_field (fader s)) (target_field (fader s))) s
                   in Some (if has_data s then skip_frames emitted emitted s1 else s1, g)
              else None
          | None \<Rightarrow> None)
     | _ \<Rightarrow> None)"

definition segacd_cdda_advance_owned ::
  "(SegaCDAudioFrame \<Rightarrow> 'm \<Rightarrow> 'm) \<Rightarrow> 'm SegaCDAudioOwnedSink option \<Rightarrow> u64 \<Rightarrow> SegaCDCdda \<times> 'm \<Rightarrow> cdda_result \<times> u64 \<times> SegaCDCdda \<times> 'm" where
  "segacd_cdda_advance_owned sink owned target sm =
    (let (s, m) = sm; plain = segacd_cdda_advance_to sink target sm
     in case owned of None \<Rightarrow> plain
        | Some owned \<Rightarrow>
            if owned_refused target s then plain
            else
              let tot = cd_phase s + (target - clock_now s) * CDDA_RATE; due = tot div CDDA_CLOCK; data = has_data s;
                  available = (if fifo_count s \<noteq> 0 then of_nat (fifo_count s) * of_nat SECTOR_FRAMES - of_nat (fifo_frame s) else 0);
                  emitted = (if data \<and> due > available then available else due)
              in if emitted = 0 \<or> emitted > 0xFFFFFFFF then plain
                 else
                   let first = clock_now s + first_need s;
                       fin = clock_now s + (emitted * CDDA_CLOCK - cd_phase s + CDDA_RATE - 1) div CDDA_RATE;
                       first_phase = ucast (cd_phase s + first_need s * CDDA_RATE - CDDA_CLOCK) :: u32
                   in case cdda_constant owned (unat emitted) s m of
                        Some (s1, g) \<Rightarrow>
                          (owned_result due emitted, emitted, finish_owned target tot due emitted data s1, o_commit owned g m)
                      | None \<Rightarrow>
                          (case o_begin owned m first fin (unat emitted) of
                             None \<Rightarrow> plain
                           | Some g \<Rightarrow>
                               if g_count g \<noteq> unat emitted then plain
                               else
                                 let (s1, m) = write_chunks (unat emitted) owned g (unat emitted) 0 s ((first, first_phase), m)
                                 in (owned_result due emitted, emitted, finish_owned target tot due emitted data s1, o_commit owned g m)))"

text \<open>The sink that \<^verbatim>\<open>segacd_native_audio_attach_io\<close> binds to the stream.\<close>

definition cdda_owned_sink :: "SegaCDNativeAudio SegaCDAudioOwnedSink" where
  "cdda_owned_sink = \<lparr>o_begin = begin_cdda_span, o_commit = commit_source_span, o_write = write_span, o_begin_constant = Some begin_cdda_constant\<rparr>"

end
