(* ===== verification/Cd_Pcm_Props.thy ===== *)
theory Cd_Pcm_Props
  imports Cd_Pcm
begin

text \<open>
  The optimised path of the PCM chip against its sample-by-sample path, over any owned sink: same chip,
  same view of the sink, for every sequence of register writes and advances. And the timed path does not
  depend on how the time is cut into calls.
\<close>

section \<open>Voices\<close>

lemma mix_voices_channels:
  "mix_voices mem (voices_of k cs) l r = (case mix_channels mem cs l r of (cs', l', r') \<Rightarrow> (voices_of k cs', l', r'))"
  by (induction cs arbitrary: k l r)
    (auto simp: Let_def voice_of_def loop_address_def step_size_def left_scale_def right_scale_def split: prod.splits if_splits option.splits)

text \<open>Channels that differ at most in the address, and only where they are on.\<close>

definition retuned :: "Rf5c164Channel \<Rightarrow> Rf5c164Channel \<Rightarrow> bool" where
  "retuned c c' \<longleftrightarrow> c' = c\<lparr>address := address c'\<rparr> \<and> (ch_on c \<or> c' = c)"

lemma retuned_refl [simp]: "retuned c c"
  by (simp add: retuned_def)

lemma retuned_all_refl [simp]: "list_all2 retuned cs cs"
  by (simp add: list.rel_refl)

lemma retuned_trans: "retuned a b \<Longrightarrow> retuned b c \<Longrightarrow> retuned a c"
  by (cases a; cases b; cases c) (auto simp: retuned_def)

lemma retuned_all_trans: "list_all2 retuned as bs \<Longrightarrow> list_all2 retuned bs cs \<Longrightarrow> list_all2 retuned as cs"
  by (rule list_all2_trans [of retuned retuned retuned]) (auto intro: retuned_trans)

lemma mix_channels_retuned: "list_all2 retuned cs (fst (mix_channels mem cs l r))"
  by (induction cs arbitrary: l r) (auto simp: Let_def retuned_def case_prod_unfold split: if_splits option.splits)

lemma write_back_append:
  "list_all2 retuned cs cs' \<Longrightarrow> write_back (voices_of (length pre) cs') (pre @ cs) = pre @ cs'"
proof (induction cs cs' arbitrary: pre rule: list_all2_induct)
  case (Cons c cs c' cs')
  have on: "ch_on c' = ch_on c" using Cons.hyps(1) by (cases c; cases c') (auto simp: retuned_def)
  show ?case
  proof (cases "ch_on c")
    case True
    have "write_back (voices_of (length pre) (c' # cs')) (pre @ c # cs) = write_back (voices_of (length (pre @ [c'])) cs') ((pre @ [c']) @ cs)"
      using True on Cons.hyps(1) by (simp add: write_back_def voice_of_def retuned_def)
    then show ?thesis using Cons.IH [of "pre @ [c']"] by simp
  next
    case False
    then have "c' = c" using Cons.hyps(1) by (simp add: retuned_def)
    then show ?thesis using Cons.IH [of "pre @ [c]"] False on by simp
  qed
qed (simp add: write_back_def)

lemmas write_back_voices = write_back_append [where pre = "[]", simplified]

section \<open>Standing voices\<close>

definition pcm_ok :: "Rf5c164 \<Rightarrow> bool" where
  "pcm_ok p \<longleftrightarrow> length (channel p) = 8 \<and> selected p < 8 \<and> (\<forall>c \<in> set (channel p). address c AND 0x7FFFFFF = address c)"

definition tuned :: "Voice \<Rightarrow> bool" where
  "tuned v \<longleftrightarrow> v_address v AND 0x7FFFFFF = v_address v \<and> v_loop v AND 0x7FFFFFF = v_loop v"

lemma address_mask: "x AND 0x7FFFFFF = take_bit 27 x" for x :: u32
  by (simp add: take_bit_eq_mask mask_eq_exp_minus_1)

lemma loop_address_tuned [simp]: "loop_address c AND 0x7FFFFFF = loop_address c"
  unfolding address_mask
  by (rule bit_word_eqI) (auto simp: loop_address_def bit_simps dest: bit_imp_le_length)

lemma start_address_tuned [simp]: "start_address v AND 0x7FFFFFF = start_address v"
  unfolding address_mask
  by (rule bit_word_eqI) (auto simp: start_address_def bit_simps dest: bit_imp_le_length)

lemma stepped_tuned [simp]: "(x AND 0x7FFFFFF) AND 0x7FFFFFF = x AND 0x7FFFFFF" for x :: u32
  by (simp add: and.assoc)

lemma voices_tuned: "\<forall>c \<in> set cs. address c AND 0x7FFFFFF = address c \<Longrightarrow> list_all tuned (voices_of k cs)"
  by (induction cs arbitrary: k) (auto simp: tuned_def voice_of_def)

text \<open>A constant stretch is what mixing gives, the first time and every time after.\<close>

lemma constant_voices_mix:
  "constant_voices mem vs l r = Some (vs', l', r') \<Longrightarrow> list_all tuned vs \<Longrightarrow>
    mix_voices mem vs l r = (vs', l', r') \<and> mix_voices mem vs' l r = (vs', l', r')"
proof (induction vs arbitrary: vs' l r)
  case (Cons v vs)
  then show ?case
    by (auto simp: Let_def tuned_def split: prod.splits if_splits)
qed simp

section \<open>The invariant\<close>

lemma mix_channels_tuned:
  "\<forall>c \<in> set cs. address c AND 0x7FFFFFF = address c \<Longrightarrow>
    \<forall>c \<in> set (fst (mix_channels mem cs l r)). address c AND 0x7FFFFFF = address c"
  by (induction cs arbitrary: l r) (auto simp: Let_def case_prod_unfold split: if_splits option.splits)

lemma mix_channels_length [simp]: "length (fst (mix_channels mem cs l r)) = length cs"
  by (induction cs arbitrary: l r) (auto simp: Let_def case_prod_unfold split: if_splits option.splits)

lemma pcm_ok_sample: "pcm_ok p \<Longrightarrow> pcm_ok (rf5c164_sample p)"
  using mix_channels_tuned [of "channel p" "wave p" 0 0] by (auto simp: pcm_ok_def rf5c164_sample_def Let_def case_prod_unfold)

lemma pcm_ok_timed: "pcm_ok (fst pm) \<Longrightarrow> pcm_ok (fst (rf5c164_advance_timed sink start clocks pm))"
proof -
  have loop: "pcm_ok (fst st) \<Longrightarrow> pcm_ok (fst (fold (timed_step sink origin) ns st))" for ns origin st
    by (induction ns arbitrary: st) (simp_all add: timed_step_def Let_def pcm_ok_sample)
  assume "pcm_ok (fst pm)"
  then have "pcm_ok ((fst pm)\<lparr>phase := ucast (clock_total (fst pm) clocks mod 384)\<rparr>)" by (simp add: pcm_ok_def)
  then show ?thesis unfolding rf5c164_advance_timed_def Let_def by (intro loop) simp
qed

lemma pcm_ok_write_register:
  assumes ok: "pcm_ok p"
  shows "pcm_ok (write_register p a v)"
proof -
  let ?n = "unat (selected p)" and ?c = "channel p ! unat (selected p)"
  have c: "address ?c AND 0x7FFFFFF = address ?c" using ok by (auto simp: pcm_ok_def word_less_nat_alt)
  have up: "pcm_ok (p\<lparr>channel := (channel p)[?n := c]\<rparr>)" if "address c AND 0x7FFFFFF = address c" for c
    using ok that set_update_subset_insert [of "channel p" ?n c] by (auto simp: pcm_ok_def)
  have sel: "v AND 7 < 8" for v :: u8
    using word_and_le1 [of v 7] by (simp add: word_le_nat_alt word_less_nat_alt)
  have sw: "pcm_ok (p\<lparr>disabled := v, channel := map (\<lambda>(n, c). set_switch v n c) (enumerate 0 (channel p))\<rparr>)"
    using ok by (auto simp: pcm_ok_def set_switch_def Let_def in_set_enumerate_eq)
  have ctl: "pcm_ok (p\<lparr>selected := v AND 7, enabled := b\<rparr>)" "pcm_ok (p\<lparr>bank := x, enabled := b\<rparr>)" for x b
    using ok sel by (auto simp: pcm_ok_def)
  show ?thesis
    unfolding write_register_def Let_def by (simp add: up c sw ctl ok)
qed

lemma pcm_ok_write: "pcm_ok p \<Longrightarrow> pcm_ok (rf5c164_write a v p)"
  using pcm_ok_write_register [of p] by (simp add: rf5c164_write_def Let_def) (simp add: pcm_ok_def)

section \<open>The two ways to advance\<close>

text \<open>The samples of a stretch, as frames: what both paths hand to the sink.\<close>

definition sample_frame :: "u64 \<Rightarrow> Rf5c164 \<Rightarrow> nat \<Rightarrow> SegaCDAudioFrame" where
  "sample_frame origin p i = (let q = (rf5c164_sample ^^ Suc i) p
     in \<lparr>subclock = origin + of_nat i * 384, f_left = p_left q, f_right = p_right q\<rparr>)"

definition sample_frames :: "u64 \<Rightarrow> nat \<Rightarrow> Rf5c164 \<Rightarrow> SegaCDAudioFrame list" where
  "sample_frames origin n p = map (sample_frame origin p) [0..<n]"

lemma timed_fold:
  "fold (timed_step sink origin) [0..<n] (p, m) = ((rf5c164_sample ^^ n) p, fold sink (sample_frames origin n p) m)"
  by (induction n) (simp_all add: timed_step_def sample_frames_def sample_frame_def Let_def)

text \<open>The chip after \<open>n\<close> samples, through its voices.\<close>

definition live_voices :: "Rf5c164 \<Rightarrow> Voice list" where
  "live_voices p = (if enabled p then voices_of 0 (channel p) else [])"

lemma sample_voices:
  "mix_voices (wave p) (live_voices p) 0 0 = (vs, l, r) \<Longrightarrow>
    live_voices (rf5c164_sample p) = vs \<and> p_left (rf5c164_sample p) = saturate l \<and> p_right (rf5c164_sample p) = saturate r"
  by (auto simp: live_voices_def mix_voices_channels rf5c164_sample_def split: prod.splits)

lemma sample_same [simp]:
  "wave (rf5c164_sample p) = wave p" "enabled (rf5c164_sample p) = enabled p" "samples (rf5c164_sample p) = samples p + 1"
  "selected (rf5c164_sample p) = selected p" "bank (rf5c164_sample p) = bank p" "disabled (rf5c164_sample p) = disabled p"
  "phase (rf5c164_sample p) = phase p"
  by (simp_all add: rf5c164_sample_def Let_def case_prod_unfold)

lemma sample_retuned: "list_all2 retuned (channel p) (channel (rf5c164_sample p))"
  using mix_channels_retuned [of "channel p" "wave p" 0 0] by (simp add: rf5c164_sample_def Let_def case_prod_unfold)

lemma samples_same [simp]:
  "wave ((rf5c164_sample ^^ n) p) = wave p" "enabled ((rf5c164_sample ^^ n) p) = enabled p"
  "samples ((rf5c164_sample ^^ n) p) = samples p + of_nat n"
  "selected ((rf5c164_sample ^^ n) p) = selected p" "bank ((rf5c164_sample ^^ n) p) = bank p"
  "disabled ((rf5c164_sample ^^ n) p) = disabled p" "phase ((rf5c164_sample ^^ n) p) = phase p"
  by (induction n) simp_all

lemma samples_rest: "(rf5c164_sample ^^ n) p =
    p\<lparr>channel := channel ((rf5c164_sample ^^ n) p), p_left := p_left ((rf5c164_sample ^^ n) p), p_right := p_right ((rf5c164_sample ^^ n) p),
      samples := samples p + of_nat n\<rparr>"
  by (rule Rf5c164.equality) simp_all

lemma samples_retuned: "list_all2 retuned (channel p) (channel ((rf5c164_sample ^^ n) p))"
  by (induction n) (auto intro: retuned_all_trans sample_retuned)

text \<open>Writing the voices back gives the channels of the chip.\<close>

lemma samples_write_back: "write_back (live_voices ((rf5c164_sample ^^ n) p)) (channel p) = channel ((rf5c164_sample ^^ n) p)"
proof (cases "enabled p")
  case True
  then show ?thesis using write_back_voices [OF samples_retuned [of p n]] by (simp add: live_voices_def)
next
  case False
  have "channel ((rf5c164_sample ^^ n) p) = channel p" using False by (induction n) (simp_all add: rf5c164_sample_def)
  then show ?thesis using False by (simp add: live_voices_def write_back_def)
qed

lemma owned_fold:
  "fold (owned_step owned g (wave p) first) [0..<n] (live_voices p, l, r, m) =
    (live_voices ((rf5c164_sample ^^ n) p), if n = 0 then l else p_left ((rf5c164_sample ^^ n) p), if n = 0 then r else p_right ((rf5c164_sample ^^ n) p),
     fold (\<lambda>i. o_write owned g i (sample_frame first p i)) [0..<n] m)"
proof (induction n)
  case (Suc n)
  obtain vs x y where m: "mix_voices (wave p) (live_voices ((rf5c164_sample ^^ n) p)) 0 0 = (vs, x, y)" by (metis prod_cases3)
  then have "mix_voices (wave ((rf5c164_sample ^^ n) p)) (live_voices ((rf5c164_sample ^^ n) p)) 0 0 = (vs, x, y)" by simp
  note v = sample_voices [OF this]
  show ?case by (simp add: Suc owned_step_def [of _ _ _ _ n] m v sample_frame_def [of _ _ n] Let_def)
qed simp

lemma constant_samples:
  assumes c: "constant_voices (wave p) (live_voices p) 0 0 = Some (vs, l, r)" and ok: "pcm_ok p"
  shows "live_voices ((rf5c164_sample ^^ Suc n) p) = vs" "p_left ((rf5c164_sample ^^ Suc n) p) = saturate l"
    "p_right ((rf5c164_sample ^^ Suc n) p) = saturate r"
proof -
  have "list_all tuned (live_voices p)" using ok by (auto simp: live_voices_def pcm_ok_def intro: voices_tuned)
  note m = constant_voices_mix [OF c this]
  have "live_voices ((rf5c164_sample ^^ Suc n) p) = vs \<and> p_left ((rf5c164_sample ^^ Suc n) p) = saturate l \<and>
    p_right ((rf5c164_sample ^^ Suc n) p) = saturate r"
  proof (induction n)
    case 0
    then show ?case using sample_voices m by simp
  next
    case (Suc n)
    then show ?case using sample_voices [of "(rf5c164_sample ^^ Suc n) p" vs l r] m by simp
  qed
  then show "live_voices ((rf5c164_sample ^^ Suc n) p) = vs" "p_left ((rf5c164_sample ^^ Suc n) p) = saturate l"
    "p_right ((rf5c164_sample ^^ Suc n) p) = saturate r" by simp_all
qed

lemma constant_frames_run:
  assumes c: "constant_voices (wave p) (live_voices p) 0 0 = Some (vs, l, r)" and ok: "pcm_ok p"
  shows "sample_frames first n p =
    map (run_frame \<lparr>c_first = first, c_phase = 0, c_step = 384, c_den = 1, c_left = saturate l, c_right = saturate r\<rparr>) [0..<n]"
  using constant_samples(2,3) [OF assms]
  by (simp add: sample_frames_def sample_frame_def run_frame_def constant_stamp_def run_ticks_def Let_def)

lemma stamps_increase:
  assumes "n < 2 ^ 32" "first \<le> first + of_nat (n - 1) * 384"
  shows "sorted_wrt (\<lambda>f g. subclock f < subclock g) (sample_frames first n p)"
proof -
  have x: "unat (of_nat i * 384 :: u64) = i * 384" if "i \<le> n - 1" for i
    using unat_u64 [of "i * 384"] that assms(1) by simp
  have "unat first + (n - 1) * 384 < 2 ^ 64"
    using assms(2) x [of "n - 1"] by (simp add: no_olen_add_nat)
  then have u: "unat (first + of_nat i * 384) = unat first + i * 384" if "i \<le> n - 1" for i
    using that x [OF that] mult_right_mono [OF that, of 384] by (subst unat_plus_simple [THEN iffD1]) (simp_all add: no_olen_add_nat)
  show ?thesis
    unfolding sorted_wrt_iff_nth_less sample_frames_def sample_frame_def Let_def
    by (auto simp: word_less_nat_alt u)
qed

text \<open>What the optimised path does, case by case.\<close>

lemma owned_cases:
  assumes n: "n = sample_count p clocks" and first: "first = start + 384 - ucast (phase p)"
    and p': "p' = p\<lparr>phase := ucast (clock_total p clocks mod 384)\<rparr>"
  obtains (timed) "rf5c164_advance_owned sink (Some owned) start clocks (p, m) = rf5c164_advance_timed sink start clocks (p, m)"
  | (run) br vs l r g where "phase p < 384" "n \<noteq> 0" "o_begin_constant owned = Some br" "constant_voices (wave p) (live_voices p) 0 0 = Some (vs, l, r)"
      "br m \<lparr>c_first = first, c_phase = 0, c_step = 384, c_den = 1, c_left = saturate l, c_right = saturate r\<rparr> (unat n) = Some g"
      "rf5c164_advance_owned sink (Some owned) start clocks (p, m) =
        (p'\<lparr>channel := write_back vs (channel p), p_left := saturate l, p_right := saturate r, samples := samples p + ucast n\<rparr>, o_commit owned g m)"
  | (span) g where "phase p < 384" "n \<noteq> 0" "o_begin owned m first (first + ucast (n - 1) * 384) (unat n) = Some g"
      "rf5c164_advance_owned sink (Some owned) start clocks (p, m) =
        (let (vs, l, r, m) = fold (owned_step owned g (wave p) first) [0..<unat n] (live_voices p, 0, 0, m)
         in (p'\<lparr>channel := write_back vs (channel p), p_left := l, p_right := r, samples := samples p + ucast n\<rparr>, o_commit owned g m))"
proof (cases "phase p \<ge> 384 \<or> n = 0")
  case True
  then show ?thesis using timed by (simp add: rf5c164_advance_owned_def Let_def n)
next
  case False
  let ?go = "rf5c164_advance_owned sink (Some owned) start clocks (p, m)"
  let ?timed = "rf5c164_advance_timed sink start clocks (p, m)"
  have go: "?go = (case owned_constant owned first n (live_voices p) (p', m) of Some pm \<Rightarrow> pm
      | None \<Rightarrow> (case o_begin owned m first (first + ucast (n - 1) * 384) (unat n) of
          None \<Rightarrow> ?timed
        | Some g \<Rightarrow> if g_count g \<noteq> unat n then ?timed
            else let (vs, l, r, m) = fold (owned_step owned g (wave p) first) [0..<unat n] (live_voices p, 0, 0, m)
              in (p'\<lparr>channel := write_back vs (channel p'), p_left := l, p_right := r, samples := samples p' + ucast n\<rparr>, o_commit owned g m)))"
    using False by (simp only: rf5c164_advance_owned_def Let_def n first p' live_voices_def fst_conv snd_conv option.case if_False)
  have f: "wave p' = wave p" "channel p' = channel p" "samples p' = samples p" by (simp_all add: p')
  show ?thesis
  proof (cases "owned_constant owned first n (live_voices p) (p', m)")
    case (Some pm)
    then obtain br vs l r g where "o_begin_constant owned = Some br" "constant_voices (wave p) (live_voices p) 0 0 = Some (vs, l, r)"
      "br m \<lparr>c_first = first, c_phase = 0, c_step = 384, c_den = 1, c_left = saturate l, c_right = saturate r\<rparr> (unat n) = Some g"
      "pm = (p'\<lparr>channel := write_back vs (channel p), p_left := saturate l, p_right := saturate r, samples := samples p + ucast n\<rparr>, o_commit owned g m)"
      by (auto simp: owned_constant_def Let_def f split: option.splits if_splits prod.splits)
    then show ?thesis using run False Some go by (simp add: not_le)
  next
    case None
    then show ?thesis
      using timed span False go f by (cases "o_begin owned m first (first + ucast (n - 1) * 384) (unat n)") (auto simp: not_le split: if_splits)
  qed
qed

lemma unat_ucast_u16: "unat (ucast x :: u32) = unat x" "unat (ucast x :: u64) = unat x" for x :: u16
  using unsigned_less [where 'a = nat, of x] by (simp_all add: unsigned_ucast_eq take_bit_nat_eq_self)

lemma unat_ucast_u32: "unat (ucast x :: u64) = unat x" for x :: u32
  using word32_bound [of x] by (simp add: unsigned_ucast_eq take_bit_nat_eq_self)

lemma first_stamp: "phase p < 384 \<Longrightarrow> start + ucast (384 - ucast (phase p) :: u32) = start + 384 - ucast (phase p)" for start :: u64
proof -
  assume "phase p < 384"
  then have l: "(ucast (phase p) :: u32) \<le> 384" "(ucast (phase p) :: u64) \<le> 384" by (simp_all add: word_le_nat_alt word_less_nat_alt unat_ucast_u16)
  have "(ucast (384 - ucast (phase p) :: u32) :: u64) = 384 - ucast (phase p)"
    by (rule word_unat_eq_iff [THEN iffD2]) (simp add: unat_sub [OF l(1)] unat_sub [OF l(2)] unat_ucast_u16 unat_ucast_u32)
  then show ?thesis by (simp add: algebra_simps)
qed

lemma timed_frames:
  "rf5c164_advance_timed sink start clocks (p, m) =
    (let n = unat (sample_count p clocks); q = p\<lparr>phase := ucast (clock_total p clocks mod 384)\<rparr>
     in ((rf5c164_sample ^^ n) q, fold sink (sample_frames (start + ucast (384 - ucast (phase p) :: u32)) n q) m))"
  by (simp add: rf5c164_advance_timed_def Let_def timed_fold)

context owned_sink
begin

lemma span_frames:
  fixes p :: Rf5c164 and n :: u32
  assumes m: "ok m" and n: "n \<noteq> 0" and g: "begin_span m first (first + ucast (n - 1) * 384) (unat n) = Some g"
  defines "m' \<equiv> commit g (fold (\<lambda>i. put g i (sample_frame first p i)) [0..<unat n] m)"
  shows "ok m'" "view m' = view (fold legacy (sample_frames first (unat n) p) m)"
proof -
  let ?fs = "sample_frames first (unat n) p"
  have "unat (n - 1) = unat n - 1" using n by (simp add: unat_minus_one)
  then have "(ucast (n - 1) :: u64) = of_nat (unat n - 1)" by (metis of_nat_unat)
  then have fin: "first + ucast (n - 1) * 384 = first + of_nat (unat n - 1) * 384" by simp
  have len: "length ?fs = unat n" by (simp add: sample_frames_def)
  have ne: "?fs \<noteq> []" using n len by (metis length_0_conv unat_eq_0)
  have f: "fold (\<lambda>i. put g i (sample_frame first p i)) [0..<unat n] m = fold (\<lambda>i. put g i (?fs ! i)) [0..<length ?fs] m"
    unfolding len by (intro fold_cong) (auto simp: sample_frames_def)
  have ends: "subclock (hd ?fs) = first" "subclock (last ?fs) = first + ucast (n - 1) * 384"
    unfolding hd_conv_nth [OF ne] last_conv_nth [OF ne] len fin
    using n by (simp_all add: sample_frames_def sample_frame_def Let_def unat_gt_0)
  have "unat n < 2 ^ 32" using word32_bound [of n] by simp
  then have inc: "sorted_wrt (\<lambda>f g. subclock f < subclock g) ?fs"
    using span_order [OF g] by (intro stamps_increase) (simp_all only: fin)
  have g': "begin_span m first (first + ucast (n - 1) * 384) (length ?fs) = Some g" using g len by simp
  show "ok m'" "view m' = view (fold legacy ?fs m)"
    unfolding m'_def f using span_inv [OF m g' inc ends] span_view [OF m g' inc ends] by simp_all
qed

lemma advance_owned_exact:
  fixes start clocks
  assumes m: "ok m" and p: "pcm_ok p"
    and ow: "owned = \<lparr>o_begin = begin_span, o_commit = commit, o_write = put, o_begin_constant = (if c then Some begin_run else None)\<rparr>"
  defines "a \<equiv> rf5c164_advance_owned legacy (Some owned) start clocks (p, m)" and "b \<equiv> rf5c164_advance_timed legacy start clocks (p, m)"
  shows "fst a = fst b \<and> ok (snd a) \<and> view (snd a) = view (snd b)"
proof -
  define n where "n = sample_count p clocks"
  define first where "first = start + 384 - ucast (phase p)"
  define p' where "p' = p\<lparr>phase := ucast (clock_total p clocks mod 384)\<rparr>"
  have p': "pcm_ok p'" "live_voices p' = live_voices p" "wave p' = wave p" "channel p' = channel p" "samples p' = samples p"
    using p by (simp_all add: p'_def pcm_ok_def live_voices_def)
  have b: "b = ((rf5c164_sample ^^ unat n) p', fold legacy (sample_frames first (unat n) p') m)" if "phase p < 384"
    unfolding b_def timed_frames Let_def first_stamp [OF that] by (simp only: n_def first_def p'_def)
  have okb: "ok (snd b)"
    using legacy_all [OF m m refl] unfolding b_def timed_frames Let_def by simp
  have chip: "(rf5c164_sample ^^ unat n) p' = p'\<lparr>channel := write_back (live_voices ((rf5c164_sample ^^ unat n) p')) (channel p),
      p_left := p_left ((rf5c164_sample ^^ unat n) p'), p_right := p_right ((rf5c164_sample ^^ unat n) p'), samples := samples p + ucast n\<rparr>"
    using samples_rest [of "unat n" p'] samples_write_back [of "unat n" p'] p' by simp
  show ?thesis
    unfolding a_def
  proof (rule owned_cases [OF n_def first_def p'_def, of legacy owned m], goal_cases)
    case 1
    then show ?case using okb by (simp add: b_def)
  next
    case (2 br vs l r g)
    have br: "br = begin_run" using 2(3) by (simp add: ow split: if_splits)
    have cv: "constant_voices (wave p') (live_voices p') 0 0 = Some (vs, l, r)" using 2(4) p' by simp
    obtain k where k: "unat n = Suc k" using 2(2) by (metis not0_implies_Suc unat_eq_0)
    have "view (commit g m) = view (fold legacy (sample_frames first (unat n) p') m)" "ok (commit g m)"
      using run_view [OF m 2(5) [unfolded br]] run_inv [OF m 2(5) [unfolded br]] constant_frames_run [OF cv p'(1), of first "unat n"] by simp_all
    moreover have "(rf5c164_sample ^^ unat n) p' = p'\<lparr>channel := write_back vs (channel p), p_left := saturate l, p_right := saturate r, samples := samples p + ucast n\<rparr>"
      using chip constant_samples [OF cv p'(1), of k] unfolding k by simp
    ultimately show ?case using b [OF 2(1)] 2(6) by (simp add: ow)
  next
    case (3 g)
    have nz: "unat n \<noteq> 0" using 3(2) by (simp add: unat_eq_0)
    have g: "begin_span m first (first + ucast (n - 1) * 384) (unat n) = Some g" using 3(3) by (simp add: ow)
    note f = owned_fold [of owned g p' first "unat n" 0 0 m, unfolded p'(2,3)]
    show ?case
      using span_frames [OF m 3(2) g, of p'] b [OF 3(1)] chip 3(4) nz by (simp add: f Let_def) (simp add: ow)
  qed
qed

text \<open>The same on two sinks that look alike, so that calls can follow each other.\<close>

lemma advance_owned_alike:
  fixes start clocks
  assumes m: "ok m" "ok m'" "view m = view m'" and p: "pcm_ok p"
    and ow: "owned = \<lparr>o_begin = begin_span, o_commit = commit, o_write = put, o_begin_constant = (if c then Some begin_run else None)\<rparr>"
  defines "a \<equiv> rf5c164_advance_owned legacy (Some owned) start clocks (p, m)" and "b \<equiv> rf5c164_advance_timed legacy start clocks (p, m')"
  shows "fst a = fst b \<and> pcm_ok (fst b) \<and> ok (snd a) \<and> ok (snd b) \<and> view (snd a) = view (snd b)"
proof -
  have "fst (rf5c164_advance_timed legacy start clocks (p, m)) = fst b \<and> ok (snd b) \<and>
      view (snd (rf5c164_advance_timed legacy start clocks (p, m))) = view (snd b)"
    using legacy_all [OF m] by (simp add: b_def timed_frames Let_def)
  then show ?thesis
    using advance_owned_exact [OF m(1) p ow, of start clocks] pcm_ok_timed [of "(p, m')" legacy start clocks] p by (simp add: a_def b_def)
qed

end

section \<open>The chip in the machine\<close>

text \<open>What reaches the chip: clocks of the machine, and writes of its processor.\<close>

datatype pcm_event = Clocks u64 u32 | Register u32 u8

definition pcm_timed :: "pcm_event \<Rightarrow> Rf5c164 \<times> SegaCDNativeAudio \<Rightarrow> Rf5c164 \<times> SegaCDNativeAudio" where
  "pcm_timed e pa = (case e of Clocks start n \<Rightarrow> rf5c164_advance_timed segacd_native_audio_pcm_sample start n pa
     | Register r v \<Rightarrow> apfst (rf5c164_write r v) pa)"

definition pcm_owned :: "pcm_event \<Rightarrow> Rf5c164 \<times> SegaCDNativeAudio \<Rightarrow> Rf5c164 \<times> SegaCDNativeAudio" where
  "pcm_owned e pa = (case e of Clocks start n \<Rightarrow> rf5c164_advance_owned segacd_native_audio_pcm_sample (Some pcm_owned_sink) start n pa
     | Register r v \<Rightarrow> apfst (rf5c164_write r v) pa)"

lemma pcm_event_alike:
  assumes "pcm_ok p" "alike a b"
  shows "fst (pcm_owned e (p, a)) = fst (pcm_timed e (p, b))" "pcm_ok (fst (pcm_timed e (p, b)))"
    "alike (snd (pcm_owned e (p, a))) (snd (pcm_timed e (p, b)))"
  using assms pcm_ok_write [OF assms(1)] pcm_sink.advance_owned_alike [of a b p pcm_owned_sink True]
  by (cases e; simp add: pcm_timed_def pcm_owned_def alike_def pcm_owned_sink_def)+

lemma pcm_events_alike:
  assumes "pcm_ok p" "alike a b"
  shows "fst (fold pcm_owned es (p, a)) = fst (fold pcm_timed es (p, b)) \<and> alike (snd (fold pcm_owned es (p, a))) (snd (fold pcm_timed es (p, b)))"
  using assms
proof (induction es arbitrary: p a b)
  case (Cons e es)
  note s = pcm_event_alike [OF Cons.prems, of e]
  show ?case
    using Cons.IH [OF s(2,3)] s(1) by (cases "pcm_owned e (p, a)"; cases "pcm_timed e (p, b)") simp
qed simp

text \<open>
  C38: The optimised path of the PCM chip is exact. Over any sequence of register writes and clocks, with the
  sink the machine attaches to the mixer, it leaves the chip in the same state as the sample-by-sample path
  and the mixer with the same queued frames, counters, faults and results.
\<close>

theorem pcm_owned_exact:
  assumes "pcm_ok p" "native_ok a"
  shows "fst (fold pcm_owned es (p, a)) = fst (fold pcm_timed es (p, a)) \<and>
    native_view (snd (fold pcm_owned es (p, a))) = native_view (snd (fold pcm_timed es (p, a)))"
  using pcm_events_alike [OF assms(1), of a a es] assms(2) by (simp add: alike_def)

lemma pcm_ok_init: "pcm_ok rf5c164_init"
  by (simp add: pcm_ok_def rf5c164_init_def rf5c164_reset_def channel_reset_def)

theorem pcm_owned_exact_witness:
  "fst (fold pcm_owned [Register 7 0xC0, Register 8 0xFE, Clocks 0 1000, Clocks 1000 5000] (rf5c164_init, the (segacd_native_audio_create False))) =
    fst (fold pcm_timed [Register 7 0xC0, Register 8 0xFE, Clocks 0 1000, Clocks 1000 5000] (rf5c164_init, the (segacd_native_audio_create False)))"
  using pcm_owned_exact [OF pcm_ok_init native_create_ok] by blast

section \<open>Time can be cut anywhere\<close>

lemma count_nat: "unat (sample_count p clocks) = (unat (phase p) + unat clocks) div 384"
proof -
  have p: "unat (phase p) < 65536" using unsigned_less [where 'a = nat, of "phase p"] by simp
  have t: "unat (clock_total p clocks) = unat (phase p) + unat clocks"
    unfolding clock_total_def using p word32_bound [of clocks] by (simp add: unat_word_ariths unat_ucast_u16 unat_ucast_u32)
  have "(unat (phase p) + unat clocks) div 384 < 2 ^ 32" using p word32_bound [of clocks] by simp
  then show ?thesis
    unfolding sample_count_def by (simp add: unsigned_ucast_eq unat_div_distrib t take_bit_nat_eq_self)
qed

lemma phase_nat: "unat (ucast (clock_total p clocks mod 384) :: u16) = (unat (phase p) + unat clocks) mod 384"
proof -
  have p: "unat (phase p) < 65536" using unsigned_less [where 'a = nat, of "phase p"] by simp
  have t: "unat (clock_total p clocks) = unat (phase p) + unat clocks"
    unfolding clock_total_def using p word32_bound [of clocks] by (simp add: unat_word_ariths unat_ucast_u16 unat_ucast_u32)
  have "(unat (phase p) + unat clocks) mod 384 < 384" by simp
  then have "(unat (phase p) + unat clocks) mod 384 < 65536" by linarith
  then show ?thesis by (simp add: unsigned_ucast_eq unat_mod_distrib t take_bit_nat_eq_self)
qed

lemma samples_phase: "(rf5c164_sample ^^ n) (p\<lparr>phase := x\<rparr>) = ((rf5c164_sample ^^ n) p)\<lparr>phase := x\<rparr>"
  by (induction n) (simp_all add: rf5c164_sample_def Let_def case_prod_unfold)

lemma frames_phase: "sample_frames origin n (p\<lparr>phase := x\<rparr>) = sample_frames origin n p"
  by (simp add: sample_frames_def sample_frame_def samples_phase Let_def del: funpow.simps)

lemma frames_append:
  "sample_frames origin (i + j) p = sample_frames origin i p @ sample_frames (origin + of_nat i * 384) j ((rf5c164_sample ^^ i) p)"
proof -
  have s: "sample_frame origin p (i + k) = sample_frame (origin + of_nat i * 384) ((rf5c164_sample ^^ i) p) k" for k
    by (simp add: sample_frame_def Let_def funpow_add [symmetric, THEN fun_cong, unfolded o_apply] add.commute algebra_simps del: funpow.simps)
  have "[0..<i + j] = [0..<i] @ map ((+) i) [0..<j]" by (rule nth_equalityI) (auto simp: nth_append)
  then show ?thesis by (simp add: sample_frames_def s)
qed

text \<open>
  C39: The samples of the PCM chip depend on the elapsed time only: cutting a stretch of clocks in two calls
  gives the same samples with the same time stamps, and the same chip, as one call.
\<close>

theorem pcm_time_splits:
  assumes "phase p < 384" "unat a + unat b < 2 ^ 32"
  shows "rf5c164_advance_timed sink (start + ucast a) b (rf5c164_advance_timed sink start a (p, m)) =
    rf5c164_advance_timed sink start (a + b) (p, m)"
proof -
  let ?ph = "unat (phase p)"
  define i where "i = (?ph + unat a) div 384"
  define x :: u16 where "x = ucast (clock_total p a mod 384)"
  define p1 where "p1 = (rf5c164_sample ^^ i) (p\<lparr>phase := x\<rparr>)"
  have x: "unat x = (?ph + unat a) mod 384" unfolding x_def by (rule phase_nat)
  have p1: "phase p1 = x" by (simp add: p1_def)
  define j where "j = (unat x + unat b) div 384"
  have ab: "unat (a + b) = unat a + unat b" using assms(2) by (simp add: unat_word_ariths)
  have n: "(?ph + unat (a + b)) div 384 = i + j"
    unfolding i_def j_def ab x using div_split [of 384 "?ph + unat a" "unat b"] by (simp add: add.assoc)
  have ph: "(ucast (clock_total p1 b mod 384) :: u16) = ucast (clock_total p (a + b) mod 384)"
    by (rule word_unat_eq_iff [THEN iffD2]) (simp only: phase_nat p1 x ab, simp add: mod_simps add.assoc)
  have "?ph + unat a = unat x + i * 384" unfolding x i_def by (simp add: mod_div_mult_eq)
  then have "(of_nat (?ph + unat a) :: u64) = of_nat (unat x + i * 384)" by simp
  then have e: "(ucast (phase p) + ucast a :: u64) = ucast x + of_nat i * 384" by simp
  then have a: "(ucast a :: u64) = ucast x + of_nat i * 384 - ucast (phase p)" by (simp add: eq_diff_eq add.commute)
  have "x < 384" using x by (simp add: word_less_nat_alt)
  then have o: "start + ucast a + ucast (384 - ucast x :: u32) = start + ucast (384 - ucast (phase p) :: u32) + of_nat i * 384"
    using first_stamp [of "p\<lparr>phase := x\<rparr>" "start + ucast a"] unfolding first_stamp [OF assms(1)] by (simp add: a)
  have first: "rf5c164_advance_timed sink start a (p, m) =
      (p1, fold sink (sample_frames (start + ucast (384 - ucast (phase p) :: u32)) i p) m)"
    unfolding timed_frames Let_def count_nat by (simp add: i_def [symmetric] x_def [symmetric] p1_def frames_phase)
  show ?thesis
    unfolding first unfolding timed_frames Let_def count_nat n ph unfolding p1 j_def [symmetric] o frames_phase frames_append fold_append o_apply
    by (simp add: p1_def samples_phase frames_phase funpow_add add.commute [of i j])
qed

theorem pcm_time_splits_witness:
  "rf5c164_advance_timed (\<lambda>f fs. fs @ [f]) (0 + ucast (1000 :: u32)) 2000 (rf5c164_advance_timed (\<lambda>f fs. fs @ [f]) 0 1000 (rf5c164_init, [])) =
    rf5c164_advance_timed (\<lambda>f fs. fs @ [f]) 0 (1000 + 2000) (rf5c164_init, [])"
  by (rule pcm_time_splits) (simp_all add: rf5c164_init_def rf5c164_reset_def)

end
