(* ===== verification/Cd_Cdda_Props.thy ===== *)
theory Cd_Cdda_Props
  imports Cd_Cdda Cd_Pcm_Props
begin

text \<open>
  The CD audio stream: how many frames are due by when, what the FIFO and the fader do over a stretch, and
  the equality of the chunked path with the frame-by-frame path over any owned sink.
\<close>

section \<open>Stamps\<close>

text \<open>The time of tick \<open>k\<close> after clock \<open>c\<close> at phase \<open>p\<close>: the first clock at which \<open>k + 1\<close> periods are over.\<close>

definition tick_stamp :: "nat \<Rightarrow> nat \<Rightarrow> nat \<Rightarrow> nat" where
  "tick_stamp c p k = c + (Suc k * 12500000 + 44099 - p) div 44100"

definition lead :: "nat \<Rightarrow> nat" where
  "lead p = (12500000 + 44099 - p) div 44100"

lemma lead_bounds:
  assumes "p < 12500000"
  shows "12500000 \<le> p + lead p * 44100" "p + lead p * 44100 - 12500000 < 44100" "0 < lead p"
proof -
  have d: "lead p * 44100 + (12500000 + 44099 - p) mod 44100 = 12500000 + 44099 - p"
    unfolding lead_def by (rule div_mult_mod_eq)
  have m: "(12500000 + 44099 - p) mod 44100 \<le> 44099" by simp
  show "12500000 \<le> p + lead p * 44100" "p + lead p * 44100 - 12500000 < 44100" using d m assms by linarith+
  then show "0 < lead p" using assms by (cases "lead p") auto
qed

lemma tick_stamp_0: "tick_stamp c p 0 = c + lead p"
  by (simp add: tick_stamp_def lead_def)

lemma tick_stamp_Suc:
  assumes "p < 12500000"
  shows "tick_stamp c p (Suc k) = tick_stamp (c + lead p) (p + lead p * 44100 - 12500000) k"
proof -
  let ?q = "p + lead p * 44100 - 12500000"
  have "Suc (Suc k) * 12500000 + 44099 - p = (Suc k * 12500000 + 44099 - ?q) + lead p * 44100"
    using lead_bounds [OF assms] assms by simp
  then have "(Suc (Suc k) * 12500000 + 44099 - p) div 44100 = (Suc k * 12500000 + 44099 - ?q) div 44100 + lead p"
    by (simp only: div_mult_self1 [of 44100] zero_neq_numeral [symmetric] not_False_eq_True)
  then show ?thesis by (simp add: tick_stamp_def)
qed

lemma tick_stamp_run:
  assumes "p < 12500000"
  defines "a \<equiv> 44099 - (p + lead p * 44100 - 12500000)"
  shows "tick_stamp c p k = c + lead p + (a + k * 12500000) div 44100"
proof -
  have "Suc k * 12500000 + 44099 - p = (a + k * 12500000) + lead p * 44100"
    unfolding a_def using lead_bounds [OF assms(1)] assms(1) by simp
  then have "(Suc k * 12500000 + 44099 - p) div 44100 = (a + k * 12500000) div 44100 + lead p"
    by (simp only: div_mult_self1 [of 44100] zero_neq_numeral [symmetric] not_False_eq_True)
  then show ?thesis by (simp add: tick_stamp_def)
qed

lemma div_next: "0 < d \<Longrightarrow> x + d \<le> y \<Longrightarrow> x div d < y div d" for x y d :: nat
  using div_le_mono [of "x + d" y d] div_add_self2 [of d x] by linarith

lemma tick_stamp_less:
  assumes "p < 12500000" "i < j"
  shows "tick_stamp c p i < tick_stamp c p j"
proof -
  have "Suc i * 12500000 \<le> j * 12500000" using assms(2) by (intro mult_right_mono) auto
  then have "Suc i * 12500000 + 44099 - p + 44100 \<le> Suc j * 12500000 + 44099 - p" using assms(1) by simp
  then show ?thesis unfolding tick_stamp_def by (intro add_strict_left_mono div_next) simp_all
qed

text \<open>The number of ticks up to a clock, and that they lie before it.\<close>

lemma tick_stamp_le:
  assumes "k < (p + d * 44100) div 12500000"
  shows "tick_stamp c p k \<le> c + d"
proof -
  have "Suc k * 12500000 \<le> (p + d * 44100) div 12500000 * 12500000" using assms by (intro mult_right_mono) auto
  also have "\<dots> \<le> p + d * 44100" by (rule div_times_less_eq_dividend)
  finally have "Suc k * 12500000 + 44099 - p \<le> 44099 + d * 44100" by simp
  then have "(Suc k * 12500000 + 44099 - p) div 44100 \<le> (44099 + d * 44100) div 44100" by (rule div_le_mono)
  then show ?thesis by (simp add: tick_stamp_def)
qed

lemma few_ticks:
  assumes "p < 12500000"
  shows "p + d * 44100 < 12500000 \<longleftrightarrow> d < lead p"
proof
  assume "p + d * 44100 < 12500000"
  then have "d * 44100 < lead p * 44100" using lead_bounds(1) [OF assms] by linarith
  then show "d < lead p" by simp
next
  assume "d < lead p"
  then have "d * 44100 + 44100 \<le> lead p * 44100" by (metis Suc_leI mult_Suc add.commute mult_le_mono1)
  then show "p + d * 44100 < 12500000" using lead_bounds(1,2) [OF assms] by linarith
qed

lemma ticks_after_lead:
  assumes "p < 12500000" "lead p \<le> d"
  defines "q \<equiv> p + lead p * 44100 - 12500000"
  shows "p + d * 44100 = 12500000 + (q + (d - lead p) * 44100)"
proof -
  have "d * 44100 = lead p * 44100 + (d - lead p) * 44100" using assms(2) by (simp add: diff_mult_distrib)
  then show ?thesis using lead_bounds(1) [OF assms(1)] by (simp add: q_def)
qed

section \<open>Ticks\<close>

text \<open>What one tick does to the stream, and the frame it delivers.\<close>

definition tick_out :: "SegaCDCdda \<Rightarrow> (i16 \<times> i16) option" where
  "tick_out s = (let gain = fader_gain (current_field (fader s)); (l, r) = (if has_data s then fifo s (fifo_head s) (fifo_frame s) else (0, 0))
     in if has_data s \<and> fifo_count s = 0 then None else Some (scale_sample l gain, scale_sample r gain))"

definition tick :: "SegaCDCdda \<Rightarrow> SegaCDCdda" where
  "tick s =
    (let s = s\<lparr>total_sample_ticks := total_sample_ticks s + 1\<rparr>; f = fader s
     in if has_data s \<and> fifo_count s = 0 then s\<lparr>status := status s OR STATUS_UNDERFLOW, underflow_frames := underflow_frames s + 1\<rparr>
        else (if has_data s then move_frames 1 s else s\<lparr>silence_frames := silence_frames s + 1\<rparr>)
          \<lparr>fader := f\<lparr>current_field := slew (current_field f) (target_field f)\<rparr>, delivered_frames := delivered_frames s + 1\<rparr>)"

definition deliver :: "(SegaCDAudioFrame \<Rightarrow> 'm \<Rightarrow> 'm) \<Rightarrow> u64 \<Rightarrow> (i16 \<times> i16) option \<Rightarrow> 'm \<Rightarrow> 'm" where
  "deliver sink at out m = (case out of None \<Rightarrow> m | Some (l, r) \<Rightarrow> sink \<lparr>subclock = at, f_left = l, f_right = r\<rparr> m)"

lemma has_data_simps [simp]:
  "has_data (s\<lparr>total_sample_ticks := a\<rparr>) = has_data s" "has_data (s\<lparr>fader := f\<rparr>) = has_data s" "has_data (s\<lparr>delivered_frames := a\<rparr>) = has_data s"
  "has_data (s\<lparr>silence_frames := a\<rparr>) = has_data s" "has_data (s\<lparr>underflow_frames := a\<rparr>) = has_data s" "has_data (s\<lparr>status := w\<rparr>) = has_data s"
  "has_data (s\<lparr>fifo_frame := n\<rparr>) = has_data s" "has_data (s\<lparr>fifo_head := n\<rparr>) = has_data s" "has_data (s\<lparr>fifo_count := n\<rparr>) = has_data s"
  "has_data (s\<lparr>clock_now := t\<rparr>) = has_data s" "has_data (s\<lparr>cd_phase := t\<rparr>) = has_data s"
  "has_data (next_sector s) = has_data s" "has_data (move_frames n s) = has_data s"
  by (simp_all add: has_data_def next_sector_def move_frames_def Let_def)

lemma moved_fields [simp]:
  "fader (next_sector s) = fader s" "delivered_frames (next_sector s) = delivered_frames s" "fader (move_frames n s) = fader s"
  "delivered_frames (move_frames n s) = delivered_frames s" "underflow_frames (move_frames n s) = underflow_frames s"
  by (simp_all add: next_sector_def move_frames_def Let_def)

lemma emit_tick_eq:
  "emit_tick sink at (s, m, e) = (tick s, deliver sink at (tick_out s) m, e + of_bool (tick_out s \<noteq> None))"
proof (cases "has_data s \<and> fifo_count s = 0")
  case True
  then show ?thesis by (simp add: emit_tick_def tick_def tick_out_def deliver_def Let_def case_prod_unfold)
next
  case False
  then show ?thesis
    by (cases "has_data s"; cases "fifo s (fifo_head s) (fifo_frame s)")
      (simp_all add: emit_tick_def tick_def tick_out_def deliver_def segacd_fader_tick_def move_frames_def Let_def case_prod_unfold)
qed

lemma tick_time:
  "tick (s\<lparr>clock_now := c, cd_phase := p\<rparr>) = (tick s)\<lparr>clock_now := c, cd_phase := p\<rparr>"
  "tick_out (s\<lparr>clock_now := c, cd_phase := p\<rparr>) = tick_out s"
  "clock_now (tick s) = clock_now s" "cd_phase (tick s) = cd_phase s"
  by (simp_all add: tick_def tick_out_def move_frames_def next_sector_def Let_def)

lemma ticks_time: "(tick ^^ n) (s\<lparr>clock_now := c, cd_phase := p\<rparr>) = ((tick ^^ n) s)\<lparr>clock_now := c, cd_phase := p\<rparr>"
  by (induction n) (simp_all add: tick_time)

lemma tick_underflow: "(underflow_frames (tick s) \<noteq> underflow_frames s) = (tick_out s = None)"
  by (simp add: tick_def tick_out_def Let_def case_prod_unfold)

section \<open>The loop\<close>

lemma unat_sub_le: "b \<le> a \<Longrightarrow> unat (a - b) = unat a - unat b" for a b :: u64
  by (rule unat_sub)

lemma ticks_needed_nat:
  assumes "unat (cd_phase s) < 12500000"
  shows "unat (ticks_needed s) = lead (unat (cd_phase s))"
    "unat (cd_phase s + ticks_needed s * CDDA_RATE - CDDA_CLOCK) = unat (cd_phase s) + lead (unat (cd_phase s)) * 44100 - 12500000"
proof -
  let ?p = "unat (cd_phase s)"
  have le: "cd_phase s \<le> 12500000" using assms by (simp add: word_le_nat_alt)
  have "unat (12500000 - cd_phase s + 44100 - 1) = 12500000 + 44099 - ?p"
  proof -
    have e: "12500000 - cd_phase s + 44100 - 1 = 12544099 - cd_phase s" by simp
    have "cd_phase s \<le> 12544099" using assms by (simp add: word_le_nat_alt)
    then show ?thesis unfolding e by (simp add: unat_sub)
  qed
  then show need: "unat (ticks_needed s) = lead ?p"
    unfolding ticks_needed_def lead_def CDDA_CLOCK_def CDDA_RATE_def by (simp add: unat_div_distrib)
  have b: "lead ?p * 44100 < 12600000" "12500000 \<le> ?p + lead ?p * 44100" using lead_bounds [OF assms] assms by linarith+
  have m: "unat (ticks_needed s * 44100) = lead ?p * 44100"
    using b(1) need by (simp add: unat_word_ariths)
  then have a: "unat (cd_phase s + ticks_needed s * 44100) = ?p + lead ?p * 44100"
    using b(1) assms by (simp add: unat_word_ariths(1))
  then have "12500000 \<le> cd_phase s + ticks_needed s * 44100" using b(2) by (simp add: word_le_nat_alt)
  then show "unat (cd_phase s + ticks_needed s * CDDA_RATE - CDDA_CLOCK) = ?p + lead ?p * 44100 - 12500000"
    using a by (simp add: CDDA_CLOCK_def CDDA_RATE_def unat_sub)
qed

definition play_ticks :: "(SegaCDAudioFrame \<Rightarrow> 'm \<Rightarrow> 'm) \<Rightarrow> nat \<Rightarrow> nat \<Rightarrow> nat \<Rightarrow> SegaCDCdda \<Rightarrow> 'm \<Rightarrow> 'm" where
  "play_ticks sink c p n s = fold (\<lambda>k. deliver sink (of_nat (tick_stamp c p k)) (tick_out ((tick ^^ k) s))) [0..<n]"

definition played :: "nat \<Rightarrow> SegaCDCdda \<Rightarrow> nat" where
  "played n s = length (filter (\<lambda>k. tick_out ((tick ^^ k) s) \<noteq> None) [0..<n])"

lemma upt_Suc_map: "[0..<Suc n] = 0 # map Suc [0..<n]"
  by (simp add: upt_conv_Cons map_Suc_upt del: upt_Suc)

lemma play_ticks_Suc:
  assumes "p < 12500000"
  shows "play_ticks sink c p (Suc n) s m =
    play_ticks sink (c + lead p) (p + lead p * 44100 - 12500000) n (tick s) (deliver sink (of_nat (c + lead p)) (tick_out s) m)"
  unfolding play_ticks_def upt_Suc_map
  by (simp add: fold_map o_def tick_stamp_0 tick_stamp_Suc [OF assms] funpow_Suc_right del: funpow.simps(2))

lemma played_Suc: "played (Suc n) s = of_bool (tick_out s \<noteq> None) + played n (tick s)"
  unfolding played_def upt_Suc_map by (simp add: filter_map o_def funpow_Suc_right del: funpow.simps(2))

lemma played_le: "played n s \<le> n"
  unfolding played_def by (rule order_trans [OF length_filter_le]) simp

lemma tick_view:
  "play_ticks sink c p n (s\<lparr>clock_now := x, cd_phase := y\<rparr>) = play_ticks sink c p n s" "played n (s\<lparr>clock_now := x, cd_phase := y\<rparr>) = played n s"
  by (simp_all add: play_ticks_def played_def ticks_time tick_time)

lemma advance_loop_ticks:
  "unat (cd_phase s) < 12500000 \<Longrightarrow> clock_now s \<le> target \<Longrightarrow>
    (unat (cd_phase s) + (unat target - unat (clock_now s)) * 44100) div 12500000 = n \<Longrightarrow>
    advance_loop sink target s m e u =
    (((tick ^^ n) s)\<lparr>clock_now := target, cd_phase := of_nat ((unat (cd_phase s) + (unat target - unat (clock_now s)) * 44100) mod 12500000)\<rparr>,
     play_ticks sink (unat (clock_now s)) (unat (cd_phase s)) n s m, e + of_nat (played n s), u \<or> played n s < n)"
proof (induction n arbitrary: s m e u)
  case 0
  let ?p = "unat (cd_phase s)" and ?d = "unat target - unat (clock_now s)"
  have few: "?p + ?d * 44100 < 12500000" using "0.prems"(3) by (simp add: div_eq_0_iff)
  then have lt: "?d < lead ?p" using few_ticks [OF "0.prems"(1)] by simp
  show ?case
  proof (cases "clock_now s < target")
    case True
    have d: "unat (target - clock_now s) = ?d" using True by (simp add: unat_sub)
    have "ticks_needed s > target - clock_now s"
      using lt d ticks_needed_nat(1) [OF "0.prems"(1)] by (simp add: word_less_nat_alt)
    moreover have "cd_phase s + (target - clock_now s) * CDDA_RATE = of_nat (?p + ?d * 44100)"
      unfolding of_nat_add of_nat_mult d [symmetric] by (simp add: CDDA_RATE_def)
    ultimately show ?thesis
      using True few by (subst advance_loop.simps) (simp add: Let_def play_ticks_def played_def)
  next
    case False
    then have "clock_now s = target" using "0.prems"(2) by simp
    then show ?thesis using False "0.prems"(1) by (subst advance_loop.simps) (simp add: play_ticks_def played_def)
  qed
next
  case (Suc n)
  let ?p = "unat (cd_phase s)" and ?d = "unat target - unat (clock_now s)" and ?need = "ticks_needed s"
  note need = ticks_needed_nat [OF Suc.prems(1)]
  have many: "12500000 \<le> ?p + ?d * 44100"
    using Suc.prems(3) by (metis div_less not_less nat.simps(3))
  then have le: "lead ?p \<le> ?d" using few_ticks [OF Suc.prems(1), of ?d] by linarith
  have d: "unat (target - clock_now s) = ?d" using Suc.prems(2) by (simp add: unat_sub)
  have lt: "clock_now s < target" using le lead_bounds(3) [OF Suc.prems(1)] by (simp add: word_less_nat_alt)
  define s1 where "s1 = s\<lparr>clock_now := clock_now s + ?need, cd_phase := cd_phase s + ?need * CDDA_RATE - CDDA_CLOCK\<rparr>"
  have fin: "unat (clock_now s) + lead ?p \<le> unat target" using le lt by (simp add: word_less_nat_alt)
  then have c1: "unat (clock_now s + ?need) = unat (clock_now s) + lead ?p"
    using need(1) unsigned_less [where 'a = nat, of target] by (simp add: unat_word_ariths(1))
  let ?q = "?p + lead ?p * 44100 - 12500000"
  have q: "?q < 12500000" using lead_bounds(2) [OF Suc.prems(1)] by simp
  have tot: "?p + ?d * 44100 = 12500000 + (?q + (?d - lead ?p) * 44100)" by (rule ticks_after_lead [OF Suc.prems(1) le])
  have n': "(?q + (?d - lead ?p) * 44100) div 12500000 = n" "(?p + ?d * 44100) mod 12500000 = (?q + (?d - lead ?p) * 44100) mod 12500000"
    using Suc.prems(3) unfolding tot by simp_all
  have step: "advance_loop sink target s m e u = advance_loop sink target (tick s1)
      (deliver sink (clock_now s1) (tick_out s1) m) (e + of_bool (tick_out s1 \<noteq> None)) (u \<or> tick_out s1 = None)"
    using lt le d need(1) tick_underflow [of s1]
    by (subst advance_loop.simps) (simp add: Let_def word_less_nat_alt emit_tick_eq s1_def [symmetric])
  have f1: "cd_phase (tick s1) = cd_phase s1" "clock_now (tick s1) = clock_now s1" "unat (cd_phase s1) = ?q"
    "unat (clock_now s1) = unat (clock_now s) + lead ?p" "tick_out s1 = tick_out s"
    using need(2) c1 by (simp_all add: s1_def tick_time)
  have "advance_loop sink target (tick s1) (deliver sink (clock_now s1) (tick_out s1) m) (e + of_bool (tick_out s1 \<noteq> None)) (u \<or> tick_out s1 = None) =
    (((tick ^^ n) (tick s1))\<lparr>clock_now := target, cd_phase := of_nat ((?q + (?d - lead ?p) * 44100) mod 12500000)\<rparr>,
     play_ticks sink (unat (clock_now s) + lead ?p) ?q n (tick s1) (deliver sink (clock_now s1) (tick_out s1) m),
     e + of_bool (tick_out s1 \<noteq> None) + of_nat (played n (tick s1)), (u \<or> tick_out s1 = None) \<or> played n (tick s1) < n)"
    using Suc.IH [of "tick s1" "deliver sink (clock_now s1) (tick_out s1) m" "e + of_bool (tick_out s1 \<noteq> None)" "u \<or> tick_out s1 = None"]
      q fin n' unfolding f1 by (simp add: word_le_nat_alt f1 diff_diff_left)
  moreover have "tick s1 = (tick s)\<lparr>clock_now := clock_now s1, cd_phase := cd_phase s1\<rparr>" by (simp add: s1_def tick_time)
  moreover have "clock_now s1 = of_nat (unat (clock_now s) + lead ?p)" unfolding f1(4) [symmetric] by simp
  ultimately show ?case
    unfolding step play_ticks_Suc [OF Suc.prems(1)] played_Suc tot
    using played_le [of n "tick s"]
    by (simp add: tick_view ticks_time f1(5) funpow_Suc_right add.assoc del: funpow.simps(2)) (cases "tick_out s = None"; auto)
qed

section \<open>Stretches of ticks\<close>

lemma advance_field_nat:
  "unat (advance_field n f t) = (if f < t then min (unat f + n) (unat t) else if t < f then max (unat f - n) (unat t) else unat f)"
proof -
  consider "f < t" | "t < f" | "f = t" by (metis linorder_less_linear)
  then show ?thesis
  proof cases
    case 1
    then have d: "unat (t - f) = unat t - unat f" "unat f < unat t"
      using unat_sub [OF less_imp_le [of f t]] by (simp_all add: word_less_nat_alt)
    let ?n = "if n < unat (t - f) then n else unat (t - f)"
    have "unat f + ?n < 65536" using d unsigned_less [where 'a = nat, of t] by (auto split: if_splits)
    then have "unat (f + of_nat ?n) = unat f + ?n" by (simp add: unat_word_ariths(1) unsigned_of_nat take_bit_nat_eq_self mod_less)
    then show ?thesis using 1 d by (cases "n < unat (t - f)") (simp_all add: advance_field_def Let_def)
  next
    case 2
    then have d: "unat (f - t) = unat f - unat t" "unat t < unat f"
      using unat_sub [OF less_imp_le [of t f]] by (simp_all add: word_less_nat_alt)
    let ?n = "if n < unat (f - t) then n else unat (f - t)"
    have u: "unat (of_nat ?n :: u16) = ?n" using d unsigned_less [where 'a = nat, of f] by (simp add: unsigned_of_nat take_bit_nat_eq_self)
    have "of_nat ?n \<le> f" unfolding word_le_nat_alt u using d by auto
    then have "unat (f - of_nat ?n) = unat f - ?n" by (simp only: unat_sub u)
    then show ?thesis using 2 d by (auto simp add: advance_field_def Let_def)
  qed (simp add: advance_field_def)
qed

lemma advance_field_0 [simp]: "advance_field 0 f t = f"
  by (simp add: advance_field_def Let_def)

lemma slew_nat: "unat (slew c t) = (if c < t then unat c + 1 else if t < c then unat c - 1 else unat c)"
proof -
  have "c < t \<Longrightarrow> unat (c + 1) = unat c + 1"
    using unsigned_less [where 'a = nat, of t] by (simp add: unat_word_ariths(1) word_less_nat_alt)
  moreover have "t < c \<Longrightarrow> unat (c - 1) = unat c - 1" by (rule unat_minus_one) auto
  ultimately show ?thesis by (auto simp: slew_def)
qed

lemma advance_field_less: "advance_field n f t < t \<longleftrightarrow> f < t \<and> unat f + n < unat t" "t < advance_field n f t \<longleftrightarrow> t < f \<and> unat t + n < unat f"
  by (auto simp: word_less_nat_alt advance_field_nat)

lemma advance_field_Suc: "advance_field (Suc n) f t = slew (advance_field n f t) t"
  by (rule word_unat_eq_iff [THEN iffD2]) (auto simp: slew_nat advance_field_less, auto simp: advance_field_nat word_less_nat_alt)

lemma advance_field_add: "advance_field (i + j) f t = advance_field j (advance_field i f t) t"
  by (induction j) (simp_all add: advance_field_Suc)

definition pos_ok :: "SegaCDCdda \<Rightarrow> bool" where
  "pos_ok s \<longleftrightarrow> fifo_frame s < SECTOR_FRAMES \<and> fifo_head s < FIFO_SECTORS \<and> fifo_count s \<le> FIFO_SECTORS"

definition room :: "SegaCDCdda \<Rightarrow> nat" where
  "room s = (if fifo_count s = 0 then 0 else fifo_count s * 588 - fifo_frame s)"

text \<open>The position and the gain after \<open>k\<close> frames.\<close>

definition shift :: "nat \<Rightarrow> SegaCDCdda \<Rightarrow> SegaCDCdda" where
  "shift k s = s\<lparr>fifo_frame := (fifo_frame s + k) mod 588, fifo_head := (fifo_head s + (fifo_frame s + k) div 588) mod 2,
     fifo_count := fifo_count s - (fifo_frame s + k) div 588\<rparr>"

definition glide :: "nat \<Rightarrow> SegaCDCdda \<Rightarrow> SegaCDCdda" where
  "glide k s = set_field (advance_field k (current_field (fader s)) (target_field (fader s))) (if has_data s then shift k s else s)"

lemma has_data_glide [simp]: "has_data (glide k s) = has_data s" "has_data (set_field f s) = has_data s"
  by (simp_all add: glide_def shift_def set_field_def)

lemma glide_0: "pos_ok s \<Longrightarrow> glide 0 s = s"
  by (simp add: glide_def shift_def set_field_def pos_ok_def SECTOR_FRAMES_def FIFO_SECTORS_def)

lemma glide_room: "has_data s \<Longrightarrow> k < room s \<Longrightarrow> fifo_count (glide k s) \<noteq> 0"
proof -
  assume "has_data s" "k < room s"
  then have "fifo_frame s + k < fifo_count s * 588" by (simp add: room_def split: if_splits)
  then have "(fifo_frame s + k) div 588 < fifo_count s" by (simp add: less_mult_imp_div_less)
  then show ?thesis using \<open>has_data s\<close> by (simp add: glide_def shift_def set_field_def)
qed

definition tally :: "nat \<Rightarrow> SegaCDCdda \<Rightarrow> SegaCDCdda" where
  "tally k s = s\<lparr>total_sample_ticks := total_sample_ticks s + of_nat k, delivered_frames := delivered_frames s + of_nat k,
     silence_frames := silence_frames s + (if has_data s then 0 else of_nat k)\<rparr>"

lemma tick_glide:
  assumes "has_data s \<Longrightarrow> fifo_count (glide k s) \<noteq> 0"
  shows "tick (tally k (glide k s)) = tally (Suc k) (glide (Suc k) s)"
proof (cases "has_data s")
  case True
  have "(h + Suc n) mod 2 = Suc ((h + n) mod 2) mod 2" for h n :: nat by (simp add: mod_simps)
  then show ?thesis
    using True assms by (simp add: tick_def tally_def glide_def shift_def set_field_def move_frames_def next_sector_def Let_def advance_field_Suc
        SECTOR_FRAMES_def FIFO_SECTORS_def mod_Suc div_Suc)
next
  case False
  then show ?thesis by (simp add: tick_def tally_def glide_def set_field_def Let_def advance_field_Suc)
qed

lemma ticks_glide: "pos_ok s \<Longrightarrow> (has_data s \<Longrightarrow> k \<le> room s) \<Longrightarrow> (tick ^^ k) s = tally k (glide k s)"
proof (induction k)
  case 0
  then show ?case by (simp add: glide_0 tally_def)
next
  case (Suc k)
  have "(tick ^^ k) s = tally k (glide k s)" using Suc.IH Suc.prems Suc_leD by blast
  moreover have "has_data s \<Longrightarrow> fifo_count (glide k s) \<noteq> 0" using Suc.prems glide_room by simp
  ultimately show ?case using tick_glide by simp
qed

lemma out_glide:
  assumes "pos_ok s" "has_data s \<Longrightarrow> k < room s"
  shows "tick_out ((tick ^^ k) s) =
    (let gain = fader_gain (advance_field k (current_field (fader s)) (target_field (fader s)));
         q = fifo_frame s + k; (l, r) = (if has_data s then fifo s ((fifo_head s + q div 588) mod 2) (q mod 588) else (0, 0))
     in Some (scale_sample l gain, scale_sample r gain))"
proof -
  have "(tick ^^ k) s = tally k (glide k s)" using assms by (intro ticks_glide) (auto intro: less_imp_le)
  then show ?thesis
    using assms(2) glide_room [of s k]
    by (cases "has_data s") (simp_all add: tick_out_def tally_def Let_def, simp_all add: glide_def shift_def set_field_def)
qed

text \<open>When the FIFO has run dry, ticks only count.\<close>

lemma dry_ticks:
  assumes "has_data s" "fifo_count s = 0"
  shows "(tick ^^ j) s = s\<lparr>total_sample_ticks := total_sample_ticks s + of_nat j, underflow_frames := underflow_frames s + of_nat j,
    status := (if j = 0 then status s else status s OR STATUS_UNDERFLOW)\<rparr>"
proof (induction j)
  case (Suc j)
  then show ?case using assms by (simp add: tick_def Let_def or.assoc)
qed simp

lemma glide_dry: "pos_ok s \<Longrightarrow> has_data s \<Longrightarrow> fifo_count (glide (room s) s) = 0"
  by (auto simp: glide_def shift_def set_field_def room_def pos_ok_def SECTOR_FRAMES_def)

section \<open>Chunks\<close>

text \<open>The two ways to scale agree, and the gain does not change within a chunk.\<close>

lemma clamp_sint [simp]: "clamp_s16 (sint x) = x"
proof -
  have "- 32768 \<le> sint x" "sint x \<le> 32767" using sint_greater_eq [of x] sint_less [of x] by simp_all
  then show ?thesis by (simp add: clamp_s16_def)
qed

lemma owned_scale_gain: "owned_scale x (gain_numerator f) (gain_shift f) = scale_sample x (fader_gain f)"
proof -
  have "owned_scale x n k = scale_sample x (n, 2 ^ k)" if "0 < k" "0 \<le> n" for n k
  proof -
    have half: "(2 :: int) ^ k div 2 = 2 ^ (k - 1)" using that(1) by (cases k) simp_all
    consider "n = 0" | "n = 2 ^ k" | "n \<noteq> 0" "n \<noteq> 2 ^ k" by blast
    then show ?thesis
    proof cases
      case 1
      then show ?thesis using that(1) by (simp add: owned_scale_def scale_sample_def half clamp_s16_def Let_def) 
    next
      case 2
      have d: "(a * 2 ^ k + 2 ^ (k - 1)) div 2 ^ k = a" for a :: int
        using that(1) by (subst div_mult_self3) (simp_all add: div_pos_pos_trivial)
      show ?thesis
        using 2 d [of "sint x"] d [of "- sint x"] by (simp add: owned_scale_def scale_sample_def half Let_def)
    next
      case 3
      then show ?thesis by (simp add: owned_scale_def scale_sample_def half Let_def abs_if)
    qed
  qed
  from this [of "gain_shift f" "gain_numerator f"] show ?thesis
    by (auto simp: gain_shift_def gain_numerator_def fader_gain_def)
qed

lemma scale_zero [simp]: "scale_sample 0 (fader_gain f) = 0"
  by (simp add: scale_sample_def fader_gain_def clamp_s16_def Let_def)

lemma and_3_mod: "unat (f AND 3) = unat f mod 4" for f :: u16
proof -
  have "f AND 3 = take_bit 2 f" by (simp add: take_bit_eq_mask mask_eq_exp_minus_1)
  then show ?thesis by (simp add: take_bit_eq_mod unat_mod_distrib)
qed

lemma same_gain:
  assumes "4 \<le> unat f" "unat g div 4 = unat f div 4"
  shows "fader_gain g = fader_gain f"
proof -
  have "4 \<le> unat g" using assms div_le_mono [of 4 "unat f" 4] by (cases "unat g < 4") auto
  moreover have "drop_bit 2 g = drop_bit 2 f"
    by (rule word_unat_eq_iff [THEN iffD2]) (simp add: drop_bit_eq_div unat_div_distrib assms(2))
  ultimately show ?thesis using assms(1) by (simp add: fader_gain_def word_less_nat_alt)
qed

lemma plateau_pos: "0 < plateau f t"
  using mod_less_divisor [of 4 "unat f"] by (auto simp: plateau_def and_3_mod)

lemma quad_div: "4 * (a div 4) \<le> b \<Longrightarrow> b \<le> 4 * (a div 4) + 3 \<Longrightarrow> b div 4 = a div 4" for a b :: nat
  by (intro div_nat_eqI) auto

lemma plateau_gain:
  assumes "i < n" "n \<le> plateau f t \<or> unat (if f < t then t - f else f - t) < plateau f t \<or> f = t"
  shows "fader_gain (advance_field i f t) = fader_gain f"
proof (cases "i = 0 \<or> f = t")
  case True
  then show ?thesis by (auto simp: advance_field_def [of _ t t])
next
  case False
  have d: "f < t \<Longrightarrow> unat (t - f) = unat t - unat f" "t < f \<Longrightarrow> unat (f - t) = unat f - unat t"
    by (auto intro!: unat_sub)
  define q r where "q = unat f div 4" and "r = unat f mod 4"
  have m: "unat f = 4 * q + r" "r \<le> 3" "unat (f AND 3) = r" by (simp_all add: q_def r_def and_3_mod)
  have ne: "unat f \<noteq> unat t" using False by (simp add: word_unat_eq_iff)
  then have big: "\<not> f < 4" using False assms d by (auto simp: plateau_def word_less_nat_alt split: if_splits)
  have "4 * q \<le> unat (advance_field i f t) \<and> unat (advance_field i f t) \<le> 4 * q + 3"
  proof (cases "f < t")
    case True
    then have t: "unat f < unat t" "f \<noteq> t" by (auto simp: word_less_nat_alt)
    have "i + r \<le> 3 \<or> unat t \<le> 4 * q + 3"
      using assms m t d(1) [OF True] True big by (simp add: plateau_def) linarith
    then show ?thesis using True m t unfolding advance_field_nat by (simp add: min_def) linarith
  next
    case False
    then have t: "unat t < unat f" "t < f" "f \<noteq> t" using ne by (auto simp: word_less_nat_alt)
    have "i \<le> r \<or> 4 * q \<le> unat t"
      using assms m t d(2) [OF t(2)] False big by (simp add: plateau_def) linarith
    then show ?thesis using False m t unfolding advance_field_nat by (simp add: max_def) linarith
  qed
  then show ?thesis using big unfolding q_def by (intro same_gain quad_div) (simp_all add: word_less_nat_alt)
qed

lemma chunk_size_facts:
  assumes "0 < rest" "has_data s \<Longrightarrow> fifo_frame s < 588"
  shows "0 < chunk_size s rest" "chunk_size s rest \<le> rest" "has_data s \<Longrightarrow> fifo_frame s + chunk_size s rest \<le> 588"
    "has_data s \<Longrightarrow> i < chunk_size s rest \<Longrightarrow>
      fader_gain (advance_field i (current_field (fader s)) (target_field (fader s))) = fader_gain (current_field (fader s))"
proof -
  note p = plateau_pos [of "current_field (fader s)" "target_field (fader s)"]
  show "0 < chunk_size s rest" "chunk_size s rest \<le> rest" "has_data s \<Longrightarrow> fifo_frame s + chunk_size s rest \<le> 588"
    using assms p by (auto simp: chunk_size_def Let_def SECTOR_FRAMES_def)
  assume "has_data s" "i < chunk_size s rest"
  then show "fader_gain (advance_field i (current_field (fader s)) (target_field (fader s))) = fader_gain (current_field (fader s))"
    by (intro plateau_gain [of _ "chunk_size s rest"]) (auto simp: chunk_size_def Let_def not_le)
qed

text \<open>The recurrence of the stamps.\<close>

lemma div_mod_unique: "x = y * d + z \<Longrightarrow> z < d \<Longrightarrow> x div d = y" "x = y * d + z \<Longrightarrow> z < d \<Longrightarrow> x mod d = z" for x y z d :: nat
  by simp_all

definition owned_stamp :: "nat \<Rightarrow> nat \<Rightarrow> nat \<Rightarrow> u64 \<times> u32" where
  "owned_stamp c p k = (of_nat (tick_stamp c p k), of_nat (44099 - (44099 - (p + lead p * 44100 - 12500000) + k * 12500000) mod 44100))"

lemma owned_stamp_Suc:
  assumes "p < 12500000"
  shows "stamp_step (owned_stamp c p k) = owned_stamp c p (Suc k)"
proof -
  define a where "a = 44099 - (p + lead p * 44100 - 12500000) + k * 12500000"
  have next_a: "44099 - (p + lead p * 44100 - 12500000) + Suc k * 12500000 = a + 12500000" by (simp add: a_def)
  have s: "tick_stamp c p k = c + lead p + a div 44100" "tick_stamp c p (Suc k) = c + lead p + (a + 12500000) div 44100"
    unfolding tick_stamp_run [OF assms] next_a by (simp_all only: a_def)
  have o: "owned_stamp c p k = (of_nat (c + lead p + a div 44100), of_nat (44099 - a mod 44100))"
    "owned_stamp c p (Suc k) = (of_nat (c + lead p + (a + 12500000) div 44100), of_nat (44099 - (a + 12500000) mod 44100))"
    unfolding owned_stamp_def s next_a a_def [symmetric] by simp_all
  define r where "r = a mod 44100"
  have r: "r < 44100" by (simp add: r_def)
  have split: "a + 12500000 = (a div 44100 + 283) * 44100 + (r + 19700)" by (simp add: r_def mult.commute [of _ 44100])
  have u: "unat (of_nat (44099 - r) :: u32) = 44099 - r" by (simp add: unsigned_of_nat take_bit_nat_eq_self)
  show ?thesis
  proof (cases "r + 19700 < 44100")
    case True
    then have "(a + 12500000) div 44100 = a div 44100 + 283" "(a + 12500000) mod 44100 = r + 19700"
      by (rule div_mod_unique [OF split])+
    moreover have "\<not> (of_nat (44099 - r) :: u32) < 19700" using True u by (simp add: word_less_nat_alt)
    moreover have "(of_nat (44099 - r) :: u32) - 19700 = of_nat (44099 - (r + 19700))" using True by (simp add: of_nat_diff)
    ultimately show ?thesis unfolding o r_def [symmetric] stamp_step_def by (simp add: add.assoc)
  next
    case False
    have split': "a + 12500000 = (a div 44100 + 284) * 44100 + (r + 19700 - 44100)" using split False by simp
    have "r + 19700 - 44100 < 44100" using r by simp
    then have "(a + 12500000) div 44100 = a div 44100 + 284" "(a + 12500000) mod 44100 = r + 19700 - 44100"
      by (rule div_mod_unique [OF split'])+
    moreover have "(of_nat (44099 - r) :: u32) < 19700" using False u r by (simp add: word_less_nat_alt)
    moreover have "(of_nat (44099 - r) :: u32) + 24400 = of_nat (44099 - (r + 19700 - 44100))" using False r by (simp add: of_nat_diff)
    ultimately show ?thesis unfolding o r_def [symmetric] stamp_step_def by (simp add: add.assoc)
  qed
qed

text \<open>Moving by chunks is moving by frames.\<close>

lemma chunk_position:
  assumes "x mod 588 + n \<le> 588"
  shows "x mod 588 + n < 588 \<Longrightarrow> (x + n) div 588 = x div 588" "x mod 588 + n < 588 \<Longrightarrow> (x + n) mod 588 = x mod 588 + n"
    "x mod 588 + n = 588 \<Longrightarrow> (x + n) div 588 = Suc (x div 588)" "x mod 588 + n = 588 \<Longrightarrow> (x + n) mod 588 = 0"
proof -
  have x: "x = x div 588 * 588 + x mod 588" by simp
  have a: "x + n = x div 588 * 588 + (x mod 588 + n)" by simp
  show "x mod 588 + n < 588 \<Longrightarrow> (x + n) div 588 = x div 588" "x mod 588 + n < 588 \<Longrightarrow> (x + n) mod 588 = x mod 588 + n"
    using div_mod_unique [OF a] by auto
  assume e: "x mod 588 + n = 588"
  have b: "x + n = Suc (x div 588) * 588 + 0" using a e by simp
  show "(x + n) div 588 = Suc (x div 588)" "(x + n) mod 588 = 0" using div_mod_unique [OF b] by auto
qed

lemma move_shift:
  assumes "(fifo_frame s + d) mod 588 + n \<le> 588"
  shows "move_frames n (shift d s) = shift (d + n) s"
proof -
  note c = chunk_position [OF assms, unfolded add.assoc]
  have h: "((h + k) mod 2 + 1) mod 2 = (h + Suc k) mod 2" for h k :: nat by (simp add: mod_simps)
  show ?thesis
    using assms c h by (cases "(fifo_frame s + d) mod 588 + n = 588")
      (simp_all add: move_frames_def next_sector_def shift_def Let_def SECTOR_FRAMES_def FIFO_SECTORS_def)
qed

lemma skip_shift: "rest \<le> bound \<Longrightarrow> skip_frames bound rest (shift d s) = shift (d + rest) s"
proof (induction bound arbitrary: rest d)
  case (Suc bound)
  show ?case
  proof (cases "rest = 0")
    case False
    let ?room = "588 - (fifo_frame s + d) mod 588"
    define n where "n = (if rest < ?room then rest else ?room)"
    have m: "(fifo_frame s + d) mod 588 < 588" by simp
    then have n: "0 < n" "n \<le> rest" "(fifo_frame s + d) mod 588 + n \<le> 588" using False by (auto simp: n_def)
    have "skip_frames (Suc bound) rest (shift d s) = skip_frames bound (rest - n) (shift (d + n) s)"
      using False move_shift [OF n(3)] by (simp add: n_def shift_def [of d] SECTOR_FRAMES_def Let_def)
    also have "\<dots> = shift (d + rest) s" using Suc.IH [of "rest - n" "d + n"] Suc.prems n by simp
    finally show ?thesis .
  qed simp
qed (simp add: shift_def)

definition frame_of :: "nat \<Rightarrow> nat \<Rightarrow> SegaCDCdda \<Rightarrow> nat \<Rightarrow> SegaCDAudioFrame" where
  "frame_of c p s k = (let (l, r) = the (tick_out ((tick ^^ k) s)) in \<lparr>subclock = of_nat (tick_stamp c p k), f_left = l, f_right = r\<rparr>)"

lemma glide_fields:
  "current_field (fader (glide d s)) = advance_field d (current_field (fader s)) (target_field (fader s))"
  "target_field (fader (glide d s)) = target_field (fader s)" "fifo (glide d s) = fifo s"
  "has_data s \<Longrightarrow> fifo_frame (glide d s) = (fifo_frame s + d) mod 588"
  "has_data s \<Longrightarrow> fifo_head (glide d s) = (fifo_head s + (fifo_frame s + d) div 588) mod 2"
  by (simp_all add: glide_def shift_def set_field_def)

lemma finish_chunk_glide:
  assumes "has_data s \<Longrightarrow> (fifo_frame s + d) mod 588 + n \<le> 588"
  shows "finish_chunk n (glide d s) = glide (d + n) s"
proof -
  have c: "move_frames n (set_field f t) = set_field f (move_frames n t)" "set_field f (set_field f' t) = set_field f t" for f f' t
    by (simp_all add: move_frames_def next_sector_def set_field_def Let_def)
  show ?thesis
    using assms move_shift [of s d n]
    by (cases "has_data s") (simp_all add: finish_chunk_def glide_fields advance_field_add Let_def, simp_all add: glide_def c advance_field_add)
qed

lemma chunk_frame_tick:
  assumes ok: "pos_ok s" and k: "has_data s \<Longrightarrow> d + i < room s" and i: "i < chunk_size (glide d s) rest" "0 < rest"
  shows "chunk_frame (glide d s) (of_nat (tick_stamp c p (d + i))) i = frame_of c p s (d + i)"
proof (cases "has_data s")
  case True
  have f: "has_data (glide d s) \<Longrightarrow> fifo_frame (glide d s) < 588" using True by (simp add: glide_fields)
  note ch = chunk_size_facts [OF i(2) f]
  have pos: "(fifo_frame s + d) mod 588 + i < 588" using ch(3) i(1) True by (simp add: glide_fields)
  have gain: "fader_gain (advance_field (d + i) (current_field (fader s)) (target_field (fader s))) =
      fader_gain (advance_field d (current_field (fader s)) (target_field (fader s)))"
    using ch(4) [of i] i(1) True by (simp add: glide_fields advance_field_add)
  note x = chunk_position(1,2) [OF less_imp_le [OF pos] pos, unfolded add.assoc]
  have "frame_of c p s (d + i) =
      (let (l, r) = fifo s ((fifo_head s + (fifo_frame s + d) div 588) mod 2) ((fifo_frame s + d) mod 588 + i);
           g = fader_gain (advance_field d (current_field (fader s)) (target_field (fader s)))
       in \<lparr>subclock = of_nat (tick_stamp c p (d + i)), f_left = scale_sample l g, f_right = scale_sample r g\<rparr>)"
    using True k by (simp add: frame_of_def out_glide [OF ok] gain x Let_def case_prod_unfold)
  then show ?thesis
    using True by (simp add: chunk_frame_def glide_fields owned_scale_gain Let_def case_prod_unfold)
next
  case False
  then have "tick_out ((tick ^^ (d + i)) s) = Some (0, 0)" using out_glide [OF ok, of "d + i"] by simp
  then show ?thesis using False by (simp add: chunk_frame_def frame_of_def Let_def case_prod_unfold)
qed

lemma write_chunk_fold:
  assumes p: "p < 12500000" and fr: "\<And>i. i < n \<Longrightarrow> chunk_frame t (of_nat (tick_stamp c p (d + i))) i = F (d + i)"
  shows "j \<le> n \<Longrightarrow> fold (write_chunk owned g d t) [0..<j] (owned_stamp c p d, m) =
    (owned_stamp c p (d + j), fold (\<lambda>k. o_write owned g k (F k)) [d..<d + j] m)"
proof (induction j)
  case (Suc j)
  then show ?case
    using fr [of j] owned_stamp_Suc [OF p, of c "d + j"] by (simp add: write_chunk_def) (simp add: owned_stamp_def)
qed simp

lemma write_chunks_glide:
  assumes p: "p < 12500000" and ok: "pos_ok s" and E: "has_data s \<Longrightarrow> E \<le> room s"
  shows "d \<le> E \<Longrightarrow> E - d \<le> bound \<Longrightarrow> write_chunks bound owned g E d (glide d s) (owned_stamp c p d, m) =
    (glide E s, fold (\<lambda>k. o_write owned g k (frame_of c p s k)) [d..<E] m)"
proof (induction bound arbitrary: d m)
  case (Suc bound)
  show ?case
  proof (cases "d < E")
    case True
    define n where "n = chunk_size (glide d s) (E - d)"
    have f: "has_data (glide d s) \<Longrightarrow> fifo_frame (glide d s) < 588" by (simp add: glide_fields)
    have rest: "0 < E - d" using True by simp
    note ch = chunk_size_facts [OF rest f, folded n_def]
    have pos: "has_data s \<Longrightarrow> (fifo_frame s + d) mod 588 + n \<le> 588" using ch(3) by (simp add: glide_fields)
    have fr: "chunk_frame (glide d s) (of_nat (tick_stamp c p (d + i))) i = frame_of c p s (d + i)" if "i < n" for i
      using that ch(2) E True by (intro chunk_frame_tick [OF ok _ _ rest]) (auto simp: n_def)
    have "write_chunks (Suc bound) owned g E d (glide d s) (owned_stamp c p d, m) =
        write_chunks bound owned g E (d + n) (glide (d + n) s) (owned_stamp c p (d + n), fold (\<lambda>k. o_write owned g k (frame_of c p s k)) [d..<d + n] m)"
      using True write_chunk_fold [OF p fr order_refl, of n owned g m] finish_chunk_glide [OF pos] by (simp add: n_def [symmetric] Let_def)
    also have "\<dots> = (glide E s, fold (\<lambda>k. o_write owned g k (frame_of c p s k)) [d + n..<E] (fold (\<lambda>k. o_write owned g k (frame_of c p s k)) [d..<d + n] m))"
      using ch Suc.prems True by (intro Suc.IH) auto
    also have "\<dots> = (glide E s, fold (\<lambda>k. o_write owned g k (frame_of c p s k)) [d..<E] m)"
      using ch(2) True upt_add_eq_append [of d "d + n" "E - (d + n)"] by simp
    finally show ?thesis .
  next
    case False
    then have "d = E" using Suc.prems by simp
    then show ?thesis by simp
  qed
qed simp

section \<open>Constant stretches\<close>

lemma next_position_shift: "next_position ((h + x div 588) mod 2, x mod 588) = ((h + Suc x div 588) mod 2, Suc x mod 588)"
  by (auto simp: next_position_def SECTOR_FRAMES_def FIFO_SECTORS_def mod_Suc div_Suc mod_simps)

lemma same_frames_all:
  "same_frames n s ((h + x div 588) mod 2, x mod 588) lr \<Longrightarrow> 0 < i \<Longrightarrow> i \<le> n \<Longrightarrow> fifo s ((h + (x + i) div 588) mod 2) ((x + i) mod 588) = lr"
proof (induction n arbitrary: x i)
  case (Suc n)
  have a: "fifo s ((h + Suc x div 588) mod 2) (Suc x mod 588) = lr" "same_frames n s ((h + Suc x div 588) mod 2, Suc x mod 588) lr"
    using Suc.prems(1) by (simp_all only: same_frames.simps next_position_shift Let_def fst_conv snd_conv if_False split: if_splits)
  show ?case
  proof (cases "i = 1")
    case False
    then show ?thesis using Suc.IH [OF a(2), of "i - 1"] Suc.prems by simp
  qed (use a in simp)
qed simp

lemma constant_input_frames:
  assumes ok: "pos_ok s" and c: "constant_input s E = Some (l, r)" and k: "k < E" "has_data s \<Longrightarrow> k < room s"
  shows "tick_out ((tick ^^ k) s) = Some (l, r)"
proof -
  let ?f = "current_field (fader s)" and ?t = "target_field (fader s)"
  note out = out_glide [OF ok k(2)]
  consider (silent) "\<not> has_data s" | (mute) "has_data s" "?f = 0" "?t = 0"
    | (same) "has_data s" "\<not> (?f = 0 \<and> ?t = 0)" by blast
  then show ?thesis
  proof cases
    case silent
    then show ?thesis using out c by (simp add: constant_input_def Let_def)
  next
    case mute
    have "scale_sample x (fader_gain 0) = 0" for x by (simp add: scale_sample_def fader_gain_def clamp_s16_def Let_def)
    then show ?thesis using out c mute by (simp add: constant_input_def Let_def advance_field_def case_prod_unfold)
  next
    case same
    obtain x y where xy: "fifo s (fifo_head s) (fifo_frame s) = (x, y)" by (metis surj_pair)
    have pos: "fifo_head s = (fifo_head s + fifo_frame s div 588) mod 2" "fifo_frame s = fifo_frame s mod 588"
      using ok by (simp_all add: pos_ok_def SECTOR_FRAMES_def FIFO_SECTORS_def)
    have a: "?f = ?t \<or> x = 0 \<and> y = 0" "same_frames (E - 1) s (fifo_head s, fifo_frame s) (x, y)"
      "l = scale_sample x (fader_gain ?f)" "r = scale_sample y (fader_gain ?f)"
      using c same xy by (auto simp: constant_input_def Let_def owned_scale_gain split: if_splits)
    have "fifo s ((fifo_head s + (fifo_frame s + k) div 588) mod 2) ((fifo_frame s + k) mod 588) = (x, y)"
      using same_frames_all [of "E - 1" s "fifo_head s" "fifo_frame s" "(x, y)" k] a(2) k(1) xy pos by (cases "k = 0") simp_all
    moreover have "scale_sample z (fader_gain (advance_field k ?f ?t)) = scale_sample z (fader_gain ?f)" if "?f = ?t \<or> z = 0" for z
      using that by (auto simp: advance_field_def)
    ultimately show ?thesis using out same(1) a by (simp add: Let_def) blast
  qed
qed

section \<open>The two ways to advance\<close>

definition heard :: "nat \<Rightarrow> SegaCDCdda \<Rightarrow> nat" where
  "heard n s = (if has_data s \<and> room s < n then room s else n)"

lemma heard_le: "heard n s \<le> n" "has_data s \<Longrightarrow> heard n s \<le> room s"
  by (auto simp: heard_def)

lemma ticks_heard:
  assumes "pos_ok s"
  shows "(tick ^^ (heard n s + j)) s = (tick ^^ j) (tally (heard n s) (glide (heard n s) s))"
  using ticks_glide [OF assms heard_le(2), of n] by (simp add: add.commute [of _ j] funpow_add)

lemma heard_dry:
  assumes "pos_ok s" "heard n s < n"
  shows "has_data (tally (heard n s) (glide (heard n s) s))" "fifo_count (tally (heard n s) (glide (heard n s) s)) = 0"
  using assms glide_dry [OF assms(1)] by (auto simp: heard_def tally_def split: if_splits)

lemma out_heard:
  assumes "pos_ok s" "k < n"
  shows "tick_out ((tick ^^ k) s) = None \<longleftrightarrow> heard n s \<le> k"
proof (cases "k < heard n s")
  case True
  have "has_data s \<Longrightarrow> k < room s" using True heard_le(2) [of s n] by simp
  note out_glide [OF assms(1) this]
  then show ?thesis using True by (simp add: Let_def case_prod_unfold)
next
  case False
  then obtain j where j: "k = heard n s + j" by (metis le_Suc_ex not_less)
  note dry = heard_dry [OF assms(1), of n]
  have "tick_out ((tick ^^ k) s) = None"
    unfolding j ticks_heard [OF assms(1)] using dry assms(2) j by (subst dry_ticks) (auto simp: tick_out_def Let_def)
  then show ?thesis using False by simp
qed

lemma upt_heard: "[0..<n] = [0..<heard n s] @ [heard n s..<n]"
  using upt_add_eq_append [of 0 "heard n s" "n - heard n s"] heard_le(1) [of n s] by simp

lemma played_heard: "pos_ok s \<Longrightarrow> played n s = heard n s"
proof -
  assume ok: "pos_ok s"
  have a: "filter (\<lambda>k. tick_out ((tick ^^ k) s) \<noteq> None) [0..<heard n s] = [0..<heard n s]"
    by (intro filter_True ballI) (use out_heard [OF ok, of _ n] heard_le(1) [of n s] in \<open>simp add: not_le\<close>)
  have b: "filter (\<lambda>k. tick_out ((tick ^^ k) s) \<noteq> None) [heard n s..<n] = []"
    using out_heard [OF ok, of _ n] by (intro filter_False) auto
  show ?thesis unfolding played_def upt_heard [of n s] filter_append a b by simp
qed

lemma play_heard:
  assumes ok: "pos_ok s"
  shows "play_ticks sink c p n s m = fold sink (map (frame_of c p s) [0..<heard n s]) m"
proof -
  let ?d = "\<lambda>k. deliver sink (of_nat (tick_stamp c p k)) (tick_out ((tick ^^ k) s))"
  have a: "fold ?d [0..<heard n s] m = fold (\<lambda>k. sink (frame_of c p s k)) [0..<heard n s] m"
  proof (intro fold_cong refl)
    fix k assume "k \<in> set [0..<heard n s]"
    then obtain l r where "tick_out ((tick ^^ k) s) = Some (l, r)"
      using out_heard [OF ok, of k n] heard_le(1) [of n s] by (cases "tick_out ((tick ^^ k) s)") auto
    then show "?d k = sink (frame_of c p s k)" by (simp add: fun_eq_iff deliver_def frame_of_def)
  qed
  have b: "fold ?d ks m' = m'" if "set ks \<subseteq> {heard n s..<n}" for ks m'
    using that
  proof (induction ks arbitrary: m')
    case (Cons k ks)
    then have "tick_out ((tick ^^ k) s) = None" using out_heard [OF ok, of k n] by simp
    then show ?case using Cons by (simp add: deliver_def)
  qed simp
  show ?thesis unfolding play_ticks_def upt_heard [of n s] fold_append o_apply a by (simp add: b fold_map o_def)
qed

lemma ticks_finish:
  assumes ok: "pos_ok s" and n: "n < 2 ^ 64"
  shows "((tick ^^ n) s)\<lparr>clock_now := target, cd_phase := tot mod CDDA_CLOCK\<rparr> =
    finish_owned target tot (of_nat n) (of_nat (heard n s)) (has_data s) (glide (heard n s) s)"
proof -
  define E j where "E = heard n s" and "j = n - E"
  have E: "E \<le> n" by (simp add: E_def heard_le)
  then have nj: "n = E + j" by (simp add: j_def)
  have u: "unat (of_nat n :: u64) = n" "unat (of_nat E :: u64) = E" using n E by (simp_all add: unat_u64)
  have lt: "of_nat E < (of_nat n :: u64) \<longleftrightarrow> j \<noteq> 0" unfolding word_less_nat_alt u j_def using E by linarith
  have s: "(tick ^^ n) s = (tick ^^ j) (tally E (glide E s))"
    using ticks_heard [OF ok, of n j] by (simp only: E_def [symmetric] nj [symmetric])
  have nu: "(of_nat n :: u64) = of_nat E + of_nat j" unfolding nj by simp
  show ?thesis
  proof (cases "j = 0")
    case True
    then show ?thesis unfolding s nu E_def [symmetric] by (simp add: finish_owned_def tally_def Let_def)
  next
    case False
    then have dry: "has_data (tally E (glide E s))" "fifo_count (tally E (glide E s)) = 0"
      using heard_dry [OF ok, of n] lt u by (simp_all add: E_def [symmetric] j_def)
    have data: "has_data s" using dry(1) by (simp add: tally_def)
    show ?thesis
      unfolding s dry_ticks [OF dry] E_def [symmetric] using False lt data nu
      by (simp add: finish_owned_def tally_def Let_def)
  qed
qed

text \<open>The numbers of the chunked path.\<close>

definition tick_total :: "u64 \<Rightarrow> SegaCDCdda \<Rightarrow> nat" where
  "tick_total target s = unat (cd_phase s) + (unat target - unat (clock_now s)) * 44100"

definition tick_count :: "u64 \<Rightarrow> SegaCDCdda \<Rightarrow> nat" where
  "tick_count target s = tick_total target s div 12500000"

definition available_frames :: "SegaCDCdda \<Rightarrow> u64" where
  "available_frames s = (if fifo_count s \<noteq> 0 then of_nat (fifo_count s) * of_nat SECTOR_FRAMES - of_nat (fifo_frame s) else 0)"

lemma owned_words:
  assumes "\<not> owned_refused target s"
  shows "unat (cd_phase s) < 12500000" "clock_now s \<le> target" "pos_ok s" "\<not> unsupported s" "tick_total target s < 2 ^ 64"
    "cd_phase s + (target - clock_now s) * CDDA_RATE = of_nat (tick_total target s)"
    "available_frames s = of_nat (room s)" "room s \<le> 1176"
proof -
  let ?p = "unat (cd_phase s)" and ?d = "unat target - unat (clock_now s)"
  have r: "clock_now s \<le> target" "cd_phase s < 12500000" "\<not> unsupported s" "fifo_count s \<le> 2" "fifo_head s < 2" "fifo_frame s < 588"
    "target - clock_now s \<le> (- 1 - cd_phase s) div 44100"
    using assms by (auto simp: owned_refused_def CDDA_CLOCK_def CDDA_RATE_def FIFO_SECTORS_def SECTOR_FRAMES_def not_less not_le)
  show p: "?p < 12500000" "clock_now s \<le> target" "pos_ok s" "\<not> unsupported s"
    using r by (simp_all add: word_less_nat_alt pos_ok_def SECTOR_FRAMES_def FIFO_SECTORS_def)
  have d: "unat (target - clock_now s) = ?d" using r(1) by (simp add: unat_sub)
  have m: "unat (- 1 :: u64) = 18446744073709551615" by (simp add: unsigned_minus_1_eq_mask mask_eq_exp_minus_1)
  have "cd_phase s \<le> - 1" by simp
  then have "unat (- 1 - cd_phase s) = 18446744073709551615 - ?p" by (simp add: unat_sub m)
  then have "?d \<le> (18446744073709551615 - ?p) div 44100" using r(7) d by (simp add: word_le_nat_alt unat_div_distrib)
  then have "?d * 44100 \<le> (18446744073709551615 - ?p) div 44100 * 44100" by (rule mult_right_mono) simp
  also have "\<dots> \<le> 18446744073709551615 - ?p" by (rule div_times_less_eq_dividend)
  finally show "tick_total target s < 2 ^ 64" using p(1) by (simp add: tick_total_def)
  show "cd_phase s + (target - clock_now s) * CDDA_RATE = of_nat (tick_total target s)"
    unfolding tick_total_def d [symmetric] by (simp add: CDDA_RATE_def)
  show "available_frames s = of_nat (room s)" "room s \<le> 1176"
    using r(4,6) by (auto simp: room_def available_frames_def SECTOR_FRAMES_def of_nat_diff)
qed

lemma plain_advance:
  assumes "\<not> owned_refused target s"
  defines "n \<equiv> tick_count target s"
  shows "segacd_cdda_advance_to sink target (s, m) =
    (owned_result (of_nat n) (of_nat (heard n s)), of_nat (heard n s),
     finish_owned target (of_nat (tick_total target s)) (of_nat n) (of_nat (heard n s)) (has_data s) (glide (heard n s) s),
     fold sink (map (frame_of (unat (clock_now s)) (unat (cd_phase s)) s) [0..<heard n s]) m)"
proof -
  note w = owned_words [OF assms(1)]
  have n: "n < 2 ^ 64" using w(5) div_le_dividend [of "tick_total target s" 12500000] by (simp add: n_def tick_count_def)
  have u: "unat (of_nat n :: u64) = n" "unat (of_nat (heard n s) :: u64) = heard n s"
    using n heard_le(1) [of n s] by (simp_all add: unat_u64)
  have lt: "(of_nat (heard n s) < (of_nat n :: u64)) = (heard n s < n)" unfolding word_less_nat_alt u ..
  have m: "(of_nat (tick_total target s mod 12500000) :: u64) = of_nat (tick_total target s) mod CDDA_CLOCK"
    using of_nat_mod_u64 [of "tick_total target s" 12500000] w(5) by (simp add: CDDA_CLOCK_def)
  have "advance_loop sink target s m 0 False =
    (((tick ^^ n) s)\<lparr>clock_now := target, cd_phase := of_nat (tick_total target s mod 12500000)\<rparr>,
     play_ticks sink (unat (clock_now s)) (unat (cd_phase s)) n s m, 0 + of_nat (played n s), False \<or> played n s < n)"
    unfolding tick_total_def
    by (rule advance_loop_ticks [OF w(1,2)]) (simp add: n_def tick_count_def tick_total_def)
  then show ?thesis
    using w(2,4) unfolding m ticks_finish [OF w(3) n] play_heard [OF w(3)] played_heard [OF w(3)]
    by (simp add: segacd_cdda_advance_to_def owned_result_def lt not_less)
qed

lemma first_stamps:
  assumes "unat (cd_phase s) < 12500000" "clock_now s \<le> target" "0 < tick_count target s"
  defines "c \<equiv> unat (clock_now s)" and "p \<equiv> unat (cd_phase s)"
  shows "(clock_now s + first_need s, ucast (cd_phase s + first_need s * CDDA_RATE - CDDA_CLOCK)) = owned_stamp c p 0"
    "clock_now s + first_need s = of_nat (tick_stamp c p 0)"
proof -
  have need: "first_need s = ticks_needed s" by (simp add: first_need_def ticks_needed_def)
  note t = ticks_needed_nat [OF assms(1), folded need p_def]
  show a: "clock_now s + first_need s = of_nat (tick_stamp c p 0)"
    unfolding tick_stamp_0 of_nat_add t(1) [symmetric] by (simp add: c_def)
  define q where "q = p + lead p * 44100 - 12500000"
  have q: "q < 44100" unfolding q_def using lead_bounds(2) [of p] assms(1) by (simp add: p_def)
  have "cd_phase s + first_need s * CDDA_RATE - CDDA_CLOCK = of_nat q"
    unfolding q_def t(2) [symmetric] by simp
  then have "(ucast (cd_phase s + first_need s * CDDA_RATE - CDDA_CLOCK) :: u32) = of_nat q"
    using q by (simp add: unsigned_of_nat take_bit_nat_eq_self)
  moreover have "44099 - (44099 - q + 0 * 12500000) mod 44100 = q" using q by simp
  ultimately show "(clock_now s + first_need s, ucast (cd_phase s + first_need s * CDDA_RATE - CDDA_CLOCK)) = owned_stamp c p 0"
    unfolding owned_stamp_def a q_def [symmetric] by simp
qed

lemma last_stamp:
  assumes "unat (cd_phase s) < 12500000" "0 < E" "E < 2 ^ 32"
  shows "clock_now s + (of_nat E * CDDA_CLOCK - cd_phase s + CDDA_RATE - 1) div CDDA_RATE = of_nat (tick_stamp (unat (clock_now s)) (unat (cd_phase s)) (E - 1))"
proof -
  let ?p = "unat (cd_phase s)"
  have "of_nat E * 12500000 - cd_phase s + 44100 - 1 = (of_nat (E * 12500000 + 44099 - ?p) :: u64)"
    using assms by (simp add: of_nat_diff)
  moreover have "E * 12500000 + 44099 - ?p < 2 ^ 64" using assms(3) by simp
  ultimately have "(of_nat E * CDDA_CLOCK - cd_phase s + CDDA_RATE - 1) div CDDA_RATE = of_nat ((E * 12500000 + 44099 - ?p) div 44100)"
    using of_nat_div_u64 [of "E * 12500000 + 44099 - ?p" 44100] by (simp add: CDDA_CLOCK_def CDDA_RATE_def)
  moreover have "Suc (E - 1) = E" using assms(2) by simp
  ultimately show ?thesis unfolding tick_stamp_def by simp
qed

lemma owned_unfold:
  assumes r: "\<not> owned_refused target s"
  defines "n \<equiv> tick_count target s" and "c \<equiv> unat (clock_now s)" and "p \<equiv> unat (cd_phase s)"
  defines "E \<equiv> heard n s"
  shows "segacd_cdda_advance_owned sink (Some owned) target (s, m) =
    (let plain = segacd_cdda_advance_to sink target (s, m);
         fin = (\<lambda>s1 g m. (owned_result (of_nat n) (of_nat E), of_nat E,
                  finish_owned target (of_nat (tick_total target s)) (of_nat n) (of_nat E) (has_data s) s1, o_commit owned g m))
     in if E = 0 \<or> 2 ^ 32 \<le> E then plain
        else case cdda_constant owned E s m of Some (s1, g) \<Rightarrow> fin s1 g m
             | None \<Rightarrow>
                 (case o_begin owned m (of_nat (tick_stamp c p 0)) (of_nat (tick_stamp c p (E - 1))) E of None \<Rightarrow> plain
                  | Some g \<Rightarrow> if g_count g \<noteq> E then plain
                      else case write_chunks E owned g E 0 s (owned_stamp c p 0, m) of (s1, m) \<Rightarrow> fin s1 g m))"
proof -
  note w = owned_words [OF r]
  have n: "n < 2 ^ 64" using w(5) div_le_dividend [of "tick_total target s" 12500000] by (simp add: n_def tick_count_def)
  then have E: "E < 2 ^ 64" using heard_le(1) [of n s] by (simp add: E_def)
  have due: "of_nat (tick_total target s) div CDDA_CLOCK = (of_nat n :: u64)"
    using of_nat_div_u64 [of "tick_total target s" 12500000] w(5) by (simp add: n_def tick_count_def CDDA_CLOCK_def)
  have "unat (of_nat n :: u64) = n" "unat (of_nat (room s) :: u64) = room s" using n w(8) by (simp_all add: unat_u64)
  then have "(of_nat (room s) < (of_nat n :: u64)) = (room s < n)" unfolding word_less_nat_alt by simp
  then have em: "(if has_data s \<and> of_nat (room s) < (of_nat n :: u64) then of_nat (room s) else of_nat n) = (of_nat E :: u64)"
    unfolding E_def heard_def by simp
  have uE: "unat (of_nat E :: u64) = E" using E by (simp add: unat_u64)
  have z: "((of_nat E :: u64) = 0 \<or> 0xFFFFFFFF < (of_nat E :: u64)) = (E = 0 \<or> 2 ^ 32 \<le> E)"
    unfolding word_less_nat_alt uE using uE by (auto simp: unat_eq_0 [symmetric])
  show ?thesis
  proof (cases "E = 0 \<or> 2 ^ 32 \<le> E")
    case True
    then show ?thesis
      using r by (simp only: segacd_cdda_advance_owned_def Let_def prod.case option.case if_False if_True available_frames_def [symmetric] w(6,7) due em z)
  next
    case False
    then have "0 < n" using heard_le(1) [of n s] by (simp add: E_def)
    note first = first_stamps [OF w(1,2), folded n_def c_def p_def, OF this]
    have "0 < E" "E < 2 ^ 32" using False by simp_all
    note last = last_stamp [OF w(1) this, folded c_def p_def]
    have go: "segacd_cdda_advance_owned sink (Some owned) target (s, m) =
       (case cdda_constant owned E s m of
          Some (s1, g) \<Rightarrow> (owned_result (of_nat n) (of_nat E), of_nat E,
            finish_owned target (of_nat (tick_total target s)) (of_nat n) (of_nat E) (has_data s) s1, o_commit owned g m)
        | None \<Rightarrow>
            (case o_begin owned m (clock_now s + first_need s) (clock_now s + (of_nat E * CDDA_CLOCK - cd_phase s + CDDA_RATE - 1) div CDDA_RATE) E of
               None \<Rightarrow> segacd_cdda_advance_to sink target (s, m)
             | Some g \<Rightarrow>
                 if g_count g \<noteq> E then segacd_cdda_advance_to sink target (s, m)
                 else case write_chunks E owned g E 0 s ((clock_now s + first_need s, ucast (cd_phase s + first_need s * CDDA_RATE - CDDA_CLOCK)), m) of
                   (s1, m) \<Rightarrow> (owned_result (of_nat n) (of_nat E), of_nat E,
                     finish_owned target (of_nat (tick_total target s)) (of_nat n) (of_nat E) (has_data s) s1, o_commit owned g m)))"
      using r False
      by (simp only: segacd_cdda_advance_owned_def Let_def prod.case option.case if_False available_frames_def [symmetric] w(6,7) due em z uE)
    show ?thesis unfolding go first(1) unfolding first(2) last Let_def if_not_P [OF False] ..
  qed
qed

lemma frames_increase:
  assumes p: "unat (cd_phase s) < 12500000" "clock_now s \<le> target" and E: "E \<le> tick_count target s"
  shows "sorted_wrt (\<lambda>f g. subclock f < subclock g) (map (frame_of (unat (clock_now s)) (unat (cd_phase s)) s) [0..<E])"
proof -
  let ?t = "tick_stamp (unat (clock_now s)) (unat (cd_phase s))"
  have "?t k \<le> unat (clock_now s) + (unat target - unat (clock_now s))" if "k < E" for k
    using that E by (intro tick_stamp_le) (simp add: tick_count_def tick_total_def)
  then have "?t k < 2 ^ 64" if "k < E" for k
    using that p(2) unsigned_less [where 'a = nat, of target] by (fastforce simp: word_le_nat_alt)
  then have "unat (of_nat (?t k) :: u64) = ?t k" if "k < E" for k using that by (intro unat_u64) simp
  then show ?thesis
    using tick_stamp_less [OF p(1)] by (auto simp: sorted_wrt_iff_nth_less frame_of_def case_prod_unfold Let_def word_less_nat_alt)
qed

lemma run_frame_tick:
  assumes p: "unat (cd_phase s) < 12500000" and k: "k < 2 ^ 32" and out: "tick_out ((tick ^^ k) s) = Some (l, r)"
  shows "run_frame (owned_run s (l, r)) k = frame_of (unat (clock_now s)) (unat (cd_phase s)) s k"
proof -
  let ?p = "unat (cd_phase s)"
  define q where "q = ?p + lead ?p * 44100 - 12500000"
  have q: "q < 44100" unfolding q_def using lead_bounds(2) [OF p] .
  have need: "first_need s = ticks_needed s" by (simp add: first_need_def ticks_needed_def)
  note t = ticks_needed_nat [OF p, folded need q_def]
  have "cd_phase s + first_need s * CDDA_RATE - CDDA_CLOCK = of_nat q" unfolding t(2) [symmetric] by simp
  then have cph: "c_phase (owned_run s (l, r)) = of_nat (44099 - q)"
    using q by (simp add: owned_run_def unsigned_of_nat take_bit_nat_eq_self of_nat_diff)
  have ti: "ticks (owned_run s (l, r)) k = 44099 - q + k * 12500000"
    unfolding ticks_def cph by (simp add: owned_run_def unsigned_of_nat take_bit_nat_eq_self)
  have "run_ticks (owned_run s (l, r)) k div ucast (c_den (owned_run s (l, r))) = of_nat ((44099 - q + k * 12500000) div 44100)"
    using of_nat_div_u64 [of "44099 - q + k * 12500000" 44100] k by (simp add: run_ticks_nat ti) (simp add: owned_run_def)
  moreover have "c_first (owned_run s (l, r)) = of_nat (unat (clock_now s) + lead ?p)"
    unfolding of_nat_add t(1) [symmetric] by (simp add: owned_run_def)
  ultimately have "constant_stamp (owned_run s (l, r)) k = of_nat (tick_stamp (unat (clock_now s)) ?p k)"
    unfolding constant_stamp_def tick_stamp_run [OF p] q_def [symmetric] by simp
  then show ?thesis by (simp add: run_frame_def frame_of_def out) (simp add: owned_run_def)
qed

lemma constant_state:
  assumes "pos_ok s"
  shows "(if has_data s then skip_frames E E (set_field f s) else set_field f s) = set_field f (if has_data s then shift E s else s)"
proof -
  have "shift 0 (set_field f s) = set_field f s" "shift E (set_field f s) = set_field f (shift E s)"
    using assms by (simp_all add: shift_def set_field_def pos_ok_def SECTOR_FRAMES_def FIFO_SECTORS_def)
  then show ?thesis using skip_shift [of E E 0 "set_field f s"] by simp
qed

text \<open>Two runs that differ only in what the sink hides.\<close>

definition alike_runs :: "('m \<Rightarrow> bool) \<Rightarrow> ('m \<Rightarrow> 'v) \<Rightarrow> 'a \<times> 'm \<times> 'b \<Rightarrow> 'a \<times> 'm \<times> 'b \<Rightarrow> bool" where
  "alike_runs ok view a b \<longleftrightarrow> fst a = fst b \<and> snd (snd a) = snd (snd b) \<and> ok (fst (snd a)) \<and> ok (fst (snd b)) \<and> view (fst (snd a)) = view (fst (snd b))"

context owned_sink
begin

lemma advance_loop_alike:
  "sink = legacy \<Longrightarrow> ok m \<Longrightarrow> ok m' \<Longrightarrow> view m = view m' \<Longrightarrow>
    alike_runs ok view (advance_loop sink target s m e u) (advance_loop sink target s m' e u)"
proof (induction sink target s m e u arbitrary: m' rule: advance_loop.induct)
  case (1 sink target s m e u)
  let ?need = "ticks_needed s"
  define s1 where "s1 = s\<lparr>clock_now := clock_now s + ?need, cd_phase := cd_phase s + ?need * CDDA_RATE - CDDA_CLOCK\<rparr>"
  define d where "d = deliver sink (clock_now s1) (tick_out s1)"
  let ?e = "e + of_bool (tick_out s1 \<noteq> None)" and ?u = "u \<or> tick_out s1 = None"
  have d: "ok (d m)" "ok (d m')" "view (d m) = view (d m')"
    using "1.prems" legacy_inv legacy_view [of m m'] by (auto simp: d_def deliver_def split: option.splits prod.splits)
  note uf = tick_underflow [of s1]
  consider (tick) "clock_now s < target" "\<not> target - clock_now s < ?need" | (stop) "\<not> clock_now s < target \<or> target - clock_now s < ?need" by blast
  then show ?case
  proof cases
    case tick
    then have step: "advance_loop sink target s x e u = advance_loop sink target (tick s1) (d x) ?e ?u" for x
      using uf by (subst advance_loop.simps) (simp add: Let_def emit_tick_eq s1_def [symmetric] d_def)
    have IH: "\<And>m'. ok (d m) \<Longrightarrow> ok m' \<Longrightarrow> view (d m) = view m' \<Longrightarrow>
      alike_runs ok view (advance_loop sink target (tick s1) (d m) ?e ?u) (advance_loop sink target (tick s1) m' ?e ?u)"
      using "1.IH" [OF tick(1) refl refl tick(2) s1_def refl "1.prems"(1)] uf by (simp add: emit_tick_eq d_def [symmetric])
    show ?thesis unfolding step by (rule IH [OF d])
  next
    case stop
    then have "\<exists>t b. \<forall>x. advance_loop sink target s x e u = (t, x, b)"
      by (subst advance_loop.simps) (cases "clock_now s < target"; auto simp: Let_def)
    then show ?thesis using "1.prems" by (auto simp: alike_runs_def)
  qed
qed

lemma advance_to_alike:
  fixes s target
  assumes "ok m" "ok m'" "view m = view m'"
  defines "a \<equiv> segacd_cdda_advance_to legacy target (s, m)" and "b \<equiv> segacd_cdda_advance_to legacy target (s, m')"
  shows "fst a = fst b \<and> fst (snd a) = fst (snd b) \<and> fst (snd (snd a)) = fst (snd (snd b)) \<and>
    ok (snd (snd (snd a))) \<and> ok (snd (snd (snd b))) \<and> view (snd (snd (snd a))) = view (snd (snd (snd b)))"
  using advance_loop_alike [OF refl assms(1-3), of target s 0 False] assms(1-3)
  by (auto simp: a_def b_def segacd_cdda_advance_to_def alike_runs_def Let_def case_prod_unfold)

lemma cdda_span_frames:
  fixes s target
  assumes m: "ok m" and w: "unat (cd_phase s) < 12500000" "clock_now s \<le> target" and E: "0 < E" "E \<le> tick_count target s"
  defines "F \<equiv> frame_of (unat (clock_now s)) (unat (cd_phase s)) s" and "t \<equiv> tick_stamp (unat (clock_now s)) (unat (cd_phase s))"
  assumes g: "begin_span m (of_nat (t 0)) (of_nat (t (E - 1))) E = Some g"
  shows "ok (commit g (fold (\<lambda>k. put g k (F k)) [0..<E] m))"
    "view (commit g (fold (\<lambda>k. put g k (F k)) [0..<E] m)) = view (fold legacy (map F [0..<E]) m)"
proof -
  let ?fs = "map F [0..<E]"
  have len: "length ?fs = E" by simp
  have ne: "?fs \<noteq> []" using E(1) by simp
  have f: "fold (\<lambda>k. put g k (F k)) [0..<E] m = fold (\<lambda>i. put g i (?fs ! i)) [0..<length ?fs] m"
    unfolding len by (intro fold_cong) auto
  have sub: "subclock (F k) = of_nat (t k)" for k by (simp add: F_def t_def frame_of_def case_prod_unfold Let_def)
  have ends: "subclock (hd ?fs) = of_nat (t 0)" "subclock (last ?fs) = of_nat (t (E - 1))"
    unfolding hd_conv_nth [OF ne] last_conv_nth [OF ne] len using E(1) by (simp_all add: sub)
  have inc: "sorted_wrt (\<lambda>f g. subclock f < subclock g) ?fs" unfolding F_def by (rule frames_increase [OF w E(2)])
  have g': "begin_span m (of_nat (t 0)) (of_nat (t (E - 1))) (length ?fs) = Some g" using g len by simp
  show "ok (commit g (fold (\<lambda>k. put g k (F k)) [0..<E] m))"
    "view (commit g (fold (\<lambda>k. put g k (F k)) [0..<E] m)) = view (fold legacy ?fs m)"
    unfolding f using span_inv [OF m g' inc ends] span_view [OF m g' inc ends] by simp_all
qed

lemma cdda_owned_same:
  fixes target s
  assumes m: "ok m"
    and ow: "owned = \<lparr>o_begin = begin_span, o_commit = commit, o_write = put, o_begin_constant = (if c then Some begin_run else None)\<rparr>"
  defines "a \<equiv> segacd_cdda_advance_owned legacy (Some owned) target (s, m)" and "b \<equiv> segacd_cdda_advance_to legacy target (s, m)"
  shows "fst a = fst b \<and> fst (snd a) = fst (snd b) \<and> fst (snd (snd a)) = fst (snd (snd b)) \<and>
    ok (snd (snd (snd a))) \<and> view (snd (snd (snd a))) = view (snd (snd (snd b)))"
proof (cases "a = b")
  case True
  then show ?thesis using advance_to_alike [OF m m refl, of target s] by (simp add: b_def)
next
  case False
  then have r: "\<not> owned_refused target s" by (auto simp: a_def b_def segacd_cdda_advance_owned_def)
  note w = owned_words [OF r]
  define n E where "n = tick_count target s" and "E = heard n s"
  let ?F = "frame_of (unat (clock_now s)) (unat (cd_phase s)) s" and ?t = "tick_stamp (unat (clock_now s)) (unat (cd_phase s))"
  note un = owned_unfold [OF r, of legacy owned m, folded a_def b_def n_def, folded E_def]
  note pl = plain_advance [OF r, of legacy m, folded b_def n_def, folded E_def]
  have E: "0 < E" "E < 2 ^ 32" "E \<le> tick_count target s" using False un heard_le(1) [of n s] by (auto simp: Let_def E_def n_def split: if_splits)
  have hd: "has_data s \<Longrightarrow> E \<le> room s" unfolding E_def by (rule heard_le(2))
  show ?thesis
  proof (cases "cdda_constant owned E s m")
    case (Some sg)
    then obtain l r g where c: "constant_input s E = Some (l, r)" "begin_run m (owned_run s (l, r)) E = Some g"
      "sg = (set_field (advance_field E (current_field (fader s)) (target_field (fader s))) (if has_data s then shift E s else s), g)"
      using constant_state [OF w(3), of E] by (auto simp: cdda_constant_def ow Let_def split: option.splits if_splits prod.splits)
    have "tick_out ((tick ^^ k) s) = Some (l, r)" if "k < E" for k
      by (rule constant_input_frames [OF w(3) c(1) that]) (use hd that in simp)
    then have fr: "map (run_frame (owned_run s (l, r))) [0..<E] = map ?F [0..<E]"
      using E(2) by (auto intro!: run_frame_tick [OF w(1)])
    show ?thesis
      using un Some E(1,2) c(3) pl run_view [OF m c(2)] run_inv [OF m c(2)]
      by (simp add: fr glide_def [symmetric]) (simp add: ow)
  next
    case None
    then obtain g where g: "begin_span m (of_nat (?t 0)) (of_nat (?t (E - 1))) E = Some g"
      "a = (case write_chunks E owned g E 0 s (owned_stamp (unat (clock_now s)) (unat (cd_phase s)) 0, m) of
         (s1, m) \<Rightarrow> (owned_result (of_nat n) (of_nat E), of_nat E,
           finish_owned target (of_nat (tick_total target s)) (of_nat n) (of_nat E) (has_data s) s1, commit g m))"
      using un False E(1,2) by (auto simp: ow Let_def split: option.splits if_splits)
    have put: "o_write owned = put" by (simp add: ow)
    have wr: "write_chunks E owned g E 0 s (owned_stamp (unat (clock_now s)) (unat (cd_phase s)) 0, m) =
        (glide E s, fold (\<lambda>k. put g k (?F k)) [0..<E] m)"
      using write_chunks_glide [OF w(1,3) hd, where d = 0 and bound = E and owned = owned and g = g and c = "unat (clock_now s)" and m = m]
      unfolding glide_0 [OF w(3)] by (simp add: put)
    show ?thesis
      using g(2) pl cdda_span_frames [OF m w(1,2) E(1,3) g(1)] by (simp add: wr)
  qed
qed

lemma cdda_owned_alike:
  fixes target s
  assumes m: "ok m" "ok m'" "view m = view m'"
    and ow: "owned = \<lparr>o_begin = begin_span, o_commit = commit, o_write = put, o_begin_constant = (if c then Some begin_run else None)\<rparr>"
  defines "a \<equiv> segacd_cdda_advance_owned legacy (Some owned) target (s, m)" and "b \<equiv> segacd_cdda_advance_to legacy target (s, m')"
  shows "fst a = fst b \<and> fst (snd a) = fst (snd b) \<and> fst (snd (snd a)) = fst (snd (snd b)) \<and>
    ok (snd (snd (snd a))) \<and> ok (snd (snd (snd b))) \<and> view (snd (snd (snd a))) = view (snd (snd (snd b)))"
  using cdda_owned_same [OF m(1) ow, of target s] advance_to_alike [OF m, of target s] by (simp add: a_def b_def)

end

section \<open>The stream in the machine\<close>

text \<open>What reaches the stream: time, sectors of the disc, transport and fader commands.\<close>

datatype cdda_event = Until u64 | Sector u64 "32 word" "u8 list" | Play | Pause | Stop | Seek | Data | Fader u16

definition cdda_command :: "cdda_event \<Rightarrow> SegaCDCdda \<Rightarrow> SegaCDCdda" where
  "cdda_command e s = (case e of Until t \<Rightarrow> s | Sector t lba raw \<Rightarrow> snd (segacd_cdda_push_raw_sector t lba raw s) | Play \<Rightarrow> segacd_cdda_play s
     | Pause \<Rightarrow> segacd_cdda_pause s | Stop \<Rightarrow> segacd_cdda_stop s | Seek \<Rightarrow> segacd_cdda_seek s | Data \<Rightarrow> segacd_cdda_clear_for_data s
     | Fader raw \<Rightarrow> snd (segacd_cdda_set_fader_target_raw raw s))"

text \<open>A machine step: the state, the sink, and the results of the advances so far.\<close>

type_synonym cdda_machine = "SegaCDCdda \<times> SegaCDNativeAudio \<times> (cdda_result \<times> u64) list"

definition cdda_step ::
  "(u64 \<Rightarrow> SegaCDCdda \<times> SegaCDNativeAudio \<Rightarrow> cdda_result \<times> u64 \<times> SegaCDCdda \<times> SegaCDNativeAudio) \<Rightarrow> cdda_event \<Rightarrow> cdda_machine \<Rightarrow> cdda_machine" where
  "cdda_step advance e st =
    (case st of (s, a, log) \<Rightarrow>
       (case e of Until t \<Rightarrow> (case advance t (s, a) of (r, n, s, a) \<Rightarrow> (s, a, log @ [(r, n)])) | _ \<Rightarrow> (cdda_command e s, a, log)))"

definition cdda_by_frames :: "cdda_event list \<Rightarrow> cdda_machine \<Rightarrow> cdda_machine" where
  "cdda_by_frames = fold (cdda_step (segacd_cdda_advance_to segacd_native_audio_cdda_sample))"

definition cdda_by_chunks :: "cdda_event list \<Rightarrow> cdda_machine \<Rightarrow> cdda_machine" where
  "cdda_by_chunks = fold (cdda_step (segacd_cdda_advance_owned segacd_native_audio_cdda_sample (Some cdda_owned_sink)))"

lemma cdda_steps_alike:
  "alike a b \<Longrightarrow> fst (cdda_by_chunks es (s, a, log)) = fst (cdda_by_frames es (s, b, log)) \<and>
    snd (snd (cdda_by_chunks es (s, a, log))) = snd (snd (cdda_by_frames es (s, b, log))) \<and>
    alike (fst (snd (cdda_by_chunks es (s, a, log)))) (fst (snd (cdda_by_frames es (s, b, log))))"
proof (induction es arbitrary: s a b log)
  case (Cons e es)
  have "\<exists>s' a' b' log'. cdda_step (segacd_cdda_advance_owned segacd_native_audio_cdda_sample (Some cdda_owned_sink)) e (s, a, log) = (s', a', log') \<and>
      cdda_step (segacd_cdda_advance_to segacd_native_audio_cdda_sample) e (s, b, log) = (s', b', log') \<and> alike a' b'"
  proof (cases e)
    case (Until t)
    have "cdda_owned_sink = \<lparr>o_begin = begin_cdda_span, o_commit = commit_source_span, o_write = write_span,
        o_begin_constant = (if True then Some begin_cdda_constant else None)\<rparr>" by (simp add: cdda_owned_sink_def)
    note x = cdda_sink.cdda_owned_alike [OF _ _ _ this, of a b t s]
    show ?thesis
      using x Cons.prems Until
      by (cases "segacd_cdda_advance_owned segacd_native_audio_cdda_sample (Some cdda_owned_sink) t (s, a)";
          cases "segacd_cdda_advance_to segacd_native_audio_cdda_sample t (s, b)") (simp add: cdda_step_def alike_def)
  qed (use Cons.prems in \<open>simp_all add: cdda_step_def\<close>)
  then show ?case using Cons.IH by (auto simp: cdda_by_chunks_def cdda_by_frames_def)
qed (simp add: cdda_by_chunks_def cdda_by_frames_def)

text \<open>
  C40: The chunked path of the CD audio stream is exact. Over any sequence of advances, sectors, transport and
  fader commands, with the sink the machine attaches to the mixer, it gives the same results and frame
  counts, the same stream state, and the mixer the same queued frames, counters, faults and results as
  playing frame by frame.
\<close>

theorem cdda_owned_exact:
  assumes "native_ok a"
  shows "fst (cdda_by_chunks es (s, a, [])) = fst (cdda_by_frames es (s, a, [])) \<and>
    snd (snd (cdda_by_chunks es (s, a, []))) = snd (snd (cdda_by_frames es (s, a, []))) \<and>
    native_view (fst (snd (cdda_by_chunks es (s, a, [])))) = native_view (fst (snd (cdda_by_frames es (s, a, []))))"
  using cdda_steps_alike [of a a es s "[]"] assms by (simp add: alike_def)

theorem cdda_owned_exact_witness:
  "snd (snd (cdda_by_chunks [Until 100, Play, Sector 100 7 (replicate 2352 5), Fader 0x100, Until 300000] (segacd_cdda_reset 0 0x4000, the (segacd_native_audio_create False), []))) =
    snd (snd (cdda_by_frames [Until 100, Play, Sector 100 7 (replicate 2352 5), Fader 0x100, Until 300000] (segacd_cdda_reset 0 0x4000, the (segacd_native_audio_create False), [])))"
  using cdda_owned_exact [OF native_create_ok] by blast

end
