(* ===== verification/Cd_Cdc.thy ===== *)
theory Cd_Cdc
  imports Prelude
begin

text \<open>
  The CD controller of the Sega CD, \<^verbatim>\<open>runner/cd/cdc.c\<close> (an LC8951): a 16 KB ring of decoded sectors,
  sixteen registers behind an address register that counts up, a two-byte FIFO through which a host reads
  a programmed block, and an interrupt pulse per decoded sector. The status flags are active low.
\<close>

section \<open>State\<close>

definition DTEI :: u8 where "DTEI = 64"
definition DECI :: u8 where "DECI = 32"
definition DTBSY :: u8 where "DTBSY = 8"
definition DTEN :: u8 where "DTEN = 2"
definition DOUTEN :: u8 where "DOUTEN = 2"
definition DECEN :: u8 where "DECEN = 128"
definition WRRQ :: u8 where "WRRQ = 4"

record SegaCDCdc =
  cdc_ram :: "nat \<Rightarrow> u8"
  ar :: u8
  ifstat :: u8
  ifctrl :: u8
  ctrl0 :: u8
  ctrl1 :: u8
  comin :: u8
  sbout :: u8
  sec_header :: "u8 \<times> u8 \<times> u8 \<times> u8"
  sec_subheader :: "u8 \<times> u8 \<times> u8 \<times> u8"
  sec_status :: "u8 \<times> u8 \<times> u8 \<times> u8"
  dbc :: u16
  dac :: u16
  write_address :: u16
  block_pointer :: u16
  remaining :: u16
  host_fifo :: "nat \<Rightarrow> u8"
  host_head :: u8
  host_count :: u8
  transfer_active :: bool
  transfer_end :: bool
  decoder_irq_clocks :: u32
  sectors :: u64

definition byte_of :: "u8 \<times> u8 \<times> u8 \<times> u8 \<Rightarrow> nat \<Rightarrow> u8" where
  "byte_of q n = (case q of (a, b, c, d) \<Rightarrow> if n = 0 then a else if n = 1 then b else if n = 2 then c else d)"

definition address_next :: "SegaCDCdc \<Rightarrow> SegaCDCdc" where
  "address_next c = (if ar c \<noteq> 0 then c\<lparr>ar := (ar c + 1) AND 15\<rparr> else c)"

text \<open>The soft reset keeps the sector memory and the address registers.\<close>

definition segacd_cdc_reset :: "SegaCDCdc \<Rightarrow> SegaCDCdc" where
  "segacd_cdc_reset c = c\<lparr>ar := 0, comin := 0, ifctrl := 0, ctrl0 := 0, ctrl1 := 0, sbout := 0, ifstat := 255,
     host_head := 0, host_count := 0, transfer_active := False, transfer_end := False, remaining := 0,
     decoder_irq_clocks := 0\<rparr>"

definition segacd_cdc_init :: SegaCDCdc where
  "segacd_cdc_init = segacd_cdc_reset \<lparr>cdc_ram = \<lambda>_. 0, ar = 0, ifstat = 0, ifctrl = 0, ctrl0 = 0, ctrl1 = 0, comin = 0,
     sbout = 0, sec_header = (0, 0, 0, 0), sec_subheader = (0, 0, 0, 0), sec_status = (0, 0, 0, 0), dbc = 0, dac = 0,
     write_address = 0, block_pointer = 0, remaining = 0, host_fifo = \<lambda>_. 0, host_head = 0, host_count = 0,
     transfer_active = False, transfer_end = False, decoder_irq_clocks = 0, sectors = 0\<rparr>"

definition segacd_cdc_address :: "u8 \<Rightarrow> SegaCDCdc \<Rightarrow> SegaCDCdc" where
  "segacd_cdc_address v c = c\<lparr>ar := v AND 15\<rparr>"

definition segacd_cdc_irq :: "SegaCDCdc \<Rightarrow> bool" where
  "segacd_cdc_irq c \<longleftrightarrow> NOT (ifstat c) AND ifctrl c AND 0xE0 \<noteq> 0"

definition segacd_cdc_advance :: "u32 \<Rightarrow> SegaCDCdc \<Rightarrow> SegaCDCdc" where
  "segacd_cdc_advance clocks c =
    (if decoder_irq_clocks c = 0 then c
     else if clocks \<ge> decoder_irq_clocks c then c\<lparr>decoder_irq_clocks := 0, ifstat := ifstat c OR DECI\<rparr>
     else c\<lparr>decoder_irq_clocks := decoder_irq_clocks c - clocks\<rparr>)"

section \<open>The host side\<close>

definition load_byte :: "SegaCDCdc \<Rightarrow> SegaCDCdc" where
  "load_byte c = c\<lparr>host_fifo := (host_fifo c)(unat ((host_head c + host_count c) AND 1) := cdc_ram c (unat (dac c AND 16383))),
     dac := dac c + 1, host_count := host_count c + 1\<rparr>"

function load_fifo :: "SegaCDCdc \<Rightarrow> SegaCDCdc" where
  "load_fifo c = (if host_count c < 2 \<and> ucast (host_count c) < remaining c then load_fifo (load_byte c) else c)"
  by pat_completeness auto
termination
proof (relation "measure (\<lambda>c. 2 - unat (host_count c))")
  fix c :: SegaCDCdc assume "host_count c < 2 \<and> ucast (host_count c) < remaining c"
  then have "unat (host_count c) < 2" by (simp add: word_less_nat_alt)
  moreover from this have "unat (host_count c + 1) = unat (host_count c) + 1" by (simp add: unat_word_ariths)
  ultimately show "(load_byte c, c) \<in> measure (\<lambda>c. 2 - unat (host_count c))" by (simp add: load_byte_def)
qed simp

declare load_fifo.simps [simp del]

definition refill :: "SegaCDCdc \<Rightarrow> SegaCDCdc" where
  "refill c =
    (if \<not> transfer_active c then c
     else let c = load_fifo c
          in c\<lparr>ifstat := (if host_count c \<noteq> 0 then ifstat c AND NOT DTEN else ifstat c OR DTEN)\<rparr>)"

definition end_transfer :: "SegaCDCdc \<Rightarrow> SegaCDCdc" where
  "end_transfer c = c\<lparr>transfer_active := False, transfer_end := True, ifstat := (ifstat c OR DTBSY) AND NOT DTEI\<rparr>"

text \<open>No result when there is no byte to read; nothing changes then.\<close>

definition segacd_cdc_host_read :: "SegaCDCdc \<Rightarrow> u8 option \<times> SegaCDCdc" where
  "segacd_cdc_host_read c =
    (if host_count c = 0 \<or> ifctrl c AND DOUTEN = 0 then (None, c)
     else
       let v = host_fifo c (unat (host_head c));
           c = c\<lparr>host_head := host_head c XOR 1, host_count := host_count c - 1, remaining := remaining c - 1,
             dbc := (dbc c - 1) AND 4095\<rparr>;
           c = (if remaining c = 0 then end_transfer c else refill c)
       in (Some v, if host_count c = 0 then c\<lparr>ifstat := ifstat c OR DTEN\<rparr> else c))"

section \<open>Registers\<close>

definition segacd_cdc_peek :: "SegaCDCdc \<Rightarrow> u8" where
  "segacd_cdc_peek c =
    (let r = unat (ar c)
     in if r = 0 then comin c
        else if r = 1 then ifstat c
        else if r = 2 then lo8 (dbc c)
        else if r = 3 then hi8 (dbc c) OR (if ifstat c AND DTEI \<noteq> 0 then 0xF0 else 0)
        else if 4 \<le> r \<and> r \<le> 7 then byte_of (if ctrl1 c AND 1 \<noteq> 0 then sec_subheader c else sec_header c) (r - 4)
        else if r = 8 then lo8 (block_pointer c)
        else if r = 9 then hi8 (block_pointer c)
        else if r = 10 then lo8 (write_address c)
        else if r = 11 then hi8 (write_address c)
        else if 12 \<le> r \<and> r \<le> 15 then byte_of (sec_status c) (r - 12)
        else 0)"

definition segacd_cdc_read :: "SegaCDCdc \<Rightarrow> u8 \<times> SegaCDCdc" where
  "segacd_cdc_read c =
    (let v = segacd_cdc_peek c;
         c = (if ar c = 0 then c\<lparr>comin := 0, ifstat := ifstat c OR 128\<rparr> else c);
         c = (if ar c = 15 then c\<lparr>ifstat := ifstat c OR DECI, decoder_irq_clocks := 0\<rparr> else c)
     in (v, address_next c))"

definition start_transfer :: "SegaCDCdc \<Rightarrow> SegaCDCdc" where
  "start_transfer c =
    refill (c\<lparr>remaining := dbc c + 1, host_head := 0, host_count := 0, transfer_active := True, transfer_end := False,
      ifstat := ifstat c AND NOT DTBSY\<rparr>)"

definition abort_transfer :: "SegaCDCdc \<Rightarrow> SegaCDCdc" where
  "abort_transfer c = c\<lparr>transfer_active := False, host_count := 0, remaining := 0, ifstat := ifstat c OR (DTBSY OR DTEN)\<rparr>"

definition write_reg :: "nat \<Rightarrow> u8 \<Rightarrow> SegaCDCdc \<Rightarrow> SegaCDCdc" where
  "write_reg r v c =
    (if r = 0 then c\<lparr>sbout := v\<rparr>
     else if r = 1 then (let c = c\<lparr>ifctrl := v\<rparr> in if v AND DOUTEN = 0 then abort_transfer c else c)
     else if r = 2 then (if \<not> transfer_active c then c\<lparr>dbc := (dbc c AND 0xF00) OR ucast v\<rparr> else c)
     else if r = 3 then (if \<not> transfer_active c then c\<lparr>dbc := (dbc c AND 255) OR push_bit 8 (ucast (v AND 15))\<rparr> else c)
     else if r = 4 then (if \<not> transfer_active c then c\<lparr>dac := be16 (hi8 (dac c)) v\<rparr> else c)
     else if r = 5 then (if \<not> transfer_active c then c\<lparr>dac := be16 v (lo8 (dac c))\<rparr> else c)
     else if r = 6 then (if ifctrl c AND DOUTEN \<noteq> 0 \<and> \<not> transfer_active c then start_transfer c else c)
     else if r = 7 then c\<lparr>ifstat := ifstat c OR DTEI\<rparr>
     else if r = 8 then c\<lparr>write_address := be16 (hi8 (write_address c)) v\<rparr>
     else if r = 9 then c\<lparr>write_address := be16 v (lo8 (write_address c))\<rparr>
     else if r = 10 then
       (let c = c\<lparr>ctrl0 := v AND 0xBF\<rparr>
        in if ctrl0 c AND DECEN = 0 then c\<lparr>ifstat := ifstat c OR DECI, decoder_irq_clocks := 0\<rparr> else c)
     else if r = 11 then c\<lparr>ctrl1 := v\<rparr>
     else if r = 12 then c\<lparr>block_pointer := be16 (hi8 (block_pointer c)) v\<rparr>
     else if r = 13 then c\<lparr>block_pointer := be16 v (lo8 (block_pointer c))\<rparr>
     else c)"

definition segacd_cdc_write :: "u8 \<Rightarrow> SegaCDCdc \<Rightarrow> SegaCDCdc" where
  "segacd_cdc_write v c =
    (if ar c = 15 then segacd_cdc_reset c else address_next (write_reg (unat (ar c)) v c))"

section \<open>The decoder side\<close>

text \<open>A loop over the sector, one byte at a time: a sector of at most 16384 bytes never overwrites itself.\<close>

definition store_sector :: "u16 \<Rightarrow> u8 list \<Rightarrow> (nat \<Rightarrow> u8) \<Rightarrow> nat \<Rightarrow> u8" where
  "store_sector start raw m = fold (\<lambda>n m. m((unat start + n) mod 16384 := raw ! n)) [0..<2352] m"

definition quad :: "u8 list \<Rightarrow> nat \<Rightarrow> u8 \<times> u8 \<times> u8 \<times> u8" where
  "quad raw n = (raw ! n, raw ! (n + 1), raw ! (n + 2), raw ! (n + 3))"

definition irq_clocks :: "u8 \<Rightarrow> u8 list \<Rightarrow> u32" where
  "irq_clocks ctrl raw =
    (if ctrl AND 7 = 0 then 34375 else if raw ! 15 = 2 \<and> raw ! 18 AND 32 \<noteq> 0 then 18750 else 22500)"

definition segacd_cdc_sector :: "u8 list \<Rightarrow> bool \<Rightarrow> SegaCDCdc \<Rightarrow> SegaCDCdc" where
  "segacd_cdc_sector raw edc_ok c =
    (if ctrl0 c AND DECEN = 0 then c
     else
       let c = c\<lparr>sectors := sectors c + 1\<rparr>;
           c = (if ctrl0 c AND WRRQ \<noteq> 0
                then let start = write_address c
                     in c\<lparr>cdc_ram := store_sector start raw (cdc_ram c), block_pointer := start + 12, write_address := start + 2352\<rparr>
                else c)
       in c\<lparr>sec_header := quad raw 12, sec_subheader := quad raw 16,
            sec_status := (if edc_ok then 128 else 1, 0, push_bit 4 (raw ! 15 AND 15) OR (if edc_ok then 0 else 4), 0),
            ifstat := ifstat c AND NOT DECI, decoder_irq_clocks := irq_clocks (ctrl0 c) raw\<rparr>)"

end
