(* ===== verification/Cd_Cdc_Props.thy ===== *)
theory Cd_Cdc_Props
  imports Cd_Cdc
begin

text \<open>
  What the controller promises its host: the status flags tell the state of a transfer in every reachable
  state, and the bytes that a host reads are those of the programmed block, in order, then the end of the
  transfer. The FIFO and the rest of the block in memory together are the list of bytes to come.
\<close>

section \<open>The state of a transfer\<close>

datatype cdc_op = Select u8 | ReadReg | WriteReg u8 | HostByte | Decode "u8 list" bool | Elapse u32 | SoftReset

fun cdc_step :: "cdc_op \<Rightarrow> SegaCDCdc \<Rightarrow> SegaCDCdc" where
  "cdc_step (Select v) = segacd_cdc_address v"
| "cdc_step ReadReg = snd \<circ> segacd_cdc_read"
| "cdc_step (WriteReg v) = segacd_cdc_write v"
| "cdc_step HostByte = snd \<circ> segacd_cdc_host_read"
| "cdc_step (Decode raw ok) = segacd_cdc_sector raw ok"
| "cdc_step (Elapse n) = segacd_cdc_advance n"
| "cdc_step SoftReset = segacd_cdc_reset"

definition flags_ok :: "SegaCDCdc \<Rightarrow> bool" where
  "flags_ok c \<longleftrightarrow> (bit (ifstat c) 1 \<longleftrightarrow> host_count c = 0) \<and> (bit (ifstat c) 3 \<longleftrightarrow> \<not> transfer_active c)"

definition counts_ok :: "SegaCDCdc \<Rightarrow> bool" where
  "counts_ok c \<longleftrightarrow> unat (host_head c) \<le> 1 \<and> unat (dbc c) \<le> 4095 \<and>
    (if transfer_active c
     then unat (remaining c) = unat (dbc c) + 1 \<and> unat (host_count c) = min 2 (unat (remaining c)) \<and> bit (ifctrl c) 1
     else remaining c = 0 \<and> host_count c = 0)"

definition transfer_ok :: "SegaCDCdc \<Rightarrow> bool" where
  "transfer_ok c \<longleftrightarrow> flags_ok c \<and> counts_ok c"

lemmas flag_defs = DTEI_def DECI_def DTBSY_def DTEN_def DOUTEN_def DECEN_def WRRQ_def

lemma bit_u8_power: "k < 8 \<Longrightarrow> bit (2 ^ k :: u8) n \<longleftrightarrow> n = k"
  by (auto simp: bit_exp_iff)

lemma flag_bits:
  "bit DTEI n \<longleftrightarrow> n = 6" "bit DECI n \<longleftrightarrow> n = 5" "bit DTBSY n \<longleftrightarrow> n = 3" "bit DTEN n \<longleftrightarrow> n = 1" "bit (128 :: u8) n \<longleftrightarrow> n = 7"
  using bit_u8_power [of 6 n] bit_u8_power [of 5 n] bit_u8_power [of 3 n] bit_u8_power [of 1 n] bit_u8_power [of 7 n]
  by (simp_all add: flag_defs)

lemmas ifstat_bits = bit_or_iff bit_and_iff bit_not_iff flag_bits

lemma mask_test: "(\<And>n. bit m n \<longleftrightarrow> n = k) \<Longrightarrow> v AND m = 0 \<longleftrightarrow> \<not> bit v k" for v m :: u8
proof -
  assume "\<And>n. bit m n \<longleftrightarrow> n = k"
  then have "(\<exists>n. bit (v AND m) n) \<longleftrightarrow> bit v k" by (auto simp: bit_and_iff)
  then show ?thesis by (metis bit_0_eq bot_apply bot_bool_def bit_eqI)
qed

lemmas flag_test = mask_test [OF flag_bits(1)] mask_test [OF flag_bits(2)] mask_test [OF flag_bits(3)] mask_test [OF flag_bits(4)]

lemma douten_bit: "v AND DOUTEN \<noteq> 0 \<longleftrightarrow> bit v 1" for v :: u8
  using flag_test(4) [of v] by (simp add: flag_defs)

lemma transfer_ok_address [simp]: "transfer_ok (c\<lparr>ar := v\<rparr>) = transfer_ok c"
  by (simp add: transfer_ok_def flags_ok_def counts_ok_def)

lemma transfer_ok_next [simp]: "transfer_ok (address_next c) = transfer_ok c"
  by (simp add: address_next_def)

lemma transfer_ok_reset: "unat (dbc c) \<le> 4095 \<Longrightarrow> transfer_ok (segacd_cdc_reset c)"
proof -
  have "bit (255 :: u8) 1" "bit (255 :: u8) 3" by (simp_all add: bit_numeral_rec)
  then show "unat (dbc c) \<le> 4095 \<Longrightarrow> transfer_ok (segacd_cdc_reset c)"
    by (simp add: transfer_ok_def flags_ok_def counts_ok_def segacd_cdc_reset_def)
qed

lemma dbc_bound: "transfer_ok c \<Longrightarrow> unat (dbc c) \<le> 4095"
  by (simp add: transfer_ok_def counts_ok_def)

section \<open>The bytes to come\<close>

definition fifo_bytes :: "SegaCDCdc \<Rightarrow> u8 list" where
  "fifo_bytes c = map (\<lambda>i. host_fifo c (unat ((host_head c + of_nat i) AND 1))) [0..<unat (host_count c)]"

definition ram_bytes :: "SegaCDCdc \<Rightarrow> u8 list" where
  "ram_bytes c = map (\<lambda>i. cdc_ram c (unat ((dac c + of_nat i) AND 16383))) [0..<unat (remaining c) - unat (host_count c)]"

definition to_read :: "SegaCDCdc \<Rightarrow> u8 list" where
  "to_read c = fifo_bytes c @ ram_bytes c"

lemma length_to_read: "unat (host_count c) \<le> unat (remaining c) \<Longrightarrow> length (to_read c) = unat (remaining c)"
  by (simp add: to_read_def fifo_bytes_def ram_bytes_def)

lemma unat_ucast_u8: "unat (ucast x :: u16) = unat x" for x :: u8
  using unsigned_less [where 'a = nat, of x] by (simp add: unsigned_ucast_eq take_bit_nat_eq_self)

lemma other_slot: "unat ((h + 1) AND 1) \<noteq> unat (h AND 1)" for h :: u8
  by (simp add: and_one_eq mod2_eq_if)

lemma load_byte_to_read:
  assumes "unat (host_count c) < 2" "unat (host_count c) < unat (remaining c)"
  shows "to_read (load_byte c) = to_read c"
proof -
  define n where "n = unat (remaining c) - unat (host_count c)"
  obtain k where k: "n = Suc k" using assms(2) by (cases n) (simp_all add: n_def)
  have n: "[0..<n] = 0 # map Suc [0..<n - 1]"
    by (simp add: k upt_conv_Cons map_Suc_upt del: upt_Suc)
  have count: "unat (host_count c + 1) = unat (host_count c) + 1" using assms(1) by (simp add: unat_word_ariths)
  have "fifo_bytes (load_byte c) = fifo_bytes c @ [cdc_ram c (unat (dac c AND 16383))]"
  proof (cases "host_count c = 0")
    case False
    then have one: "host_count c = 1" using assms(1) by (simp add: word_unat_eq_iff less_2_cases_iff)
    show ?thesis using other_slot [of "host_head c"] by (simp add: fifo_bytes_def load_byte_def one upt_rec)
  qed (simp add: fifo_bytes_def load_byte_def)
  moreover have "ram_bytes c = cdc_ram c (unat (dac c AND 16383)) # ram_bytes (load_byte c)"
  proof -
    have "ram_bytes (load_byte c) = map (\<lambda>i. cdc_ram c (unat ((dac c + 1 + of_nat i) AND 16383))) [0..<n - 1]"
      by (simp add: ram_bytes_def load_byte_def count n_def)
    moreover have "ram_bytes c = map (\<lambda>i. cdc_ram c (unat ((dac c + of_nat i) AND 16383))) [0..<n]"
      by (simp add: ram_bytes_def n_def)
    ultimately show ?thesis by (simp add: n o_def add_ac del: upt_Suc)
  qed
  ultimately show ?thesis by (simp add: to_read_def)
qed

text \<open>Loading keeps the bytes to come and fills the FIFO as far as the block goes.\<close>

lemma load_fifo_spec:
  assumes "unat (host_count c) \<le> 2" "unat (host_count c) \<le> unat (remaining c)"
  shows "to_read (load_fifo c) = to_read c \<and> unat (host_count (load_fifo c)) = min 2 (unat (remaining c)) \<and>
    (\<exists>f d n. load_fifo c = c\<lparr>host_fifo := f, dac := d, host_count := n\<rparr>)"
  using assms
proof (induction c rule: load_fifo.induct)
  case (1 c)
  show ?case
  proof (cases "host_count c < 2 \<and> ucast (host_count c) < remaining c")
    case True
    then have less: "unat (host_count c) < 2" "unat (host_count c) < unat (remaining c)"
      by (simp_all add: word_less_nat_alt unat_ucast_u8)
    have count: "unat (host_count c + 1) = unat (host_count c) + 1" using less(1) by (simp add: unat_word_ariths)
    have ih: "to_read (load_fifo (load_byte c)) = to_read (load_byte c) \<and> unat (host_count (load_fifo (load_byte c))) = min 2 (unat (remaining c)) \<and>
      (\<exists>f d n. load_fifo (load_byte c) = (load_byte c)\<lparr>host_fifo := f, dac := d, host_count := n\<rparr>)"
      using "1.IH" [OF True] less by (simp add: load_byte_def count)
    have "load_fifo c = load_fifo (load_byte c)" using True by (subst load_fifo.simps) simp
    then show ?thesis using ih load_byte_to_read [OF less] by (auto simp: load_byte_def)
  next
    case False
    then have "load_fifo c = c" using load_fifo.simps [of c] by auto
    moreover have "unat (host_count c) = min 2 (unat (remaining c))"
      using False "1.prems" by (auto simp: word_less_nat_alt unat_ucast_u8)
    moreover have "c = c\<lparr>host_fifo := host_fifo c, dac := dac c, host_count := host_count c\<rparr>" by simp
    ultimately show ?thesis by metis
  qed
qed

lemma refill_spec:
  assumes "transfer_active c" "unat (host_count c) \<le> 2" "unat (host_count c) \<le> unat (remaining c)"
  shows "to_read (refill c) = to_read c" "unat (host_count (refill c)) = min 2 (unat (remaining c))"
    "bit (ifstat (refill c)) 1 \<longleftrightarrow> remaining c = 0"
    "\<exists>f d n i. refill c = c\<lparr>host_fifo := f, dac := d, host_count := n, ifstat := i\<rparr> \<and> (\<forall>b. b \<noteq> 1 \<longrightarrow> bit i b = bit (ifstat c) b)"
proof -
  note l = load_fifo_spec [OF assms(2,3)]
  then obtain f d n where eq: "load_fifo c = c\<lparr>host_fifo := f, dac := d, host_count := n\<rparr>" by blast
  have n: "unat n = min 2 (unat (remaining c))" using l by (simp add: eq)
  define i where "i = (if n \<noteq> 0 then ifstat c AND NOT DTEN else ifstat c OR DTEN)"
  have r: "refill c = c\<lparr>host_fifo := f, dac := d, host_count := n, ifstat := i\<rparr>"
    using assms(1) by (simp add: refill_def eq i_def Let_def)
  have t: "to_read (refill c) = to_read (load_fifo c)" by (simp add: r eq to_read_def fifo_bytes_def ram_bytes_def)
  show "to_read (refill c) = to_read c" using t l by simp
  show "unat (host_count (refill c)) = min 2 (unat (remaining c))" by (simp add: r n)
  have "n = 0 \<longleftrightarrow> remaining c = 0" using n by (metis min_def unat_eq_0 zero_neq_numeral min_0R)
  then show "bit (ifstat (refill c)) 1 \<longleftrightarrow> remaining c = 0" by (simp add: r i_def ifstat_bits)
  have "\<forall>b. b \<noteq> 1 \<longrightarrow> bit i b = bit (ifstat c) b" by (auto simp: i_def ifstat_bits dest: bit_imp_le_length)
  then show "\<exists>f d n i. refill c = c\<lparr>host_fifo := f, dac := d, host_count := n, ifstat := i\<rparr> \<and> (\<forall>b. b \<noteq> 1 \<longrightarrow> bit i b = bit (ifstat c) b)"
    using r by blast
qed

text \<open>A read takes the first byte to come.\<close>

lemma unat_and_low: "unat (w AND 4095) = unat w mod 4096" "unat (w AND 16383) = unat w mod 16384" for w :: u16
proof -
  have "w AND 4095 = take_bit 12 w" "w AND 16383 = take_bit 14 w" by (simp_all add: take_bit_eq_mask mask_eq_exp_minus_1)
  then show "unat (w AND 4095) = unat w mod 4096" "unat (w AND 16383) = unat w mod 16384"
    by (simp_all add: take_bit_eq_mod unat_mod_distrib)
qed

definition take_byte :: "SegaCDCdc \<Rightarrow> SegaCDCdc" where
  "take_byte c = c\<lparr>host_head := host_head c XOR 1, host_count := host_count c - 1, remaining := remaining c - 1,
     dbc := (dbc c - 1) AND 4095\<rparr>"

lemma unat_le_one: "unat h \<le> 1 \<Longrightarrow> h = 0 \<or> h = 1" for h :: u8
  by (auto simp: word_unat_eq_iff)

lemma take_byte_counts:
  assumes "transfer_ok c" "transfer_active c"
  shows "unat (remaining (take_byte c)) = unat (remaining c) - 1" "unat (host_count (take_byte c)) = unat (host_count c) - 1"
    "unat (host_head (take_byte c)) \<le> 1" "unat (remaining (take_byte c)) \<noteq> 0 \<Longrightarrow> unat (dbc (take_byte c)) + 1 = unat (remaining (take_byte c))"
    "unat (dbc (take_byte c)) \<le> 4095" "1 \<le> unat (remaining c)" "unat (host_count c) = 1 \<or> unat (host_count c) = 2"
proof -
  have ok: "unat (host_head c) \<le> 1" "unat (dbc c) \<le> 4095" "unat (remaining c) = unat (dbc c) + 1"
    "unat (host_count c) = min 2 (unat (remaining c))"
    using assms by (auto simp: transfer_ok_def counts_ok_def)
  show "1 \<le> unat (remaining c)" "unat (host_count c) = 1 \<or> unat (host_count c) = 2" using ok by auto
  have "(1 :: u16) \<le> remaining c" "(1 :: u8) \<le> host_count c" using ok by (simp_all add: word_le_nat_alt)
  then show "unat (remaining (take_byte c)) = unat (remaining c) - 1" "unat (host_count (take_byte c)) = unat (host_count c) - 1"
    by (simp_all add: take_byte_def unat_sub)
  show "unat (host_head (take_byte c)) \<le> 1" using unat_le_one [OF ok(1)] by (auto simp: take_byte_def)
  have m: "unat ((dbc c - 1) AND 4095) = unat (dbc c - 1) mod 4096"
    by (rule unat_and_low)
  then show "unat (dbc (take_byte c)) \<le> 4095" by (simp add: take_byte_def)
  assume "unat (remaining (take_byte c)) \<noteq> 0"
  then have "1 \<le> unat (dbc c)" using ok \<open>unat (remaining (take_byte c)) = unat (remaining c) - 1\<close> by simp
  then have "(1 :: u16) \<le> dbc c" by (simp add: word_le_nat_alt)
  then have "unat (dbc c - 1) = unat (dbc c) - 1" by (simp add: unat_sub)
  then show "unat (dbc (take_byte c)) + 1 = unat (remaining (take_byte c))"
    using m ok \<open>1 \<le> unat (dbc c)\<close> \<open>unat (remaining (take_byte c)) = unat (remaining c) - 1\<close> by (simp add: take_byte_def)
qed

lemma take_byte_to_read:
  assumes "transfer_ok c" "transfer_active c"
  shows "to_read c = host_fifo c (unat (host_head c)) # to_read (take_byte c)"
proof -
  note t = take_byte_counts [OF assms]
  have h: "host_head c = 0 \<or> host_head c = 1" using assms unat_le_one by (auto simp: transfer_ok_def counts_ok_def)
  have "fifo_bytes c = host_fifo c (unat (host_head c)) # fifo_bytes (take_byte c)"
    using t(7) h t(2) by (elim disjE) (simp_all add: fifo_bytes_def take_byte_def upt_rec)
  moreover have "ram_bytes (take_byte c) = ram_bytes c"
  proof -
    have "unat (remaining (take_byte c)) - unat (host_count (take_byte c)) = unat (remaining c) - unat (host_count c)"
      using t by auto
    then show ?thesis by (simp add: ram_bytes_def) (simp add: take_byte_def)
  qed
  ultimately show ?thesis by (simp add: to_read_def)
qed

lemma host_read_eq:
  assumes "transfer_ok c" "transfer_active c"
  shows "segacd_cdc_host_read c = (Some (host_fifo c (unat (host_head c))),
    if remaining (take_byte c) = 0 then let c' = end_transfer (take_byte c) in c'\<lparr>ifstat := ifstat c' OR DTEN\<rparr> else refill (take_byte c))"
proof -
  note t = take_byte_counts [OF assms]
  have e: "ifctrl c AND DOUTEN \<noteq> 0" using assms by (simp add: douten_bit transfer_ok_def counts_ok_def)
  have z: "host_count c \<noteq> 0" using t(7) by auto
  have full: "host_count (refill (take_byte c)) \<noteq> 0" if "remaining (take_byte c) \<noteq> 0"
  proof -
    have "transfer_active (take_byte c)" using assms(2) by (simp add: take_byte_def)
    moreover have "unat (host_count (take_byte c)) \<le> 2" "unat (host_count (take_byte c)) \<le> unat (remaining (take_byte c))"
      using t assms by (auto simp: transfer_ok_def counts_ok_def)
    ultimately have "unat (host_count (refill (take_byte c))) = min 2 (unat (remaining (take_byte c)))" by (rule refill_spec)
    then show ?thesis using that by (auto simp: unat_eq_0 [symmetric] min_def split: if_splits)
  qed
  have zero: "host_count (end_transfer (take_byte c)) = 0" if "remaining (take_byte c) = 0"
    using that t assms by (auto simp: end_transfer_def transfer_ok_def counts_ok_def unat_eq_0 [symmetric] word_unat_eq_iff)
  show ?thesis using e z full zero by (simp add: segacd_cdc_host_read_def take_byte_def [symmetric] Let_def)
qed

lemma host_read_pops:
  assumes "transfer_ok c" "transfer_active c"
  shows "\<exists>v c'. segacd_cdc_host_read c = (Some v, c') \<and> to_read c = v # to_read c' \<and> transfer_ok c' \<and>
    (transfer_active c' \<longleftrightarrow> to_read c' \<noteq> []) \<and> (to_read c' = [] \<longrightarrow> transfer_end c' \<and> \<not> bit (ifstat c') 6)"
proof -
  note t = take_byte_counts [OF assms] and r = take_byte_to_read [OF assms] and e = host_read_eq [OF assms]
  have ok: "unat (host_count c) = min 2 (unat (remaining c))" "bit (ifctrl c) 1" "\<not> bit (ifstat c) 3"
    using assms by (auto simp: transfer_ok_def counts_ok_def flags_ok_def)
  show ?thesis
  proof (cases "remaining (take_byte c) = 0")
    case True
    define d where "d = (let c' = end_transfer (take_byte c) in c'\<lparr>ifstat := ifstat c' OR DTEN\<rparr>)"
    have c0: "host_count (take_byte c) = 0" using True t ok by (auto simp: unat_eq_0 [symmetric] word_unat_eq_iff)
    have "to_read d = []" "to_read (take_byte c) = []"
      using True c0 by (simp_all add: d_def Let_def end_transfer_def to_read_def fifo_bytes_def ram_bytes_def)
    moreover have "transfer_ok d" using t True c0
      by (simp add: d_def Let_def transfer_ok_def counts_ok_def flags_ok_def end_transfer_def ifstat_bits)
    moreover have "\<not> transfer_active d" "transfer_end d" "\<not> bit (ifstat d) 6" by (simp_all add: d_def Let_def end_transfer_def ifstat_bits)
    ultimately show ?thesis using e r True by (simp add: d_def)
  next
    case False
    have a: "transfer_active (take_byte c)" using assms(2) by (simp add: take_byte_def)
    have b: "unat (host_count (take_byte c)) \<le> 2" "unat (host_count (take_byte c)) \<le> unat (remaining (take_byte c))"
      using t ok by auto
    note f = refill_spec [OF a b]
    from f(4) obtain g d n i where eq: "refill (take_byte c) = (take_byte c)\<lparr>host_fifo := g, dac := d, host_count := n, ifstat := i\<rparr>"
      and i: "bit i 3 = bit (ifstat (take_byte c)) 3" by auto
    have "unat (remaining (take_byte c)) \<noteq> 0" using False by (simp add: unat_eq_0)
    have n: "unat n = min 2 (unat (remaining (take_byte c)))" using f(2) by (simp add: eq)
    have "n \<noteq> 0" using n \<open>unat (remaining (take_byte c)) \<noteq> 0\<close> by (auto simp: min_def split: if_splits)
    moreover have "\<not> bit i 1" using f(3) False by (simp add: eq)
    moreover have "bit (ifctrl (take_byte c)) 1" "\<not> bit (ifstat (take_byte c)) 3" using ok by (simp_all add: take_byte_def)
    ultimately have "transfer_ok (refill (take_byte c))"
      using t(3-5) n a i \<open>unat (remaining (take_byte c)) \<noteq> 0\<close>
      by (simp add: eq transfer_ok_def counts_ok_def flags_ok_def)
    moreover have "to_read (refill (take_byte c)) \<noteq> []"
    proof -
      have "length (to_read (take_byte c)) = unat (remaining (take_byte c))" using b by (intro length_to_read)
      then show ?thesis using f(1) \<open>unat (remaining (take_byte c)) \<noteq> 0\<close> by auto
    qed
    ultimately show ?thesis using e r False f(1) a by (simp add: eq)
  qed
qed

lemma host_read_idle: "transfer_ok c \<Longrightarrow> \<not> transfer_active c \<Longrightarrow> segacd_cdc_host_read c = (None, c)"
  by (simp add: transfer_ok_def counts_ok_def segacd_cdc_host_read_def)

section \<open>Every reachable state\<close>

lemma start_transfer_spec:
  assumes "transfer_ok c" "ifctrl c AND DOUTEN \<noteq> 0" "\<not> transfer_active c"
  shows "transfer_ok (start_transfer c)" "transfer_active (start_transfer c)"
    "to_read (start_transfer c) = map (\<lambda>i. cdc_ram c (unat ((dac c + of_nat i) AND 16383))) [0..<unat (dbc c) + 1]"
proof -
  define d where "d = c\<lparr>remaining := dbc c + 1, host_head := 0, host_count := 0, transfer_active := True, transfer_end := False,
    ifstat := ifstat c AND NOT DTBSY\<rparr>"
  have s: "start_transfer c = refill d" by (simp add: start_transfer_def d_def)
  have b: "unat (dbc c) \<le> 4095" using assms(1) by (rule dbc_bound)
  then have r: "unat (remaining d) = unat (dbc c) + 1" by (simp add: d_def unat_word_ariths)
  then have nz: "remaining d \<noteq> 0" by auto
  have a: "transfer_active d" "unat (host_count d) \<le> 2" "unat (host_count d) \<le> unat (remaining d)" by (simp_all add: d_def)
  note f = refill_spec [OF a]
  from f(4) obtain g e n i where eq: "refill d = d\<lparr>host_fifo := g, dac := e, host_count := n, ifstat := i\<rparr>"
    and i: "bit i 3 = bit (ifstat d) 3" by auto
  have n: "unat n = min 2 (unat (remaining d))" using f(2) by (simp add: eq)
  then have "n \<noteq> 0" using r by (auto simp: min_def split: if_splits)
  moreover have "\<not> bit i 1" using f(3) nz by (simp add: eq)
  moreover have "\<not> bit i 3" "bit (ifctrl d) 1" "unat (host_head d) = 0" "dbc d = dbc c" "transfer_active d"
    using i assms(2) by (simp_all add: d_def ifstat_bits douten_bit)
  ultimately show "transfer_ok (start_transfer c)"
    using n b r by (simp add: s eq transfer_ok_def counts_ok_def flags_ok_def)
  show "transfer_active (start_transfer c)" by (simp add: s eq) (simp add: d_def)
  show "to_read (start_transfer c) = map (\<lambda>i. cdc_ram c (unat ((dac c + of_nat i) AND 16383))) [0..<unat (dbc c) + 1]"
    unfolding s f(1) using r by (simp add: to_read_def fifo_bytes_def ram_bytes_def) (simp add: d_def)
qed

lemma transfer_ok_ifstat:
  "transfer_ok c \<Longrightarrow> bit i 1 = bit (ifstat c) 1 \<Longrightarrow> bit i 3 = bit (ifstat c) 3 \<Longrightarrow> transfer_ok (c\<lparr>ifstat := i\<rparr>)"
  by (cases "transfer_active c") (simp_all add: transfer_ok_def counts_ok_def flags_ok_def)

lemma transfer_ok_other:
  "transfer_ok (c\<lparr>sbout := v\<rparr>) = transfer_ok c" "transfer_ok (c\<lparr>dac := w\<rparr>) = transfer_ok c" "transfer_ok (c\<lparr>comin := v\<rparr>) = transfer_ok c"
  "transfer_ok (c\<lparr>write_address := w\<rparr>) = transfer_ok c" "transfer_ok (c\<lparr>block_pointer := w\<rparr>) = transfer_ok c"
  "transfer_ok (c\<lparr>ctrl0 := v\<rparr>) = transfer_ok c" "transfer_ok (c\<lparr>ctrl1 := v\<rparr>) = transfer_ok c"
  "transfer_ok (c\<lparr>decoder_irq_clocks := k\<rparr>) = transfer_ok c"
  by (simp_all add: transfer_ok_def counts_ok_def flags_ok_def)

lemma low_dbc: "unat ((d AND 0xF00) OR ucast v) \<le> 4095" "unat ((d AND 255) OR push_bit 8 (ucast (v AND 15))) \<le> 4095" for d :: u16 and v :: u8
proof -
  have w: "unat x \<le> 4095" if "\<And>n. bit x n \<Longrightarrow> n < 12" for x :: u16
  proof -
    have "x AND 4095 = x"
    proof (rule bit_word_eqI)
      fix n
      have "bit (4095 :: u16) n \<longleftrightarrow> n < 12" using bit_mask_iff [where 'a = u16, of 12 n] by (auto simp: mask_eq_exp_minus_1)
      then show "bit (x AND 4095) n = bit x n" using that [of n] by (auto simp: bit_and_iff)
    qed
    moreover have "unat (x AND 4095) \<le> 4095" by (simp add: unat_and_low)
    ultimately show ?thesis by simp
  qed
  have m: "bit (0xF00 :: u16) n \<Longrightarrow> n < 12" "bit (255 :: u16) n \<Longrightarrow> n < 8" "bit (15 :: u8) n \<Longrightarrow> n < 4" for n
  proof -
    have "(0xF00 :: u16) = push_bit 8 (mask 4)" by (simp add: mask_eq_exp_minus_1 push_bit_eq_mult)
    then show "bit (0xF00 :: u16) n \<Longrightarrow> n < 12" by (auto simp: bit_push_bit_iff bit_mask_iff)
    have "(255 :: u16) = mask 8" "(15 :: u8) = mask 4" by (simp_all add: mask_eq_exp_minus_1)
    then show "bit (255 :: u16) n \<Longrightarrow> n < 8" "bit (15 :: u8) n \<Longrightarrow> n < 4" by (auto simp: bit_mask_iff)
  qed
  show "unat ((d AND 0xF00) OR ucast v) \<le> 4095"
    by (rule w) (use m in \<open>force simp: bit_or_iff bit_and_iff bit_unsigned_iff dest: bit_imp_le_length\<close>)
  show "unat ((d AND 255) OR push_bit 8 (ucast (v AND 15))) \<le> 4095"
    by (rule w) (use m in \<open>fastforce simp: bit_or_iff bit_and_iff bit_unsigned_iff bit_push_bit_iff\<close>)
qed

lemma transfer_ok_dbc: "transfer_ok c \<Longrightarrow> \<not> transfer_active c \<Longrightarrow> unat d \<le> 4095 \<Longrightarrow> transfer_ok (c\<lparr>dbc := d\<rparr>)"
  by (simp add: transfer_ok_def counts_ok_def flags_ok_def)

lemma transfer_ok_ifctrl: "transfer_ok c \<Longrightarrow> v AND DOUTEN \<noteq> 0 \<Longrightarrow> transfer_ok (c\<lparr>ifctrl := v\<rparr>)"
  by (simp add: transfer_ok_def counts_ok_def flags_ok_def douten_bit)

lemma transfer_ok_abort: "transfer_ok c \<Longrightarrow> transfer_ok (abort_transfer (c\<lparr>ifctrl := v\<rparr>))"
  by (auto simp: transfer_ok_def counts_ok_def flags_ok_def abort_transfer_def ifstat_bits)

lemma transfer_ok_write_reg:
  assumes "transfer_ok c"
  shows "transfer_ok (write_reg r v c)"
  using assms low_dbc
  by (simp add: write_reg_def Let_def transfer_ok_other transfer_ok_dbc transfer_ok_abort transfer_ok_ifctrl
      start_transfer_spec(1) transfer_ok_ifstat ifstat_bits)

lemma transfer_ok_read: "transfer_ok c \<Longrightarrow> transfer_ok (snd (segacd_cdc_read c))"
  by (simp add: segacd_cdc_read_def Let_def transfer_ok_other transfer_ok_ifstat ifstat_bits)

lemma transfer_ok_host_read: "transfer_ok c \<Longrightarrow> transfer_ok (snd (segacd_cdc_host_read c))"
  using host_read_pops [of c] host_read_idle [of c] by (cases "transfer_active c") auto

lemma transfer_ok_advance: "transfer_ok c \<Longrightarrow> transfer_ok (segacd_cdc_advance n c)"
  by (simp add: segacd_cdc_advance_def transfer_ok_other transfer_ok_ifstat ifstat_bits)

lemma transfer_ok_sector: "transfer_ok c \<Longrightarrow> transfer_ok (segacd_cdc_sector raw ok c)"
  by (cases "transfer_active c") (simp_all add: segacd_cdc_sector_def Let_def transfer_ok_def counts_ok_def flags_ok_def ifstat_bits)

lemma transfer_ok_write: "transfer_ok c \<Longrightarrow> transfer_ok (segacd_cdc_write v c)"
  by (simp add: segacd_cdc_write_def transfer_ok_reset dbc_bound transfer_ok_write_reg)

lemma transfer_ok_step: "transfer_ok c \<Longrightarrow> transfer_ok (cdc_step op c)"
  by (cases op) (simp_all add: transfer_ok_write transfer_ok_sector transfer_ok_advance transfer_ok_host_read transfer_ok_read
    transfer_ok_reset dbc_bound segacd_cdc_address_def)

lemma transfer_ok_run: "transfer_ok (fold cdc_step ops segacd_cdc_init)"
proof -
  have "transfer_ok segacd_cdc_init" unfolding segacd_cdc_init_def by (rule transfer_ok_reset) simp
  then show ?thesis by (rule fold_invariant [where Q = "\<lambda>_. True", rotated 1]) (simp_all add: transfer_ok_step)
qed

text \<open>
  In every reachable state of the CD controller its status tells the truth about the host transfer: the busy
  flag is low exactly while a transfer runs, the data flag is low exactly while the FIFO holds a byte, the FIFO
  holds two bytes unless fewer are left, the byte counter is one less than what is left, and a transfer only
  runs with the output enabled.
\<close>

theorem cdc_status_truthful:
  fixes ops :: "cdc_op list"
  defines "c \<equiv> fold cdc_step ops segacd_cdc_init"
  shows "(ifstat c AND DTBSY = 0 \<longleftrightarrow> transfer_active c) \<and> (ifstat c AND DTEN = 0 \<longleftrightarrow> host_count c \<noteq> 0) \<and>
    unat (host_count c) = min 2 (unat (remaining c)) \<and>
    (if transfer_active c then unat (remaining c) = unat (dbc c) + 1 \<and> ifctrl c AND DOUTEN \<noteq> 0 else remaining c = 0)"
  using transfer_ok_run [of ops]
  by (auto simp: c_def transfer_ok_def flags_ok_def counts_ok_def flag_test douten_bit)

section \<open>A sector through the controller\<close>

lemma store_sector_get:
  assumes "n < 2352"
  shows "store_sector start raw m ((unat start + n) mod 16384) = raw ! n"
proof -
  have "n < k \<Longrightarrow> k \<le> 16384 \<Longrightarrow> fold (\<lambda>n m. m((s + n) mod 16384 := raw ! n)) [0..<k] m ((s + n) mod 16384) = raw ! n" for k s
  proof (induction k)
    case (Suc k)
    show ?case
    proof (cases "n = k")
      case False
      then have "n < k" using Suc.prems by simp
      have "(s + n) mod 16384 \<noteq> (s + k) mod 16384"
      proof
        assume "(s + n) mod 16384 = (s + k) mod 16384"
        then have "16384 dvd k - n" using \<open>n < k\<close> mod_eq_dvd_iff_nat [of "s + n" "s + k" 16384] by simp
        then show False using Suc.prems \<open>n < k\<close> by (auto dest: dvd_imp_le)
      qed
      then show ?thesis using Suc \<open>n < k\<close> by simp
    qed simp
  qed simp
  from this [of 2352 "unat start"] show ?thesis using assms by (simp add: store_sector_def)
qed

definition program_transfer :: "u16 \<Rightarrow> u16 \<Rightarrow> SegaCDCdc \<Rightarrow> SegaCDCdc" where
  "program_transfer count base c = fold segacd_cdc_write [lo8 count, hi8 count, lo8 base, hi8 base, 0] (segacd_cdc_address 2 c)"

primrec host_reads :: "nat \<Rightarrow> SegaCDCdc \<Rightarrow> u8 option list \<times> SegaCDCdc" where
  "host_reads 0 c = ([], c)"
| "host_reads (Suc n) c = (let (v, c) = segacd_cdc_host_read c; (vs, c) = host_reads n c in (v # vs, c))"

lemma host_reads_all:
  assumes "transfer_ok c" "to_read c = bs" "transfer_active c \<longleftrightarrow> bs \<noteq> []" "bs \<noteq> []"
  shows "\<exists>c'. host_reads (length bs) c = (map Some bs, c') \<and> transfer_ok c' \<and> \<not> transfer_active c' \<and> transfer_end c' \<and> \<not> bit (ifstat c') 6"
  using assms
proof (induction bs arbitrary: c)
  case (Cons b bs)
  from host_read_pops [of c] Cons.prems obtain c1 where r: "segacd_cdc_host_read c = (Some b, c1)" "to_read c1 = bs" "transfer_ok c1"
    "transfer_active c1 \<longleftrightarrow> bs \<noteq> []" "bs = [] \<longrightarrow> transfer_end c1 \<and> \<not> bit (ifstat c1) 6" by auto
  show ?case
  proof (cases "bs = []")
    case False
    then show ?thesis using Cons.IH [OF r(3,2,4)] r(1) by auto
  qed (use r in auto)
qed simp

lemma ar_load_fifo [simp]: "ar (load_fifo c) = ar c"
proof (induction c rule: load_fifo.induct)
  case (1 c)
  then show ?case by (subst load_fifo.simps) (simp add: load_byte_def)
qed

lemma ar_start_transfer [simp]: "ar (start_transfer c) = ar c"
  by (simp add: start_transfer_def refill_def Let_def)

lemma program_transfer_eq:
  assumes "transfer_ok c" "\<not> transfer_active c" "ifctrl c AND DOUTEN \<noteq> 0" "unat count \<le> 4095"
  shows "program_transfer count base c = (start_transfer (c\<lparr>dbc := count, dac := base, ar := 6\<rparr>))\<lparr>ar := 7\<rparr>"
proof -
  have low: "bit count n \<Longrightarrow> n < 12" for n
  proof -
    assume b: "bit count n"
    have "count AND 4095 = count" using unat_and_low(1) [of count] assms(4) by (simp add: word_unat_eq_iff)
    then have "bit (4095 :: u16) n" using b by (metis bit_and_iff)
    then show "n < 12" using bit_mask_iff [where 'a = u16, of 12 n] by (simp add: mask_eq_exp_minus_1)
  qed
  have "((d AND 0xF00 OR ucast (lo8 count)) AND 255) OR push_bit 8 (ucast (hi8 count AND 15)) = count" for d
  proof (rule bit_word_eqI)
    fix n assume "n < LENGTH(16)"
    have "bit (255 :: u16) n \<longleftrightarrow> n < 8" "bit (15 :: u8) (n - 8) \<longleftrightarrow> n - 8 < 4"
      using bit_mask_iff [where 'a = u16, of 8 n] bit_mask_iff [where 'a = u8, of 4 "n - 8"] by (auto simp: mask_eq_exp_minus_1)
    moreover have "bit (0xF00 :: u16) n \<Longrightarrow> 8 \<le> n"
    proof -
      have "(0xF00 :: u16) = push_bit 8 (mask 4)" by (simp add: mask_eq_exp_minus_1 push_bit_eq_mult)
      then show "bit (0xF00 :: u16) n \<Longrightarrow> 8 \<le> n" by (auto simp: bit_push_bit_iff)
    qed
    ultimately show "bit ((d AND 0xF00 OR ucast (lo8 count)) AND 255 OR push_bit 8 (ucast (hi8 count AND 15))) n = bit count n"
      using low [of n] \<open>n < LENGTH(16)\<close>
      by (auto simp: bit_or_iff bit_and_iff bit_push_bit_iff bit_unsigned_iff lo8_def hi8_def bit_drop_bit_eq)
  qed
  then show ?thesis
    using assms by (simp add: program_transfer_def segacd_cdc_address_def segacd_cdc_write_def write_reg_def address_next_def)
qed

text \<open>
  A sector goes through the controller unchanged. In any reachable state with no transfer running, output, decoder
  and buffering enabled: after a sector is decoded, a host that programs a block of \<open>n\<close> bytes inside the sector,
  counted from its block pointer, and starts the transfer reads exactly these bytes, in order; the
  transfer then has ended with its interrupt flag low, and another read gives nothing.
\<close>

theorem cdc_sector_transfer:
  fixes ops :: "cdc_op list"
  defines "c \<equiv> fold cdc_step ops segacd_cdc_init"
  assumes "\<not> transfer_active c" "ifctrl c AND DOUTEN \<noteq> 0" "ctrl0 c AND DECEN \<noteq> 0" "ctrl0 c AND WRRQ \<noteq> 0"
    and "length raw = 2352" "0 < n" "12 + k + n \<le> 2352"
  shows "let c1 = segacd_cdc_sector raw ok c;
             c2 = program_transfer (of_nat (n - 1)) (block_pointer c1 + of_nat k) c1;
             (bytes, c3) = host_reads n c2
         in bytes = map Some (take n (drop (12 + k) raw)) \<and> \<not> transfer_active c3 \<and> transfer_end c3 \<and>
            ifstat c3 AND DTEI = 0 \<and> segacd_cdc_host_read c3 = (None, c3)"
proof -
  define c1 where "c1 = segacd_cdc_sector raw ok c"
  define base where "base = block_pointer c1 + of_nat k"
  define d where "d = c1\<lparr>dbc := of_nat (n - 1), dac := base, ar := 6\<rparr>"
  have ok: "transfer_ok c1" unfolding c1_def c_def by (intro transfer_ok_sector transfer_ok_run)
  have c1: "\<not> transfer_active c1" "ifctrl c1 AND DOUTEN \<noteq> 0" "block_pointer c1 = write_address c + 12"
    "cdc_ram c1 = store_sector (write_address c) raw (cdc_ram c)"
    using assms(2-5) by (simp_all add: c1_def segacd_cdc_sector_def Let_def)
  have n: "unat (of_nat (n - 1) :: u16) = n - 1" using assms(8) by (simp add: unsigned_of_nat take_bit_nat_eq_self)
  have d: "transfer_ok d" "\<not> transfer_active d" "ifctrl d AND DOUTEN \<noteq> 0" "unat (dbc d) + 1 = n"
    using ok c1 n assms(7,8) by (simp_all add: d_def transfer_ok_def counts_ok_def flags_ok_def)
  have p: "program_transfer (of_nat (n - 1)) base c1 = (start_transfer d)\<lparr>ar := 7\<rparr>"
    unfolding d_def using n assms(8) by (intro program_transfer_eq ok c1) simp
  have "cdc_ram d (unat ((dac d + of_nat i) AND 16383)) = raw ! (12 + k + i)" if "i < n" for i
  proof -
    have "dac d + of_nat i = write_address c + of_nat (12 + k + i)" by (simp add: d_def base_def c1)
    then have "unat ((dac d + of_nat i) AND 16383) = (unat (write_address c) + (12 + k + i)) mod 16384"
      using that assms(8) by (simp add: unat_and_low unat_word_ariths unsigned_of_nat take_bit_nat_eq_self mod_mod_cancel del: of_nat_add)
    then show ?thesis using that assms(8) by (simp add: d_def c1 store_sector_get)
  qed
  then have "to_read (start_transfer d) = take n (drop (12 + k) raw)"
    unfolding start_transfer_spec(3) [OF d(1,3,2)] d(4) using assms(6,8) by (intro nth_equalityI) simp_all
  moreover have "to_read (c\<lparr>ar := v\<rparr>) = to_read c" for c v by (simp add: to_read_def fifo_bytes_def ram_bytes_def)
  ultimately have r: "to_read (program_transfer (of_nat (n - 1)) base c1) = take n (drop (12 + k) raw)" unfolding p by simp
  have len: "length (take n (drop (12 + k) raw)) = n" using assms(6,8) by simp
  have "\<exists>c'. host_reads (length (take n (drop (12 + k) raw))) (program_transfer (of_nat (n - 1)) base c1) =
      (map Some (take n (drop (12 + k) raw)), c') \<and> transfer_ok c' \<and> \<not> transfer_active c' \<and> transfer_end c' \<and> \<not> bit (ifstat c') 6"
  proof (rule host_reads_all)
    show "transfer_ok (program_transfer (of_nat (n - 1)) base c1)" unfolding p using start_transfer_spec(1) [OF d(1,3,2)] by simp
    show "transfer_active (program_transfer (of_nat (n - 1)) base c1) \<longleftrightarrow> take n (drop (12 + k) raw) \<noteq> []"
      unfolding p using start_transfer_spec(2) [OF d(1,3,2)] len assms(7) by auto
    show "take n (drop (12 + k) raw) \<noteq> []" using len assms(7) by auto
  qed (rule r)
  then show ?thesis unfolding len
    by (auto simp: Let_def c1_def [symmetric] base_def [symmetric] host_read_idle flag_test)
qed

theorem cdc_sector_transfer_witness:
  "let c = segacd_cdc_sector (map of_nat [0..<2352]) True (fold cdc_step [Select 1, WriteReg 2, Select 10, WriteReg 0x84] segacd_cdc_init)
   in fst (host_reads 2 (program_transfer 1 (block_pointer c + 4) c)) = [Some 16, Some 17]"
proof -
  let ?ops = "[Select 1, WriteReg 2, Select 10, WriteReg 0x84]"
  have s: "\<not> transfer_active (fold cdc_step ?ops segacd_cdc_init)" "ifctrl (fold cdc_step ?ops segacd_cdc_init) = 2"
    "ctrl0 (fold cdc_step ?ops segacd_cdc_init) = 0x84"
    by (simp_all add: segacd_cdc_init_def segacd_cdc_reset_def segacd_cdc_address_def segacd_cdc_write_def write_reg_def
        address_next_def Let_def flag_defs)
  have "take 2 (drop 16 (map of_nat [0..<2352])) = map of_nat [16..<18 :: nat]"
    unfolding drop_map take_map drop_upt by (subst take_upt) simp_all
  then have b: "take 2 (drop (12 + 4) (map of_nat [0..<2352])) = [16, 17 :: u8]" by (simp add: upt_rec [of 16] upt_rec [of 17])
  have "of_nat (2 - 1) = (1 :: u16)" "of_nat 4 = (4 :: u16)" by simp_all
  then show ?thesis
    using cdc_sector_transfer [of ?ops "map of_nat [0..<2352]" 2 4 True] b
    by (simp add: s flag_defs Let_def split_beta del: fold.simps)
qed

end
