(* ===== verification/Cd_Drive.thy ===== *)
theory Cd_Drive
  imports Prelude "HOL-Library.Signed_Division"
begin

text \<open>
  The disc drive of the Sega CD, \<^verbatim>\<open>runner/cd/cdd.c\<close>: command and cdd_reply packets of ten nibbles, the table
  of contents, seeks, the functional model of a track skip along the spiral, and the event loop that
  delivers a sector 75 times a second. Times are natural numbers: the 64-bit clock counter at 12.5 MHz
  does not wrap within 46,000 years. Sector numbers are integers, which the mounted table keeps far inside
  32 bits. Only the first \<^verbatim>\<open>count\<close> entries of the table of contents are kept, as a list.
\<close>

section \<open>State\<close>

definition CDD_CLOCK :: nat where "CDD_CLOCK = 12500000"
definition HOCK :: u8 where "HOCK = 4"
definition DTS :: u8 where "DTS = 1"

definition STOP :: u8 where "STOP = 0"
definition PLAY :: u8 where "PLAY = 1"
definition SEEK :: u8 where "SEEK = 2"
definition SCAN :: u8 where "SCAN = 3"
definition PAUSE :: u8 where "PAUSE = 4"
definition OPEN :: u8 where "OPEN = 5"
definition CHECKSUM :: u8 where "CHECKSUM = 6"
definition ERROR :: u8 where "ERROR = 7"
definition READ_TOC :: u8 where "READ_TOC = 9"
definition TRACKING :: u8 where "TRACKING = 10"
definition NO_DISC :: u8 where "NO_DISC = 11"
definition LEADOUT :: u8 where "LEADOUT = 12"

record SegaCDTrack =
  index00 :: int
  trk_start :: int
  trk_end :: int
  trk_data :: nat

record SegaCDTOC =
  toc_track :: "SegaCDTrack list"
  leadout :: int

record SegaCDDrive =
  toc :: SegaCDTOC
  tx :: "u8 list"
  rx :: "u8 list"
  pending :: "u8 list"
  control :: u8
  d_status :: u8
  report :: u8
  query_track :: u8
  after_seek :: u8
  report_valid :: bool
  tray_open :: bool
  command_pending :: bool
  unsupported_command :: u8
  motor_started :: bool
  track_skip_active :: bool
  track_skip_inward :: bool
  d_fader :: u16
  lba :: int
  seek_target :: int
  track_skip_origin_lba :: int
  track_skip_target_lba :: int
  scan :: int
  track_skip_count :: u32
  track_skip_step :: u32
  cycles :: nat
  frame_origin :: nat
  frames :: nat
  command_deadline :: nat
  seek_deadline :: nat
  fader_deadline :: nat
  track_skip_origin_cycle :: nat
  track_skip_deadline :: nat

definition no_toc :: SegaCDTOC where
  "no_toc = \<lparr>toc_track = [], leadout = 0\<rparr>"

definition toc_count :: "SegaCDDrive \<Rightarrow> nat" where
  "toc_count d = length (toc_track (toc d))"

section \<open>Packets\<close>

definition checksum :: "u8 list \<Rightarrow> u8" where
  "checksum p = ucast (NOT (sum_list (map ucast (take 9 p)) :: u32) AND 15)"

definition digits :: "nat \<Rightarrow> nat \<Rightarrow> u8 list \<Rightarrow> u8 list" where
  "digits at n p = p[at := of_nat (n div 10 mod 10), at + 1 := of_nat (n mod 10)]"

definition msf :: "nat \<Rightarrow> int \<Rightarrow> u8 list \<Rightarrow> u8 list" where
  "msf at fr p =
    (let n = nat \<bar>fr\<bar> in digits (at + 4) (n mod 75) (digits (at + 2) (n div 75 mod 60) (digits at (n div (60 * 75)) p)))"

function track_from :: "SegaCDTrack list \<Rightarrow> int \<Rightarrow> nat \<Rightarrow> nat" where
  "track_from ts l n = (if n + 1 < length ts \<and> l \<ge> index00 (ts ! (n + 1)) then track_from ts l (n + 1) else n)"
  by pat_completeness auto
termination by (relation "measure (\<lambda>(ts, l, n). length ts - n)") auto

declare track_from.simps [simp del]

definition track_at :: "SegaCDDrive \<Rightarrow> nat" where
  "track_at d = track_from (toc_track (toc d)) (lba d) 0"

definition report_bytes :: "SegaCDDrive \<Rightarrow> u8 list \<Rightarrow> u8 list" where
  "report_bytes d p =
    (let ts = toc_track (toc d); n = track_at d; kind = (if trk_data (ts ! n) \<noteq> 0 then 4 else 0)
     in if report d = 0 then (msf 2 (lba d + 150) p)[8 := kind]
        else if report d = 1 then (msf 2 (lba d - trk_start (ts ! n)) p)[8 := kind]
        else if report d = 2 then digits 2 (n + 1) p
        else if report d = 3 then msf 2 (leadout (toc d) + 150) p
        else if report d = 4 then digits 4 (length ts) (digits 2 1 p)
        else if report d = 5 then
          (let q = unat (query_track d)
           in if 1 \<le> q \<and> q - 1 < length ts
              then let p = msf 2 (trk_start (ts ! (q - 1)) + 150) p;
                       p = (if trk_data (ts ! (q - 1)) \<noteq> 0 then p[6 := p ! 6 OR 8] else p)
                   in p[8 := of_nat (q mod 10)]
              else p)
        else p)"

text \<open>\<^verbatim>\<open>d->query_track - 1u\<close> wraps to a large index when the track number is 0, which the bound refuses.\<close>

definition cdd_reply :: "u8 \<Rightarrow> SegaCDDrive \<Rightarrow> SegaCDDrive" where
  "cdd_reply override d =
    (let p = (replicate 10 0)[0 := if override \<noteq> 0 then override else d_status d, 1 := report d];
         p = (if report_valid d \<and> toc_count d \<noteq> 0 \<and> \<not> tray_open d then report_bytes d p else p)
     in d\<lparr>rx := p[9 := checksum p]\<rparr>)"

section \<open>Track skips\<close>

function isqrt_start :: "u64 \<Rightarrow> u64 \<Rightarrow> u64" where
  "isqrt_start b n = (if b > n then isqrt_start (drop_bit 2 b) n else b)"
  by pat_completeness auto
termination
proof (relation "measure (\<lambda>(b, n). unat b)")
  fix b n :: u64 assume "b > n"
  then have "unat b > 0" by (metis gr_zeroI unat_eq_0 word_not_simps(1))
  then show "((drop_bit 2 b, n), b, n) \<in> measure (\<lambda>(b, n). unat b)"
    by (simp add: drop_bit_eq_div unat_div_distrib)
qed simp

declare isqrt_start.simps [simp del]

function isqrt_loop :: "u64 \<Rightarrow> u64 \<Rightarrow> u64 \<Rightarrow> u64" where
  "isqrt_loop b n result =
    (if b \<noteq> 0
     then if n \<ge> result + b then isqrt_loop (drop_bit 2 b) (n - (result + b)) (drop_bit 1 result + b)
          else isqrt_loop (drop_bit 2 b) n (drop_bit 1 result)
     else result)"
  by pat_completeness auto
termination
  by (relation "measure (\<lambda>(b, n, r). unat b)") (auto simp: drop_bit_eq_div unat_div_distrib unat_gt_0)

declare isqrt_loop.simps [simp del]

definition isqrt64 :: "u64 \<Rightarrow> u64" where
  "isqrt64 n = isqrt_loop (isqrt_start (push_bit 62 1) n) n 0"

definition iceil_sqrt64 :: "u64 \<Rightarrow> u64" where
  "iceil_sqrt64 n = (let root = isqrt64 n in if root * root = n then root else root + 1)"

definition INNER_SQ :: u64 where "INNER_SQ = 250000 * 250000"
definition SKIP_PITCH :: u64 where "SKIP_PITCH = 16"
definition SKIP_TURNS :: nat where "SKIP_TURNS = 10000"

definition first_index :: "SegaCDDrive \<Rightarrow> int" where
  "first_index d = index00 (toc_track (toc d) ! 0)"

definition clip_lba :: "SegaCDDrive \<Rightarrow> int \<Rightarrow> int" where
  "clip_lba d l = (let l = (if l < first_index d then first_index d else l) in if l \<ge> leadout (toc d) then leadout (toc d) - 1 else l)"

definition radius_to_lba :: "SegaCDDrive \<Rightarrow> u64 \<Rightarrow> int" where
  "radius_to_lba d radius_sq =
    (let delta = (if radius_sq \<ge> INNER_SQ then uint (radius_sq - INNER_SQ) else - uint (INNER_SQ - radius_sq))
     in clip_lba d (delta * 355 * 75 sdiv (13000000 * 16 * 113)))"

definition lba_to_radius_sq :: "SegaCDDrive \<Rightarrow> int \<Rightarrow> u64" where
  "lba_to_radius_sq d l =
    (let delta = clip_lba d l * 13000000 * 16 * 113 sdiv (355 * 75)
     in if delta < 0 \<and> - delta > uint INNER_SQ then 0
        else if delta < 0 then INNER_SQ - word_of_int (- delta) else INNER_SQ + word_of_int delta)"

definition min_radius :: "SegaCDDrive \<Rightarrow> u64" where
  "min_radius d = isqrt64 (lba_to_radius_sq d (first_index d))"

definition max_radius :: "SegaCDDrive \<Rightarrow> u64" where
  "max_radius d = iceil_sqrt64 (lba_to_radius_sq d (leadout (toc d) - 1))"

definition bounded_radius_to_lba :: "SegaCDDrive \<Rightarrow> u64 \<Rightarrow> int" where
  "bounded_radius_to_lba d radius =
    (if radius \<le> min_radius d then first_index d
     else if radius \<ge> max_radius d then leadout (toc d) - 1
     else radius_to_lba d (radius * radius))"

definition moved_radius :: "SegaCDDrive \<Rightarrow> int \<Rightarrow> u64 \<Rightarrow> u64" where
  "moved_radius d origin moved =
    (let radius = isqrt64 (lba_to_radius_sq d origin);
         radius = (if track_skip_inward d then (if radius > moved then radius - moved else min_radius d) else radius + moved);
         radius = (if radius < min_radius d then min_radius d else radius)
     in if radius > max_radius d then max_radius d else radius)"

definition skip_deadline :: "SegaCDDrive \<Rightarrow> nat" where
  "skip_deadline d = track_skip_origin_cycle d + ((unat (track_skip_step d) + 1) * CDD_CLOCK + SKIP_TURNS - 1) div SKIP_TURNS"

definition cancel_track_skip :: "SegaCDDrive \<Rightarrow> SegaCDDrive" where
  "cancel_track_skip d = d\<lparr>track_skip_active := False, track_skip_deadline := 0, track_skip_count := 0, track_skip_step := 0\<rparr>"

definition skip_step :: "SegaCDDrive \<Rightarrow> SegaCDDrive" where
  "skip_step d =
    (let d = d\<lparr>track_skip_step := track_skip_step d + 1\<rparr>;
         d = d\<lparr>lba := bounded_radius_to_lba d (moved_radius d (track_skip_origin_lba d) (ucast (track_skip_step d) * SKIP_PITCH))\<rparr>
     in if track_skip_step d \<ge> track_skip_count d \<or> lba d = track_skip_target_lba d
        then (cancel_track_skip (d\<lparr>lba := track_skip_target_lba d\<rparr>))\<lparr>d_status := PAUSE\<rparr>
        else d\<lparr>track_skip_deadline := skip_deadline d\<rparr>)"

section \<open>Reset and media\<close>

definition drive_zero :: SegaCDDrive where
  "drive_zero = \<lparr>toc = no_toc, tx = replicate 10 0, rx = replicate 10 0, pending = replicate 10 0, control = 0, d_status = 0,
     report = 0, query_track = 0, after_seek = 0, report_valid = False, tray_open = False, command_pending = False,
     unsupported_command = 0, motor_started = False, track_skip_active = False, track_skip_inward = False, d_fader = 0,
     lba = 0, seek_target = 0, track_skip_origin_lba = 0, track_skip_target_lba = 0, scan = 0, track_skip_count = 0,
     track_skip_step = 0, cycles = 0, frame_origin = 0, frames = 0, command_deadline = 0, seek_deadline = 0,
     fader_deadline = 0, track_skip_origin_cycle = 0, track_skip_deadline = 0\<rparr>"

definition segacd_cdd_reset :: "SegaCDDrive \<Rightarrow> SegaCDDrive" where
  "segacd_cdd_reset d = cdd_reply 0 (drive_zero\<lparr>toc := toc d, cycles := cycles d, d_status := STOP\<rparr>)"

definition segacd_cdd_init :: SegaCDDrive where
  "segacd_cdd_init = segacd_cdd_reset drive_zero"

definition track_valid :: "SegaCDTOC \<Rightarrow> nat \<Rightarrow> bool" where
  "track_valid t n \<longleftrightarrow>
    (let k = toc_track t ! n; p = toc_track t ! (n - 1)
     in \<not> (index00 k < - 150 \<or> index00 k > trk_start k \<or> trk_start k \<ge> trk_end k \<or> trk_end k > leadout t \<or> trk_data k > 1 \<or>
          n \<noteq> 0 \<and> (index00 k \<noteq> trk_end p \<or> trk_start k \<le> trk_start p)))"

definition toc_valid :: "SegaCDTOC \<Rightarrow> bool" where
  "toc_valid t \<longleftrightarrow>
    (let ts = toc_track t
     in ts \<noteq> [] \<and> length ts \<le> 99 \<and> leadout t > 0 \<and> leadout t \<le> 100 * 60 * 75 - 151 \<and> trk_start (ts ! 0) = 0 \<and>
        trk_end (ts ! (length ts - 1)) = leadout t \<and> list_all (track_valid t) [0..<length ts])"

definition segacd_cdd_mount :: "SegaCDTOC \<Rightarrow> SegaCDDrive \<Rightarrow> bool \<times> SegaCDDrive" where
  "segacd_cdd_mount t d =
    (if toc_valid t
     then let d = (cancel_track_skip (d\<lparr>toc := t, lba := 0, d_status := if tray_open d then OPEN else STOP, motor_started := False,
                scan := 0, seek_deadline := 0, command_deadline := 0, command_pending := False\<rparr>))
                \<lparr>control := control d AND NOT DTS, report := 0, report_valid := False, query_track := 0, unsupported_command := 0\<rparr>
          in (True, cdd_reply 0 d)
     else (False, d))"

definition segacd_cdd_unmount :: "SegaCDDrive \<Rightarrow> SegaCDDrive" where
  "segacd_cdd_unmount d =
    cdd_reply 0 (cancel_track_skip (d\<lparr>toc := no_toc, d_status := if tray_open d then OPEN else NO_DISC, motor_started := False, scan := 0, seek_deadline := 0\<rparr>))"

section \<open>Commands\<close>

definition two_digits :: "u8 list \<Rightarrow> nat \<Rightarrow> nat" where
  "two_digits p n = unat (p ! n) * 10 + unat (p ! (n + 1))"

definition destination :: "u8 list \<Rightarrow> int option" where
  "destination p =
    (if list_ex (\<lambda>n. p ! n > 9) [2..<8] then None
     else let minute = two_digits p 2; second = two_digits p 4; frame = two_digits p 6
          in if second \<ge> 60 \<or> frame \<ge> 75 then None else Some (int ((minute * 60 + second) * 75 + frame) - 150))"

definition halt_at :: "u8 \<Rightarrow> SegaCDDrive \<Rightarrow> SegaCDDrive" where
  "halt_at st d = (cancel_track_skip d)\<lparr>d_status := st, scan := 0, seek_deadline := 0\<rparr>"

definition cmd_stop :: "SegaCDDrive \<Rightarrow> SegaCDDrive" where
  "cmd_stop d = cdd_reply 0 ((halt_at STOP d)\<lparr>motor_started := True, report := 0, report_valid := False\<rparr>)"

definition cmd_report :: "u8 list \<Rightarrow> SegaCDDrive \<Rightarrow> SegaCDDrive" where
  "cmd_report p d =
    (if p ! 3 > 5 \<or> p ! 3 = 5 \<and> (p ! 4 > 9 \<or> p ! 5 > 9 \<or> two_digits p 4 < 1 \<or> two_digits p 4 > toc_count d) then cdd_reply ERROR d
     else let d = (if p ! 3 = 4 \<and> d_status d = STOP then d\<lparr>motor_started := True, d_status := READ_TOC\<rparr> else d)
          in cdd_reply 0 (d\<lparr>report := p ! 3, report_valid := True, query_track := of_nat (two_digits p 4)\<rparr>))"

definition cmd_seek :: "u8 \<Rightarrow> u8 list \<Rightarrow> SegaCDDrive \<Rightarrow> SegaCDDrive" where
  "cmd_seek after p d =
    (case destination p of
       None \<Rightarrow> cdd_reply ERROR d
     | Some target \<Rightarrow>
         if target \<ge> leadout (toc d) then cdd_reply ERROR d
         else let target = target - 3;
                  target = (if target < first_index d then first_index d else target);
                  distance = nat \<bar>target - lba d\<bar>;
                  d = cancel_track_skip d
              in cdd_reply 0 (d\<lparr>seek_target := target, after_seek := after,
                   seek_deadline := cycles d + CDD_CLOCK div 10 + distance * CDD_CLOCK div (75 * 1000),
                   d_status := SEEK, scan := 0, report := 2, report_valid := True\<rparr>))"

definition cmd_pause :: "SegaCDDrive \<Rightarrow> SegaCDDrive" where
  "cmd_pause d = cdd_reply 0 (halt_at PAUSE d)"

definition cmd_play :: "SegaCDDrive \<Rightarrow> SegaCDDrive" where
  "cmd_play d = cdd_reply 0 ((halt_at PLAY d)\<lparr>report := 2, report_valid := True\<rparr>)"

definition cmd_scan :: "int \<Rightarrow> SegaCDDrive \<Rightarrow> SegaCDDrive" where
  "cmd_scan by_frames d = cdd_reply 0 ((cancel_track_skip d)\<lparr>d_status := SCAN, scan := by_frames, seek_deadline := 0\<rparr>)"

definition skip_turns :: "u8 list \<Rightarrow> u32" where
  "skip_turns p = push_bit 12 (ucast (p ! 4)) OR push_bit 8 (ucast (p ! 5)) OR push_bit 4 (ucast (p ! 6)) OR ucast (p ! 7)"

definition cmd_skip :: "u8 list \<Rightarrow> SegaCDDrive \<Rightarrow> SegaCDDrive" where
  "cmd_skip p d =
    (if d_status d \<noteq> PLAY \<and> d_status d \<noteq> PAUSE \<and> d_status d \<noteq> LEADOUT then cdd_reply ERROR d
     else
       let d = (if report d = 4 \<or> report d = 5 then d\<lparr>report := 0\<rparr> else d);
           count = skip_turns p;
           d = (cancel_track_skip d)\<lparr>scan := 0, seek_deadline := 0, track_skip_inward := p ! 2 \<noteq> 0 \<or> p ! 3 \<noteq> 0,
             track_skip_origin_lba := lba d, track_skip_count := count, track_skip_step := 0, track_skip_origin_cycle := cycles d\<rparr>
       in if count = 0 then cdd_reply 0 (d\<lparr>track_skip_target_lba := lba d, d_status := PAUSE\<rparr>)
          else
            let d = d\<lparr>track_skip_target_lba := bounded_radius_to_lba d (moved_radius d (lba d) (ucast count * SKIP_PITCH))\<rparr>
            in if track_skip_target_lba d = lba d then cdd_reply 0 (d\<lparr>d_status := PAUSE\<rparr>)
               else cdd_reply 0 (d\<lparr>track_skip_active := True, track_skip_deadline := skip_deadline d, d_status := TRACKING\<rparr>))"

definition execute :: "SegaCDDrive \<Rightarrow> SegaCDDrive" where
  "execute d =
    (let p = pending d; command = unat (p ! 0)
     in if checksum p \<noteq> p ! 9 then cdd_reply CHECKSUM d
        else if p ! 1 \<noteq> 0 then cdd_reply ERROR d
        else if command = 0 then cdd_reply 0 d
        else if command = 12 then
          cdd_reply 0 ((cancel_track_skip d)\<lparr>tray_open := False, d_status := if toc_count d \<noteq> 0 then STOP else NO_DISC, motor_started := True\<rparr>)
        else if command = 13 then
          cdd_reply 0 ((cancel_track_skip d)\<lparr>tray_open := True, d_status := OPEN, motor_started := False, seek_deadline := 0, scan := 0\<rparr>)
        else if tray_open d \<or> toc_count d = 0 then cdd_reply 0 (if \<not> tray_open d then d\<lparr>d_status := NO_DISC\<rparr> else d)
        else if command = 1 then cmd_stop d
        else if command = 2 then cmd_report p d
        else if command = 3 then cmd_seek PLAY p d
        else if command = 4 then cmd_seek PAUSE p d
        else if command = 6 then cmd_pause d
        else if command = 7 then cmd_play d
        else if command = 8 then cmd_scan 10 d
        else if command = 9 then cmd_scan (- 10) d
        else if command = 10 then cmd_skip p d
        else cdd_reply ERROR (d\<lparr>unsupported_command := of_nat command\<rparr>))"

section \<open>Registers\<close>

definition segacd_cdd_read :: "nat \<Rightarrow> SegaCDDrive \<Rightarrow> u8" where
  "segacd_cdd_read r d =
    (if r = 0x34 then (if fader_deadline d \<noteq> 0 then 128 else 0)
     else if r = 0x35 then 0
     else if r = 0x36 then (if d_status d = PLAY \<and> toc_count d \<noteq> 0 \<and> trk_data (toc_track (toc d) ! track_at d) = 0 then 0 else 1)
     else if r = 0x37 then control d
     else if 0x38 \<le> r \<and> r < 0x42 then rx d ! (r - 0x38)
     else if 0x42 \<le> r \<and> r < 0x4C then tx d ! (r - 0x42)
     else 0)"

definition drop_command :: "SegaCDDrive \<Rightarrow> SegaCDDrive" where
  "drop_command d = d\<lparr>command_pending := False, command_deadline := 0\<rparr>"

definition write_control :: "u8 \<Rightarrow> SegaCDDrive \<Rightarrow> SegaCDDrive" where
  "write_control v d =
    (let old = control d;
         d = (if old AND HOCK \<noteq> 0 \<and> v AND HOCK = 0 then drop_command d else d);
         d = (if v AND DTS \<noteq> 0 then drop_command d else d);
         d = d\<lparr>control := (old AND DTS) OR (v AND HOCK)\<rparr>;
         d = (if \<not> command_pending d then d\<lparr>control := control d AND NOT DTS\<rparr> else d)
     in if old AND HOCK = 0 \<and> v AND HOCK \<noteq> 0 then d\<lparr>frame_origin := cycles d, frames := 1\<rparr> else d)"

definition segacd_cdd_write :: "nat \<Rightarrow> u8 \<Rightarrow> SegaCDDrive \<Rightarrow> SegaCDDrive" where
  "segacd_cdd_write r v d =
    (if r = 0x34 then d\<lparr>d_fader := be16 v (lo8 (d_fader d))\<rparr>
     else if r = 0x35 then d\<lparr>d_fader := be16 (hi8 (d_fader d)) v, fader_deadline := cycles d + CDD_CLOCK div 10000\<rparr>
     else if r = 0x37 then write_control v d
     else if 0x42 \<le> r \<and> r < 0x4C then
       (let d = d\<lparr>tx := (tx d)[r - 0x42 := v AND 15]\<rparr>
        in if r = 0x4B \<and> control d AND HOCK \<noteq> 0
           then d\<lparr>pending := tx d, command_pending := True, control := control d OR DTS,
             command_deadline := cycles d + CDD_CLOCK div 10000\<rparr>
           else d)
     else d)"

section \<open>Time\<close>

definition frame_time :: "SegaCDDrive \<Rightarrow> nat" where
  "frame_time d = frame_origin d + frames d div 75 * CDD_CLOCK + (frames d mod 75 * CDD_CLOCK + 74) div 75"

definition earlier :: "nat \<Rightarrow> nat option \<Rightarrow> nat option" where
  "earlier deadline next =
    (if deadline = 0 then next else case next of None \<Rightarrow> Some deadline | Some t \<Rightarrow> Some (if deadline < t then deadline else t))"

text \<open>\<^verbatim>\<open>UINT64_MAX\<close>, no event, is \<open>None\<close>.\<close>

definition segacd_cdd_next_event :: "SegaCDDrive \<Rightarrow> nat option" where
  "segacd_cdd_next_event d =
    earlier (fader_deadline d) (earlier (track_skip_deadline d) (earlier (seek_deadline d) (earlier (command_deadline d)
      (if control d AND HOCK \<noteq> 0 then Some (frame_time d) else None))))"

definition scan_step :: "SegaCDDrive \<Rightarrow> SegaCDDrive" where
  "scan_step d =
    (let l = lba d + scan d; l = (if l < 0 then 0 else l)
     in if l \<ge> leadout (toc d) then d\<lparr>lba := leadout (toc d), d_status := LEADOUT\<rparr> else d\<lparr>lba := l\<rparr>)"

definition drive_frame :: "(SegaCDDrive \<Rightarrow> int \<Rightarrow> 'm \<Rightarrow> 'm) \<Rightarrow> SegaCDDrive \<times> 'm \<Rightarrow> SegaCDDrive \<times> 'm" where
  "drive_frame sink dm =
    (let (d, m) = dm; d = d\<lparr>frames := frames d + 1\<rparr>
     in if d_status d = STOP \<and> motor_started d
        then (d\<lparr>d_status := if toc_count d \<noteq> 0 \<and> \<not> tray_open d then READ_TOC else NO_DISC, lba := 0\<rparr>, m)
        else if d_status d = READ_TOC then (d\<lparr>d_status := PAUSE, lba := 0\<rparr>, m)
        else if d_status d = PLAY then
          (if lba d \<ge> leadout (toc d) then (d\<lparr>d_status := LEADOUT\<rparr>, m) else (d\<lparr>lba := lba d + 1\<rparr>, sink d (lba d) m))
        else if d_status d = SCAN then (scan_step d, m)
        else (d, m))"

definition drive_deadlines :: "nat \<Rightarrow> SegaCDDrive \<Rightarrow> SegaCDDrive" where
  "drive_deadlines t d =
    (let d = d\<lparr>cycles := t\<rparr>;
         d = (if command_deadline d = t
              then execute (d\<lparr>command_pending := False, command_deadline := 0, control := control d AND NOT DTS\<rparr>) else d);
         d = (if seek_deadline d = t then d\<lparr>seek_deadline := 0, lba := seek_target d, d_status := after_seek d\<rparr> else d);
         d = (if track_skip_active d \<and> track_skip_deadline d = t then skip_step d else d)
     in if fader_deadline d = t then d\<lparr>fader_deadline := 0\<rparr> else d)"

definition drive_event :: "(SegaCDDrive \<Rightarrow> int \<Rightarrow> 'm \<Rightarrow> 'm) \<Rightarrow> nat \<Rightarrow> SegaCDDrive \<times> 'm \<times> bool \<Rightarrow> SegaCDDrive \<times> 'm \<times> bool" where
  "drive_event sink t st =
    (let (d, m, irq) = st; d = drive_deadlines t d
     in if control d AND HOCK \<noteq> 0 \<and> frame_time d = t then let (d, m) = drive_frame sink (d, m) in (d, m, True) else (d, m, irq))"

partial_function (option) drive_loop ::
  "(SegaCDDrive \<Rightarrow> int \<Rightarrow> 'm \<Rightarrow> 'm) \<Rightarrow> nat \<Rightarrow> SegaCDDrive \<times> 'm \<times> bool \<Rightarrow> (SegaCDDrive \<times> 'm \<times> bool) option" where
  "drive_loop sink until st =
    (case segacd_cdd_next_event (fst st) of
       None \<Rightarrow> Some st
     | Some t \<Rightarrow> if t > until then Some st else drive_loop sink until (drive_event sink t st))"

definition segacd_cdd_advance ::
  "(SegaCDDrive \<Rightarrow> int \<Rightarrow> 'm \<Rightarrow> 'm) \<Rightarrow> u32 \<Rightarrow> SegaCDDrive \<times> 'm \<Rightarrow> (bool \<times> SegaCDDrive \<times> 'm) option" where
  "segacd_cdd_advance sink clocks dm =
    (let (d, m) = dm; until = cycles d + unat clocks
     in case drive_loop sink until (d, m, False) of
          None \<Rightarrow> None
        | Some (d, m, irq) \<Rightarrow> Some (irq, d\<lparr>cycles := until\<rparr>, m))"

end
