(* ===== verification/Cd_Drive_Props.thy ===== *)
theory Cd_Drive_Props
  imports Cd_Drive
begin

text \<open>
  The disc drive: the integer square root behind the track skips, replies that always carry their checksum,
  an event loop that ends and does not depend on how time is cut into calls, and playback at exactly 75
  sectors a second.
\<close>

section \<open>The square root\<close>

text \<open>The bit of round \<open>j\<close>, counted down to 0, which ends the loop.\<close>

definition round_bit :: "nat \<Rightarrow> nat" where
  "round_bit j = (if j = 0 then 0 else 4 ^ (j - 1))"

lemma unat_drop_bit: "unat (drop_bit k x) = unat x div 2 ^ k" for x :: u64
  unfolding unsigned_drop_bit_eq using unsigned_less [where 'a = nat, of x] by (simp add: drop_bit_eq_div take_bit_nat_eq_self)

lemma power_four: "(4 :: nat) ^ j = 2 ^ j * 2 ^ j"
  by (simp flip: power_mult_distrib)

lemma round_bit_next: "round_bit (Suc j) div 4 = round_bit j"
  by (cases j) (simp_all add: round_bit_def)

lemma round_fits:
  assumes "2 ^ Suc j dvd r" "r < 2 ^ 32" "j \<le> 31"
  shows "2 ^ Suc j * r + 4 ^ j < (2 ^ 64 :: nat)"
proof (cases "r = 0")
  case True
  then have "2 ^ Suc j * r + 4 ^ j = (4 :: nat) ^ j" by simp
  also have "\<dots> \<le> 4 ^ 31" using assms(3) by (intro power_increasing) simp_all
  finally show ?thesis by simp
next
  case False
  have "(2 :: nat) ^ Suc j \<le> r" using False assms(1) by (simp add: dvd_imp_le)
  then have "(2 :: nat) ^ Suc j < 2 ^ 32" using assms(2) by simp
  then have j: "Suc j < 32" by (simp only: power_strict_increasing_iff)
  then have "(2 :: nat) ^ Suc j \<le> 2 ^ 31" by (intro power_increasing) simp_all
  then have "2 ^ Suc j * r \<le> 2 ^ 31 * 2 ^ 32" using assms(2) by (intro mult_mono) simp_all
  moreover have "(4 :: nat) ^ j \<le> 4 ^ 30" using j by (intro power_increasing) simp_all
  ultimately have "2 ^ Suc j * r + 4 ^ j \<le> (2 ^ 31 * 2 ^ 32 + 4 ^ 30 :: nat)" by (rule add_mono)
  also have "\<dots> < 2 ^ 64" by simp
  finally show ?thesis .
qed

lemma isqrt_loop_spec:
  assumes "unat b = round_bit j" "unat result = 2 ^ j * r" "unat n = N - r ^ 2" "r ^ 2 \<le> N" "N < (r + 2 ^ j) ^ 2"
    and "2 ^ j dvd r" "N < 2 ^ 64" "j \<le> 32"
  shows "unat (isqrt_loop b n result) ^ 2 \<le> N \<and> N < (unat (isqrt_loop b n result) + 1) ^ 2"
  using assms
proof (induction j arbitrary: b n result r)
  case 0
  then have "b = 0" by (simp add: round_bit_def unat_eq_0)
  then show ?case using 0 by (subst (1 2) isqrt_loop.simps) simp
next
  case (Suc j)
  have r32: "r < 2 ^ 32"
  proof (rule ccontr)
    assume "\<not> r < 2 ^ 32"
    then have "(2 ^ 32) ^ 2 \<le> r ^ 2" by (intro power_mono) simp_all
    then show False using Suc.prems(4,7) by simp
  qed
  have b: "unat b = 4 ^ j" using Suc.prems(1) by (simp add: round_bit_def)
  then have nz: "b \<noteq> 0" by auto
  have sum: "unat (result + b) = 2 ^ Suc j * r + 4 ^ j"
    using round_fits [OF Suc.prems(6) r32] Suc.prems(2,8) b by (simp add: unat_word_ariths)
  have sq: "(r + 2 ^ j) ^ 2 = r ^ 2 + (2 ^ Suc j * r + 4 ^ j)"
    by (simp add: power2_eq_square algebra_simps power_four)
  have half: "unat (drop_bit 1 result) = 2 ^ j * r" using Suc.prems(2) by (simp add: unat_drop_bit)
  have quarter: "unat (drop_bit 2 b) = round_bit j" using Suc.prems(1) round_bit_next by (simp add: unat_drop_bit)
  show ?case
  proof (cases "result + b \<le> n")
    case True
    then have le: "2 ^ Suc j * r + 4 ^ j \<le> N - r ^ 2" using sum Suc.prems(3) by (simp add: word_le_nat_alt)
    have "isqrt_loop b n result = isqrt_loop (drop_bit 2 b) (n - (result + b)) (drop_bit 1 result + b)"
      using True nz by (subst isqrt_loop.simps) simp
    moreover have "unat (drop_bit 1 result + b) = 2 ^ j * (r + 2 ^ j)"
    proof -
      have "2 ^ j * r + 4 ^ j \<le> 2 ^ Suc j * r + 4 ^ j" by simp
      also have "\<dots> < 2 ^ 64" using round_fits [OF Suc.prems(6) r32] Suc.prems(8) by simp
      finally have fits: "2 ^ j * r + 4 ^ j < (2 ^ 64 :: nat)" .
      have "unat (drop_bit 1 result + b) = (2 ^ j * r + 4 ^ j) mod 2 ^ 64"
        unfolding unat_word_ariths(1) half b by simp
      also have "\<dots> = 2 ^ j * r + 4 ^ j" using fits by (rule mod_less)
      also have "\<dots> = 2 ^ j * (r + 2 ^ j)" by (simp only: power_four distrib_left)
      finally show ?thesis .
    qed
    moreover have "unat (n - (result + b)) = N - (r + 2 ^ j) ^ 2"
      using True sum Suc.prems(3) sq by (simp add: unat_sub)
    moreover have "(r + 2 ^ j) ^ 2 \<le> N" using le sq Suc.prems(4) by simp
    moreover have "N < (r + 2 ^ j + 2 ^ j) ^ 2" using Suc.prems(5) by (simp add: mult_2 add.assoc)
    moreover have "2 ^ j dvd r + 2 ^ j" using Suc.prems(6) by (metis dvd_add dvd_refl dvd_trans le_imp_power_dvd le_SucI order_refl)
    ultimately show ?thesis using Suc.IH [OF quarter] Suc.prems(7,8) by simp
  next
    case False
    then have "N - r ^ 2 < 2 ^ Suc j * r + 4 ^ j" using sum Suc.prems(3) by (simp add: word_le_nat_alt not_le)
    then have "N < (r + 2 ^ j) ^ 2" using sq Suc.prems(4) by simp
    moreover have "isqrt_loop b n result = isqrt_loop (drop_bit 2 b) n (drop_bit 1 result)"
      using False nz by (subst isqrt_loop.simps) simp
    moreover have "2 ^ j dvd r" using Suc.prems(6) by (metis dvd_trans le_imp_power_dvd le_SucI order_refl)
    ultimately show ?thesis using Suc.IH [OF quarter half Suc.prems(3,4)] Suc.prems(7,8) by simp
  qed
qed

lemma isqrt_start_spec:
  assumes "unat b = round_bit j" "unat n < 4 ^ j" "j \<le> 32"
  shows "\<exists>i \<le> 32. unat (isqrt_start b n) = round_bit i \<and> unat n < 4 ^ i"
  using assms
proof (induction j arbitrary: b)
  case 0
  then have "b = 0" by (simp add: round_bit_def unat_eq_0)
  then show ?case using 0 by (subst isqrt_start.simps) auto
next
  case (Suc j)
  show ?case
  proof (cases "n < b")
    case True
    then have "unat n < 4 ^ j" using Suc.prems(1) by (simp add: word_less_nat_alt round_bit_def)
    moreover have "unat (drop_bit 2 b) = round_bit j" using Suc.prems(1) round_bit_next by (simp add: unat_drop_bit)
    ultimately show ?thesis using Suc.IH [of "drop_bit 2 b"] Suc.prems(3) True by (subst isqrt_start.simps) simp
  next
    case False
    then have "isqrt_start b n = b" by (subst isqrt_start.simps) simp
    then show ?thesis using Suc.prems by metis
  qed
qed

text \<open>
  The square root of the track skip is exact: for every 64-bit number the result is the largest integer
  whose square does not exceed it, and the rounded-up variant the smallest whose square is not below it.
\<close>

theorem isqrt_exact:
  "unat (isqrt64 n) ^ 2 \<le> unat n \<and> unat n < (unat (isqrt64 n) + 1) ^ 2 \<and>
   unat n \<le> unat (iceil_sqrt64 n) ^ 2 \<and> (unat n = 0 \<or> (unat (iceil_sqrt64 n) - 1) ^ 2 < unat n)"
proof -
  have "unat (push_bit 62 1 :: u64) = round_bit 32" by (simp add: round_bit_def push_bit_eq_mult)
  moreover have n: "unat n < 4 ^ 32" using unsigned_less [where 'a = nat, of n] by simp
  ultimately obtain i where i: "i \<le> 32" "unat (isqrt_start (push_bit 62 1) n) = round_bit i" "unat n < 4 ^ i"
    using isqrt_start_spec [of "push_bit 62 1" 32 n] by blast
  have root: "unat (isqrt64 n) ^ 2 \<le> unat n \<and> unat n < (unat (isqrt64 n) + 1) ^ 2"
    unfolding isqrt64_def
    by (rule isqrt_loop_spec [where j = i and r = 0]) (use i n in \<open>simp_all add: power_four power2_eq_square\<close>)
  define x where "x = unat (isqrt64 n)"
  have x: "x ^ 2 \<le> unat n" "unat n < (x + 1) ^ 2" using root by (simp_all add: x_def)
  have x32: "x < 2 ^ 32"
  proof (rule ccontr)
    assume "\<not> x < 2 ^ 32"
    then have "(2 ^ 32) ^ 2 \<le> x ^ 2" by (intro power_mono) simp_all
    then show False using x(1) n by simp
  qed
  have mult: "unat (isqrt64 n * isqrt64 n) = x ^ 2"
    using x(1) n by (simp add: unat_word_ariths x_def power2_eq_square)
  have succ: "unat (isqrt64 n + 1) = x + 1" using x32 by (simp add: unat_word_ariths x_def)
  have "unat n \<le> unat (iceil_sqrt64 n) ^ 2 \<and> (0 < unat n \<longrightarrow> (unat (iceil_sqrt64 n) - 1) ^ 2 < unat n)"
  proof (cases "isqrt64 n * isqrt64 n = n")
    case True
    then have eq: "unat n = x ^ 2" using mult by simp
    then have "0 < unat n \<longrightarrow> (x - 1) ^ 2 < unat n" by (auto intro!: power_strict_mono)
    then show ?thesis using True eq by (simp add: iceil_sqrt64_def Let_def x_def)
  next
    case False
    then have "x ^ 2 \<noteq> unat n" using mult by (metis word_unat_eq_iff)
    then show ?thesis using False x succ by (simp add: iceil_sqrt64_def Let_def)
  qed
  then show ?thesis using root by auto
qed

section \<open>Events\<close>

inductive cdd_reachable :: "SegaCDDrive \<Rightarrow> bool" where
  init: "cdd_reachable segacd_cdd_init"
| reset: "cdd_reachable d \<Longrightarrow> cdd_reachable (segacd_cdd_reset d)"
| mount: "cdd_reachable d \<Longrightarrow> cdd_reachable (snd (segacd_cdd_mount t d))"
| unmount: "cdd_reachable d \<Longrightarrow> cdd_reachable (segacd_cdd_unmount d)"
| command: "cdd_reachable d \<Longrightarrow> cdd_reachable (segacd_cdd_write r v d)"
| advance: "cdd_reachable d \<Longrightarrow> segacd_cdd_advance (\<lambda>_ _ m. m) clocks (d, ()) = Some (irq, d', u) \<Longrightarrow> cdd_reachable d'"

text \<open>What the time line of a drive promises at time \<open>t\<close>: every deadline and the next frame lie after \<open>t\<close>.\<close>

definition hocked :: "SegaCDDrive \<Rightarrow> bool" where
  "hocked d \<longleftrightarrow> control d AND HOCK \<noteq> 0"

definition nth_frame :: "SegaCDDrive \<Rightarrow> nat \<Rightarrow> nat" where
  "nth_frame d n = frame_origin d + n div 75 * 12500000 + (n mod 75 * 12500000 + 74) div 75"

definition due_after :: "nat \<Rightarrow> nat \<Rightarrow> bool" where
  "due_after t deadline \<longleftrightarrow> deadline = 0 \<or> t < deadline"

definition skip_ok :: "SegaCDDrive \<Rightarrow> bool" where
  "skip_ok d \<longleftrightarrow>
    (if track_skip_active d then track_skip_deadline d = skip_deadline d \<and> track_skip_step d < track_skip_count d else track_skip_deadline d = 0)"

definition times_after :: "nat \<Rightarrow> SegaCDDrive \<Rightarrow> bool" where
  "times_after t d \<longleftrightarrow> due_after t (command_deadline d) \<and> due_after t (seek_deadline d) \<and> due_after t (fader_deadline d) \<and>
    due_after t (track_skip_deadline d) \<and> skip_ok d \<and>
    (hocked d \<longrightarrow> 1 \<le> frames d \<and> nth_frame d (frames d - 1) \<le> t \<and> t < nth_frame d (frames d))"

definition drive_ok :: "SegaCDDrive \<Rightarrow> bool" where
  "drive_ok d \<longleftrightarrow> times_after (cycles d) d"

lemma frame_time_at: "frame_time d = nth_frame d (frames d)"
  by (simp add: frame_time_def nth_frame_def CDD_CLOCK_def)

lemma nth_frame_mono: "nth_frame d n < nth_frame d (Suc n)"
proof -
  have "nth_frame d n = frame_origin d + (n * 12500000 + 74) div 75" for n
  proof -
    have "n * 12500000 + 74 = (n mod 75 * 12500000 + 74) + 75 * (n div 75 * 12500000)"
    proof -
      have "n * 12500000 = (n div 75 * 75 + n mod 75) * 12500000" by simp
      then show ?thesis by (simp only: algebra_simps)
    qed
    then have "(n * 12500000 + 74) div 75 = n div 75 * 12500000 + (n mod 75 * 12500000 + 74) div 75"
      by simp
    then show ?thesis by (simp add: nth_frame_def)
  qed
  then show ?thesis by simp
qed

lemma nth_frame_second: "nth_frame d (n + 75 * s) = nth_frame d n + 12500000 * s"
  by (simp add: nth_frame_def algebra_simps)

lemma skip_deadline_eq: "skip_deadline d = track_skip_origin_cycle d + (unat (track_skip_step d) + 1) * 1250"
  by (simp add: skip_deadline_def CDD_CLOCK_def SKIP_TURNS_def)

lemma next_event_cases:
  "segacd_cdd_next_event d = None \<longleftrightarrow> command_deadline d = 0 \<and> seek_deadline d = 0 \<and> fader_deadline d = 0 \<and>
     track_skip_deadline d = 0 \<and> \<not> hocked d"
  by (simp add: segacd_cdd_next_event_def earlier_def hocked_def split: option.splits)

lemma next_event_least:
  assumes "segacd_cdd_next_event d = Some t"
  shows "command_deadline d \<noteq> 0 \<Longrightarrow> t \<le> command_deadline d" "seek_deadline d \<noteq> 0 \<Longrightarrow> t \<le> seek_deadline d"
    "fader_deadline d \<noteq> 0 \<Longrightarrow> t \<le> fader_deadline d" "track_skip_deadline d \<noteq> 0 \<Longrightarrow> t \<le> track_skip_deadline d"
    "hocked d \<Longrightarrow> t \<le> nth_frame d (frames d)"
    "t \<in> {command_deadline d, seek_deadline d, fader_deadline d, track_skip_deadline d} - {0} \<or> hocked d \<and> t = nth_frame d (frames d)"
  using assms
  by (auto simp: segacd_cdd_next_event_def earlier_def hocked_def frame_time_at split: if_splits option.splits)

lemma next_event_after:
  assumes "times_after u d" "segacd_cdd_next_event d = Some t"
  shows "u < t"
  using assms(1) next_event_least(6) [OF assms(2)] by (auto simp: times_after_def due_after_def)

lemma reply_eq: "\<exists>p. cdd_reply o' d = d\<lparr>rx := p\<rparr>"
  by (simp add: cdd_reply_def Let_def) metis

lemma times_after_reply [simp]: "times_after t (cdd_reply o' d) = times_after t d"
proof -
  obtain p where "cdd_reply o' d = d\<lparr>rx := p\<rparr>" using reply_eq by blast
  then show ?thesis by (simp add: times_after_def skip_ok_def skip_deadline_def hocked_def nth_frame_def)
qed

lemma reply_fields [simp]:
  "cycles (cdd_reply o' d) = cycles d" "control (cdd_reply o' d) = control d" "frames (cdd_reply o' d) = frames d"
  "command_deadline (cdd_reply o' d) = command_deadline d" "seek_deadline (cdd_reply o' d) = seek_deadline d"
  "fader_deadline (cdd_reply o' d) = fader_deadline d" "track_skip_deadline (cdd_reply o' d) = track_skip_deadline d"
  "track_skip_active (cdd_reply o' d) = track_skip_active d" "frame_origin (cdd_reply o' d) = frame_origin d"
  "skip_deadline (cdd_reply o' d) = skip_deadline d" "track_skip_step (cdd_reply o' d) = track_skip_step d"
  "track_skip_count (cdd_reply o' d) = track_skip_count d" "toc (cdd_reply o' d) = toc d" "lba (cdd_reply o' d) = lba d" "d_status (cdd_reply o' d) = d_status d"
  "track_skip_origin_cycle (cdd_reply o' d) = track_skip_origin_cycle d"
  by (simp_all add: cdd_reply_def Let_def skip_deadline_def)

text \<open>A command leaves the frame clock alone and schedules only what lies ahead.\<close>

definition command_effect :: "SegaCDDrive \<Rightarrow> SegaCDDrive \<Rightarrow> bool" where
  "command_effect d d' \<longleftrightarrow> cycles d' = cycles d \<and> control d' = control d \<and> frames d' = frames d \<and> frame_origin d' = frame_origin d \<and>
     command_deadline d' = command_deadline d \<and> fader_deadline d' = fader_deadline d \<and>
     (seek_deadline d' = seek_deadline d \<or> due_after (cycles d) (seek_deadline d')) \<and>
     (skip_ok d \<longrightarrow> skip_ok d' \<and> (track_skip_deadline d' = track_skip_deadline d \<or> due_after (cycles d) (track_skip_deadline d')))"

lemma effect_reply [simp]: "command_effect d (cdd_reply o' e) = command_effect d e"
  by (simp add: command_effect_def skip_ok_def)

lemma effect_if: "command_effect d x \<Longrightarrow> command_effect d y \<Longrightarrow> command_effect d (if b then x else y)"
  by simp

lemmas effect_defs = command_effect_def skip_ok_def due_after_def cancel_track_skip_def skip_deadline_def

lemma effect_commands:
  "command_effect d (cdd_reply o' d)" "command_effect d (cmd_stop d)" "command_effect d (cmd_pause d)" "command_effect d (cmd_play d)"
  "command_effect d (cmd_scan n d)" "command_effect d (cdd_reply o' (d\<lparr>unsupported_command := u\<rparr>))" "command_effect d (cmd_report p d)"
  "command_effect d (cdd_reply o' (if b then d\<lparr>d_status := u\<rparr> else d))"
  "command_effect d (cdd_reply o' ((cancel_track_skip d)\<lparr>tray_open := False, d_status := u, motor_started := True\<rparr>))"
  "command_effect d (cdd_reply o' ((cancel_track_skip d)\<lparr>tray_open := True, d_status := u, motor_started := False, seek_deadline := 0, scan := 0\<rparr>))"
  by (simp_all add: cmd_stop_def cmd_pause_def cmd_play_def cmd_scan_def cmd_report_def halt_at_def Let_def effect_defs)

lemma effect_seek: "command_effect d (cmd_seek after p d)"
  by (simp add: cmd_seek_def Let_def effect_defs CDD_CLOCK_def split: option.split)

lemma effect_skip: "command_effect d (cmd_skip p d)"
proof -
  define e where "e = (if report d = 4 \<or> report d = 5 then d\<lparr>report := 0\<rparr> else d)"
  define f where "f = (cancel_track_skip e)\<lparr>scan := 0, seek_deadline := 0, track_skip_inward := p ! 2 \<noteq> 0 \<or> p ! 3 \<noteq> 0,
    track_skip_origin_lba := lba e, track_skip_count := skip_turns p, track_skip_step := 0, track_skip_origin_cycle := cycles e\<rparr>"
  have f: "cycles f = cycles d" "control f = control d" "frames f = frames d" "frame_origin f = frame_origin d"
    "command_deadline f = command_deadline d" "fader_deadline f = fader_deadline d" "seek_deadline f = 0" "\<not> track_skip_active f"
    "track_skip_deadline f = 0" "track_skip_origin_cycle f = cycles d" "track_skip_step f = 0" "track_skip_count f = skip_turns p"
    by (simp_all add: f_def e_def cancel_track_skip_def)
  define g where "g = f\<lparr>track_skip_target_lba := bounded_radius_to_lba f (moved_radius f (lba f) (ucast (skip_turns p) * SKIP_PITCH))\<rparr>"
  have s: "skip_deadline g = cycles d + 1250" using f by (simp add: g_def skip_deadline_eq)
  have "command_effect d (g\<lparr>track_skip_active := True, track_skip_deadline := skip_deadline g, d_status := TRACKING\<rparr>)" if "skip_turns p \<noteq> 0"
  proof -
    have "skip_deadline (g\<lparr>track_skip_active := True, track_skip_deadline := skip_deadline g, d_status := TRACKING\<rparr>) = skip_deadline g"
      by (simp add: skip_deadline_def)
    then show ?thesis using that by (simp add: s command_effect_def skip_ok_def due_after_def) (simp add: g_def f word_neq_0_conv)
  qed
  moreover have "command_effect d (f\<lparr>track_skip_target_lba := l, d_status := PAUSE\<rparr>)" "command_effect d (g\<lparr>d_status := PAUSE\<rparr>)" for l
    using f by (simp_all add: g_def command_effect_def skip_ok_def due_after_def)
  ultimately show ?thesis
    unfolding cmd_skip_def Let_def e_def [symmetric] f_def [symmetric] g_def [symmetric]
    using effect_commands(1) by simp
qed

lemma execute_effect: "command_effect d (execute d)"
  unfolding execute_def Let_def by (intro effect_if effect_commands effect_seek effect_skip)

lemma skip_step_times:
  assumes "skip_ok d" "track_skip_active d"
  shows "skip_ok (skip_step d)" "due_after (track_skip_deadline d) (track_skip_deadline (skip_step d))"
    "cycles (skip_step d) = cycles d" "control (skip_step d) = control d" "frames (skip_step d) = frames d" "frame_origin (skip_step d) = frame_origin d"
    "command_deadline (skip_step d) = command_deadline d" "fader_deadline (skip_step d) = fader_deadline d" "seek_deadline (skip_step d) = seek_deadline d"
proof -
  have step: "track_skip_step d < track_skip_count d" "track_skip_deadline d = skip_deadline d" using assms by (simp_all add: skip_ok_def)
  then have "unat (track_skip_step d + 1) = unat (track_skip_step d) + 1"
    using unsigned_less [where 'a = nat, of "track_skip_count d"] by (simp add: word_less_nat_alt unat_word_ariths)
  then show "skip_ok (skip_step d)" "due_after (track_skip_deadline d) (track_skip_deadline (skip_step d))"
    using step assms(2) by (auto simp: skip_step_def Let_def skip_ok_def cancel_track_skip_def due_after_def skip_deadline_eq)
  show "cycles (skip_step d) = cycles d" "control (skip_step d) = control d" "frames (skip_step d) = frames d" "frame_origin (skip_step d) = frame_origin d"
    "command_deadline (skip_step d) = command_deadline d" "fader_deadline (skip_step d) = fader_deadline d" "seek_deadline (skip_step d) = seek_deadline d"
    by (simp_all add: skip_step_def Let_def cancel_track_skip_def)
qed

text \<open>The state before an event at \<open>t\<close>: nothing is due before \<open>t\<close>. After it, nothing is due up to \<open>t\<close>.\<close>

definition due_from :: "nat \<Rightarrow> nat \<Rightarrow> bool" where
  "due_from t deadline \<longleftrightarrow> deadline = 0 \<or> t \<le> deadline"

lemma due_after_imp_from: "due_after t x \<Longrightarrow> due_from t x"
  by (auto simp: due_after_def due_from_def)

lemma keep_hock: "(v AND NOT DTS) AND HOCK = v AND HOCK"
proof -
  have "NOT DTS AND HOCK = HOCK" by (simp add: DTS_def HOCK_def)
  then show ?thesis by (simp only: and.assoc)
qed

lemma deadlines_times:
  assumes "due_from t (command_deadline d)" "due_from t (seek_deadline d)" "due_from t (fader_deadline d)"
    "due_from t (track_skip_deadline d)" "skip_ok d" "0 < t"
  defines "e \<equiv> drive_deadlines t d"
  shows "due_after t (command_deadline e) \<and> due_after t (seek_deadline e) \<and> due_after t (fader_deadline e) \<and>
      due_after t (track_skip_deadline e) \<and> skip_ok e"
    and "cycles e = t" "frames e = frames d" "frame_origin e = frame_origin d" "hocked e = hocked d"
proof -
  define d0 where "d0 = d\<lparr>cycles := t\<rparr>"
  define d1 where "d1 = (if command_deadline d0 = t
    then execute (d0\<lparr>command_pending := False, command_deadline := 0, control := control d0 AND NOT DTS\<rparr>) else d0)"
  define d2 where "d2 = (if seek_deadline d1 = t then d1\<lparr>seek_deadline := 0, lba := seek_target d1, d_status := after_seek d1\<rparr> else d1)"
  define d3 where "d3 = (if track_skip_active d2 \<and> track_skip_deadline d2 = t then skip_step d2 else d2)"
  have e: "e = (if fader_deadline d3 = t then d3\<lparr>fader_deadline := 0\<rparr> else d3)"
    by (simp only: e_def drive_deadlines_def Let_def d0_def d1_def d2_def d3_def)
  have hock: "(control d AND NOT DTS) AND HOCK = control d AND HOCK" by (rule keep_hock)
  have same: "skip_ok (d0\<lparr>command_pending := False, command_deadline := 0, control := control d0 AND NOT DTS\<rparr>)" "skip_ok d0"
    using assms(5) by (simp_all add: d0_def skip_ok_def skip_deadline_def)
  define x where "x = d0\<lparr>command_pending := False, command_deadline := 0, control := control d0 AND NOT DTS\<rparr>"
  have x: "command_deadline x = 0" "seek_deadline x = seek_deadline d" "fader_deadline x = fader_deadline d" "track_skip_deadline x = track_skip_deadline d"
    "skip_ok x" "cycles x = t" "frames x = frames d" "frame_origin x = frame_origin d" "hocked x = hocked d"
    using same(1) by (simp_all add: x_def d0_def hocked_def hock)
  have d0: "command_deadline d0 = command_deadline d" "seek_deadline d0 = seek_deadline d" "fader_deadline d0 = fader_deadline d" "track_skip_deadline d0 = track_skip_deadline d"
    "skip_ok d0" "cycles d0 = t" "frames d0 = frames d" "frame_origin d0 = frame_origin d" "hocked d0 = hocked d"
    using same(2) by (simp_all add: d0_def hocked_def)
  have d1: "d1 = (if command_deadline d = t then execute x else d0)" by (simp add: d1_def x_def d0(1))
  have ex: "cycles (execute x) = t" "frames (execute x) = frames d" "frame_origin (execute x) = frame_origin d" "hocked (execute x) = hocked d"
    "command_deadline (execute x) = 0" "fader_deadline (execute x) = fader_deadline d" "skip_ok (execute x)"
    "seek_deadline (execute x) = seek_deadline d \<or> due_after t (seek_deadline (execute x))"
    "track_skip_deadline (execute x) = track_skip_deadline d \<or> due_after t (track_skip_deadline (execute x))"
    using execute_effect [of x] x unfolding command_effect_def hocked_def by simp_all
  define Q where "Q y \<longleftrightarrow> due_after t (command_deadline y) \<and> due_from t (seek_deadline y) \<and> due_from t (fader_deadline y) \<and>
    due_from t (track_skip_deadline y) \<and> skip_ok y \<and> cycles y = t \<and> frames y = frames d \<and> frame_origin y = frame_origin d \<and> hocked y = hocked d" for y
  have "due_from t (seek_deadline (execute x))" "due_from t (track_skip_deadline (execute x))"
    using ex(8,9) assms(2,4) due_after_imp_from by (metis, metis)
  then have "Q (execute x)" using ex(1-7) assms(3) by (simp add: Q_def due_after_def)
  moreover have "Q d0" if "command_deadline d \<noteq> t"
    using that d0 assms(1-4) by (auto simp: Q_def due_after_def due_from_def)
  ultimately have "Q d1" by (simp add: d1)
  then have 1: "due_after t (command_deadline d1)" "due_from t (seek_deadline d1)" "due_from t (fader_deadline d1)" "due_from t (track_skip_deadline d1)"
    "skip_ok d1" "cycles d1 = t" "frames d1 = frames d" "frame_origin d1 = frame_origin d" "hocked d1 = hocked d"
    by (simp_all add: Q_def)
  have 2: "due_after t (command_deadline d2)" "due_after t (seek_deadline d2)" "due_from t (fader_deadline d2)" "due_from t (track_skip_deadline d2)"
    "skip_ok d2" "cycles d2 = t" "frames d2 = frames d" "frame_origin d2 = frame_origin d" "hocked d2 = hocked d"
    using 1 by (auto simp: d2_def due_after_def due_from_def hocked_def skip_ok_def skip_deadline_def)
  define R where "R y \<longleftrightarrow> due_after t (command_deadline y) \<and> due_after t (seek_deadline y) \<and> due_from t (fader_deadline y) \<and>
    due_after t (track_skip_deadline y) \<and> skip_ok y \<and> cycles y = t \<and> frames y = frames d \<and> frame_origin y = frame_origin d \<and> hocked y = hocked d" for y
  have "R d3"
  proof (cases "track_skip_active d2 \<and> track_skip_deadline d2 = t")
    case True
    note k = skip_step_times [OF 2(5)]
    show ?thesis using True k 2 unfolding R_def d3_def hocked_def by simp
  next
    case False
    then have "due_after t (track_skip_deadline d2)" using 2(4,5) by (auto simp: skip_ok_def due_after_def due_from_def split: if_splits)
    moreover have "d3 = d2" using False by (auto simp: d3_def)
    ultimately show ?thesis using 2 unfolding R_def by simp
  qed
  then have 3: "due_after t (command_deadline d3)" "due_after t (seek_deadline d3)" "due_from t (fader_deadline d3)" "due_after t (track_skip_deadline d3)"
    "skip_ok d3" "cycles d3 = t" "frames d3 = frames d" "frame_origin d3 = frame_origin d" "hocked d3 = hocked d"
    by (simp_all add: R_def)
  show "due_after t (command_deadline e) \<and> due_after t (seek_deadline e) \<and> due_after t (fader_deadline e) \<and>
      due_after t (track_skip_deadline e) \<and> skip_ok e"
    using 3 by (auto simp: e due_after_def due_from_def skip_ok_def skip_deadline_def)
  show "cycles e = t" "frames e = frames d" "frame_origin e = frame_origin d" "hocked e = hocked d"
    using 3 by (simp_all add: e hocked_def)
qed

lemma drive_frame_times:
  "frames (fst (drive_frame sink (d, m))) = frames d + 1" "cycles (fst (drive_frame sink (d, m))) = cycles d"
  "command_deadline (fst (drive_frame sink (d, m))) = command_deadline d" "seek_deadline (fst (drive_frame sink (d, m))) = seek_deadline d"
  "fader_deadline (fst (drive_frame sink (d, m))) = fader_deadline d" "track_skip_deadline (fst (drive_frame sink (d, m))) = track_skip_deadline d"
  "skip_ok (fst (drive_frame sink (d, m))) = skip_ok d" "hocked (fst (drive_frame sink (d, m))) = hocked d" "frame_origin (fst (drive_frame sink (d, m))) = frame_origin d"
  by (simp_all add: drive_frame_def scan_step_def Let_def skip_ok_def skip_deadline_def hocked_def)

lemma drive_event_times:
  assumes "times_after u d" "segacd_cdd_next_event d = Some t"
  shows "times_after t (fst (drive_event sink t (d, m, irq)))" "cycles (fst (drive_event sink t (d, m, irq))) = t"
proof -
  have u: "u < t" using assms by (rule next_event_after)
  have from': "due_from t (command_deadline d)" "due_from t (seek_deadline d)" "due_from t (fader_deadline d)" "due_from t (track_skip_deadline d)"
    using next_event_least(1-4) [OF assms(2)] by (auto simp: due_from_def)
  define e where "e = drive_deadlines t d"
  have "skip_ok d" "0 < t" using assms(1) u by (simp_all add: times_after_def)
  note e = deadlines_times [OF from' this, folded e_def]
  have f: "nth_frame e = nth_frame d" using e(4) by (simp add: nth_frame_def fun_eq_iff)
  have h: "1 \<le> frames e \<and> nth_frame e (frames e - 1) \<le> t \<and> t \<le> nth_frame e (frames e)" if "hocked e"
    using that assms(1) next_event_least(5) [OF assms(2)] u unfolding f e(3,5) times_after_def by force
  have ev: "drive_event sink t (d, m, irq) =
      (if hocked e \<and> nth_frame e (frames e) = t then let (d, m) = drive_frame sink (e, m) in (d, m, True) else (e, m, irq))"
    by (simp add: drive_event_def Let_def e_def hocked_def frame_time_at)
  show "times_after t (fst (drive_event sink t (d, m, irq)))"
  proof (cases "hocked e \<and> nth_frame e (frames e) = t")
    case True
    define g where "g = fst (drive_frame sink (e, m))"
    have g: "nth_frame g = nth_frame e" by (simp add: g_def nth_frame_def drive_frame_times fun_eq_iff)
    have "times_after t g" using e(1) True nth_frame_mono [of e "frames e"] unfolding times_after_def g
      by (simp add: g_def drive_frame_times)
    then show ?thesis using True by (simp add: ev g_def split_beta)
  next
    case False
    then show ?thesis using e(1) h by (auto simp: ev times_after_def)
  qed
  show "cycles (fst (drive_event sink t (d, m, irq))) = t"
    using e(2) by (simp add: ev split_beta drive_frame_times)
qed

section \<open>The loop\<close>

text \<open>The loop ends before any event after \<open>until\<close>, and cutting it at an earlier time changes nothing.\<close>

definition quiet_until :: "nat \<Rightarrow> SegaCDDrive \<Rightarrow> bool" where
  "quiet_until u d \<longleftrightarrow> (case segacd_cdd_next_event d of None \<Rightarrow> True | Some t \<Rightarrow> u < t)"

lemma drive_loop_quiet: "quiet_until u (fst st) \<Longrightarrow> drive_loop sink u st = Some st"
  by (subst drive_loop.simps) (auto simp: quiet_until_def split: option.splits)

lemma drive_loop_event:
  "segacd_cdd_next_event (fst st) = Some t \<Longrightarrow> t \<le> u \<Longrightarrow> drive_loop sink u st = drive_loop sink u (drive_event sink t st)"
  by (subst drive_loop.simps) simp

lemma drive_loop_induct [consumes 1, case_names quiet event]:
  assumes "drive_ok (fst st)"
    and quiet: "\<And>st. drive_ok (fst st) \<Longrightarrow> quiet_until u (fst st) \<Longrightarrow> P st"
    and event: "\<And>st t. drive_ok (fst st) \<Longrightarrow> segacd_cdd_next_event (fst st) = Some t \<Longrightarrow> t \<le> u \<Longrightarrow>
      drive_ok (fst (drive_event sink t st)) \<Longrightarrow> cycles (fst st) < t \<Longrightarrow> cycles (fst (drive_event sink t st)) = t \<Longrightarrow> P (drive_event sink t st) \<Longrightarrow> P st"
  shows "P st"
  using assms(1)
proof (induction "u - cycles (fst st)" arbitrary: st rule: less_induct)
  case less
  show ?case
  proof (cases "quiet_until u (fst st)")
    case True
    then show ?thesis using quiet less.prems by blast
  next
    case False
    then obtain t where t: "segacd_cdd_next_event (fst st) = Some t" "t \<le> u" by (auto simp: quiet_until_def split: option.splits)
    obtain d m irq where st: "st = (d, m, irq)" by (cases st)
    have ok: "times_after (cycles d) d" using less.prems by (simp add: drive_ok_def st)
    have "times_after t (fst (drive_event sink t st))" "cycles (fst (drive_event sink t st)) = t" "cycles d < t"
      using drive_event_times [OF ok, of t sink m irq] next_event_after [OF ok] t(1) by (simp_all add: st)
    then have "drive_ok (fst (drive_event sink t st))" "u - cycles (fst (drive_event sink t st)) < u - cycles (fst st)"
      using t(2) by (simp_all add: drive_ok_def st)
    then show ?thesis using event less.prems t less.hyps \<open>cycles d < t\<close> \<open>cycles (fst (drive_event sink t st)) = t\<close> by (simp add: st)
  qed
qed

lemma drive_loop_returns:
  assumes "drive_ok (fst st)" "cycles (fst st) \<le> u"
  shows "\<exists>st'. drive_loop sink u st = Some st' \<and> drive_ok (fst st') \<and> quiet_until u (fst st') \<and> cycles (fst st') \<le> u"
  using assms
proof (induction st rule: drive_loop_induct [where sink = sink and u = u])
  case (quiet st)
  then show ?case by (auto simp: drive_loop_quiet)
next
  case (event st t)
  then show ?case by (simp add: drive_loop_event)
qed

lemma drive_loop_cut:
  assumes "drive_ok (fst st)" "cycles (fst st) \<le> u" "u \<le> v"
  shows "drive_loop sink v st = Option.bind (drive_loop sink u st) (drive_loop sink v)"
  using assms
proof (induction st rule: drive_loop_induct [where sink = sink and u = u])
  case (quiet st)
  then show ?case by (simp add: drive_loop_quiet)
next
  case (event st t)
  then show ?case by (simp add: drive_loop_event)
qed

lemma next_event_cycles: "segacd_cdd_next_event (d\<lparr>cycles := c\<rparr>) = segacd_cdd_next_event d"
  by (simp add: segacd_cdd_next_event_def frame_time_def)

lemma drive_event_cycles: "drive_event sink t (d\<lparr>cycles := c\<rparr>, m, irq) = drive_event sink t (d, m, irq)"
  by (simp add: drive_event_def drive_deadlines_def)

lemma drive_ok_until:
  assumes "drive_ok d" "quiet_until u d" "cycles d \<le> u"
  shows "drive_ok (d\<lparr>cycles := u\<rparr>)"
proof -
  have same: "skip_ok (d\<lparr>cycles := u\<rparr>) = skip_ok d" "nth_frame (d\<lparr>cycles := u\<rparr>) = nth_frame d" "hocked (d\<lparr>cycles := u\<rparr>) = hocked d"
    by (simp_all add: skip_ok_def skip_deadline_def nth_frame_def hocked_def fun_eq_iff)
  have ok: "skip_ok d" "hocked d \<Longrightarrow> 1 \<le> frames d" "hocked d \<Longrightarrow> nth_frame d (frames d - 1) \<le> u"
    using assms(1,3) by (auto simp: drive_ok_def times_after_def)
  show ?thesis
  proof (cases "segacd_cdd_next_event d")
    case None
    then show ?thesis using ok by (simp add: next_event_cases drive_ok_def times_after_def due_after_def same)
  next
    case (Some t)
    then have "u < t" using assms(2) by (simp add: quiet_until_def)
    then show ?thesis using ok next_event_least(1-5) [OF Some]
      by (auto simp: drive_ok_def times_after_def due_after_def same intro: less_le_trans)
  qed
qed

lemma drive_loop_cycles:
  "map_option (\<lambda>(d, r). (d\<lparr>cycles := u\<rparr>, r)) (drive_loop sink u (d\<lparr>cycles := c\<rparr>, m, irq)) =
    map_option (\<lambda>(d, r). (d\<lparr>cycles := u\<rparr>, r)) (drive_loop sink u (d, m, irq))"
proof (cases "quiet_until u d")
  case True
  then have "quiet_until u (d\<lparr>cycles := c\<rparr>)" by (simp add: quiet_until_def next_event_cycles)
  then show ?thesis using True by (simp add: drive_loop_quiet)
next
  case False
  then obtain t where t: "segacd_cdd_next_event d = Some t" "t \<le> u" by (auto simp: quiet_until_def split: option.splits)
  then have "drive_loop sink u (d\<lparr>cycles := c\<rparr>, m, irq) = drive_loop sink u (drive_event sink t (d, m, irq))"
    using drive_loop_event [of "(d\<lparr>cycles := c\<rparr>, m, irq)" t u sink] by (simp add: next_event_cycles drive_event_cycles)
  then show ?thesis using drive_loop_event [of "(d, m, irq)" t u sink] t by simp
qed

lemma drive_event_irq: "drive_event sink t (d, m, irq) = (case drive_event sink t (d, m, False) of (d, m, i) \<Rightarrow> (d, m, irq \<or> i))"
  by (simp add: drive_event_def Let_def split_beta)

lemma drive_loop_irq:
  assumes "drive_ok (fst st)"
  shows "drive_loop sink u (fst st, fst (snd st), irq \<or> snd (snd st)) = map_option (\<lambda>(d, m, i). (d, m, irq \<or> i)) (drive_loop sink u st)"
  using assms
proof (induction st rule: drive_loop_induct [where sink = sink and u = u])
  case (quiet st)
  then show ?case by (simp add: drive_loop_quiet split_beta)
next
  case (event st t)
  obtain d m i where st: "st = (d, m, i)" by (cases st)
  obtain d1 m1 i1 where e: "drive_event sink t (d, m, False) = (d1, m1, i1)" by (cases "drive_event sink t (d, m, False)")
  have x: "drive_event sink t (d, m, j) = (d1, m1, j \<or> i1)" for j using drive_event_irq [of sink t d m j] by (simp add: e)
  have "drive_loop sink u (d, m, irq \<or> i) = drive_loop sink u (d1, m1, (irq \<or> i) \<or> i1)"
    using event(2,3) drive_loop_event [of "(d, m, irq \<or> i)" t u sink] unfolding x by (simp add: st)
  moreover have "drive_loop sink u (d, m, i) = drive_loop sink u (d1, m1, i \<or> i1)"
    using event(2,3) drive_loop_event [of "(d, m, i)" t u sink] unfolding x by (simp add: st)
  ultimately show ?case using event(7) unfolding st x by (simp add: disj_assoc)
qed

lemma advance_ok:
  assumes "drive_ok d"
  shows "\<exists>irq d' m'. segacd_cdd_advance sink clocks (d, m) = Some (irq, d', m') \<and> drive_ok d'"
proof -
  obtain d' m' irq where "drive_loop sink (cycles d + unat clocks) (d, m, False) = Some (d', m', irq)" "drive_ok d'"
    "quiet_until (cycles d + unat clocks) d'" "cycles d' \<le> cycles d + unat clocks"
    using drive_loop_returns [of "(d, m, False)" "cycles d + unat clocks" sink] assms by auto
  then show ?thesis using drive_ok_until by (simp add: segacd_cdd_advance_def Let_def)
qed

lemma drive_ok_reply [simp]: "drive_ok (cdd_reply o' d) = drive_ok d"
  by (simp add: drive_ok_def)

lemma drive_ok_reset: "drive_ok (segacd_cdd_reset d)"
  by (simp add: segacd_cdd_reset_def drive_ok_def times_after_def due_after_def skip_ok_def hocked_def drive_zero_def)

lemma drive_ok_media: "drive_ok d \<Longrightarrow> drive_ok (snd (segacd_cdd_mount t d))" "drive_ok d \<Longrightarrow> drive_ok (segacd_cdd_unmount d)"
  by (cases "toc_valid t")
    (simp_all add: segacd_cdd_mount_def segacd_cdd_unmount_def Let_def drive_ok_def times_after_def due_after_def skip_ok_def hocked_def
      cancel_track_skip_def nth_frame_def keep_hock)

lemma new_control: "(old AND DTS OR v AND HOCK) AND HOCK = v AND HOCK"
  by (simp add: bit.conj_disj_distrib2 and.assoc DTS_def HOCK_def)

lemma drive_ok_write_control:
  assumes "drive_ok d"
  shows "drive_ok (write_control v d)"
proof -
  define e where "e = write_control v d"
  have f: "cycles e = cycles d" "seek_deadline e = seek_deadline d" "fader_deadline e = fader_deadline d" "track_skip_deadline e = track_skip_deadline d"
    "skip_ok e = skip_ok d" "command_deadline e = 0 \<or> command_deadline e = command_deadline d" "hocked e \<longleftrightarrow> v AND HOCK \<noteq> 0"
    by (simp_all add: e_def write_control_def drop_command_def Let_def skip_ok_def skip_deadline_def hocked_def new_control keep_hock)
  have g: "frame_origin e = (if \<not> hocked d \<and> v AND HOCK \<noteq> 0 then cycles d else frame_origin d)"
    "frames e = (if \<not> hocked d \<and> v AND HOCK \<noteq> 0 then 1 else frames d)"
    by (simp_all add: e_def write_control_def drop_command_def Let_def hocked_def)
  have n: "nth_frame e = (if \<not> hocked d \<and> v AND HOCK \<noteq> 0 then (\<lambda>n. cycles d + n div 75 * 12500000 + (n mod 75 * 12500000 + 74) div 75) else nth_frame d)"
    by (simp add: nth_frame_def g fun_eq_iff)
  show ?thesis using assms f unfolding drive_ok_def times_after_def e_def [symmetric] n g(2)
    by (cases "hocked d") (auto simp: due_after_def)
qed

lemma hock_or_dts: "(v OR DTS) AND HOCK = v AND HOCK"
  by (simp add: bit.conj_disj_distrib2 DTS_def HOCK_def)

lemma drive_ok_updates:
  "drive_ok (d\<lparr>d_fader := f\<rparr>) = drive_ok d" "drive_ok (d\<lparr>tx := l\<rparr>) = drive_ok d"
  "drive_ok d \<Longrightarrow> drive_ok (d\<lparr>d_fader := f, fader_deadline := cycles d + CDD_CLOCK div 10000\<rparr>)"
  "drive_ok d \<Longrightarrow> drive_ok (d\<lparr>pending := l, command_pending := True, control := control d OR DTS, command_deadline := cycles d + CDD_CLOCK div 10000\<rparr>)"
  by (simp_all add: drive_ok_def times_after_def due_after_def skip_ok_def skip_deadline_def hocked_def nth_frame_def hock_or_dts CDD_CLOCK_def)

lemma drive_ok_write: "drive_ok d \<Longrightarrow> drive_ok (segacd_cdd_write r v d)"
  using drive_ok_updates(4) [of "d\<lparr>tx := l\<rparr>" for l]
  by (simp add: segacd_cdd_write_def Let_def drive_ok_updates(1-3) drive_ok_write_control)

lemma reachable_drive_ok: "cdd_reachable d \<Longrightarrow> drive_ok d"
proof (induction rule: cdd_reachable.induct)
  case (advance d clocks irq d' u)
  then show ?case using advance_ok [of d "\<lambda>_ _ m. m" clocks "()"] by auto
qed (simp_all add: segacd_cdd_init_def drive_ok_reset drive_ok_media drive_ok_write)

text \<open>
  The drive always answers and its time can be cut anywhere. From every reachable state, whatever receives the
  sectors, advancing by \<open>a\<close> and then by \<open>b\<close> clocks returns, and it gives the drive, the delivered sectors and the interrupt
  of one advance by \<open>a + b\<close> clocks.
\<close>

theorem drive_time_splits:
  assumes "cdd_reachable d" "unat a + unat b < 2 ^ 32"
  shows "\<exists>i1 d1 m1 i2 d2 m2. segacd_cdd_advance sink a (d, m) = Some (i1, d1, m1) \<and> segacd_cdd_advance sink b (d1, m1) = Some (i2, d2, m2) \<and>
    segacd_cdd_advance sink (a + b) (d, m) = Some (i1 \<or> i2, d2, m2)"
proof -
  define u v where "u = cycles d + unat a" and "v = u + unat b"
  have ok: "drive_ok d" using assms(1) by (rule reachable_drive_ok)
  obtain e1 m1 i1 where l1: "drive_loop sink u (d, m, False) = Some (e1, m1, i1)" "drive_ok e1" "quiet_until u e1" "cycles e1 \<le> u"
    using drive_loop_returns [of "(d, m, False)" u sink] ok by (auto simp: u_def)
  have ok1: "drive_ok (e1\<lparr>cycles := u\<rparr>)" using l1(2-4) by (rule drive_ok_until)
  obtain e2 m2 i2 where l2: "drive_loop sink v (e1\<lparr>cycles := u\<rparr>, m1, False) = Some (e2, m2, i2)"
    using drive_loop_returns [of "(e1\<lparr>cycles := u\<rparr>, m1, False)" v sink] ok1 by (auto simp: v_def)
  have "drive_loop sink v (d, m, False) = drive_loop sink v (e1, m1, i1)"
    using drive_loop_cut [of "(d, m, False)" u v sink] ok l1(1) by (simp add: u_def v_def)
  also have "\<dots> = map_option (\<lambda>(d, m, i). (d, m, i1 \<or> i)) (drive_loop sink v (e1, m1, False))"
    using drive_loop_irq [of "(e1, m1, False)" sink v i1] l1(2) by simp
  finally have w: "drive_loop sink v (d, m, False) = map_option (\<lambda>(d, m, i). (d, m, i1 \<or> i)) (drive_loop sink v (e1, m1, False))" .
  have "map_option (\<lambda>(d, r). (d\<lparr>cycles := v\<rparr>, r)) (drive_loop sink v (e1, m1, False)) = Some (e2\<lparr>cycles := v\<rparr>, m2, i2)"
    using drive_loop_cycles [where u = v and sink = sink and d = e1 and c = u and m = m1 and irq = False] l2 by simp
  then obtain e3 where e3: "drive_loop sink v (e1, m1, False) = Some (e3, m2, i2)" "e3\<lparr>cycles := v\<rparr> = e2\<lparr>cycles := v\<rparr>"
    by auto
  have ab: "unat (a + b) = unat a + unat b" using assms(2) by (simp add: unat_word_ariths)
  have "segacd_cdd_advance sink a (d, m) = Some (i1, e1\<lparr>cycles := u\<rparr>, m1)" using l1(1) by (simp add: segacd_cdd_advance_def u_def)
  moreover have "segacd_cdd_advance sink b (e1\<lparr>cycles := u\<rparr>, m1) = Some (i2, e2\<lparr>cycles := v\<rparr>, m2)"
    using l2 by (simp add: segacd_cdd_advance_def v_def)
  moreover have "segacd_cdd_advance sink (a + b) (d, m) = Some (i1 \<or> i2, e2\<lparr>cycles := v\<rparr>, m2)"
    using w e3 by (simp add: segacd_cdd_advance_def ab u_def v_def add.assoc)
  ultimately show ?thesis by blast
qed

section \<open>Playback\<close>

definition playing :: "SegaCDDrive \<Rightarrow> bool" where
  "playing d \<longleftrightarrow> d_status d = PLAY \<and> hocked d \<and> command_deadline d = 0 \<and> seek_deadline d = 0 \<and> fader_deadline d = 0 \<and>
     \<not> track_skip_active d"

definition collect :: "SegaCDDrive \<Rightarrow> int \<Rightarrow> int list \<Rightarrow> int list" where
  "collect d l ls = ls @ [l]"

lemma play_event:
  assumes "drive_ok d" "playing d" "lba d < leadout (toc d)"
  defines "t \<equiv> nth_frame d (frames d)"
  shows "segacd_cdd_next_event d = Some t"
    and "drive_event collect t (d, ls, irq) = (d\<lparr>cycles := t, frames := frames d + 1, lba := lba d + 1\<rparr>, ls @ [lba d], True)"
proof -
  have z: "command_deadline d = 0" "seek_deadline d = 0" "fader_deadline d = 0" "track_skip_deadline d = 0" "\<not> track_skip_active d"
    "control d AND HOCK \<noteq> 0" "d_status d = PLAY" "0 < t"
    using assms by (auto simp: playing_def drive_ok_def times_after_def skip_ok_def hocked_def split: if_splits)
  show "segacd_cdd_next_event d = Some t" using z by (simp add: segacd_cdd_next_event_def earlier_def frame_time_at t_def)
  have "drive_deadlines t d = d\<lparr>cycles := t\<rparr>" using z by (simp add: drive_deadlines_def Let_def)
  moreover have "frame_time (d\<lparr>cycles := t\<rparr>) = t" by (simp add: frame_time_at t_def nth_frame_def)
  ultimately show "drive_event collect t (d, ls, irq) = (d\<lparr>cycles := t, frames := frames d + 1, lba := lba d + 1\<rparr>, ls @ [lba d], True)"
    using z assms(3) by (simp add: drive_event_def Let_def drive_frame_def collect_def PLAY_def STOP_def READ_TOC_def)
qed

lemma nth_frame_le: "m \<le> n \<Longrightarrow> nth_frame d m \<le> nth_frame d n"
  by (rule lift_Suc_mono_le [where f = "nth_frame d"]) (simp_all add: nth_frame_mono less_imp_le)

lemma play_loop:
  assumes "drive_ok d" "playing d" "lba d + int n \<le> leadout (toc d)" "n \<noteq> 0 \<Longrightarrow> nth_frame d (frames d + n - 1) \<le> u" "u < nth_frame d (frames d + n)"
  shows "\<exists>c. drive_loop collect u (d, ls, irq) =
    Some (d\<lparr>cycles := c, frames := frames d + n, lba := lba d + int n\<rparr>, ls @ map (\<lambda>i. lba d + int i) [0..<n], irq \<or> 0 < n)"
  using assms
proof (induction n arbitrary: d ls irq)
  case 0
  have z: "command_deadline d = 0" "seek_deadline d = 0" "fader_deadline d = 0" "track_skip_deadline d = 0"
    using 0 by (auto simp: playing_def drive_ok_def times_after_def skip_ok_def split: if_splits)
  then have "segacd_cdd_next_event d = Some (nth_frame d (frames d))"
    using "0.prems"(2) by (simp add: segacd_cdd_next_event_def earlier_def frame_time_at playing_def hocked_def)
  then have "quiet_until u d" using "0.prems"(5) by (simp add: quiet_until_def)
  then have "drive_loop collect u (d, ls, irq) = Some (d, ls, irq)" using drive_loop_quiet [of u "(d, ls, irq)" collect] by simp
  then show ?case by (intro exI [of _ "cycles d"]) simp
next
  case (Suc n)
  define t where "t = nth_frame d (frames d)"
  define e where "e = d\<lparr>cycles := t, frames := frames d + 1, lba := lba d + 1\<rparr>"
  have l: "lba d < leadout (toc d)" using Suc.prems(3) by simp
  note ev = play_event [OF Suc.prems(1,2) l, folded t_def]
  have tu: "t \<le> u" using Suc.prems(4) nth_frame_le [of "frames d" "frames d + n" d] by (simp add: t_def)
  have "drive_ok e"
    using drive_event_times [of "cycles d" d t collect ls irq] Suc.prems(1) ev by (simp add: drive_ok_def e_def)
  moreover have "playing e" using Suc.prems(2) by (simp add: playing_def e_def hocked_def)
  moreover have n: "nth_frame e = nth_frame d" "frames e = frames d + 1" "lba e = lba d + 1" "toc e = toc d"
    by (simp_all add: e_def nth_frame_def fun_eq_iff)
  ultimately have "\<exists>c. drive_loop collect u (e, ls @ [lba d], True) =
      Some (e\<lparr>cycles := c, frames := frames e + n, lba := lba e + int n\<rparr>, (ls @ [lba d]) @ map (\<lambda>i. lba e + int i) [0..<n], True \<or> 0 < n)"
    using Suc.prems(3-5) by (intro Suc.IH) (simp_all add: n)
  then obtain c where c: "drive_loop collect u (e, ls @ [lba d], True) =
      Some (e\<lparr>cycles := c, frames := frames e + n, lba := lba e + int n\<rparr>, (ls @ [lba d]) @ map (\<lambda>i. lba e + int i) [0..<n], True \<or> 0 < n)" ..
  have "drive_loop collect u (d, ls, irq) = drive_loop collect u (e, ls @ [lba d], True)"
    using drive_loop_event [of "(d, ls, irq)" t u collect] ev tu by (simp add: e_def)
  moreover have "[lba d] @ map (\<lambda>i. lba e + int i) [0..<n] = map (\<lambda>i. lba d + int i) [0..<Suc n]"
    by (simp add: e_def upt_conv_Cons map_Suc_upt [symmetric] o_def del: upt_Suc)
  ultimately show ?case using c by (intro exI [of _ c]) (simp add: e_def add.assoc del: upt_Suc)
qed

text \<open>
  While the drive plays, with no command, seek, skip or fader event pending, it delivers exactly 75 sectors a second,
  consecutive and none lost or repeated, for any number of seconds up to the longest call and the end of the disc.
\<close>

theorem drive_plays_at_75_hz:
  assumes "cdd_reachable d" "playing d" "lba d + 75 * int s \<le> leadout (toc d)" "0 < s" "s \<le> 343"
  shows "segacd_cdd_advance collect (of_nat (12500000 * s)) (d, []) =
    Some (True, d\<lparr>cycles := cycles d + 12500000 * s, frames := frames d + 75 * s, lba := lba d + 75 * int s\<rparr>,
      map (\<lambda>i. lba d + int i) [0..<75 * s])"
proof -
  have ok: "drive_ok d" using assms(1) by (rule reachable_drive_ok)
  have "12500000 * s < 2 ^ 32" using assms(5) by simp
  then have u: "unat (of_nat (12500000 * s) :: u32) = 12500000 * s" by (simp add: unsigned_of_nat take_bit_nat_eq_self del: of_nat_mult)
  have f: "1 \<le> frames d" "nth_frame d (frames d - 1) \<le> cycles d" "cycles d < nth_frame d (frames d)"
    using ok assms(2) by (auto simp: drive_ok_def times_after_def playing_def)
  have "nth_frame d (frames d + 75 * s - 1) \<le> cycles d + 12500000 * s" "cycles d + 12500000 * s < nth_frame d (frames d + 75 * s)"
    using f nth_frame_second [of d "frames d - 1" s] nth_frame_second [of d "frames d" s] by simp_all
  then obtain c where "drive_loop collect (cycles d + 12500000 * s) (d, [], False) =
      Some (d\<lparr>cycles := c, frames := frames d + 75 * s, lba := lba d + int (75 * s)\<rparr>, [] @ map (\<lambda>i. lba d + int i) [0..<75 * s], False \<or> 0 < 75 * s)"
    using play_loop [of d "75 * s" "cycles d + 12500000 * s" "[]" False] ok assms(2,3) by auto
  then show ?thesis using assms(4) u by (simp add: segacd_cdd_advance_def del: of_nat_mult)
qed

end
