(* ===== verification/Cd_Drive_Packets.thy ===== *)
theory Cd_Drive_Packets
  imports Cd_Drive_Props
begin

text \<open>
  The replies of the drive are well-formed packets with their checksum, and its head stays on the mounted disc,
  in every reachable state.
\<close>

section \<open>Packets and positions\<close>

definition nibbles :: "u8 list \<Rightarrow> bool" where
  "nibbles p \<longleftrightarrow> length p = 10 \<and> list_all (\<lambda>x. x < 16) p"

definition on_disc :: "SegaCDDrive \<Rightarrow> int \<Rightarrow> bool" where
  "on_disc d l \<longleftrightarrow> first_index d \<le> l \<and> l \<le> leadout (toc d)"

text \<open>What the packets need of the drive, and what keeps the head on the disc.\<close>

definition fields_ok :: "SegaCDDrive \<Rightarrow> bool" where
  "fields_ok d \<longleftrightarrow> d_status d < 16 \<and> after_seek d < 16 \<and> report d < 16 \<and>
     (toc_count d \<noteq> 0 \<longrightarrow> toc_valid (toc d) \<and> on_disc d (lba d) \<and> (seek_deadline d \<noteq> 0 \<longrightarrow> on_disc d (seek_target d)) \<and>
        (track_skip_active d \<longrightarrow> on_disc d (track_skip_target_lba d)))"

definition packet_ok :: "SegaCDDrive \<Rightarrow> bool" where
  "packet_ok d \<longleftrightarrow> fields_ok d \<and> nibbles (rx d) \<and> rx d ! 9 = checksum (rx d)"

lemma nibbles_update: "nibbles p \<Longrightarrow> x < 16 \<Longrightarrow> nibbles (p[n := x])"
  by (auto simp: nibbles_def list_all_iff dest!: set_update_subset_insert [THEN subsetD])

lemma digit_less: "of_nat (n mod 10) < (16 :: u8)"
proof -
  have "unat (of_nat (n mod 10) :: u8) = n mod 10" by (simp add: unsigned_of_nat take_bit_nat_eq_self)
  then show ?thesis by (simp add: word_less_nat_alt)
qed

lemma nibbles_digits: "nibbles p \<Longrightarrow> nibbles (digits at n p)"
  unfolding digits_def by (intro nibbles_update digit_less)

lemma nibbles_msf: "nibbles p \<Longrightarrow> nibbles (msf at fr p)"
  by (simp add: msf_def Let_def nibbles_digits)

lemma nibbles_nth: "nibbles p \<Longrightarrow> n < 10 \<Longrightarrow> p ! n < 16"
  by (simp add: nibbles_def list_all_length)

lemma or_eight: "x < 16 \<Longrightarrow> x OR 8 < 16" for x :: u8
  using OR_upper [of "uint x" 4 8] by (simp add: word_less_alt unsigned_or_eq)

lemma nibbles_report:
  assumes "nibbles p"
  shows "nibbles (report_bytes d p)"
proof -
  have "nibbles (if b then q[6 := q ! 6 OR 8] else q)" if "nibbles q" for q b
    using that by (simp add: nibbles_update or_eight nibbles_nth)
  then show ?thesis using assms
    by (simp add: report_bytes_def Let_def nibbles_update nibbles_msf nibbles_digits digit_less del: if_split_asm)
qed

lemma checksum_update: "checksum (p[9 := x]) = checksum p"
  by (simp add: checksum_def)

lemma checksum_less: "checksum p < 16"
proof -
  define s where "s = NOT (sum_list (map ucast (take 9 p)) :: u32)"
  have "unat (s AND 15) \<le> 15" using word_and_le1 [of s 15] by (simp add: word_le_nat_alt and.commute)
  then have "unat (ucast (s AND 15) :: u8) \<le> 15" by (simp add: unsigned_ucast_eq take_bit_nat_eq_self)
  then show ?thesis by (simp add: checksum_def s_def word_less_nat_alt)
qed

lemma packet_reply: "fields_ok d \<Longrightarrow> o' < 16 \<Longrightarrow> packet_ok (cdd_reply o' d)"
proof -
  assume f: "fields_ok d" "o' < 16"
  define p where "p = (replicate 10 0)[0 := if o' \<noteq> 0 then o' else d_status d, 1 := report d]"
  define q where "q = (if report_valid d \<and> toc_count d \<noteq> 0 \<and> \<not> tray_open d then report_bytes d p else p)"
  have "nibbles (replicate 10 0)" by (simp add: nibbles_def list_all_iff)
  then have "nibbles p" using f unfolding p_def by (intro nibbles_update) (simp_all add: fields_ok_def)
  then have q: "nibbles q" by (simp add: q_def nibbles_report)
  have r: "cdd_reply o' d = d\<lparr>rx := q[9 := checksum q]\<rparr>" by (simp add: cdd_reply_def p_def q_def Let_def)
  have "nibbles (q[9 := checksum q])" using q checksum_less by (rule nibbles_update)
  moreover have "q[9 := checksum q] ! 9 = checksum (q[9 := checksum q])" using q by (simp add: checksum_update nibbles_def)
  moreover have "fields_ok (d\<lparr>rx := l\<rparr>) = fields_ok d" for l by (simp add: fields_ok_def toc_count_def on_disc_def first_index_def)
  ultimately show ?thesis using f by (simp add: packet_ok_def r)
qed

lemma status_less: "STOP < 16" "PLAY < 16" "SEEK < 16" "SCAN < 16" "PAUSE < 16" "OPEN < 16" "CHECKSUM < 16" "ERROR < 16" "READ_TOC < 16"
  "TRACKING < 16" "NO_DISC < 16" "LEADOUT < 16"
  by (simp_all add: STOP_def PLAY_def SEEK_def SCAN_def PAUSE_def OPEN_def CHECKSUM_def ERROR_def READ_TOC_def TRACKING_def NO_DISC_def LEADOUT_def)

lemma toc_valid_range: "toc_valid t \<Longrightarrow> index00 (toc_track t ! 0) \<le> 0 \<and> 0 < leadout t"
  by (auto simp: toc_valid_def track_valid_def Let_def list_all_iff not_less dest!: bspec [where x = 0])

lemmas position_defs = fields_ok_def on_disc_def first_index_def toc_count_def

lemma clip_on_disc: "first_index d < leadout (toc d) \<Longrightarrow> on_disc d (clip_lba d l)"
  by (simp add: clip_lba_def on_disc_def Let_def)

lemma bounded_on_disc: "first_index d < leadout (toc d) \<Longrightarrow> on_disc d (bounded_radius_to_lba d r)"
  using clip_on_disc [of d] by (auto simp: bounded_radius_to_lba_def radius_to_lba_def Let_def on_disc_def)

text \<open>Updates that keep the fields: a status, a report, and the cancelled motions.\<close>

lemma fields_halt: "fields_ok d \<Longrightarrow> st < 16 \<Longrightarrow> fields_ok (halt_at st d)"
  by (simp add: halt_at_def cancel_track_skip_def position_defs)

lemma packet_stop: "fields_ok d \<Longrightarrow> packet_ok (cmd_stop d)"
  unfolding cmd_stop_def using fields_halt [of d STOP] by (intro packet_reply) (simp_all add: position_defs status_less)

lemma packet_pause: "fields_ok d \<Longrightarrow> packet_ok (cmd_pause d)"
  unfolding cmd_pause_def using fields_halt [of d PAUSE] by (intro packet_reply) (simp_all add: status_less)

lemma packet_play: "fields_ok d \<Longrightarrow> packet_ok (cmd_play d)"
  unfolding cmd_play_def using fields_halt [of d PLAY] by (intro packet_reply) (simp_all add: position_defs status_less)

lemma packet_scan: "fields_ok d \<Longrightarrow> packet_ok (cmd_scan n d)"
  unfolding cmd_scan_def by (intro packet_reply) (simp_all add: position_defs status_less cancel_track_skip_def)

lemma five_less: "\<not> 5 < x \<Longrightarrow> x < 16" for x :: u8
  by (simp add: word_less_nat_alt)

lemma packet_report: "fields_ok d \<Longrightarrow> packet_ok (cmd_report p d)"
  unfolding cmd_report_def Let_def
  by (auto intro!: packet_reply simp: position_defs status_less five_less)

lemma packet_seek:
  assumes "fields_ok d" "toc_count d \<noteq> 0" "after < 16"
  shows "packet_ok (cmd_seek after p d)"
proof (cases "destination p")
  case None
  then show ?thesis using assms(1) by (simp add: cmd_seek_def packet_reply status_less)
next
  case (Some target)
  have r: "first_index d \<le> 0" "0 < leadout (toc d)" using assms toc_valid_range by (auto simp: position_defs)
  show ?thesis
  proof (cases "target \<ge> leadout (toc d)")
    case True
    then show ?thesis using Some assms(1) by (simp add: cmd_seek_def packet_reply status_less)
  next
    case False
    have "fields_ok ((cancel_track_skip d)\<lparr>seek_target := if target - 3 < first_index d then first_index d else target - 3, after_seek := after,
        seek_deadline := t, d_status := SEEK, scan := 0, report := 2, report_valid := True\<rparr>)" for t
      using assms r False by (simp add: cancel_track_skip_def position_defs status_less)
    then show ?thesis using Some False by (simp add: cmd_seek_def Let_def packet_reply cancel_track_skip_def)
  qed
qed

lemma packet_skip:
  assumes "fields_ok d" "toc_count d \<noteq> 0"
  shows "packet_ok (cmd_skip p d)"
proof -
  define e where "e = (if report d = 4 \<or> report d = 5 then d\<lparr>report := 0\<rparr> else d)"
  define f where "f = (cancel_track_skip e)\<lparr>scan := 0, seek_deadline := 0, track_skip_inward := p ! 2 \<noteq> 0 \<or> p ! 3 \<noteq> 0,
    track_skip_origin_lba := lba e, track_skip_count := skip_turns p, track_skip_step := 0, track_skip_origin_cycle := cycles e\<rparr>"
  have f: "fields_ok f" using assms by (simp add: f_def e_def cancel_track_skip_def position_defs)
  have t: "toc f = toc d" by (simp add: f_def e_def cancel_track_skip_def)
  have "first_index f < leadout (toc f)" using assms toc_valid_range [of "toc d"] by (force simp: position_defs t)
  then have b: "on_disc f (bounded_radius_to_lba f r)" for r by (rule bounded_on_disc)
  define g where "g = f\<lparr>track_skip_target_lba := bounded_radius_to_lba f (moved_radius f (lba f) (ucast (skip_turns p) * SKIP_PITCH))\<rparr>"
  have g: "fields_ok g" "fields_ok (g\<lparr>d_status := PAUSE\<rparr>)" "fields_ok (g\<lparr>track_skip_active := True, track_skip_deadline := x, d_status := TRACKING\<rparr>)"
    "fields_ok (f\<lparr>track_skip_target_lba := l, d_status := PAUSE\<rparr>)" for x l
    using f b by (simp_all add: g_def position_defs status_less) (simp_all add: f_def cancel_track_skip_def)
  show ?thesis
    unfolding cmd_skip_def Let_def e_def [symmetric] f_def [symmetric] g_def [symmetric]
    using assms(1) g by (simp add: packet_reply status_less)
qed

lemma packet_if: "(b \<Longrightarrow> packet_ok x) \<Longrightarrow> (\<not> b \<Longrightarrow> packet_ok y) \<Longrightarrow> packet_ok (if b then x else y)"
  by simp

lemma packet_execute:
  assumes "fields_ok d"
  shows "packet_ok (execute d)"
proof -
  have tray: "fields_ok ((cancel_track_skip d)\<lparr>tray_open := b, d_status := st, motor_started := c\<rparr>)"
    "fields_ok ((cancel_track_skip d)\<lparr>tray_open := b, d_status := st, motor_started := c, seek_deadline := 0, scan := 0\<rparr>)"
    "fields_ok (if b then d\<lparr>d_status := st\<rparr> else d)" if "st < 16" for b c st
    using assms that by (simp_all add: cancel_track_skip_def position_defs)
  have unknown: "fields_ok (d\<lparr>unsupported_command := u\<rparr>)" for u using assms by (simp add: position_defs)
  show ?thesis
    unfolding execute_def Let_def
    by (intro packet_if packet_reply packet_stop packet_report packet_seek packet_pause packet_play packet_scan packet_skip tray unknown assms)
      (simp_all add: status_less)
qed

section \<open>Events keep them\<close>

lemma packet_ok_fields: "packet_ok d \<Longrightarrow> fields_ok d"
  by (simp add: packet_ok_def)

lemma packet_ok_update:
  "packet_ok d \<Longrightarrow> rx e = rx d \<Longrightarrow> fields_ok e \<Longrightarrow> packet_ok e"
  by (simp add: packet_ok_def)

lemma packet_skip_step:
  assumes "packet_ok d" "track_skip_active d"
  shows "packet_ok (skip_step d)"
proof (rule packet_ok_update [OF assms(1)])
  show "rx (skip_step d) = rx d" by (simp add: skip_step_def cancel_track_skip_def Let_def)
  define e where "e = d\<lparr>track_skip_step := track_skip_step d + 1\<rparr>"
  have f: "fields_ok d" using assms(1) by (rule packet_ok_fields)
  have "toc_count d \<noteq> 0 \<Longrightarrow> first_index e < leadout (toc e)" using f toc_valid_range [of "toc d"] by (force simp: position_defs e_def)
  then have b: "toc_count d \<noteq> 0 \<Longrightarrow> on_disc e (bounded_radius_to_lba e r)" for r by (intro bounded_on_disc)
  have t: "toc_count d \<noteq> 0 \<Longrightarrow> on_disc d (track_skip_target_lba d)" using f assms(2) by (simp add: fields_ok_def)
  define h where "h = e\<lparr>lba := bounded_radius_to_lba e (moved_radius e (track_skip_origin_lba e) (ucast (track_skip_step e) * SKIP_PITCH))\<rparr>"
  have same: "on_disc e = on_disc d" "on_disc h = on_disc d" "toc_count h = toc_count d" "toc h = toc d" "track_skip_target_lba h = track_skip_target_lba d"
    "d_status h = d_status d" "after_seek h = after_seek d" "report h = report d" "seek_deadline h = seek_deadline d" "seek_target h = seek_target d"
    by (simp_all add: on_disc_def first_index_def e_def h_def toc_count_def fun_eq_iff)
  have "toc_count d \<noteq> 0 \<Longrightarrow> on_disc d (lba h)" using b unfolding same by (simp add: h_def)
  then have "fields_ok h" using f t by (simp add: fields_ok_def same)
  then have "fields_ok ((cancel_track_skip (h\<lparr>lba := track_skip_target_lba h\<rparr>))\<lparr>d_status := PAUSE\<rparr>)" "fields_ok (h\<lparr>track_skip_deadline := x\<rparr>)" for x
    using t by (simp_all add: cancel_track_skip_def status_less) (simp_all add: position_defs same status_less)
  then show "fields_ok (skip_step d)" unfolding skip_step_def Let_def e_def [symmetric] h_def [symmetric] by simp
qed

lemma fields_move:
  "fields_ok d \<Longrightarrow> st < 16 \<Longrightarrow> (toc_count d \<noteq> 0 \<longrightarrow> on_disc d l) \<Longrightarrow> fields_ok (d\<lparr>frames := n, d_status := st, lba := l\<rparr>)"
  by (simp add: position_defs)

lemma packet_frame:
  assumes "packet_ok d"
  shows "packet_ok (fst (drive_frame sink (d, m)))"
proof (rule packet_ok_update [OF assms])
  show "rx (fst (drive_frame sink (d, m))) = rx d" by (simp add: drive_frame_def scan_step_def Let_def)
  have f: "fields_ok d" using assms by (rule packet_ok_fields)
  have r: "toc_count d \<noteq> 0 \<longrightarrow> first_index d \<le> 0 \<and> 0 < leadout (toc d)" using f toc_valid_range by (auto simp: position_defs)
  have origin: "toc_count d \<noteq> 0 \<longrightarrow> on_disc d 0" using r by (auto simp: on_disc_def)
  note move = fields_move [OF f, of _ _ "frames d + 1"]
  consider "d_status d = STOP \<and> motor_started d" | "\<not> (d_status d = STOP \<and> motor_started d)" "d_status d = READ_TOC"
    | "\<not> (d_status d = STOP \<and> motor_started d)" "d_status d \<noteq> READ_TOC" "d_status d = PLAY"
    | "\<not> (d_status d = STOP \<and> motor_started d)" "d_status d \<noteq> READ_TOC" "d_status d \<noteq> PLAY" by blast
  then show "fields_ok (fst (drive_frame sink (d, m)))"
  proof cases
    case 1
    have "fields_ok (d\<lparr>frames := frames d + 1, d_status := READ_TOC, lba := 0\<rparr>)"
      "fields_ok (d\<lparr>frames := frames d + 1, d_status := NO_DISC, lba := 0\<rparr>)"
      using origin by (intro move; simp add: status_less)+
    then show ?thesis using 1 by (simp add: drive_frame_def Let_def)
  next
    case 2
    have "fields_ok (d\<lparr>frames := frames d + 1, d_status := PAUSE, lba := 0\<rparr>)"
      using origin by (intro move; simp add: status_less)
    then show ?thesis using 2 by (auto simp: drive_frame_def Let_def)
  next
    case 3
    have p: "toc_count d \<noteq> 0 \<longrightarrow> on_disc d (lba d)" using f by (simp add: fields_ok_def)
    have "fields_ok (d\<lparr>frames := frames d + 1, d_status := LEADOUT, lba := lba d\<rparr>)"
      using p by (intro move; simp add: status_less)
    moreover have "fields_ok (d\<lparr>frames := frames d + 1, d_status := PLAY, lba := lba d + 1\<rparr>)" if "\<not> leadout (toc d) \<le> lba d"
      using p that by (intro move) (auto simp: status_less on_disc_def)
    moreover have "d\<lparr>frames := n, d_status := LEADOUT, lba := lba d\<rparr> = d\<lparr>frames := n, d_status := LEADOUT\<rparr>"
      "d\<lparr>frames := n, d_status := PLAY, lba := x\<rparr> = d\<lparr>frames := n, lba := x\<rparr>" for n x using 3(3) by (cases d; simp)+
    ultimately show ?thesis using 3 by (auto simp: drive_frame_def Let_def)
  next
    case 4
    have "fields_ok (d\<lparr>frames := n\<rparr>)" for n using f by (simp add: position_defs)
    moreover have "fields_ok (scan_step (d\<lparr>frames := frames d + 1\<rparr>))" if scan: "d_status d = SCAN"
    proof -
      have "fields_ok (d\<lparr>frames := frames d + 1, d_status := LEADOUT, lba := leadout (toc d)\<rparr>)"
        using r by (intro move) (auto simp: status_less on_disc_def)
      moreover have "fields_ok (d\<lparr>frames := frames d + 1, d_status := SCAN, lba := if lba d + scan d < 0 then 0 else lba d + scan d\<rparr>)"
        if "(if lba d + scan d < 0 then 0 else lba d + scan d) < leadout (toc d)"
        using r that by (intro move) (auto simp: status_less on_disc_def)
      moreover have "d\<lparr>frames := n, d_status := SCAN, lba := x\<rparr> = d\<lparr>frames := n, lba := x\<rparr>"
        "d\<lparr>frames := n, d_status := LEADOUT, lba := x\<rparr> = d\<lparr>frames := n, lba := x, d_status := LEADOUT\<rparr>" for n x
        using scan by (cases d; simp)+
      ultimately show ?thesis by (auto simp: scan_step_def Let_def)
    qed
    ultimately show ?thesis using 4 by (auto simp: drive_frame_def Let_def)
  qed
qed

lemma packet_deadlines:
  assumes "packet_ok d" "0 < t"
  shows "packet_ok (drive_deadlines t d)"
proof -
  define d0 where "d0 = d\<lparr>cycles := t\<rparr>"
  define d1 where "d1 = (if command_deadline d0 = t
    then execute (d0\<lparr>command_pending := False, command_deadline := 0, control := control d0 AND NOT DTS\<rparr>) else d0)"
  define d2 where "d2 = (if seek_deadline d1 = t then d1\<lparr>seek_deadline := 0, lba := seek_target d1, d_status := after_seek d1\<rparr> else d1)"
  define d3 where "d3 = (if track_skip_active d2 \<and> track_skip_deadline d2 = t then skip_step d2 else d2)"
  have e: "drive_deadlines t d = (if fader_deadline d3 = t then d3\<lparr>fader_deadline := 0\<rparr> else d3)"
    by (simp only: drive_deadlines_def Let_def d0_def d1_def d2_def d3_def)
  have "packet_ok d0" using assms(1) by (simp add: d0_def packet_ok_def position_defs)
  moreover have "fields_ok (d0\<lparr>command_pending := False, command_deadline := 0, control := control d0 AND NOT DTS\<rparr>)"
    using assms(1) by (simp add: d0_def packet_ok_def position_defs)
  ultimately have 1: "packet_ok d1" by (simp add: d1_def packet_execute)
  then have 2: "packet_ok d2" using assms(2) by (simp add: d2_def packet_ok_def position_defs)
  then have 3: "packet_ok d3" by (simp add: d3_def packet_skip_step)
  then show ?thesis by (simp add: e packet_ok_def position_defs)
qed

lemma packet_event: "packet_ok d \<Longrightarrow> 0 < t \<Longrightarrow> packet_ok (fst (drive_event sink t (d, m, irq)))"
  using packet_frame [of "drive_deadlines t d" sink m] by (simp add: drive_event_def Let_def packet_deadlines split_beta)

lemma packet_loop:
  assumes "drive_ok (fst st)" "packet_ok (fst st)" "drive_loop sink u st = Some st'"
  shows "packet_ok (fst st')"
  using assms
proof (induction st rule: drive_loop_induct [where sink = sink and u = u])
  case (quiet st)
  then show ?case by (auto simp: drive_loop_quiet)
next
  case (event st t)
  obtain d m irq where st: "st = (d, m, irq)" by (cases st)
  have "packet_ok (fst (drive_event sink t st))" using event(5,8) packet_event [of d t sink m irq] by (simp add: st)
  then show ?case using event(7,9) drive_loop_event [OF event(2,3)] by simp
qed

lemma packet_reset:
  assumes "toc_count d \<noteq> 0 \<longrightarrow> toc_valid (toc d)"
  shows "packet_ok (segacd_cdd_reset d)"
  unfolding segacd_cdd_reset_def using assms toc_valid_range [of "toc d"]
  by (intro packet_reply) (auto simp: drive_zero_def position_defs status_less)

lemma packet_media:
  assumes "packet_ok d"
  shows "packet_ok (snd (segacd_cdd_mount t d))" "packet_ok (segacd_cdd_unmount d)"
proof -
  have f: "fields_ok d" using assms by (rule packet_ok_fields)
  show "packet_ok (snd (segacd_cdd_mount t d))"
    unfolding segacd_cdd_mount_def Let_def using assms f toc_valid_range [of t]
    by (auto intro!: packet_reply simp: cancel_track_skip_def position_defs status_less)
  show "packet_ok (segacd_cdd_unmount d)"
    unfolding segacd_cdd_unmount_def using f
    by (intro packet_reply) (simp_all add: cancel_track_skip_def position_defs status_less no_toc_def)
qed

lemma packet_write: "packet_ok d \<Longrightarrow> packet_ok (segacd_cdd_write r v d)"
  by (simp add: segacd_cdd_write_def write_control_def drop_command_def Let_def packet_ok_def position_defs)

lemma reachable_packet_ok: "cdd_reachable d \<Longrightarrow> packet_ok d"
proof (induction rule: cdd_reachable.induct)
  case (advance d clocks irq d' u)
  then obtain e where "drive_loop (\<lambda>_ _ m. m) (cycles d + unat clocks) (d, (), False) = Some (e, u, irq)" "d' = e\<lparr>cycles := cycles d + unat clocks\<rparr>"
    by (auto simp: segacd_cdd_advance_def Let_def split: option.splits)
  then show ?case using packet_loop [of "(d, (), False)" "\<lambda>_ _ m. m" "cycles d + unat clocks" "(e, u, irq)"] advance reachable_drive_ok
    by (simp add: packet_ok_def position_defs)
next
  case (reset d)
  then show ?case by (intro packet_reset) (simp add: packet_ok_def position_defs)
qed (simp_all add: segacd_cdd_init_def packet_reset drive_zero_def no_toc_def toc_count_def packet_media packet_write)

text \<open>
  In every reachable state of the drive, whatever the host has written and however time has passed, the reply is a
  packet of ten nibbles that carries its checksum, and as long as a disc is mounted its table of contents is consistent
  and the head lies between the first pregap and the lead-out.
\<close>

theorem drive_replies_valid:
  assumes "cdd_reachable d"
  shows "length (rx d) = 10 \<and> list_all (\<lambda>x. x < 16) (rx d) \<and> rx d ! 9 = checksum (rx d) \<and>
    (toc_track (toc d) = [] \<or> toc_valid (toc d) \<and> index00 (toc_track (toc d) ! 0) \<le> lba d \<and> lba d \<le> leadout (toc d))"
  using reachable_packet_ok [OF assms] by (auto simp: packet_ok_def nibbles_def position_defs)

end
