(* ===== verification/Spec2Isabelle.thy ===== *)
theory Spec2Isabelle
  imports M68k_Arith M68k_Divide M68k_Run_Props Genesis_Vdp_Props Audio_Psg_Props Audio_Mixer Genesis_Bus_Io Glue_Irq_Props Genesis_Machine_Props Cd_Cdda_Props Cd_Cdc_Props Cd_Drive_Packets
begin

text \<open>
  A verification development for the runtime of the Sega Genesis recompiler, the C code under
  \<^verbatim>\<open>src/runner\<close>. The runtime executes a recompiled 68000 program together with models of the console's
  other chips, line by line, and produces picture and sound.

  \<^bold>\<open>How the parts interact.\<close> The scheduler (\<^verbatim>\<open>video/genesis_machine.c\<close>) runs 262 lines a frame. For each line
  it starts the line in the VDP (\<^verbatim>\<open>video/genesis_vdp.c\<close>), gives the recompiled program a chunk of cycles
  through the glue (\<^verbatim>\<open>glue.c\<close>), delivers latched and new interrupts, steps the Z80 for its share, and emits
  the row. Program and Z80 reach everything through the bus (\<^verbatim>\<open>video/genesis_bus.c\<close>), which stamps writes to the sound
  chips and queues them (\<^verbatim>\<open>audio/event_queue.c\<close>). Once a frame the mixer (\<^verbatim>\<open>audio/mixer.c\<close>) orders the queue
  (\<^verbatim>\<open>audio/event_order.c\<close>), applies it to the chips at its stamps (\<^verbatim>\<open>audio/psg.c\<close>, and an FM core outside the
  repository) and renders. Code that the recompiler could not translate runs in the interpreter
  (\<^verbatim>\<open>m68k_interp.c\<close>). The Sega CD (\<^verbatim>\<open>cd/\<close>) adds a drive, a CD controller, CD audio with a fader, a PCM chip and a
  mixer of its own clock domain.

  \<^bold>\<open>The library.\<close> \<open>Prelude\<close> has the word types, the shared list and word lemmas and the collections. A theory
  of definitions has the operations of its source file under the C names; a theory \<open>_Props\<close> beside it has
  the properties.

  \<^item> 68000 interpreter, \<^verbatim>\<open>m68k_interp.c\<close>. \<open>M68k_Alu\<close>: sizes, flags, conditions, shifts, division, decimal
    arithmetic. \<open>M68k_Ea\<close>: addressing modes and stack, in a state monad over the record \<open>interp\<close>. \<open>M68k_Exec\<close>:
    \<^verbatim>\<open>exec_one\<close> for every mnemonic. \<open>M68k_Run\<close>: cycle estimate, single step, and the four run loops as partial
    functions into \<open>option\<close>. \<open>M68k_Alu\<close>, \<open>M68k_Arith\<close> and \<open>M68k_Divide\<close> relate conditions, shifts, rotates, extended,
    decimal and division instructions to integer arithmetic. \<open>M68k_Run_Props\<close> bounds every run loop by the instruction guard
    through the locale \<open>guarded_loop\<close>, interpreted on the four loop bodies, and states the coverage and
    discovery records. The bus, the decoder and the services of the runtime are the record \<open>ops\<close>.
  \<^item> VDP, \<^verbatim>\<open>video/genesis_vdp.c\<close>. \<open>Genesis_Vdp\<close>: ports, memories, DMA, status and line timing. \<open>Vdp_Dac\<close>: the colour ladder
    and its tables. \<open>Vdp_Lanes\<close>: pixel lanes packed in words. \<open>Vdp_Render\<close>, \<open>Vdp_Row\<close>, \<open>Vdp_Compose\<close>: sprites,
    planes, window, priorities, the scalar and batched renderers, captured rows. \<open>Genesis_Vdp_Props\<close>, \<open>Vdp_Render_Props\<close> and
    \<open>Vdp_Picture\<close> show port round trips, exact DMA blocks, the lines of the interrupts, and that all renderers give the
    same row, at once or captured and composed later.
  \<^item> Buses, \<^verbatim>\<open>video/genesis_bus.c\<close>. \<open>Genesis_Bus\<close>: both address decoders, FM timer, battery RAM, controllers.
    \<open>Genesis_Bus_Props\<close>: memories as instances of the locale \<open>byte_memory\<close>, side-effect-free peeks, timer polling.
    \<open>Genesis_Bus_Io\<close>: the controller protocol, the bank register, and the bounds of battery RAM over all reachable
    bus states.
  \<^item> Glue, \<^verbatim>\<open>glue.c\<close>. \<open>Glue_Irq\<close>: delivery of handlers, latches, raster debt, chunks, divided clock.
    \<open>Glue_Irq_Props\<close>: a delivery is invisible to the interrupted program and exactly accounted, masked requests are
    one level-triggered line, the clock loses no cycle.
  \<^item> Scheduler, \<^verbatim>\<open>video/genesis_machine.c\<close>. \<open>Genesis_Machine\<close>: the frame loop, sinks and producers, snapshots.
    \<open>Genesis_Machine_Props\<close>: output is invisible to the guest, the Z80 keeps pace and frames end, snapshots restore
    the machine or change nothing.
  \<^item> Sound, \<^verbatim>\<open>audio/\<close>. \<open>Audio_Queue\<close>: the event ring refines a bounded FIFO (locale \<open>bounded_fifo\<close>) and survives both
    snapshot formats. \<open>Audio_Order\<close>: the merge sort is the stable sort and keeps FM pairs. \<open>Audio_Psg\<close> and
    \<open>Audio_Psg_Props\<close>: the sound generator, its fast path and its range. \<open>Audio_Mixer\<close>: the frame drain with
    deferral, the executor and the serial path with their own rendering, and the crossfade.
  \<^item> Sega CD, \<^verbatim>\<open>cd/\<close>. \<open>Cd_Mix\<close>, \<open>Cd_Native\<close>: the clock-domain mixer and its sinks (locale \<open>owned_sink\<close>, interpreted on both).
    \<open>Cd_Pcm\<close>, \<open>Cd_Cdda\<close> with their \<open>_Props\<close>: the PCM chip and CD audio, whose reserved spans equal
    sample-by-sample output. \<open>Cd_Cdc\<close>, \<open>Cd_Cdc_Props\<close>: the CD controller, whose status flags are truthful and whose
    transfers deliver the programmed block. \<open>Cd_Drive\<close>, \<open>Cd_Drive_Props\<close>, \<open>Cd_Drive_Packets\<close>: the drive, whose event loop ends and
    does not depend on how time is cut, which plays 75 sectors a second and answers with checksummed packets.

  \<^bold>\<open>State and machine integers.\<close> A C structure is a record, and statics of a file are fields of the record of its component.
  Values that wrap are words of their width; indices that the code keeps in range are naturals; Sega CD times are naturals, since
  their 64-bit counters do not wrap in the life of a console. An out-of-range array access has no meaning in C: where a
  theorem speaks of bounds it states them, elsewhere memories are total functions on their address type.

  \<^bold>\<open>Loops, fuel and bounds.\<close> Loops with a measure are total functions. A loop that may run forever (the interpreter's run
  loops, the Z80 slice, the drive's event loop) is a partial function into \<open>option\<close>, where \<open>None\<close> is not returning, and the theorems
  prove a result. No definition of the model takes fuel; the only fuel is in the example core of \<open>Genesis_Machine_Props\<close>, 65535 fetches,
  more than a chain of prefixes can be long before address 0x6000. The bounds that appear are those of the code: 50000000
  instructions of the guard, 512 discovered targets, 262144 slots of the event ring and of a drain, 16 KB of battery RAM.

  \<^bold>\<open>Parameters.\<close> Code outside the repository, or vendored, is an argument: the 68000 decoder and the recompiled program with its
  handlers and fiber switch (\<open>ops\<close>, \<open>game\<close>), the FM chip with its shadow (\<open>fm_ops\<close>), one step of the Z80 core (\<open>z80_core\<close>), host
  sinks and producers, the environment. Theorems hold for every value of these, or name what they rely on: that a
  Z80 step takes between one and \<open>2\<^sup>3\<^sup>1\<close> T-states, that a handler leaves interrupt state alone. What the compiler decides (byte order, the size of
  the machine structure, whether the packed renderers are built) is an argument too.

  \<^bold>\<open>Not modelled.\<close> Host input and output (windows, files, sockets, threads beyond the order of the mixer's two jobs), netplay,
  diagnostics and traces that the shipped build leaves out, the build with a recompiled Z80, save-state files, the gate
  array and disc images of the Sega CD, per-title patches, the recompiler's command line, and vendored code. Bodies that do
  nothing in the shipped build are left out where they stand.
\<close>

end
